(* ===== verification/SdkPrelude.thy ===== *)
theory SdkPrelude
  imports Main "HOL-Library.Word" "HOL-Library.Monad_Syntax"
begin

text \<open>
  Shared vocabulary of the development: the integer types of
  \<^verbatim>\<open>standalone/common/ftypes.h\<close> for the AArch64 build, the error codes of
  \<^verbatim>\<open>standalone/common/ferror_code.h\<close>, assertions, a store of 32-bit cells, and the
  lemmas on words, lists and cyclic indices that the component theories share.

  \<^item> An assertion (\<^verbatim>\<open>FASSERT\<close>) that fails never returns: \<^verbatim>\<open>FAssert\<close> calls the
    callback and then spins for ever. An operation that can fail an assertion or loop for
    ever therefore returns an \<open>option\<close>, and \<open>None\<close> is "does not return".
  \<^item> The collection \<open>const_defs\<close> holds the definitions of numeric constants and register
    masks; \<open>cell_simps\<close> the rules for reading a store after a write.
\<close>

unbundle bit_operations_syntax

named_theorems const_defs \<open>definitions of numeric constants of the source\<close>
named_theorems cell_simps \<open>reads of a store after a write\<close>

section \<open>Types\<close>

type_synonym u8 = "8 word"
type_synonym u16 = "16 word"
type_synonym u32 = "32 word"
type_synonym u64 = "64 word"
type_synonym uintptr = "64 word"

text \<open>Memory of 32-bit cells, indexed by the byte address of the cell.\<close>
type_synonym mem32 = "uintptr \<Rightarrow> u32"

type_synonym FError = u32

section \<open>Error codes\<close>

definition FT_MAKE_ERRCODE :: "u32 \<Rightarrow> u32 \<Rightarrow> u32 \<Rightarrow> FError" where
  "FT_MAKE_ERRCODE sys_mode sub_mode tail =
     ((push_bit 24 sys_mode AND push_bit 24 0xff) OR
      (push_bit 16 sub_mode AND push_bit 16 0xff)) OR (tail AND 0xffff)"

definition FT_SUCCESS :: FError where [const_defs]: "FT_SUCCESS = 0"

definition FT_COMPONENT_IS_READY :: u32 where [const_defs]: "FT_COMPONENT_IS_READY = 0x11111111"
definition FT_COMPONENT_IS_STARTED :: u32 where [const_defs]: "FT_COMPONENT_IS_STARTED = 0x22222222"

definition ErrModBsp :: u32 where [const_defs]: "ErrModBsp = 1"
definition ErrModPort :: u32 where [const_defs]: "ErrModPort = 3"

section \<open>Assertions\<close>

definition FASSERT :: "bool \<Rightarrow> unit option" where
  "FASSERT b = (if b then Some () else None)"

lemma FASSERT_Some_iff [simp]: "FASSERT b = Some u \<longleftrightarrow> b"
  by (simp add: FASSERT_def)

lemma FASSERT_None_iff [simp]: "FASSERT b = None \<longleftrightarrow> \<not> b"
  by (simp add: FASSERT_def)

lemma FASSERT_bind_True [simp]: "b \<Longrightarrow> Option.bind (FASSERT b) f = f ()"
  by (simp add: FASSERT_def)

lemma FASSERT_bind_eq_Some_iff:
  "Option.bind (FASSERT b) f = Some x \<longleftrightarrow> b \<and> f () = Some x"
  by (simp add: FASSERT_def)

section \<open>Bits and masks\<close>

text \<open>The mask macros of \<^verbatim>\<open>standalone/common/fkernel.h\<close>, as written there.\<close>

definition BIT :: "nat \<Rightarrow> u32" where
  "BIT nr = push_bit nr 1"

definition GENMASK :: "nat \<Rightarrow> nat \<Rightarrow> u32" where
  "GENMASK h l = ((NOT 0) - push_bit l 1 + 1) AND drop_bit (32 - 1 - h) (NOT 0)"

definition GENMASK_ULL :: "nat \<Rightarrow> nat \<Rightarrow> u64" where
  "GENMASK_ULL h l = ((NOT 0) - push_bit l 1 + 1) AND drop_bit (64 - 1 - h) (NOT 0)"

definition UPPER_32_BITS :: "u64 \<Rightarrow> u32" where
  "UPPER_32_BITS n = ucast (drop_bit 16 (drop_bit 16 n))"

definition LOWER_32_BITS :: "u64 \<Rightarrow> u32" where
  "LOWER_32_BITS n = ucast (n AND 0xffffffff)"

lemma bit_BIT [simp]: "bit (BIT n) k \<longleftrightarrow> k = n \<and> n < 32"
  by (auto simp: BIT_def bit_simps)

lemma genmask_word_bit:
  fixes m :: "'a::len word"
  assumes "m = ((NOT 0) - push_bit l 1 + 1) AND drop_bit d (NOT 0)"
  shows "bit m k \<longleftrightarrow> l \<le> k \<and> k + d < LENGTH('a)"
proof -
  have "(NOT 0) - push_bit l 1 + 1 = NOT (mask l :: 'a word)"
    by (simp add: push_bit_eq_mult minus_exp_eq_not_mask [symmetric])
  then show ?thesis
    using assms by (auto simp: bit_simps)
qed

lemma bit_GENMASK: "h < 32 \<Longrightarrow> bit (GENMASK h l) k \<longleftrightarrow> l \<le> k \<and> k \<le> h"
  by (subst genmask_word_bit [OF GENMASK_def]) auto

lemma bit_GENMASK_ULL: "h < 64 \<Longrightarrow> bit (GENMASK_ULL h l) k \<longleftrightarrow> l \<le> k \<and> k \<le> h"
  by (subst genmask_word_bit [OF GENMASK_ULL_def]) auto

text \<open>Equal code for the evaluation of the masks.\<close>

lemma GENMASK_ULL_code [code]:
  "GENMASK_ULL h l = (if h < 64 then push_bit l (2 ^ (Suc h - l) - 1)
     else ((NOT 0) - push_bit l 1 + 1) AND drop_bit (64 - 1 - h) (NOT 0))"
proof (cases "h < 64")
  case True
  have "bit (GENMASK_ULL h l) k = bit (push_bit l (mask (Suc h - l)) :: u64) k" if "k < 64" for k
    using bit_GENMASK_ULL [OF True, of l k] that by (auto simp: bit_push_bit_iff bit_mask_iff)
  then have "GENMASK_ULL h l = push_bit l (mask (Suc h - l))" by (intro bit_word_eqI) simp
  then show ?thesis using True by (simp add: mask_eq_exp_minus_1)
qed (simp add: GENMASK_ULL_def)

text \<open>A single-bit mask test reads exactly that bit.\<close>

lemma AND_BIT_eq_0_iff: "n < 32 \<Longrightarrow> w AND BIT n = 0 \<longleftrightarrow> \<not> bit w n"
  by (auto intro!: bit_word_eqI simp: bit_and_iff dest: arg_cong [where f = "\<lambda>x. bit x n"])

text \<open>A natural number that fits in the width keeps its value.\<close>

lemma unat_of_nat_id: "n < 2 ^ LENGTH('a) \<Longrightarrow> unat (of_nat n :: 'a::len word) = n"
  by (simp add: unat_of_nat)

lemma unat_of_nat_64: "n < 2 ^ 64 \<Longrightarrow> unat (of_nat n :: u64) = n"
  by (rule unat_of_nat_id) simp

lemma unat_of_nat_32: "n < 2 ^ 32 \<Longrightarrow> unat (of_nat n :: u32) = n"
  by (rule unat_of_nat_id) simp

lemma unat_ucast_small:
  "unat w < 2 ^ LENGTH('b) \<Longrightarrow> unat (ucast (w :: 'a::len word) :: 'b::len word) = unat w"
  by (simp add: unsigned_ucast_eq take_bit_nat_eq_self)

lemma unat_ucast_up:
  "LENGTH('a) \<le> LENGTH('b) \<Longrightarrow> unat (ucast (w :: 'a :: len word) :: 'b :: len word) = unat w"
  by (simp add: unsigned_ucast_eq take_bit_nat_eq_self order_less_le_trans [OF unsigned_less])

lemma ucast_u32_inject: "(ucast (x :: u32) :: u64) = ucast y \<longleftrightarrow> x = y"
  using unat_ucast_up [where 'a = 32 and 'b = 64, of x] unat_ucast_up [where 'a = 32 and 'b = 64, of y] by (auto simp: word_unat_eq_iff)

lemma unat_pow2: "k < LENGTH('a) \<Longrightarrow> unat (push_bit k 1 :: 'a::len word) = 2 ^ k"
  by (simp only: unsigned_push_bit_eq) (simp add: take_bit_nat_eq_self)

text \<open>A counter below a bound does not wrap when it is incremented.\<close>

lemma unat_inc:
  assumes "x < y"
  shows "unat (x + 1) = Suc (unat (x :: 'a::len word))"
proof -
  have "Suc (unat x) \<le> unat y" using assms by (simp add: word_less_nat_alt Suc_le_eq)
  also have "unat y < 2 ^ LENGTH('a)" by (rule unsigned_less)
  finally show ?thesis by (simp add: unat_word_ariths)
qed

text \<open>The two halves of an address determine it.\<close>

lemma UPPER_LOWER_join:
  "push_bit 32 (ucast (UPPER_32_BITS n)) OR ucast (LOWER_32_BITS n) = (n :: u64)"
proof (rule bit_word_eqI)
  fix k assume "k < LENGTH(64)"
  have m: "(0xffffffff :: u64) = mask 32"
    by (simp add: mask_eq_exp_minus_1)
  show "bit (push_bit 32 (ucast (UPPER_32_BITS n)) OR ucast (LOWER_32_BITS n) :: u64) k = bit n k"
    unfolding UPPER_32_BITS_def LOWER_32_BITS_def m
    using \<open>k < LENGTH(64)\<close> by (cases "k < 32") (auto simp: bit_simps)
qed

section \<open>Loops of local updates\<close>

text \<open>
  A loop that visits distinct objects \<open>xs\<close> and updates the store only inside the object it
  visits: afterwards each visited object is as if it had been updated alone, and the others are
  unchanged. \<open>C x\<close> are the cells of object \<open>x\<close>.
\<close>

lemma foldl_local_out:
  assumes loc: "\<And>x y m c z. \<lbrakk>x \<in> I; z \<in> I; x \<noteq> z; c \<in> C z\<rbrakk> \<Longrightarrow> g x y m c = m c"
    and z: "z \<in> I" "c \<in> C z"
  shows "\<lbrakk>set xs \<subseteq> I; z \<notin> set xs\<rbrakk> \<Longrightarrow> foldl (\<lambda>m (x, y). g x y m) m (zip xs ys) c = m c"
proof (induction xs ys arbitrary: m rule: list_induct2')
  case (4 x xs y ys)
  then show ?case using loc [of x z c] z by auto
qed simp_all

lemma foldl_local_in:
  assumes loc: "\<And>x y m c z. \<lbrakk>x \<in> I; z \<in> I; x \<noteq> z; c \<in> C z\<rbrakk> \<Longrightarrow> g x y m c = m c"
    and dep: "\<And>x y m m' c. \<lbrakk>x \<in> I; \<forall>c\<in>C x. m c = m' c; c \<in> C x\<rbrakk> \<Longrightarrow> g x y m c = g x y m' c"
  shows "\<lbrakk>length xs = length ys; set xs \<subseteq> I; distinct xs; j < length xs; c \<in> C (xs ! j)\<rbrakk>
     \<Longrightarrow> foldl (\<lambda>m (x, y). g x y m) m (zip xs ys) c = g (xs ! j) (ys ! j) m c"
proof (induction xs ys arbitrary: m j rule: list_induct2)
  case (Cons x xs y ys)
  show ?case
  proof (cases j)
    case 0
    with Cons.prems foldl_local_out [where C = C and g = g and I = I and z = x and xs = xs, OF loc]
    show ?thesis by auto
  next
    case (Suc i)
    then have i: "i < length xs" "c \<in> C (xs ! i)" "xs ! i \<in> I" "xs ! i \<noteq> x" using Cons.prems by auto
    have "foldl (\<lambda>m (x, y). g x y m) m (zip (x # xs) (y # ys)) c = g (xs ! i) (ys ! i) (g x y m) c"
      using Cons.IH [of i "g x y m"] Cons.prems i by simp
    also have "\<dots> = g (xs ! i) (ys ! i) m c"
      using i Cons.prems by (intro dep) (auto intro: loc)
    finally show ?thesis using Suc by simp
  qed
qed simp

lemma foldl_update_nth:
  "\<lbrakk>length xs = length ys; distinct xs; set xs \<subseteq> {..<length s}; j < length xs\<rbrakk>
   \<Longrightarrow> foldl (\<lambda>s (x, y). s[x := f y]) s (zip xs ys) ! (xs ! j) = f (ys ! j)"
  "z \<notin> set xs \<Longrightarrow> foldl (\<lambda>s (x, y). s[x := f y]) s (zip xs ys) ! z = s ! z"
  "length (foldl (\<lambda>s (x, y). s[x := f y]) s (zip xs ys)) = length s"
proof -
  show out: "z \<notin> set xs \<Longrightarrow> foldl (\<lambda>s (x, y). s[x := f y]) s (zip xs ys) ! z = s ! z" for z s xs ys
    by (induction xs ys arbitrary: s rule: list_induct2') auto
  show "length (foldl (\<lambda>s (x, y). s[x := f y]) s (zip xs ys)) = length s"
    by (induction xs ys arbitrary: s rule: list_induct2') auto
  show "\<lbrakk>length xs = length ys; distinct xs; set xs \<subseteq> {..<length s}; j < length xs\<rbrakk>
   \<Longrightarrow> foldl (\<lambda>s (x, y). s[x := f y]) s (zip xs ys) ! (xs ! j) = f (ys ! j)"
  proof (induction xs ys arbitrary: s j rule: list_induct2)
    case (Cons x xs y ys)
    then show ?case using out [of x xs] by (cases j) auto
  qed simp
qed

end
