(* ===== verification/BdRing.thy ===== *)
theory BdRing
  imports SdkPrelude
begin

text \<open>
  The buffer-descriptor ring of the XMAC Ethernet driver,
  \<^verbatim>\<open>standalone/drivers/eth/fxmac/fxmac_bdring.c\<close> with \<^verbatim>\<open>fxmac_bdring.h\<close> and
  \<^verbatim>\<open>fxmac_bd.h\<close>, for the AArch64 build (a descriptor is four 32-bit words).

  The record \<open>FXmacBdRing\<close> is the C structure; descriptor memory is an explicit store.
  Pointers and sizes keep their C widths, so the pointer arithmetic of the seek macros wraps
  as it does in the code. Every function of the file is a definition of the same name. The
  scan of \<open>FXmacBdRingFromHwTx\<close> has no bound of its own and is a partial function.
\<close>

section \<open>Constants\<close>

definition ErrBspEth :: u32 where [const_defs]: "ErrBspEth = 8"
definition FXMAC_ERR_INVALID_PARAM :: FError where
  "FXMAC_ERR_INVALID_PARAM = FT_MAKE_ERRCODE ErrModBsp ErrBspEth 1"
definition FXMAC_ERR_SG_LIST :: FError where
  "FXMAC_ERR_SG_LIST = FT_MAKE_ERRCODE ErrModBsp ErrBspEth 2"
definition FXMAC_ERR_GENERAL :: FError where
  "FXMAC_ERR_GENERAL = FT_MAKE_ERRCODE ErrModBsp ErrBspEth 4"
definition FXMAC_ERR_SG_NO_LIST :: FError where
  "FXMAC_ERR_SG_NO_LIST = FT_MAKE_ERRCODE ErrModBsp ErrBspEth 5"

definition FXMAC_DMA_SG_IS_STARTED :: u32 where [const_defs]: "FXMAC_DMA_SG_IS_STARTED = 0"
definition FXMAC_DMA_SG_IS_STOPED :: u32 where [const_defs]: "FXMAC_DMA_SG_IS_STOPED = 1"
definition FXMAC_SEND :: u8 where [const_defs]: "FXMAC_SEND = 1"
definition FXMAC_RECV :: u8 where [const_defs]: "FXMAC_RECV = 2"

definition FXMAC_DMABD_MINIMUM_ALIGNMENT :: u32 where
  [const_defs]: "FXMAC_DMABD_MINIMUM_ALIGNMENT = 64"
definition FXMAC_BD_NUM_WORDS :: nat where [const_defs]: "FXMAC_BD_NUM_WORDS = 4"
definition sizeof_FXmacBd :: u32 where [const_defs]: "sizeof_FXmacBd = 16"

definition FXMAC_BD_ADDR_OFFSET :: uintptr where [const_defs]: "FXMAC_BD_ADDR_OFFSET = 0"
definition FXMAC_BD_STAT_OFFSET :: uintptr where [const_defs]: "FXMAC_BD_STAT_OFFSET = 4"
definition FXMAC_BD_ADDR_HI_OFFSET :: uintptr where [const_defs]: "FXMAC_BD_ADDR_HI_OFFSET = 8"

definition FXMAC_RXBUF_EOF_MASK :: u32 where "FXMAC_RXBUF_EOF_MASK = BIT 15"
definition FXMAC_RXBUF_WRAP_MASK :: u32 where "FXMAC_RXBUF_WRAP_MASK = BIT 1"
definition FXMAC_RXBUF_NEW_MASK :: u32 where "FXMAC_RXBUF_NEW_MASK = BIT 0"
definition FXMAC_TXBUF_USED_MASK :: u32 where "FXMAC_TXBUF_USED_MASK = BIT 31"
definition FXMAC_TXBUF_WRAP_MASK :: u32 where "FXMAC_TXBUF_WRAP_MASK = BIT 30"
definition FXMAC_TXBUF_LAST_MASK :: u32 where "FXMAC_TXBUF_LAST_MASK = BIT 15"

section \<open>Descriptor memory\<close>

definition FXMAC_BD_READ :: "mem32 \<Rightarrow> uintptr \<Rightarrow> uintptr \<Rightarrow> u32" where
  "FXMAC_BD_READ m bd_ptr off = m (bd_ptr + off)"

definition FXMAC_BD_WRITE :: "mem32 \<Rightarrow> uintptr \<Rightarrow> uintptr \<Rightarrow> u32 \<Rightarrow> mem32" where
  "FXMAC_BD_WRITE m bd_ptr off data = m(bd_ptr + off := data)"

definition FXMAC_BD_IS_RX_NEW :: "mem32 \<Rightarrow> uintptr \<Rightarrow> bool" where
  "FXMAC_BD_IS_RX_NEW m bd_ptr \<longleftrightarrow>
     FXMAC_BD_READ m bd_ptr FXMAC_BD_ADDR_OFFSET AND FXMAC_RXBUF_NEW_MASK \<noteq> 0"

definition FXMAC_BD_IS_TX_WRAP :: "mem32 \<Rightarrow> uintptr \<Rightarrow> bool" where
  "FXMAC_BD_IS_TX_WRAP m bd_ptr \<longleftrightarrow>
     FXMAC_BD_READ m bd_ptr FXMAC_BD_STAT_OFFSET AND FXMAC_TXBUF_WRAP_MASK \<noteq> 0"

definition FXMAC_BD_IS_RX_WRAP :: "mem32 \<Rightarrow> uintptr \<Rightarrow> bool" where
  "FXMAC_BD_IS_RX_WRAP m bd_ptr \<longleftrightarrow>
     FXMAC_BD_READ m bd_ptr FXMAC_BD_ADDR_OFFSET AND FXMAC_RXBUF_WRAP_MASK \<noteq> 0"

text \<open>\<open>memset(p, 0, 4 * k)\<close> and \<open>memcpy\<close> of one descriptor, by 32-bit cells.\<close>

primrec memset32 :: "mem32 \<Rightarrow> uintptr \<Rightarrow> u32 \<Rightarrow> nat \<Rightarrow> mem32" where
  "memset32 m a v 0 = m"
| "memset32 m a v (Suc k) = memset32 (m(a := v)) (a + 4) v k"

definition memcpy_bd :: "mem32 \<Rightarrow> uintptr \<Rightarrow> uintptr \<Rightarrow> mem32" where
  "memcpy_bd m dst src =
     m(dst := m src, dst + 4 := m (src + 4), dst + 8 := m (src + 8), dst + 12 := m (src + 12))"

section \<open>The ring\<close>

record FXmacBdRing =
  phys_base_addr :: uintptr
  base_bd_addr :: uintptr
  high_bd_addr :: uintptr
  ring_length :: u32
  run_state :: u32
  separation :: u32
  free_head :: uintptr
  pre_head :: uintptr
  hw_head :: uintptr
  hw_tail :: uintptr
  post_head :: uintptr
  bda_restart :: uintptr
  hw_cnt :: u32
  pre_cnt :: u32
  free_cnt :: u32
  post_cnt :: u32
  all_cnt :: u32

definition FXMAC_RING_SEEKAHEAD :: "FXmacBdRing \<Rightarrow> uintptr \<Rightarrow> u32 \<Rightarrow> uintptr" where
  "FXMAC_RING_SEEKAHEAD ring bdptr num_bd =
     (let addr = bdptr + ucast (separation ring * num_bd)
      in if addr > high_bd_addr ring \<or> bdptr > addr
         then addr - ucast (ring_length ring) else addr)"

definition FXMAC_RING_SEEKBACK :: "FXmacBdRing \<Rightarrow> uintptr \<Rightarrow> u32 \<Rightarrow> uintptr" where
  "FXMAC_RING_SEEKBACK ring bdptr num_bd =
     (let addr = bdptr - ucast (separation ring * num_bd)
      in if addr < base_bd_addr ring \<or> bdptr < addr
         then addr + ucast (ring_length ring) else addr)"

definition FXMAC_BD_RING_NEXT :: "FXmacBdRing \<Rightarrow> uintptr \<Rightarrow> uintptr" where
  "FXMAC_BD_RING_NEXT ring bd_ptr =
     (if bd_ptr \<ge> high_bd_addr ring then base_bd_addr ring
      else bd_ptr + ucast (separation ring))"

definition FXMAC_BD_RING_PREV :: "FXmacBdRing \<Rightarrow> uintptr \<Rightarrow> uintptr" where
  "FXMAC_BD_RING_PREV ring bd_ptr =
     (if bd_ptr \<le> base_bd_addr ring then high_bd_addr ring
      else bd_ptr - ucast (separation ring))"

text \<open>The address loop of \<open>FXmacBdRingCreate\<close>: step one descriptor, \<open>bd_count - 1\<close> times.\<close>

primrec bd_addr_steps :: "uintptr \<Rightarrow> uintptr \<Rightarrow> nat \<Rightarrow> uintptr" where
  "bd_addr_steps sep a 0 = a"
| "bd_addr_steps sep a (Suc k) = bd_addr_steps sep (a + sep) k"

definition FXmacBdRingCreate ::
  "FXmacBdRing \<Rightarrow> mem32 \<Rightarrow> uintptr \<Rightarrow> uintptr \<Rightarrow> u32 \<Rightarrow> u32 \<Rightarrow> FError \<times> FXmacBdRing \<times> mem32" where
  "FXmacBdRingCreate ring0 m phys_addr virt_addr alignment bd_count =
    (let ring = ring0\<lparr>all_cnt := 0, free_cnt := 0, hw_cnt := 0, pre_cnt := 0, post_cnt := 0\<rparr>
     in if alignment < FXMAC_DMABD_MINIMUM_ALIGNMENT then (FXMAC_ERR_INVALID_PARAM, ring, m)
     else if (alignment - 1) AND alignment \<noteq> 0 then (FXMAC_ERR_INVALID_PARAM, ring, m)
     else if phys_addr mod ucast alignment \<noteq> 0 \<or> virt_addr mod ucast alignment \<noteq> 0
     then (FXMAC_ERR_INVALID_PARAM, ring, m)
     else if bd_count = 0 then (FXMAC_ERR_INVALID_PARAM, ring, m)
     else let ring = ring\<lparr>separation := sizeof_FXmacBd\<rparr>;
              bytes = separation ring * bd_count
     in if virt_addr > virt_addr + ucast bytes - 1 then (FXMAC_ERR_SG_LIST, ring, m)
     else let m = memset32 m virt_addr 0 (unat bytes div 4);
              bd_virt_addr = bd_addr_steps (ucast (separation ring)) virt_addr (unat bd_count - 1);
              ring = ring\<lparr>run_state := FXMAC_DMA_SG_IS_STOPED,
                          base_bd_addr := virt_addr,
                          phys_base_addr := phys_addr,
                          high_bd_addr := bd_virt_addr\<rparr>;
              ring = ring\<lparr>ring_length := ucast (high_bd_addr ring - base_bd_addr ring
                                              + ucast (separation ring)),
                          all_cnt := bd_count,
                          free_cnt := bd_count,
                          free_head := virt_addr,
                          pre_head := virt_addr,
                          hw_head := virt_addr,
                          hw_tail := virt_addr,
                          post_head := virt_addr,
                          bda_restart := phys_addr\<rparr>
     in (FT_SUCCESS, ring, m))"

definition FXmacBdSetRxWrap :: "mem32 \<Rightarrow> uintptr \<Rightarrow> mem32" where
  "FXmacBdSetRxWrap m bdptr =
     (let temp_ptr = bdptr + FXMAC_BD_ADDR_OFFSET
      in if temp_ptr \<noteq> 0 then m(temp_ptr := m temp_ptr OR FXMAC_RXBUF_WRAP_MASK) else m)"

definition FXmacBdSetTxWrap :: "mem32 \<Rightarrow> uintptr \<Rightarrow> mem32" where
  "FXmacBdSetTxWrap m bdptr =
     (let temp_ptr = bdptr + FXMAC_BD_STAT_OFFSET
      in if temp_ptr \<noteq> 0 then m(temp_ptr := m temp_ptr OR FXMAC_TXBUF_WRAP_MASK) else m)"

text \<open>The copy loop of \<open>FXmacBdRingClone\<close>: returns the memory and the final \<open>cur_bd\<close>.\<close>

primrec clone_loop :: "mem32 \<Rightarrow> uintptr \<Rightarrow> uintptr \<Rightarrow> uintptr \<Rightarrow> nat \<Rightarrow> mem32 \<times> uintptr" where
  "clone_loop m src sep cur_bd 0 = (m, cur_bd)"
| "clone_loop m src sep cur_bd (Suc k) = clone_loop (memcpy_bd m cur_bd src) src sep (cur_bd + sep) k"

definition FXmacBdRingClone :: "FXmacBdRing \<Rightarrow> mem32 \<Rightarrow> uintptr \<Rightarrow> u8 \<Rightarrow> FError \<times> mem32" where
  "FXmacBdRingClone ring m src_bd_ptr direction =
    (if all_cnt ring = 0 then (FXMAC_ERR_SG_NO_LIST, m)
     else if run_state ring = FXMAC_DMA_SG_IS_STARTED then (FT_COMPONENT_IS_STARTED, m)
     else if free_cnt ring \<noteq> all_cnt ring then (FXMAC_ERR_SG_LIST, m)
     else if direction \<noteq> FXMAC_SEND \<and> direction \<noteq> FXMAC_RECV then (FXMAC_ERR_INVALID_PARAM, m)
     else let (m, cur_bd) = clone_loop m src_bd_ptr (ucast (separation ring))
                              (base_bd_addr ring) (unat (all_cnt ring));
              cur_bd = cur_bd - ucast (separation ring);
              m = (if direction = FXMAC_RECV then FXmacBdSetRxWrap m cur_bd
                   else FXmacBdSetTxWrap m cur_bd)
          in (FT_SUCCESS, m))"

text \<open>The output parameter \<open>*bd_set_ptr\<close> is the third component, unchanged on failure.\<close>

definition FXmacBdRingAlloc ::
  "FXmacBdRing \<Rightarrow> u32 \<Rightarrow> uintptr \<Rightarrow> FError \<times> FXmacBdRing \<times> uintptr" where
  "FXmacBdRingAlloc ring num_bd bd_set =
    (if free_cnt ring < num_bd then (FXMAC_ERR_GENERAL, ring, bd_set)
     else let bd_set = free_head ring;
              ring = ring\<lparr>free_head := FXMAC_RING_SEEKAHEAD ring (free_head ring) num_bd\<rparr>;
              ring = ring\<lparr>free_cnt := free_cnt ring - num_bd\<rparr>;
              ring = ring\<lparr>pre_cnt := pre_cnt ring + num_bd\<rparr>
          in (FT_SUCCESS, ring, bd_set))"

definition FXmacBdRingUnAlloc ::
  "FXmacBdRing \<Rightarrow> u32 \<Rightarrow> uintptr \<Rightarrow> (FError \<times> FXmacBdRing) option" where
  "FXmacBdRingUnAlloc ring num_bd bd_set_ptr = do {
     FASSERT (bd_set_ptr \<noteq> 0);
     Some (if pre_cnt ring < num_bd then (FXMAC_ERR_GENERAL, ring)
           else let ring = ring\<lparr>free_head := FXMAC_RING_SEEKBACK ring (free_head ring) num_bd\<rparr>;
                    ring = ring\<lparr>free_cnt := free_cnt ring + num_bd\<rparr>;
                    ring = ring\<lparr>pre_cnt := pre_cnt ring - num_bd\<rparr>
                in (FT_SUCCESS, ring))
   }"

text \<open>\<open>num_bd\<close> successive \<open>FXMAC_BD_RING_NEXT\<close> steps, the loop of \<open>FXmacBdRingToHw\<close>.\<close>

primrec bd_next_steps :: "FXmacBdRing \<Rightarrow> uintptr \<Rightarrow> nat \<Rightarrow> uintptr" where
  "bd_next_steps ring cur 0 = cur"
| "bd_next_steps ring cur (Suc k) = bd_next_steps ring (FXMAC_BD_RING_NEXT ring cur) k"

definition FXmacBdRingToHw :: "FXmacBdRing \<Rightarrow> u32 \<Rightarrow> uintptr \<Rightarrow> FError \<times> FXmacBdRing" where
  "FXmacBdRingToHw ring num_bd bd_set_ptr =
    (if num_bd = 0 then (FT_SUCCESS, ring)
     else if pre_cnt ring < num_bd \<or> pre_head ring \<noteq> bd_set_ptr then (FXMAC_ERR_SG_LIST, ring)
     else let cur_bd_ptr = bd_next_steps ring bd_set_ptr (unat num_bd);
              ring = ring\<lparr>pre_head := FXMAC_RING_SEEKAHEAD ring (pre_head ring) num_bd\<rparr>;
              ring = ring\<lparr>pre_cnt := pre_cnt ring - num_bd\<rparr>;
              ring = ring\<lparr>hw_tail := cur_bd_ptr\<rparr>;
              ring = ring\<lparr>hw_cnt := hw_cnt ring + num_bd\<rparr>
          in (FT_SUCCESS, ring))"

text \<open>
  The scan of \<open>FXmacBdRingFromHwTx\<close>: the state is \<open>cur_bd_ptr\<close>, \<open>bd_str\<close>, \<open>bd_count\<close> and
  \<open>bd_partial_count\<close>; it ends only when \<open>bd_count\<close> reaches the limit.
\<close>

partial_function (option) fromhw_tx_loop ::
  "FXmacBdRing \<Rightarrow> mem32 \<Rightarrow> u32 \<Rightarrow> uintptr \<Rightarrow> u32 \<Rightarrow> u32 \<Rightarrow> u32 \<Rightarrow> (u32 \<times> u32) option" where
  "fromhw_tx_loop ring m lim cur bd_str cnt part =
    (if cnt < lim then
       let bd_str = (if cur \<noteq> 0 then FXMAC_BD_READ m cur FXMAC_BD_STAT_OFFSET else bd_str);
           (cnt, part) = (if bd_str AND FXMAC_TXBUF_USED_MASK \<noteq> 0 then (cnt + 1, part + 1)
                          else (cnt, part));
           part = (if bd_str AND FXMAC_TXBUF_LAST_MASK \<noteq> 0 then 0 else part)
       in fromhw_tx_loop ring m lim (FXMAC_BD_RING_NEXT ring cur) bd_str cnt part
     else Some (cnt, part))"

declare fromhw_tx_loop.simps [code]

text \<open>The common tail of the two retrieval functions: hand \<open>bd_count\<close> descriptors back.\<close>

definition fromhw_take :: "FXmacBdRing \<Rightarrow> u32 \<Rightarrow> u32 \<times> FXmacBdRing \<times> uintptr" where
  "fromhw_take ring bd_count =
    (if bd_count > 0 then
       let bd_set = hw_head ring;
           ring = ring\<lparr>hw_cnt := hw_cnt ring - bd_count\<rparr>;
           ring = ring\<lparr>post_cnt := post_cnt ring + bd_count\<rparr>;
           ring = ring\<lparr>hw_head := FXMAC_RING_SEEKAHEAD ring (hw_head ring) bd_count\<rparr>
       in (bd_count, ring, bd_set)
     else (0, ring, 0))"

definition FXmacBdRingFromHwTx ::
  "FXmacBdRing \<Rightarrow> mem32 \<Rightarrow> u32 \<Rightarrow> (u32 \<times> FXmacBdRing \<times> uintptr) option" where
  "FXmacBdRingFromHwTx ring m bd_limit =
    (if hw_cnt ring = 0 then Some (0, ring, 0)
     else let lim = (if bd_limit > hw_cnt ring then hw_cnt ring else bd_limit)
          in do { (cnt, part) \<leftarrow> fromhw_tx_loop ring m lim (hw_head ring) 0 0 0;
                  Some (fromhw_take ring (cnt - part)) })"

text \<open>
  The scan of \<open>FXmacBdRingFromHwRx\<close>; the first argument counts the iterations left, which
  is \<open>bd_limit - bd_count\<close>.
\<close>

primrec fromhw_rx_loop ::
  "nat \<Rightarrow> FXmacBdRing \<Rightarrow> mem32 \<Rightarrow> uintptr \<Rightarrow> u32 \<Rightarrow> u32 \<Rightarrow> u32 \<Rightarrow> u32 \<times> u32" where
  "fromhw_rx_loop 0 ring m cur bd_str cnt part = (cnt, part)"
| "fromhw_rx_loop (Suc k) ring m cur bd_str cnt part =
    (let bd_str = (if cur \<noteq> 0 then FXMAC_BD_READ m cur FXMAC_BD_STAT_OFFSET else bd_str)
     in if \<not> FXMAC_BD_IS_RX_NEW m cur then (cnt, part)
        else fromhw_rx_loop k ring m (FXMAC_BD_RING_NEXT ring cur) bd_str (cnt + 1)
               (if bd_str AND FXMAC_RXBUF_EOF_MASK \<noteq> 0 then 0 else part + 1))"

definition FXmacBdRingFromHwRx ::
  "FXmacBdRing \<Rightarrow> mem32 \<Rightarrow> u32 \<Rightarrow> u32 \<times> FXmacBdRing \<times> uintptr" where
  "FXmacBdRingFromHwRx ring m bd_limit =
    (if hw_cnt ring = 0 then (0, ring, 0)
     else let (cnt, part) = fromhw_rx_loop (unat bd_limit) ring m (hw_head ring) 0 0 0
          in fromhw_take ring (cnt - part))"

definition FXmacBdRingFree :: "FXmacBdRing \<Rightarrow> u32 \<Rightarrow> uintptr \<Rightarrow> FError \<times> FXmacBdRing" where
  "FXmacBdRingFree ring num_bd bd_set_ptr =
    (if num_bd = 0 then (FT_SUCCESS, ring)
     else if post_cnt ring < num_bd \<or> post_head ring \<noteq> bd_set_ptr then (FXMAC_ERR_SG_LIST, ring)
     else let ring = ring\<lparr>free_cnt := free_cnt ring + num_bd\<rparr>;
              ring = ring\<lparr>post_cnt := post_cnt ring - num_bd\<rparr>;
              ring = ring\<lparr>post_head := FXMAC_RING_SEEKAHEAD ring (post_head ring) num_bd\<rparr>
          in (FT_SUCCESS, ring))"

text \<open>The link check of \<open>FXmacBdRingCheck\<close>: \<open>None\<close> on a mismatch, else the final \<open>addr_v\<close>.\<close>

primrec check_links :: "mem32 \<Rightarrow> uintptr \<Rightarrow> uintptr \<Rightarrow> uintptr \<Rightarrow> nat \<Rightarrow> uintptr option" where
  "check_links m sep addr_v addr_p 0 = Some addr_v"
| "check_links m sep addr_v addr_p (Suc k) =
    (if ucast (FXMAC_BD_READ m addr_v FXMAC_BD_ADDR_OFFSET) \<noteq> addr_p then None
     else check_links m sep (addr_v + sep) (addr_p + sep) k)"

definition ptr_outside :: "FXmacBdRing \<Rightarrow> uintptr \<Rightarrow> bool" where
  "ptr_outside ring addr_v \<longleftrightarrow> addr_v < base_bd_addr ring \<or> addr_v > high_bd_addr ring"

definition FXmacBdRingCheck :: "FXmacBdRing \<Rightarrow> mem32 \<Rightarrow> u8 \<Rightarrow> FError" where
  "FXmacBdRingCheck ring m direction =
    (if direction \<noteq> FXMAC_SEND \<and> direction \<noteq> FXMAC_RECV then FXMAC_ERR_INVALID_PARAM
     else if all_cnt ring = 0 then FXMAC_ERR_SG_NO_LIST
     else if run_state ring = FXMAC_DMA_SG_IS_STARTED then FT_COMPONENT_IS_STARTED
     else if run_state ring \<noteq> FXMAC_DMA_SG_IS_STOPED then FXMAC_ERR_SG_LIST
     else if ptr_outside ring (free_head ring) then FXMAC_ERR_SG_LIST
     else if ptr_outside ring (pre_head ring) then FXMAC_ERR_SG_LIST
     else if ptr_outside ring (hw_head ring) then FXMAC_ERR_SG_LIST
     else if ptr_outside ring (hw_tail ring) then FXMAC_ERR_SG_LIST
     else if ptr_outside ring (post_head ring) then FXMAC_ERR_SG_LIST
     else if hw_cnt ring + pre_cnt ring + free_cnt ring + post_cnt ring \<noteq> all_cnt ring
     then FXMAC_ERR_SG_LIST
     else case check_links m (ucast (separation ring)) (base_bd_addr ring)
                 (phys_base_addr ring + ucast (separation ring)) (unat (all_cnt ring) - 1) of
            None \<Rightarrow> FXMAC_ERR_SG_LIST
          | Some addr_v \<Rightarrow>
              if direction = FXMAC_SEND
              then (if \<not> FXMAC_BD_IS_TX_WRAP m addr_v then FXMAC_ERR_SG_LIST else FT_SUCCESS)
              else (if \<not> FXMAC_BD_IS_RX_WRAP m addr_v then FXMAC_ERR_SG_LIST else FT_SUCCESS))"

definition FXmacBdringPtrReset :: "FXmacBdRing \<Rightarrow> uintptr \<Rightarrow> FXmacBdRing" where
  "FXmacBdringPtrReset ring virtaddrloc =
     ring\<lparr>free_head := virtaddrloc, pre_head := virtaddrloc, hw_head := virtaddrloc,
          hw_tail := virtaddrloc, post_head := virtaddrloc\<rparr>"

end
