(* ===== verification/BdRingSpec.thy ===== *)
theory BdRingSpec
  imports BdRing "HOL-Library.Multiset"
begin

text \<open>
  What the descriptor ring promises. The specification is four queues of descriptor indices,
  one per ownership state (free, being prepared, owned by the hardware, processed); every
  operation moves a block of descriptors from one queue to the next. The lemmas show that the
  pointer and counter arithmetic of \<open>fxmac_bdring.c\<close> implements these moves.
\<close>

section \<open>Cyclic index lists\<close>

definition cyc :: "nat \<Rightarrow> nat \<Rightarrow> nat \<Rightarrow> nat list" where
  "cyc n s k = map (\<lambda>j. (s + j) mod n) [0..<k]"

lemma length_cyc [simp]: "length (cyc n s k) = k"
  by (simp add: cyc_def)

lemma cyc_0 [simp]: "cyc n s 0 = []"
  by (simp add: cyc_def)

lemma nth_cyc [simp]: "j < k \<Longrightarrow> cyc n s k ! j = (s + j) mod n"
  by (simp add: cyc_def)

lemma cyc_mod [simp]: "cyc n (s mod n) k = cyc n s k"
  by (simp add: cyc_def mod_simps)

lemma cyc_cong: "s mod n = s' mod n \<Longrightarrow> cyc n s k = cyc n s' k"
  by (metis cyc_mod)

lemma cyc_append: "cyc n s a @ cyc n (s + a) b = cyc n s (a + b)"
  by (rule nth_equalityI) (auto simp: nth_append add.assoc)

lemma cyc_append4:
  "cyc n p a @ cyc n (p + a) b @ cyc n (p + a + b) c @ cyc n (p + a + b + c) d = cyc n p (a + b + c + d)"
  unfolding cyc_append by (simp add: add.assoc)

lemma take_cyc: "a \<le> k \<Longrightarrow> take a (cyc n s k) = cyc n s a"
  by (rule nth_equalityI) auto

lemma drop_cyc: "drop a (cyc n s k) = cyc n (s + a) (k - a)"
  by (rule nth_equalityI) (auto simp: add.assoc)

lemma hd_cyc: "0 < k \<Longrightarrow> hd (cyc n s k) = s mod n"
  by (subst hd_conv_nth) (auto simp flip: length_greater_0_conv)

lemma last_cyc: "0 < k \<Longrightarrow> last (cyc n s k) = (s + (k - 1)) mod n"
  by (subst last_conv_nth) (auto simp flip: length_greater_0_conv)

lemma tl_cyc: "tl (cyc n s k) = cyc n (Suc s) (k - 1)"
  using drop_cyc [of 1 n s k] by (simp add: drop_Suc)

lemma distinct_cyc: "k \<le> n \<Longrightarrow> distinct (cyc n s k)"
  unfolding cyc_def distinct_map
proof (intro conjI inj_onI)
  fix x y
  assume k: "k \<le> n" and x: "x \<in> set [0..<k]" and y: "y \<in> set [0..<k]"
    and eq: "(s + x) mod n = (s + y) mod n"
  have cancel: "a = b" if "(s + a) mod n = (s + b) mod n" "a < n" "b < n" "a \<le> b" for a b
  proof -
    from that have "n dvd (s + b) - (s + a)"
      by (metis add_le_cancel_left mod_eq_dvd_iff_nat)
    with that show ?thesis
      by (auto dest: dvd_imp_le)
  qed
  from x y k have "x < n" "y < n" by auto
  with eq cancel [of x y] cancel [of y x] show "x = y"
    by (cases "x \<le> y") auto
qed simp

lemma set_cyc_full: "0 < n \<Longrightarrow> set (cyc n s n) = {0..<n}"
proof -
  assume n: "0 < n"
  have "set (cyc n s n) \<subseteq> {0..<n}"
    using n by (auto simp: cyc_def)
  moreover have "card (set (cyc n s n)) = n"
    by (simp add: distinct_card distinct_cyc)
  ultimately show ?thesis
    by (metis card_atLeastLessThan card_subset_eq diff_zero finite_atLeastLessThan)
qed

section \<open>The specification\<close>

record bdq =
  freeq :: "nat list"
  preq :: "nat list"
  hwq :: "nat list"
  postq :: "nat list"

definition spec_alloc :: "nat \<Rightarrow> bdq \<Rightarrow> bdq" where
  "spec_alloc k q = q\<lparr>freeq := drop k (freeq q), preq := preq q @ take k (freeq q)\<rparr>"

definition spec_unalloc :: "nat \<Rightarrow> bdq \<Rightarrow> bdq" where
  "spec_unalloc k q =
     (let j = length (preq q) - k
      in q\<lparr>preq := take j (preq q), freeq := drop j (preq q) @ freeq q\<rparr>)"

definition spec_tohw :: "nat \<Rightarrow> bdq \<Rightarrow> bdq" where
  "spec_tohw k q = q\<lparr>preq := drop k (preq q), hwq := hwq q @ take k (preq q)\<rparr>"

definition spec_fromhw :: "nat \<Rightarrow> bdq \<Rightarrow> bdq" where
  "spec_fromhw k q = q\<lparr>hwq := drop k (hwq q), postq := postq q @ take k (hwq q)\<rparr>"

definition spec_free :: "nat \<Rightarrow> bdq \<Rightarrow> bdq" where
  "spec_free k q = q\<lparr>postq := drop k (postq q), freeq := freeq q @ take k (postq q)\<rparr>"

section \<open>Abstraction and invariant\<close>

text \<open>The address of descriptor \<open>i\<close>, and the index of an address (\<open>FXMAC_BD_TO_INDEX\<close>).\<close>

definition bd_at :: "FXmacBdRing \<Rightarrow> nat \<Rightarrow> uintptr" where
  "bd_at r i = base_bd_addr r + of_nat (16 * i)"

definition bd_index :: "FXmacBdRing \<Rightarrow> uintptr \<Rightarrow> nat" where
  "bd_index r a = unat (a - base_bd_addr r) div 16"

definition bd_num :: "FXmacBdRing \<Rightarrow> nat" where
  "bd_num r = unat (all_cnt r)"

definition ring_geom :: "FXmacBdRing \<Rightarrow> bool" where
  "ring_geom r \<longleftrightarrow> 0 < bd_num r \<and> bd_num r < 2 ^ 28 \<and> separation r = 16
     \<and> high_bd_addr r = bd_at r (bd_num r - 1) \<and> ring_length r = of_nat (16 * bd_num r)
     \<and> unat (base_bd_addr r) + 16 * bd_num r \<le> 2 ^ 64"

definition on_ring :: "FXmacBdRing \<Rightarrow> uintptr \<Rightarrow> bool" where
  "on_ring r a \<longleftrightarrow> bd_index r a < bd_num r \<and> a = bd_at r (bd_index r a)"

definition ring_inv :: "FXmacBdRing \<Rightarrow> bool" where
  "ring_inv r \<longleftrightarrow> ring_geom r
     \<and> on_ring r (post_head r) \<and> on_ring r (hw_head r) \<and> on_ring r (pre_head r)
     \<and> on_ring r (free_head r) \<and> hw_tail r = pre_head r
     \<and> bd_index r (hw_head r) = (bd_index r (post_head r) + unat (post_cnt r)) mod bd_num r
     \<and> bd_index r (pre_head r) = (bd_index r (hw_head r) + unat (hw_cnt r)) mod bd_num r
     \<and> bd_index r (free_head r) = (bd_index r (pre_head r) + unat (pre_cnt r)) mod bd_num r
     \<and> unat (post_cnt r) + unat (hw_cnt r) + unat (pre_cnt r) + unat (free_cnt r) = bd_num r"

definition ring_abs :: "FXmacBdRing \<Rightarrow> bdq" where
  "ring_abs r =
     \<lparr>freeq = cyc (bd_num r) (bd_index r (free_head r)) (unat (free_cnt r)),
      preq = cyc (bd_num r) (bd_index r (pre_head r)) (unat (pre_cnt r)),
      hwq = cyc (bd_num r) (bd_index r (hw_head r)) (unat (hw_cnt r)),
      postq = cyc (bd_num r) (bd_index r (post_head r)) (unat (post_cnt r))\<rparr>"

section \<open>Address arithmetic\<close>

lemma unat_bd_at_mod: "unat (bd_at r i) = (unat (base_bd_addr r) + 16 * i) mod 2 ^ 64"
  by (simp add: bd_at_def unat_word_ariths unat_of_nat mod_simps)

lemma unat_bd_at: "unat (base_bd_addr r) + 16 * i < 2 ^ 64 \<Longrightarrow>
    unat (bd_at r i) = unat (base_bd_addr r) + 16 * i"
  by (simp add: unat_bd_at_mod)

lemma bd_index_bd_at: "16 * i < 2 ^ 64 \<Longrightarrow> bd_index r (bd_at r i) = i"
  by (simp add: bd_index_def bd_at_def unat_of_nat_64 del: of_nat_mult)

lemma on_ring_bd_at: "\<lbrakk>ring_geom r; i < bd_num r\<rbrakk> \<Longrightarrow> on_ring r (bd_at r i)"
  by (auto simp: on_ring_def bd_index_bd_at ring_geom_def)

lemma on_ringE:
  assumes "on_ring r a"
  obtains i where "i < bd_num r" "a = bd_at r i" "bd_index r a = i"
  using assms by (auto simp: on_ring_def)

lemma unat_sep_mult:
  assumes "ring_geom r" "unat k \<le> bd_num r"
  shows "unat (separation r * k) = 16 * unat k"
  using assms by (auto simp: ring_geom_def unat_word_ariths)

lemma ucast_sep_mult:
  assumes "ring_geom r" "unat k \<le> bd_num r"
  shows "(ucast (separation r * k) :: uintptr) = of_nat (16 * unat k)"
proof -
  have "(ucast (separation r * k) :: uintptr) = of_nat (unat (separation r * k))"
    by simp
  then show ?thesis
    by (simp only: unat_sep_mult [OF assms])
qed

lemma ucast_ring_length:
  assumes "ring_geom r"
  shows "(ucast (ring_length r) :: uintptr) = of_nat (16 * bd_num r)"
proof -
  have "unat (ring_length r) = 16 * bd_num r"
    using assms by (simp add: ring_geom_def unat_of_nat_32 del: of_nat_mult)
  moreover have "(ucast (ring_length r) :: uintptr) = of_nat (unat (ring_length r))"
    by simp
  ultimately show ?thesis
    by (simp only:)
qed

lemma bd_at_add: "bd_at r i + of_nat (16 * k) = bd_at r (i + k)"
  by (simp add: bd_at_def algebra_simps)

lemma bd_at_diff: "k \<le> i \<Longrightarrow> bd_at r i - of_nat (16 * k) = bd_at r (i - k)"
  by (simp add: bd_at_def algebra_simps)

text \<open>The bounds that every address computation inside the ring uses.\<close>

lemma ring_geom_bounds:
  assumes "ring_geom r"
  shows "0 < bd_num r" "16 * bd_num r < 2 ^ 32" "unat (base_bd_addr r) + 16 * bd_num r \<le> 2 ^ 64"
    "unat (high_bd_addr r) = unat (base_bd_addr r) + 16 * (bd_num r - 1)"
  using assms by (auto simp: ring_geom_def unat_bd_at)

lemma unat_bd_at_geom:
  "\<lbrakk>ring_geom r; i < bd_num r\<rbrakk> \<Longrightarrow> unat (bd_at r i) = unat (base_bd_addr r) + 16 * i"
  by (rule unat_bd_at) (use ring_geom_bounds [of r] in linarith)

text \<open>
  Seeking forward by up to a full ring is addition of indices modulo the ring size, also
  when the ring ends exactly at the top of the address space and the addition wraps.
\<close>

lemma seekahead:
  assumes g: "ring_geom r" and i: "i < bd_num r" and k: "unat k \<le> bd_num r"
  shows "FXMAC_RING_SEEKAHEAD r (bd_at r i) k = bd_at r ((i + unat k) mod bd_num r)"
proof -
  let ?n = "bd_num r" and ?B = "unat (base_bd_addr r)" and ?j = "i + unat k"
  note b = ring_geom_bounds [OF g]
  have addr: "bd_at r i + ucast (separation r * k) = bd_at r ?j"
    by (simp only: ucast_sep_mult [OF g k] bd_at_add)
  have sub: "bd_at r ?j - ucast (ring_length r) = bd_at r (?j - ?n)" if "?n \<le> ?j"
    using that by (simp only: ucast_ring_length [OF g] bd_at_diff)
  have cond: "(bd_at r ?j > high_bd_addr r \<or> bd_at r i > bd_at r ?j) \<longleftrightarrow> ?n \<le> ?j"
  proof (cases "?j < ?n")
    case True
    then show ?thesis
      using b unat_bd_at_geom [OF g True] unat_bd_at_geom [OF g i]
      by (auto simp: word_less_nat_alt)
  next
    case False
    have "unat (bd_at r ?j) > unat (high_bd_addr r) \<or> unat (bd_at r i) > unat (bd_at r ?j)"
    proof (cases "?B + 16 * ?j < 2 ^ 64")
      case True
      with False b show ?thesis by (simp add: unat_bd_at)
    next
      case wrap: False
      have "?B + 16 * ?j < 2 ^ 64 + 2 ^ 64"
        using b i k by simp
      with wrap have "unat (bd_at r ?j) = ?B + 16 * ?j - 2 ^ 64"
        unfolding unat_bd_at_mod by (simp add: mod_if)
      with wrap b k i unat_bd_at_geom [OF g i] have "unat (bd_at r i) > unat (bd_at r ?j)"
        by simp
      then show ?thesis ..
    qed
    with False show ?thesis by (simp add: word_less_nat_alt)
  qed
  have mod: "?j mod ?n = (if ?n \<le> ?j then ?j - ?n else ?j)"
  proof (cases "?n \<le> ?j")
    case True
    then have "?j mod ?n = (?j - ?n) mod ?n" by (rule le_mod_geq)
    with True show ?thesis using i k b(1) by (cases "?j - ?n = ?n") auto
  qed simp
  show ?thesis
    by (simp add: FXMAC_RING_SEEKAHEAD_def Let_def addr cond sub mod)
qed

lemma seekback:
  assumes g: "ring_geom r" and i: "i < bd_num r" and k: "unat k \<le> bd_num r"
  shows "FXMAC_RING_SEEKBACK r (bd_at r i) k = bd_at r ((i + (bd_num r - unat k)) mod bd_num r)"
proof -
  let ?n = "bd_num r" and ?B = "unat (base_bd_addr r)"
  note b = ring_geom_bounds [OF g]
  have addr: "bd_at r i - ucast (separation r * k) = bd_at r i - of_nat (16 * unat k)"
    by (simp only: ucast_sep_mult [OF g k])
  show ?thesis
  proof (cases "unat k \<le> i")
    case True
    then have a: "bd_at r i - ucast (separation r * k) = bd_at r (i - unat k)"
      by (simp only: addr bd_at_diff)
    have "i - unat k < ?n" using i by simp
    then have "\<not> (bd_at r (i - unat k) < base_bd_addr r \<or> bd_at r i < bd_at r (i - unat k))"
      using unat_bd_at_geom [OF g] i by (simp add: word_less_nat_alt)
    moreover have "(i + (?n - unat k)) mod ?n = i - unat k"
      using True k i by (simp add: mod_if)
    ultimately show ?thesis
      by (simp add: FXMAC_RING_SEEKBACK_def Let_def a)
  next
    case False
    let ?a = "bd_at r i - of_nat (16 * unat k)"
    have up: "?a + ucast (ring_length r) = bd_at r (i + (?n - unat k))"
    proof -
      have "?a + of_nat (16 * ?n) = bd_at r i + of_nat (16 * ?n) - of_nat (16 * unat k)"
        by simp
      also have "\<dots> = bd_at r (i + ?n) - of_nat (16 * unat k)"
        by (simp only: bd_at_add)
      also have "\<dots> = bd_at r (i + ?n - unat k)"
        using k by (intro bd_at_diff) simp
      finally show ?thesis
        using k by (simp only: ucast_ring_length [OF g] Nat.add_diff_assoc)
    qed
    have low: "?a < base_bd_addr r \<or> bd_at r i < ?a"
    proof -
      let ?d = "16 * (unat k - i)"
      have a: "?a = base_bd_addr r - of_nat ?d"
        using False by (simp add: bd_at_def algebra_simps of_nat_diff)
      have d: "unat (of_nat ?d :: uintptr) = ?d"
        using b k by (intro unat_of_nat_64) simp
      have u: "unat ?a = (if ?d \<le> ?B then ?B - ?d else ?B + 2 ^ 64 - ?d)"
        unfolding a unat_sub_if' d by simp
      show ?thesis
      proof (cases "?d \<le> ?B")
        case True
        with u False have "?a < base_bd_addr r" by (simp add: word_less_nat_alt)
        then show ?thesis ..
      next
        case wrap: False
        with u b k i have "bd_at r i < ?a"
          by (simp add: word_less_nat_alt unat_bd_at_geom [OF g i])
        then show ?thesis ..
      qed
    qed
    have "i + (?n - unat k) < ?n" using False k by simp
    then show ?thesis
      using low up by (auto simp: FXMAC_RING_SEEKBACK_def Let_def addr simp del: of_nat_mult)
  qed
qed

lemma bd_ring_next:
  assumes g: "ring_geom r" and i: "i < bd_num r"
  shows "FXMAC_BD_RING_NEXT r (bd_at r i) = bd_at r (Suc i mod bd_num r)"
proof (cases "Suc i = bd_num r")
  case True
  then have "bd_num r - 1 = i" by simp
  with g have "high_bd_addr r = bd_at r i"
    by (simp add: ring_geom_def)
  with True show ?thesis
    by (simp add: FXMAC_BD_RING_NEXT_def bd_at_def)
next
  case False
  with i have s: "Suc i < bd_num r" by simp
  have "\<not> high_bd_addr r \<le> bd_at r i"
    using s ring_geom_bounds(4) [OF g] unat_bd_at_geom [OF g i] by (simp add: word_le_nat_alt)
  moreover have "bd_at r i + ucast (separation r) = bd_at r (Suc i)"
    using g by (simp add: ring_geom_def bd_at_def)
  ultimately show ?thesis
    using s by (simp add: FXMAC_BD_RING_NEXT_def)
qed

lemma bd_next_steps:
  assumes g: "ring_geom r" and i: "i < bd_num r"
  shows "bd_next_steps r (bd_at r i) k = bd_at r ((i + k) mod bd_num r)"
  using i
proof (induction k arbitrary: i)
  case (Suc k)
  have "bd_next_steps r (bd_at r i) (Suc k) = bd_next_steps r (bd_at r (Suc i mod bd_num r)) k"
    by (simp add: bd_ring_next [OF g Suc.prems])
  also have "\<dots> = bd_at r ((Suc i mod bd_num r + k) mod bd_num r)"
    using ring_geom_bounds(1) [OF g] by (intro Suc.IH) simp
  finally show ?case by (simp add: mod_simps)
qed simp

section \<open>The ring as four adjacent arcs\<close>

text \<open>
  \<open>ring_at r p a b c d\<close>: starting at index \<open>p\<close>, the ring holds \<open>a\<close> processed, \<open>b\<close> hardware,
  \<open>c\<close> prepared and \<open>d\<close> free descriptors, in this cyclic order, and they fill it.
\<close>

definition ring_at :: "FXmacBdRing \<Rightarrow> nat \<Rightarrow> nat \<Rightarrow> nat \<Rightarrow> nat \<Rightarrow> nat \<Rightarrow> bool" where
  "ring_at r p a b c d \<longleftrightarrow> ring_geom r \<and> p < bd_num r \<and> a + b + c + d = bd_num r
     \<and> unat (post_cnt r) = a \<and> unat (hw_cnt r) = b \<and> unat (pre_cnt r) = c \<and> unat (free_cnt r) = d
     \<and> post_head r = bd_at r p \<and> hw_head r = bd_at r ((p + a) mod bd_num r)
     \<and> pre_head r = bd_at r ((p + a + b) mod bd_num r)
     \<and> free_head r = bd_at r ((p + a + b + c) mod bd_num r) \<and> hw_tail r = pre_head r"

lemma bd_index_mod:
  "ring_geom r \<Longrightarrow> bd_index r (bd_at r (i mod bd_num r)) = i mod bd_num r"
proof (rule bd_index_bd_at)
  assume g: "ring_geom r"
  have "i mod bd_num r < bd_num r"
    using ring_geom_bounds(1) [OF g] by simp
  with ring_geom_bounds(2) [OF g] show "16 * (i mod bd_num r) < 2 ^ 64"
    by simp
qed

lemma bd_index_less: "\<lbrakk>ring_geom r; i < bd_num r\<rbrakk> \<Longrightarrow> bd_index r (bd_at r i) = i"
  using bd_index_mod [of r i] by simp

lemma ring_inv_iff_ring_at: "ring_inv r \<longleftrightarrow> (\<exists>p a b c d. ring_at r p a b c d)"
proof
  assume inv: "ring_inv r"
  then have g: "ring_geom r" by (simp add: ring_inv_def)
  let ?p = "bd_index r (post_head r)"
  have "ring_at r ?p (unat (post_cnt r)) (unat (hw_cnt r)) (unat (pre_cnt r)) (unat (free_cnt r))"
    using inv unfolding ring_inv_def ring_at_def on_ring_def
    by (metis (no_types, lifting) mod_add_left_eq)
  then show "\<exists>p a b c d. ring_at r p a b c d" by blast
next
  assume "\<exists>p a b c d. ring_at r p a b c d"
  then obtain p a b c d where at: "ring_at r p a b c d" by blast
  then have g: "ring_geom r" and p: "p < bd_num r" by (auto simp: ring_at_def)
  have on: "on_ring r (bd_at r (i mod bd_num r))" for i
    using g p by (intro on_ring_bd_at) auto
  show "ring_inv r"
    using at on [of p] on bd_index_less [OF g p] p
    by (simp add: ring_inv_def ring_at_def bd_index_mod mod_simps)
qed

lemma ring_abs_ring_at:
  "ring_at r p a b c d \<Longrightarrow> ring_abs r =
     \<lparr>freeq = cyc (bd_num r) (p + a + b + c) d, preq = cyc (bd_num r) (p + a + b) c,
      hwq = cyc (bd_num r) (p + a) b, postq = cyc (bd_num r) p a\<rparr>"
  by (simp add: ring_abs_def ring_at_def bd_index_mod bd_index_less)

lemma ring_atD:
  assumes "ring_at r p a b c d"
  shows "ring_geom r" "p < bd_num r" "a + b + c + d = bd_num r"
    "unat (post_cnt r) = a" "unat (hw_cnt r) = b" "unat (pre_cnt r) = c" "unat (free_cnt r) = d"
    "ring_inv r"
  using assms ring_inv_iff_ring_at by (auto simp: ring_at_def)

text \<open>Two rings over the same memory region: all index notions agree.\<close>

definition same_region :: "FXmacBdRing \<Rightarrow> FXmacBdRing \<Rightarrow> bool" where
  "same_region r r' \<longleftrightarrow> base_bd_addr r' = base_bd_addr r \<and> high_bd_addr r' = high_bd_addr r
     \<and> ring_length r' = ring_length r \<and> separation r' = separation r \<and> all_cnt r' = all_cnt r"

lemma same_regionD:
  assumes "same_region r r'"
  shows "bd_num r' = bd_num r" "bd_at r' = bd_at r" "bd_index r' = bd_index r"
    "ring_geom r' = ring_geom r"
  using assms by (auto simp: same_region_def bd_num_def bd_at_def bd_index_def ring_geom_def fun_eq_iff)

lemma same_region_upd [simp]:
  "same_region r (r\<lparr>free_head := x\<rparr>)" "same_region r (r\<lparr>pre_head := x\<rparr>)"
  "same_region r (r\<lparr>hw_head := x\<rparr>)" "same_region r (r\<lparr>hw_tail := x\<rparr>)"
  "same_region r (r\<lparr>post_head := x\<rparr>)" "same_region r (r\<lparr>hw_cnt := k\<rparr>)"
  "same_region r (r\<lparr>pre_cnt := k\<rparr>)" "same_region r (r\<lparr>free_cnt := k\<rparr>)"
  "same_region r (r\<lparr>post_cnt := k\<rparr>)"
  by (simp_all add: same_region_def)

lemma seekahead_same_region:
  "same_region r r' \<Longrightarrow> FXMAC_RING_SEEKAHEAD r' a k = FXMAC_RING_SEEKAHEAD r a k"
  by (simp add: same_region_def FXMAC_RING_SEEKAHEAD_def Let_def)

section \<open>Every operation is a move between adjacent arcs\<close>

text \<open>
  Counters stay below \<open>2 ^ 28\<close>, so the C additions and subtractions on them do not wrap.
\<close>

lemma cnt_add:
  fixes x k :: u32
  assumes "unat x + unat k \<le> n" "n < 2 ^ 28"
  shows "unat (x + k) = unat x + unat k"
  using assms by (subst unat_add_lem [THEN iffD1]) auto

lemma cnt_sub: "unat (k :: u32) \<le> unat x \<Longrightarrow> unat (x - k) = unat x - unat k"
  by (simp add: unat_sub word_le_nat_alt)

lemma ring_at_num: "ring_at r p a b c d \<Longrightarrow> bd_num r < 2 ^ 28"
  by (simp add: ring_at_def ring_geom_def)

lemma seekahead_ring_at:
  assumes "ring_at r p a b c d" and "unat k \<le> bd_num r"
  shows "FXMAC_RING_SEEKAHEAD r (bd_at r (i mod bd_num r)) k = bd_at r ((i + unat k) mod bd_num r)"
  using seekahead [OF ring_atD(1) [OF assms(1)], of "i mod bd_num r" k] assms ring_atD(2) [OF assms(1)]
  by (simp add: mod_simps)

lemma arc_shift: "k \<le> a \<Longrightarrow> ((p + k) mod n + (a - k) + x) mod n = (p + a + x) mod (n :: nat)"
proof -
  assume "k \<le> a"
  then have "p + k + ((a - k) + x) = p + a + x" by simp
  then show ?thesis by (simp only: add.assoc mod_add_left_eq)
qed

lemma alloc_ring_at:
  assumes at: "ring_at r p a b c d" and k: "unat k \<le> d"
  obtains r' where "FXmacBdRingAlloc r k bs = (FT_SUCCESS, r', bd_at r ((p + a + b + c) mod bd_num r))"
    "same_region r r'" "ring_at r' p a b (c + unat k) (d - unat k)"
proof -
  define r' where "r' = r\<lparr>free_head := FXMAC_RING_SEEKAHEAD r (free_head r) k,
     free_cnt := free_cnt r - k, pre_cnt := pre_cnt r + k\<rparr>"
  have same: "same_region r r'"
    by (simp add: r'_def same_region_def)
  have res: "FXmacBdRingAlloc r k bs = (FT_SUCCESS, r', bd_at r ((p + a + b + c) mod bd_num r))"
    using at k by (simp add: FXmacBdRingAlloc_def Let_def word_less_nat_alt ring_at_def r'_def)
  have "unat k \<le> bd_num r"
    using k ring_atD(3) [OF at] by simp
  then have "free_head r' = bd_at r ((p + a + b + c + unat k) mod bd_num r)"
    using at seekahead_ring_at [OF at, of k "p + a + b + c"]
    by (simp add: r'_def ring_at_def)
  moreover have "unat (pre_cnt r') = c + unat k" "unat (free_cnt r') = d - unat k"
    using at k cnt_add [of "pre_cnt r" k "bd_num r"] ring_at_num [OF at]
    by (auto simp: r'_def ring_at_def cnt_sub)
  ultimately have "ring_at r' p a b (c + unat k) (d - unat k)"
    using at k unfolding ring_at_def same_regionD [OF same]
    by (simp add: r'_def add.assoc)
  with res same that show thesis by blast
qed

lemma unalloc_ring_at:
  assumes at: "ring_at r p a b c d" and k: "unat k \<le> c" and bs: "bs \<noteq> 0"
  obtains r' where "FXmacBdRingUnAlloc r k bs = Some (FT_SUCCESS, r')"
    "same_region r r'" "ring_at r' p a b (c - unat k) (d + unat k)"
proof -
  define r' where "r' = r\<lparr>free_head := FXMAC_RING_SEEKBACK r (free_head r) k,
     free_cnt := free_cnt r + k, pre_cnt := pre_cnt r - k\<rparr>"
  have same: "same_region r r'"
    by (simp add: r'_def same_region_def)
  have res: "FXmacBdRingUnAlloc r k bs = Some (FT_SUCCESS, r')"
    using at k bs by (simp add: FXmacBdRingUnAlloc_def Let_def word_less_nat_alt ring_at_def r'_def)
  have kn: "unat k \<le> bd_num r"
    using k ring_atD(3) [OF at] by simp
  have "free_head r' = bd_at r ((p + a + b + (c - unat k)) mod bd_num r)"
  proof -
    have "free_head r' = bd_at r (((p + a + b + c) mod bd_num r + (bd_num r - unat k)) mod bd_num r)"
      using at kn seekback [OF ring_atD(1) [OF at], of "(p + a + b + c) mod bd_num r" k]
      by (simp add: r'_def ring_at_def)
    moreover have "((p + a + b + c) mod bd_num r + (bd_num r - unat k)) mod bd_num r
        = (p + a + b + (c - unat k) + bd_num r) mod bd_num r"
    proof -
      have "p + a + b + c + (bd_num r - unat k) = p + a + b + (c - unat k) + bd_num r"
        using k kn by simp
      then show ?thesis by (simp only: mod_add_left_eq)
    qed
    ultimately show ?thesis by simp
  qed
  moreover have "unat (pre_cnt r') = c - unat k" "unat (free_cnt r') = d + unat k"
    using at k cnt_add [of "free_cnt r" k "bd_num r"] ring_at_num [OF at]
    by (auto simp: r'_def ring_at_def cnt_sub)
  ultimately have "ring_at r' p a b (c - unat k) (d + unat k)"
    using at k unfolding ring_at_def same_regionD [OF same]
    by (simp add: r'_def)
  with res same that show thesis by blast
qed

lemma tohw_ring_at:
  assumes at: "ring_at r p a b c d" and k: "unat k \<le> c"
    and bs: "bs = bd_at r ((p + a + b) mod bd_num r)"
  obtains r' where "FXmacBdRingToHw r k bs = (FT_SUCCESS, r')"
    "same_region r r'" "ring_at r' p a (b + unat k) (c - unat k) d"
proof (cases "k = 0")
  case True
  with at have "FXmacBdRingToHw r k bs = (FT_SUCCESS, r)" "same_region r r"
    "ring_at r p a (b + unat k) (c - unat k) d"
    by (simp_all add: FXmacBdRingToHw_def same_region_def)
  with that show thesis by blast
next
  case False
  let ?e = "(p + a + b + unat k) mod bd_num r"
  define r' where "r' = r\<lparr>pre_head := FXMAC_RING_SEEKAHEAD r (pre_head r) k,
     pre_cnt := pre_cnt r - k, hw_tail := bd_next_steps r bs (unat k), hw_cnt := hw_cnt r + k\<rparr>"
  have same: "same_region r r'"
    by (simp add: r'_def same_region_def)
  have res: "FXmacBdRingToHw r k bs = (FT_SUCCESS, r')"
    using at k bs False
    by (simp add: FXmacBdRingToHw_def Let_def word_less_nat_alt ring_at_def r'_def)
  have "unat k \<le> bd_num r"
    using k ring_atD(3) [OF at] by simp
  then have pre: "pre_head r' = bd_at r ?e"
    using at seekahead_ring_at [OF at, of k "p + a + b"] by (simp add: r'_def ring_at_def)
  have "hw_tail r' = bd_at r ?e"
    using ring_atD(1,2) [OF at] bs
      bd_next_steps [of r "(p + a + b) mod bd_num r" "unat k"]
    by (simp add: r'_def mod_simps)
  moreover have "unat (pre_cnt r') = c - unat k" "unat (hw_cnt r') = b + unat k"
    using at k cnt_add [of "hw_cnt r" k "bd_num r"] ring_at_num [OF at]
    by (auto simp: r'_def ring_at_def cnt_sub)
  ultimately have "ring_at r' p a (b + unat k) (c - unat k) d"
    using at k pre unfolding ring_at_def same_regionD [OF same]
    by (simp add: r'_def add.assoc)
  with res same that show thesis by blast
qed

lemma fromhw_take_ring_at:
  assumes at: "ring_at r p a b c d" and k: "unat k \<le> b"
  obtains r' where "fromhw_take r k = (k, r', if k = 0 then 0 else bd_at r ((p + a) mod bd_num r))"
    "same_region r r'" "ring_at r' p (a + unat k) (b - unat k) c d"
proof (cases "k = 0")
  case True
  with at have "fromhw_take r k = (k, r, 0)" "same_region r r"
    "ring_at r p (a + unat k) (b - unat k) c d"
    by (simp_all add: fromhw_take_def same_region_def)
  with that True show thesis by auto
next
  case False
  define r' where "r' = r\<lparr>hw_cnt := hw_cnt r - k, post_cnt := post_cnt r + k,
     hw_head := FXMAC_RING_SEEKAHEAD r (hw_head r) k\<rparr>"
  have same: "same_region r r'"
    by (simp add: r'_def same_region_def)
  have "same_region r (r\<lparr>hw_cnt := hw_cnt r - k, post_cnt := post_cnt r + k\<rparr>)"
    by (simp add: same_region_def)
  then have res: "fromhw_take r k = (k, r', bd_at r ((p + a) mod bd_num r))"
    using at k False
    by (simp add: fromhw_take_def Let_def ring_at_def r'_def seekahead_same_region word_neq_0_conv)
  have "unat k \<le> bd_num r"
    using k ring_atD(3) [OF at] by simp
  then have "hw_head r' = bd_at r ((p + a + unat k) mod bd_num r)"
    using at seekahead_ring_at [OF at, of k "p + a"] by (simp add: r'_def ring_at_def)
  moreover have "unat (hw_cnt r') = b - unat k" "unat (post_cnt r') = a + unat k"
    using at k cnt_add [of "post_cnt r" k "bd_num r"] ring_at_num [OF at]
    by (auto simp: r'_def ring_at_def cnt_sub)
  ultimately have "ring_at r' p (a + unat k) (b - unat k) c d"
    using at k unfolding ring_at_def same_regionD [OF same]
    by (simp add: r'_def add.assoc)
  with res same that False show thesis by auto
qed

lemma free_ring_at:
  assumes at: "ring_at r p a b c d" and k: "unat k \<le> a" and bs: "bs = bd_at r p"
  obtains r' where "FXmacBdRingFree r k bs = (FT_SUCCESS, r')"
    "same_region r r'" "ring_at r' ((p + unat k) mod bd_num r) (a - unat k) b c (d + unat k)"
proof (cases "k = 0")
  case True
  with at have "FXmacBdRingFree r k bs = (FT_SUCCESS, r)" "same_region r r"
    "ring_at r ((p + unat k) mod bd_num r) (a - unat k) b c (d + unat k)"
    by (simp_all add: FXmacBdRingFree_def same_region_def ring_at_def)
  with that show thesis by blast
next
  case False
  define r' where "r' = r\<lparr>free_cnt := free_cnt r + k, post_cnt := post_cnt r - k,
     post_head := FXMAC_RING_SEEKAHEAD r (post_head r) k\<rparr>"
  have same: "same_region r r'"
    by (simp add: r'_def same_region_def)
  have "same_region r (r\<lparr>free_cnt := free_cnt r + k, post_cnt := post_cnt r - k\<rparr>)"
    by (simp add: same_region_def)
  then have res: "FXmacBdRingFree r k bs = (FT_SUCCESS, r')"
    using at k False bs
    by (simp add: FXmacBdRingFree_def Let_def word_less_nat_alt ring_at_def r'_def seekahead_same_region)
  have kn: "unat k \<le> bd_num r" and pn: "p < bd_num r"
    using k ring_atD(2,3) [OF at] by simp_all
  then have "post_head r' = bd_at r ((p + unat k) mod bd_num r)"
    using at seekahead [OF ring_atD(1) [OF at] pn kn] by (simp add: r'_def ring_at_def)
  moreover have "unat (post_cnt r') = a - unat k" "unat (free_cnt r') = d + unat k"
    using at k cnt_add [of "free_cnt r" k "bd_num r"] ring_at_num [OF at]
    by (auto simp: r'_def ring_at_def cnt_sub)
  moreover note arc_shift [OF k, of p "bd_num r" 0] arc_shift [OF k, of p "bd_num r" b]
    arc_shift [OF k, of p "bd_num r" "b + c"]
  ultimately have "ring_at r' ((p + unat k) mod bd_num r) (a - unat k) b c (d + unat k)"
    using at k pn unfolding ring_at_def same_regionD [OF same]
    by (simp add: r'_def add.assoc)
  with res same that show thesis by blast
qed

section \<open>The ring as a component\<close>

text \<open>
  One call of the ring's interface, with the pointer argument the caller obtained from the
  ring. \<open>BdTake\<close> is the retrieval of \<open>k\<close> descriptors by either \<open>FromHw\<close> function, after its
  scan of the status words. A call that returns an error gives \<open>None\<close>.
\<close>

datatype bd_op = BdAlloc u32 | BdUnAlloc u32 | BdToHw u32 | BdTake u32 | BdFree u32

fun ring_step :: "FXmacBdRing \<Rightarrow> bd_op \<Rightarrow> FXmacBdRing option" where
  "ring_step r (BdAlloc k) =
     (case FXmacBdRingAlloc r k 0 of (st, r', _) \<Rightarrow> if st = FT_SUCCESS then Some r' else None)"
| "ring_step r (BdUnAlloc k) =
     (case FXmacBdRingUnAlloc r k 1 of
        Some (st, r') \<Rightarrow> if st = FT_SUCCESS then Some r' else None
      | None \<Rightarrow> None)"
| "ring_step r (BdToHw k) =
     (case FXmacBdRingToHw r k (pre_head r) of (st, r') \<Rightarrow> if st = FT_SUCCESS then Some r' else None)"
| "ring_step r (BdTake k) =
     (if k \<le> hw_cnt r then (case fromhw_take r k of (_, r', _) \<Rightarrow> Some r') else None)"
| "ring_step r (BdFree k) =
     (case FXmacBdRingFree r k (post_head r) of (st, r') \<Rightarrow> if st = FT_SUCCESS then Some r' else None)"

fun spec_step :: "bdq \<Rightarrow> bd_op \<Rightarrow> bdq option" where
  "spec_step q (BdAlloc k) = (if unat k \<le> length (freeq q) then Some (spec_alloc (unat k) q) else None)"
| "spec_step q (BdUnAlloc k) = (if unat k \<le> length (preq q) then Some (spec_unalloc (unat k) q) else None)"
| "spec_step q (BdToHw k) = (if unat k \<le> length (preq q) then Some (spec_tohw (unat k) q) else None)"
| "spec_step q (BdTake k) = (if unat k \<le> length (hwq q) then Some (spec_fromhw (unat k) q) else None)"
| "spec_step q (BdFree k) = (if unat k \<le> length (postq q) then Some (spec_free (unat k) q) else None)"

text \<open>Error codes of the ring are not the success code.\<close>

lemma ring_errors [simp]:
  "FXMAC_ERR_GENERAL \<noteq> FT_SUCCESS" "FXMAC_ERR_SG_LIST \<noteq> FT_SUCCESS"
  "FXMAC_ERR_INVALID_PARAM \<noteq> FT_SUCCESS" "FXMAC_ERR_SG_NO_LIST \<noteq> FT_SUCCESS"
  by (simp_all add: FXMAC_ERR_GENERAL_def FXMAC_ERR_SG_LIST_def FXMAC_ERR_INVALID_PARAM_def
      FXMAC_ERR_SG_NO_LIST_def FT_MAKE_ERRCODE_def const_defs)

lemmas ring_op_defs = FXmacBdRingAlloc_def FXmacBdRingUnAlloc_def FXmacBdRingToHw_def
  FXmacBdRingFree_def

lemmas spec_defs = spec_alloc_def spec_unalloc_def spec_tohw_def spec_fromhw_def spec_free_def

lemma ring_step_error:
  assumes at: "ring_at r p a b c d"
  shows "d < unat k \<Longrightarrow> ring_step r (BdAlloc k) = None"
    "c < unat k \<Longrightarrow> ring_step r (BdUnAlloc k) = None"
    "c < unat k \<Longrightarrow> ring_step r (BdToHw k) = None"
    "b < unat k \<Longrightarrow> ring_step r (BdTake k) = None"
    "a < unat k \<Longrightarrow> ring_step r (BdFree k) = None"
  using ring_atD(4-7) [OF at]
  by (auto simp: ring_op_defs Let_def word_less_nat_alt word_le_nat_alt)

text \<open>The queues of a ring after each change of its arcs.\<close>

lemma abs_alloc:
  "\<lbrakk>ring_at r p a b c d; ring_at r' p a b (c + k) (d - k); bd_num r' = bd_num r; k \<le> d\<rbrakk>
   \<Longrightarrow> ring_abs r' = spec_alloc k (ring_abs r)"
  by (simp add: ring_abs_ring_at spec_alloc_def take_cyc drop_cyc cyc_append)
    (simp add: add.assoc)

lemma abs_unalloc:
  assumes at: "ring_at r p a b c d" and at': "ring_at r' p a b (c - k) (d + k)"
    and n: "bd_num r' = bd_num r" and k: "k \<le> c"
  shows "ring_abs r' = spec_unalloc k (ring_abs r)"
proof -
  have "cyc (bd_num r) (p + a + b + (c - k)) (d + k)
      = cyc (bd_num r) (p + a + b + (c - k)) k @ cyc (bd_num r) (p + a + b + c) d"
    using k cyc_append [of "bd_num r" "p + a + b + (c - k)" k d] by (simp add: add.commute)
  with k show ?thesis
    by (simp add: ring_abs_ring_at [OF at] ring_abs_ring_at [OF at'] n spec_unalloc_def
        take_cyc drop_cyc Let_def)
qed

lemma abs_tohw:
  "\<lbrakk>ring_at r p a b c d; ring_at r' p a (b + k) (c - k) d; bd_num r' = bd_num r; k \<le> c\<rbrakk>
   \<Longrightarrow> ring_abs r' = spec_tohw k (ring_abs r)"
  by (simp add: ring_abs_ring_at spec_tohw_def take_cyc drop_cyc cyc_append)
    (simp add: add.assoc)

lemma abs_fromhw:
  "\<lbrakk>ring_at r p a b c d; ring_at r' p (a + k) (b - k) c d; bd_num r' = bd_num r; k \<le> b\<rbrakk>
   \<Longrightarrow> ring_abs r' = spec_fromhw k (ring_abs r)"
  by (simp add: ring_abs_ring_at spec_fromhw_def take_cyc drop_cyc cyc_append)
    (simp add: add.assoc)

lemma abs_free:
  assumes at: "ring_at r p a b c d"
    and at': "ring_at r' ((p + k) mod bd_num r) (a - k) b c (d + k)"
    and n: "bd_num r' = bd_num r" and k: "k \<le> a"
  shows "ring_abs r' = spec_free k (ring_abs r)"
proof -
  let ?n = "bd_num r"
  have "(p + a + b + c + d) mod ?n = p mod ?n"
    using ring_atD(3) [OF at] by (simp add: add.assoc)
  then have "cyc ?n (p + a + b + c + d) k = cyc ?n p k"
    by (rule cyc_cong)
  then have "cyc ?n (p + a + b + c) (d + k) = cyc ?n (p + a + b + c) d @ cyc ?n p k"
    using cyc_append [of ?n "p + a + b + c" d k] by (simp only:)
  moreover have "cyc ?n ((p + k) mod ?n + (a - k) + x) m = cyc ?n (p + a + x) m" for x m
    by (rule cyc_cong) (rule arc_shift [OF k])
  from this [of 0] this [of b] this [of "b + c"]
  have "cyc ?n ((p + k) mod ?n + (a - k)) m = cyc ?n (p + a) m"
    "cyc ?n ((p + k) mod ?n + (a - k) + b) m = cyc ?n (p + a + b) m"
    "cyc ?n ((p + k) mod ?n + (a - k) + b + c) m = cyc ?n (p + a + b + c) m" for m
    by (simp_all add: add.assoc)
  ultimately show ?thesis
    using k unfolding ring_abs_ring_at [OF at] ring_abs_ring_at [OF at'] n
    by (simp add: spec_free_def take_cyc drop_cyc)
qed

text \<open>
  Every call implements the specification: it succeeds exactly when the specification's move
  is possible, keeps the invariant, and yields the specification's queues.
\<close>

lemma ring_step_refines:
  assumes "ring_inv r"
  shows "case spec_step (ring_abs r) op of
           None \<Rightarrow> ring_step r op = None
         | Some q \<Rightarrow> \<exists>r'. ring_step r op = Some r' \<and> ring_inv r' \<and> ring_abs r' = q \<and> same_region r r'"
proof -
  obtain p a b c d where at: "ring_at r p a b c d"
    using assms by (auto simp: ring_inv_iff_ring_at)
  note abs = ring_abs_ring_at [OF at] and err = ring_step_error [OF at]
  have ok: ?thesis if "ring_step r op = Some r'" "same_region r r'" "ring_at r' p' a' b' c' d'"
    "spec_step (ring_abs r) op = Some (ring_abs r')" for r' p' a' b' c' d'
    using that ring_atD(8) [OF that(3)] by simp
  note heads = at [unfolded ring_at_def]
  show ?thesis
  proof (cases op)
    case (BdAlloc k)
    show ?thesis
    proof (cases "unat k \<le> d")
      case True
      from alloc_ring_at [OF at this] obtain r' where
        "FXmacBdRingAlloc r k 0 = (FT_SUCCESS, r', bd_at r ((p + a + b + c) mod bd_num r))"
        and r': "same_region r r'" "ring_at r' p a b (c + unat k) (d - unat k)" by blast
      with True BdAlloc abs_alloc [OF at r'(2) same_regionD(1) [OF r'(1)] True] show ?thesis
        by (intro ok [OF _ r']) (simp_all add: abs)
    qed (simp add: BdAlloc abs err del: ring_step.simps)
  next
    case (BdUnAlloc k)
    show ?thesis
    proof (cases "unat k \<le> c")
      case True
      from unalloc_ring_at [OF at this, of 1] obtain r' where
        "FXmacBdRingUnAlloc r k 1 = Some (FT_SUCCESS, r')"
        and r': "same_region r r'" "ring_at r' p a b (c - unat k) (d + unat k)" by auto
      with True BdUnAlloc abs_unalloc [OF at r'(2) same_regionD(1) [OF r'(1)] True] show ?thesis
        by (intro ok [OF _ r']) (simp_all add: abs)
    qed (simp add: BdUnAlloc abs err del: ring_step.simps)
  next
    case (BdToHw k)
    show ?thesis
    proof (cases "unat k \<le> c")
      case True
      have ph: "pre_head r = bd_at r ((p + a + b) mod bd_num r)" using heads by simp
      from tohw_ring_at [OF at True ph] obtain r' where
        "FXmacBdRingToHw r k (pre_head r) = (FT_SUCCESS, r')"
        and r': "same_region r r'" "ring_at r' p a (b + unat k) (c - unat k) d" by blast
      with True BdToHw abs_tohw [OF at r'(2) same_regionD(1) [OF r'(1)] True] show ?thesis
        by (intro ok [OF _ r']) (simp_all add: abs)
    qed (simp add: BdToHw abs err del: ring_step.simps)
  next
    case (BdTake k)
    show ?thesis
    proof (cases "unat k \<le> b")
      case True
      from fromhw_take_ring_at [OF at True] obtain r' x where
        "fromhw_take r k = (k, r', x)"
        and r': "same_region r r'" "ring_at r' p (a + unat k) (b - unat k) c d" by metis
      moreover have "k \<le> hw_cnt r" using True heads by (simp add: word_le_nat_alt)
      ultimately show ?thesis
        using True BdTake abs_fromhw [OF at r'(2) same_regionD(1) [OF r'(1)] True]
        by (intro ok [OF _ r']) (simp_all add: abs)
    qed (simp add: BdTake abs err del: ring_step.simps)
  next
    case (BdFree k)
    show ?thesis
    proof (cases "unat k \<le> a")
      case True
      have ph: "post_head r = bd_at r p" using heads by simp
      from free_ring_at [OF at True ph] obtain r' where
        "FXmacBdRingFree r k (post_head r) = (FT_SUCCESS, r')" and r': "same_region r r'"
        "ring_at r' ((p + unat k) mod bd_num r) (a - unat k) b c (d + unat k)" by blast
      with True BdFree abs_free [OF at r'(2) same_regionD(1) [OF r'(1)] True] show ?thesis
        by (intro ok [OF _ r']) (simp_all add: abs)
    qed (simp add: BdFree abs err del: ring_step.simps)
  qed
qed

section \<open>Sequences of calls\<close>

text \<open>
  Sequences of calls, and the contract a client of a descriptor ring relies on. The lemmas of
  the locale hold for every implementation of the four queues; the interpretation at the end
  discharges the contract for the ring of \<^verbatim>\<open>fxmac_bdring.c\<close>.
\<close>

primrec run_ops :: "('s \<Rightarrow> bd_op \<Rightarrow> 's option) \<Rightarrow> 's \<Rightarrow> bd_op list \<Rightarrow> 's option" where
  "run_ops st s [] = Some s"
| "run_ops st s (x # xs) = (case st s x of None \<Rightarrow> None | Some s' \<Rightarrow> run_ops st s' xs)"

definition all_bds :: "bdq \<Rightarrow> nat list" where
  "all_bds q = postq q @ hwq q @ preq q @ freeq q"

text \<open>The descriptors handed to the hardware, and taken back from it, by one call.\<close>

fun submitted1 :: "bdq \<Rightarrow> bd_op \<Rightarrow> nat list" where
  "submitted1 q (BdToHw k) = take (unat k) (preq q)"
| "submitted1 q _ = []"

fun retrieved1 :: "bdq \<Rightarrow> bd_op \<Rightarrow> nat list" where
  "retrieved1 q (BdTake k) = take (unat k) (hwq q)"
| "retrieved1 q _ = []"

primrec op_log :: "('s \<Rightarrow> bd_op \<Rightarrow> 's option) \<Rightarrow> ('s \<Rightarrow> bd_op \<Rightarrow> nat list) \<Rightarrow> 's \<Rightarrow> bd_op list \<Rightarrow> nat list" where
  "op_log st f s [] = []"
| "op_log st f s (x # xs) = f s x @ (case st s x of None \<Rightarrow> [] | Some s' \<Rightarrow> op_log st f s' xs)"

lemma mset_take_drop: "mset xs = mset (take n xs) + mset (drop n xs)"
  by (simp flip: mset_append)

lemma mset_all_bds_step: "spec_step q x = Some q' \<Longrightarrow> mset (all_bds q') = mset (all_bds q)"
proof (induction q x rule: spec_step.induct)
  case (1 q k)
  then show ?case using mset_take_drop [of "freeq q" "unat k"]
    by (auto simp: all_bds_def spec_defs split: if_splits)
next
  case (2 q k)
  then show ?case using mset_take_drop [of "preq q" "length (preq q) - unat k"]
    by (auto simp: all_bds_def spec_defs Let_def split: if_splits)
next
  case (3 q k)
  then show ?case using mset_take_drop [of "preq q" "unat k"]
    by (auto simp: all_bds_def spec_defs split: if_splits)
next
  case (4 q k)
  then show ?case using mset_take_drop [of "hwq q" "unat k"]
    by (auto simp: all_bds_def spec_defs split: if_splits)
next
  case (5 q k)
  then show ?case using mset_take_drop [of "postq q" "unat k"]
    by (auto simp: all_bds_def spec_defs split: if_splits)
qed

lemma hwq_step:
  "spec_step q x = Some q' \<Longrightarrow> hwq q @ submitted1 q x = retrieved1 q x @ hwq q'"
  by (cases x) (auto simp: spec_defs Let_def split: if_splits)

locale descriptor_queue =
  fixes inv :: "'s \<Rightarrow> bool" and abs :: "'s \<Rightarrow> bdq" and step :: "'s \<Rightarrow> bd_op \<Rightarrow> 's option"
  assumes step_None: "\<lbrakk>inv s; spec_step (abs s) x = None\<rbrakk> \<Longrightarrow> step s x = None"
    and step_Some: "\<lbrakk>inv s; spec_step (abs s) x = Some q\<rbrakk>
      \<Longrightarrow> \<exists>s'. step s x = Some s' \<and> inv s' \<and> abs s' = q"
begin

lemma step_inv:
  assumes "inv s" "step s x = Some s'"
  shows "inv s'" "spec_step (abs s) x = Some (abs s')"
  using assms step_None [of s x] step_Some [of s x]
  by (cases "spec_step (abs s) x"; force)+

lemma step_eq: "inv s \<Longrightarrow> map_option abs (step s x) = spec_step (abs s) x"
  using step_None [of s x] step_Some [of s x]
  by (cases "spec_step (abs s) x") auto

lemma run_inv: "\<lbrakk>inv s; run_ops step s xs = Some s'\<rbrakk> \<Longrightarrow> inv s'"
  by (induction xs arbitrary: s) (auto split: option.splits dest: step_inv)

lemma run_eq: "inv s \<Longrightarrow> map_option abs (run_ops step s xs) = run_ops spec_step (abs s) xs"
proof (induction xs arbitrary: s)
  case (Cons x xs)
  show ?case
  proof (cases "step s x")
    case None
    with step_eq [OF Cons.prems, of x] show ?thesis by (simp add: None)
  next
    case (Some s')
    with step_inv [OF Cons.prems Some] Cons.IH [of s'] show ?thesis by simp
  qed
qed simp

lemma run_partition:
  "\<lbrakk>inv s; run_ops step s xs = Some s'\<rbrakk> \<Longrightarrow> mset (all_bds (abs s')) = mset (all_bds (abs s))"
proof (induction xs arbitrary: s)
  case (Cons x xs)
  then obtain t where t: "step s x = Some t" "run_ops step t xs = Some s'"
    by (auto split: option.splits)
  note i = step_inv [OF Cons.prems(1) t(1)]
  from Cons.IH [OF i(1) t(2)] mset_all_bds_step [OF i(2)] show ?case by simp
qed simp

lemma run_fifo:
  "\<lbrakk>inv s; run_ops step s xs = Some s'\<rbrakk> \<Longrightarrow>
    hwq (abs s) @ op_log step (\<lambda>t. submitted1 (abs t)) s xs
    = op_log step (\<lambda>t. retrieved1 (abs t)) s xs @ hwq (abs s')"
proof (induction xs arbitrary: s)
  case (Cons x xs)
  then obtain t where t: "step s x = Some t" "run_ops step t xs = Some s'"
    by (auto split: option.splits)
  note i = step_inv [OF Cons.prems(1) t(1)]
  from Cons.IH [OF i(1) t(2)] hwq_step [OF i(2)] show ?case
    by (simp add: t(1)) (metis append.assoc)
qed simp

end

interpretation xring: descriptor_queue ring_inv ring_abs ring_step
proof
  fix r x assume "ring_inv r" "spec_step (ring_abs r) x = None"
  then show "ring_step r x = None"
    using ring_step_refines [of r x] by simp
next
  fix r x q assume "ring_inv r" "spec_step (ring_abs r) x = Some q"
  then show "\<exists>r'. ring_step r x = Some r' \<and> ring_inv r' \<and> ring_abs r' = q"
    using ring_step_refines [of r x] by auto
qed

end
