(* ===== verification/BdRingScan.thy ===== *)
theory BdRingScan
  imports BdRingSpec
begin

text \<open>
  Creation and cloning of a ring, the two scans of the status words
  (\<^verbatim>\<open>FXmacBdRingFromHwTx\<close> and \<^verbatim>\<open>FXmacBdRingFromHwRx\<close>), the consistency check, and the
  properties of the ring that the Ethernet driver relies on.
\<close>

section \<open>Creating a ring\<close>

lemma memset32_apply:
  "memset32 m a v k x = (if \<exists>j<k. x = a + of_nat (4 * j) then v else m x)"
proof (induction k arbitrary: m a)
  case (Suc k)
  have "(\<exists>j<Suc k. x = a + of_nat (4 * j)) \<longleftrightarrow> x = a \<or> (\<exists>j<k. x = a + 4 + of_nat (4 * j))"
    by (auto simp: Ex_less_Suc2 algebra_simps)
  then show ?case
    unfolding memset32.simps Suc.IH by auto
qed simp

lemma bd_addr_steps_eq: "bd_addr_steps sep a k = a + of_nat k * sep"
  by (induction k arbitrary: a) (simp_all add: algebra_simps)

definition create_args_ok :: "uintptr \<Rightarrow> uintptr \<Rightarrow> u32 \<Rightarrow> u32 \<Rightarrow> bool" where
  "create_args_ok phys virt al n \<longleftrightarrow> 64 \<le> al \<and> (al - 1) AND al = 0
     \<and> phys mod ucast al = 0 \<and> virt mod ucast al = 0
     \<and> 0 < n \<and> unat n < 2 ^ 28 \<and> unat virt + 16 * unat n \<le> 2 ^ 64"

lemma create_ring_at:
  assumes ok: "create_args_ok phys virt al n"
  obtains r where "FXmacBdRingCreate r0 m phys virt al n
      = (FT_SUCCESS, r, memset32 m virt 0 (4 * unat n))"
    "ring_at r 0 0 0 0 (unat n)" "base_bd_addr r = virt" "phys_base_addr r = phys"
    "bd_num r = unat n" "run_state r = FXMAC_DMA_SG_IS_STOPED"
proof -
  let ?hi = "virt + of_nat (unat n - 1) * 16"
  define r where "r = r0\<lparr>all_cnt := n, free_cnt := n, hw_cnt := 0, pre_cnt := 0, post_cnt := 0,
    separation := 16, run_state := FXMAC_DMA_SG_IS_STOPED, base_bd_addr := virt,
    phys_base_addr := phys, high_bd_addr := ?hi, ring_length := ucast (?hi - virt + 16),
    free_head := virt, pre_head := virt, hw_head := virt, hw_tail := virt, post_head := virt,
    bda_restart := phys\<rparr>"
  have n: "0 < unat n" "unat n < 2 ^ 28" "unat virt + 16 * unat n \<le> 2 ^ 64"
    using ok by (auto simp: create_args_ok_def word_less_nat_alt)
  have bytes: "unat (16 * n) = 16 * unat n"
    using n by (simp add: unat_word_ariths)
  have ub: "(ucast (16 * n) :: u64) = of_nat (16 * unat n)"
    by (simp add: bytes [symmetric])
  have top: "\<not> virt > virt + ucast (16 * n) - 1"
  proof -
    have "virt + ucast (16 * n) - 1 = virt + of_nat (16 * unat n - 1)"
      unfolding ub using n by (simp add: of_nat_diff)
    moreover have "unat (virt + of_nat (16 * unat n - 1)) = unat virt + (16 * unat n - 1)"
      using n by (simp add: unat_word_ariths unat_of_nat_64 del: of_nat_diff of_nat_mult)
    ultimately show ?thesis by (metis not_add_less1 word_less_nat_alt)
  qed
  have al: "\<not> al < 64" and n0: "n \<noteq> 0"
    using ok by (auto simp: create_args_ok_def)
  have words: "16 * unat n div 4 = 4 * unat n"
    by simp
  have res: "FXmacBdRingCreate r0 m phys virt al n
      = (FT_SUCCESS, r, memset32 m virt 0 (4 * unat n))"
    using ok top al n0
    by (simp add: FXmacBdRingCreate_def create_args_ok_def Let_def const_defs bd_addr_steps_eq
        bytes words r_def)
  have num: "bd_num r = unat n" and base: "base_bd_addr r = virt"
    by (simp_all add: r_def bd_num_def)
  have "?hi = bd_at r (unat n - 1)"
    by (simp add: bd_at_def base mult.commute)
  moreover have "ucast (?hi - virt + 16) = (of_nat (16 * unat n) :: u32)"
  proof -
    have "?hi - virt + 16 = of_nat (16 * unat n)"
      using n by (simp add: of_nat_diff algebra_simps)
    moreover have "(ucast w :: u32) = of_nat (unat w)" for w :: u64
      by simp
    moreover have "unat (of_nat (16 * unat n) :: u64) = 16 * unat n"
      using n by (intro unat_of_nat_64) simp
    ultimately show ?thesis
      by (simp only:)
  qed
  ultimately have "ring_geom r"
    using n by (simp add: ring_geom_def num base) (simp add: r_def)
  moreover have "bd_at r 0 = virt"
    by (simp add: bd_at_def base)
  ultimately have "ring_at r 0 0 0 0 (unat n)"
    using n by (simp add: ring_at_def num) (simp add: r_def)
  with res num base that show thesis
    by (simp add: r_def)
qed

lemma cyc_upto: "cyc n 0 n = [0..<n]"
  by (rule nth_equalityI) auto


section \<open>Cloning a template descriptor\<close>

lemma memcpy_bd_apply:
  assumes "\<forall>j<4. src + of_nat (4 * j) \<notin> (\<lambda>j. dst + of_nat (4 * j)) ` {..<4::nat}"
  shows "j < 4 \<Longrightarrow> memcpy_bd m dst src (dst + of_nat (4 * j)) = m (src + of_nat (4 * j))"
    and "\<forall>j<4::nat. x \<noteq> dst + of_nat (4 * j) \<Longrightarrow> memcpy_bd m dst src x = m x"
proof -
  assume "j < 4"
  then have "j = 0 \<or> j = 1 \<or> j = 2 \<or> j = 3" by auto
  then show "memcpy_bd m dst src (dst + of_nat (4 * j)) = m (src + of_nat (4 * j))"
    by (auto simp: memcpy_bd_def)
next
  assume a: "\<forall>j<4::nat. x \<noteq> dst + of_nat (4 * j)"
  from a [rule_format, of 0] a [rule_format, of 1] a [rule_format, of 2] a [rule_format, of 3]
  show "memcpy_bd m dst src x = m x"
    by (simp add: memcpy_bd_def)
qed

text \<open>The cells of the first \<open>k\<close> descriptors from \<open>a\<close>.\<close>

definition bd_cell :: "uintptr \<Rightarrow> nat \<Rightarrow> nat \<Rightarrow> uintptr" where
  "bd_cell a i j = a + of_nat (16 * i + 4 * j)"

lemma bd_cell_inj:
  assumes "bd_cell a i j = bd_cell a i' j'" "i < 2 ^ 28" "i' < 2 ^ 28" "j < 4" "j' < 4"
  shows "i = i' \<and> j = j'"
proof -
  have "unat (of_nat (16 * i + 4 * j) :: u64) = unat (of_nat (16 * i' + 4 * j') :: u64)"
    using assms(1) unfolding bd_cell_def by (metis add_left_cancel)
  moreover have "16 * i + 4 * j < 2 ^ 64" "16 * i' + 4 * j' < 2 ^ 64"
    using assms(2-) by simp_all
  ultimately have "16 * i + 4 * j = 16 * i' + 4 * j'"
    by (simp only: unat_of_nat_64)
  with assms(4,5) show ?thesis
    by (cases i i' rule: linorder_cases) simp_all
qed

lemma bd_cell_word: "a + of_nat (4 * k) = bd_cell a (k div 4) (k mod 4)"
proof -
  have "4 * k = 16 * (k div 4) + 4 * (k mod 4)" by presburger
  then show ?thesis unfolding bd_cell_def by (simp only:)
qed

lemma unat_bd_cell:
  assumes "ring_geom r" "i < bd_num r" "j < 4"
  shows "unat (bd_cell (base_bd_addr r) i j) = unat (base_bd_addr r) + 16 * i + 4 * j"
proof -
  have "unat (base_bd_addr r) + (16 * i + 4 * j) < 2 ^ 64"
    using assms ring_geom_bounds(3) [OF assms(1)] by linarith
  moreover have "unat (of_nat (16 * i + 4 * j) :: u64) = 16 * i + 4 * j"
    using calculation by (intro unat_of_nat_64) simp
  ultimately show ?thesis
    by (simp add: bd_cell_def unat_word_ariths del: of_nat_add of_nat_mult)
qed

lemma clone_loop_apply:
  assumes "\<forall>i<k. \<forall>j<4. \<forall>j'<4. src + of_nat (4 * j) \<noteq> bd_cell a i j'" "k < 2 ^ 28"
  shows "clone_loop m src 16 a k = (m', c) \<Longrightarrow> c = a + of_nat (16 * k)
      \<and> (\<forall>i<k. \<forall>j<4. m' (bd_cell a i j) = m (src + of_nat (4 * j)))
      \<and> (\<forall>x. (\<forall>i<k. \<forall>j<4. x \<noteq> bd_cell a i j) \<longrightarrow> m' x = m x)"
  using assms
proof (induction k arbitrary: m a)
  case (Suc k)
  have step: "bd_cell (a + 16) i j = bd_cell a (Suc i) j" for i j
    by (simp add: bd_cell_def algebra_simps)
  let ?m = "memcpy_bd m a src"
  have c0: "bd_cell a 0 j = a + of_nat (4 * j)" for j by (simp add: bd_cell_def)
  have fr: "\<forall>j<4. src + of_nat (4 * j) \<notin> (\<lambda>j. a + of_nat (4 * j)) ` {..<4::nat}"
    using Suc.prems(2) [rule_format, of 0] unfolding c0 by blast
  have src: "?m (src + of_nat (4 * j)) = m (src + of_nat (4 * j))" if "j < 4" for j
    using Suc.prems(2) [rule_format, of 0] that
    by (intro memcpy_bd_apply(2) [OF fr]) (auto simp: c0)
  have IH: "c = a + 16 + of_nat (16 * k)
      \<and> (\<forall>i<k. \<forall>j<4. m' (bd_cell (a + 16) i j) = ?m (src + of_nat (4 * j)))
      \<and> (\<forall>x. (\<forall>i<k. \<forall>j<4. x \<noteq> bd_cell (a + 16) i j) \<longrightarrow> m' x = ?m x)"
    using Suc.prems by (intro Suc.IH) (auto simp: step)
  then have "m' (bd_cell a i j) = m (src + of_nat (4 * j))" if "i < Suc k" "j < 4" for i j
  proof (cases i)
    case 0
    have "bd_cell a 0 j \<noteq> bd_cell (a + 16) i' j'" if "i' < k" "j' < 4" for i' j'
      unfolding step using bd_cell_inj [of a 0 j "Suc i'" j'] that \<open>j < 4\<close> Suc.prems(3) by auto
    then have "m' (bd_cell a 0 j) = ?m (bd_cell a 0 j)"
      using IH by blast
    then show ?thesis
      unfolding 0 c0 using memcpy_bd_apply(1) [OF fr \<open>j < 4\<close>] by simp
  next
    case (Suc i')
    with that IH src [OF \<open>j < 4\<close>] show ?thesis by (simp add: step)
  qed
  moreover have "m' x = m x" if x: "\<forall>i<Suc k. \<forall>j<4. x \<noteq> bd_cell a i j" for x
  proof -
    have "m' x = ?m x" using IH x by (auto simp: step)
    also have "\<dots> = m x"
      using x by (intro memcpy_bd_apply(2) [OF fr]) (metis c0 zero_less_Suc)
    finally show ?thesis .
  qed
  ultimately show ?case
    using IH by (auto simp: algebra_simps)
qed auto


section \<open>Taking descriptors back\<close>

lemma fromhw_take_nat:
  assumes at: "ring_at r p a b c d" and kb: "k \<le> b"
  obtains r' where
    "fromhw_take r (of_nat k) = (of_nat k, r', if k = 0 then 0 else hw_head r)"
    "ring_inv r'" "ring_abs r' = spec_fromhw k (ring_abs r)"
proof -
  have k: "unat (of_nat k :: u32) = k"
    using kb ring_at_num [OF at] ring_atD(3) [OF at] by (intro unat_of_nat_32) simp
  have k0: "(of_nat k :: u32) = 0 \<longleftrightarrow> k = 0" using k by (cases "k = 0") auto
  from fromhw_take_ring_at [OF at, of "of_nat k"] kb obtain r' where
    r': "fromhw_take r (of_nat k) = (of_nat k, r', if (of_nat k :: u32) = 0 then 0 else bd_at r ((p + a) mod bd_num r))"
      "same_region r r'" "ring_at r' p (a + k) (b - k) c d" by (auto simp: k)
  have "hw_head r = bd_at r ((p + a) mod bd_num r)" using at by (simp add: ring_at_def)
  with r'(1) k0 ring_atD(8) [OF r'(3)] abs_fromhw [OF at r'(3) same_regionD(1) [OF r'(2)] kb] that
  show thesis by simp
qed

section \<open>The receive scan\<close>

definition rx_new :: "FXmacBdRing \<Rightarrow> mem32 \<Rightarrow> nat \<Rightarrow> bool" where
  "rx_new r m i \<longleftrightarrow> FXMAC_BD_IS_RX_NEW m (bd_at r i)"

definition rx_eof :: "FXmacBdRing \<Rightarrow> mem32 \<Rightarrow> nat \<Rightarrow> bool" where
  "rx_eof r m i \<longleftrightarrow> FXMAC_BD_READ m (bd_at r i) FXMAC_BD_STAT_OFFSET AND FXMAC_RXBUF_EOF_MASK \<noteq> 0"

text \<open>The number of descriptors up to and including the last one that ends a frame.\<close>

definition whole_frames :: "(nat \<Rightarrow> bool) \<Rightarrow> nat list \<Rightarrow> nat" where
  "whole_frames eof xs = length xs - length (takeWhile (\<lambda>i. \<not> eof i) (rev xs))"

definition part_count :: "(nat \<Rightarrow> bool) \<Rightarrow> u32 \<Rightarrow> nat list \<Rightarrow> u32" where
  "part_count eof = foldl (\<lambda>p i. if eof i then 0 else p + 1)"

lemma part_count_simps [simp]:
  "part_count eof p [] = p"
  "part_count eof p (x # xs) = part_count eof (if eof x then 0 else p + 1) xs"
  by (simp_all add: part_count_def)

lemma part_count_eq: "part_count eof 0 xs = of_nat (length (takeWhile (\<lambda>i. \<not> eof i) (rev xs)))"
  by (induction xs rule: rev_induct) (simp_all add: part_count_def)

lemma whole_frames_le: "whole_frames eof xs \<le> length xs"
  by (simp add: whole_frames_def)

lemma of_nat_whole_frames: "of_nat (length xs) - part_count eof 0 xs = of_nat (whole_frames eof xs)"
  by (simp add: part_count_eq whole_frames_def length_takeWhile_le [of _ "rev xs", simplified] of_nat_diff)

text \<open>What the number means: the last counted descriptor ends a frame, none after it does.\<close>

lemma whole_frames_char:
  "(whole_frames eof xs = 0 \<or> eof (xs ! (whole_frames eof xs - 1)))
   \<and> (\<forall>j. whole_frames eof xs \<le> j \<and> j < length xs \<longrightarrow> \<not> eof (xs ! j))"
proof (induction xs rule: rev_induct)
  case (snoc x xs)
  show ?case
  proof (cases "eof x")
    case True
    then show ?thesis by (auto simp: whole_frames_def)
  next
    case False
    then have w: "whole_frames eof (xs @ [x]) = whole_frames eof xs"
      by (simp add: whole_frames_def)
    have "xs \<noteq> [] \<or> whole_frames eof xs = 0"
      by (auto simp: whole_frames_def)
    with snoc.IH False whole_frames_le [of eof xs] show ?thesis
      unfolding w by (auto simp: nth_append less_Suc_eq split: if_splits)
  qed
qed (simp add: whole_frames_def)

lemma cyc_Suc: "cyc n i (Suc k) = i mod n # cyc n (Suc i) k"
  using cyc_append [of n i 1 k] by (simp add: cyc_def)

lemma cyc_Suc_mod: "cyc n (Suc i mod n) k = cyc n (Suc i) k"
  by (rule cyc_mod)

lemma bd_at_nonnull:
  assumes "ring_geom r" "i < bd_num r" "base_bd_addr r \<noteq> 0"
  shows "bd_at r i \<noteq> 0"
  using unat_bd_at_geom [OF assms(1,2)] assms(3) by (auto simp: unat_eq_0 [symmetric] simp del: unat_eq_0)

lemma fromhw_rx_loop_eq:
  assumes g: "ring_geom r" and b: "base_bd_addr r \<noteq> 0"
  shows "i < bd_num r \<Longrightarrow> fromhw_rx_loop k r m (bd_at r i) s cnt part
    = (let xs = takeWhile (rx_new r m) (cyc (bd_num r) i k)
       in (cnt + of_nat (length xs), part_count (rx_eof r m) part xs))"
proof (induction k arbitrary: i s cnt part)
  case (Suc k)
  have i': "Suc i mod bd_num r < bd_num r"
    using Suc.prems by simp
  note nn = bd_at_nonnull [OF g Suc.prems b]
  show ?case
    using Suc.prems nn Suc.IH [OF i']
    by (simp add: Let_def cyc_Suc bd_ring_next [OF g Suc.prems] rx_new_def [symmetric]
        rx_eof_def algebra_simps del: of_nat_Suc) (simp add: algebra_simps)
qed simp

lemma rx_scan:
  assumes at: "ring_at r p a b c d" and base: "base_bd_addr r \<noteq> 0" and h: "0 < b"
  shows "FXmacBdRingFromHwRx r m lim
    = fromhw_take r (of_nat (whole_frames (rx_eof r m)
        (takeWhile (rx_new r m) (cyc (bd_num r) (p + a) (unat lim)))))"
proof -
  have "hw_head r = bd_at r ((p + a) mod bd_num r)" "hw_cnt r \<noteq> 0"
    using at h by (auto simp: ring_at_def)
  then show ?thesis
    using fromhw_rx_loop_eq [OF ring_atD(1) [OF at] base, of "(p + a) mod bd_num r"] ring_atD(2) [OF at]
    by (simp add: FXmacBdRingFromHwRx_def Let_def of_nat_whole_frames)
qed


section \<open>The transmit scan\<close>

definition tx_used :: "FXmacBdRing \<Rightarrow> mem32 \<Rightarrow> nat \<Rightarrow> bool" where
  "tx_used r m i \<longleftrightarrow> FXMAC_BD_READ m (bd_at r i) FXMAC_BD_STAT_OFFSET AND FXMAC_TXBUF_USED_MASK \<noteq> 0"

definition tx_last :: "FXmacBdRing \<Rightarrow> mem32 \<Rightarrow> nat \<Rightarrow> bool" where
  "tx_last r m i \<longleftrightarrow> FXMAC_BD_READ m (bd_at r i) FXMAC_BD_STAT_OFFSET AND FXMAC_TXBUF_LAST_MASK \<noteq> 0"

text \<open>One iteration of the scan at a descriptor of the ring.\<close>

lemma fromhw_tx_loop_at:
  assumes g: "ring_geom r" and b: "base_bd_addr r \<noteq> 0" and i: "i < bd_num r" and lt: "cnt < lim"
  shows "fromhw_tx_loop r m lim (bd_at r i) s cnt part =
    (let part' = (if tx_used r m i then part + 1 else part)
     in fromhw_tx_loop r m lim (bd_at r (Suc i mod bd_num r))
          (FXMAC_BD_READ m (bd_at r i) FXMAC_BD_STAT_OFFSET)
          (if tx_used r m i then cnt + 1 else cnt) (if tx_last r m i then 0 else part'))"
  using bd_at_nonnull [OF g i b] lt
  by (subst fromhw_tx_loop.simps) (simp add: Let_def bd_ring_next [OF g i] tx_used_def tx_last_def)

lemma fromhw_tx_loop_done: "\<not> cnt < lim \<Longrightarrow> fromhw_tx_loop r m lim a s cnt part = Some (cnt, part)"
  by (subst fromhw_tx_loop.simps) simp

lemma fromhw_tx_loop_used:
  assumes g: "ring_geom r" and b: "base_bd_addr r \<noteq> 0"
  shows "\<lbrakk>i < bd_num r; unat cnt + k = unat lim; \<forall>x\<in>set (cyc (bd_num r) i k). tx_used r m x\<rbrakk>
    \<Longrightarrow> fromhw_tx_loop r m lim (bd_at r i) s cnt part
       = Some (lim, part_count (tx_last r m) part (cyc (bd_num r) i k))"
proof (induction k arbitrary: i s cnt part)
  case 0
  then have "cnt = lim" by (simp add: word_unat_eq_iff)
  then show ?case by (simp add: fromhw_tx_loop_done)
next
  case (Suc k)
  have lt: "cnt < lim" using Suc.prems(2) by (simp add: word_less_nat_alt)
  have u: "tx_used r m i" using Suc.prems by (simp add: cyc_Suc)
  have "unat (cnt + 1) = Suc (unat cnt)"
    by (rule unat_inc [OF lt])
  then have "unat (cnt + 1) + k = unat lim" using Suc.prems(2) by simp
  then show ?case
    using Suc.IH [of "Suc i mod bd_num r" "cnt + 1"] Suc.prems u
    by (simp add: fromhw_tx_loop_at [OF g b Suc.prems(1) lt] cyc_Suc Let_def)
qed

text \<open>
  The scan goes round the ring until it has counted \<open>lim\<close> used descriptors: it returns when
  some descriptor of the ring is used, and never returns when none is.
\<close>

lemma fromhw_tx_loop_seek:
  assumes g: "ring_geom r" and b: "base_bd_addr r \<noteq> 0" and lt: "cnt < lim"
  shows "\<lbrakk>i < bd_num r; tx_used r m ((i + k) mod bd_num r)\<rbrakk>
    \<Longrightarrow> \<exists>j s' part'. j < bd_num r \<and> fromhw_tx_loop r m lim (bd_at r i) s cnt part
        = fromhw_tx_loop r m lim (bd_at r j) s' (cnt + 1) part'"
proof (induction k arbitrary: i s part)
  case 0
  have j: "Suc i mod bd_num r < bd_num r" using 0 by simp
  from 0 show ?case
    unfolding fromhw_tx_loop_at [OF g b 0(1) lt] Let_def by (auto intro: j)
next
  case (Suc k)
  have j: "Suc i mod bd_num r < bd_num r" using Suc.prems by simp
  show ?case
  proof (cases "tx_used r m i")
    case True
    with j show ?thesis
      unfolding fromhw_tx_loop_at [OF g b Suc.prems(1) lt] Let_def by auto
  next
    case False
    have "tx_used r m ((Suc i mod bd_num r + k) mod bd_num r)"
      using Suc.prems(2) by (simp add: mod_simps)
    from Suc.IH [OF j this] False show ?thesis
      unfolding fromhw_tx_loop_at [OF g b Suc.prems(1) lt] Let_def by auto
  qed
qed

lemma fromhw_tx_loop_returns:
  assumes g: "ring_geom r" and b: "base_bd_addr r \<noteq> 0"
    and u: "u < bd_num r" "tx_used r m u"
  shows "\<lbrakk>i < bd_num r; unat cnt + k = unat lim\<rbrakk>
    \<Longrightarrow> \<exists>part'. fromhw_tx_loop r m lim (bd_at r i) s cnt part = Some (lim, part')"
proof (induction k arbitrary: i s cnt part)
  case 0
  then have "cnt = lim" by (simp add: word_unat_eq_iff)
  then show ?case by (simp add: fromhw_tx_loop_done)
next
  case (Suc k)
  have lt: "cnt < lim" using Suc.prems(2) by (simp add: word_less_nat_alt)
  have "unat (cnt + 1) = Suc (unat cnt)"
    by (rule unat_inc [OF lt])
  then have c: "unat (cnt + 1) + k = unat lim" using Suc.prems(2) by simp
  have "(i + (bd_num r - i + u)) mod bd_num r = u"
    using Suc.prems(1) u(1) by simp
  then have "tx_used r m ((i + (bd_num r - i + u)) mod bd_num r)"
    using u(2) by simp
  from fromhw_tx_loop_seek [OF g b lt Suc.prems(1) this] Suc.IH [OF _ c] show ?case
    by metis
qed

definition tx_stalled :: "FXmacBdRing \<Rightarrow> mem32 \<Rightarrow> u32 \<Rightarrow> uintptr \<Rightarrow> u32 \<Rightarrow> bool" where
  "tx_stalled r m lim a cnt \<longleftrightarrow> ring_geom r \<and> base_bd_addr r \<noteq> 0 \<and> cnt < lim
     \<and> (\<forall>i<bd_num r. \<not> tx_used r m i) \<and> (\<exists>i<bd_num r. a = bd_at r i)"

lemma tx_stalled_next:
  assumes "tx_stalled r m lim a cnt"
  shows "tx_stalled r m lim (FXMAC_BD_RING_NEXT r a) cnt" "a \<noteq> 0" "cnt < lim"
    "FXMAC_BD_READ m a FXMAC_BD_STAT_OFFSET AND FXMAC_TXBUF_USED_MASK = 0"
proof -
  obtain i where i: "i < bd_num r" "a = bd_at r i" and g: "ring_geom r" "base_bd_addr r \<noteq> 0"
    and u: "\<not> tx_used r m i" and lt: "cnt < lim"
    using assms by (auto simp: tx_stalled_def)
  show "a \<noteq> 0" using bd_at_nonnull [OF g(1) i(1) g(2)] i(2) by simp
  show "FXMAC_BD_READ m a FXMAC_BD_STAT_OFFSET AND FXMAC_TXBUF_USED_MASK = 0"
    using u i(2) by (simp add: tx_used_def)
  have "Suc i mod bd_num r < bd_num r" using i(1) by simp
  then show "tx_stalled r m lim (FXMAC_BD_RING_NEXT r a) cnt"
    using assms bd_ring_next [OF g(1) i(1)] i(2) by (auto simp: tx_stalled_def)
qed (use assms in \<open>simp add: tx_stalled_def\<close>)

lemma fromhw_tx_loop_stalled:
  assumes "tx_stalled r m lim a cnt"
  shows "fromhw_tx_loop r m lim a s cnt part = None"
proof -
  have "\<not> tx_stalled r m lim a cnt" if "fromhw_tx_loop r m lim a s cnt part = Some res" for res
  proof (rule fromhw_tx_loop.raw_induct [where P = "\<lambda>r m lim a s cnt part res. \<not> tx_stalled r m lim a cnt", OF _ that])
    fix f r m lim a s cnt part res
    assume IH: "\<And>r m lim a s cnt part res. f r m lim a s cnt part = Some res \<Longrightarrow> \<not> tx_stalled r m lim a cnt"
      and body: "(if cnt < lim then
        let bd_str = (if a \<noteq> 0 then FXMAC_BD_READ m a FXMAC_BD_STAT_OFFSET else s);
            (cnt, part) = (if bd_str AND FXMAC_TXBUF_USED_MASK \<noteq> 0 then (cnt + 1, part + 1) else (cnt, part));
            part = (if bd_str AND FXMAC_TXBUF_LAST_MASK \<noteq> 0 then 0 else part)
        in f r m lim (FXMAC_BD_RING_NEXT r a) bd_str cnt part
        else Some (cnt, part)) = Some res"
    show "\<not> tx_stalled r m lim a cnt"
    proof
      assume st: "tx_stalled r m lim a cnt"
      note n = tx_stalled_next [OF st]
      from body obtain s' p' where "f r m lim (FXMAC_BD_RING_NEXT r a) s' cnt p' = Some res"
        by (simp add: Let_def n(2,3,4))
      with IH n(1) show False by blast
    qed
  qed
  with assms show ?thesis by (cases "fromhw_tx_loop r m lim a s cnt part") auto
qed

lemma tx_scan_used:
  assumes at: "ring_at r p a b c d" and base: "base_bd_addr r \<noteq> 0" and h: "0 < b"
    and u: "\<forall>x\<in>set (cyc (bd_num r) (p + a) (min (unat lim) b)). tx_used r m x"
  shows "FXmacBdRingFromHwTx r m lim = Some (fromhw_take r (of_nat (whole_frames (tx_last r m)
    (cyc (bd_num r) (p + a) (min (unat lim) b)))))"
proof -
  let ?L = "if lim > hw_cnt r then hw_cnt r else lim"
  have L: "unat ?L = min (unat lim) b"
    using ring_atD(5) [OF at] by (auto simp: word_less_nat_alt)
  have "hw_head r = bd_at r ((p + a) mod bd_num r)" "hw_cnt r \<noteq> 0"
    using at h by (auto simp: ring_at_def)
  moreover have "?L = of_nat (length (cyc (bd_num r) (p + a) (min (unat lim) b)))"
    by (simp add: L [symmetric])
  ultimately show ?thesis
    using fromhw_tx_loop_used [OF ring_atD(1) [OF at] base, of "(p + a) mod bd_num r" 0 "min (unat lim) b" ?L m]
      u L ring_atD(2) [OF at]
    by (simp add: FXmacBdRingFromHwTx_def Let_def of_nat_whole_frames [symmetric])
qed


text \<open>
  The scan over a stretch of descriptors that does not reach the limit: it counts the used ones
  and keeps the number of them since the last end of frame.
\<close>

definition scan_part :: "(nat \<Rightarrow> bool) \<Rightarrow> (nat \<Rightarrow> bool) \<Rightarrow> u32 \<Rightarrow> nat list \<Rightarrow> u32" where
  "scan_part used lst = foldl (\<lambda>p x. if lst x then 0 else if used x then p + 1 else p)"

lemma fromhw_tx_loop_run:
  assumes g: "ring_geom r" and b: "base_bd_addr r \<noteq> 0"
  shows "\<lbrakk>i < bd_num r; unat cnt + length (filter (tx_used r m) (cyc (bd_num r) i k)) < unat lim\<rbrakk>
    \<Longrightarrow> \<exists>s'. fromhw_tx_loop r m lim (bd_at r i) s cnt part =
      fromhw_tx_loop r m lim (bd_at r ((i + k) mod bd_num r)) s'
        (cnt + of_nat (length (filter (tx_used r m) (cyc (bd_num r) i k))))
        (scan_part (tx_used r m) (tx_last r m) part (cyc (bd_num r) i k))"
proof (induction k arbitrary: i s cnt part)
  case 0
  then show ?case by (auto simp: scan_part_def)
next
  case (Suc k)
  let ?n = "bd_num r" and ?u = "tx_used r m i"
  let ?cnt = "if ?u then cnt + 1 else cnt"
  have lt: "cnt < lim" using Suc.prems(2) by (simp add: word_less_nat_alt)
  have un: "unat ?cnt = unat cnt + (if ?u then 1 else 0)" using unat_inc [OF lt] by simp
  have i': "Suc i mod ?n < ?n" using Suc.prems(1) by simp
  have "unat ?cnt + length (filter (tx_used r m) (cyc ?n (Suc i mod ?n) k)) < unat lim"
    using Suc.prems un by (simp add: cyc_Suc split: if_splits)
  from Suc.IH [OF i' this] obtain s' where
    s': "fromhw_tx_loop r m lim (bd_at r (Suc i mod ?n)) (FXMAC_BD_READ m (bd_at r i) FXMAC_BD_STAT_OFFSET) ?cnt
          (if tx_last r m i then 0 else if ?u then part + 1 else part) =
        fromhw_tx_loop r m lim (bd_at r ((Suc i mod ?n + k) mod ?n)) s'
          (?cnt + of_nat (length (filter (tx_used r m) (cyc ?n (Suc i mod ?n) k))))
          (scan_part (tx_used r m) (tx_last r m) (if tx_last r m i then 0 else if ?u then part + 1 else part) (cyc ?n (Suc i mod ?n) k))"
    by blast
  show ?case
    using s' Suc.prems(1) unfolding fromhw_tx_loop_at [OF g b Suc.prems(1) lt] Let_def
    by (intro exI [of _ s']) (simp add: cyc_Suc scan_part_def mod_simps add.assoc [symmetric])
qed

text \<open>
  Finished frames followed by frames in flight: nothing is pending at the end of the stretch.
\<close>

lemma scan_part_append: "scan_part u l p (xs @ ys) = scan_part u l (scan_part u l p xs) ys"
  by (simp add: scan_part_def)

lemma scan_part_ends: "xs = [] \<or> l (last xs) \<Longrightarrow> scan_part u l 0 xs = 0"
  by (cases xs rule: rev_cases) (auto simp: scan_part_def)

lemma tx_scan_in_flight:
  assumes at: "ring_at r p 0 b 0 d" and base: "base_bd_addr r \<noteq> 0" and lim: "b \<le> unat lim"
    and D: "D + F = b" "\<forall>x\<in>set (cyc (bd_num r) p D). tx_used r m x" "D = 0 \<or> tx_last r m (last (cyc (bd_num r) p D))"
    and F: "\<forall>x\<in>set (cyc (bd_num r) (p + D) F). \<not> tx_used r m x" "F = 0 \<or> tx_last r m (last (cyc (bd_num r) (p + D) F))"
    and free: "\<forall>x\<in>set (cyc (bd_num r) (p + b) d). tx_used r m x \<and> \<not> tx_last r m x" and room: "F \<le> d"
  shows "FXmacBdRingFromHwTx r m lim = Some (fromhw_take r (of_nat D))"
proof (cases "F = 0")
  case True
  let ?xs = "cyc (bd_num r) p D"
  have xs: "cyc (bd_num r) (p + 0) (min (unat lim) b) = ?xs" using True D(1) lim by simp
  have "whole_frames (tx_last r m) ?xs = length ?xs"
    using D(3) by (cases ?xs rule: rev_cases) (auto simp: whole_frames_def simp flip: length_0_conv)
  then have "whole_frames (tx_last r m) ?xs = D" by simp
  then show ?thesis
  proof (cases "b = 0")
    case False
    with tx_scan_used [OF at base, of lim m] D(2) \<open>whole_frames _ _ = D\<close> show ?thesis unfolding xs by simp
  next
    case True
    then show ?thesis using D(1) ring_atD(5) [OF at]
      by (simp add: FXmacBdRingFromHwTx_def fromhw_take_def unat_eq_0)
  qed
next
  case False
  let ?n = "bd_num r" and ?L = "if lim > hw_cnt r then hw_cnt r else lim"
  note g = ring_atD(1) [OF at] and p = ring_atD(2) [OF at]
  have b: "unat (hw_cnt r) = b" "b < 2 ^ 28" "hw_cnt r \<noteq> 0" "b + d = ?n"
    using ring_atD(3,5) [OF at] ring_at_num [OF at] False D(1) by auto
  have L: "unat ?L = b" "?L = of_nat b" using lim b(1) by (auto simp: word_less_nat_alt)
  have app: "cyc ?n p b = cyc ?n p D @ cyc ?n (p + D) F" using D(1) cyc_append [of ?n p D F] by simp
  have filt: "length (filter (tx_used r m) (cyc ?n p b)) = D"
    unfolding app using D(2) F(1) by (simp add: filter_True filter_False)
  have ne: "cyc ?n (p + D) F \<noteq> []" "tx_last r m (last (cyc ?n (p + D) F))"
    using False F(2) by (auto simp flip: length_0_conv)
  have part: "scan_part (tx_used r m) (tx_last r m) 0 (cyc ?n p b) = 0"
    by (rule scan_part_ends) (use ne in \<open>simp add: app\<close>)
  from fromhw_tx_loop_run [OF g base p, of 0 m b ?L 0 0] obtain s' where
    run: "fromhw_tx_loop r m ?L (bd_at r p) 0 0 0 = fromhw_tx_loop r m ?L (bd_at r ((p + b) mod ?n)) s' (of_nat D) 0"
    using filt part L(1) D(1) False by auto
  have D32: "unat (of_nat D :: u32) = D" using D(1) b(2) by (intro unat_of_nat_32) simp
  let ?ys = "cyc ?n ((p + b) mod ?n) F"
  have "?ys = take F (cyc ?n (p + b) d)" using room by (simp add: take_cyc)
  then have sub: "set ?ys \<subseteq> set (cyc ?n (p + b) d)" by (simp only: set_take_subset)
  have "fromhw_tx_loop r m ?L (bd_at r ((p + b) mod ?n)) s' (of_nat D) 0 = Some (?L, part_count (tx_last r m) 0 ?ys)"
    using sub free L(1) D32 D(1) p by (intro fromhw_tx_loop_used [OF g base]) auto
  moreover have "part_count (tx_last r m) 0 ?ys = of_nat F"
  proof -
    have "takeWhile (\<lambda>i. \<not> tx_last r m i) (rev ?ys) = rev ?ys"
      using sub free by (auto simp: takeWhile_eq_all_conv)
    then have "length (takeWhile (\<lambda>i. \<not> tx_last r m i) (rev ?ys)) = F" by (metis length_cyc length_rev)
    then show ?thesis unfolding part_count_eq by (simp only:)
  qed
  moreover have "?L - of_nat F = of_nat D"
    unfolding L(2) D(1) [symmetric] of_nat_add by (rule add_diff_cancel_right')
  moreover have "hw_head r = bd_at r p" using at by (simp add: ring_at_def)
  ultimately show ?thesis
    using run b(3) by (simp add: FXmacBdRingFromHwTx_def Let_def)
qed

section \<open>Properties of the ring\<close>

text \<open>A ring of four descriptors at \<open>0x1000\<close>, as \<open>FXmacBdRingCreate\<close> leaves it.\<close>

definition ring4 :: FXmacBdRing where
  "ring4 = \<lparr>phys_base_addr = 0x1000, base_bd_addr = 0x1000, high_bd_addr = 0x1030,
     ring_length = 64, run_state = FXMAC_DMA_SG_IS_STOPED, separation = 16, free_head = 0x1000,
     pre_head = 0x1000, hw_head = 0x1000, hw_tail = 0x1000, post_head = 0x1000,
     bda_restart = 0x1000, hw_cnt = 0, pre_cnt = 0, free_cnt = 4, post_cnt = 0, all_cnt = 4\<rparr>"

text \<open>The same ring with all four descriptors owned by the hardware.\<close>

definition ring4_hw :: FXmacBdRing where
  "ring4_hw = ring4\<lparr>hw_cnt := 4, free_cnt := 0\<rparr>"

lemma ring4_at: "ring_at ring4 0 0 0 0 4" "ring_at ring4_hw 0 0 4 0 0"
  by (simp_all add: ring_at_def ring_geom_def ring4_def ring4_hw_def bd_num_def bd_at_def)

lemma ring4_inv: "ring_inv ring4" "ring_inv ring4_hw"
  using ring_atD(8) [OF ring4_at(1)] ring_atD(8) [OF ring4_at(2)] .

lemma ring4_abs:
  "ring_abs ring4 = \<lparr>freeq = [0, 1, 2, 3], preq = [], hwq = [], postq = []\<rparr>"
  "ring_abs ring4_hw = \<lparr>freeq = [], preq = [], hwq = [0, 1, 2, 3], postq = []\<rparr>"
  by (simp_all add: ring_abs_def ring4_def ring4_hw_def bd_num_def bd_index_def cyc_def upt_rec)





text \<open>
  Order. Descriptors come back from the hardware group in the order in which they were
  submitted: what was queued before plus what a run submits is what the run retrieves plus what
  stays queued.
\<close>

theorem ring_fifo:
  assumes "ring_inv r" "run_ops ring_step r ops = Some r'"
  shows "hwq (ring_abs r) @ op_log ring_step (\<lambda>s. submitted1 (ring_abs s)) r ops
     = op_log ring_step (\<lambda>s. retrieved1 (ring_abs s)) r ops @ hwq (ring_abs r')"
  using assms by (rule xring.run_fifo)

theorem ring_fifo_witness:
  "\<exists>r'. run_ops ring_step ring4_hw [BdTake 3] = Some r' \<and>
     [0, 1, 2, 3] = [0, 1, 2] @ hwq (ring_abs r')"
proof -
  have s: "ring_step ring4_hw (BdTake 3) = Some (ring4_hw\<lparr>hw_cnt := 1, post_cnt := 3, hw_head := 0x1030\<rparr>)"
    by (simp add: ring4_def ring4_hw_def fromhw_take_def Let_def FXMAC_RING_SEEKAHEAD_def)
  then have r: "run_ops ring_step ring4_hw [BdTake 3]
      = Some (ring4_hw\<lparr>hw_cnt := 1, post_cnt := 3, hw_head := 0x1030\<rparr>)" by simp
  from ring_fifo [OF ring4_inv(2) r] r s show ?thesis
    by (simp add: ring4_abs)
qed

text \<open>
  Creation. With an aligned, non-empty region that fits the address space,
  \<open>FXmacBdRingCreate\<close> succeeds, the ring satisfies the invariant with every descriptor free, in
  address order, all descriptor words are zero and no other cell of memory changes.
\<close>

theorem create_ring:
  assumes "create_args_ok phys virt al n"
  shows "\<exists>r m'. FXmacBdRingCreate r0 m phys virt al n = (FT_SUCCESS, r, m') \<and> ring_inv r
     \<and> base_bd_addr r = virt
     \<and> ring_abs r = \<lparr>freeq = [0..<unat n], preq = [], hwq = [], postq = []\<rparr>
     \<and> (\<forall>i<unat n. \<forall>j<4. m' (bd_cell virt i j) = 0)
     \<and> (\<forall>x. (\<forall>i<unat n. \<forall>j<4. x \<noteq> bd_cell virt i j) \<longrightarrow> m' x = m x)"
proof -
  from create_ring_at [OF assms] obtain r where
    r: "FXmacBdRingCreate r0 m phys virt al n = (FT_SUCCESS, r, memset32 m virt 0 (4 * unat n))"
      "ring_at r 0 0 0 0 (unat n)" "base_bd_addr r = virt" "bd_num r = unat n" by blast
  have cell: "bd_cell virt i j = virt + of_nat (4 * (4 * i + j))" for i j
    by (simp add: bd_cell_def algebra_simps)
  have "(\<exists>k<4 * unat n. x = virt + of_nat (4 * k)) \<longleftrightarrow> (\<exists>i<unat n. \<exists>j<4. x = bd_cell virt i j)" for x
  proof safe
    fix k assume "k < 4 * unat n"
    then have "k div 4 < unat n" "k mod 4 < 4" by auto
    with bd_cell_word [of virt k] show "\<exists>i<unat n. \<exists>j<4. virt + of_nat (4 * k) = bd_cell virt i j" by blast
  next
    fix i j :: nat assume "i < unat n" "j < 4"
    then have "4 * i + j < 4 * unat n" by simp
    with cell show "\<exists>k<4 * unat n. bd_cell virt i j = virt + of_nat (4 * k)" by blast
  qed
  then have mem: "memset32 m virt 0 (4 * unat n) x = (if \<exists>i<unat n. \<exists>j<4. x = bd_cell virt i j then 0 else m x)" for x
    by (simp only: memset32_apply)
  have "\<forall>i<unat n. \<forall>j<4. memset32 m virt 0 (4 * unat n) (bd_cell virt i j) = 0"
    "\<forall>x. (\<forall>i<unat n. \<forall>j<4. x \<noteq> bd_cell virt i j) \<longrightarrow> memset32 m virt 0 (4 * unat n) x = m x"
    unfolding mem by auto
  then show ?thesis
    using r ring_atD(8) [OF r(2)] ring_abs_ring_at [OF r(2)]
    by (intro exI [of _ r] exI [of _ "memset32 m virt 0 (4 * unat n)"]) (simp add: cyc_upto)
qed

theorem create_ring_witness:
  "create_args_ok 0x1000 0x1000 64 2 \<and>
   (\<exists>r m'. FXmacBdRingCreate ring4 (\<lambda>_. 7) 0x1000 0x1000 64 2 = (FT_SUCCESS, r, m')
     \<and> freeq (ring_abs r) = [0, 1] \<and> m' 0x101C = 0 \<and> m' 0x1020 = 7)"
proof -
  have ok: "create_args_ok 0x1000 0x1000 64 2"
    by (simp add: create_args_ok_def)
  have "create_args_ok 0x1000 0x1000 64 2" by (rule ok)
  from create_ring [OF this, of ring4 "\<lambda>_. 7"] obtain r m' where
    r: "FXmacBdRingCreate ring4 (\<lambda>_. 7) 0x1000 0x1000 64 2 = (FT_SUCCESS, r, m')"
      "ring_abs r = \<lparr>freeq = [0..<2], preq = [], hwq = [], postq = []\<rparr>"
      "\<forall>i<2. \<forall>j<4. m' (bd_cell 0x1000 i j) = 0"
      "\<forall>x. (\<forall>i<2. \<forall>j<4. x \<noteq> bd_cell 0x1000 i j) \<longrightarrow> m' x = 7" by auto
  have "bd_cell 0x1000 1 3 = 0x101C" by (simp add: bd_cell_def)
  with r(3) [rule_format, of 1 3] have "m' 0x101C = 0" by simp
  moreover have "0x1020 \<noteq> bd_cell 0x1000 i j" if "i < 2" "j < 4" for i j
    using bd_cell_inj [of "0x1000" 2 0 i j] that by (auto simp: bd_cell_def)
  ultimately show ?thesis
    using r ok by (auto simp: upt_rec)
qed

text \<open>The effect of a successful clone.\<close>

lemma clone_effect:
  assumes at: "ring_at r p 0 0 0 (bd_num r)" and st: "run_state r = FXMAC_DMA_SG_IS_STOPED"
    and base: "base_bd_addr r \<noteq> 0"
    and src: "\<forall>i<bd_num r. \<forall>j<4. \<forall>j'<4. src + of_nat (4 * j) \<noteq> bd_cell (base_bd_addr r) i j'"
    and dir: "dir = FXMAC_SEND \<or> dir = FXMAC_RECV"
  shows "\<exists>m'. FXmacBdRingClone r m src dir = (FT_SUCCESS, m')
     \<and> (\<forall>i<bd_num r. \<forall>j<4. m' (bd_cell (base_bd_addr r) i j) =
          (if i = bd_num r - 1 \<and> dir = FXMAC_RECV \<and> j = 0 then m src OR FXMAC_RXBUF_WRAP_MASK
           else if i = bd_num r - 1 \<and> dir = FXMAC_SEND \<and> j = 1 then m (src + 4) OR FXMAC_TXBUF_WRAP_MASK
           else m (src + of_nat (4 * j))))
     \<and> (\<forall>x. (\<forall>i<bd_num r. \<forall>j<4. x \<noteq> bd_cell (base_bd_addr r) i j) \<longrightarrow> m' x = m x)"
proof -
  let ?n = "bd_num r" and ?b = "base_bd_addr r"
  note g = ring_atD(1) [OF at]
  have n: "?n < 2 ^ 28" "0 < ?n" and sep: "separation r = 16" using g by (auto simp: ring_geom_def)
  obtain m1 c where l: "clone_loop m src 16 ?b ?n = (m1, c)" by fastforce
  note cl = clone_loop_apply [OF src n(1) l]
  have last: "c - 16 = bd_cell ?b (?n - 1) 0" "bd_cell ?b (?n - 1) 0 + 4 = bd_cell ?b (?n - 1) 1"
    using cl n by (simp_all add: bd_cell_def of_nat_diff algebra_simps)
  have nn: "bd_cell ?b (?n - 1) j \<noteq> 0" if "j < 4" for j
    using unat_bd_cell [OF g _ that, of "?n - 1"] n(2) base by (auto simp: unat_eq_0 [symmetric] simp del: unat_eq_0)
  have n0: "all_cnt r \<noteq> 0" "free_cnt r = all_cnt r" "unat (all_cnt r) = ?n"
    using n(2) ring_atD(7) [OF at] by (auto simp: bd_num_def word_unat_eq_iff)
  have d: "FXMAC_SEND \<noteq> FXMAC_RECV" by (simp add: const_defs)
  define w where "w = (if dir = FXMAC_RECV then bd_cell ?b (?n - 1) 0 else bd_cell ?b (?n - 1) 1)"
  define v where "v = (if dir = FXMAC_RECV then m src OR FXMAC_RXBUF_WRAP_MASK else m (src + 4) OR FXMAC_TXBUF_WRAP_MASK)"
  have m1: "m1 (bd_cell ?b (?n - 1) 0) = m src" "m1 (bd_cell ?b (?n - 1) 1) = m (src + 4)"
    using cl [THEN conjunct2, THEN conjunct1, rule_format, of "?n - 1" 0]
      cl [THEN conjunct2, THEN conjunct1, rule_format, of "?n - 1" 1] n(2) by simp_all
  have res: "FXmacBdRingClone r m src dir = (FT_SUCCESS, m1(w := v))"
    using n0 st dir d nn [of 0] nn [of 1] m1
    by (auto simp: FXmacBdRingClone_def Let_def sep l last [simplified] FXmacBdSetRxWrap_def FXmacBdSetTxWrap_def
        w_def v_def FXMAC_BD_ADDR_OFFSET_def FXMAC_BD_STAT_OFFSET_def
        FXMAC_DMA_SG_IS_STOPED_def FXMAC_DMA_SG_IS_STARTED_def)
  have w: "bd_cell ?b i j = w \<longleftrightarrow> i = ?n - 1 \<and> j = (if dir = FXMAC_RECV then 0 else 1)"
    if "i < ?n" "j < 4" for i j
    using bd_cell_inj [of ?b i j "?n - 1"] that n by (auto simp: w_def)
  have w_in: "\<exists>i<?n. \<exists>j<4. w = bd_cell ?b i j"
    using n(2) unfolding w_def by (metis diff_less less_numeral_extra(1) one_less_numeral_iff
        semiring_norm(76) zero_less_numeral)
  then have frame: "(m1(w := v)) x = m x" if "\<forall>i<?n. \<forall>j<4. x \<noteq> bd_cell ?b i j" for x
    using cl that by auto
  show ?thesis
    using res cl w dir d n(2) frame
    by (intro exI [of _ "m1(w := v)"] conjI) (auto simp: v_def)
qed

text \<open>
  Cloning. On a stopped ring whose descriptors are all free, \<open>FXmacBdRingClone\<close> copies the
  template into every descriptor, sets the wrap bit of the last descriptor only, in the word of
  the direction, and changes nothing else.
\<close>

theorem clone_ring:
  assumes "ring_at r p 0 0 0 (bd_num r)" and "run_state r = FXMAC_DMA_SG_IS_STOPED"
    and "base_bd_addr r \<noteq> 0"
    and "\<forall>i<bd_num r. \<forall>j<4. \<forall>j'<4. src + of_nat (4 * j) \<noteq> bd_cell (base_bd_addr r) i j'"
    and "dir = FXMAC_SEND \<or> dir = FXMAC_RECV"
  shows "\<exists>m'. FXmacBdRingClone r m src dir = (FT_SUCCESS, m')
     \<and> (\<forall>i<bd_num r. \<forall>j<4. m' (bd_cell (base_bd_addr r) i j) =
          (if i = bd_num r - 1 \<and> dir = FXMAC_RECV \<and> j = 0 then m src OR FXMAC_RXBUF_WRAP_MASK
           else if i = bd_num r - 1 \<and> dir = FXMAC_SEND \<and> j = 1 then m (src + 4) OR FXMAC_TXBUF_WRAP_MASK
           else m (src + of_nat (4 * j))))
     \<and> (\<forall>x. (\<forall>i<bd_num r. \<forall>j<4. x \<noteq> bd_cell (base_bd_addr r) i j) \<longrightarrow> m' x = m x)"
  using assms by (rule clone_effect)

theorem clone_ring_witness:
  "\<exists>m'. FXmacBdRingClone ring4 (\<lambda>_. 0) 0x2000 FXMAC_RECV = (FT_SUCCESS, m')
     \<and> m' 0x1000 = 0 \<and> m' 0x1030 = FXMAC_RXBUF_WRAP_MASK"
proof -
  have src: "0x2000 + of_nat (4 * j) \<noteq> bd_cell 0x1000 i j'" if "i < 4" "j < 4" "j' < 4" for i j j'
    using bd_cell_inj [of "0x1000" 256 j i j'] that by (auto simp: bd_cell_def)
  from clone_ring [of ring4 0 "0x2000" FXMAC_RECV "\<lambda>_. 0"] ring4_at(1) src obtain m' where
    m: "FXmacBdRingClone ring4 (\<lambda>_. 0) 0x2000 FXMAC_RECV = (FT_SUCCESS, m')"
    "\<forall>i<4. \<forall>j<4. m' (bd_cell 0x1000 i j) = (if i = 3 \<and> j = 0 then FXMAC_RXBUF_WRAP_MASK else 0)"
    by (auto simp: ring4_def bd_num_def const_defs)
  from m(2) [rule_format, of 0 0] m(2) [rule_format, of 3 0] m(1) show ?thesis
    by (simp add: bd_cell_def)
qed

text \<open>
  C19: Receive. When the limit does not exceed the number of descriptors the hardware owns,
  \<open>FXmacBdRingFromHwRx\<close> takes back the longest run of consecutive filled descriptors at the head
  of the hardware group that ends with an end-of-frame descriptor: whole frames only, in order.
\<close>

theorem rx_whole_frames:
  assumes inv: "ring_inv r" and base: "base_bd_addr r \<noteq> 0" and lim: "lim \<le> hw_cnt r"
  shows "\<exists>r' bd. let ready = takeWhile (rx_new r m) (take (unat lim) (hwq (ring_abs r)));
             c = whole_frames (rx_eof r m) ready
         in FXmacBdRingFromHwRx r m lim = (of_nat c, r', bd) \<and> ring_inv r'
            \<and> ring_abs r' = spec_fromhw c (ring_abs r)
            \<and> (0 < c \<longrightarrow> bd = hw_head r \<and> rx_eof r m (ready ! (c - 1)))
            \<and> (\<forall>j. c \<le> j \<and> j < length ready \<longrightarrow> \<not> rx_eof r m (ready ! j))"
proof -
  obtain p a b c d where at: "ring_at r p a b c d" using inv by (auto simp: ring_inv_iff_ring_at)
  have limb: "unat lim \<le> b" using lim ring_atD(5) [OF at] by (simp add: word_le_nat_alt)
  define ready where "ready = takeWhile (rx_new r m) (take (unat lim) (hwq (ring_abs r)))"
  define k where "k = whole_frames (rx_eof r m) ready"
  have ready: "ready = takeWhile (rx_new r m) (cyc (bd_num r) (p + a) (unat lim))"
    using limb by (simp add: ready_def ring_abs_ring_at [OF at] take_cyc)
  have "length ready \<le> unat lim"
    unfolding ready by (metis length_cyc length_takeWhile_le)
  then have kb: "k \<le> b" using limb whole_frames_le [of "rx_eof r m" ready] by (simp add: k_def)
  from fromhw_take_nat [OF at kb] obtain r' where
    r': "fromhw_take r (of_nat k) = (of_nat k, r', if k = 0 then 0 else hw_head r)"
      "ring_inv r'" "ring_abs r' = spec_fromhw k (ring_abs r)" .
  have scan: "FXmacBdRingFromHwRx r m lim = fromhw_take r (of_nat k)"
  proof (cases "b = 0")
    case True
    then have "hw_cnt r = 0" "k = 0" using ring_atD(5) [OF at] kb by (simp_all add: unat_eq_0)
    then show ?thesis by (simp add: FXmacBdRingFromHwRx_def fromhw_take_def)
  next
    case False
    then show ?thesis using rx_scan [OF at base, of m lim] by (simp add: k_def ready)
  qed
  show ?thesis
    using scan r' whole_frames_char [of "rx_eof r m" ready]
    unfolding Let_def ready_def [symmetric] k_def [symmetric]
    by (intro exI [of _ r'] exI [of _ "if k = 0 then 0 else hw_head r"]) auto
qed

text \<open>Two filled descriptors, the first of which ends a frame; the others are empty.\<close>

definition rx_mem :: mem32 where
  "rx_mem = (\<lambda>_. 0)(0x1000 := 1, 0x1004 := 0x8000, 0x1010 := 1)"

theorem rx_whole_frames_witness:
  "ring_inv ring4_hw \<and> (\<exists>r'. FXmacBdRingFromHwRx ring4_hw rx_mem 4 = (1, r', 0x1000)
      \<and> postq (ring_abs r') = [0] \<and> hwq (ring_abs r') = [1, 2, 3])"
proof -
  have new: "rx_new ring4_hw rx_mem 0" "rx_new ring4_hw rx_mem 1" "\<not> rx_new ring4_hw rx_mem 2"
    and eof: "rx_eof ring4_hw rx_mem 0" "\<not> rx_eof ring4_hw rx_mem 1"
    by (simp_all add: rx_new_def rx_eof_def FXMAC_BD_IS_RX_NEW_def FXMAC_BD_READ_def bd_at_def ring4_hw_def
        ring4_def rx_mem_def const_defs FXMAC_RXBUF_NEW_MASK_def FXMAC_RXBUF_EOF_MASK_def BIT_def)
  then have c: "whole_frames (rx_eof ring4_hw rx_mem) (takeWhile (rx_new ring4_hw rx_mem) [0, 1, 2, 3]) = 1"
    by (simp add: whole_frames_def)
  have "base_bd_addr ring4_hw \<noteq> 0" "4 \<le> hw_cnt ring4_hw" "hw_head ring4_hw = 0x1000"
    by (simp_all add: ring4_hw_def ring4_def)
  with rx_whole_frames [OF ring4_inv(2), of 4 rx_mem] c show ?thesis
    by (auto simp: ring4_abs spec_fromhw_def Let_def ring4_inv)
qed

text \<open>
  The limit matters. \<open>FXmacBdRingFromHwRx\<close>, unlike the transmit function, does not cut the
  limit down to the hardware count. If it is larger and the descriptors beyond the hardware group
  still carry the filled and end-of-frame bits of an earlier use, the call hands out descriptors
  the hardware does not own, the counter wraps below zero and the invariant is lost.
\<close>

theorem rx_limit_overrun:
  assumes inv: "ring_inv r" and base: "base_bd_addr r \<noteq> 0"
    and cnt: "0 < hw_cnt r" "hw_cnt r < lim" "unat lim \<le> bd_num r"
    and stale: "\<forall>i<bd_num r. rx_new r m i \<and> rx_eof r m i"
  shows "\<exists>r' bd. FXmacBdRingFromHwRx r m lim = (lim, r', bd)
     \<and> unat (hw_cnt r') = unat (hw_cnt r) + 2 ^ 32 - unat lim \<and> \<not> ring_inv r'"
proof -
  obtain p a b c d where at: "ring_at r p a b c d" using inv by (auto simp: ring_inv_iff_ring_at)
  let ?xs = "cyc (bd_num r) (p + a) (unat lim)"
  have "set ?xs \<subseteq> {..<bd_num r}" using ring_atD(2) [OF at] by (auto simp: cyc_def)
  with stale have all: "takeWhile (rx_new r m) ?xs = ?xs" "\<forall>x\<in>set ?xs. rx_eof r m x"
    by (auto simp: takeWhile_eq_all_conv)
  then have "takeWhile (\<lambda>i. \<not> rx_eof r m i) (rev ?xs) = []"
    using hd_in_set [of "rev ?xs"] by (auto simp: takeWhile_eq_Nil_iff)
  then have w: "whole_frames (rx_eof r m) ?xs = unat lim" by (simp add: whole_frames_def)
  have b: "0 < b" using cnt(1) ring_atD(5) [OF at] by (simp add: word_less_nat_alt)
  define r' where "r' = fst (snd (fromhw_take r lim))"
  have hw: "hw_cnt r' = hw_cnt r - lim" and all_cnt: "bd_num r' = bd_num r"
    using cnt by (auto simp: r'_def fromhw_take_def Let_def bd_num_def)
  have "fromhw_take r lim = (lim, r', snd (snd (fromhw_take r lim)))"
    using le_less_trans [OF _ cnt(2), of 0] by (simp add: r'_def fromhw_take_def Let_def)
  then have res: "FXmacBdRingFromHwRx r m lim = (lim, r', snd (snd (fromhw_take r lim)))"
    using rx_scan [OF at base b, of m lim] all(1) w by simp
  have un: "unat (hw_cnt r') = unat (hw_cnt r) + 2 ^ 32 - unat lim"
    using cnt(2) by (simp add: hw unat_sub_if' word_less_nat_alt)
  moreover have "\<not> ring_inv r'"
  proof
    assume "ring_inv r'"
    then have "unat (hw_cnt r') \<le> bd_num r" "bd_num r < 2 ^ 28"
      unfolding all_cnt [symmetric] by (auto simp: ring_inv_def ring_geom_def)
    with un cnt(3) show False by simp
  qed
  ultimately show ?thesis using res by blast
qed

theorem rx_limit_overrun_witness:
  "\<exists>r' bd. FXmacBdRingFromHwRx (ring4\<lparr>hw_cnt := 1, free_cnt := 3, pre_head := 0x1010, hw_tail := 0x1010, free_head := 0x1010\<rparr>)
     (\<lambda>_. 0x8001) 4 = (4, r', bd) \<and> unat (hw_cnt r') = 4294967293"
proof -
  let ?r = "ring4\<lparr>hw_cnt := 1, free_cnt := 3, pre_head := 0x1010, hw_tail := 0x1010, free_head := 0x1010\<rparr>"
  have "ring_at ?r 0 0 1 0 3"
    by (simp add: ring_at_def ring_geom_def ring4_def bd_num_def bd_at_def)
  then have inv: "ring_inv ?r" by (rule ring_atD(8))
  have "\<forall>i<bd_num ?r. rx_new ?r (\<lambda>_. 0x8001) i \<and> rx_eof ?r (\<lambda>_. 0x8001) i"
    by (simp add: rx_new_def rx_eof_def FXMAC_BD_IS_RX_NEW_def FXMAC_BD_READ_def
        FXMAC_RXBUF_NEW_MASK_def FXMAC_RXBUF_EOF_MASK_def BIT_def)
  with rx_limit_overrun [OF inv, of 4 "\<lambda>_. 0x8001"] show ?thesis
    by (auto simp: ring4_def bd_num_def)
qed

text \<open>
  C25: Transmit. When the descriptors under the limit are all marked used by the hardware,
  \<open>FXmacBdRingFromHwTx\<close> returns and takes back exactly those up to the last descriptor that
  ends a frame, whatever the limit.
\<close>

theorem tx_whole_frames:
  assumes inv: "ring_inv r" and base: "base_bd_addr r \<noteq> 0"
    and used: "\<forall>x\<in>set (take (unat lim) (hwq (ring_abs r))). tx_used r m x"
  shows "\<exists>r' bd. let c = whole_frames (tx_last r m) (take (unat lim) (hwq (ring_abs r)))
         in FXmacBdRingFromHwTx r m lim = Some (of_nat c, r', bd) \<and> ring_inv r'
            \<and> ring_abs r' = spec_fromhw c (ring_abs r) \<and> (0 < c \<longrightarrow> bd = hw_head r)"
proof -
  obtain p a b c d where at: "ring_at r p a b c d" using inv by (auto simp: ring_inv_iff_ring_at)
  let ?xs = "cyc (bd_num r) (p + a) (min (unat lim) b)"
  have xs: "take (unat lim) (hwq (ring_abs r)) = ?xs"
    by (cases "unat lim \<le> b") (simp_all add: ring_abs_ring_at [OF at] take_cyc)
  define k where "k = whole_frames (tx_last r m) ?xs"
  have kb: "k \<le> b" using whole_frames_le [of "tx_last r m" ?xs] by (simp add: k_def)
  from fromhw_take_nat [OF at kb] obtain r' where
    r': "fromhw_take r (of_nat k) = (of_nat k, r', if k = 0 then 0 else hw_head r)"
      "ring_inv r'" "ring_abs r' = spec_fromhw k (ring_abs r)" .
  have "FXmacBdRingFromHwTx r m lim = Some (fromhw_take r (of_nat k))"
  proof (cases "b = 0")
    case True
    then have "hw_cnt r = 0" "k = 0" using ring_atD(5) [OF at] kb by (simp_all add: unat_eq_0)
    then show ?thesis by (simp add: FXmacBdRingFromHwTx_def fromhw_take_def)
  next
    case False
    then show ?thesis using tx_scan_used [OF at base, of lim m] used by (simp add: xs k_def)
  qed
  then show ?thesis
    using r' unfolding xs Let_def k_def [symmetric]
    by (intro exI [of _ r'] exI [of _ "if k = 0 then 0 else hw_head r"]) simp
qed

theorem tx_whole_frames_witness:
  "\<exists>r'. FXmacBdRingFromHwTx ring4_hw ((\<lambda>_. 0x80000000)(0x1014 := 0x80008000)) 3 = Some (2, r', 0x1000)
     \<and> hwq (ring_abs r') = [2, 3]"
proof -
  let ?m = "(\<lambda>_. 0x80000000)(0x1014 := 0x80008000) :: mem32"
  have t: "\<forall>x\<in>set (take (unat (3::u32)) (hwq (ring_abs ring4_hw))). tx_used ring4_hw ?m x"
    "tx_last ring4_hw ?m 1" "\<not> tx_last ring4_hw ?m 2"
    by (auto simp: ring4_abs tx_used_def tx_last_def FXMAC_BD_READ_def bd_at_def ring4_hw_def ring4_def
        const_defs FXMAC_TXBUF_USED_MASK_def FXMAC_TXBUF_LAST_MASK_def BIT_def)
  then have c: "whole_frames (tx_last ring4_hw ?m) [0, 1, 2] = 2"
    by (simp add: whole_frames_def)
  have "base_bd_addr ring4_hw \<noteq> 0" "hw_head ring4_hw = 0x1000"
    by (simp_all add: ring4_hw_def ring4_def)
  with tx_whole_frames [OF ring4_inv(2) _ t(1)] c show ?thesis
    by (auto simp: ring4_abs spec_fromhw_def Let_def)
qed

text \<open>
  C30: Termination. With a descriptor in the hardware group and a non-zero limit, the scan of
  \<open>FXmacBdRingFromHwTx\<close> returns if and only if some descriptor of the whole ring has its used
  bit set: it does not stop at the first unfinished descriptor but goes round the ring, and
  while the hardware has finished nothing it never returns.
\<close>

theorem tx_scan_returns_iff:
  assumes inv: "ring_inv r" and base: "base_bd_addr r \<noteq> 0" and cnt: "hw_cnt r \<noteq> 0" "lim \<noteq> 0"
  shows "(\<exists>res. FXmacBdRingFromHwTx r m lim = Some res) \<longleftrightarrow> (\<exists>i<bd_num r. tx_used r m i)"
proof -
  obtain p a b c d where at: "ring_at r p a b c d" using inv by (auto simp: ring_inv_iff_ring_at)
  let ?L = "if lim > hw_cnt r then hw_cnt r else lim" and ?i = "(p + a) mod bd_num r"
  note g = ring_atD(1) [OF at]
  have i: "?i < bd_num r" "hw_head r = bd_at r ?i"
    using at ring_atD(2) [OF at] by (auto simp: ring_at_def)
  have L: "0 < ?L" using cnt by (auto simp: word_neq_0_conv)
  have res: "FXmacBdRingFromHwTx r m lim
      = Option.bind (fromhw_tx_loop r m ?L (bd_at r ?i) 0 0 0) (\<lambda>(x, y). Some (fromhw_take r (x - y)))"
    using cnt(1) by (simp add: FXmacBdRingFromHwTx_def Let_def i(2) case_prod_unfold)
  show ?thesis
  proof
    assume "\<exists>i<bd_num r. tx_used r m i"
    then obtain u where "u < bd_num r" "tx_used r m u" by blast
    from fromhw_tx_loop_returns [OF g base this i(1), of 0 "unat ?L" ?L 0 0] obtain part where
      "fromhw_tx_loop r m ?L (bd_at r ?i) 0 0 0 = Some (?L, part)" by auto
    then show "\<exists>res. FXmacBdRingFromHwTx r m lim = Some res"
      unfolding res by (intro exI) simp
  next
    assume r: "\<exists>res. FXmacBdRingFromHwTx r m lim = Some res"
    show "\<exists>i<bd_num r. tx_used r m i"
    proof (rule ccontr)
      assume "\<not> (\<exists>i<bd_num r. tx_used r m i)"
      then have "tx_stalled r m ?L (bd_at r ?i) 0"
        using g base L i(1) by (auto simp: tx_stalled_def)
      from fromhw_tx_loop_stalled [OF this] r show False unfolding res by simp
    qed
  qed
qed

theorem tx_scan_returns_iff_witness:
  "FXmacBdRingFromHwTx ring4_hw (\<lambda>_. 0x8000) 4 = None"
proof -
  have "\<not> tx_used ring4_hw (\<lambda>_. 0x8000) i" for i
    by (simp add: tx_used_def FXMAC_BD_READ_def FXMAC_TXBUF_USED_MASK_def BIT_def)
  moreover have "base_bd_addr ring4_hw \<noteq> 0" "hw_cnt ring4_hw \<noteq> 0" "(4::u32) \<noteq> 0"
    by (simp_all add: ring4_hw_def ring4_def)
  ultimately show ?thesis
    using tx_scan_returns_iff [OF ring4_inv(2), of 4 "\<lambda>_. 0x8000"] by (metis option.exhaust)
qed

text \<open>
  The consistency check expects every descriptor but the last to hold the physical address
  of its successor in its address word, so it rejects a ring that \<open>FXmacBdRingCreate\<close> has just made
  with at least two descriptors, in both directions.
\<close>

theorem check_rejects_created_ring:
  assumes ok: "create_args_ok phys virt al n" and n: "2 \<le> unat n" and ph: "phys + 16 \<noteq> 0"
    and dir: "dir = FXMAC_SEND \<or> dir = FXMAC_RECV"
  shows "case FXmacBdRingCreate r0 m phys virt al n of (st, r, m') \<Rightarrow>
           st = FT_SUCCESS \<and> FXmacBdRingCheck r m' dir = FXMAC_ERR_SG_LIST"
proof -
  from create_ring_at [OF ok] obtain r where
    r: "FXmacBdRingCreate r0 m phys virt al n = (FT_SUCCESS, r, memset32 m virt 0 (4 * unat n))"
      "ring_at r 0 0 0 0 (unat n)" "base_bd_addr r = virt" "phys_base_addr r = phys"
      "bd_num r = unat n" "run_state r = FXMAC_DMA_SG_IS_STOPED" by blast
  have z: "memset32 m virt 0 (4 * unat n) virt = 0"
  proof -
    have "\<exists>j<4 * unat n. virt = virt + of_nat (4 * j)" using n by (intro exI [of _ 0]) simp
    then show ?thesis by (simp only: memset32_apply if_True)
  qed
  have sep: "separation r = 16" using ring_atD(1) [OF r(2)] by (simp add: ring_geom_def)
  obtain k where k: "unat (all_cnt r) - 1 = Suc k"
    using n r(5) by (cases "unat (all_cnt r) - 1") (auto simp: bd_num_def)
  have "all_cnt r \<noteq> 0" using n r(5) by (auto simp: bd_num_def)
  moreover have "check_links (memset32 m virt 0 (4 * unat n)) (ucast (separation r)) virt (phys + 16) (Suc k) = None"
    using ph by (simp add: FXMAC_BD_READ_def FXMAC_BD_ADDR_OFFSET_def z)
  ultimately show ?thesis
    using r dir by (auto simp: FXmacBdRingCheck_def k [simplified] sep const_defs simp del: check_links.simps)
qed

theorem check_rejects_created_ring_witness:
  "case FXmacBdRingCreate ring4 (\<lambda>_. 0) 0x1000 0x1000 64 2 of (st, r, m') \<Rightarrow>
     FXmacBdRingCheck r m' FXMAC_RECV = FXMAC_ERR_SG_LIST"
  using check_rejects_created_ring [of "0x1000" "0x1000" 64 2 FXMAC_RECV ring4 "\<lambda>_. 0"]
  by (simp add: create_args_ok_def case_prod_unfold)

text \<open>
  A ring of four with three frames of one descriptor each at the hardware: the first is finished,
  the other two are in flight, the fourth descriptor is free and marked used.
\<close>

definition ring4_busy :: FXmacBdRing where
  "ring4_busy = ring4\<lparr>hw_cnt := 3, free_cnt := 1, pre_head := 0x1030, hw_tail := 0x1030, free_head := 0x1030\<rparr>"

definition mem4_busy :: mem32 where
  "mem4_busy = (\<lambda>_. 0)(0x1004 := 0x80008000, 0x1014 := 0x8000, 0x1024 := 0x8000, 0x1034 := 0x80000000)"


end
