(* ===== verification/PqQueue.thy ===== *)
theory PqQueue
  imports SdkPrelude
begin

text \<open>
  The bounded packet queue of the XMAC driver (\<^verbatim>\<open>drivers/eth/xmac/fxmac_os.c\<close>, the
  \<^verbatim>\<open>PqQueue\<close> functions). The circular array is shown to be a bounded first-in first-out queue;
  the contract is the locale \<open>bounded_fifo\<close>, and its client lemma says that the drain loops of
  the driver see the queued packets once each, in order. The three indices of the C structure
  are never negative and are natural numbers here.
\<close>

definition PQ_QUEUE_SIZE :: nat where [const_defs]: "PQ_QUEUE_SIZE = 4096"

record PqQueue =
  pq_data :: "uintptr list"
  pq_head :: nat
  pq_tail :: nat
  pq_len :: nat

definition FXmacQueueInit :: "PqQueue \<Rightarrow> PqQueue" where
  "FXmacQueueInit q = q\<lparr>pq_head := 0, pq_tail := 0, pq_len := 0\<rparr>"

definition FXmacPqEnqueue :: "PqQueue \<Rightarrow> uintptr \<Rightarrow> int \<times> PqQueue" where
  "FXmacPqEnqueue q p =
    (if pq_len q = PQ_QUEUE_SIZE then (- 1, q)
     else let q = q\<lparr>pq_data := (pq_data q)[pq_head q := p]\<rparr>;
              q = q\<lparr>pq_head := (pq_head q + 1) mod PQ_QUEUE_SIZE\<rparr>;
              q = q\<lparr>pq_len := pq_len q + 1\<rparr>
          in (0, q))"

definition FXmacPqDequeue :: "PqQueue \<Rightarrow> uintptr \<times> PqQueue" where
  "FXmacPqDequeue q =
    (if pq_len q = 0 then (0, q)
     else let ptail = pq_tail q;
              q = q\<lparr>pq_tail := (pq_tail q + 1) mod PQ_QUEUE_SIZE\<rparr>;
              q = q\<lparr>pq_len := pq_len q - 1\<rparr>
          in (pq_data q ! ptail, q))"

definition FXmacPqQlength :: "PqQueue \<Rightarrow> nat" where
  "FXmacPqQlength q = pq_len q"

section \<open>The contract of a bounded queue\<close>

text \<open>The loop \<open>while (len) { p = dequeue(); f(p); len--; }\<close> hands this list to \<open>f\<close>.\<close>

primrec drain :: "('q \<Rightarrow> 'a \<times> 'q) \<Rightarrow> nat \<Rightarrow> 'q \<Rightarrow> 'a list \<times> 'q" where
  "drain deq 0 q = ([], q)"
| "drain deq (Suc k) q = (case deq q of (x, q) \<Rightarrow> case drain deq k q of (xs, q) \<Rightarrow> (x # xs, q))"

text \<open>Enqueueing a list of packets; the second component collects the rejected ones.\<close>

primrec fill :: "('q \<Rightarrow> 'a \<Rightarrow> int \<times> 'q) \<Rightarrow> 'a list \<Rightarrow> 'q \<Rightarrow> 'a list \<times> 'q" where
  "fill enq [] q = ([], q)"
| "fill enq (x # xs) q = (case enq q x of (st, q) \<Rightarrow>
     case fill enq xs q of (rej, q) \<Rightarrow> (if st < 0 then x # rej else rej, q))"

locale bounded_fifo =
  fixes inv :: "'q \<Rightarrow> bool" and abs :: "'q \<Rightarrow> 'a list" and cap :: nat
    and enq :: "'q \<Rightarrow> 'a \<Rightarrow> int \<times> 'q" and deq :: "'q \<Rightarrow> 'a \<times> 'q" and len :: "'q \<Rightarrow> nat"
  assumes len: "inv q \<Longrightarrow> len q = length (abs q)"
    and bound: "inv q \<Longrightarrow> length (abs q) \<le> cap"
    and enq_full: "\<lbrakk>inv q; length (abs q) = cap\<rbrakk> \<Longrightarrow> enq q x = (- 1, q)"
    and enq_ok: "\<lbrakk>inv q; length (abs q) < cap\<rbrakk>
      \<Longrightarrow> \<exists>q'. enq q x = (0, q') \<and> inv q' \<and> abs q' = abs q @ [x]"
    and deq_ok: "\<lbrakk>inv q; abs q = x # xs\<rbrakk> \<Longrightarrow> \<exists>q'. deq q = (x, q') \<and> inv q' \<and> abs q' = xs"
begin

lemma drain_all: "inv q \<Longrightarrow> \<exists>q'. drain deq (len q) q = (abs q, q') \<and> inv q' \<and> abs q' = []"
proof (induction "abs q" arbitrary: q)
  case Nil
  then show ?case by (simp add: len)
next
  case (Cons x xs)
  from deq_ok [OF Cons.prems Cons.hyps(2) [symmetric]] obtain q1 where
    q1: "deq q = (x, q1)" "inv q1" "abs q1 = xs" by blast
  from Cons.hyps(1) [OF q1(3) [symmetric] q1(2)] obtain q2 where
    "drain deq (len q1) q1 = (abs q1, q2)" "inv q2" "abs q2 = []" by blast
  then show ?case
    using q1 Cons.hyps(2) len [OF Cons.prems] len [OF q1(2)] by (simp flip: Cons.hyps(2))
qed

text \<open>A batch is queued in order up to the capacity and the rest is rejected.\<close>

lemma fill_all:
  "inv q \<Longrightarrow> \<exists>q'. fill enq xs q = (drop (cap - length (abs q)) xs, q') \<and> inv q'
     \<and> abs q' = abs q @ take (cap - length (abs q)) xs"
proof (induction xs arbitrary: q)
  case (Cons x xs)
  show ?case
  proof (cases "length (abs q) < cap")
    case True
    from enq_ok [OF Cons.prems True, of x] obtain q1 where
      q1: "enq q x = (0, q1)" "inv q1" "abs q1 = abs q @ [x]" by blast
    have s: "cap - length (abs q) = Suc (cap - length (abs q1))"
      using True q1(3) by simp
    from Cons.IH [OF q1(2)] show ?thesis
      unfolding s using q1 by auto
  next
    case False
    then have f: "length (abs q) = cap" using bound [OF Cons.prems] by simp
    from Cons.IH [OF Cons.prems] show ?thesis
      using enq_full [OF Cons.prems f, of x] f by auto
  qed
qed simp

end

section \<open>The circular array implements the contract\<close>

definition pq_inv :: "PqQueue \<Rightarrow> bool" where
  "pq_inv q \<longleftrightarrow> length (pq_data q) = PQ_QUEUE_SIZE \<and> pq_tail q < PQ_QUEUE_SIZE
     \<and> pq_len q \<le> PQ_QUEUE_SIZE \<and> pq_head q = (pq_tail q + pq_len q) mod PQ_QUEUE_SIZE"

definition pq_abs :: "PqQueue \<Rightarrow> uintptr list" where
  "pq_abs q = map (\<lambda>j. pq_data q ! ((pq_tail q + j) mod PQ_QUEUE_SIZE)) [0..<pq_len q]"

lemma length_pq_abs [simp]: "length (pq_abs q) = pq_len q"
  by (simp add: pq_abs_def)

lemma pq_enqueue_abs:
  assumes inv: "pq_inv q" and room: "pq_len q < PQ_QUEUE_SIZE"
  shows "\<exists>q'. FXmacPqEnqueue q x = (0, q') \<and> pq_inv q' \<and> pq_abs q' = pq_abs q @ [x]"
proof -
  let ?n = PQ_QUEUE_SIZE
  define q' where "q' = q\<lparr>pq_data := (pq_data q)[pq_head q := x], pq_head := (pq_head q + 1) mod ?n, pq_len := pq_len q + 1\<rparr>"
  have "FXmacPqEnqueue q x = (0, q')"
    using room by (simp add: FXmacPqEnqueue_def q'_def Let_def)
  moreover have "pq_inv q'"
    using inv room by (auto simp: pq_inv_def q'_def mod_simps)
  moreover have "pq_head q \<noteq> (pq_tail q + j) mod ?n" if "j < pq_len q" for j
  proof
    assume "pq_head q = (pq_tail q + j) mod ?n"
    then have "?n dvd (pq_tail q + pq_len q) - (pq_tail q + j)"
      using inv that unfolding pq_inv_def by (metis add_le_cancel_left less_imp_le mod_eq_dvd_iff_nat)
    then show False using that room by (auto dest: dvd_imp_le)
  qed
  then have "pq_abs q' = pq_abs q @ [x]"
    using inv room by (auto simp: pq_abs_def q'_def pq_inv_def PQ_QUEUE_SIZE_def)
  ultimately show ?thesis by blast
qed

lemma pq_dequeue_abs:
  assumes inv: "pq_inv q" and abs: "pq_abs q = x # xs"
  shows "\<exists>q'. FXmacPqDequeue q = (x, q') \<and> pq_inv q' \<and> pq_abs q' = xs"
proof -
  let ?n = PQ_QUEUE_SIZE
  obtain k where k: "pq_len q = Suc k"
    using abs by (metis length_Cons length_pq_abs)
  define q' where "q' = q\<lparr>pq_tail := (pq_tail q + 1) mod ?n, pq_len := k\<rparr>"
  have split: "pq_abs q = pq_data q ! (pq_tail q mod ?n) # pq_abs q'"
    unfolding pq_abs_def k upt_conv_Cons [OF zero_less_Suc] list.map
    by (simp add: q'_def map_Suc_upt [symmetric] mod_simps del: upt_Suc)
  have "FXmacPqDequeue q = (pq_data q ! pq_tail q, q')"
    using k by (simp add: FXmacPqDequeue_def q'_def Let_def)
  moreover have "pq_inv q'"
    using inv k by (auto simp: pq_inv_def q'_def mod_simps)
  ultimately show ?thesis
    using split abs inv by (auto simp: pq_inv_def)
qed

interpretation pq: bounded_fifo pq_inv pq_abs PQ_QUEUE_SIZE FXmacPqEnqueue FXmacPqDequeue FXmacPqQlength
proof
  fix q :: PqQueue and x xs
  assume inv: "pq_inv q"
  show "FXmacPqQlength q = length (pq_abs q)" by (simp add: FXmacPqQlength_def)
  show "length (pq_abs q) \<le> PQ_QUEUE_SIZE" using inv by (simp add: pq_inv_def)
  show "FXmacPqEnqueue q x = (- 1, q)" if "length (pq_abs q) = PQ_QUEUE_SIZE"
    using that by (simp add: FXmacPqEnqueue_def)
  show "\<exists>q'. FXmacPqEnqueue q x = (0, q') \<and> pq_inv q' \<and> pq_abs q' = pq_abs q @ [x]"
    if "length (pq_abs q) < PQ_QUEUE_SIZE"
    using pq_enqueue_abs [OF inv] that by simp
  show "\<exists>q'. FXmacPqDequeue q = (x, q') \<and> pq_inv q' \<and> pq_abs q' = xs" if "pq_abs q = x # xs"
    by (rule pq_dequeue_abs [OF inv that])
qed

text \<open>
  C29: The packet queue. A batch of packets enqueued with \<open>FXmacPqEnqueue\<close> is accepted in order up
  to the free capacity and the rest is reported as rejected; draining the queue afterwards with
  \<open>FXmacPqDequeue\<close> returns the packets queued before followed by the accepted ones, in order.
\<close>

theorem pq_fill_drain:
  assumes "pq_inv q"
  shows "\<exists>q1 q2. let room = PQ_QUEUE_SIZE - FXmacPqQlength q in
     fill FXmacPqEnqueue xs q = (drop room xs, q1)
     \<and> drain FXmacPqDequeue (FXmacPqQlength q1) q1 = (pq_abs q @ take room xs, q2) \<and> FXmacPqQlength q2 = 0"
proof -
  from pq.fill_all [OF assms, of xs] obtain q1 where
    q1: "fill FXmacPqEnqueue xs q = (drop (PQ_QUEUE_SIZE - FXmacPqQlength q) xs, q1)" "pq_inv q1"
      "pq_abs q1 = pq_abs q @ take (PQ_QUEUE_SIZE - FXmacPqQlength q) xs"
    by (auto simp: pq.len [OF assms])
  from pq.drain_all [OF q1(2)] obtain q2 where
    "drain FXmacPqDequeue (FXmacPqQlength q1) q1 = (pq_abs q1, q2)" "pq_inv q2" "pq_abs q2 = []" by blast
  with q1 pq.len [of q2] show ?thesis by (auto simp: Let_def)
qed

theorem pq_fill_drain_witness:
  "\<exists>q. pq_inv q \<and> (\<exists>q1 q2. fill FXmacPqEnqueue [1, 2, 3] q = ([], q1)
     \<and> drain FXmacPqDequeue (FXmacPqQlength q1) q1 = ([1, 2, 3], q2))"
proof -
  let ?q = "\<lparr>pq_data = replicate 4096 0, pq_head = 4095, pq_tail = 4095, pq_len = 0\<rparr>"
  have "pq_inv ?q" by (simp add: pq_inv_def PQ_QUEUE_SIZE_def)
  with pq_fill_drain [OF this, of "[1, 2, 3]"] show ?thesis
    by (intro exI [of _ ?q]) (auto simp: Let_def FXmacPqQlength_def pq_abs_def PQ_QUEUE_SIZE_def)
qed

end
