(* ===== verification/XmacOs.thy ===== *)
theory XmacOs
  imports BdRingScan PqQueue
begin

text \<open>
  The FreeRTOS layer of the XMAC driver, \<^verbatim>\<open>drivers/eth/xmac/fxmac_os.c\<close>: transmission,
  reclaiming of sent descriptors, refilling of the receive ring, reception, and release of
  buffers. The driver instance is a record with its two rings, the buffer tables and the packet
  queue; descriptor memory and a log of the calls into lwIP and of register accesses are part
  of it.

  \<^item> lwIP is a parameter (\<open>lwip_env\<close>): what \<^verbatim>\<open>pbuf_alloc\<close> returns, where the payload of
    a buffer is, the type of a received frame and whether the stack accepts it. Calls to it are
    recorded as events, newest first. MAC registers are read through the same parameter.
  \<^item> Barriers and cache maintenance have no effect on the model's memory.
\<close>

section \<open>Environment\<close>

datatype os_event =
    PbufAlloc uintptr | PbufFree uintptr | PbufRef uintptr | PbufRealloc uintptr u32
  | NetInput uintptr | RegRead uintptr | RegWrite uintptr u32

record lwip_env =
  pbuf_alloc :: "os_event list \<Rightarrow> u32 \<Rightarrow> uintptr"
  pbuf_payload :: "uintptr \<Rightarrow> uintptr"
  eth_type :: "uintptr \<Rightarrow> u16"
  eth_types :: "u16 list"
  netif_input :: "os_event list \<Rightarrow> uintptr \<Rightarrow> bool"
  mac_reg :: "os_event list \<Rightarrow> uintptr \<Rightarrow> u32"

text \<open>One buffer of a chain to send: its address, its payload address and its length.\<close>

record pbuf =
  pb_ptr :: uintptr
  pb_payload :: uintptr
  pb_len :: u16

record FXmacOs =
  tx_bdring :: FXmacBdRing
  rx_bdring :: FXmacBdRing
  is_ready :: u32
  is_started :: u32
  base_address :: uintptr
  tx_bdspace :: uintptr
  rx_bdspace :: uintptr
  tx_pbufs_storage :: "uintptr list"
  rx_pbufs_storage :: "uintptr list"
  recv_q :: PqQueue
  send_q :: PqQueue
  feature :: u32
  os_mem :: mem32
  os_log :: "os_event list"

section \<open>Constants\<close>

definition ERR_GENERAL :: FError where "ERR_GENERAL = FT_MAKE_ERRCODE 0 0 1"
definition FREERTOS_XMAC_NO_VALID_SPACE :: FError where
  "FREERTOS_XMAC_NO_VALID_SPACE = FT_MAKE_ERRCODE ErrModPort 0 3"

definition FXMAC_RX_BDSPACE_LENGTH :: u32 where [const_defs]: "FXMAC_RX_BDSPACE_LENGTH = 0x20000"
definition FXMAC_TX_BDSPACE_LENGTH :: u32 where [const_defs]: "FXMAC_TX_BDSPACE_LENGTH = 0x20000"
definition FXMAC_TX_PBUFS_LENGTH :: u32 where [const_defs]: "FXMAC_TX_PBUFS_LENGTH = 64"
definition FXMAC_RX_PBUFS_LENGTH :: u32 where [const_defs]: "FXMAC_RX_PBUFS_LENGTH = 64"
definition FXMAC_OS_CONFIG_JUMBO :: u32 where "FXMAC_OS_CONFIG_JUMBO = BIT 0"
definition BD_ALIGNMENT :: u32 where "BD_ALIGNMENT = FXMAC_DMABD_MINIMUM_ALIGNMENT * 2"

definition FXMAC_MTU :: u32 where [const_defs]: "FXMAC_MTU = 1500"
definition FXMAC_MTU_JUMBO :: u32 where [const_defs]: "FXMAC_MTU_JUMBO = 10240"
definition FXMAC_HDR_SIZE :: u32 where [const_defs]: "FXMAC_HDR_SIZE = 14"
definition FXMAC_TRL_SIZE :: u32 where [const_defs]: "FXMAC_TRL_SIZE = 4"
definition FXMAC_MAX_FRAME_SIZE :: u32 where
  [const_defs]: "FXMAC_MAX_FRAME_SIZE = FXMAC_MTU + FXMAC_HDR_SIZE + FXMAC_TRL_SIZE"
definition FXMAC_MAX_FRAME_SIZE_JUMBO :: u32 where
  [const_defs]: "FXMAC_MAX_FRAME_SIZE_JUMBO = FXMAC_MTU_JUMBO + FXMAC_HDR_SIZE + FXMAC_TRL_SIZE"

definition FXMAC_RXBUF_LEN_MASK :: u32 where "FXMAC_RXBUF_LEN_MASK = GENMASK 12 0"
definition FXMAC_RXBUF_ADD_MASK :: u32 where "FXMAC_RXBUF_ADD_MASK = GENMASK 31 2"
definition FXMAC_TXBUF_LEN_MASK :: u32 where "FXMAC_TXBUF_LEN_MASK = GENMASK 13 0"

definition FXMAC_NWCTRL_OFFSET :: uintptr where [const_defs]: "FXMAC_NWCTRL_OFFSET = 0"
definition FXMAC_RXQBASE_OFFSET :: uintptr where [const_defs]: "FXMAC_RXQBASE_OFFSET = 0x18"
definition FXMAC_TXQBASE_OFFSET :: uintptr where [const_defs]: "FXMAC_TXQBASE_OFFSET = 0x1C"
definition FXMAC_RXSR_OFFSET :: uintptr where [const_defs]: "FXMAC_RXSR_OFFSET = 0x20"
definition FXMAC_IDR_OFFSET :: uintptr where [const_defs]: "FXMAC_IDR_OFFSET = 0x2C"
definition FXMAC_TXQ1BASE_OFFSET :: uintptr where [const_defs]: "FXMAC_TXQ1BASE_OFFSET = 0x440"
definition FXMAC_RXQ1BASE_OFFSET :: uintptr where [const_defs]: "FXMAC_RXQ1BASE_OFFSET = 0x480"
definition FXMAC_MSBBUF_TXQBASE_OFFSET :: uintptr where [const_defs]: "FXMAC_MSBBUF_TXQBASE_OFFSET = 0x4C8"
definition FXMAC_MSBBUF_RXQBASE_OFFSET :: uintptr where [const_defs]: "FXMAC_MSBBUF_RXQBASE_OFFSET = 0x4D4"
definition FXMAC_IXR_TXCOMPL_MASK :: u32 where "FXMAC_IXR_TXCOMPL_MASK = BIT 7"
definition FXMAC_NWCTRL_STARTTX_MASK :: u32 where "FXMAC_NWCTRL_STARTTX_MASK = BIT 9"
definition FXMAC_NWCTRL_TXEN_MASK :: u32 where "FXMAC_NWCTRL_TXEN_MASK = BIT 3"

section \<open>Descriptor fields\<close>

definition FXMAC_BD_SET_STATUS :: "mem32 \<Rightarrow> uintptr \<Rightarrow> u32 \<Rightarrow> mem32" where
  "FXMAC_BD_SET_STATUS m bd data =
     FXMAC_BD_WRITE m bd FXMAC_BD_STAT_OFFSET (FXMAC_BD_READ m bd FXMAC_BD_STAT_OFFSET OR data)"

definition FXMAC_BD_SET_ADDRESS_TX :: "mem32 \<Rightarrow> uintptr \<Rightarrow> uintptr \<Rightarrow> mem32" where
  "FXMAC_BD_SET_ADDRESS_TX m bd addr =
     (let m = FXMAC_BD_WRITE m bd FXMAC_BD_ADDR_OFFSET (LOWER_32_BITS addr)
      in FXMAC_BD_WRITE m bd FXMAC_BD_ADDR_HI_OFFSET (UPPER_32_BITS addr))"

definition FXMAC_BD_SET_ADDRESS_RX :: "mem32 \<Rightarrow> uintptr \<Rightarrow> uintptr \<Rightarrow> mem32" where
  "FXMAC_BD_SET_ADDRESS_RX m bd addr =
     (let m = FXMAC_BD_WRITE m bd FXMAC_BD_ADDR_OFFSET
                ((FXMAC_BD_READ m bd FXMAC_BD_ADDR_OFFSET AND NOT FXMAC_RXBUF_ADD_MASK) OR LOWER_32_BITS addr)
      in FXMAC_BD_WRITE m bd FXMAC_BD_ADDR_HI_OFFSET (UPPER_32_BITS addr))"

definition FXMAC_BD_SET_LENGTH :: "mem32 \<Rightarrow> uintptr \<Rightarrow> u32 \<Rightarrow> mem32" where
  "FXMAC_BD_SET_LENGTH m bd len_bytes = FXMAC_BD_WRITE m bd FXMAC_BD_STAT_OFFSET
     ((FXMAC_BD_READ m bd FXMAC_BD_STAT_OFFSET AND NOT FXMAC_TXBUF_LEN_MASK) OR len_bytes)"

definition FXMAC_BD_GET_LENGTH :: "mem32 \<Rightarrow> uintptr \<Rightarrow> u32" where
  "FXMAC_BD_GET_LENGTH m bd = FXMAC_BD_READ m bd FXMAC_BD_STAT_OFFSET AND FXMAC_RXBUF_LEN_MASK"

definition FXMAC_GET_RX_FRAME_SIZE :: "mem32 \<Rightarrow> uintptr \<Rightarrow> u32" where
  "FXMAC_GET_RX_FRAME_SIZE m bd = FXMAC_BD_READ m bd FXMAC_BD_STAT_OFFSET AND 0x3FFF"

definition FXMAC_BD_CLEAR_TX_USED :: "mem32 \<Rightarrow> uintptr \<Rightarrow> mem32" where
  "FXMAC_BD_CLEAR_TX_USED m bd = FXMAC_BD_WRITE m bd FXMAC_BD_STAT_OFFSET
     (FXMAC_BD_READ m bd FXMAC_BD_STAT_OFFSET AND NOT FXMAC_TXBUF_USED_MASK)"

definition FXMAC_BD_SET_LAST :: "mem32 \<Rightarrow> uintptr \<Rightarrow> mem32" where
  "FXMAC_BD_SET_LAST m bd = FXMAC_BD_WRITE m bd FXMAC_BD_STAT_OFFSET
     (FXMAC_BD_READ m bd FXMAC_BD_STAT_OFFSET OR FXMAC_TXBUF_LAST_MASK)"

definition FXMAC_BD_CLEAR_LAST :: "mem32 \<Rightarrow> uintptr \<Rightarrow> mem32" where
  "FXMAC_BD_CLEAR_LAST m bd = FXMAC_BD_WRITE m bd FXMAC_BD_STAT_OFFSET
     (FXMAC_BD_READ m bd FXMAC_BD_STAT_OFFSET AND NOT FXMAC_TXBUF_LAST_MASK)"

definition FXMAC_BD_TO_INDEX :: "FXmacBdRing \<Rightarrow> uintptr \<Rightarrow> nat" where
  "FXMAC_BD_TO_INDEX ring bd = unat (ucast ((bd - base_bd_addr ring) div ucast (separation ring)) :: u32)"

section \<open>Register access\<close>

definition FXMAC_READREG32 :: "lwip_env \<Rightarrow> FXmacOs \<Rightarrow> uintptr \<Rightarrow> u32 \<times> FXmacOs" where
  "FXMAC_READREG32 env os off =
     (let a = base_address os + off
      in (mac_reg env (os_log os) a, os\<lparr>os_log := RegRead a # os_log os\<rparr>))"

definition FXMAC_WRITEREG32 :: "FXmacOs \<Rightarrow> uintptr \<Rightarrow> u32 \<Rightarrow> FXmacOs" where
  "FXMAC_WRITEREG32 os off v = os\<lparr>os_log := RegWrite (base_address os + off) v # os_log os\<rparr>"

section \<open>Transmission\<close>

definition IsTxSpaceAvailable :: "FXmacOs \<Rightarrow> u32" where
  "IsTxSpaceAvailable os = free_cnt (tx_bdring os)"

definition max_frame_size :: "FXmacOs \<Rightarrow> u32" where
  "max_frame_size os = (if feature os AND FXMAC_OS_CONFIG_JUMBO \<noteq> 0
     then FXMAC_MAX_FRAME_SIZE_JUMBO else FXMAC_MAX_FRAME_SIZE)"

text \<open>
  The descriptor loop of \<open>FXmacSgsend\<close>: one descriptor per buffer of the chain. The result says
  whether every slot was empty, and carries the last descriptor written.
\<close>

primrec sgsend_fill :: "FXmacOs \<Rightarrow> uintptr \<Rightarrow> uintptr \<Rightarrow> pbuf list \<Rightarrow> bool \<times> FXmacOs \<times> uintptr" where
  "sgsend_fill os txbd last_txbd [] = (True, os, last_txbd)"
| "sgsend_fill os txbd last_txbd (q # qs) =
    (let bdindex = FXMAC_BD_TO_INDEX (tx_bdring os) txbd
     in if tx_pbufs_storage os ! bdindex \<noteq> 0 then (False, os, last_txbd)
        else let m = FXMAC_BD_SET_ADDRESS_TX (os_mem os) txbd (pb_payload q);
                 max_fr_size = max_frame_size os;
                 m = (if ucast (pb_len q) > max_fr_size
                      then FXMAC_BD_SET_LENGTH m txbd (max_fr_size AND 0x3FFF)
                      else FXMAC_BD_SET_LENGTH m txbd (ucast (pb_len q) AND 0x3FFF));
                 os = os\<lparr>tx_pbufs_storage := (tx_pbufs_storage os)[bdindex := pb_ptr q]\<rparr>;
                 os = os\<lparr>os_log := PbufRef (pb_ptr q) # os_log os\<rparr>;
                 os = os\<lparr>os_mem := FXMAC_BD_CLEAR_LAST m txbd\<rparr>
             in sgsend_fill os (FXMAC_BD_RING_NEXT (tx_bdring os) txbd) txbd qs)"

text \<open>The loop that hands the descriptors after the first to the hardware.\<close>

primrec clear_used_from :: "FXmacBdRing \<Rightarrow> mem32 \<Rightarrow> uintptr \<Rightarrow> nat \<Rightarrow> mem32" where
  "clear_used_from ring m txbd 0 = m"
| "clear_used_from ring m txbd (Suc k) =
     clear_used_from ring (FXMAC_BD_CLEAR_TX_USED m txbd) (FXMAC_BD_RING_NEXT ring txbd) k"

text \<open>An empty chain makes the code dereference a null pointer: no result.\<close>

definition FXmacSgsend :: "lwip_env \<Rightarrow> FXmacOs \<Rightarrow> pbuf list \<Rightarrow> (FError \<times> FXmacOs) option" where
  "FXmacSgsend env os p =
    (if p = [] then None
     else let n_pbufs = of_nat (length p);
              (status, txring, txbdset) = FXmacBdRingAlloc (tx_bdring os) n_pbufs 0
     in if status \<noteq> FT_SUCCESS then Some (ERR_GENERAL, os)
     else let os = os\<lparr>tx_bdring := txring\<rparr>;
              (ok, os, last_txbd) = sgsend_fill os txbdset 0 p
     in if \<not> ok then Some (ERR_GENERAL, os)
     else let m = FXMAC_BD_SET_LAST (os_mem os) last_txbd;
              m = clear_used_from txring m (FXMAC_BD_RING_NEXT txring txbdset) (length p - 1);
              m = FXMAC_BD_CLEAR_TX_USED m txbdset;
              os = os\<lparr>os_mem := m\<rparr>;
              (status, txring) = FXmacBdRingToHw (tx_bdring os) n_pbufs txbdset;
              os = os\<lparr>tx_bdring := txring\<rparr>
     in if status \<noteq> FT_SUCCESS then Some (ERR_GENERAL, os)
     else let (reg, os) = FXMAC_READREG32 env os FXMAC_NWCTRL_OFFSET;
              os = FXMAC_WRITEREG32 os FXMAC_NWCTRL_OFFSET (reg OR FXMAC_NWCTRL_STARTTX_MASK)
     in Some (status, os))"

text \<open>The loop of \<open>FXmacProcessSentBds\<close> over the descriptors taken back.\<close>

primrec sent_loop :: "nat \<Rightarrow> FXmacOs \<Rightarrow> uintptr \<Rightarrow> FXmacOs" where
  "sent_loop 0 os cur = os"
| "sent_loop (Suc k) os cur =
    (let bdindex = FXMAC_BD_TO_INDEX (tx_bdring os) cur;
         m = (os_mem os)(cur := 0);
         m = m(cur + 4 := if bdindex = unat (FXMAC_TX_PBUFS_LENGTH - 1) then 0xC0000000 else 0x80000000);
         p = tx_pbufs_storage os ! bdindex;
         os = os\<lparr>os_mem := m, os_log := (if p \<noteq> 0 then PbufFree p # os_log os else os_log os),
                 tx_pbufs_storage := (tx_pbufs_storage os)[bdindex := 0]\<rparr>
     in sent_loop k os (FXMAC_BD_RING_NEXT (tx_bdring os) cur))"

definition FXmacProcessSentBds :: "FXmacOs \<Rightarrow> u32 \<Rightarrow> FXmacOs option" where
  "FXmacProcessSentBds os cnt = do {
     (n_bds, txring, txbdset) \<leftarrow> FXmacBdRingFromHwTx (tx_bdring os) (os_mem os) cnt;
     let os = os\<lparr>tx_bdring := txring\<rparr>;
     if n_bds = 0 then Some os
     else do {
       let os = sent_loop (unat n_bds) os txbdset;
       let (status, txring) = FXmacBdRingFree (tx_bdring os) n_bds txbdset;
       Some (os\<lparr>tx_bdring := txring\<rparr>)
     }
   }"

definition FXmacSendHandler :: "FXmacOs \<Rightarrow> FXmacOs" where
  "FXmacSendHandler os = FXMAC_WRITEREG32 os FXMAC_IDR_OFFSET FXMAC_IXR_TXCOMPL_MASK"

definition FXmacOsOutput :: "lwip_env \<Rightarrow> FXmacOs \<Rightarrow> pbuf list \<Rightarrow> (FError \<times> FXmacOs) option" where
  "FXmacOsOutput env os p = FXmacSgsend env os p"

definition FXmacOsTx :: "lwip_env \<Rightarrow> FXmacOs \<Rightarrow> pbuf list \<Rightarrow> (FError \<times> FXmacOs) option" where
  "FXmacOsTx env os p = do {
     FASSERT (p \<noteq> []);
     os \<leftarrow> FXmacProcessSentBds os FXMAC_TX_PBUFS_LENGTH;
     if IsTxSpaceAvailable os \<noteq> 0 then FXmacOsOutput env os p
     else Some (FREERTOS_XMAC_NO_VALID_SPACE, os)
   }"

section \<open>Reception\<close>

text \<open>The descriptor words written when a fresh buffer is given to the hardware.\<close>

definition rx_bd_setup :: "FXmacOs \<Rightarrow> mem32 \<Rightarrow> uintptr \<Rightarrow> nat \<Rightarrow> uintptr \<Rightarrow> mem32" where
  "rx_bd_setup os m rxbd bdindex payload =
     (let m = m(rxbd := if bdindex = unat (FXMAC_RX_PBUFS_LENGTH - 1) then 2 else 0);
          m = m(rxbd + 4 := 0)
      in FXMAC_BD_SET_ADDRESS_RX m rxbd payload)"

text \<open>
  One turn of the refill loop, shared by \<open>SetupRxBds\<close> and \<open>FXmacInitDma\<close>: allocate a buffer
  and a descriptor, give the descriptor to the hardware and store the buffer in its slot.
  \<open>Inl\<close> is the early return.
\<close>

definition rx_refill_one :: "lwip_env \<Rightarrow> FXmacOs \<Rightarrow> (FXmacOs + FXmacOs) option" where
  "rx_refill_one env os =
    (let p = pbuf_alloc env (os_log os) (max_frame_size os);
         os = os\<lparr>os_log := PbufAlloc p # os_log os\<rparr>
     in if p = 0 then Some (Inl os)
     else let (status, rxring, rxbd) = FXmacBdRingAlloc (rx_bdring os) 1 0;
              os = os\<lparr>rx_bdring := rxring\<rparr>
     in if status \<noteq> FT_SUCCESS then Some (Inl (os\<lparr>os_log := PbufFree p # os_log os\<rparr>))
     else let (status, rxring) = FXmacBdRingToHw (rx_bdring os) 1 rxbd;
              os = os\<lparr>rx_bdring := rxring\<rparr>
     in if status \<noteq> FT_SUCCESS
        then let os = os\<lparr>os_log := PbufFree p # os_log os\<rparr>
             in map_option (\<lambda>(_, rxring). Inl (os\<lparr>rx_bdring := rxring\<rparr>))
                  (FXmacBdRingUnAlloc (rx_bdring os) 1 rxbd)
     else let bdindex = FXMAC_BD_TO_INDEX (rx_bdring os) rxbd;
              os = os\<lparr>os_mem := rx_bd_setup os (os_mem os) rxbd bdindex (pbuf_payload env p)\<rparr>
     in Some (Inr (os\<lparr>rx_pbufs_storage := (rx_pbufs_storage os)[bdindex := p]\<rparr>)))"

primrec rx_refill :: "lwip_env \<Rightarrow> nat \<Rightarrow> FXmacOs \<Rightarrow> (FXmacOs + FXmacOs) option" where
  "rx_refill env 0 os = Some (Inr os)"
| "rx_refill env (Suc k) os = Option.bind (rx_refill_one env os)
     (\<lambda>r. case r of Inl os \<Rightarrow> Some (Inl os) | Inr os \<Rightarrow> rx_refill env k os)"

definition SetupRxBds :: "lwip_env \<Rightarrow> FXmacOs \<Rightarrow> FXmacOs option" where
  "SetupRxBds env os = map_option (\<lambda>r. case r of Inl os \<Rightarrow> os | Inr os \<Rightarrow> os)
     (rx_refill env (unat (free_cnt (rx_bdring os))) os)"

definition FXmacOsRx :: "lwip_env \<Rightarrow> FXmacOs \<Rightarrow> uintptr \<Rightarrow> FXmacOs option" where
  "FXmacOsRx env os p = do {
     FASSERT (p \<noteq> 0);
     Some (if eth_type env p \<in> set (eth_types env)
           then let ok = netif_input env (os_log os) p;
                    os = os\<lparr>os_log := NetInput p # os_log os\<rparr>
                in if \<not> ok then os\<lparr>os_log := PbufFree p # os_log os\<rparr> else os
           else os\<lparr>os_log := PbufFree p # os_log os\<rparr>)
   }"

text \<open>The loop of \<open>FXmacRecvHandler\<close> that moves received buffers into the queue.\<close>

primrec recv_queue_loop :: "nat \<Rightarrow> FXmacOs \<Rightarrow> uintptr \<Rightarrow> FXmacOs" where
  "recv_queue_loop 0 os cur = os"
| "recv_queue_loop (Suc k) os cur =
    (let bdindex = FXMAC_BD_TO_INDEX (rx_bdring os) cur;
         p = rx_pbufs_storage os ! bdindex;
         rx_bytes = (if feature os AND FXMAC_OS_CONFIG_JUMBO \<noteq> 0
                     then FXMAC_GET_RX_FRAME_SIZE (os_mem os) cur
                     else FXMAC_BD_GET_LENGTH (os_mem os) cur);
         os = os\<lparr>os_log := PbufRealloc p rx_bytes # os_log os\<rparr>;
         (st, q) = FXmacPqEnqueue (recv_q os) p;
         os = os\<lparr>recv_q := q\<rparr>;
         os = (if st < 0 then os\<lparr>os_log := PbufFree p # os_log os\<rparr> else os);
         os = os\<lparr>rx_pbufs_storage := (rx_pbufs_storage os)[bdindex := 0]\<rparr>
     in recv_queue_loop k os (FXMAC_BD_RING_NEXT (rx_bdring os) cur))"

text \<open>The loop that passes the queued buffers to the network stack.\<close>

primrec recv_drain_loop :: "lwip_env \<Rightarrow> nat \<Rightarrow> FXmacOs \<Rightarrow> FXmacOs option" where
  "recv_drain_loop env 0 os = Some os"
| "recv_drain_loop env (Suc k) os = do {
     let (p, q) = FXmacPqDequeue (recv_q os);
     os \<leftarrow> FXmacOsRx env (os\<lparr>recv_q := q\<rparr>) p;
     recv_drain_loop env k os
   }"

text \<open>
  One turn of the outer loop; \<open>None\<close> is a failed assertion, \<open>Inl\<close> the exit. The hardware fills
  descriptors between two turns: \<open>dma\<close> gives the memory the next scan sees.
\<close>

definition recv_turn :: "lwip_env \<Rightarrow> (FXmacOs \<Rightarrow> mem32) \<Rightarrow> FXmacOs \<Rightarrow> (FXmacOs + FXmacOs) option" where
  "recv_turn env dma os =
    (let os = os\<lparr>os_mem := dma os\<rparr>;
         (bd_processed, rxring, rxbdset) = FXmacBdRingFromHwRx (rx_bdring os) (os_mem os) FXMAC_RX_PBUFS_LENGTH;
         os = os\<lparr>rx_bdring := rxring\<rparr>
     in if bd_processed = 0 then Some (Inl os)
     else let os = recv_queue_loop (unat bd_processed) os rxbdset;
              (_, rxring) = FXmacBdRingFree (rx_bdring os) bd_processed rxbdset
     in do {
       os \<leftarrow> SetupRxBds env (os\<lparr>rx_bdring := rxring\<rparr>);
       os \<leftarrow> recv_drain_loop env (FXmacPqQlength (recv_q os)) os;
       Some (Inr os)
     })"

partial_function (option) recv_loop :: "lwip_env \<Rightarrow> (FXmacOs \<Rightarrow> mem32) \<Rightarrow> FXmacOs \<Rightarrow> FXmacOs option" where
  "recv_loop env dma os = Option.bind (recv_turn env dma os)
     (\<lambda>r. case r of Inl os \<Rightarrow> Some os | Inr os \<Rightarrow> recv_loop env dma os)"

definition FXmacRecvHandler :: "lwip_env \<Rightarrow> (FXmacOs \<Rightarrow> mem32) \<Rightarrow> FXmacOs \<Rightarrow> FXmacOs option" where
  "FXmacRecvHandler env dma os =
    (let (regval, os) = FXMAC_READREG32 env os FXMAC_RXSR_OFFSET;
         os = FXMAC_WRITEREG32 os FXMAC_RXSR_OFFSET regval
     in recv_loop env dma os)"

section \<open>Initialisation, error recovery and release\<close>

text \<open>The template descriptors live on the stack, at an address outside the rings.\<close>

definition template_mem :: "mem32 \<Rightarrow> uintptr \<Rightarrow> u32 \<Rightarrow> mem32" where
  "template_mem m bdtemplate stat =
     FXMAC_BD_SET_STATUS (memset32 m bdtemplate 0 FXMAC_BD_NUM_WORDS) bdtemplate stat"

definition CleanDmaTxdescs :: "FXmacOs \<Rightarrow> uintptr \<Rightarrow> FXmacOs" where
  "CleanDmaTxdescs os bdtemplate =
    (let m = template_mem (os_mem os) bdtemplate FXMAC_TXBUF_USED_MASK;
         (_, ring, m) = FXmacBdRingCreate (tx_bdring os) m (tx_bdspace os) (tx_bdspace os)
                          BD_ALIGNMENT FXMAC_TX_BDSPACE_LENGTH;
         (_, m) = FXmacBdRingClone ring m bdtemplate FXMAC_SEND
     in os\<lparr>tx_bdring := ring, os_mem := m\<rparr>)"

definition FXMAC_QUEUE_REGISTER_OFFSET :: "uintptr \<Rightarrow> u8 \<Rightarrow> uintptr" where
  "FXMAC_QUEUE_REGISTER_OFFSET base_addr queue_id = base_addr + (ucast queue_id - 1) * 4"

definition FXmacSetQueuePtr :: "FXmacOs \<Rightarrow> uintptr \<Rightarrow> u8 \<Rightarrow> u8 \<Rightarrow> FXmacOs option" where
  "FXmacSetQueuePtr os queue_p queue_num direction = do {
     FASSERT (is_ready os = FT_COMPONENT_IS_READY);
     if is_started os = FT_COMPONENT_IS_STARTED then Some os
     else do {
       let v = LOWER_32_BITS queue_p OR (if queue_p = 0 then 1 else 0);
       let os = (if queue_num = 0
                 then FXMAC_WRITEREG32 os
                        (if direction = FXMAC_SEND then FXMAC_TXQBASE_OFFSET else FXMAC_RXQBASE_OFFSET) v
                 else FXMAC_WRITEREG32 os
                        (FXMAC_QUEUE_REGISTER_OFFSET
                           (if direction = FXMAC_SEND then FXMAC_TXQ1BASE_OFFSET else FXMAC_RXQ1BASE_OFFSET)
                           queue_num) v);
       Some (FXMAC_WRITEREG32 os
               (if direction = FXMAC_SEND then FXMAC_MSBBUF_TXQBASE_OFFSET else FXMAC_MSBBUF_RXQBASE_OFFSET)
               (UPPER_32_BITS queue_p))
     }
   }"

definition ERR_IF :: FError where [const_defs]: "ERR_IF = - 12"

definition FXmacInitDma :: "lwip_env \<Rightarrow> FXmacOs \<Rightarrow> uintptr \<Rightarrow> (FError \<times> FXmacOs) option" where
  "FXmacInitDma env os bdtemplate =
    (let m = memset32 (os_mem os) bdtemplate 0 FXMAC_BD_NUM_WORDS;
         (status, ring, m) = FXmacBdRingCreate (rx_bdring os) m (rx_bdspace os) (rx_bdspace os)
                               BD_ALIGNMENT FXMAC_RX_PBUFS_LENGTH;
         os = os\<lparr>rx_bdring := ring, os_mem := m\<rparr>
     in if status \<noteq> FT_SUCCESS then Some (ERR_IF, os)
     else let (status, m) = FXmacBdRingClone ring m bdtemplate FXMAC_RECV;
              os = os\<lparr>os_mem := m\<rparr>
     in if status \<noteq> FT_SUCCESS then Some (ERR_IF, os)
     else let m = template_mem m bdtemplate FXMAC_TXBUF_USED_MASK;
              (status, ring, m) = FXmacBdRingCreate (tx_bdring os) m (tx_bdspace os) (tx_bdspace os)
                                    BD_ALIGNMENT FXMAC_TX_PBUFS_LENGTH;
              os = os\<lparr>tx_bdring := ring, os_mem := m\<rparr>
     in if status \<noteq> FT_SUCCESS then Some (ERR_IF, os)
     else let (status, m) = FXmacBdRingClone ring m bdtemplate FXMAC_SEND;
              os = os\<lparr>os_mem := m\<rparr>
     in if status \<noteq> FT_SUCCESS then Some (ERR_IF, os)
     else Option.bind (rx_refill env (unat FXMAC_RX_PBUFS_LENGTH) os) (\<lambda>r. case r of
            Inl os \<Rightarrow> Some (ERR_IF, os)
          | Inr os \<Rightarrow> do {
              os \<leftarrow> FXmacSetQueuePtr os (base_bd_addr (tx_bdring os)) 0 FXMAC_SEND;
              os \<leftarrow> FXmacSetQueuePtr os (base_bd_addr (rx_bdring os)) 0 FXMAC_RECV;
              Some (0, os)
            }))"

text \<open>
  The table loops of \<open>FreeOnlyTxPbufs\<close> and \<open>FreeOnlyRxPbufs\<close>: release every stored buffer and
  clear its slot.
\<close>

primrec free_slots :: "uintptr list \<Rightarrow> os_event list \<Rightarrow> uintptr list \<times> os_event list" where
  "free_slots [] lg = ([], lg)"
| "free_slots (x # xs) lg =
     (case free_slots xs (if x \<noteq> 0 then PbufFree x # lg else lg) of (ys, lg) \<Rightarrow> (0 # ys, lg))"

definition FreeOnlyTxPbufs :: "FXmacOs \<Rightarrow> FXmacOs" where
  "FreeOnlyTxPbufs os = (case free_slots (tx_pbufs_storage os) (os_log os) of
     (st, lg) \<Rightarrow> os\<lparr>tx_pbufs_storage := st, os_log := lg\<rparr>)"

definition FreeOnlyRxPbufs :: "FXmacOs \<Rightarrow> FXmacOs" where
  "FreeOnlyRxPbufs os = (case free_slots (rx_pbufs_storage os) (os_log os) of
     (st, lg) \<Rightarrow> os\<lparr>rx_pbufs_storage := st, os_log := lg\<rparr>)"

definition FreeTxRxPbufs :: "FXmacOs \<Rightarrow> FXmacOs" where
  "FreeTxRxPbufs os =
    (let (ps, q) = drain FXmacPqDequeue (FXmacPqQlength (recv_q os)) (recv_q os);
         os = os\<lparr>recv_q := q, os_log := rev (map PbufFree ps) @ os_log os\<rparr>
     in FreeOnlyRxPbufs (FreeOnlyTxPbufs os))"

definition ResetDma :: "FXmacOs \<Rightarrow> FXmacOs option" where
  "ResetDma os = do {
     let os = os\<lparr>tx_bdring := FXmacBdringPtrReset (tx_bdring os) (tx_bdspace os)\<rparr>;
     let os = os\<lparr>rx_bdring := FXmacBdringPtrReset (rx_bdring os) (rx_bdspace os)\<rparr>;
     os \<leftarrow> FXmacSetQueuePtr os (base_bd_addr (tx_bdring os)) 0 FXMAC_SEND;
     FXmacSetQueuePtr os (base_bd_addr (rx_bdring os)) 0 FXMAC_RECV
   }"

definition FXmacHandleTxErrors :: "lwip_env \<Rightarrow> FXmacOs \<Rightarrow> uintptr \<Rightarrow> FXmacOs" where
  "FXmacHandleTxErrors env os bdtemplate =
    (let (netctrlreg, os) = FXMAC_READREG32 env os FXMAC_NWCTRL_OFFSET;
         netctrlreg = netctrlreg AND NOT FXMAC_NWCTRL_TXEN_MASK;
         os = FXMAC_WRITEREG32 os FXMAC_NWCTRL_OFFSET netctrlreg;
         os = FreeOnlyTxPbufs os;
         os = CleanDmaTxdescs os bdtemplate;
         (netctrlreg, os) = FXMAC_READREG32 env os FXMAC_NWCTRL_OFFSET;
         netctrlreg = netctrlreg OR FXMAC_NWCTRL_TXEN_MASK
     in FXMAC_WRITEREG32 os FXMAC_NWCTRL_OFFSET netctrlreg)"

end
