(* ===== verification/XmacOsProps.thy ===== *)
theory XmacOsProps
  imports XmacOs
begin

text \<open>
  Properties of the FreeRTOS layer of the XMAC driver: which descriptors and buffers a
  transmission, the reclaiming of sent descriptors and the release functions move, and where the
  error paths leave the driver.
\<close>

section \<open>Descriptors of a ring\<close>

lemma bd_to_index:
  assumes g: "ring_geom r" and i: "i < bd_num r"
  shows "FXMAC_BD_TO_INDEX r (bd_at r i) = i"
proof -
  have n: "16 * bd_num r < 2 ^ 32" "separation r = 16"
    using ring_geom_bounds(2) [OF g] g by (auto simp: ring_geom_def)
  have "unat ((bd_at r i - base_bd_addr r) div 16) = i"
    using n i by (simp add: bd_at_def unat_div unat_of_nat_64 del: of_nat_mult)
  then have "unat (ucast ((bd_at r i - base_bd_addr r) div 16) :: u32) = i"
    using n i by (simp add: unat_ucast_small)
  then show ?thesis
    using n by (simp add: FXMAC_BD_TO_INDEX_def)
qed

lemma bd_cell_eq_iff:
  "\<lbrakk>ring_geom r; i < bd_num r; i' < bd_num r; j < 4; j' < 4\<rbrakk> \<Longrightarrow>
   bd_cell (base_bd_addr r) i j = bd_cell (base_bd_addr r) i' j' \<longleftrightarrow> i = i' \<and> j = j'"
  using bd_cell_inj [of "base_bd_addr r" i j i' j'] by (auto simp: ring_geom_def)

lemma bd_at_cell: "bd_at r i = bd_cell (base_bd_addr r) i 0" "bd_at r i + 4 = bd_cell (base_bd_addr r) i 1"
  "bd_at r i + 8 = bd_cell (base_bd_addr r) i 2"
  by (simp_all add: bd_at_def bd_cell_def algebra_simps)


text \<open>The status word a filled transmit descriptor gets: length set, last bit cleared.\<close>

definition filled_stat :: "FXmacOs \<Rightarrow> pbuf \<Rightarrow> u32 \<Rightarrow> u32" where
  "filled_stat os q w =
     ((w AND NOT FXMAC_TXBUF_LEN_MASK) OR
      ((if ucast (pb_len q) > max_frame_size os then max_frame_size os else ucast (pb_len q)) AND 0x3FFF))
     AND NOT FXMAC_TXBUF_LAST_MASK"

text \<open>The memory after one turn of the descriptor loop of \<open>FXmacSgsend\<close>.\<close>

definition fill_mem :: "FXmacOs \<Rightarrow> uintptr \<Rightarrow> pbuf \<Rightarrow> mem32 \<Rightarrow> mem32" where
  "fill_mem os bd q m = m(bd := LOWER_32_BITS (pb_payload q), bd + 8 := UPPER_32_BITS (pb_payload q),
     bd + 4 := filled_stat os q (m (bd + 4)))"

lemma offsets_distinct [simp]:
  "(bd :: uintptr) \<noteq> bd + 4" "bd + 4 \<noteq> bd" "bd + 8 \<noteq> bd" "bd \<noteq> bd + 8"
  "bd + 4 \<noteq> bd + 8" "bd + 8 \<noteq> bd + 4"
  by simp_all

lemma sgsend_fill_Cons:
  "sgsend_fill os txbd lst (q # qs) =
    (let bdindex = FXMAC_BD_TO_INDEX (tx_bdring os) txbd
     in if tx_pbufs_storage os ! bdindex \<noteq> 0 then (False, os, lst)
        else sgsend_fill (os\<lparr>tx_pbufs_storage := (tx_pbufs_storage os)[bdindex := pb_ptr q],
               os_log := PbufRef (pb_ptr q) # os_log os, os_mem := fill_mem os txbd q (os_mem os)\<rparr>)
               (FXMAC_BD_RING_NEXT (tx_bdring os) txbd) txbd qs)"
proof -
  have "FXMAC_BD_CLEAR_LAST (FXMAC_BD_SET_LENGTH (FXMAC_BD_SET_ADDRESS_TX (os_mem os) txbd (pb_payload q)) txbd l) txbd
      = (os_mem os)(txbd := LOWER_32_BITS (pb_payload q), txbd + 8 := UPPER_32_BITS (pb_payload q),
          txbd + 4 := ((os_mem os (txbd + 4) AND NOT FXMAC_TXBUF_LEN_MASK) OR l) AND NOT FXMAC_TXBUF_LAST_MASK)" for l
    by (rule ext) (simp add: FXMAC_BD_CLEAR_LAST_def FXMAC_BD_SET_LENGTH_def FXMAC_BD_SET_ADDRESS_TX_def
        FXMAC_BD_WRITE_def FXMAC_BD_READ_def const_defs Let_def)
  then show ?thesis
    by (simp add: Let_def fill_mem_def filled_stat_def)
qed


text \<open>
  The loop writes one descriptor after the other, in ring order. Its effect on memory and on
  the slot table is a fold over the visited descriptors.
\<close>

lemma filled_stat_feature: "feature os' = feature os \<Longrightarrow> fill_mem os' = fill_mem os"
  by (simp add: fill_mem_def filled_stat_def max_frame_size_def fun_eq_iff)

lemma sgsend_fill_ok:
  assumes "ring_geom r" "i < bd_num r" "length qs \<le> bd_num r" "tx_bdring os = r"
    and "length (tx_pbufs_storage os) = bd_num r"
    and "\<forall>x\<in>set (cyc (bd_num r) i (length qs)). tx_pbufs_storage os ! x = 0"
  shows "sgsend_fill os (bd_at r i) lst qs =
     (True, os\<lparr>tx_pbufs_storage := foldl (\<lambda>s (x, q). s[x := pb_ptr q]) (tx_pbufs_storage os)
                                    (zip (cyc (bd_num r) i (length qs)) qs),
               os_log := rev (map (\<lambda>q. PbufRef (pb_ptr q)) qs) @ os_log os,
               os_mem := foldl (\<lambda>m (x, q). fill_mem os (bd_at r x) q m) (os_mem os)
                           (zip (cyc (bd_num r) i (length qs)) qs)\<rparr>,
      if qs = [] then lst else bd_at r ((i + (length qs - 1)) mod bd_num r))"
  using assms
proof (induction qs arbitrary: os i lst)
  case (Cons q qs)
  let ?n = "bd_num r" and ?k = "length qs"
  let ?os = "os\<lparr>tx_pbufs_storage := (tx_pbufs_storage os)[i := pb_ptr q],
               os_log := PbufRef (pb_ptr q) # os_log os, os_mem := fill_mem os (bd_at r i) q (os_mem os)\<rparr>"
  note i = \<open>i < ?n\<close> and g = \<open>ring_geom r\<close>
  have i': "Suc i mod ?n < ?n" using i by simp
  have "distinct (cyc ?n i (Suc ?k))" using Cons.prems(3) by (intro distinct_cyc) simp
  then have notin: "i \<notin> set (cyc ?n (Suc i) ?k)" using i by (simp add: cyc_Suc)
  have "\<forall>x\<in>set (cyc ?n (Suc i mod ?n) ?k). tx_pbufs_storage ?os ! x = 0"
    using Cons.prems(6) notin by (auto simp: cyc_Suc) (metis nth_list_update_neq)
  note IH = Cons.IH [OF g i' _ _ _ this, of "bd_at r i"]
  have "tx_pbufs_storage os ! i = 0" using Cons.prems(6) i by (simp add: cyc_Suc)
  moreover have "(Suc i mod ?n + (?k - 1)) mod ?n = (i + ?k) mod ?n" if "qs \<noteq> []"
    using that by (cases qs) (simp_all add: mod_simps)
  moreover have "fill_mem ?os = fill_mem os" by (rule filled_stat_feature) simp
  ultimately show ?case
    using IH Cons.prems i
    by (simp add: sgsend_fill_Cons bd_to_index bd_ring_next cyc_Suc Let_def del: sgsend_fill.simps)
qed simp


text \<open>Word \<open>j\<close> of descriptor \<open>x\<close>.\<close>

definition bdw :: "FXmacBdRing \<Rightarrow> mem32 \<Rightarrow> nat \<Rightarrow> nat \<Rightarrow> u32" where
  "bdw r m x j = m (bd_cell (base_bd_addr r) x j)"

lemma bdw_upd:
  "\<lbrakk>ring_geom r; x < bd_num r; x' < bd_num r; j < 4; j' < 4\<rbrakk> \<Longrightarrow>
   bdw r (m(bd_cell (base_bd_addr r) x j := v)) x' j' = (if x = x' \<and> j = j' then v else bdw r m x' j')"
  using bd_cell_eq_iff [of r x' x j' j] by (auto simp: bdw_def)

lemma fill_mem_cells: "fill_mem os (bd_at r x) q m =
    m(bd_cell (base_bd_addr r) x 0 := LOWER_32_BITS (pb_payload q),
      bd_cell (base_bd_addr r) x 2 := UPPER_32_BITS (pb_payload q),
      bd_cell (base_bd_addr r) x 1 := filled_stat os q (bdw r m x 1))"
  by (simp add: fill_mem_def bdw_def bd_cell_def bd_at_def algebra_simps)

lemma bdw_fill_mem:
  assumes "ring_geom r" "x < bd_num r" "z < bd_num r" "j < 4"
  shows "bdw r (fill_mem os (bd_at r x) q m) z j =
    (if x \<noteq> z then bdw r m z j else [LOWER_32_BITS (pb_payload q), filled_stat os q (bdw r m x 1),
        UPPER_32_BITS (pb_payload q), bdw r m x 3] ! j)"
proof -
  from assms(4) have "j = 0 \<or> j = 1 \<or> j = 2 \<or> j = 3" by auto
  with assms show ?thesis unfolding fill_mem_cells by (auto simp: bdw_upd)
qed

lemma bdw_fill:
  fixes m :: mem32 and os :: FXmacOs
  assumes g: "ring_geom r" and xs: "distinct xs" "set xs \<subseteq> {..<bd_num r}" "length xs = length qs" and j: "j < 4"
  defines "m' \<equiv> foldl (\<lambda>m (x, q). fill_mem os (bd_at r x) q m) m (zip xs qs)"
  shows "k < length qs \<Longrightarrow> bdw r m' (xs ! k) j = bdw r (fill_mem os (bd_at r (xs ! k)) (qs ! k) m) (xs ! k) j"
    and "\<lbrakk>z < bd_num r; z \<notin> set xs\<rbrakk> \<Longrightarrow> bdw r m' z j = bdw r m z j"
proof -
  let ?C = "\<lambda>x. bd_cell (base_bd_addr r) x ` {..<4}" and ?g = "\<lambda>x q. fill_mem os (bd_at r x) q"
  have loc: "?g x q m c = m c" if "x \<in> {..<bd_num r}" "z \<in> {..<bd_num r}" "x \<noteq> z" "c \<in> ?C z" for x q m c z
    using that bdw_fill_mem [OF g, of x z] by (auto simp: bdw_def)
  have dep: "?g x q m c = ?g x q m' c"
    if "x \<in> {..<bd_num r}" "\<forall>c\<in>?C x. m c = m' c" "c \<in> ?C x" for x q c and m m' :: mem32
  proof -
    have "bdw r m x j = bdw r m' x j" if "j < 4" for j using \<open>\<forall>c\<in>?C x. _\<close> that by (auto simp: bdw_def)
    then have "bdw r (?g x q m) x j = bdw r (?g x q m') x j" if "j < 4" for j
      using bdw_fill_mem [OF g, of x x j] that \<open>x \<in> _\<close> by simp
    then show ?thesis using \<open>c \<in> ?C x\<close> by (auto simp: bdw_def)
  qed
  show "bdw r m' (xs ! k) j = bdw r (fill_mem os (bd_at r (xs ! k)) (qs ! k) m) (xs ! k) j" if "k < length qs"
    unfolding m'_def bdw_def
    by (rule foldl_local_in [where I = "{..<bd_num r}" and C = ?C and g = ?g, OF loc dep]) (use xs j that in auto)
  show "bdw r m' z j = bdw r m z j" if "z < bd_num r" "z \<notin> set xs"
    unfolding m'_def bdw_def
    by (rule foldl_local_out [where I = "{..<bd_num r}" and C = ?C and g = ?g and z = z, OF loc]) (use xs j that in auto)
qed

text \<open>Handing descriptors to the hardware clears their used bits and nothing else.\<close>

lemma clear_used_from_eq:
  "\<lbrakk>ring_geom r; i < bd_num r\<rbrakk> \<Longrightarrow> clear_used_from r m (bd_at r i) k
     = foldl (\<lambda>m x. FXMAC_BD_CLEAR_TX_USED m (bd_at r x)) m (cyc (bd_num r) i k)"
  by (induction k arbitrary: m i) (simp_all add: cyc_Suc bd_ring_next)

lemma stat_cell: "bd_at r x + FXMAC_BD_STAT_OFFSET = bd_cell (base_bd_addr r) x 1"
  by (simp add: const_defs bd_at_def bd_cell_def algebra_simps)

lemma stat_bdw: "FXMAC_BD_READ m (bd_at r x) FXMAC_BD_STAT_OFFSET = bdw r m x 1"
  unfolding FXMAC_BD_READ_def stat_cell bdw_def ..

lemma bdw_stat_write:
  "\<lbrakk>ring_geom r; x < bd_num r; z < bd_num r; j < 4\<rbrakk> \<Longrightarrow>
   bdw r (FXMAC_BD_WRITE m (bd_at r z) FXMAC_BD_STAT_OFFSET v) x j = (if x = z \<and> j = 1 then v else bdw r m x j)"
  unfolding FXMAC_BD_WRITE_def stat_cell using bdw_upd [of r z x 1 j m v] by auto

lemma bdw_clear_used:
  "\<lbrakk>ring_geom r; set xs \<subseteq> {..<bd_num r}; x < bd_num r; j < 4\<rbrakk> \<Longrightarrow>
   bdw r (foldl (\<lambda>m x. FXMAC_BD_CLEAR_TX_USED m (bd_at r x)) m xs) x j =
     (if x \<in> set xs \<and> j = 1 then bdw r m x j AND NOT FXMAC_TXBUF_USED_MASK else bdw r m x j)"
proof (induction xs arbitrary: m)
  case (Cons a xs)
  then have "bdw r (FXMAC_BD_CLEAR_TX_USED m (bd_at r a)) x j
      = (if x = a \<and> j = 1 then bdw r m x j AND NOT FXMAC_TXBUF_USED_MASK else bdw r m x j)"
    unfolding FXMAC_BD_CLEAR_TX_USED_def stat_bdw by (subst bdw_stat_write) auto
  with Cons show ?case by (auto simp: and.assoc)
qed simp

lemma bdw_set_last:
  "\<lbrakk>ring_geom r; x < bd_num r; z < bd_num r; j < 4\<rbrakk> \<Longrightarrow>
   bdw r (FXMAC_BD_SET_LAST m (bd_at r z)) x j =
     (if x = z \<and> j = 1 then bdw r m x j OR FXMAC_TXBUF_LAST_MASK else bdw r m x j)"
  unfolding FXMAC_BD_SET_LAST_def stat_bdw by (subst bdw_stat_write) auto


section \<open>Transmission\<close>

text \<open>The status word of the \<open>j\<close>-th of \<open>k\<close> descriptors of a submitted frame.\<close>

definition sent_stat :: "FXmacOs \<Rightarrow> pbuf \<Rightarrow> bool \<Rightarrow> u32 \<Rightarrow> u32" where
  "sent_stat os q is_last w =
     (if is_last then filled_stat os q w OR FXMAC_TXBUF_LAST_MASK else filled_stat os q w)
     AND NOT FXMAC_TXBUF_USED_MASK"

lemma sent_stat_bits:
  "sent_stat os q l w AND FXMAC_TXBUF_USED_MASK = 0"
  "sent_stat os q l w AND FXMAC_TXBUF_LAST_MASK \<noteq> 0 \<longleftrightarrow> l"
  by (auto simp: sent_stat_def filled_stat_def FXMAC_TXBUF_USED_MASK_def FXMAC_TXBUF_LAST_MASK_def
      AND_BIT_eq_0_iff bit_simps)

text \<open>The memory \<open>FXmacSgsend\<close> leaves: fill, mark the last descriptor, clear the used bits.\<close>

definition sgsend_mem :: "FXmacOs \<Rightarrow> FXmacBdRing \<Rightarrow> nat list \<Rightarrow> pbuf list \<Rightarrow> mem32 \<Rightarrow> mem32" where
  "sgsend_mem os r xs qs m =
     (let m = foldl (\<lambda>m (x, q). fill_mem os (bd_at r x) q m) m (zip xs qs);
          m = FXMAC_BD_SET_LAST m (bd_at r (last xs))
      in foldl (\<lambda>m x. FXMAC_BD_CLEAR_TX_USED m (bd_at r x)) m (tl xs @ [hd xs]))"

lemma bdw_sgsend_mem:
  fixes m :: mem32 and os :: FXmacOs
  assumes g: "ring_geom r" and xs: "distinct xs" "set xs \<subseteq> {..<bd_num r}" "length xs = length qs"
    and ne: "qs \<noteq> []"
  defines "m' \<equiv> sgsend_mem os r xs qs m"
  shows "k < length qs \<Longrightarrow>
      bdw r m' (xs ! k) 1 = sent_stat os (qs ! k) (k = length qs - 1) (bdw r m (xs ! k) 1)
      \<and> bdw r m' (xs ! k) 0 = LOWER_32_BITS (pb_payload (qs ! k))
      \<and> bdw r m' (xs ! k) 2 = UPPER_32_BITS (pb_payload (qs ! k))"
    and "\<lbrakk>z < bd_num r; z \<notin> set xs; j < 4\<rbrakk> \<Longrightarrow> bdw r m' z j = bdw r m z j"
proof -
  let ?k = "length qs"
  define m1 where "m1 = foldl (\<lambda>m (x, q). fill_mem os (bd_at r x) q m) m (zip xs qs)"
  have ne': "xs \<noteq> []" using xs(3) ne by auto
  have set: "set (tl xs @ [hd xs]) = set xs" using ne' by (cases xs) auto
  have lst: "last xs = xs ! (?k - 1)" "last xs < bd_num r"
    using ne' xs last_in_set [OF ne'] by (simp_all add: last_conv_nth subset_iff)
  have bdw': "bdw r m' x j = (if x \<in> set xs \<and> j = 1
      then (if x = last xs then bdw r m1 x j OR FXMAC_TXBUF_LAST_MASK else bdw r m1 x j) AND NOT FXMAC_TXBUF_USED_MASK
      else bdw r m1 x j)" if "x < bd_num r" "j < 4" for x j
    unfolding m'_def sgsend_mem_def Let_def m1_def [symmetric]
    by (subst bdw_clear_used [OF g])
      (use xs(2) that bdw_set_last [OF g that(1) lst(2) that(2), of m1] last_in_set [OF ne'] in
        \<open>auto simp: set simp del: set_append split: if_splits\<close>)
  show "bdw r m' z j = bdw r m z j" if "z < bd_num r" "z \<notin> set xs" "j < 4"
    using bdw_fill(2) [OF g xs that(3,1,2), of os m] that by (simp add: bdw' m1_def)
  assume k: "k < ?k"
  then have x: "xs ! k < bd_num r" "xs ! k \<in> set xs" using xs nth_mem [of k xs] by (auto simp: subset_iff)
  have eqk: "xs ! k = last xs \<longleftrightarrow> k = ?k - 1"
    unfolding lst using xs k by (intro nth_eq_iff_index_eq) auto
  note f = bdw_fill(1) [OF g xs _ k, of _ os m, folded m1_def]
  show "bdw r m' (xs ! k) 1 = sent_stat os (qs ! k) (k = ?k - 1) (bdw r m (xs ! k) 1)
      \<and> bdw r m' (xs ! k) 0 = LOWER_32_BITS (pb_payload (qs ! k))
      \<and> bdw r m' (xs ! k) 2 = UPPER_32_BITS (pb_payload (qs ! k))"
    using f [of 0] f [of 1] f [of 2] x k eqk bdw_fill_mem [OF g x(1) x(1)]
    by (cases "k = ?k - 1") (simp_all add: bdw' sent_stat_def)
qed

lemma sgsend_ring_at:
  assumes at: "ring_at (tx_bdring os) p a b 0 d" and len: "length (tx_pbufs_storage os) = bd_num (tx_bdring os)"
    and qs: "qs \<noteq> []" "length qs \<le> d"
  defines "r \<equiv> tx_bdring os" and "xs \<equiv> cyc (bd_num (tx_bdring os)) (p + a + b) (length qs)"
  assumes free: "\<forall>x\<in>set xs. tx_pbufs_storage os ! x = 0"
  obtains os' v where "FXmacSgsend env os qs = Some (FT_SUCCESS, os')"
    "same_region r (tx_bdring os')" "ring_at (tx_bdring os') p a (b + length qs) 0 (d - length qs)"
    "tx_pbufs_storage os' = foldl (\<lambda>s (x, q). s[x := pb_ptr q]) (tx_pbufs_storage os) (zip xs qs)"
    "os_log os' = RegWrite (base_address os + FXMAC_NWCTRL_OFFSET) v #
       RegRead (base_address os + FXMAC_NWCTRL_OFFSET) # rev (map (\<lambda>q. PbufRef (pb_ptr q)) qs) @ os_log os"
    "os_mem os' = sgsend_mem os r xs qs (os_mem os)"
proof -
  let ?n = "bd_num r" and ?k = "length qs" and ?i = "(p + a + b) mod bd_num r"
  have at: "ring_at r p a b 0 d" and g: "ring_geom r" using at ring_atD(1) [OF at] by (simp_all add: r_def)
  have kn: "?k \<le> ?n" "?n < 2 ^ 28" using qs(2) ring_atD(3) [OF at] ring_at_num [OF at] by auto
  have i: "?i < ?n" using ring_atD(2) [OF at] by simp
  have uk: "unat (of_nat ?k :: u32) = ?k" using kn by (intro unat_of_nat_32) simp
  from alloc_ring_at [OF at, of "of_nat ?k" 0] qs(2) uk obtain r1 where
    r1: "FXmacBdRingAlloc r (of_nat ?k) 0 = (FT_SUCCESS, r1, bd_at r ?i)"
      "same_region r r1" "ring_at r1 p a b ?k (d - ?k)" by auto
  note s1 = same_regionD [OF r1(2)]
  have xs: "xs = cyc ?n ?i ?k" by (simp add: xs_def r_def)
  have hd: "hd xs = ?i" "tl xs = cyc ?n (Suc ?i) (?k - 1)" "last xs = (?i + (?k - 1)) mod ?n"
    using qs(1) unfolding xs by (simp_all add: hd_cyc tl_cyc last_cyc mod_simps del: cyc_mod)
  let ?os1 = "os\<lparr>tx_bdring := r1\<rparr>"
  define m1 where "m1 = foldl (\<lambda>m (x, q). fill_mem os (bd_at r x) q m) (os_mem os) (zip xs qs)"
  define st where "st = foldl (\<lambda>s (x, q). s[x := pb_ptr q]) (tx_pbufs_storage os) (zip xs qs)"
  have fm: "fill_mem ?os1 = fill_mem os" by (rule filled_stat_feature) simp
  have fill: "sgsend_fill ?os1 (bd_at r ?i) 0 qs = (True, ?os1\<lparr>tx_pbufs_storage := st,
      os_log := rev (map (\<lambda>q. PbufRef (pb_ptr q)) qs) @ os_log os, os_mem := m1\<rparr>, bd_at r (last xs))"
    using sgsend_fill_ok [of r1 ?i qs ?os1 0] g i kn len free qs(1)
    unfolding s1 xs [symmetric] fm hd(3) by (simp add: st_def m1_def r_def)
  have mem: "FXMAC_BD_CLEAR_TX_USED (clear_used_from r1 (FXMAC_BD_SET_LAST m1 (bd_at r (last xs)))
        (FXMAC_BD_RING_NEXT r1 (bd_at r ?i)) (?k - 1)) (bd_at r ?i) = sgsend_mem os r xs qs (os_mem os)"
    using clear_used_from_eq [of r1 "Suc ?i mod ?n" _ "?k - 1"] bd_ring_next [of r1 ?i] g i
    unfolding s1 by (simp add: sgsend_mem_def m1_def hd Let_def)
  from tohw_ring_at [OF r1(3), of "of_nat ?k" "bd_at r ?i"] uk obtain r2 where
    r2: "FXmacBdRingToHw r1 (of_nat ?k) (bd_at r ?i) = (FT_SUCCESS, r2)" "same_region r1 r2"
      "ring_at r2 p a (b + ?k) 0 (d - ?k)" unfolding s1 by auto
  define os2 where "os2 = os\<lparr>tx_pbufs_storage := st, os_log := rev (map (\<lambda>q. PbufRef (pb_ptr q)) qs) @ os_log os,
     os_mem := sgsend_mem os r xs qs (os_mem os), tx_bdring := r2\<rparr>"
  define os' where "os' = (case FXMAC_READREG32 env os2 FXMAC_NWCTRL_OFFSET of (reg, os) \<Rightarrow>
      FXMAC_WRITEREG32 os FXMAC_NWCTRL_OFFSET (reg OR FXMAC_NWCTRL_STARTTX_MASK))"
  have res: "FXmacSgsend env os qs = Some (FT_SUCCESS, os')"
    using r1(1) fill r2(1) mem qs(1)
    by (simp add: FXmacSgsend_def r_def [symmetric] os'_def os2_def case_prod_unfold Let_def)
  have "same_region r r2" using r1(2) r2(2) by (auto simp: same_region_def)
  then show thesis
    using r2(3)
    by (intro that [OF res]) (simp_all add: os'_def os2_def st_def FXMAC_READREG32_def FXMAC_WRITEREG32_def Let_def)
qed


section \<open>Reclaiming sent descriptors\<close>

text \<open>The words of a reclaimed descriptor: used again, wrap bit on the last one of the table.\<close>

definition reclaim_mem :: "FXmacBdRing \<Rightarrow> nat \<Rightarrow> mem32 \<Rightarrow> mem32" where
  "reclaim_mem r x m = m(bd_at r x := 0, bd_at r x + 4 := if x = 63 then 0xC0000000 else 0x80000000)"

lemma sent_loop_eq:
  assumes "ring_geom r" "tx_bdring os = r" "i < bd_num r" "k \<le> bd_num r"
    and "length (tx_pbufs_storage os) = bd_num r"
    and "\<forall>x\<in>set (cyc (bd_num r) i k). tx_pbufs_storage os ! x \<noteq> 0"
  shows "sent_loop k os (bd_at r i) =
    os\<lparr>os_mem := foldl (\<lambda>m x. reclaim_mem r x m) (os_mem os) (cyc (bd_num r) i k),
       os_log := rev (map (\<lambda>x. PbufFree (tx_pbufs_storage os ! x)) (cyc (bd_num r) i k)) @ os_log os,
       tx_pbufs_storage := foldl (\<lambda>s x. s[x := 0]) (tx_pbufs_storage os) (cyc (bd_num r) i k)\<rparr>"
  using assms
proof (induction k arbitrary: os i)
  case (Suc k)
  let ?n = "bd_num r"
  have i': "Suc i mod ?n < ?n" using Suc.prems by simp
  have "distinct (cyc ?n i (Suc k))" using Suc.prems(4) by (intro distinct_cyc) simp
  then have notin: "i \<notin> set (cyc ?n (Suc i) k)" using Suc.prems by (simp add: cyc_Suc)
  then have keep: "(tx_pbufs_storage os)[i := 0] ! x = tx_pbufs_storage os ! x" if "x \<in> set (cyc ?n (Suc i) k)" for x
    using that by (metis nth_list_update_neq)
  have l: "unat (FXMAC_TX_PBUFS_LENGTH - 1) = 63" by (simp add: const_defs)
  have nz: "tx_pbufs_storage os ! i \<noteq> 0" using Suc.prems by (simp add: cyc_Suc)
  let ?os = "os\<lparr>os_mem := reclaim_mem r i (os_mem os), os_log := PbufFree (tx_pbufs_storage os ! i) # os_log os,
      tx_pbufs_storage := (tx_pbufs_storage os)[i := 0]\<rparr>"
  have step: "sent_loop (Suc k) os (bd_at r i) = sent_loop k ?os (bd_at r (Suc i mod ?n))"
    using Suc.prems nz by (simp add: bd_to_index bd_ring_next reclaim_mem_def l Let_def)
  have eq: "map (\<lambda>x. PbufFree ((tx_pbufs_storage os)[i := 0] ! x)) (cyc ?n (Suc i) k)
      = map (\<lambda>x. PbufFree (tx_pbufs_storage os ! x)) (cyc ?n (Suc i) k)"
    using keep by simp
  have all: "\<forall>x\<in>set (cyc ?n (Suc i mod ?n) k). tx_pbufs_storage ?os ! x \<noteq> 0"
    using Suc.prems(6) keep by (auto simp: cyc_Suc)
  show ?case
    unfolding step using Suc.IH [OF Suc.prems(1) _ i' _ _ all] Suc.prems eq
    by (simp add: cyc_Suc)
qed simp

text \<open>The same loop as a fold of local updates on the words of the descriptors.\<close>

lemma bdw_reclaim:
  "\<lbrakk>ring_geom r; set xs \<subseteq> {..<bd_num r}; x < bd_num r; j < 4\<rbrakk> \<Longrightarrow>
   bdw r (foldl (\<lambda>m x. reclaim_mem r x m) m xs) x j =
     (if x \<in> set xs \<and> j = 0 then 0
      else if x \<in> set xs \<and> j = 1 then (if x = 63 then 0xC0000000 else 0x80000000) else bdw r m x j)"
proof (induction xs arbitrary: m)
  case (Cons a xs)
  have "reclaim_mem r a m = m(bd_cell (base_bd_addr r) a 0 := 0,
      bd_cell (base_bd_addr r) a 1 := if a = 63 then 0xC0000000 else 0x80000000)"
    by (simp add: reclaim_mem_def bd_at_def bd_cell_def algebra_simps)
  then have "bdw r (reclaim_mem r a m) x j = (if x = a \<and> j = 0 then 0
      else if x = a \<and> j = 1 then (if x = 63 then 0xC0000000 else 0x80000000) else bdw r m x j)"
    using Cons.prems by (auto simp: bdw_upd)
  with Cons show ?case by auto
qed simp

lemma foldl_clear_nth:
  "x < length s \<Longrightarrow> foldl (\<lambda>s x. s[x := 0]) s xs ! x = (if x \<in> set xs then 0 else s ! x)"
  "length (foldl (\<lambda>s x. s[x := 0]) s xs) = length s"
  by (induction xs arbitrary: s) (auto simp: nth_list_update)


section \<open>The transmit invariant\<close>

text \<open>
  Between two calls of the driver: no descriptor is half prepared or half reclaimed, a slot of
  the buffer table is occupied exactly while the hardware owns its descriptor, and the free
  descriptors are marked used and do not end a frame.
\<close>

definition tx_inv :: "FXmacOs \<Rightarrow> bool" where
  "tx_inv os \<longleftrightarrow> (let r = tx_bdring os; q = ring_abs r in
     ring_inv r \<and> base_bd_addr r \<noteq> 0 \<and> bd_num r = 64 \<and> length (tx_pbufs_storage os) = 64
     \<and> preq q = [] \<and> postq q = []
     \<and> (\<forall>x<64. tx_pbufs_storage os ! x \<noteq> 0 \<longleftrightarrow> x \<in> set (hwq q))
     \<and> (\<forall>x\<in>set (freeq q). tx_used r (os_mem os) x \<and> \<not> tx_last r (os_mem os) x))"

lemma tx_invE:
  assumes "tx_inv os"
  obtains p b d where "ring_at (tx_bdring os) p 0 b 0 d" "b + d = 64" "bd_num (tx_bdring os) = 64"
    "length (tx_pbufs_storage os) = 64" "base_bd_addr (tx_bdring os) \<noteq> 0"
    "hwq (ring_abs (tx_bdring os)) = cyc 64 p b" "freeq (ring_abs (tx_bdring os)) = cyc 64 (p + b) d"
proof -
  let ?r = "tx_bdring os"
  obtain p a b c d where at: "ring_at ?r p a b c d"
    using assms by (auto simp: tx_inv_def Let_def ring_inv_iff_ring_at)
  have "a = 0" "c = 0"
    using assms by (auto simp: tx_inv_def Let_def ring_abs_ring_at [OF at] simp flip: length_0_conv)
  with at ring_abs_ring_at [OF at] ring_atD(3) [OF at] assms that show thesis
    by (auto simp: tx_inv_def Let_def)
qed

lemma tx_bits_bdw:
  "tx_used r m x \<longleftrightarrow> bdw r m x 1 AND FXMAC_TXBUF_USED_MASK \<noteq> 0"
  "tx_last r m x \<longleftrightarrow> bdw r m x 1 AND FXMAC_TXBUF_LAST_MASK \<noteq> 0"
  unfolding tx_used_def tx_last_def stat_bdw by (rule refl)+

lemma bdw_same_region: "same_region r r' \<Longrightarrow> bdw r' = bdw r"
  by (simp add: bdw_def fun_eq_iff same_region_def)

lemma set_cyc_less: "0 < n \<Longrightarrow> set (cyc n i k) \<subseteq> {..<n}"
  by (auto simp: cyc_def)

lemma cyc_disjoint:
  assumes "b + d \<le> n"
  shows "set (cyc n p b) \<inter> set (cyc n (p + b) d) = {}"
proof -
  have "distinct (cyc n p b @ cyc n (p + b) d)"
    unfolding cyc_append using assms by (rule distinct_cyc)
  then show ?thesis by simp
qed

text \<open>The effect of a successful \<open>FXmacSgsend\<close> in terms of the queues.\<close>

lemma sgsend_effect:
  assumes inv: "tx_inv os" and qs: "qs \<noteq> []" "length qs \<le> length (freeq (ring_abs (tx_bdring os)))"
    and ptr: "\<forall>q\<in>set qs. pb_ptr q \<noteq> 0"
  defines "r \<equiv> tx_bdring os" and "xs \<equiv> take (length qs) (freeq (ring_abs (tx_bdring os)))"
  obtains os' v where "FXmacSgsend env os qs = Some (FT_SUCCESS, os')" "tx_inv os'"
    "hwq (ring_abs (tx_bdring os')) = hwq (ring_abs r) @ xs"
    "freeq (ring_abs (tx_bdring os')) = drop (length qs) (freeq (ring_abs r))"
    "\<forall>j<length qs. tx_pbufs_storage os' ! (xs ! j) = pb_ptr (qs ! j)"
    "\<forall>j<length qs. bdw r (os_mem os') (xs ! j) 1 = sent_stat os (qs ! j) (j = length qs - 1) (bdw r (os_mem os) (xs ! j) 1)
      \<and> bdw r (os_mem os') (xs ! j) 0 = LOWER_32_BITS (pb_payload (qs ! j))
      \<and> bdw r (os_mem os') (xs ! j) 2 = UPPER_32_BITS (pb_payload (qs ! j))"
    "os_log os' = RegWrite (base_address os + FXMAC_NWCTRL_OFFSET) v #
       RegRead (base_address os + FXMAC_NWCTRL_OFFSET) # rev (map (\<lambda>q. PbufRef (pb_ptr q)) qs) @ os_log os"
proof -
  let ?k = "length qs"
  from tx_invE [OF inv] obtain p b d where
    at: "ring_at r p 0 b 0 d" and bd: "b + d = 64" and num: "bd_num r = 64" "length (tx_pbufs_storage os) = 64"
    and base: "base_bd_addr r \<noteq> 0" and hw: "hwq (ring_abs r) = cyc 64 p b" and fr: "freeq (ring_abs r) = cyc 64 (p + b) d"
    by (auto simp: r_def)
  have kd: "?k \<le> d" using qs(2) fr by (simp add: r_def)
  then have xs: "xs = cyc 64 (p + b) ?k" by (simp add: xs_def r_def [symmetric] fr take_cyc)
  have g: "ring_geom r" by (rule ring_atD(1) [OF at])
  have sub: "set xs \<subseteq> set (freeq (ring_abs r))" by (simp add: xs_def r_def set_take_subset)
  have disj: "set (hwq (ring_abs r)) \<inter> set (freeq (ring_abs r)) = {}"
    using cyc_disjoint [of b d 64 p] bd by (simp add: hw fr)
  have lt: "set (freeq (ring_abs r)) \<subseteq> {..<64}" "distinct xs"
    using set_cyc_less [of 64 "p + b" d] distinct_cyc [of ?k 64 "p + b"] kd bd by (simp_all add: fr xs)
  have slots: "\<forall>x<64. tx_pbufs_storage os ! x \<noteq> 0 \<longleftrightarrow> x \<in> set (hwq (ring_abs r))"
    and marks: "\<forall>x\<in>set (freeq (ring_abs r)). tx_used r (os_mem os) x \<and> \<not> tx_last r (os_mem os) x"
    using inv by (auto simp: tx_inv_def Let_def r_def)
  have free: "\<forall>x\<in>set (cyc (bd_num r) (p + 0 + b) ?k). tx_pbufs_storage os ! x = 0"
    using slots sub disj lt(1) by (auto simp: num xs [symmetric])
  from sgsend_ring_at [OF at [unfolded r_def] _ qs(1) kd free [unfolded r_def], of env, folded r_def] num
  obtain os' v where
    res: "FXmacSgsend env os qs = Some (FT_SUCCESS, os')" and sr: "same_region r (tx_bdring os')"
    and at': "ring_at (tx_bdring os') p 0 (b + ?k) 0 (d - ?k)"
    and st: "tx_pbufs_storage os' = foldl (\<lambda>s (x, q). s[x := pb_ptr q]) (tx_pbufs_storage os) (zip xs qs)"
    and lg: "os_log os' = RegWrite (base_address os + FXMAC_NWCTRL_OFFSET) v #
       RegRead (base_address os + FXMAC_NWCTRL_OFFSET) # rev (map (\<lambda>q. PbufRef (pb_ptr q)) qs) @ os_log os"
    and mem: "os_mem os' = sgsend_mem os r xs qs (os_mem os)"
    by (auto simp: xs num)
  note s = same_regionD [OF sr] and ra = ring_abs_ring_at [OF at']
  have hw': "hwq (ring_abs (tx_bdring os')) = hwq (ring_abs r) @ xs"
    using cyc_append [of 64 p b ?k] by (simp add: ra s(1) num hw xs)
  have fr': "freeq (ring_abs (tx_bdring os')) = drop ?k (freeq (ring_abs r))"
    by (simp add: ra s(1) num fr drop_cyc add.assoc)
  have len: "length xs = ?k" by (simp add: xs)
  note words = bdw_sgsend_mem [where os = os and m = "os_mem os", OF g lt(2) _ len qs(1), folded mem]
  have subn: "set xs \<subseteq> {..<bd_num r}" using sub lt(1) num by auto
  note upd = foldl_update_nth [where f = pb_ptr and s = "tx_pbufs_storage os" and xs = xs and ys = qs, folded st]
  have at_j: "\<forall>j<?k. tx_pbufs_storage os' ! (xs ! j) = pb_ptr (qs ! j)"
    using upd(1) len lt(2) subn num by simp
  have slots': "tx_pbufs_storage os' ! x \<noteq> 0 \<longleftrightarrow> x \<in> set (hwq (ring_abs (tx_bdring os')))" if "x < 64" for x
  proof (cases "x \<in> set xs")
    case True
    then obtain j where "j < ?k" "x = xs ! j" using len by (auto simp: in_set_conv_nth)
    then show ?thesis using at_j ptr True by (simp add: hw')
  next
    case False
    then show ?thesis using upd(2) slots that by (simp add: hw')
  qed
  have marks': "tx_used r (os_mem os') x \<and> \<not> tx_last r (os_mem os') x"
    if "x \<in> set (freeq (ring_abs (tx_bdring os')))" for x
  proof -
    have "set xs \<inter> set (drop ?k (freeq (ring_abs r))) = {}"
      using cyc_disjoint [of ?k "d - ?k" 64 "p + b"] kd bd by (simp add: fr drop_cyc xs)
    with that have x: "x \<notin> set xs" "x \<in> set (freeq (ring_abs r))" using fr' by (auto dest: in_set_dropD)
    then have "bdw r (os_mem os') x 1 = bdw r (os_mem os) x 1"
      using words(2) [OF subn] lt(1) num by auto
    with marks x(2) show ?thesis by (simp add: tx_bits_bdw)
  qed
  have "tx_inv os'"
    using slots' marks' at' ring_atD(8) [OF at'] s num upd(3) base sr bdw_same_region [OF sr]
    by (auto simp: tx_inv_def Let_def tx_bits_bdw ra same_region_def)
  then show thesis
    using res hw' fr' at_j lg words(1) [OF subn] by (intro that) auto
qed

text \<open>
  The state of the hardware group the hardware can leave behind: whole frames that are finished,
  followed by whole frames still in flight.
\<close>

definition tx_progress :: "FXmacOs \<Rightarrow> nat list \<Rightarrow> nat list \<Rightarrow> bool" where
  "tx_progress os D F \<longleftrightarrow> (let r = tx_bdring os; m = os_mem os in
     hwq (ring_abs r) = D @ F
     \<and> (\<forall>x\<in>set D. tx_used r m x) \<and> (D = [] \<or> tx_last r m (last D))
     \<and> (\<forall>x\<in>set F. \<not> tx_used r m x) \<and> (F = [] \<or> tx_last r m (last F)))"

lemma reclaim_effect:
  assumes inv: "tx_inv os" and prog: "tx_progress os D F"
    and room: "length F \<le> length (freeq (ring_abs (tx_bdring os)))"
  defines "r \<equiv> tx_bdring os"
  obtains os' where "FXmacProcessSentBds os FXMAC_TX_PBUFS_LENGTH = Some os'" "tx_inv os'"
    "hwq (ring_abs (tx_bdring os')) = F"
    "freeq (ring_abs (tx_bdring os')) = freeq (ring_abs r) @ D"
    "os_log os' = rev (map (\<lambda>x. PbufFree (tx_pbufs_storage os ! x)) D) @ os_log os"
    "\<forall>x<64. x \<notin> set D \<longrightarrow> tx_pbufs_storage os' ! x = tx_pbufs_storage os ! x"
proof -
  let ?D = "length D" and ?F = "length F"
  from tx_invE [OF inv] obtain p b d where
    at: "ring_at r p 0 b 0 d" and bd: "b + d = 64" and num: "bd_num r = 64" "length (tx_pbufs_storage os) = 64"
    and base: "base_bd_addr r \<noteq> 0" and hw: "hwq (ring_abs r) = cyc 64 p b" and fr: "freeq (ring_abs r) = cyc 64 (p + b) d"
    by (auto simp: r_def)
  have hwDF: "cyc 64 p b = D @ F" using prog hw by (simp add: tx_progress_def Let_def r_def)
  then have b: "?D + ?F = b" by (metis length_append length_cyc)
  then have D: "D = cyc 64 p ?D" and F: "F = cyc 64 (p + ?D) ?F"
    using hwDF cyc_append [of 64 p ?D ?F] by (simp_all add: append_eq_append_conv)
  have slots: "\<forall>x<64. tx_pbufs_storage os ! x \<noteq> 0 \<longleftrightarrow> x \<in> set (hwq (ring_abs r))"
    and marks: "\<forall>x\<in>set (freeq (ring_abs r)). tx_used r (os_mem os) x \<and> \<not> tx_last r (os_mem os) x"
    using inv by (auto simp: tx_inv_def Let_def r_def)
  have g: "ring_geom r" and p: "p < 64" using ring_atD(1,2) [OF at] num by auto
  have scan: "FXmacBdRingFromHwTx r (os_mem os) FXMAC_TX_PBUFS_LENGTH = Some (fromhw_take r (of_nat ?D))"
    by (rule tx_scan_in_flight [OF at base, where F = ?F])
      (use prog D F b bd room marks in
        \<open>auto simp: num const_defs tx_progress_def Let_def r_def [symmetric] fr simp flip: length_0_conv\<close>)
  have uD: "unat (of_nat ?D :: u32) = ?D" using b bd by (intro unat_of_nat_32) simp
  have uDb: "unat (of_nat ?D :: u32) \<le> b" and bF: "b - ?D = ?F" using uD b by simp_all
  from fromhw_take_ring_at [OF at uDb] obtain r1 where
    r0: "fromhw_take r (of_nat ?D) = (of_nat ?D, r1, if (of_nat ?D :: u32) = 0 then 0 else bd_at r ((p + 0) mod bd_num r))"
      "same_region r r1" "ring_at r1 p (0 + unat (of_nat ?D :: u32)) (b - unat (of_nat ?D :: u32)) 0 d" by blast
  have r1: "fromhw_take r (of_nat ?D) = (of_nat ?D, r1, if (of_nat ?D :: u32) = 0 then 0 else bd_at r p)"
      "same_region r r1" "ring_at r1 p ?D ?F 0 d"
    using r0 p num unfolding uD bF by simp_all
  note s1 = same_regionD [OF r1(2)]
  let ?os1 = "os\<lparr>tx_bdring := r1\<rparr>"
  define os2 where "os2 = ?os1\<lparr>os_mem := foldl (\<lambda>m x. reclaim_mem r1 x m) (os_mem os) D,
     os_log := rev (map (\<lambda>x. PbufFree (tx_pbufs_storage os ! x)) D) @ os_log os,
     tx_pbufs_storage := foldl (\<lambda>s x. s[x := 0]) (tx_pbufs_storage os) D\<rparr>"
  have sub: "set D \<subseteq> {..<64}" using set_cyc_less [of 64 p ?D] D by simp
  have nz: "\<forall>x\<in>set D. tx_pbufs_storage os ! x \<noteq> 0" using slots sub hwDF hw by auto
  have loop: "sent_loop ?D ?os1 (bd_at r p) = os2"
    using sent_loop_eq [of r1 ?os1 p ?D] g p num b bd nz
    unfolding s1 num(1) D [symmetric] by (simp add: os2_def)
  from free_ring_at [OF r1(3), of "of_nat ?D" "bd_at r p"] uD obtain r2 where
    r2: "FXmacBdRingFree r1 (of_nat ?D) (bd_at r p) = (FT_SUCCESS, r2)" "same_region r1 r2"
      "ring_at r2 ((p + ?D) mod 64) 0 ?F 0 (d + ?D)" unfolding s1 num by auto
  define os' where "os' = os2\<lparr>tx_bdring := r2\<rparr>"
  have D0: "(of_nat ?D :: u32) = 0 \<longleftrightarrow> ?D = 0" using uD by (cases "?D = 0") auto
  have res: "FXmacProcessSentBds os FXMAC_TX_PBUFS_LENGTH = Some os'"
  proof (cases "?D = 0")
    case True
    then have "r2 = r1" using r2(1) D0 by (simp add: FXmacBdRingFree_def)
    with True show ?thesis
      using scan r1(1) D0 by (simp add: FXmacProcessSentBds_def r_def [symmetric] os'_def os2_def Let_def)
  next
    case False
    then show ?thesis
      using scan r1(1) D0 loop r2(1) uD
      by (simp add: FXmacProcessSentBds_def r_def [symmetric] os'_def os2_def Let_def)
  qed
  have sr: "same_region r r2" using r1(2) r2(2) by (auto simp: same_region_def)
  note s = same_regionD [OF sr] and ra = ring_abs_ring_at [OF r2(3)]
  have hw': "hwq (ring_abs r2) = F"
    using F cyc_cong [of "(p + ?D) mod 64" 64 "p + ?D"] by (simp add: ra s(1) num)
  have fr': "freeq (ring_abs r2) = freeq (ring_abs r) @ D"
  proof -
    have "((p + ?D) mod 64 + ?F) mod 64 = (p + b) mod 64" using b by (simp add: mod_simps add.assoc)
    then have "cyc 64 ((p + ?D) mod 64 + ?F) (d + ?D) = cyc 64 (p + b) (d + ?D)"
      by (rule cyc_cong)
    then have "freeq (ring_abs r2) = cyc 64 (p + b) (d + ?D)"
      by (simp add: ra s(1) num)
    also have "\<dots> = cyc 64 (p + b) d @ cyc 64 (p + b + d) ?D" by (rule cyc_append [symmetric])
    also have "cyc 64 (p + b + d) ?D = cyc 64 p ?D" using bd by (intro cyc_cong) (simp add: add.assoc)
    finally show ?thesis using D by (simp add: fr)
  qed
  have st: "tx_pbufs_storage os' ! x = (if x \<in> set D then 0 else tx_pbufs_storage os ! x)" if "x < 64" for x
    using that num by (simp add: os'_def os2_def foldl_clear_nth)
  have "distinct (D @ F)" using distinct_cyc [of b 64 p] hwDF bd by simp
  then have slots': "tx_pbufs_storage os' ! x \<noteq> 0 \<longleftrightarrow> x \<in> set F" if "x < 64" for x
    using st [OF that] slots that hw hwDF by auto
  have marks': "tx_used r (os_mem os') x \<and> \<not> tx_last r (os_mem os') x" if "x \<in> set (freeq (ring_abs r) @ D)" for x
  proof -
    have bw: "bdw r (os_mem os') x 1 = (if x \<in> set D then (if x = 63 then 0xC0000000 else 0x80000000)
        else bdw r (os_mem os) x 1)"
      using bdw_reclaim [of r1 D x 1 "os_mem os"] g sub num that set_cyc_less [of 64 "p + b" d]
      unfolding s1 bdw_same_region [OF r1(2)] by (auto simp: os'_def os2_def fr)
    show ?thesis
      using bw that marks
      by (auto simp: tx_bits_bdw FXMAC_TXBUF_USED_MASK_def FXMAC_TXBUF_LAST_MASK_def BIT_def)
  qed
  have "tx_inv os'"
    using slots' marks' ring_atD(8) [OF r2(3)] s num base sr bdw_same_region [OF sr] hw' fr'
    by (simp add: tx_inv_def Let_def tx_bits_bdw os'_def os2_def foldl_clear_nth)
      (simp add: ra same_region_def)
  then show thesis
    by (rule that [OF res]) (use hw' fr' st in \<open>auto simp: os'_def os2_def\<close>)
qed


section \<open>Properties\<close>

text \<open>A transmit ring of 64 descriptors at \<open>0x10000\<close> whose first \<open>b\<close> descriptors are in flight.\<close>

definition ring64 :: "u32 \<Rightarrow> FXmacBdRing" where
  "ring64 b = \<lparr>phys_base_addr = 0x10000, base_bd_addr = 0x10000, high_bd_addr = 0x103F0,
     ring_length = 1024, run_state = FXMAC_DMA_SG_IS_STOPED, separation = 16,
     free_head = 0x10000 + 16 * ucast b, pre_head = 0x10000 + 16 * ucast b, hw_head = 0x10000,
     hw_tail = 0x10000 + 16 * ucast b, post_head = 0x10000, bda_restart = 0x10000,
     hw_cnt = b, pre_cnt = 0, free_cnt = 64 - b, post_cnt = 0, all_cnt = 64\<rparr>"

definition pq_empty :: PqQueue where
  "pq_empty = \<lparr>pq_data = replicate 4096 0, pq_head = 0, pq_tail = 0, pq_len = 0\<rparr>"

definition os64 :: "u32 \<Rightarrow> uintptr list \<Rightarrow> mem32 \<Rightarrow> FXmacOs" where
  "os64 b st m = \<lparr>tx_bdring = ring64 b, rx_bdring = ring64 0, is_ready = FT_COMPONENT_IS_READY,
     is_started = 0, base_address = 0x3200c000, tx_bdspace = 0x10000, rx_bdspace = 0x40000,
     tx_pbufs_storage = st, rx_pbufs_storage = replicate 64 0, recv_q = pq_empty, send_q = pq_empty,
     feature = 0, os_mem = m, os_log = []\<rparr>"

definition env0 :: lwip_env where
  "env0 = \<lparr>pbuf_alloc = (\<lambda>lg _. of_nat (length lg) + 1), pbuf_payload = (\<lambda>p. p * 0x1000),
     eth_type = (\<lambda>_. 0x800), eth_types = [0x800, 0x806], netif_input = (\<lambda>_ _. True), mac_reg = (\<lambda>_ _. 0)\<rparr>"

lemma ring64_at: "b = 0 \<or> b = 2 \<Longrightarrow> ring_at (ring64 b) 0 0 (unat b) 0 (64 - unat b)"
  by (auto simp: ring_at_def ring_geom_def ring64_def bd_num_def bd_at_def)

lemma ring64_simps [simp]: "bd_num (ring64 b) = 64" "base_bd_addr (ring64 b) = 0x10000"
  by (simp_all add: ring64_def bd_num_def)

text \<open>The idle state and a state with one frame sent and one in flight satisfy the invariant.\<close>

definition mem_sent1 :: mem32 where
  "mem_sent1 = (\<lambda>_. 0x80000000)(0x10004 := 0x80008000, 0x10014 := 0x8000)"

lemma tx_inv_idle: "tx_inv (os64 0 (replicate 64 0) (\<lambda>_. 0x80000000))"
  using ring64_at [of 0] ring_atD(8) [OF ring64_at [of 0]] ring_abs_ring_at [OF ring64_at [of 0]]
  by (simp add: tx_inv_def Let_def os64_def tx_bits_bdw bdw_def FXMAC_TXBUF_USED_MASK_def
      FXMAC_TXBUF_LAST_MASK_def BIT_def)

lemma abs_sent1:
  "ring_abs (ring64 2) = \<lparr>freeq = cyc 64 2 62, preq = [], hwq = [0, 1], postq = []\<rparr>"
  using ring_abs_ring_at [OF ring64_at [of 2]] by (simp add: cyc_def upt_rec)

lemma tx_inv_sent1: "tx_inv (os64 2 ([5, 6] @ replicate 62 0) mem_sent1)"
proof -
  have free: "mem_sent1 (bd_cell 0x10000 x 1) = 0x80000000" if "x \<in> set (cyc 64 2 62)" for x
  proof -
    from that obtain j where "j < 62" "x = 2 + j" by (auto simp: cyc_def)
    then have "2 \<le> x" "x < 64" by auto
    then have "bd_cell 0x10000 x 1 \<noteq> bd_cell 0x10000 0 1" "bd_cell 0x10000 x 1 \<noteq> bd_cell 0x10000 1 1"
      using bd_cell_inj [of "0x10000" x 1 0 1] bd_cell_inj [of "0x10000" x 1 1 1] by auto
    then show ?thesis by (simp add: mem_sent1_def bd_cell_def)
  qed
  have slot: "([5, 6] @ replicate 62 (0::uintptr)) ! x \<noteq> 0 \<longleftrightarrow> x = 0 \<or> x = 1" if "x < 64" for x
    using that by (auto simp: nth_append nth_Cons split: nat.splits)
  show ?thesis
    using ring_atD(8) [OF ring64_at [of 2]] free slot
    by (auto simp: tx_inv_def Let_def os64_def abs_sent1 tx_bits_bdw bdw_def FXMAC_TXBUF_USED_MASK_def
        FXMAC_TXBUF_LAST_MASK_def BIT_def)
qed

text \<open>
  C20: Sending. From the transmit invariant, a chain of buffers that fits into the free
  descriptors is submitted as one frame: the first free descriptors in ring order get the payload
  addresses of the buffers in chain order, none of them is marked used, exactly the last one ends
  the frame, every buffer is referenced once and stored in its slot, the transmitter is kicked
  after that, and the invariant holds again.
\<close>

theorem sgsend_submits:
  assumes "tx_inv os" "qs \<noteq> []" "length qs \<le> length (freeq (ring_abs (tx_bdring os)))"
    and "\<forall>q\<in>set qs. pb_ptr q \<noteq> 0"
  shows "\<exists>os' v. FXmacSgsend env os qs = Some (FT_SUCCESS, os') \<and> tx_inv os' \<and>
    (let r = tx_bdring os; xs = take (length qs) (freeq (ring_abs r)); m' = os_mem os' in
       hwq (ring_abs (tx_bdring os')) = hwq (ring_abs r) @ xs
       \<and> (\<forall>j<length qs. tx_pbufs_storage os' ! (xs ! j) = pb_ptr (qs ! j)
            \<and> \<not> tx_used r m' (xs ! j) \<and> (tx_last r m' (xs ! j) \<longleftrightarrow> j = length qs - 1)
            \<and> bdw r m' (xs ! j) 0 = LOWER_32_BITS (pb_payload (qs ! j))
            \<and> bdw r m' (xs ! j) 2 = UPPER_32_BITS (pb_payload (qs ! j)))
       \<and> os_log os' = RegWrite (base_address os + FXMAC_NWCTRL_OFFSET) v #
            RegRead (base_address os + FXMAC_NWCTRL_OFFSET) # rev (map (\<lambda>q. PbufRef (pb_ptr q)) qs) @ os_log os)"
proof (rule sgsend_effect [OF assms, of env])
  fix os' v
  let ?r = "tx_bdring os" and ?xs = "take (length qs) (freeq (ring_abs (tx_bdring os)))"
  assume os': "FXmacSgsend env os qs = Some (FT_SUCCESS, os')" "tx_inv os'"
    "hwq (ring_abs (tx_bdring os')) = hwq (ring_abs ?r) @ ?xs"
    "\<forall>j<length qs. tx_pbufs_storage os' ! (?xs ! j) = pb_ptr (qs ! j)"
    "\<forall>j<length qs. bdw ?r (os_mem os') (?xs ! j) 1 = sent_stat os (qs ! j) (j = length qs - 1) (bdw ?r (os_mem os) (?xs ! j) 1)
      \<and> bdw ?r (os_mem os') (?xs ! j) 0 = LOWER_32_BITS (pb_payload (qs ! j))
      \<and> bdw ?r (os_mem os') (?xs ! j) 2 = UPPER_32_BITS (pb_payload (qs ! j))"
    "os_log os' = RegWrite (base_address os + FXMAC_NWCTRL_OFFSET) v #
       RegRead (base_address os + FXMAC_NWCTRL_OFFSET) # rev (map (\<lambda>q. PbufRef (pb_ptr q)) qs) @ os_log os"
  show ?thesis
    using os' by (intro exI [of _ os'] exI [of _ v]) (simp add: Let_def tx_bits_bdw sent_stat_bits)
qed

theorem sgsend_submits_witness:
  "\<exists>os'. FXmacSgsend env0 (os64 0 (replicate 64 0) (\<lambda>_. 0x80000000)) [\<lparr>pb_ptr = 9, pb_payload = 0x9000, pb_len = 60\<rparr>]
      = Some (FT_SUCCESS, os') \<and> tx_inv os' \<and> hwq (ring_abs (tx_bdring os')) = [0]"
proof -
  let ?os = "os64 0 (replicate 64 0) (\<lambda>_. 0x80000000)" and ?q = "\<lparr>pb_ptr = 9, pb_payload = 0x9000, pb_len = 60\<rparr>"
  have abs: "ring_abs (tx_bdring ?os) = \<lparr>freeq = cyc 64 0 64, preq = [], hwq = [], postq = []\<rparr>"
    using ring_abs_ring_at [OF ring64_at [of 0]] by (simp add: os64_def)
  have "take 1 (cyc 64 0 64) = [0]" by (simp add: take_cyc) (simp add: cyc_def)
  with sgsend_submits [OF tx_inv_idle, of "[?q]" env0] show ?thesis
    by (auto simp: abs Let_def)
qed



text \<open>
  No space. A chain longer than the number of free descriptors is refused and leaves the
  driver exactly as it was.
\<close>

theorem sgsend_no_space:
  assumes "ring_inv (tx_bdring os)" "length (freeq (ring_abs (tx_bdring os))) < length qs" "length qs < 2 ^ 32"
  shows "FXmacSgsend env os qs = Some (ERR_GENERAL, os)"
proof -
  have "free_cnt (tx_bdring os) < of_nat (length qs)"
    using assms(2) unat_of_nat_32 [OF assms(3)] by (simp add: ring_abs_def word_less_nat_alt)
  moreover have "qs \<noteq> []" using assms(2) by auto
  ultimately show ?thesis
    by (simp add: FXmacSgsend_def FXmacBdRingAlloc_def Let_def)
qed

theorem sgsend_no_space_witness:
  "FXmacSgsend env0 (os64 0 (replicate 64 0) (\<lambda>_. 0x80000000)) (replicate 65 \<lparr>pb_ptr = 9, pb_payload = 0x9000, pb_len = 60\<rparr>)
   = Some (ERR_GENERAL, os64 0 (replicate 64 0) (\<lambda>_. 0x80000000))"
proof -
  let ?os = "os64 0 (replicate 64 0) (\<lambda>_. 0x80000000)" and ?q = "\<lparr>pb_ptr = 9, pb_payload = 0x9000, pb_len = 60\<rparr>"
  have "ring_inv (tx_bdring ?os)" "length (freeq (ring_abs (tx_bdring ?os))) = 64"
    using ring_atD(8) [OF ring64_at [of 0]] ring_abs_ring_at [OF ring64_at [of 0]] by (simp_all add: os64_def)
  then show ?thesis by (intro sgsend_no_space) simp_all
qed



text \<open>
  Error recovery writes outside its buffer. \<open>CleanDmaTxdescs\<close> passes the size of the descriptor
  area in bytes (128 KiB) where \<open>FXmacBdRingCreate\<close> expects the number of descriptors: it builds a
  ring of 131072 descriptors (2 MiB) and overwrites the memory behind the area, and the ring no
  longer fits the 64 slots of the buffer table.
\<close>

theorem clean_dma_overruns:
  assumes al: "tx_bdspace os mod 128 = 0" "tx_bdspace os \<noteq> 0" "unat (tx_bdspace os) + 0x200000 \<le> 2 ^ 64"
    and tmpl: "\<forall>i<0x20000. \<forall>j<4. \<forall>j'<4. bdtemplate + of_nat (4 * j) \<noteq> bd_cell (tx_bdspace os) i j'"
  shows "bd_num (tx_bdring (CleanDmaTxdescs os bdtemplate)) = 0x20000
    \<and> (\<forall>i. 8192 \<le> i \<and> i < 0x1FFFF \<longrightarrow>
         os_mem (CleanDmaTxdescs os bdtemplate) (bd_cell (tx_bdspace os) i 1) = FXMAC_TXBUF_USED_MASK)"
proof -
  let ?b = "tx_bdspace os" and ?n = "0x20000 :: u32"
  define m0 where "m0 = template_mem (os_mem os) bdtemplate FXMAC_TXBUF_USED_MASK"
  have "create_args_ok ?b ?b BD_ALIGNMENT ?n"
    using al by (simp add: create_args_ok_def BD_ALIGNMENT_def const_defs)
  from create_ring_at [OF this, of "tx_bdring os" m0] obtain r where
    r: "FXmacBdRingCreate (tx_bdring os) m0 ?b ?b BD_ALIGNMENT ?n = (FT_SUCCESS, r, memset32 m0 ?b 0 (4 * unat ?n))"
      "ring_at r 0 0 0 0 (unat ?n)" "base_bd_addr r = ?b" "bd_num r = unat ?n" "run_state r = FXMAC_DMA_SG_IS_STOPED"
    by blast
  let ?m1 = "memset32 m0 ?b 0 (4 * unat ?n)"
  have at: "ring_at r 0 0 0 0 (bd_num r)" using r(2,4) by simp
  from clone_effect [OF at r(5), of bdtemplate FXMAC_SEND ?m1] tmpl al(2) r(3,4) obtain m2 where
    m2: "FXmacBdRingClone r ?m1 bdtemplate FXMAC_SEND = (FT_SUCCESS, m2)"
      "\<forall>i<0x1FFFF. m2 (bd_cell ?b i 1) = ?m1 (bdtemplate + 4)"
    by (auto simp: const_defs)
  have "?m1 (bdtemplate + 4) = m0 (bdtemplate + 4)"
  proof -
    have "bdtemplate + 4 \<noteq> ?b + of_nat (4 * k)" if "k < 4 * unat ?n" for k
    proof -
      have "k div 4 < 0x20000" "k mod 4 < 4" using that by auto
      then show ?thesis
        using tmpl [rule_format, of "k div 4" 1 "k mod 4"] by (simp add: bd_cell_word del: of_nat_mult)
    qed
    then show ?thesis unfolding memset32_apply by auto
  qed
  also have "\<dots> = FXMAC_TXBUF_USED_MASK"
  proof -
    have "\<exists>j<4. bdtemplate + 4 = bdtemplate + of_nat (4 * j)" by (intro exI [of _ 1]) simp
    then have "memset32 (os_mem os) bdtemplate 0 4 (bdtemplate + 4) = 0"
      by (simp only: memset32_apply if_True)
    then show ?thesis
      by (simp add: m0_def template_mem_def FXMAC_BD_SET_STATUS_def FXMAC_BD_WRITE_def FXMAC_BD_READ_def const_defs)
  qed
  finally have "?m1 (bdtemplate + 4) = FXMAC_TXBUF_USED_MASK" .
  moreover have "CleanDmaTxdescs os bdtemplate = os\<lparr>tx_bdring := r, os_mem := m2\<rparr>"
    using r(1) m2(1) by (simp add: CleanDmaTxdescs_def FXMAC_TX_BDSPACE_LENGTH_def m0_def Let_def)
  ultimately show ?thesis using m2(2) r(4) by simp
qed

theorem clean_dma_overruns_witness:
  "os_mem (CleanDmaTxdescs (os64 0 (replicate 64 0) (\<lambda>_. 7)) 0x900000) (bd_cell 0x10000 8192 1) = FXMAC_TXBUF_USED_MASK"
proof -
  have "0x900000 + of_nat (4 * j) \<noteq> bd_cell 0x10000 i j'" if "i < 0x20000" "j < 4" "j' < 4" for i j j'
    using bd_cell_inj [of "0x10000" 585728 j i j'] that by (auto simp: bd_cell_def)
  then show ?thesis
    using clean_dma_overruns [of "os64 0 (replicate 64 0) (\<lambda>_. 7)" "0x900000"] by (simp add: os64_def)
qed

lemma free_slots_eq:
  "free_slots xs lg = (replicate (length xs) 0, rev (map PbufFree (filter (\<lambda>x. x \<noteq> 0) xs)) @ lg)"
  by (induction xs arbitrary: lg) auto

text \<open>
  Release. \<open>FreeTxRxPbufs\<close> frees every queued packet in order, then every buffer of the
  transmit table, then every buffer of the receive table, each exactly once and no others, and
  leaves the queue and both tables empty.
\<close>

theorem release_all:
  assumes "pq_inv (recv_q os)"
  shows "pq_abs (recv_q (FreeTxRxPbufs os)) = []
    \<and> set (tx_pbufs_storage (FreeTxRxPbufs os)) \<subseteq> {0} \<and> set (rx_pbufs_storage (FreeTxRxPbufs os)) \<subseteq> {0}
    \<and> rev (os_log (FreeTxRxPbufs os)) = rev (os_log os) @ map PbufFree
        (pq_abs (recv_q os) @ filter (\<lambda>x. x \<noteq> 0) (tx_pbufs_storage os) @ filter (\<lambda>x. x \<noteq> 0) (rx_pbufs_storage os))"
proof -
  from pq.drain_all [OF assms] obtain q where
    "drain FXmacPqDequeue (FXmacPqQlength (recv_q os)) (recv_q os) = (pq_abs (recv_q os), q)" "pq_abs q = []"
    by blast
  then show ?thesis
    by (auto simp: FreeTxRxPbufs_def FreeOnlyTxPbufs_def FreeOnlyRxPbufs_def free_slots_eq Let_def)
qed

theorem release_all_witness:
  "pq_inv pq_empty \<and> os_log (FreeTxRxPbufs (os64 2 ([5, 6] @ replicate 62 0) mem_sent1)) = [PbufFree 6, PbufFree 5]"
proof -
  have inv: "pq_inv pq_empty" by (simp add: pq_inv_def pq_empty_def PQ_QUEUE_SIZE_def)
  have abs: "pq_abs pq_empty = []" by (simp add: pq_abs_def pq_empty_def)
  let ?os = "os64 2 ([5, 6] @ replicate 62 0) mem_sent1"
  have "rev (os_log (FreeTxRxPbufs ?os)) = [PbufFree 5, PbufFree 6]"
    using release_all [of ?os] inv abs by (simp add: os64_def)
  then have "os_log (FreeTxRxPbufs ?os) = rev [PbufFree 5, PbufFree 6]" by (metis rev_rev_ident)
  with inv show ?thesis by simp
qed


section \<open>Refilling the receive ring\<close>

definition rx_inv :: "FXmacOs \<Rightarrow> bool" where
  "rx_inv os \<longleftrightarrow> (let r = rx_bdring os; q = ring_abs r in
     ring_inv r \<and> bd_num r = 64 \<and> length (rx_pbufs_storage os) = 64
     \<and> preq q = [] \<and> postq q = []
     \<and> (\<forall>x<64. rx_pbufs_storage os ! x \<noteq> 0 \<longleftrightarrow> x \<in> set (hwq q)))"

lemma rx_refill_one_ok:
  assumes inv: "rx_inv os" and x: "freeq (ring_abs (rx_bdring os)) = x # xs"
    and p: "pbuf_alloc env (os_log os) (max_frame_size os) = p" "p \<noteq> 0"
  obtains os' where "rx_refill_one env os = Some (Inr os')" "rx_inv os'"
    "hwq (ring_abs (rx_bdring os')) = hwq (ring_abs (rx_bdring os)) @ [x]"
    "freeq (ring_abs (rx_bdring os')) = xs" "os_log os' = PbufAlloc p # os_log os"
    "rx_pbufs_storage os' = (rx_pbufs_storage os)[x := p]"
proof -
  let ?r = "rx_bdring os"
  obtain pp a b c d where at0: "ring_at ?r pp a b c d"
    using inv by (auto simp: rx_inv_def Let_def ring_inv_iff_ring_at)
  have "a = 0" "c = 0" and num: "bd_num ?r = 64" "length (rx_pbufs_storage os) = 64"
    using inv by (auto simp: rx_inv_def Let_def ring_abs_ring_at [OF at0] simp flip: length_0_conv)
  with at0 have at: "ring_at ?r pp 0 b 0 d" by simp
  note abs = ring_abs_ring_at [OF at]
  have d: "cyc 64 (pp + b) d = x # xs" using x by (simp add: abs num)
  then have d1: "1 \<le> d" by (cases d) auto
  then obtain d' where d': "d = Suc d'" by (cases d) auto
  have xi: "x = (pp + b) mod 64" "xs = cyc 64 (Suc (pp + b)) d'" using d unfolding d' cyc_Suc by auto
  from alloc_ring_at [OF at, of 1 0] d1 obtain r1 where
    r1: "FXmacBdRingAlloc ?r 1 0 = (FT_SUCCESS, r1, bd_at ?r x)" "same_region ?r r1" "ring_at r1 pp 0 b 1 d'"
    by (auto simp: num xi d')
  note s1 = same_regionD [OF r1(2)]
  from tohw_ring_at [OF r1(3), of 1 "bd_at ?r x"] obtain r2 where
    r2: "FXmacBdRingToHw r1 1 (bd_at ?r x) = (FT_SUCCESS, r2)" "same_region r1 r2" "ring_at r2 pp 0 (b + 1) 0 d'"
    by (auto simp: s1 num xi)
  note s2 = same_regionD [OF r2(2)]
  have "ring_geom ?r" "x < 64" using ring_atD(1) [OF at] by (simp_all add: xi)
  then have idx: "FXMAC_BD_TO_INDEX r2 (bd_at ?r x) = x"
    using bd_to_index [of r2 x] by (simp add: s1 s2 num)
  define os' where "os' = os\<lparr>os_log := PbufAlloc p # os_log os, rx_bdring := r2,
     os_mem := rx_bd_setup os (os_mem os) (bd_at ?r x) x (pbuf_payload env p),
     rx_pbufs_storage := (rx_pbufs_storage os)[x := p]\<rparr>"
  have res: "rx_refill_one env os = Some (Inr os')"
    using p r1(1) r2(1) idx by (simp add: rx_refill_one_def Let_def os'_def rx_bd_setup_def)
  note abs2 = ring_abs_ring_at [OF r2(3)]
  have hw: "hwq (ring_abs r2) = hwq (ring_abs ?r) @ [x]"
    using cyc_append [of 64 pp b 1] cyc_Suc [of 64 "pp + b" 0] by (simp add: abs abs2 s1 s2 num xi)
  have "rx_inv os'"
    using inv hw ring_atD(8) [OF r2(3)] p(2) \<open>x < 64\<close>
    by (auto simp: rx_inv_def Let_def os'_def s1 s2 num nth_list_update) (auto simp: abs2)
  then show thesis
    by (rule that [OF res]) (use hw in \<open>simp_all add: os'_def abs2 s1 s2 num xi\<close>)
qed

lemma rx_refill_effect:
  "\<lbrakk>rx_inv os; k = length (freeq (ring_abs (rx_bdring os)))\<rbrakk>
   \<Longrightarrow> \<exists>r os' j. rx_refill env k os = Some r \<and> r \<in> {Inl os', Inr os'} \<and> rx_inv os' \<and> j \<le> k
     \<and> hwq (ring_abs (rx_bdring os')) = hwq (ring_abs (rx_bdring os)) @ take j (freeq (ring_abs (rx_bdring os)))
     \<and> freeq (ring_abs (rx_bdring os')) = drop j (freeq (ring_abs (rx_bdring os)))
     \<and> (j < k \<longrightarrow> r = Inl os' \<and> hd (os_log os') = PbufAlloc 0) \<and> (j = k \<longrightarrow> r = Inr os')"
proof (induction k arbitrary: os)
  case 0
  then show ?case by (intro exI [of _ "Inr os"] exI [of _ os] exI [of _ 0]) simp
next
  case (Suc k)
  then obtain x xs where x: "freeq (ring_abs (rx_bdring os)) = x # xs" and k: "k = length xs"
    by (metis length_Suc_conv)
  show ?case
  proof (cases "pbuf_alloc env (os_log os) (max_frame_size os) = 0")
    case True
    then have "rx_refill_one env os = Some (Inl (os\<lparr>os_log := PbufAlloc 0 # os_log os\<rparr>))"
      by (simp add: rx_refill_one_def Let_def)
    with Suc.prems(1) x k show ?thesis
      by (intro exI [of _ "Inl (os\<lparr>os_log := PbufAlloc 0 # os_log os\<rparr>)"]
          exI [of _ "os\<lparr>os_log := PbufAlloc 0 # os_log os\<rparr>"] exI [of _ 0]) (simp add: rx_inv_def)
  next
    case False
    from rx_refill_one_ok [OF Suc.prems(1) x refl False] obtain os1 where
      os1: "rx_refill_one env os = Some (Inr os1)" "rx_inv os1"
      "hwq (ring_abs (rx_bdring os1)) = hwq (ring_abs (rx_bdring os)) @ [x]"
      "freeq (ring_abs (rx_bdring os1)) = xs" by blast
    from Suc.IH [OF os1(2)] k os1(4) obtain r os' j where
      "rx_refill env k os1 = Some r" "r \<in> {Inl os', Inr os'}" "rx_inv os'" "j \<le> k"
      "hwq (ring_abs (rx_bdring os')) = hwq (ring_abs (rx_bdring os1)) @ take j xs"
      "freeq (ring_abs (rx_bdring os')) = drop j xs"
      "j < k \<longrightarrow> r = Inl os' \<and> hd (os_log os') = PbufAlloc 0" "j = k \<longrightarrow> r = Inr os'" by auto
    with os1 x show ?thesis
      by (intro exI [of _ r] exI [of _ os'] exI [of _ "Suc j"]) auto
  qed
qed

text \<open>
  Refill. \<open>SetupRxBds\<close> returns and hands the free receive descriptors to the hardware in ring
  order, each with a fresh buffer in its slot; it stops early only when a buffer allocation
  fails, and even then the invariant of the receive side holds, with no descriptor half
  prepared.
\<close>

theorem setup_rx_refills:
  assumes "rx_inv os"
  shows "\<exists>os' j. SetupRxBds env os = Some os' \<and> rx_inv os'
     \<and> hwq (ring_abs (rx_bdring os')) = hwq (ring_abs (rx_bdring os)) @ take j (freeq (ring_abs (rx_bdring os)))
     \<and> freeq (ring_abs (rx_bdring os')) = drop j (freeq (ring_abs (rx_bdring os)))
     \<and> (freeq (ring_abs (rx_bdring os')) \<noteq> [] \<longrightarrow> hd (os_log os') = PbufAlloc 0)"
proof -
  have "unat (free_cnt (rx_bdring os)) = length (freeq (ring_abs (rx_bdring os)))"
    by (simp add: ring_abs_def)
  from rx_refill_effect [OF assms this, of env] obtain r os' j where
    r: "rx_refill env (unat (free_cnt (rx_bdring os))) os = Some r" "r \<in> {Inl os', Inr os'}" "rx_inv os'"
      "hwq (ring_abs (rx_bdring os')) = hwq (ring_abs (rx_bdring os)) @ take j (freeq (ring_abs (rx_bdring os)))"
      "freeq (ring_abs (rx_bdring os')) = drop j (freeq (ring_abs (rx_bdring os)))"
      "j < unat (free_cnt (rx_bdring os)) \<longrightarrow> hd (os_log os') = PbufAlloc 0"
    by blast
  have "SetupRxBds env os = Some os'" using r(1,2) by (auto simp: SetupRxBds_def)
  moreover have "freeq (ring_abs (rx_bdring os')) \<noteq> [] \<longrightarrow> hd (os_log os') = PbufAlloc 0"
    using r(5,6) by (auto simp: ring_abs_def)
  ultimately show ?thesis using r(3,4,5) by (intro exI [of _ os'] exI [of _ j]) simp
qed

theorem setup_rx_refills_witness:
  "\<exists>os'. SetupRxBds env0 (os64 0 (replicate 64 0) (\<lambda>_. 0)) = Some os' \<and> rx_inv os'"
proof -
  let ?os = "os64 0 (replicate 64 0) (\<lambda>_. 0)"
  have "rx_inv ?os"
    using ring_atD(8) [OF ring64_at [of 0]] ring_abs_ring_at [OF ring64_at [of 0]]
    by (simp add: rx_inv_def Let_def os64_def)
  from setup_rx_refills [OF this, of env0] show ?thesis by blast
qed

end
