(* ===== verification/Mmu.thy ===== *)
theory Mmu
  imports SdkPrelude
begin

text \<open>
  The AArch64 translation tables, \<^verbatim>\<open>standalone/arch/armv8/aarch64/fmmu.c\<close> with
  \<^verbatim>\<open>fmmu.h\<close>, for the configuration the example projects use: 4 KiB granule, 48-bit virtual
  addresses, four levels, 256 tables.

  The pool of tables is one array of 64-bit entries at the address \<open>xlat_addr\<close>. A pointer into
  it is its index; the address of an entry appears only inside table descriptors. A failed
  assertion gives \<open>None\<close>. The errno values are the negative integers the C code returns.
\<close>

section \<open>Configuration and descriptor fields\<close>

definition CONFIG_MMU_PAGE_SIZE :: u64 where [const_defs]: "CONFIG_MMU_PAGE_SIZE = 0x1000"
definition CONFIG_MAX_XLAT_TABLES :: nat where [const_defs]: "CONFIG_MAX_XLAT_TABLES = 256"
definition FCPU_CONFIG_ARM64_VA_BITS :: nat where [const_defs]: "FCPU_CONFIG_ARM64_VA_BITS = 48"
definition FCPU_CONFIG_ARM64_PA_BITS :: nat where [const_defs]: "FCPU_CONFIG_ARM64_PA_BITS = 44"
definition PAGE_SIZE_SHIFT :: nat where [const_defs]: "PAGE_SIZE_SHIFT = 12"
definition XLAT_LAST_LEVEL :: nat where [const_defs]: "XLAT_LAST_LEVEL = 3"
definition LN_XLAT_VA_SIZE_SHIFT :: nat where
  [const_defs]: "LN_XLAT_VA_SIZE_SHIFT = PAGE_SIZE_SHIFT - 3"
definition LN_XLAT_NUM_ENTRIES :: nat where [const_defs]: "LN_XLAT_NUM_ENTRIES = 512"
definition BASE_XLAT_LEVEL :: nat where [const_defs]: "BASE_XLAT_LEVEL = 0"

definition LEVEL_TO_VA_SIZE_SHIFT :: "nat \<Rightarrow> nat" where
  "LEVEL_TO_VA_SIZE_SHIFT level = PAGE_SIZE_SHIFT + LN_XLAT_VA_SIZE_SHIFT * (XLAT_LAST_LEVEL - level)"

definition XLAT_TABLE_VA_IDX :: "u64 \<Rightarrow> nat \<Rightarrow> nat" where
  "XLAT_TABLE_VA_IDX va_addr level =
     unat (drop_bit (LEVEL_TO_VA_SIZE_SHIFT level) va_addr AND of_nat (LN_XLAT_NUM_ENTRIES - 1))"

definition MT_RW :: u32 where "MT_RW = BIT 3"
definition MT_NS :: u32 where "MT_NS = BIT 4"
definition MT_P_EXECUTE_NEVER :: u32 where "MT_P_EXECUTE_NEVER = BIT 5"
definition MT_U_EXECUTE_NEVER :: u32 where "MT_U_EXECUTE_NEVER = BIT 6"
definition MT_RW_AP_ELX :: u32 where "MT_RW_AP_ELX = BIT 7"
definition MT_NO_OVERWRITE :: u32 where "MT_NO_OVERWRITE = BIT 8"
definition MT_TYPE_MASK :: u32 where [const_defs]: "MT_TYPE_MASK = 7"
definition MT_TYPE :: "u32 \<Rightarrow> u32" where "MT_TYPE attr = attr AND MT_TYPE_MASK"
definition MT_DEVICE_NGNRNE :: u32 where [const_defs]: "MT_DEVICE_NGNRNE = 0"
definition MT_DEVICE_NGNRE :: u32 where [const_defs]: "MT_DEVICE_NGNRE = 1"
definition MT_DEVICE_GRE :: u32 where [const_defs]: "MT_DEVICE_GRE = 2"
definition MT_NORMAL_NC :: u32 where [const_defs]: "MT_NORMAL_NC = 3"
definition MT_NORMAL :: u32 where [const_defs]: "MT_NORMAL = 4"
definition MT_NORMAL_WT :: u32 where [const_defs]: "MT_NORMAL_WT = 5"

definition PTE_DESC_TYPE_MASK :: u64 where [const_defs]: "PTE_DESC_TYPE_MASK = 3"
definition PTE_BLOCK_DESC :: u64 where [const_defs]: "PTE_BLOCK_DESC = 1"
definition PTE_TABLE_DESC :: u64 where [const_defs]: "PTE_TABLE_DESC = 3"
definition PTE_PAGE_DESC :: u64 where [const_defs]: "PTE_PAGE_DESC = 3"
definition PTE_INVALID_DESC :: u64 where [const_defs]: "PTE_INVALID_DESC = 0"
definition PTE_BLOCK_DESC_MEMTYPE :: "u32 \<Rightarrow> u64" where "PTE_BLOCK_DESC_MEMTYPE x = ucast (push_bit 2 x)"
definition PTE_BLOCK_DESC_NS :: u64 where "PTE_BLOCK_DESC_NS = push_bit 5 1"
definition PTE_BLOCK_DESC_AP_ELx :: u64 where "PTE_BLOCK_DESC_AP_ELx = push_bit 6 1"
definition PTE_BLOCK_DESC_AP_EL_HIGHER :: u64 where "PTE_BLOCK_DESC_AP_EL_HIGHER = push_bit 6 0"
definition PTE_BLOCK_DESC_AP_RW :: u64 where "PTE_BLOCK_DESC_AP_RW = push_bit 7 0"
definition PTE_BLOCK_DESC_AP_RO :: u64 where "PTE_BLOCK_DESC_AP_RO = push_bit 7 1"
definition PTE_BLOCK_DESC_OUTER_SHARE :: u64 where "PTE_BLOCK_DESC_OUTER_SHARE = push_bit 8 2"
definition PTE_BLOCK_DESC_INNER_SHARE :: u64 where "PTE_BLOCK_DESC_INNER_SHARE = push_bit 8 3"
definition PTE_BLOCK_DESC_AF :: u64 where "PTE_BLOCK_DESC_AF = push_bit 10 1"
definition PTE_BLOCK_DESC_PXN :: u64 where "PTE_BLOCK_DESC_PXN = push_bit 53 1"
definition PTE_BLOCK_DESC_UXN :: u64 where "PTE_BLOCK_DESC_UXN = push_bit 54 1"
definition DESC_ATTRS_MASK :: u64 where "DESC_ATTRS_MASK = GENMASK_ULL 63 51 OR GENMASK_ULL 11 2"

section \<open>State\<close>

record ArmMmuPtables =
  xlat_addr :: u64
  xlat_tables :: "nat \<Rightarrow> u64"
  xlat_use_count :: "nat \<Rightarrow> u16"
  base_xlat_table :: nat

section \<open>Tables\<close>

text \<open>The search loop of \<open>NewTable\<close>: the first table from \<open>i\<close> with use count zero.\<close>

primrec new_table_search :: "ArmMmuPtables \<Rightarrow> nat \<Rightarrow> nat \<Rightarrow> nat option" where
  "new_table_search pt i 0 = None"
| "new_table_search pt i (Suc k) = (if xlat_use_count pt i = 0 then Some i else new_table_search pt (Suc i) k)"

definition NewTable :: "ArmMmuPtables \<Rightarrow> nat option \<times> ArmMmuPtables" where
  "NewTable pt = (case new_table_search pt 0 CONFIG_MAX_XLAT_TABLES of
     Some i \<Rightarrow> (Some (i * LN_XLAT_NUM_ENTRIES), pt\<lparr>xlat_use_count := (xlat_use_count pt)(i := 1)\<rparr>)
   | None \<Rightarrow> (None, pt))"

definition TableIndex :: "nat \<Rightarrow> nat option" where
  "TableIndex pte = (let i = pte div LN_XLAT_NUM_ENTRIES
     in if i < CONFIG_MAX_XLAT_TABLES then Some i else None)"

definition FreeTable :: "ArmMmuPtables \<Rightarrow> nat \<Rightarrow> ArmMmuPtables option" where
  "FreeTable pt table = do {
     i \<leftarrow> TableIndex table;
     FASSERT (xlat_use_count pt i = 2);
     Some (pt\<lparr>xlat_use_count := (xlat_use_count pt)(i := 0)\<rparr>)
   }"

text \<open>The size parameter is 32 bits wide in the code; the 64-bit block size is truncated.\<close>

definition FMmuBlcokAligned :: "u64 \<Rightarrow> u32 \<Rightarrow> bool" where
  "FMmuBlcokAligned desc level_size \<longleftrightarrow>
     (desc AND GENMASK_ULL 47 PAGE_SIZE_SHIFT) AND ucast (level_size - 1) = 0"

definition TableUsage :: "ArmMmuPtables \<Rightarrow> nat \<Rightarrow> int \<Rightarrow> (nat \<times> ArmMmuPtables) option" where
  "TableUsage pt table adjustment = do {
     i \<leftarrow> TableIndex table;
     let c = xlat_use_count pt i + of_int adjustment;
     let pt = pt\<lparr>xlat_use_count := (xlat_use_count pt)(i := c)\<rparr>;
     FASSERT (c > 0);
     Some (unat c, pt)
   }"

definition IsTableUnused :: "ArmMmuPtables \<Rightarrow> nat \<Rightarrow> bool option" where
  "IsTableUnused pt table = map_option (\<lambda>(c, _). c = 2) (TableUsage pt table 0)"

definition IsFreeDesc :: "u64 \<Rightarrow> bool" where
  "IsFreeDesc desc \<longleftrightarrow> desc AND PTE_DESC_TYPE_MASK = PTE_INVALID_DESC"

definition IsTableDesc :: "u64 \<Rightarrow> nat \<Rightarrow> bool" where
  "IsTableDesc desc level \<longleftrightarrow> level \<noteq> XLAT_LAST_LEVEL \<and> desc AND PTE_DESC_TYPE_MASK = PTE_TABLE_DESC"

definition IsBlockDesc :: "u64 \<Rightarrow> bool" where
  "IsBlockDesc desc \<longleftrightarrow> desc AND PTE_DESC_TYPE_MASK = PTE_BLOCK_DESC"

text \<open>The table a descriptor points to, as an index into the pool.\<close>

definition pool_index :: "ArmMmuPtables \<Rightarrow> u64 \<Rightarrow> nat" where
  "pool_index pt a = unat (a - xlat_addr pt) div 8"

definition PteDescTable :: "ArmMmuPtables \<Rightarrow> u64 \<Rightarrow> nat" where
  "PteDescTable pt desc = pool_index pt (desc AND GENMASK_ULL 47 PAGE_SIZE_SHIFT)"

definition IsDescSuperset :: "u64 \<Rightarrow> u64 \<Rightarrow> nat \<Rightarrow> bool" where
  "IsDescSuperset desc1 desc2 level \<longleftrightarrow>
     (let mask = DESC_ATTRS_MASK OR GENMASK_ULL 47 (LEVEL_TO_VA_SIZE_SHIFT level)
      in desc1 AND mask = desc2 AND mask)"

definition set_pte :: "ArmMmuPtables \<Rightarrow> nat \<Rightarrow> u64 \<Rightarrow> ArmMmuPtables" where
  "set_pte pt pte v = pt\<lparr>xlat_tables := (xlat_tables pt)(pte := v)\<rparr>"

definition SetPteTableDesc :: "ArmMmuPtables \<Rightarrow> nat \<Rightarrow> nat \<Rightarrow> ArmMmuPtables" where
  "SetPteTableDesc pt pte table = set_pte pt pte (PTE_TABLE_DESC OR (xlat_addr pt + of_nat (8 * table)))"

definition SetPteBlockDesc :: "ArmMmuPtables \<Rightarrow> nat \<Rightarrow> u64 \<Rightarrow> nat \<Rightarrow> ArmMmuPtables" where
  "SetPteBlockDesc pt pte desc level =
     (let desc = (if desc \<noteq> 0
                  then desc OR (if level = XLAT_LAST_LEVEL then PTE_PAGE_DESC else PTE_BLOCK_DESC)
                  else desc)
      in set_pte pt pte desc)"

text \<open>
  The fill loop of \<open>ExpandToTable\<close>. The loop counter is 32 bits wide and is shifted at that
  width.
\<close>

primrec expand_fill :: "ArmMmuPtables \<Rightarrow> nat \<Rightarrow> u64 \<Rightarrow> nat \<Rightarrow> nat \<Rightarrow> ArmMmuPtables" where
  "expand_fill pt table desc stride_shift 0 = pt"
| "expand_fill pt table desc stride_shift (Suc i) =
     set_pte (expand_fill pt table desc stride_shift i) (table + i)
       (desc OR ucast (push_bit stride_shift (of_nat i :: u32)))"

definition ExpandToTable :: "ArmMmuPtables \<Rightarrow> nat \<Rightarrow> nat \<Rightarrow> (nat option \<times> ArmMmuPtables) option" where
  "ExpandToTable pt pte level =
    (if \<not> level < XLAT_LAST_LEVEL then None
     else case NewTable pt of
       (None, pt) \<Rightarrow> Some (None, pt)
     | (Some table, pt) \<Rightarrow>
         let d = xlat_tables pt pte in do {
           (_, pt) \<leftarrow> (if \<not> IsFreeDesc d
             then do {
               FASSERT (IsBlockDesc d);
               let desc = (if level + 1 = XLAT_LAST_LEVEL then d OR PTE_PAGE_DESC else d);
               let pt = expand_fill pt table desc (LEVEL_TO_VA_SIZE_SHIFT (level + 1)) LN_XLAT_NUM_ENTRIES;
               TableUsage pt table (int LN_XLAT_NUM_ENTRIES)
             }
             else TableUsage pt pte 1);
           let pt = SetPteTableDesc pt pte table;
           (_, pt) \<leftarrow> TableUsage pt table 1;
           Some (Some table, pt)
         })"

section \<open>Mapping\<close>

text \<open>
  The inner loop of \<open>SetMapping\<close> that frees tables that have become empty, from the table that
  holds \<open>pte\<close> upwards; \<open>ptes l\<close> is the entry visited at level \<open>l\<close>.
\<close>

fun free_unused :: "ArmMmuPtables \<Rightarrow> (nat \<Rightarrow> nat) \<Rightarrow> nat \<Rightarrow> nat \<Rightarrow> ArmMmuPtables option" where
  "free_unused pt ptes pte 0 = Some pt"
| "free_unused pt ptes pte (Suc level) = do {
     unused \<leftarrow> IsTableUnused pt pte;
     if \<not> unused then Some pt
     else do {
       pt \<leftarrow> FreeTable pt pte;
       let pte = ptes level;
       let pt = SetPteBlockDesc pt pte 0 level;
       (_, pt) \<leftarrow> TableUsage pt pte (- 1);
       free_unused pt ptes pte level
     }
   }"

text \<open>Writing (or erasing) one block or page descriptor, with the bookkeeping around it.\<close>

definition write_leaf :: "ArmMmuPtables \<Rightarrow> (nat \<Rightarrow> nat) \<Rightarrow> nat \<Rightarrow> nat \<Rightarrow> u64 \<Rightarrow> ArmMmuPtables option" where
  "write_leaf pt ptes pte level desc = do {
     (_, pt) \<leftarrow> (if IsFreeDesc (xlat_tables pt pte) then TableUsage pt pte 1 else Some (0, pt));
     (_, pt) \<leftarrow> (if desc = 0 then TableUsage pt pte (- 1) else Some (0, pt));
     free_unused (SetPteBlockDesc pt pte desc level) ptes pte level
   }"

definition EBUSY :: int where [const_defs]: "EBUSY = 16"
definition ENOMEM :: int where [const_defs]: "ENOMEM = 12"

text \<open>The part of a block the rest of the range covers: from \<open>virt\<close> to the end of the block.\<close>

definition covered_size :: "u64 \<Rightarrow> u64 \<Rightarrow> u64 \<Rightarrow> u64" where
  "covered_size virt sz level_size =
     (let level_size = level_size - (virt AND (level_size - 1))
      in if level_size > sz then sz else level_size)"

lemma mask_less_pow2:
  assumes "k < 64"
  shows "(v AND (push_bit k 1 - 1)) < push_bit k (1 :: u64)"
proof -
  have m: "push_bit k (1 :: u64) - 1 = mask k" by (simp add: mask_eq_exp_minus_1 push_bit_eq_mult)
  have "unat (v AND mask k) < 2 ^ k"
    unfolding take_bit_eq_mask [symmetric] by (simp add: unsigned_take_bit_eq)
  then show ?thesis
    unfolding m using assms by (simp add: word_less_nat_alt unat_pow2 del: push_bit_of_1)
qed

lemma covered_size_pos:
  assumes "k < 64" "sz \<noteq> 0"
  shows "0 < covered_size virt sz (push_bit k 1)" "covered_size virt sz (push_bit k 1) \<le> sz"
proof -
  have "0 < push_bit k 1 - (virt AND (push_bit k 1 - 1))"
    using mask_less_pow2 [OF assms(1), of virt] by (metis right_minus_eq order_less_irrefl word_gt_0)
  then show "0 < covered_size virt sz (push_bit k 1)" "covered_size virt sz (push_bit k 1) \<le> sz"
    using assms(2) by (auto simp: covered_size_def Let_def word_gt_0)
qed

lemma level_shift_less: "LEVEL_TO_VA_SIZE_SHIFT level < 48"
  by (simp add: LEVEL_TO_VA_SIZE_SHIFT_def const_defs)

text \<open>
  The loop of \<open>SetMapping\<close>: \<open>table\<close> and \<open>level\<close> are the position of the walk, \<open>ptes\<close> the entries
  passed on the way down. Every iteration goes one level down or shortens the range.
\<close>

function set_mapping_loop ::
  "ArmMmuPtables \<Rightarrow> u64 \<Rightarrow> u64 \<Rightarrow> u64 \<Rightarrow> bool \<Rightarrow> nat \<Rightarrow> nat \<Rightarrow> (nat \<Rightarrow> nat) \<Rightarrow> (int \<times> ArmMmuPtables) option"
where
  "set_mapping_loop pt virt sz desc may_overwrite table level ptes =
    (if sz = 0 then Some (0, pt)
     else if \<not> level \<le> XLAT_LAST_LEVEL then None
     else
       let pte = table + XLAT_TABLE_VA_IDX virt level;
           ptes = ptes(level := pte);
           d = xlat_tables pt pte;
           level_size = push_bit (LEVEL_TO_VA_SIZE_SHIFT level) 1
       in
       if IsTableDesc d level
       then set_mapping_loop pt virt sz desc may_overwrite (PteDescTable pt d) (level + 1) ptes
       else if \<not> may_overwrite \<and> \<not> IsFreeDesc d then Some (- EBUSY, pt)
       else if IsDescSuperset d desc level
       then let level_size = covered_size virt sz level_size
            in set_mapping_loop pt (virt + level_size) (sz - level_size)
                 (if desc \<noteq> 0 then desc + level_size else desc) may_overwrite
                 (base_xlat_table pt) BASE_XLAT_LEVEL ptes
       else if sz < level_size \<or> virt AND (level_size - 1) \<noteq> 0 \<or> \<not> FMmuBlcokAligned desc (ucast level_size)
       then (case ExpandToTable pt pte level of
              None \<Rightarrow> None
            | Some (None, pt) \<Rightarrow> Some (- ENOMEM, pt)
            | Some (Some table, pt) \<Rightarrow>
                set_mapping_loop pt virt sz desc may_overwrite table (level + 1) ptes)
       else (case write_leaf pt ptes pte level desc of
              None \<Rightarrow> None
            | Some pt \<Rightarrow>
                set_mapping_loop pt (virt + level_size) (sz - level_size)
                  (if desc \<noteq> 0 then desc + level_size else desc) may_overwrite
                  (base_xlat_table pt) BASE_XLAT_LEVEL ptes))"
  by auto

termination
proof (relation "measures [\<lambda>(_, _, sz, _). unat sz, \<lambda>(_, _, _, _, _, _, level, _). 4 - level]",
    goal_cases)
  case 1 show ?case by simp
next
  case (3 pt virt sz desc may table level ptes pte ptes' d level_size ls)
  then have "0 < ls" "ls \<le> sz"
    using covered_size_pos [of "LEVEL_TO_VA_SIZE_SHIFT level" sz virt] level_shift_less [of level]
    by auto
  then show ?case by (simp add: unat_sub word_less_nat_alt word_le_nat_alt)
next
  case (5 pt virt sz desc may table level ptes pte ptes' d level_size pt')
  then have "0 < level_size" "level_size \<le> sz"
    using level_shift_less [of level] by (auto simp: not_less push_bit_eq_mult word_gt_0)
  then show ?case by (simp add: unat_sub word_less_nat_alt word_le_nat_alt)
qed (auto simp: const_defs)

declare set_mapping_loop.simps [simp del]

definition SetMapping :: "ArmMmuPtables \<Rightarrow> u64 \<Rightarrow> u64 \<Rightarrow> u64 \<Rightarrow> bool \<Rightarrow> (int \<times> ArmMmuPtables) option" where
  "SetMapping pt virt sz desc may_overwrite =
     set_mapping_loop pt virt sz desc may_overwrite (base_xlat_table pt) BASE_XLAT_LEVEL (\<lambda>_. 0)"

section \<open>Regions and attributes\<close>

definition GetRegionDesc :: "u32 \<Rightarrow> u64" where
  "GetRegionDesc attrs =
     (let desc = 0 OR (if attrs AND MT_NS \<noteq> 0 then PTE_BLOCK_DESC_NS else 0);
          desc = desc OR (if attrs AND MT_RW \<noteq> 0 then PTE_BLOCK_DESC_AP_RW else PTE_BLOCK_DESC_AP_RO);
          desc = desc OR (if attrs AND MT_RW_AP_ELX \<noteq> 0 then PTE_BLOCK_DESC_AP_ELx
                          else PTE_BLOCK_DESC_AP_EL_HIGHER);
          desc = desc OR PTE_BLOCK_DESC_AF;
          mem_type = MT_TYPE attrs;
          desc = desc OR PTE_BLOCK_DESC_MEMTYPE mem_type
      in
      if mem_type = MT_DEVICE_NGNRNE \<or> mem_type = MT_DEVICE_NGNRE \<or> mem_type = MT_DEVICE_GRE
      then ((desc OR PTE_BLOCK_DESC_OUTER_SHARE) OR PTE_BLOCK_DESC_PXN) OR PTE_BLOCK_DESC_UXN
      else if mem_type = MT_NORMAL_NC \<or> mem_type = MT_NORMAL
      then
        let desc = (if attrs AND MT_RW \<noteq> 0 \<and> attrs AND MT_P_EXECUTE_NEVER \<noteq> 0
                    then desc OR PTE_BLOCK_DESC_PXN else desc);
            desc = (if attrs AND MT_RW \<noteq> 0 \<and> attrs AND MT_RW_AP_ELX \<noteq> 0
                       \<or> attrs AND MT_U_EXECUTE_NEVER \<noteq> 0
                    then desc OR PTE_BLOCK_DESC_UXN else desc)
        in if mem_type = MT_NORMAL then desc OR PTE_BLOCK_DESC_INNER_SHARE
           else desc OR PTE_BLOCK_DESC_OUTER_SHARE
      else desc)"

definition AddMap :: "ArmMmuPtables \<Rightarrow> u64 \<Rightarrow> u64 \<Rightarrow> u64 \<Rightarrow> u32 \<Rightarrow> (int \<times> ArmMmuPtables) option" where
  "AddMap pt phys virt sz attrs = do {
     let desc = GetRegionDesc attrs;
     let may_overwrite = (attrs AND MT_NO_OVERWRITE = 0);
     FASSERT (((virt OR phys) OR sz) AND (CONFIG_MMU_PAGE_SIZE - 1) = 0);
     let desc = desc OR phys;
     SetMapping pt virt sz desc may_overwrite
   }"

definition RemoveMap :: "ArmMmuPtables \<Rightarrow> u64 \<Rightarrow> u64 \<Rightarrow> (int \<times> ArmMmuPtables) option" where
  "RemoveMap ptables virt sz = do {
     FASSERT ((virt OR sz) AND (CONFIG_MMU_PAGE_SIZE - 1) = 0);
     SetMapping ptables virt sz 0 True
   }"

record ArmMmuRegion =
  base_pa :: u64
  base_va :: u64
  region_size :: u64
  region_attrs :: u32

definition AddArmMmuRegion :: "ArmMmuPtables \<Rightarrow> ArmMmuRegion \<Rightarrow> u32 \<Rightarrow> ArmMmuPtables option" where
  "AddArmMmuRegion pt region extra_flags =
     (if region_size region \<noteq> 0 \<or> region_attrs region \<noteq> 0
      then map_option snd (AddMap pt (base_pa region) (base_va region) (region_size region)
             (region_attrs region OR extra_flags))
      else Some pt)"

primrec add_regions :: "ArmMmuPtables \<Rightarrow> ArmMmuRegion list \<Rightarrow> ArmMmuPtables option" where
  "add_regions pt [] = Some pt"
| "add_regions pt (r # rs) = do { pt \<leftarrow> AddArmMmuRegion pt r 0; add_regions pt rs }"

definition SetupPageTables :: "ArmMmuPtables \<Rightarrow> ArmMmuRegion list \<Rightarrow> ArmMmuRegion list \<Rightarrow> ArmMmuPtables option" where
  "SetupPageTables pt mmu_config code_mmu_config = do {
     let max_va = foldl (\<lambda>m r. max m (base_va r + region_size r)) 0 mmu_config;
     let max_pa = foldl (\<lambda>m r. max m (base_pa r + region_size r)) 0 mmu_config;
     FASSERT (max_va \<le> push_bit FCPU_CONFIG_ARM64_VA_BITS 1);
     FASSERT (max_pa \<le> push_bit FCPU_CONFIG_ARM64_PA_BITS 1);
     pt \<leftarrow> add_regions pt mmu_config;
     add_regions pt code_mmu_config
   }"

section \<open>Control registers and initialisation\<close>

definition TCR_PS_BITS :: u64 where [const_defs]: "TCR_PS_BITS = 4"
definition TCR_EPD1_DISABLE :: u64 where "TCR_EPD1_DISABLE = push_bit 23 1"
definition TCR_T0SZ :: "u64 \<Rightarrow> u64" where "TCR_T0SZ x = push_bit 0 (64 - x)"
definition TCR_GRANULE_CONFIG :: u64 where
  "TCR_GRANULE_CONFIG = ((push_bit 14 0 OR push_bit 12 3) OR push_bit 10 1) OR push_bit 8 1"

definition GetTcr :: "int \<Rightarrow> u64" where
  "GetTcr el =
     (let va_bits = of_nat FCPU_CONFIG_ARM64_VA_BITS;
          tcr_ps_bits = TCR_PS_BITS;
          tcr = (if el = 1 then push_bit 32 tcr_ps_bits OR TCR_EPD1_DISABLE
                 else push_bit 16 tcr_ps_bits);
          tcr = tcr OR TCR_T0SZ va_bits
      in tcr OR TCR_GRANULE_CONFIG)"

definition MEMORY_ATTRIBUTES :: u64 where
  "MEMORY_ATTRIBUTES =
     ((((push_bit 0 0x00 OR push_bit 8 0x04) OR push_bit 16 0x0c) OR push_bit 24 0x44)
       OR push_bit 32 0xff) OR push_bit 40 0xbb"

text \<open>The system registers \<open>EnableMmuEl1\<close> writes.\<close>

record mmu_regs =
  mair_el1 :: u64
  tcr_el1 :: u64
  ttbr0_el1 :: u64

definition EnableMmuEl1 :: "ArmMmuPtables \<Rightarrow> mmu_regs" where
  "EnableMmuEl1 pt =
     \<lparr>mair_el1 = MEMORY_ATTRIBUTES, tcr_el1 = GetTcr 1,
      ttbr0_el1 = xlat_addr pt + of_nat (8 * base_xlat_table pt)\<rparr>"

definition mmu_init_checks :: "u64 \<Rightarrow> u64 \<Rightarrow> u64 \<Rightarrow> unit option" where
  "mmu_init_checks mmfr0 current_el sctlr = do {
     FASSERT (mmfr0 AND push_bit 28 0xF = 0);
     FASSERT (drop_bit 2 current_el AND 3 = 1);
     FASSERT (sctlr AND 1 = 0)
   }"

text \<open>
  \<open>MmuInit\<close>: the values read from \<open>ID_AA64MMFR0_EL1\<close>, \<open>CurrentEL\<close> and \<open>SCTLR_EL1\<close> are
  arguments. Running out of tables for the base table would dereference a null pointer.
\<close>

definition MmuInit :: "u64 \<Rightarrow> u64 \<Rightarrow> u64 \<Rightarrow> ArmMmuRegion list \<Rightarrow> ArmMmuRegion list \<Rightarrow> ArmMmuPtables
    \<Rightarrow> (ArmMmuPtables \<times> mmu_regs) option" where
  "MmuInit mmfr0 current_el sctlr mmu_config code_mmu_config pt = do {
     mmu_init_checks mmfr0 current_el sctlr;
     let (base, pt) = NewTable pt;
     base \<leftarrow> base;
     pt \<leftarrow> SetupPageTables (pt\<lparr>base_xlat_table := base\<rparr>) mmu_config code_mmu_config;
     Some (pt, EnableMmuEl1 pt)
   }"

definition MmuInitSecondary :: "u64 \<Rightarrow> u64 \<Rightarrow> u64 \<Rightarrow> ArmMmuPtables \<Rightarrow> mmu_regs option" where
  "MmuInitSecondary mmfr0 current_el sctlr pt = do {
     mmu_init_checks mmfr0 current_el sctlr;
     Some (EnableMmuEl1 pt)
   }"

section \<open>Dynamic mappings\<close>

text \<open>The flag beside a result records whether \<open>AsmInvalidateTlbAll\<close> was called.\<close>

definition ArchMemMap :: "ArmMmuPtables \<Rightarrow> u64 \<Rightarrow> u64 \<Rightarrow> u64 \<Rightarrow> u32 \<Rightarrow> (int \<times> ArmMmuPtables \<times> bool) option" where
  "ArchMemMap pt virt phys sz flags = do {
     (ret, pt) \<leftarrow> AddMap pt phys virt sz flags;
     if ret \<noteq> 0 then Some (ret, pt, False) else Some (0, pt, True)
   }"

definition roundup :: "u64 \<Rightarrow> u64 \<Rightarrow> u64" where
  "roundup x y = ((x + (y - 1)) div y) * y"

definition rounddown :: "u64 \<Rightarrow> u64 \<Rightarrow> u64" where
  "rounddown x y = x - x mod y"

text \<open>Returns the offset of the address in its page, the aligned address and the aligned size.\<close>

definition MemRegionAlign :: "u64 \<Rightarrow> u64 \<Rightarrow> u64 \<Rightarrow> u64 \<times> u64 \<times> u64" where
  "MemRegionAlign addr sz align =
     (let aligned_addr = rounddown addr align;
          addr_offset = addr - aligned_addr;
          aligned_size = roundup sz align
      in (addr_offset, aligned_addr, aligned_size))"

definition FSetTlbAttributes :: "ArmMmuPtables \<Rightarrow> u64 \<Rightarrow> u64 \<Rightarrow> u32 \<Rightarrow> ArmMmuPtables option" where
  "FSetTlbAttributes pt addr sz attrib = do {
     let (_, aligned_phys, aligned_size) = MemRegionAlign addr sz CONFIG_MMU_PAGE_SIZE;
     FASSERT (aligned_size \<noteq> 0);
     FASSERT (aligned_phys < aligned_phys + (aligned_size - 1));
     (_, pt, _) \<leftarrow> ArchMemMap pt aligned_phys aligned_phys aligned_size attrib;
     Some pt
   }"

definition FMmuMap :: "ArmMmuPtables \<Rightarrow> u64 \<Rightarrow> u64 \<Rightarrow> u64 \<Rightarrow> u32 \<Rightarrow> (int \<times> ArmMmuPtables \<times> bool) option" where
  "FMmuMap pt virt phys sz flags = do {
     FASSERT (virt AND (CONFIG_MMU_PAGE_SIZE - 1) = 0);
     FASSERT (phys AND (CONFIG_MMU_PAGE_SIZE - 1) = 0);
     FASSERT (sz AND (CONFIG_MMU_PAGE_SIZE - 1) = 0);
     FASSERT (sz > 0);
     FASSERT (virt < push_bit FCPU_CONFIG_ARM64_VA_BITS 1);
     FASSERT (phys < push_bit FCPU_CONFIG_ARM64_PA_BITS 1);
     ArchMemMap pt virt phys sz flags
   }"

definition FMmuUnMap :: "ArmMmuPtables \<Rightarrow> u64 \<Rightarrow> u64 \<Rightarrow> (int \<times> ArmMmuPtables \<times> bool) option" where
  "FMmuUnMap pt virt sz = do {
     FASSERT (virt AND (CONFIG_MMU_PAGE_SIZE - 1) = 0);
     FASSERT (sz AND (CONFIG_MMU_PAGE_SIZE - 1) = 0);
     FASSERT (sz > 0);
     FASSERT (virt < push_bit FCPU_CONFIG_ARM64_VA_BITS 1);
     (ret, pt) \<leftarrow> RemoveMap pt virt sz;
     if ret \<noteq> 0 then Some (ret, pt, False) else Some (0, pt, True)
   }"

end
