(* ===== verification/MmuWalk.thy ===== *)
theory MmuWalk
  imports Mmu
begin

text \<open>
  The translation a set of tables defines: the table walk of the Arm architecture (stage 1, 4 KiB
  granule, 48-bit input addresses, level 0 to 3; a block descriptor at level 0 is not valid),
  and the invariant the mapping code keeps on its tables: the tables in use form a tree, every
  entry is empty, a leaf, or the link to the table of the next level, and the use counts count
  the entries in use.
\<close>

section \<open>Addresses as block numbers\<close>

abbreviation lshift :: "nat \<Rightarrow> nat" where "lshift level \<equiv> LEVEL_TO_VA_SIZE_SHIFT level"

text \<open>The number of the block of level \<open>l\<close> that contains an address.\<close>

definition blk :: "u64 \<Rightarrow> nat \<Rightarrow> nat" where
  "blk va l = unat va div 2 ^ lshift l"

lemma lshift_eq: "lshift l = 12 + 9 * (3 - l)"
  by (simp add: LEVEL_TO_VA_SIZE_SHIFT_def const_defs)

lemma lshift_Suc: "l < 3 \<Longrightarrow> lshift l = lshift (Suc l) + 9"
  by (simp add: lshift_eq)

lemma lshift_cases: "l \<le> 3 \<Longrightarrow> lshift l = 12 \<or> lshift l = 21 \<or> lshift l = 30 \<or> lshift l = 39"
  by (auto simp: lshift_eq le_Suc_eq numeral_eq_Suc)

lemma unat_and_511: "unat (w AND 511 :: u64) = unat w mod 512"
proof -
  have "(511 :: u64) = mask 9" by (simp add: mask_eq_exp_minus_1)
  then have "w AND 511 = take_bit 9 w" by (simp only: take_bit_eq_mask)
  then show ?thesis by (simp only: unsigned_take_bit_eq) (simp add: take_bit_eq_mod)
qed

lemma idx_eq: "XLAT_TABLE_VA_IDX va l = blk va l mod 512"
  by (simp add: XLAT_TABLE_VA_IDX_def LN_XLAT_NUM_ENTRIES_def unat_and_511 blk_def
      unat_drop_bit_eq) (simp add: drop_bit_eq_div)

lemma idx_less [simp]: "XLAT_TABLE_VA_IDX va l < 512"
  by (simp add: idx_eq)

lemma blk_Suc: "l < 3 \<Longrightarrow> blk va (Suc l) div 512 = blk va l"
  by (simp add: blk_def lshift_Suc power_add div_mult2_eq)

lemma blk_split: "blk va l = blk va l div 512 * 512 + XLAT_TABLE_VA_IDX va l"
  by (simp add: idx_eq)

lemma blk_0: "unat va < 2 ^ 48 \<Longrightarrow> blk va 0 div 512 = 0"
  by (simp add: blk_def lshift_eq div_mult2_eq [symmetric] div_less)

lemma blk_mono_level:
  assumes "blk va l = blk va' l" "l' \<le> l" "l \<le> 3"
  shows "blk va l' = blk va' l'"
  using assms(2,1,3)
proof (induction rule: dec_induct)
  case (step n)
  then show ?case using blk_Suc [of n va] blk_Suc [of n va'] by auto
qed simp

section \<open>The table walk\<close>

text \<open>The output address and the attributes a leaf of a level gives an address.\<close>

definition leaf_out :: "u64 \<Rightarrow> nat \<Rightarrow> u64 \<Rightarrow> u64 \<times> u64" where
  "leaf_out e level va =
     ((e AND GENMASK_ULL 47 (lshift level)) OR (va AND mask (lshift level)), e AND DESC_ATTRS_MASK)"

text \<open>The walk from a table; the second number counts the levels that remain below it.\<close>

primrec hw_walk :: "ArmMmuPtables \<Rightarrow> u64 \<Rightarrow> nat \<Rightarrow> nat \<Rightarrow> (u64 \<times> u64) option" where
  "hw_walk pt va 0 table =
     (let e = xlat_tables pt (table + XLAT_TABLE_VA_IDX va 3)
      in if e AND 3 = 3 then Some (leaf_out e 3 va) else None)"
| "hw_walk pt va (Suc n) table =
     (let level = 2 - n; e = xlat_tables pt (table + XLAT_TABLE_VA_IDX va level)
      in if e AND 3 = 3 then hw_walk pt va n (PteDescTable pt e)
         else if e AND 3 = 1 \<and> level \<noteq> 0 then Some (leaf_out e level va)
         else None)"

definition translate :: "ArmMmuPtables \<Rightarrow> u64 \<Rightarrow> (u64 \<times> u64) option" where
  "translate pt va = hw_walk pt va 3 (base_xlat_table pt)"

text \<open>The tables an address passes, and that it passes links down to a level.\<close>

primrec walk_tab :: "ArmMmuPtables \<Rightarrow> u64 \<Rightarrow> nat \<Rightarrow> nat" where
  "walk_tab pt va 0 = base_xlat_table pt"
| "walk_tab pt va (Suc l) =
     PteDescTable pt (xlat_tables pt (walk_tab pt va l + XLAT_TABLE_VA_IDX va l))"

definition walk_pte :: "ArmMmuPtables \<Rightarrow> u64 \<Rightarrow> nat \<Rightarrow> nat" where
  "walk_pte pt va l = walk_tab pt va l + XLAT_TABLE_VA_IDX va l"

definition on_path :: "ArmMmuPtables \<Rightarrow> u64 \<Rightarrow> nat \<Rightarrow> bool" where
  "on_path pt va l \<longleftrightarrow> (\<forall>l'<l. xlat_tables pt (walk_pte pt va l') AND 3 = 3)"

lemma on_path_0 [simp]: "on_path pt va 0"
  by (simp add: on_path_def)

lemma on_path_Suc: "on_path pt va (Suc l) \<longleftrightarrow> on_path pt va l \<and> xlat_tables pt (walk_pte pt va l) AND 3 = 3"
  by (auto simp: on_path_def less_Suc_eq)

lemma translate_on_path:
  "on_path pt va l \<Longrightarrow> l \<le> 3 \<Longrightarrow> translate pt va = hw_walk pt va (3 - l) (walk_tab pt va l)"
proof (induction l)
  case (Suc l)
  then have "3 - l = Suc (2 - l)" "2 - (2 - l) = l" by auto
  then show ?case using Suc by (simp add: on_path_Suc walk_pte_def Let_def)
qed (simp add: translate_def)

text \<open>What the walk does with the entry it finds at a level.\<close>

lemma translate_entry:
  assumes "on_path pt va l" "l \<le> 3" "e = xlat_tables pt (walk_pte pt va l)"
  shows "translate pt va =
    (if e AND 3 = 3 \<and> l < 3 then hw_walk pt va (2 - l) (PteDescTable pt e)
     else if e AND 3 = 3 \<or> e AND 3 = 1 \<and> 0 < l \<and> l < 3 then Some (leaf_out e l va) else None)"
proof (cases "l = 3")
  case True
  then show ?thesis using assms translate_on_path [of pt va l] by (simp add: walk_pte_def Let_def)
next
  case False
  then have "3 - l = Suc (2 - l)" "2 - (2 - l) = l" using assms(2) by auto
  then show ?thesis using assms False translate_on_path [of pt va l]
    by (simp add: walk_pte_def Let_def)
qed

text \<open>Addresses in the same block of a level share the walk down to that level.\<close>

lemma walk_same_block:
  assumes "blk va l = blk va' l" "l \<le> 3" "l' \<le> l"
  shows "walk_tab pt va l' = walk_tab pt va' l'" "walk_pte pt va l' = walk_pte pt va' l'"
proof -
  have idx: "XLAT_TABLE_VA_IDX va k = XLAT_TABLE_VA_IDX va' k" if "k \<le> l" for k
    using blk_mono_level [OF assms(1) that assms(2)] by (simp add: idx_eq)
  have "walk_tab pt va k = walk_tab pt va' k" if "k \<le> l" for k
    using that by (induction k) (simp_all add: idx)
  then show "walk_tab pt va l' = walk_tab pt va' l'" "walk_pte pt va l' = walk_pte pt va' l'"
    using assms(3) idx by (simp_all add: walk_pte_def)
qed

lemma on_path_same_block:
  "\<lbrakk>blk va l = blk va' l; l \<le> 3\<rbrakk> \<Longrightarrow> on_path pt va l \<longleftrightarrow> on_path pt va' l"
  using walk_same_block(2) [of va l va'] by (auto simp: on_path_def)

section \<open>The invariant\<close>

definition table_desc :: "ArmMmuPtables \<Rightarrow> nat \<Rightarrow> u64" where
  "table_desc pt k = PTE_TABLE_DESC OR (xlat_addr pt + of_nat (8 * (k * 512)))"

text \<open>A leaf: the type bits of its level, the access flag, and an aligned address.\<close>

definition is_leaf :: "nat \<Rightarrow> u64 \<Rightarrow> bool" where
  "is_leaf l e \<longleftrightarrow> 0 < l \<and> l \<le> 3 \<and> e AND 3 = (if l = 3 then 3 else 1) \<and> bit e 10
     \<and> (\<forall>k. 12 \<le> k \<and> k < lshift l \<longrightarrow> \<not> bit e k)"

text \<open>
  \<open>own\<close> gives each table in use its level and the block of the level above that it covers.
\<close>

type_synonym owners = "nat \<Rightarrow> (nat \<times> nat) option"

definition entry_ok :: "owners \<Rightarrow> ArmMmuPtables \<Rightarrow> nat \<Rightarrow> nat \<Rightarrow> u64 \<Rightarrow> bool" where
  "entry_ok own pt l q e \<longleftrightarrow>
     e = 0 \<or> is_leaf l e \<or> l < 3 \<and> (\<exists>k. e = table_desc pt k \<and> own k = Some (Suc l, q))"

definition used_entries :: "ArmMmuPtables \<Rightarrow> nat \<Rightarrow> nat set" where
  "used_entries pt i = {j. j < 512 \<and> xlat_tables pt (i * 512 + j) \<noteq> 0}"

definition pool_ok :: "ArmMmuPtables \<Rightarrow> bool" where
  "pool_ok pt \<longleftrightarrow> unat (xlat_addr pt) mod 4096 = 0 \<and> unat (xlat_addr pt) + 256 * 4096 \<le> 2 ^ 48"

definition pt_inv :: "owners \<Rightarrow> ArmMmuPtables \<Rightarrow> bool" where
  "pt_inv own pt \<longleftrightarrow>
     pool_ok pt \<and>
     (\<exists>b. base_xlat_table pt = b * 512 \<and> own b = Some (0, 0)) \<and>
     (\<forall>i l p. own i = Some (l, p) \<longrightarrow> i < 256 \<and> l \<le> 3) \<and>
     (\<forall>i k x. own i = Some x \<and> own k = Some x \<longrightarrow> i = k) \<and>
     (\<forall>i l p j. own i = Some (l, p) \<and> j < 512 \<longrightarrow>
        entry_ok own pt l (p * 512 + j) (xlat_tables pt (i * 512 + j))) \<and>
     (\<forall>i<256. own i = None \<longrightarrow> xlat_use_count pt i = 0 \<and> used_entries pt i = {}) \<and>
     (\<forall>i l p. own i = Some (l, p) \<longrightarrow>
        unat (xlat_use_count pt i) = (if l = 0 then 1 else 2) + card (used_entries pt i)) \<and>
     (\<forall>k l q. own k = Some (Suc l, q) \<longrightarrow>
        (\<exists>i. own i = Some (l, q div 512) \<and> xlat_tables pt (i * 512 + q mod 512) = table_desc pt k))"

lemma pt_invD:
  assumes "pt_inv own pt"
  shows "pool_ok pt"
    and "\<exists>b. base_xlat_table pt = b * 512 \<and> own b = Some (0, 0)"
    and "own i = Some (l, p) \<Longrightarrow> i < 256"
    and "own i = Some (l, p) \<Longrightarrow> l \<le> 3"
    and "own i = Some x \<Longrightarrow> own k = Some x \<Longrightarrow> i = k"
    and "own i = Some (l, p) \<Longrightarrow> j < 512 \<Longrightarrow>
        entry_ok own pt l (p * 512 + j) (xlat_tables pt (i * 512 + j))"
    and "i < 256 \<Longrightarrow> own i = None \<Longrightarrow> xlat_use_count pt i = 0"
    and "i < 256 \<Longrightarrow> own i = None \<Longrightarrow> used_entries pt i = {}"
    and "own i = Some (l, p) \<Longrightarrow>
        unat (xlat_use_count pt i) = (if l = 0 then 1 else 2) + card (used_entries pt i)"
    and "own k = Some (Suc l, q) \<Longrightarrow>
        \<exists>i. own i = Some (l, q div 512) \<and> xlat_tables pt (i * 512 + q mod 512) = table_desc pt k"
  using assms unfolding pt_inv_def by (blast | metis)+

text \<open>A state of the tables the mapping code can be in.\<close>

definition mmu_wf :: "ArmMmuPtables \<Rightarrow> bool" where
  "mmu_wf pt \<longleftrightarrow> (\<exists>own. pt_inv own pt)"

lemma finite_used [simp]: "finite (used_entries pt i)"
  by (simp add: used_entries_def)

lemma card_used_le: "card (used_entries pt i) \<le> 512"
  using card_mono [of "{..<512}" "used_entries pt i"] by (auto simp: used_entries_def)

end
