(* ===== verification/MmuSteps.thy ===== *)
theory MmuSteps
  imports MmuWalk
begin

text \<open>
  The elementary changes of the tables: writing a leaf, replacing an entry by a table, removing
  an empty table. Each keeps the invariant, and its effect on the translation is stated for every
  address.
\<close>

section \<open>Bits of addresses and descriptors\<close>

lemma take_bit_0_iff: "take_bit n (w :: u64) = 0 \<longleftrightarrow> unat w mod 2 ^ n = 0"
proof -
  have "take_bit n w = 0 \<longleftrightarrow> unat (take_bit n w) = 0" by (simp only: unat_eq_zero)
  also have "unat (take_bit n w) = unat w mod 2 ^ n"
    by (simp only: unsigned_take_bit_eq) (simp add: take_bit_eq_mod)
  finally show ?thesis .
qed

lemma aligned_bits: "unat (w :: u64) mod 2 ^ n = 0 \<longleftrightarrow> (\<forall>k<n. \<not> bit w k)"
  unfolding take_bit_0_iff [symmetric]
  by (auto intro!: bit_word_eqI simp: bit_take_bit_iff dest: arg_cong [where f = "\<lambda>x. bit x _"])

lemma high_bits: "unat (w :: u64) < 2 ^ n \<Longrightarrow> n \<le> k \<Longrightarrow> \<not> bit w k"
proof -
  assume a: "unat w < 2 ^ n" "n \<le> k"
  then have "unat (take_bit n w) = unat w"
    by (simp only: unsigned_take_bit_eq) (simp add: take_bit_nat_eq_self)
  then have "take_bit n w = w" by (rule word_unat_eq_iff [THEN iffD2])
  then show "\<not> bit w k" using a(2) by (metis bit_take_bit_iff not_less)
qed

lemma bit_3: "bit (3 :: u64) k \<longleftrightarrow> k = 0 \<or> k = 1"
proof -
  have "bit (3 :: u64) k = bit (mask 2 :: u64) k" by (simp add: mask_eq_exp_minus_1)
  also have "\<dots> \<longleftrightarrow> k = 0 \<or> k = 1" by (simp only: bit_mask_iff) (auto simp: less_2_cases_iff)
  finally show ?thesis .
qed

lemma and_3_bits: "(e :: u64) AND 3 = 3 \<longleftrightarrow> bit e 0 \<and> bit e 1"
  "e AND 3 = 1 \<longleftrightarrow> bit e 0 \<and> \<not> bit e 1" "e AND 3 = 0 \<longleftrightarrow> \<not> bit e 0 \<and> \<not> bit e 1"
proof -
  have b: "bit (e AND 3) k \<longleftrightarrow> bit e k \<and> (k = 0 \<or> k = 1)" for k
    by (simp only: bit_and_iff bit_3)
  have eq: "e AND 3 = x \<longleftrightarrow> (bit e 0 = bit x 0) \<and> (bit e 1 = bit x 1) \<and> (\<forall>k. 2 \<le> k \<longrightarrow> \<not> bit x k)" for x
  proof
    assume "e AND 3 = x"
    then show "(bit e 0 = bit x 0) \<and> (bit e 1 = bit x 1) \<and> (\<forall>k. 2 \<le> k \<longrightarrow> \<not> bit x k)"
      using b by force
  next
    assume a: "(bit e 0 = bit x 0) \<and> (bit e 1 = bit x 1) \<and> (\<forall>k. 2 \<le> k \<longrightarrow> \<not> bit x k)"
    show "e AND 3 = x"
    proof (rule bit_word_eqI)
      fix k show "bit (e AND 3) k = bit x k"
        using a b [of k] less_2_cases [of k] by (cases "k < 2") auto
    qed
  qed
  show "e AND 3 = 3 \<longleftrightarrow> bit e 0 \<and> bit e 1" unfolding eq bit_3 by simp
  show "e AND 3 = 1 \<longleftrightarrow> bit e 0 \<and> \<not> bit e 1" unfolding eq by (simp add: bit_1_iff)
  show "e AND 3 = 0 \<longleftrightarrow> \<not> bit e 0 \<and> \<not> bit e 1" unfolding eq by simp
qed

lemma table_addr:
  assumes "pool_ok pt" "k < 256"
  shows "unat (xlat_addr pt + of_nat (8 * (k * 512))) = unat (xlat_addr pt) + 4096 * k"
proof -
  have k: "unat (of_nat (8 * (k * 512)) :: u64) = 4096 * k"
    using assms(2) by (subst unat_of_nat_64) auto
  have "unat (xlat_addr pt) + 4096 * k < 2 ^ 64"
    using assms by (auto simp: pool_ok_def)
  then show ?thesis using k by (simp add: unat_word_ariths(1) del: of_nat_mult)
qed

lemma PteDescTable_table_desc:
  assumes "pool_ok pt" "k < 256"
  shows "PteDescTable pt (table_desc pt k) = k * 512"
proof -
  let ?a = "xlat_addr pt + of_nat (8 * (k * 512))"
  have ua: "unat ?a = unat (xlat_addr pt) + 4096 * k" by (rule table_addr [OF assms])
  have lo: "\<not> bit ?a j" if "j < 12" for j
    using aligned_bits [of ?a 12] that assms(1) unfolding ua by (auto simp: pool_ok_def)
  have hi: "\<not> bit ?a j" if "48 \<le> j" for j
    using high_bits [of ?a 48 j] that assms unfolding ua by (auto simp: pool_ok_def)
  have "table_desc pt k AND GENMASK_ULL 47 PAGE_SIZE_SHIFT = ?a"
  proof (rule bit_word_eqI)
    fix j
    show "bit (table_desc pt k AND GENMASK_ULL 47 PAGE_SIZE_SHIFT) j = bit ?a j"
      using lo [of j] hi [of j]
      by (cases "j < 12"; cases "48 \<le> j")
         (auto simp: table_desc_def const_defs bit_and_iff bit_or_iff bit_GENMASK_ULL bit_3
           simp del: of_nat_mult bit_numeral_word_iff)
  qed
  then have "PteDescTable pt (table_desc pt k) = unat (of_nat (8 * (k * 512)) :: u64) div 8"
    unfolding PteDescTable_def pool_index_def by simp
  also have "\<dots> = k * 512" using assms(2) by (subst unat_of_nat_64) auto
  finally show ?thesis .
qed

lemma table_desc_type: "table_desc pt k AND 3 = 3"
  by (simp add: table_desc_def const_defs and_3_bits bit_or_iff bit_3)

lemma table_desc_nonzero: "table_desc pt k \<noteq> 0"
  using table_desc_type [of pt k] by auto

lemma is_leaf_nonzero: "is_leaf l e \<Longrightarrow> e \<noteq> 0"
  by (auto simp: is_leaf_def)

lemma is_leaf_not_link: "is_leaf l e \<Longrightarrow> l < 3 \<Longrightarrow> e AND 3 = 1"
  by (simp add: is_leaf_def)

section \<open>Paths in a well-formed tree\<close>

lemma entry_link:
  assumes "pt_inv own pt" "entry_ok own pt l q e" "l < 3" "e AND 3 = 3"
  obtains k where "e = table_desc pt k" "own k = Some (Suc l, q)" "k < 256" "PteDescTable pt e = k * 512"
proof -
  obtain k where k: "e = table_desc pt k" "own k = Some (Suc l, q)"
    using assms by (auto simp: entry_ok_def is_leaf_def)
  moreover have "k < 256" using k(2) pt_invD(3) [OF assms(1)] by auto
  ultimately show ?thesis
    using that PteDescTable_table_desc [OF pt_invD(1) [OF assms(1)]] by auto
qed

lemma own_path:
  assumes "pt_inv own pt" "unat va < 2 ^ 48"
  shows "on_path pt va l \<Longrightarrow> l \<le> 3 \<Longrightarrow>
    \<exists>i. own i = Some (l, blk va l div 512) \<and> walk_tab pt va l = i * 512"
proof (induction l)
  case 0
  then show ?case using pt_invD(2) [OF assms(1)] blk_0 [OF assms(2)] by auto
next
  case (Suc l)
  then obtain i where i: "own i = Some (l, blk va l div 512)" "walk_tab pt va l = i * 512"
    by (auto simp: on_path_Suc)
  let ?e = "xlat_tables pt (walk_pte pt va l)"
  have ok: "entry_ok own pt l (blk va l) ?e"
    using pt_invD(6) [OF assms(1) i(1), of "XLAT_TABLE_VA_IDX va l"] i(2) blk_split [of va l]
    by (simp add: walk_pte_def)
  obtain k where "own k = Some (Suc l, blk va l)" "PteDescTable pt ?e = k * 512"
    by (rule entry_link [OF assms(1) ok]) (use Suc.prems in \<open>auto simp: on_path_Suc\<close>)
  then show ?case using Suc.prems blk_Suc [of l va] by (auto simp: walk_pte_def)
qed

lemma path_entry:
  assumes "pt_inv own pt" "unat va < 2 ^ 48" "on_path pt va l" "l \<le> 3"
  obtains i where "own i = Some (l, blk va l div 512)" "walk_tab pt va l = i * 512"
    "walk_pte pt va l = i * 512 + XLAT_TABLE_VA_IDX va l" "i < 256"
    "entry_ok own pt l (blk va l) (xlat_tables pt (walk_pte pt va l))"
proof -
  obtain i where i: "own i = Some (l, blk va l div 512)" "walk_tab pt va l = i * 512"
    using own_path [OF assms(1,2,3,4)] by auto
  show ?thesis
    using that [OF i] i pt_invD(3) [OF assms(1) i(1)]
      pt_invD(6) [OF assms(1) i(1), of "XLAT_TABLE_VA_IDX va l"] blk_split [of va l]
    by (simp add: walk_pte_def)
qed

lemma entry_index_eq_iff:
  "j < 512 \<Longrightarrow> j' < 512 \<Longrightarrow> i * 512 + j = i' * 512 + j' \<longleftrightarrow> i = i' \<and> j = (j' :: nat)"
proof -
  assume a: "j < 512" "j' < 512"
  have "i = i'" if "i * 512 + j = i' * 512 + j'"
    using arg_cong [OF that, of "\<lambda>x. x div 512"] a by simp
  then show ?thesis by auto
qed

text \<open>The walk below a table depends only on the entries the address selects.\<close>

lemma hw_walk_agree:
  assumes "pt_inv own pt" "xlat_addr pt' = xlat_addr pt"
    and agree: "\<And>i l. own i = Some (l, blk va l div 512) \<Longrightarrow> l \<le> 3 \<Longrightarrow>
      xlat_tables pt' (i * 512 + XLAT_TABLE_VA_IDX va l) = xlat_tables pt (i * 512 + XLAT_TABLE_VA_IDX va l)"
  shows "n \<le> 3 \<Longrightarrow> own i = Some (3 - n, blk va (3 - n) div 512) \<Longrightarrow>
    hw_walk pt' va n (i * 512) = hw_walk pt va n (i * 512)"
proof (induction n arbitrary: i)
  case 0
  then show ?case using agree [of i 3] by simp
next
  case (Suc n)
  let ?l = "2 - n" let ?e = "xlat_tables pt (i * 512 + XLAT_TABLE_VA_IDX va ?l)"
  have own: "own i = Some (?l, blk va ?l div 512)" using Suc.prems by simp
  have ok: "entry_ok own pt ?l (blk va ?l) ?e"
    using pt_invD(6) [OF assms(1) own, of "XLAT_TABLE_VA_IDX va ?l"] blk_split [of va ?l] by simp
  have "hw_walk pt' va n (PteDescTable pt' ?e) = hw_walk pt va n (PteDescTable pt ?e)" if "?e AND 3 = 3"
  proof -
    note link = that
    obtain k where "own k = Some (Suc ?l, blk va ?l)" "PteDescTable pt ?e = k * 512"
      by (rule entry_link [OF assms(1) ok _ link]) (use Suc.prems in auto)
    then show ?thesis
      using Suc.IH [of k] Suc.prems blk_Suc [of ?l va] assms(2)
      by (simp add: PteDescTable_def pool_index_def Suc_diff_le numeral_3_eq_3 numeral_2_eq_2)
  qed
  then show ?case using agree [OF own] by (simp add: Let_def)
qed

lemma translate_agree:
  assumes "pt_inv own pt" "xlat_addr pt' = xlat_addr pt" "base_xlat_table pt' = base_xlat_table pt"
    "unat va < 2 ^ 48"
    and "\<And>i l. own i = Some (l, blk va l div 512) \<Longrightarrow> l \<le> 3 \<Longrightarrow>
      xlat_tables pt' (i * 512 + XLAT_TABLE_VA_IDX va l) = xlat_tables pt (i * 512 + XLAT_TABLE_VA_IDX va l)"
  shows "translate pt' va = translate pt va"
proof -
  obtain b where "base_xlat_table pt = b * 512" "own b = Some (0, 0)"
    using pt_invD(2) [OF assms(1)] by auto
  then show ?thesis
    using hw_walk_agree [OF assms(1,2,5), of 3 b] blk_0 [OF assms(4)] assms(3)
    by (simp add: translate_def)
qed

lemma path_agree:
  assumes "xlat_addr pt' = xlat_addr pt" "base_xlat_table pt' = base_xlat_table pt"
    and "\<And>l'. l' < l \<Longrightarrow> xlat_tables pt' (walk_pte pt va l') = xlat_tables pt (walk_pte pt va l')"
  shows "l' \<le> l \<Longrightarrow> walk_tab pt' va l' = walk_tab pt va l'"
    and "l' \<le> l \<Longrightarrow> walk_pte pt' va l' = walk_pte pt va l'"
    and "on_path pt' va l \<longleftrightarrow> on_path pt va l"
proof -
  have tab: "walk_tab pt' va l' = walk_tab pt va l'" if "l' \<le> l" for l'
    using that
  proof (induction l')
    case (Suc l')
    then show ?case
      using assms(1) assms(3) [of l'] by (simp add: walk_pte_def PteDescTable_def pool_index_def)
  qed (simp add: assms(2))
  then show "l' \<le> l \<Longrightarrow> walk_tab pt' va l' = walk_tab pt va l'" .
  have pte: "walk_pte pt' va l' = walk_pte pt va l'" if "l' \<le> l" for l'
    using tab [OF that] by (simp add: walk_pte_def)
  then show "l' \<le> l \<Longrightarrow> walk_pte pt' va l' = walk_pte pt va l'" .
  show "on_path pt' va l \<longleftrightarrow> on_path pt va l"
    using assms(3) pte by (auto simp: on_path_def)
qed

text \<open>Entries of different levels are different, so a change at one level leaves the path to it.\<close>

lemma path_above:
  assumes "pt_inv own pt" "unat va < 2 ^ 48" "on_path pt va l" "l \<le> 3" "own i = Some (l, p)" "j < 512" "l' < l"
  shows "walk_pte pt va l' \<noteq> i * 512 + j"
proof -
  have "on_path pt va l'" using assms(3,7) by (auto simp: on_path_def)
  then obtain i' where "own i' = Some (l', blk va l' div 512)"
    "walk_pte pt va l' = i' * 512 + XLAT_TABLE_VA_IDX va l'"
    using path_entry [OF assms(1,2)] assms(4,7) by (metis less_imp_le order.strict_trans2)
  then show ?thesis using assms(5,6,7) entry_index_eq_iff by fastforce
qed

section \<open>Changing one entry\<close>

lemma used_entries_set:
  assumes "xlat_tables pt' = (xlat_tables pt)(i * 512 + j := v)" "j < 512"
  shows "used_entries pt' i' =
    (if i' = i then (if v = 0 then used_entries pt i - {j} else insert j (used_entries pt i))
     else used_entries pt i')"
  using assms by (auto simp: used_entries_def entry_index_eq_iff)

lemma translate_set_other:
  assumes "pt_inv own pt" "own i = Some (l, p)" "j < 512"
    "xlat_tables pt' = (xlat_tables pt)(i * 512 + j := v)"
    "xlat_addr pt' = xlat_addr pt" "base_xlat_table pt' = base_xlat_table pt"
    "unat va < 2 ^ 48" "blk va l \<noteq> p * 512 + j"
  shows "translate pt' va = translate pt va"
proof (rule translate_agree [OF assms(1,5,6,7)])
  fix i' l' assume o: "own i' = Some (l', blk va l' div 512)" "l' \<le> 3"
  have "i' * 512 + XLAT_TABLE_VA_IDX va l' \<noteq> i * 512 + j"
  proof
    assume "i' * 512 + XLAT_TABLE_VA_IDX va l' = i * 512 + j"
    then have "i' = i" "XLAT_TABLE_VA_IDX va l' = j" using assms(3) by (auto simp: entry_index_eq_iff)
    then show False using o(1) assms(2,8) blk_split [of va l] by auto
  qed
  then show "xlat_tables pt' (i' * 512 + XLAT_TABLE_VA_IDX va l') = xlat_tables pt (i' * 512 + XLAT_TABLE_VA_IDX va l')"
    using assms(4) by simp
qed

lemma walk_set_entry:
  assumes inv: "pt_inv own pt" and own: "own i = Some (l, p)" and j: "j < 512"
    and tabs: "xlat_tables pt' = (xlat_tables pt)(i * 512 + j := v)"
    and same: "xlat_addr pt' = xlat_addr pt" "base_xlat_table pt' = base_xlat_table pt"
    and va: "unat va < 2 ^ 48" "blk va l = p * 512 + j" "on_path pt va l"
  shows "on_path pt' va l" "walk_pte pt va l = i * 512 + j"
    "l' \<le> l \<Longrightarrow> walk_tab pt' va l' = walk_tab pt va l'"
    "l' \<le> l \<Longrightarrow> walk_pte pt' va l' = walk_pte pt va l'"
proof -
  have l3: "l \<le> 3" using pt_invD(4) [OF inv own] .
  have "xlat_tables pt' (walk_pte pt va l') = xlat_tables pt (walk_pte pt va l')" if "l' < l" for l'
    using path_above [OF inv va(1,3) l3 own j that] tabs by simp
  note ag = path_agree [OF same this]
  show "on_path pt' va l" using ag(3) va(3) by simp
  show "l' \<le> l \<Longrightarrow> walk_tab pt' va l' = walk_tab pt va l'"
    "l' \<le> l \<Longrightarrow> walk_pte pt' va l' = walk_pte pt va l'" using ag(1,2) by auto
  obtain i' where i': "own i' = Some (l, blk va l div 512)" "walk_pte pt va l = i' * 512 + XLAT_TABLE_VA_IDX va l"
    by (rule path_entry [OF inv va(1,3) l3])
  have "blk va l div 512 = p" "XLAT_TABLE_VA_IDX va l = j" using va(2) j by (simp_all add: idx_eq)
  then show "walk_pte pt va l = i * 512 + j" using i' own pt_invD(5) [OF inv own, of i'] by simp
qed

lemma inv_set_leaf:
  assumes inv: "pt_inv own pt" and own: "own i = Some (l, p)" and j: "j < 512"
    and old: "xlat_tables pt (i * 512 + j) = 0 \<or> is_leaf l (xlat_tables pt (i * 512 + j))"
    and new: "v = 0 \<or> is_leaf l v"
    and tabs: "xlat_tables pt' = (xlat_tables pt)(i * 512 + j := v)"
    and same: "xlat_addr pt' = xlat_addr pt" "base_xlat_table pt' = base_xlat_table pt"
    and cnt: "xlat_use_count pt' = (xlat_use_count pt)(i := c)"
      "unat c = (if l = 0 then 1 else 2) + card (used_entries pt' i)"
  shows "pt_inv own pt'"
proof -
  have d: "table_desc pt' k = table_desc pt k" for k using same by (simp add: table_desc_def)
  have ok: "entry_ok own pt' l' (p' * 512 + j') (xlat_tables pt' (i' * 512 + j'))"
    if "own i' = Some (l', p')" "j' < 512" for i' l' p' j'
    using pt_invD(6) [OF inv that] that own new tabs j
    by (auto simp: entry_ok_def d entry_index_eq_iff)
  have used: "used_entries pt' i' = used_entries pt i'" if "i' \<noteq> i" for i'
    using used_entries_set [OF tabs j, of i'] that by simp
  show ?thesis
    unfolding pt_inv_def
  proof (intro conjI allI impI)
    show "pool_ok pt'" using pt_invD(1) [OF inv] same by (simp add: pool_ok_def)
    show "\<exists>b. base_xlat_table pt' = b * 512 \<and> own b = Some (0, 0)" using pt_invD(2) [OF inv] same by simp
    fix i' k' x assume "own i' = Some x \<and> own k' = Some x"
    then show "i' = k'" using pt_invD(5) [OF inv] by blast
  next
    fix i' l' p' assume o: "own i' = Some (l', p')"
    show "i' < 256" "l' \<le> 3" using pt_invD(3,4) [OF inv o] by auto
    show "unat (xlat_use_count pt' i') = (if l' = 0 then 1 else 2) + card (used_entries pt' i')"
      using pt_invD(9) [OF inv o] cnt used own o by (cases "i' = i") auto
  next
    fix i' l' p' j' :: nat assume "own i' = Some (l', p') \<and> j' < 512"
    then show "entry_ok own pt' l' (p' * 512 + j') (xlat_tables pt' (i' * 512 + j'))" using ok by blast
  next
    fix i' :: nat assume "i' < 256" "own i' = None"
    then show "xlat_use_count pt' i' = 0" "used_entries pt' i' = {}"
      using pt_invD(7,8) [OF inv] cnt used own by (cases "i' = i"; auto)+
  next
    fix k l' q assume o: "own k = Some (Suc l', q)"
    obtain i' where i': "own i' = Some (l', q div 512)" "xlat_tables pt (i' * 512 + q mod 512) = table_desc pt k"
      using pt_invD(10) [OF inv o] by blast
    have "i' * 512 + q mod 512 \<noteq> i * 512 + j"
    proof
      assume eq: "i' * 512 + q mod 512 = i * 512 + j"
      then have "l' = l" using i'(1) own j by (auto simp: entry_index_eq_iff)
      then show False
        using eq i'(2) old table_desc_nonzero table_desc_type [of pt k] is_leaf_not_link [of l "table_desc pt k"]
          pt_invD(4) [OF inv o] by auto
    qed
    then show "\<exists>i. own i = Some (l', q div 512) \<and> xlat_tables pt' (i * 512 + q mod 512) = table_desc pt' k"
      using i' tabs d by (intro exI [of _ i']) simp
  qed
qed

lemma TableUsage_eq:
  assumes "i < 256" "j < 512" "unat (xlat_use_count pt i) = c" "0 < int c + adj" "int c + adj < 65536"
  obtains w where "unat w = nat (int c + adj)"
    "TableUsage pt (i * 512 + j) adj
       = Some (unat w, pt\<lparr>xlat_use_count := (xlat_use_count pt)(i := w)\<rparr>)"
proof -
  let ?c = "xlat_use_count pt i + of_int adj" let ?n = "int (unat (xlat_use_count pt i)) + adj"
  have "?c = of_int ?n" by simp
  then have "unat ?c = nat (?n mod 2 ^ 16)"
    by (simp only: unsigned_of_int) (simp add: take_bit_eq_mod nat_mod_distrib)
  also have "?n mod 2 ^ 16 = ?n" unfolding assms(3) using assms(4,5) by simp
  finally have c: "unat ?c = nat (int c + adj)" unfolding assms(3) .
  then have "0 < ?c" using assms(4) by (simp add: word_less_nat_alt)
  then show ?thesis
    using that [OF c] assms(1,2) by (simp add: TableUsage_def TableIndex_def const_defs Let_def)
qed

section \<open>Removing an empty table\<close>

lemma inv_unlink:
  assumes inv: "pt_inv own pt" and own: "own i = Some (l, p)" "own k = Some (Suc l, p * 512 + j)"
    and j: "j < 512" and empty: "used_entries pt k = {}"
    and tabs: "xlat_tables pt' = (xlat_tables pt)(i * 512 + j := 0)"
    and same: "xlat_addr pt' = xlat_addr pt" "base_xlat_table pt' = base_xlat_table pt"
    and cnt: "xlat_use_count pt' = (xlat_use_count pt)(k := 0, i := c)"
      "unat c = (if l = 0 then 1 else 2) + card (used_entries pt' i)"
  shows "pt_inv (own(k := None)) pt'"
proof -
  have d: "table_desc pt' k = table_desc pt k" for k using same by (simp add: table_desc_def)
  have ik: "i \<noteq> k" using own by auto
  have used: "used_entries pt' i' = used_entries pt i'" if "i' \<noteq> i" for i'
    using used_entries_set [OF tabs j, of i'] that by simp
  have ok: "entry_ok (own(k := None)) pt' l' (p' * 512 + j') (xlat_tables pt' (i' * 512 + j'))"
    if o: "own i' = Some (l', p')" "j' < 512" for i' l' p' j'
  proof (cases "i' * 512 + j' = i * 512 + j")
    case True
    then show ?thesis using tabs by (simp add: entry_ok_def)
  next
    case False
    have "own k \<noteq> Some (Suc l', p' * 512 + j')"
    proof
      assume "own k = Some (Suc l', p' * 512 + j')"
      then have "l' = l" "p' = p" "j' = j" using own(2) o(2) j entry_index_eq_iff [of j' j p' p] by auto
      then show False using False pt_invD(5) [OF inv own(1), of i'] o(1) by simp
    qed
    then show ?thesis
      using pt_invD(6) [OF inv o] tabs False by (auto simp: entry_ok_def d)
  qed
  show ?thesis
    unfolding pt_inv_def
  proof (intro conjI allI impI)
    show "pool_ok pt'" using pt_invD(1) [OF inv] same by (simp add: pool_ok_def)
    obtain b where "base_xlat_table pt = b * 512" "own b = Some (0, 0)" using pt_invD(2) [OF inv] by auto
    then show "\<exists>b. base_xlat_table pt' = b * 512 \<and> (own(k := None)) b = Some (0, 0)"
      using own(2) same by (intro exI [of _ b]) auto
    fix i' k' x assume "(own(k := None)) i' = Some x \<and> (own(k := None)) k' = Some x"
    then show "i' = k'" using pt_invD(5) [OF inv, of i' x k'] by (simp split: if_splits)
  next
    fix i' l' p' assume "(own(k := None)) i' = Some (l', p')"
    then have o: "own i' = Some (l', p')" "i' \<noteq> k" by (auto split: if_splits)
    show "i' < 256" "l' \<le> 3" using pt_invD(3,4) [OF inv o(1)] by auto
    show "unat (xlat_use_count pt' i') = (if l' = 0 then 1 else 2) + card (used_entries pt' i')"
      using pt_invD(9) [OF inv o(1)] cnt used own(1) o by (cases "i' = i") auto
  next
    fix i' l' p' j' :: nat assume "(own(k := None)) i' = Some (l', p') \<and> j' < 512"
    then show "entry_ok (own(k := None)) pt' l' (p' * 512 + j') (xlat_tables pt' (i' * 512 + j'))"
      using ok by (auto split: if_splits)
  next
    fix i' :: nat assume i': "i' < 256" "(own(k := None)) i' = None"
    have "i' \<noteq> i" using i'(2) own(1) ik by (auto split: if_splits)
    then show "xlat_use_count pt' i' = 0" "used_entries pt' i' = {}"
      using pt_invD(7,8) [OF inv i'(1)] i'(2) cnt(1) used [of i'] empty by (auto split: if_splits)
  next
    fix k' l' q assume "(own(k := None)) k' = Some (Suc l', q)"
    then have o: "own k' = Some (Suc l', q)" "k' \<noteq> k" by (auto split: if_splits)
    obtain i' where i': "own i' = Some (l', q div 512)" "xlat_tables pt (i' * 512 + q mod 512) = table_desc pt k'"
      using pt_invD(10) [OF inv o(1)] by blast
    have "i' * 512 + q mod 512 \<noteq> i * 512 + j"
    proof
      assume "i' * 512 + q mod 512 = i * 512 + j"
      then have "i' = i" "q mod 512 = j" using j by (simp_all add: entry_index_eq_iff)
      then have "own k' = own k" using i'(1) own o(1) div_mult_mod_eq [of q 512] by auto
      then show False using o own(2) pt_invD(5) [OF inv own(2), of k'] by simp
    qed
    moreover have "i' \<noteq> k"
      using pt_invD(6) [OF inv, of i' l' "q div 512" "q mod 512"] i' empty table_desc_nonzero [of pt k']
      by (auto simp: used_entries_def)
    ultimately show "\<exists>i. (own(k := None)) i = Some (l', q div 512) \<and>
        xlat_tables pt' (i * 512 + q mod 512) = table_desc pt' k'"
      using i' tabs d by (intro exI [of _ i']) simp
  qed
qed

text \<open>A table with no entries in use translates nothing.\<close>

lemma hw_walk_empty:
  assumes "used_entries pt k = {}"
  shows "hw_walk pt va n (k * 512) = None"
proof -
  have "xlat_tables pt (k * 512 + XLAT_TABLE_VA_IDX va l) = 0" for l
    using assms idx_less [of va l] by (auto simp: used_entries_def)
  then show ?thesis by (cases n) (simp_all add: Let_def)
qed

lemma translate_unlink:
  assumes inv: "pt_inv own pt" and own: "own i = Some (l, p)" and j: "j < 512"
    and e: "xlat_tables pt (i * 512 + j) = table_desc pt k" "k < 256" "used_entries pt k = {}" "l < 3"
    and tabs: "xlat_tables pt' = (xlat_tables pt)(i * 512 + j := 0)"
    and same: "xlat_addr pt' = xlat_addr pt" "base_xlat_table pt' = base_xlat_table pt"
    and path: "unat virt < 2 ^ 48" "on_path pt virt l" "blk virt l = p * 512 + j"
    and va: "unat va < 2 ^ 48"
  shows "translate pt' va = translate pt va"
proof (cases "blk va l = p * 512 + j")
  case False
  then show ?thesis using translate_set_other [OF inv own j tabs same va] by simp
next
  case True
  have on: "on_path pt va l" using on_path_same_block [of va l virt pt] True path e(4) by simp
  note w = walk_set_entry [OF inv own j tabs same va True on]
  have "translate pt' va = None"
    using translate_entry [OF w(1) _ refl] w(2) w(4) [of l] tabs e(4) by simp
  moreover have "translate pt va = None"
    using translate_entry [OF on _ refl] w(2) e table_desc_type [of pt k]
      PteDescTable_table_desc [OF pt_invD(1) [OF inv] e(2)] hw_walk_empty [OF e(3)] by simp
  ultimately show ?thesis by simp
qed

lemma count_bounds:
  assumes "pt_inv own pt" "own i = Some (l, p)"
  shows "0 < unat (xlat_use_count pt i)" "unat (xlat_use_count pt i) \<le> 514"
  using pt_invD(9) [OF assms] card_used_le [of pt i] by (auto split: if_splits)

lemma IsTableUnused_eq:
  assumes "pt_inv own pt" "own i = Some (Suc l, p)" "j < 512"
  shows "IsTableUnused pt (i * 512 + j) = Some (used_entries pt i = {})"
proof -
  define c where "c = unat (xlat_use_count pt i)"
  obtain w where "unat w = nat (int c + 0)"
    "TableUsage pt (i * 512 + j) 0 = Some (unat w, pt\<lparr>xlat_use_count := (xlat_use_count pt)(i := w)\<rparr>)"
    by (rule TableUsage_eq [of i j pt c 0])
       (use assms count_bounds [OF assms(1,2)] pt_invD(3) [OF assms(1,2)] in \<open>auto simp: c_def [symmetric]\<close>)
  moreover have "c = 2 + card (used_entries pt i)" using pt_invD(9) [OF assms(1,2)] by (simp add: c_def)
  ultimately show ?thesis by (simp add: IsTableUnused_def nat_add_distrib)
qed

lemma free_table_step:
  assumes inv: "pt_inv own pt" and virt: "unat virt < 2 ^ 48" "on_path pt virt (Suc l)" "Suc l \<le> 3"
    and own: "own i = Some (Suc l, blk virt l)" and j: "j < 512" and empty: "used_entries pt i = {}"
  obtains pt1 i' p' w where "FreeTable pt (i * 512 + j) = Some pt1"
    "TableUsage (SetPteBlockDesc pt1 (walk_pte pt virt l) 0 l) (walk_pte pt virt l) (- 1) = Some w"
    "pt_inv (own(i := None)) (snd w)" "own i' = Some (l, blk virt l div 512)" "i' \<noteq> i"
    "walk_pte pt virt l = i' * 512 + XLAT_TABLE_VA_IDX virt l"
    "\<And>l'. l' \<le> l \<Longrightarrow> walk_pte (snd w) virt l' = walk_pte pt virt l'" "on_path (snd w) virt l"
    "\<And>va. unat va < 2 ^ 48 \<Longrightarrow> translate (snd w) va = translate pt va"
proof -
  have on: "on_path pt virt l" "xlat_tables pt (walk_pte pt virt l) AND 3 = 3"
    using virt(2) by (auto simp: on_path_Suc)
  have l: "l \<le> 3" "l < 3" using virt(3) by auto
  obtain i' where i': "own i' = Some (l, blk virt l div 512)"
      "walk_pte pt virt l = i' * 512 + XLAT_TABLE_VA_IDX virt l" "i' < 256"
      "entry_ok own pt l (blk virt l) (xlat_tables pt (walk_pte pt virt l))"
    by (rule path_entry [OF inv virt(1) on(1) l(1)])
  obtain k where k: "xlat_tables pt (walk_pte pt virt l) = table_desc pt k" "own k = Some (Suc l, blk virt l)"
    by (rule entry_link [OF inv i'(4) l(2) on(2)])
  have ki: "k = i" using pt_invD(5) [OF inv k(2) own] .
  have ne: "i' \<noteq> i" using i'(1) own by auto
  have cnt: "unat (xlat_use_count pt i) = 2" using pt_invD(9) [OF inv own] empty by simp
  have "i < 256" using pt_invD(3) [OF inv own] .
  define pt1 where "pt1 = pt\<lparr>xlat_use_count := (xlat_use_count pt)(i := 0)\<rparr>"
  have free: "FreeTable pt (i * 512 + j) = Some pt1"
  proof -
    have "xlat_use_count pt i = 2" using cnt by (intro word_unat_eq_iff [THEN iffD2]) simp
    then show ?thesis
      using \<open>i < 256\<close> j by (simp add: FreeTable_def TableIndex_def const_defs pt1_def)
  qed
  define pt2 where "pt2 = SetPteBlockDesc pt1 (walk_pte pt virt l) 0 l"
  let ?j = "XLAT_TABLE_VA_IDX virt l"
  have pt2: "xlat_use_count pt2 = (xlat_use_count pt)(i := 0)"
    "xlat_tables pt2 = (xlat_tables pt)(i' * 512 + ?j := 0)"
    "xlat_addr pt2 = xlat_addr pt" "base_xlat_table pt2 = base_xlat_table pt"
    by (simp_all add: pt2_def pt1_def SetPteBlockDesc_def set_pte_def i'(2))
  have used: "?j \<in> used_entries pt i'"
    using k(1) table_desc_nonzero i'(2) by (auto simp: used_entries_def)
  have used': "card (used_entries pt2 i') = card (used_entries pt i') - 1"
    "0 < card (used_entries pt i')"
    using used used_entries_set [OF pt2(2), of i'] by (auto simp: card_gt_0_iff)
  have c: "unat (xlat_use_count pt2 i') = (if l = 0 then 1 else 2) + card (used_entries pt i')"
    using pt_invD(9) [OF inv i'(1)] pt2(1) ne by simp
  obtain w where w: "unat w = nat (int ((if l = 0 then 1 else 2) + card (used_entries pt i')) + - 1)"
    "TableUsage pt2 (i' * 512 + ?j) (- 1) = Some (unat w, pt2\<lparr>xlat_use_count := (xlat_use_count pt2)(i' := w)\<rparr>)"
    by (rule TableUsage_eq [OF i'(3) _ c, of ?j "- 1"])
       (use used'(2) card_used_le [of pt i'] in \<open>auto split: if_splits\<close>)
  define pt3 where "pt3 = pt2\<lparr>xlat_use_count := (xlat_use_count pt2)(i' := w)\<rparr>"
  have pt3: "xlat_tables pt3 = (xlat_tables pt)(i' * 512 + ?j := 0)"
    "xlat_addr pt3 = xlat_addr pt" "base_xlat_table pt3 = base_xlat_table pt"
    "xlat_use_count pt3 = (xlat_use_count pt)(i := 0, i' := w)"
    using pt2 by (simp_all add: pt3_def)
  have "used_entries pt3 i' = used_entries pt2 i'" by (simp add: pt3_def used_entries_def)
  then have cw: "unat w = (if l = 0 then 1 else 2) + card (used_entries pt3 i')"
    using w(1) used' by (simp split: if_splits)
  have own': "own i = Some (Suc l, blk virt l div 512 * 512 + ?j)" using own blk_split [of virt l] by simp
  have inv3: "pt_inv (own(i := None)) pt3"
    by (rule inv_unlink [OF inv i'(1) own' _ empty pt3(1,2,3,4) cw]) simp
  have same_blk: "blk virt l = blk virt l div 512 * 512 + ?j" by (rule blk_split)
  note ws = walk_set_entry [OF inv i'(1) _ pt3(1,2,3) virt(1) same_blk on(1)]
  have tr: "translate pt3 va = translate pt va" if "unat va < 2 ^ 48" for va
    by (rule translate_unlink [OF inv i'(1) _ _ \<open>i < 256\<close> empty l(2) pt3(1,2,3) virt(1) on(1) same_blk that])
       (use k(1) ki i'(2) in simp_all)
  show ?thesis
    by (rule that [OF free, of "(unat w, pt3)" i'])
       (use w(2) inv3 i' ne ws tr in \<open>simp_all add: pt2_def pt3_def\<close>)
qed

lemma free_unused_ok:
  assumes "pt_inv own pt" "unat virt < 2 ^ 48" "on_path pt virt l" "l \<le> 3"
    "own i = Some (l, blk virt l div 512)" "j < 512" "\<And>l'. l' < l \<Longrightarrow> ptes l' = walk_pte pt virt l'"
  shows "\<exists>pt' own'. free_unused pt ptes (i * 512 + j) l = Some pt' \<and> pt_inv own' pt' \<and>
    (\<forall>va. unat va < 2 ^ 48 \<longrightarrow> translate pt' va = translate pt va)"
  using assms
proof (induction l arbitrary: pt own i j)
  case 0
  then show ?case by auto
next
  case (Suc l)
  show ?case
  proof (cases "used_entries pt i = {}")
    case False
    then show ?thesis using Suc.prems IsTableUnused_eq [OF Suc.prems(1,5,6)] by auto
  next
    case True
    have "own i = Some (Suc l, blk virt l)" using Suc.prems(4,5) blk_Suc [of l virt] by simp
    from free_table_step [OF Suc.prems(1,2,3,4) this Suc.prems(6) True]
    obtain pt1 i' w where *: "FreeTable pt (i * 512 + j) = Some pt1"
      "TableUsage (SetPteBlockDesc pt1 (walk_pte pt virt l) 0 l) (walk_pte pt virt l) (- 1) = Some w"
      "pt_inv (own(i := None)) (snd w)" "own i' = Some (l, blk virt l div 512)" "i' \<noteq> i"
      "walk_pte pt virt l = i' * 512 + XLAT_TABLE_VA_IDX virt l"
      "\<And>l'. l' \<le> l \<Longrightarrow> walk_pte (snd w) virt l' = walk_pte pt virt l'" "on_path (snd w) virt l"
      "\<And>va. unat va < 2 ^ 48 \<Longrightarrow> translate (snd w) va = translate pt va"
      by metis
    have "\<exists>pt' own'. free_unused (snd w) ptes (i' * 512 + XLAT_TABLE_VA_IDX virt l) l = Some pt' \<and>
        pt_inv own' pt' \<and> (\<forall>va. unat va < 2 ^ 48 \<longrightarrow> translate pt' va = translate (snd w) va)"
      by (rule Suc.IH [OF *(3) Suc.prems(2) *(8)]) (use * Suc.prems in auto)
    moreover have "free_unused pt ptes (i * 512 + j) (Suc l) =
        free_unused (snd w) ptes (i' * 512 + XLAT_TABLE_VA_IDX virt l) l"
      using * Suc.prems(7) [of l] IsTableUnused_eq [OF Suc.prems(1,5,6)] True by (cases w) simp
    ultimately show ?thesis using *(9) by auto
  qed
qed

section \<open>Writing a leaf\<close>

lemma IsFreeDesc_eq: "entry_ok own pt l q e \<Longrightarrow> IsFreeDesc e \<longleftrightarrow> e = 0"
  using table_desc_type [of pt] by (auto simp: IsFreeDesc_def entry_ok_def is_leaf_def const_defs
      split: if_splits)

definition leaf_value :: "u64 \<Rightarrow> nat \<Rightarrow> u64" where
  "leaf_value desc l = (if desc = 0 then 0 else desc OR (if l = 3 then 3 else 1))"

lemma SetPteBlockDesc_eq: "SetPteBlockDesc pt pte desc l = set_pte pt pte (leaf_value desc l)"
  by (simp add: SetPteBlockDesc_def leaf_value_def const_defs)

text \<open>The use count after the bookkeeping of \<open>write_leaf\<close> is the count of the new contents.\<close>

lemma write_leaf_counts:
  assumes inv: "pt_inv own pt" and own: "own i = Some (l, p)" and j: "j < 512"
    and e: "e = xlat_tables pt (i * 512 + j)" "e = 0 \<or> is_leaf l e" "desc = 0 \<longrightarrow> e \<noteq> 0"
    and v: "v = 0 \<longleftrightarrow> desc = 0"
  obtains w where
    "(do { (_, pt) \<leftarrow> (if IsFreeDesc e then TableUsage pt (i * 512 + j) 1 else Some (0, pt));
           (_, pt) \<leftarrow> (if desc = 0 then TableUsage pt (i * 512 + j) (- 1) else Some (0, pt)); Some pt })
      = Some (pt\<lparr>xlat_use_count := (xlat_use_count pt)(i := w)\<rparr>)"
    "unat w = (if l = 0 then 1 else 2) +
       card (used_entries (pt\<lparr>xlat_tables := (xlat_tables pt)(i * 512 + j := v)\<rparr>) i)"
proof -
  let ?b = "if l = 0 then 1 else 2 :: nat" let ?u = "used_entries pt i"
  have i: "i < 256" using pt_invD(3) [OF inv own] .
  have c: "unat (xlat_use_count pt i) = ?b + card ?u" using pt_invD(9) [OF inv own] .
  have free: "IsFreeDesc e \<longleftrightarrow> e = 0"
    using IsFreeDesc_eq [OF pt_invD(6) [OF inv own j]] e(1) by simp
  have ju: "j \<in> ?u \<longleftrightarrow> e \<noteq> 0" using j e(1) by (auto simp: used_entries_def)
  have u': "used_entries (pt\<lparr>xlat_tables := (xlat_tables pt)(i * 512 + j := v)\<rparr>) i
      = (if v = 0 then ?u - {j} else insert j ?u)"
    using used_entries_set [of "pt\<lparr>xlat_tables := (xlat_tables pt)(i * 512 + j := v)\<rparr>" pt i j v i] j by simp
  consider "desc \<noteq> 0" "e = 0" | "desc \<noteq> 0" "e \<noteq> 0" | "desc = 0" "e \<noteq> 0" using e(3) by blast
  then show ?thesis
  proof cases
    case 1
    then have card: "card (insert j ?u) = Suc (card ?u)" using ju by simp
    obtain w where "unat w = nat (int (?b + card ?u) + 1)"
      "TableUsage pt (i * 512 + j) 1 = Some (unat w, pt\<lparr>xlat_use_count := (xlat_use_count pt)(i := w)\<rparr>)"
      by (rule TableUsage_eq [OF i j c, of 1]) (use card_used_le [of pt i] in auto)
    then show ?thesis using 1 card v u' free by (intro that [of w]) (simp_all add: nat_add_distrib)
  next
    case 2
    then show ?thesis
      using ju v u' free c by (intro that [of "xlat_use_count pt i"]) (simp_all add: insert_absorb)
  next
    case 3
    then have card: "card ?u = Suc (card (?u - {j}))" using ju by (metis card_Suc_Diff1 finite_used)
    obtain w where "unat w = nat (int (?b + card ?u) + - 1)"
      "TableUsage pt (i * 512 + j) (- 1) = Some (unat w, pt\<lparr>xlat_use_count := (xlat_use_count pt)(i := w)\<rparr>)"
      by (rule TableUsage_eq [OF i j c, of "- 1"]) (use card_used_le [of pt i] card in auto)
    then show ?thesis using 3 card v u' free by (intro that [of w]) (simp_all add: nat_add_distrib)
  qed
qed

lemma write_leaf_eq:
  "write_leaf pt ptes pte l desc = Option.bind
     (do { (_, pt) \<leftarrow> (if IsFreeDesc (xlat_tables pt pte) then TableUsage pt pte 1 else Some (0, pt));
           (_, pt) \<leftarrow> (if desc = 0 then TableUsage pt pte (- 1) else Some (0, pt)); Some pt })
     (\<lambda>pt. free_unused (SetPteBlockDesc pt pte desc l) ptes pte l)"
  by (cases "IsFreeDesc (xlat_tables pt pte)"; cases "desc = 0")
     (simp_all add: write_leaf_def bind_assoc split_def)

lemma write_leaf_ok:
  assumes inv: "pt_inv own pt" and virt: "unat virt < 2 ^ 48" "on_path pt virt l" "l \<le> 3"
    and e: "e = xlat_tables pt (walk_pte pt virt l)" "e = 0 \<or> is_leaf l e" "desc = 0 \<longrightarrow> e \<noteq> 0"
    and v: "desc \<noteq> 0 \<Longrightarrow> is_leaf l (leaf_value desc l)"
    and ptes: "\<And>l'. l' < l \<Longrightarrow> ptes l' = walk_pte pt virt l'"
  shows "\<exists>pt' own'. write_leaf pt ptes (walk_pte pt virt l) l desc = Some pt' \<and> pt_inv own' pt' \<and>
    (\<forall>va. unat va < 2 ^ 48 \<longrightarrow> translate pt' va =
      (if blk va l = blk virt l then (if desc = 0 then None else Some (leaf_out (leaf_value desc l) l va))
       else translate pt va))"
proof -
  let ?j = "XLAT_TABLE_VA_IDX virt l" let ?v = "leaf_value desc l" let ?p = "blk virt l div 512"
  obtain i where i: "own i = Some (l, ?p)" "walk_pte pt virt l = i * 512 + ?j"
    by (rule path_entry [OF inv virt])
  have v0: "?v = 0 \<longleftrightarrow> desc = 0" using v is_leaf_nonzero by (cases "desc = 0") (simp add: leaf_value_def, blast)
  obtain w where w:
    "(do { (_, pt) \<leftarrow> (if IsFreeDesc e then TableUsage pt (i * 512 + ?j) 1 else Some (0, pt));
           (_, pt) \<leftarrow> (if desc = 0 then TableUsage pt (i * 512 + ?j) (- 1) else Some (0, pt)); Some pt })
      = Some (pt\<lparr>xlat_use_count := (xlat_use_count pt)(i := w)\<rparr>)"
    "unat w = (if l = 0 then 1 else 2) +
       card (used_entries (pt\<lparr>xlat_tables := (xlat_tables pt)(i * 512 + ?j := ?v)\<rparr>) i)"
    by (rule write_leaf_counts [OF inv i(1) idx_less _ e(2,3) v0]) (use e(1) i(2) in auto)
  define pt1 where "pt1 = SetPteBlockDesc (pt\<lparr>xlat_use_count := (xlat_use_count pt)(i := w)\<rparr>) (i * 512 + ?j) desc l"
  have pt1: "xlat_tables pt1 = (xlat_tables pt)(i * 512 + ?j := ?v)" "xlat_addr pt1 = xlat_addr pt"
    "base_xlat_table pt1 = base_xlat_table pt" "xlat_use_count pt1 = (xlat_use_count pt)(i := w)"
    by (simp_all add: pt1_def SetPteBlockDesc_eq set_pte_def)
  have "used_entries pt1 i = used_entries (pt\<lparr>xlat_tables := (xlat_tables pt)(i * 512 + ?j := ?v)\<rparr>) i"
    by (simp add: used_entries_def pt1)
  then have inv1: "pt_inv own pt1"
    using inv_set_leaf [OF inv i(1) idx_less _ _ pt1(1,2,3,4)] e v v0 i(2) w(2) by auto
  note ws = walk_set_entry [OF inv i(1) idx_less pt1(1,2,3) virt(1) blk_split virt(2)]
  have wp: "walk_pte pt1 virt l' = walk_pte pt virt l'" if "l' \<le> l" for l' using ws(4) that .
  have "\<exists>pt' own'. free_unused pt1 ptes (i * 512 + ?j) l = Some pt' \<and> pt_inv own' pt' \<and>
      (\<forall>va. unat va < 2 ^ 48 \<longrightarrow> translate pt' va = translate pt1 va)"
    by (rule free_unused_ok [OF inv1 virt(1) ws(1) virt(3) i(1) idx_less]) (use ptes wp in auto)
  then obtain pt' own' where pt': "free_unused pt1 ptes (i * 512 + ?j) l = Some pt'" "pt_inv own' pt'"
    "\<And>va. unat va < 2 ^ 48 \<Longrightarrow> translate pt' va = translate pt1 va" by blast
  have "translate pt1 va = (if blk va l = blk virt l
      then (if desc = 0 then None else Some (leaf_out ?v l va)) else translate pt va)"
    if va: "unat va < 2 ^ 48" for va
  proof (cases "blk va l = blk virt l")
    case False
    then show ?thesis
      using translate_set_other [OF inv i(1) idx_less pt1(1,2,3) va] blk_split [of virt l] by simp
  next
    case True
    have on: "on_path pt1 va l" using on_path_same_block [OF True virt(3)] ws(1) by simp
    have "walk_pte pt1 va l = i * 512 + ?j"
      using walk_same_block(2) [OF True virt(3) order_refl, of pt1] wp [of l] i(2) by simp
    then have "translate pt1 va = (if ?v AND 3 = 3 \<and> l < 3 then hw_walk pt1 va (2 - l) (PteDescTable pt1 ?v)
     else if ?v AND 3 = 3 \<or> ?v AND 3 = 1 \<and> 0 < l \<and> l < 3 then Some (leaf_out ?v l va) else None)"
      using translate_entry [OF on virt(3) refl] pt1(1) by simp
    note tr = this
    show ?thesis
    proof (cases "desc = 0")
      case False
      then have "0 < l" "?v AND 3 = (if l = 3 then 3 else 1)" using v by (simp_all add: is_leaf_def)
      then show ?thesis using tr True False virt(3) by (cases "l = 3") simp_all
    qed (use tr True in \<open>simp add: leaf_value_def\<close>)
  qed
  moreover have "write_leaf pt ptes (walk_pte pt virt l) l desc = Some pt'"
    unfolding write_leaf_eq i(2) e(1) [unfolded i(2), symmetric] w(1) using pt'(1) by (simp add: pt1_def)
  ultimately show ?thesis using pt'(2,3) by auto
qed

end
