(* ===== verification/MmuExpand.thy ===== *)
theory MmuExpand
  imports MmuSteps
begin

text \<open>
  Replacing an entry by a table of the next level: allocation of a table, the split of a block
  into its parts, and that neither changes the translation of any address.
\<close>

section \<open>Splitting a block\<close>

lemma bit_DESC_ATTRS_MASK: "bit DESC_ATTRS_MASK k \<longleftrightarrow> 51 \<le> k \<and> k \<le> 63 \<or> 2 \<le> k \<and> k \<le> 11"
  by (auto simp: DESC_ATTRS_MASK_def bit_or_iff bit_GENMASK_ULL)

definition sub_desc :: "u64 \<Rightarrow> nat \<Rightarrow> nat \<Rightarrow> u64" where
  "sub_desc e l j = (if Suc l = 3 then e OR 3 else e) OR ucast (push_bit (lshift (Suc l)) (of_nat j :: u32))"

lemma bit_idx:
  "bit (of_nat (XLAT_TABLE_VA_IDX va l) :: u32) m \<longleftrightarrow> m < 9 \<and> bit va (lshift l + m)"
proof -
  have "bit (511 :: u64) m \<longleftrightarrow> m < 9"
  proof -
    have "bit (511 :: u64) m = bit (mask 9 :: u64) m" by (simp add: mask_eq_exp_minus_1)
    then show ?thesis by (simp only: bit_mask_iff) auto
  qed
  moreover have "bit (of_nat (unat w) :: u32) m \<longleftrightarrow> m < 32 \<and> bit w m" for w :: u64
  proof -
    have "(of_nat (unat w) :: u32) = ucast w" by simp
    then show ?thesis by (simp only: bit_ucast_iff) (auto dest: bit_imp_le_length)
  qed
  ultimately show ?thesis
    by (auto simp: XLAT_TABLE_VA_IDX_def LN_XLAT_NUM_ENTRIES_def bit_and_iff bit_drop_bit_eq
        simp del: bit_numeral_word_iff)
qed

lemma bit_sub_desc:
  assumes "is_leaf l e" "l < 3" "j = XLAT_TABLE_VA_IDX va (Suc l)"
  shows "bit (sub_desc e l j) k \<longleftrightarrow>
    bit e k \<or> Suc l = 3 \<and> k = 1 \<or> lshift (Suc l) \<le> k \<and> k < lshift l \<and> bit va k"
proof -
  have e0: "bit e 0" using assms(1) by (auto simp: is_leaf_def and_3_bits split: if_splits)
  have ls: "lshift l = lshift (Suc l) + 9" "12 \<le> lshift (Suc l)" "lshift l \<le> 30"
    using assms by (auto simp: lshift_eq is_leaf_def)
  have "bit (ucast (push_bit (lshift (Suc l)) (of_nat j :: u32)) :: u64) k \<longleftrightarrow>
      lshift (Suc l) \<le> k \<and> k < lshift l \<and> bit va k"
    using ls by (auto simp: bit_ucast_iff bit_push_bit_iff assms(3) bit_idx)
  then show ?thesis using e0 by (auto simp: sub_desc_def bit_or_iff bit_3 simp del: bit_numeral_word_iff)
qed

lemma is_leaf_sub:
  assumes "is_leaf l e" "l < 3" "j < 512"
  shows "is_leaf (Suc l) (sub_desc e l j)"
proof -
  define va :: u64 where "va = push_bit (lshift (Suc l)) (of_nat j)"
  have ls: "lshift l = lshift (Suc l) + 9" "12 \<le> lshift (Suc l)" "lshift l \<le> 30"
    using assms by (auto simp: lshift_eq is_leaf_def)
  have "unat va = j * 2 ^ lshift (Suc l)"
  proof -
    have uj: "unat (of_nat j :: u64) = j" using assms(3) by (subst unat_of_nat_64) auto
    have "j * 2 ^ lshift (Suc l) < 2 ^ 9 * 2 ^ lshift (Suc l)" using assms(3) by simp
    also have "\<dots> \<le> 2 ^ 30" unfolding power_add [symmetric] using ls by (intro power_increasing) auto
    finally have "j * 2 ^ lshift (Suc l) < 2 ^ 64" by simp
    then show ?thesis
      unfolding va_def by (simp only: unsigned_push_bit_eq uj)
        (simp add: take_bit_nat_eq_self push_bit_eq_mult)
  qed
  then have "j = XLAT_TABLE_VA_IDX va (Suc l)" using assms(3) by (simp add: idx_eq blk_def)
  note b = bit_sub_desc [OF assms(1,2) this]
  have e: "bit e 0" "\<not> bit e 1" "bit e 10" "\<And>k. 12 \<le> k \<Longrightarrow> k < lshift l \<Longrightarrow> \<not> bit e k"
    using assms(1,2) by (auto simp: is_leaf_def and_3_bits split: if_splits)
  show ?thesis
    unfolding is_leaf_def
  proof (intro conjI allI impI)
    show "sub_desc e l j AND 3 = (if Suc l = 3 then 3 else 1)"
      using b [of 0] b [of 1] e ls by (auto simp: and_3_bits)
    show "bit (sub_desc e l j) 10" using b [of 10] e by simp
    fix k assume "12 \<le> k \<and> k < lshift (Suc l)"
    then show "\<not> bit (sub_desc e l j) k" using b [of k] e(4) [of k] ls by auto
  qed (use assms in auto)
qed

lemma leaf_out_sub:
  assumes "is_leaf l e" "l < 3"
  shows "leaf_out (sub_desc e l (XLAT_TABLE_VA_IDX va (Suc l))) (Suc l) va = leaf_out e l va"
proof -
  note b = bit_sub_desc [OF assms refl, of va]
  have ls: "lshift l = lshift (Suc l) + 9" "12 \<le> lshift (Suc l)" "lshift l \<le> 30"
    using assms by (auto simp: lshift_eq is_leaf_def)
  have e: "\<And>k. 12 \<le> k \<Longrightarrow> k < lshift l \<Longrightarrow> \<not> bit e k" using assms(1) by (simp add: is_leaf_def)
  have "sub_desc e l (XLAT_TABLE_VA_IDX va (Suc l)) AND DESC_ATTRS_MASK = e AND DESC_ATTRS_MASK"
    using ls by (intro bit_word_eqI) (auto simp: bit_and_iff b bit_DESC_ATTRS_MASK)
  moreover have "(sub_desc e l (XLAT_TABLE_VA_IDX va (Suc l)) AND GENMASK_ULL 47 (lshift (Suc l)))
      OR (va AND mask (lshift (Suc l))) = (e AND GENMASK_ULL 47 (lshift l)) OR (va AND mask (lshift l))"
  proof (rule bit_word_eqI)
    fix k
    show "bit ((sub_desc e l (XLAT_TABLE_VA_IDX va (Suc l)) AND GENMASK_ULL 47 (lshift (Suc l)))
        OR (va AND mask (lshift (Suc l)))) k = bit ((e AND GENMASK_ULL 47 (lshift l)) OR (va AND mask (lshift l))) k"
      using ls e [of k]
      by (cases "k < lshift l") (auto simp: bit_and_iff bit_or_iff b bit_GENMASK_ULL bit_mask_iff)
  qed
  ultimately show ?thesis by (simp add: leaf_out_def)
qed

section \<open>Linking a new table\<close>

text \<open>
  \<open>linked pt pt' i j k f\<close>: entry \<open>j\<close> of table \<open>i\<close> now points to table \<open>k\<close>, whose entries are \<open>f\<close>.
\<close>

definition linked :: "ArmMmuPtables \<Rightarrow> ArmMmuPtables \<Rightarrow> nat \<Rightarrow> nat \<Rightarrow> nat \<Rightarrow> (nat \<Rightarrow> u64) \<Rightarrow> bool" where
  "linked pt pt' i j k f \<longleftrightarrow>
     xlat_addr pt' = xlat_addr pt \<and> base_xlat_table pt' = base_xlat_table pt \<and>
     xlat_tables pt' (i * 512 + j) = table_desc pt k \<and>
     (\<forall>j'<512. xlat_tables pt' (k * 512 + j') = f j') \<and>
     (\<forall>i' j'. j' < 512 \<and> i' \<noteq> k \<and> (i', j') \<noteq> (i, j) \<longrightarrow>
        xlat_tables pt' (i' * 512 + j') = xlat_tables pt (i' * 512 + j'))"

lemma linked_used:
  assumes "linked pt pt' i j k f" "j < 512" "i \<noteq> k"
  shows "used_entries pt' k = {j. j < 512 \<and> f j \<noteq> 0}"
    and "used_entries pt' i = insert j (used_entries pt i)"
    and "i' \<noteq> k \<Longrightarrow> i' \<noteq> i \<Longrightarrow> used_entries pt' i' = used_entries pt i'"
proof -
  have d: "table_desc pt k \<noteq> 0" by (rule table_desc_nonzero)
  show "used_entries pt' k = {j. j < 512 \<and> f j \<noteq> 0}"
    using assms(1) by (auto simp: used_entries_def linked_def)
  show "used_entries pt' i = insert j (used_entries pt i)"
  proof (rule set_eqI)
    fix x show "x \<in> used_entries pt' i \<longleftrightarrow> x \<in> insert j (used_entries pt i)"
      using assms d by (cases "x = j") (auto simp: used_entries_def linked_def)
  qed
  show "i' \<noteq> k \<Longrightarrow> i' \<noteq> i \<Longrightarrow> used_entries pt' i' = used_entries pt i'"
    using assms(1) by (auto simp: used_entries_def linked_def)
qed

lemma inv_link:
  assumes inv: "pt_inv own pt" and own: "own i = Some (l, p)" "own k = None" "k < 256" "l < 3"
    and j: "j < 512" and old: "\<not> (xlat_tables pt (i * 512 + j) AND 3 = 3)"
    and link: "linked pt pt' i j k f"
    and f: "\<And>j. j < 512 \<Longrightarrow> f j = 0 \<or> is_leaf (Suc l) (f j)"
    and cnt: "xlat_use_count pt' = (xlat_use_count pt)(k := ck, i := ci)"
      "unat ck = 2 + card (used_entries pt' k)"
      "unat ci = (if l = 0 then 1 else 2) + card (used_entries pt' i)"
  shows "pt_inv (own(k := Some (Suc l, p * 512 + j))) pt'"
proof -
  let ?q = "p * 512 + j" let ?own = "own(k := Some (Suc l, p * 512 + j))"
  have same: "xlat_addr pt' = xlat_addr pt" "base_xlat_table pt' = base_xlat_table pt"
    using link by (auto simp: linked_def)
  have d: "table_desc pt' k = table_desc pt k" for k using same by (simp add: table_desc_def)
  have ik: "i \<noteq> k" using own by auto
  have entry: "xlat_tables pt' (i' * 512 + j') = (if (i', j') = (i, j) then table_desc pt k
      else xlat_tables pt (i' * 512 + j'))" if "j' < 512" "i' \<noteq> k" for i' j'
    using link that by (auto simp: linked_def)
  have fresh: "own k' \<noteq> Some (Suc l, ?q)" for k'
  proof
    assume o: "own k' = Some (Suc l, ?q)"
    obtain i' where "own i' = Some (l, p)" "xlat_tables pt (i' * 512 + j) = table_desc pt k'"
      using pt_invD(10) [OF inv o] j by auto
    then show False using pt_invD(5) [OF inv own(1), of i'] old table_desc_type [of pt k'] by simp
  qed
  show ?thesis
    unfolding pt_inv_def
  proof (intro conjI allI impI)
    show "pool_ok pt'" using pt_invD(1) [OF inv] same by (simp add: pool_ok_def)
    obtain b where "base_xlat_table pt = b * 512" "own b = Some (0, 0)" using pt_invD(2) [OF inv] by auto
    then show "\<exists>b. base_xlat_table pt' = b * 512 \<and> ?own b = Some (0, 0)"
      using own(2) same by (intro exI [of _ b]) auto
    fix i' k' x assume "?own i' = Some x \<and> ?own k' = Some x"
    then show "i' = k'" using pt_invD(5) [OF inv, of i' x k'] fresh by (auto split: if_splits)
  next
    fix i' l' p' assume o: "?own i' = Some (l', p')"
    show "i' < 256" "l' \<le> 3" using o pt_invD(3,4) [OF inv, of i'] own(3,4) by (auto split: if_splits)
    consider "i' = k" | "i' = i" | "i' \<noteq> k" "i' \<noteq> i" by blast
    then show "unat (xlat_use_count pt' i') = (if l' = 0 then 1 else 2) + card (used_entries pt' i')"
    proof cases
      case 1
      then show ?thesis using o cnt ik by auto
    next
      case 2
      then show ?thesis using o cnt ik own(1) by simp
    next
      case 3
      then show ?thesis
        using o pt_invD(9) [OF inv, of i' l' p'] cnt(1) linked_used(3) [OF link j ik, of i'] by simp
    qed
  next
    fix i' l' p' j' :: nat assume o: "?own i' = Some (l', p') \<and> j' < 512"
    show "entry_ok ?own pt' l' (p' * 512 + j') (xlat_tables pt' (i' * 512 + j'))"
    proof (cases "i' = k")
      case True
      then show ?thesis using o f [of j'] link by (auto simp: entry_ok_def linked_def)
    next
      case False
      then have o': "own i' = Some (l', p')" "j' < 512" using o by auto
      have "entry_ok ?own pt' l' (p' * 512 + j') (xlat_tables pt (i' * 512 + j'))"
        using pt_invD(6) [OF inv o'] own(2) unfolding entry_ok_def d by (metis fun_upd_other option.distinct(1))
      moreover have "entry_ok ?own pt' l ?q (table_desc pt k)"
        using own(4) unfolding entry_ok_def d by (metis fun_upd_same)
      ultimately show ?thesis
        using entry [OF o'(2) False] o'(1) own(1) by (cases "(i', j') = (i, j)") auto
    qed
  next
    fix i' :: nat assume "i' < 256" "?own i' = None"
    then show "xlat_use_count pt' i' = 0" "used_entries pt' i' = {}"
      using pt_invD(7,8) [OF inv, of i'] cnt(1) linked_used(3) [OF link j ik, of i'] own(1)
      by (cases "i' = i"; auto split: if_splits)+
  next
    fix k' l' q assume o: "?own k' = Some (Suc l', q)"
    show "\<exists>i. ?own i = Some (l', q div 512) \<and> xlat_tables pt' (i * 512 + q mod 512) = table_desc pt' k'"
    proof (cases "k' = k")
      case True
      then show ?thesis using o own(1) j ik entry [of j i] by (intro exI [of _ i]) (auto simp: d)
    next
      case False
      then obtain i' where i': "own i' = Some (l', q div 512)" "xlat_tables pt (i' * 512 + q mod 512) = table_desc pt k'"
        using pt_invD(10) [OF inv, of k' l' q] o by auto
      then have "(i', q mod 512) \<noteq> (i, j)" "i' \<noteq> k" using old own(2) table_desc_type [of pt k'] by auto
      then show ?thesis using i' entry [of "q mod 512" i'] by (intro exI [of _ i']) (auto simp: d)
    qed
  qed
qed

lemma link_path:
  assumes inv: "pt_inv own pt" and own: "own i = Some (l, p)" "own k = None" "k < 256" "l < 3"
    and j: "j < 512" and link: "linked pt pt' i j k f"
    and va: "unat va < 2 ^ 48" "blk va l = p * 512 + j" "on_path pt va l"
  shows "on_path pt' va (Suc l)" "walk_tab pt' va (Suc l) = k * 512"
    "l' \<le> l \<Longrightarrow> walk_pte pt' va l' = walk_pte pt va l'"
proof -
  have same: "xlat_addr pt' = xlat_addr pt" "base_xlat_table pt' = base_xlat_table pt"
    using link by (auto simp: linked_def)
  have "xlat_tables pt' (walk_pte pt va l') = xlat_tables pt (walk_pte pt va l')" if l': "l' < l" for l'
  proof -
    have "on_path pt va l'" "l' \<le> 3" using va(3) l' own(4) by (auto simp: on_path_def)
    then obtain i' where i': "own i' = Some (l', blk va l' div 512)" "walk_pte pt va l' = i' * 512 + XLAT_TABLE_VA_IDX va l'"
      using path_entry [OF inv va(1)] by metis
    then have "i' \<noteq> k" "i' \<noteq> i" using own(1,2) l' by auto
    then show ?thesis using link i'(2) by (simp add: linked_def)
  qed
  note ag = path_agree [OF same this]
  obtain i' where i': "own i' = Some (l, blk va l div 512)" "walk_pte pt va l = i' * 512 + XLAT_TABLE_VA_IDX va l"
    by (rule path_entry [OF inv va(1,3)]) (use own(4) in auto)
  have "blk va l div 512 = p" "XLAT_TABLE_VA_IDX va l = j" using va(2) j by (simp_all add: idx_eq)
  then have w: "walk_pte pt' va l = i * 512 + j"
    using i' own(1) pt_invD(5) [OF inv own(1), of i'] ag(2) [of l] by simp
  show "l' \<le> l \<Longrightarrow> walk_pte pt' va l' = walk_pte pt va l'" by (rule ag(2))
  have e: "xlat_tables pt' (i * 512 + j) = table_desc pt' k"
    using link by (simp add: linked_def table_desc_def)
  have "pool_ok pt'" using pt_invD(1) [OF inv] same by (simp add: pool_ok_def)
  then show "walk_tab pt' va (Suc l) = k * 512"
    using w e PteDescTable_table_desc [OF _ own(3)] by (simp add: walk_pte_def)
  show "on_path pt' va (Suc l)" using ag(3) va(3) w e table_desc_type by (simp add: on_path_Suc)
qed

lemma translate_link:
  assumes inv: "pt_inv own pt" and own: "own i = Some (l, p)" "own k = None" "k < 256" "l < 3"
    and j: "j < 512" and link: "linked pt pt' i j k f"
    and old: "e = xlat_tables pt (i * 512 + j)"
    and f: "e = 0 \<and> (\<forall>j<512. f j = 0) \<or> is_leaf l e \<and> (\<forall>j<512. f j = sub_desc e l j)"
    and path: "on_path pt virt l" "blk virt l = p * 512 + j"
    and va: "unat va < 2 ^ 48"
  shows "translate pt' va = translate pt va"
proof (cases "blk va l = p * 512 + j")
  case False
  show ?thesis
  proof (rule translate_agree [OF inv _ _ va])
    fix i' l' assume o: "own i' = Some (l', blk va l' div 512)" "l' \<le> 3"
    have "i' \<noteq> k" using o own(2) by auto
    moreover have "(i', XLAT_TABLE_VA_IDX va l') \<noteq> (i, j)"
      using o(1) own(1) False blk_split [of va l] by auto
    ultimately show "xlat_tables pt' (i' * 512 + XLAT_TABLE_VA_IDX va l') = xlat_tables pt (i' * 512 + XLAT_TABLE_VA_IDX va l')"
      using link by (simp add: linked_def)
  qed (use link in \<open>auto simp: linked_def\<close>)
next
  case True
  have l3: "l \<le> 3" "Suc l \<le> 3" using own(4) by auto
  have on: "on_path pt va l" using on_path_same_block [of va l virt pt] True path l3 by simp
  note lp = link_path [OF inv own j link va True on]
  let ?j = "XLAT_TABLE_VA_IDX va (Suc l)"
  have f1: "xlat_tables pt' (walk_pte pt' va (Suc l)) = f ?j"
    using lp(2) link by (simp add: walk_pte_def linked_def)
  obtain i' where i': "own i' = Some (l, blk va l div 512)" "walk_pte pt va l = i' * 512 + XLAT_TABLE_VA_IDX va l"
    by (rule path_entry [OF inv va on l3(1)])
  have "blk va l div 512 = p" "XLAT_TABLE_VA_IDX va l = j" using True j by (simp_all add: idx_eq)
  then have w: "xlat_tables pt (walk_pte pt va l) = e"
    using i' own(1) pt_invD(5) [OF inv own(1), of i'] old by simp
  note te = translate_entry [OF on l3(1) w [symmetric]]
  note te' = translate_entry [OF lp(1) l3(2) f1 [symmetric]]
  from f show ?thesis
  proof
    assume "e = 0 \<and> (\<forall>j<512. f j = 0)"
    then show ?thesis using te te' by simp
  next
    assume a: "is_leaf l e \<and> (\<forall>j<512. f j = sub_desc e l j)"
    then have "translate pt va = Some (leaf_out e l va)" using te own(4) by (simp add: is_leaf_def)
    moreover have fj: "f ?j = sub_desc e l ?j" using a by simp
    moreover have "is_leaf (Suc l) (f ?j)" using a is_leaf_sub [of l e ?j] own(4) fj by simp
    then have "translate pt' va = Some (leaf_out (f ?j) (Suc l) va)"
      using te' by (cases "Suc l = 3") (simp_all add: is_leaf_def)
    ultimately show ?thesis using leaf_out_sub [of l e va] a own(4) by simp
  qed
qed

section \<open>ExpandToTable\<close>

lemma new_table_search_Some:
  "new_table_search pt i n = Some k \<Longrightarrow> i \<le> k \<and> k < i + n \<and> xlat_use_count pt k = 0"
  by (induction n arbitrary: i) (fastforce split: if_splits)+

lemma NewTable_Some:
  assumes "pt_inv own pt" "NewTable pt = (Some tab, pt')"
  obtains k where "tab = k * 512" "k < 256" "own k = None"
    "pt' = pt\<lparr>xlat_use_count := (xlat_use_count pt)(k := 1)\<rparr>"
proof -
  obtain k where k: "new_table_search pt 0 256 = Some k" "tab = k * 512"
    "pt' = pt\<lparr>xlat_use_count := (xlat_use_count pt)(k := 1)\<rparr>"
    using assms(2) by (auto simp: NewTable_def const_defs split: option.splits)
  note s = new_table_search_Some [OF k(1)]
  have "own k = None"
  proof (rule ccontr)
    assume "own k \<noteq> None"
    then obtain l p where "own k = Some (l, p)" by auto
    from count_bounds(1) [OF assms(1) this] show False using s by simp
  qed
  then show ?thesis using that k s by auto
qed

lemma expand_fill_eq:
  "xlat_tables (expand_fill pt (k * 512) desc sh n) x =
     (if k * 512 \<le> x \<and> x < k * 512 + n then desc OR ucast (push_bit sh (of_nat (x - k * 512) :: u32))
      else xlat_tables pt x)"
  "xlat_use_count (expand_fill pt (k * 512) desc sh n) = xlat_use_count pt"
  "xlat_addr (expand_fill pt (k * 512) desc sh n) = xlat_addr pt"
  "base_xlat_table (expand_fill pt (k * 512) desc sh n) = base_xlat_table pt"
  by (induction n) (auto simp: set_pte_def)

lemma SetPteTableDesc_eq:
  "SetPteTableDesc pt pte (k * 512) = set_pte pt pte (table_desc pt k)"
  by (simp add: SetPteTableDesc_def table_desc_def)

lemma ExpandToTable_free:
  assumes "l < 3" "NewTable pt = (Some table, pt1)" "xlat_tables pt1 pte AND 3 = 0"
  shows "ExpandToTable pt pte l = do {
     (_, pt) \<leftarrow> TableUsage pt1 pte 1;
     (_, pt) \<leftarrow> TableUsage (SetPteTableDesc pt pte table) table 1;
     Some (Some table, pt) }"
  using assms by (simp add: ExpandToTable_def const_defs IsFreeDesc_def Let_def)

lemma ExpandToTable_block:
  assumes "l < 3" "NewTable pt = (Some table, pt1)" "xlat_tables pt1 pte = e" "e AND 3 = 1"
  shows "ExpandToTable pt pte l = do {
     (_, pt) \<leftarrow> TableUsage (expand_fill pt1 table (if l + 1 = 3 then e OR 3 else e) (lshift (l + 1)) 512) table 512;
     (_, pt) \<leftarrow> TableUsage (SetPteTableDesc pt pte table) table 1;
     Some (Some table, pt) }"
  using assms by (simp add: ExpandToTable_def const_defs IsFreeDesc_def IsBlockDesc_def Let_def)

text \<open>The two cases of \<open>ExpandToTable\<close> once a table has been found: an empty entry, and a block.\<close>

lemma expand_free:
  assumes inv: "pt_inv own pt" and own: "own i = Some (l, p)" "own k = None" "k < 256" "l < 3"
    and j: "j < 512" and e: "xlat_tables pt (i * 512 + j) = 0"
    and new: "NewTable pt = (Some (k * 512), pt\<lparr>xlat_use_count := (xlat_use_count pt)(k := 1)\<rparr>)"
  shows "\<exists>pt'. ExpandToTable pt (i * 512 + j) l = Some (Some (k * 512), pt') \<and>
    linked pt pt' i j k (\<lambda>_. 0) \<and> pt_inv (own(k := Some (Suc l, p * 512 + j))) pt'"
proof -
  define pt1 where "pt1 = pt\<lparr>xlat_use_count := (xlat_use_count pt)(k := 1)\<rparr>"
  have ik: "i \<noteq> k" using own by auto
  have i: "i < 256" using pt_invD(3) [OF inv own(1)] .
  let ?b = "(if l = 0 then 1 else 2) + card (used_entries pt i)"
  have c: "unat (xlat_use_count pt1 i) = ?b" using pt_invD(9) [OF inv own(1)] ik by (simp add: pt1_def)
  obtain w where w: "unat w = nat (int ?b + 1)"
    "TableUsage pt1 (i * 512 + j) 1 = Some (unat w, pt1\<lparr>xlat_use_count := (xlat_use_count pt1)(i := w)\<rparr>)"
    by (rule TableUsage_eq [OF i j c, of 1]) (use card_used_le [of pt i] in auto)
  define pt2 where "pt2 = SetPteTableDesc (pt1\<lparr>xlat_use_count := (xlat_use_count pt1)(i := w)\<rparr>) (i * 512 + j) (k * 512)"
  have c2: "unat (xlat_use_count pt2 k) = 1" using ik by (simp add: pt2_def SetPteTableDesc_eq set_pte_def pt1_def)
  obtain w' where w': "unat w' = nat (int 1 + 1)"
    "TableUsage pt2 (k * 512 + 0) 1 = Some (unat w', pt2\<lparr>xlat_use_count := (xlat_use_count pt2)(k := w')\<rparr>)"
    by (rule TableUsage_eq [OF own(3) _ c2, of 0 1]) auto
  define pt' where "pt' = pt2\<lparr>xlat_use_count := (xlat_use_count pt2)(k := w')\<rparr>"
  have run: "ExpandToTable pt (i * 512 + j) l = Some (Some (k * 512), pt')"
    using ExpandToTable_free [OF own(4) new [folded pt1_def], of "i * 512 + j"] e w(2) w'(2)
    by (simp add: pt1_def [THEN arg_cong, of xlat_tables] pt2_def [symmetric] pt'_def)
  have "xlat_tables pt (k * 512 + j') = 0" if "j' < 512" for j'
    using pt_invD(8) [OF inv own(3,2)] that by (auto simp: used_entries_def)
  then have link: "linked pt pt' i j k (\<lambda>_. 0)"
    using ik j by (auto simp: linked_def pt'_def pt2_def pt1_def SetPteTableDesc_eq set_pte_def
      entry_index_eq_iff table_desc_def)
  have "j \<notin> used_entries pt i" using e by (simp add: used_entries_def)
  then have u: "card (used_entries pt' i) = Suc (card (used_entries pt i))"
    using linked_used(2) [OF link j ik] by simp
  have u': "used_entries pt' k = {}" using linked_used(1) [OF link j ik] by simp
  have cnt: "xlat_use_count pt' = (xlat_use_count pt)(k := w', i := w)"
    using ik by (auto simp: pt'_def pt2_def pt1_def SetPteTableDesc_eq set_pte_def)
  have "pt_inv (own(k := Some (Suc l, p * 512 + j))) pt'"
    by (rule inv_link [OF inv own j _ link _ cnt]) (use e w(1) w'(1) u u' in \<open>auto simp: nat_add_distrib\<close>)
  then show ?thesis using run link by blast
qed

lemma expand_block:
  assumes inv: "pt_inv own pt" and own: "own i = Some (l, p)" "own k = None" "k < 256" "l < 3"
    and j: "j < 512" and e: "e = xlat_tables pt (i * 512 + j)" "is_leaf l e"
    and new: "NewTable pt = (Some (k * 512), pt\<lparr>xlat_use_count := (xlat_use_count pt)(k := 1)\<rparr>)"
  shows "\<exists>pt'. ExpandToTable pt (i * 512 + j) l = Some (Some (k * 512), pt') \<and>
    linked pt pt' i j k (sub_desc e l) \<and> pt_inv (own(k := Some (Suc l, p * 512 + j))) pt'"
proof -
  define pt1 where "pt1 = expand_fill (pt\<lparr>xlat_use_count := (xlat_use_count pt)(k := 1)\<rparr>) (k * 512)
    (if l + 1 = 3 then e OR 3 else e) (lshift (l + 1)) 512"
  have ik: "i \<noteq> k" using own by auto
  have ty: "e AND 3 = 1" using is_leaf_not_link [OF e(2) own(4)] .
  have c1: "unat (xlat_use_count pt1 k) = 1" by (simp add: pt1_def expand_fill_eq)
  obtain w where w: "unat w = nat (int 1 + 512)"
    "TableUsage pt1 (k * 512 + 0) 512 = Some (unat w, pt1\<lparr>xlat_use_count := (xlat_use_count pt1)(k := w)\<rparr>)"
    by (rule TableUsage_eq [OF own(3) _ c1, of 0 512]) auto
  define pt2 where "pt2 = SetPteTableDesc (pt1\<lparr>xlat_use_count := (xlat_use_count pt1)(k := w)\<rparr>) (i * 512 + j) (k * 512)"
  have c2: "unat (xlat_use_count pt2 k) = 513" using w(1) by (simp add: pt2_def SetPteTableDesc_eq set_pte_def)
  obtain w' where w': "unat w' = nat (int 513 + 1)"
    "TableUsage pt2 (k * 512 + 0) 1 = Some (unat w', pt2\<lparr>xlat_use_count := (xlat_use_count pt2)(k := w')\<rparr>)"
    by (rule TableUsage_eq [OF own(3) _ c2, of 0 1]) auto
  define pt' where "pt' = pt2\<lparr>xlat_use_count := (xlat_use_count pt2)(k := w')\<rparr>"
  have run: "ExpandToTable pt (i * 512 + j) l = Some (Some (k * 512), pt')"
    unfolding ExpandToTable_block [OF own(4) new _ ty, of "i * 512 + j", simplified, OF e(1) [symmetric]]
    using w(2) w'(2) by (simp add: pt1_def [simplified, symmetric] pt2_def [symmetric] pt'_def)
  have sub: "xlat_tables pt1 x = (if k * 512 \<le> x \<and> x < k * 512 + 512 then sub_desc e l (x - k * 512) else xlat_tables pt x)" for x
    by (simp add: pt1_def expand_fill_eq sub_desc_def)
  have out: "\<not> (k * 512 \<le> i' * 512 + j' \<and> i' * 512 + j' < k * 512 + 512)" if "j' < 512" "i' \<noteq> k" for i' j' :: nat
    using that by linarith
  have tabs': "xlat_tables pt' = (xlat_tables pt1)(i * 512 + j := table_desc pt k)" "xlat_addr pt' = xlat_addr pt"
    "base_xlat_table pt' = base_xlat_table pt"
    by (simp_all add: pt'_def pt2_def SetPteTableDesc_eq set_pte_def table_desc_def pt1_def expand_fill_eq)
  have link: "linked pt pt' i j k (sub_desc e l)"
    unfolding linked_def tabs' using ik j out [of _ i] out by (auto simp: sub entry_index_eq_iff)
  have "j \<in> used_entries pt i" using e j is_leaf_nonzero by (auto simp: used_entries_def)
  then have u: "used_entries pt' i = used_entries pt i"
    using linked_used(2) [OF link j ik] by auto
  have nz: "sub_desc e l x \<noteq> 0" if "x < 512" for x
    using is_leaf_nonzero is_leaf_sub [OF e(2) own(4) that] by blast
  have "used_entries pt' k = {..<512}" using linked_used(1) [OF link j ik] nz by auto
  then have u': "card (used_entries pt' k) = 512" by simp
  have cnt: "xlat_use_count pt' = (xlat_use_count pt)(k := w', i := xlat_use_count pt i)"
    using ik by (auto simp: pt'_def pt2_def pt1_def SetPteTableDesc_eq set_pte_def expand_fill_eq)
  have "pt_inv (own(k := Some (Suc l, p * 512 + j))) pt'"
    by (rule inv_link [OF inv own j _ link _ cnt])
       (use ty e is_leaf_sub [OF e(2) own(4)] w'(1) u u' pt_invD(9) [OF inv own(1)] in auto)
  then show ?thesis using run link by blast
qed

text \<open>
  \<open>ExpandToTable\<close> at the position of an address: it fails cleanly when no table is left, and
  otherwise the address goes one level down and nothing else changes.
\<close>

lemma ExpandToTable_ok:
  assumes inv: "pt_inv own pt" and virt: "unat virt < 2 ^ 48" "on_path pt virt l" "l < 3"
    and e: "e = xlat_tables pt (walk_pte pt virt l)" "e = 0 \<or> is_leaf l e"
  shows "ExpandToTable pt (walk_pte pt virt l) l = Some (None, pt) \<or>
    (\<exists>pt' own'. ExpandToTable pt (walk_pte pt virt l) l = Some (Some (walk_tab pt' virt (Suc l)), pt') \<and>
      pt_inv own' pt' \<and> on_path pt' virt (Suc l) \<and>
      (\<forall>l'\<le>l. walk_pte pt' virt l' = walk_pte pt virt l') \<and>
      (\<forall>va. unat va < 2 ^ 48 \<longrightarrow> translate pt' va = translate pt va))"
proof (cases "NewTable pt")
  case (Pair tab pt1)
  show ?thesis
  proof (cases tab)
    case None
    then show ?thesis
      using Pair virt(3) by (auto simp: ExpandToTable_def const_defs NewTable_def split: option.splits)
  next
    case (Some tb)
    let ?j = "XLAT_TABLE_VA_IDX virt l" let ?p = "blk virt l div 512"
    have l3: "l \<le> 3" using virt(3) by simp
    obtain i where i: "own i = Some (l, ?p)" "walk_pte pt virt l = i * 512 + ?j"
      by (rule path_entry [OF inv virt(1,2) l3])
    obtain k where k: "tb = k * 512" "k < 256" "own k = None"
        "pt1 = pt\<lparr>xlat_use_count := (xlat_use_count pt)(k := 1)\<rparr>"
      using NewTable_Some [OF inv] Pair Some by metis
    have new: "NewTable pt = (Some (k * 512), pt\<lparr>xlat_use_count := (xlat_use_count pt)(k := 1)\<rparr>)"
      using Pair Some k by simp
    have e': "e = xlat_tables pt (i * 512 + ?j)" using e(1) i(2) by simp
    obtain pt' f where pt': "ExpandToTable pt (i * 512 + ?j) l = Some (Some (k * 512), pt')"
        "linked pt pt' i ?j k f" "pt_inv (own(k := Some (Suc l, ?p * 512 + ?j))) pt'"
        "e = 0 \<and> (\<forall>j<512. f j = 0) \<or> is_leaf l e \<and> (\<forall>j<512. f j = sub_desc e l j)"
      using e(2) expand_free [OF inv i(1) k(3,2) virt(3) idx_less _ new, of virt l]
        expand_block [OF inv i(1) k(3,2) virt(3) idx_less e' _ new] e' by metis
    note lp = link_path [OF inv i(1) k(3,2) virt(3) idx_less pt'(2) virt(1) blk_split virt(2)]
    have "translate pt' va = translate pt va" if "unat va < 2 ^ 48" for va
      by (rule translate_link [OF inv i(1) k(3,2) virt(3) idx_less pt'(2) e' pt'(4) virt(2) blk_split that])
    then show ?thesis using pt'(1,3) lp i(2) by auto
  qed
qed

end
