(* ===== verification/MmuMapping.thy ===== *)
theory MmuMapping
  imports MmuExpand
begin

text \<open>
  Correctness of \<open>SetMapping\<close> against the table walk: which addresses a call changes, to what,
  and what it leaves when it fails.
\<close>

section \<open>Descriptors as an address and attributes\<close>

definition desc_pa :: "u64 \<Rightarrow> u64" where "desc_pa desc = desc AND GENMASK_ULL 47 12"

text \<open>What a range mapped with a descriptor translates an address to; the descriptor 0 unmaps.\<close>

definition target :: "u64 \<Rightarrow> u64 \<Rightarrow> u64 \<Rightarrow> (u64 \<times> u64) option" where
  "target desc virt va =
     (if desc = 0 then None else Some (desc_pa desc + (va - virt), desc AND DESC_ATTRS_MASK))"

definition desc_wf :: "u64 \<Rightarrow> bool" where
  "desc_wf desc \<longleftrightarrow> desc = 0 \<or>
     \<not> bit desc 0 \<and> \<not> bit desc 1 \<and> bit desc 10"

lemma bit_desc_pa: "bit (desc_pa desc) k \<longleftrightarrow> bit desc k \<and> 12 \<le> k \<and> k \<le> 47"
  by (auto simp: desc_pa_def bit_and_iff bit_GENMASK_ULL)

lemma desc_add:
  assumes "unat ls mod 4096 = 0" "unat (desc_pa desc) + unat ls < 2 ^ 48"
  shows "desc_pa (desc + ls) = desc_pa desc + ls"
    and "bit (desc + ls) k \<longleftrightarrow> (if 12 \<le> k \<and> k \<le> 47 then bit (desc_pa desc + ls) k else bit desc k)"
proof -
  let ?m = "GENMASK_ULL 47 12" let ?a = "desc AND NOT ?m" let ?p = "desc_pa desc + ls"
  have up: "unat ?p = unat (desc_pa desc) + unat ls"
    using assms(2) by (simp add: unat_word_ariths(1))
  have al: "unat (desc_pa desc) mod 4096 = 0"
    using aligned_bits [of "desc_pa desc" 12] by (simp add: bit_desc_pa)
  have pal: "unat ?p mod 2 ^ 12 = 0" unfolding up using al assms(1) by auto
  have lo: "\<not> bit ?p k" if "k < 12" for k using iffD1 [OF aligned_bits pal] that by simp
  have hi: "\<not> bit ?p k" if "48 \<le> k" for k using high_bits [of ?p 48 k] that assms(2) up by simp
  have split: "desc = ?a + desc_pa desc"
  proof -
    have "?a + desc_pa desc = ?a OR desc_pa desc"
      by (rule disjunctive_add) (auto simp: bit_desc_pa bit_and_iff bit_not_iff bit_GENMASK_ULL)
    also have "\<dots> = desc"
      by (rule bit_word_eqI) (auto simp: bit_desc_pa bit_or_iff bit_and_iff bit_not_iff bit_GENMASK_ULL)
    finally show ?thesis by simp
  qed
  have "desc + ls = ?a + ?p" using split by (metis add.assoc)
  also have "\<dots> = ?a OR ?p"
    by (rule disjunctive_add) (use lo hi in \<open>auto simp: bit_and_iff bit_not_iff bit_GENMASK_ULL not_le\<close>)
  finally have eq: "desc + ls = ?a OR ?p" .
  show b: "bit (desc + ls) k \<longleftrightarrow> (if 12 \<le> k \<and> k \<le> 47 then bit ?p k else bit desc k)" for k
    unfolding eq using lo [of k] hi [of k] bit_imp_le_length [of desc k]
    by (auto simp: bit_or_iff bit_and_iff bit_not_iff bit_GENMASK_ULL not_le)
  show "desc_pa (desc + ls) = ?p"
  proof (rule bit_word_eqI)
    fix n show "bit (desc_pa (desc + ls)) n = bit ?p n"
      using lo [of n] hi [of n] by (cases "n < 12"; cases "48 \<le> n") (simp_all add: bit_desc_pa b)
  qed
qed

lemma desc_wf_add:
  assumes "desc_wf desc" "desc \<noteq> 0" "unat ls mod 4096 = 0" "unat (desc_pa desc) + unat ls < 2 ^ 48"
  shows "desc_wf (desc + ls)" "desc + ls \<noteq> 0" "target (desc + ls) (virt + ls) = target desc virt"
proof -
  note b = desc_add [OF assms(3,4)]
  have wf: "\<not> bit (desc + ls) 0" "\<not> bit (desc + ls) 1" "bit (desc + ls) 10"
    using assms(1,2) by (auto simp: b(2) desc_wf_def)
  show "desc_wf (desc + ls)" using wf by (simp add: desc_wf_def)
  show nz: "desc + ls \<noteq> 0" using wf(3) by auto
  have "(desc + ls) AND DESC_ATTRS_MASK = desc AND DESC_ATTRS_MASK"
    by (rule bit_word_eqI) (auto simp: bit_and_iff b(2) bit_DESC_ATTRS_MASK)
  then show "target (desc + ls) (virt + ls) = target desc virt"
    using nz assms(2) by (intro ext) (simp add: target_def b(1))
qed

text \<open>A leaf that agrees with a descriptor translates as the descriptor does.\<close>

lemma IsDescSuperset_bits:
  assumes "IsDescSuperset e desc l" "l \<le> 3"
    "51 \<le> k \<and> k \<le> 63 \<or> 2 \<le> k \<and> k \<le> 11 \<or> lshift l \<le> k \<and> k \<le> 47"
  shows "bit e k = bit desc k"
proof -
  let ?m = "DESC_ATTRS_MASK OR GENMASK_ULL 47 (lshift l)"
  have "bit (e AND ?m) k = bit (desc AND ?m) k" using assms(1) by (simp add: IsDescSuperset_def Let_def)
  then show ?thesis using assms(3) by (auto simp: bit_and_iff bit_or_iff bit_DESC_ATTRS_MASK bit_GENMASK_ULL)
qed

lemma leaf_out_superset:
  assumes "IsDescSuperset e desc l" "l \<le> 3"
  shows "leaf_out e l va = leaf_out desc l va"
proof -
  note b = IsDescSuperset_bits [OF assms]
  have "e AND GENMASK_ULL 47 (lshift l) = desc AND GENMASK_ULL 47 (lshift l)"
    by (rule bit_word_eqI) (use b in \<open>auto simp: bit_and_iff bit_GENMASK_ULL\<close>)
  moreover have "e AND DESC_ATTRS_MASK = desc AND DESC_ATTRS_MASK"
    by (rule bit_word_eqI) (use b in \<open>auto simp: bit_and_iff bit_DESC_ATTRS_MASK\<close>)
  ultimately show ?thesis by (simp add: leaf_out_def)
qed

lemma leaf_value_superset: "l \<le> 3 \<Longrightarrow> IsDescSuperset (leaf_value desc l) desc l"
proof -
  assume "l \<le> 3"
  have "leaf_value desc l AND (DESC_ATTRS_MASK OR GENMASK_ULL 47 (lshift l))
      = desc AND (DESC_ATTRS_MASK OR GENMASK_ULL 47 (lshift l))"
  proof (rule bit_word_eqI)
    fix k
    have "12 \<le> lshift l" by (simp add: lshift_eq)
    then show "bit (leaf_value desc l AND (DESC_ATTRS_MASK OR GENMASK_ULL 47 (lshift l))) k
        = bit (desc AND (DESC_ATTRS_MASK OR GENMASK_ULL 47 (lshift l))) k"
      by (auto simp: leaf_value_def bit_and_iff bit_or_iff bit_DESC_ATTRS_MASK bit_GENMASK_ULL bit_3 bit_1_iff
          simp del: bit_numeral_word_iff)
  qed
  then show ?thesis by (simp add: IsDescSuperset_def Let_def)
qed

lemma blk_eq_drop: "blk va l = blk virt l \<longleftrightarrow> drop_bit (lshift l) va = drop_bit (lshift l) virt"
  unfolding blk_def word_unat_eq_iff unat_drop_bit_eq by (simp add: drop_bit_eq_div)

lemma leaf_out_target:
  assumes "desc \<noteq> 0" "l \<le> 3" "blk va l = blk virt l"
    "take_bit (lshift l) (desc_pa desc) = take_bit (lshift l) virt"
  shows "Some (leaf_out desc l va) = target desc virt va"
proof -
  let ?s = "lshift l" let ?p = "desc_pa desc"
  have s: "12 \<le> ?s" by (simp add: lshift_eq)
  have "(desc AND GENMASK_ULL 47 ?s) OR (va AND mask ?s) = push_bit ?s (drop_bit ?s ?p) OR take_bit ?s va"
    by (rule bit_word_eqI)
       (use s in \<open>auto simp: bit_or_iff bit_and_iff bit_GENMASK_ULL bit_mask_iff bit_take_bit_iff
          bit_push_bit_iff bit_drop_bit_eq bit_desc_pa\<close>)
  also have "\<dots> = push_bit ?s (drop_bit ?s ?p) + take_bit ?s va"
    by (rule disjunctive_add [symmetric]) (auto simp: bit_take_bit_iff bit_push_bit_iff)
  also have "\<dots> = ?p - take_bit ?s virt + take_bit ?s va"
    using bits_ident [of ?s ?p] assms(4) by (metis add_diff_cancel_right')
  also have "\<dots> = ?p + (va - virt)"
  proof -
    have "push_bit ?s (drop_bit ?s virt) + take_bit ?s va = va"
      using bits_ident [of ?s va] assms(3) by (simp add: blk_eq_drop)
    then have "va - virt = take_bit ?s va - take_bit ?s virt"
      using bits_ident [of ?s virt] by (metis add_diff_cancel_left)
    then show ?thesis by simp
  qed
  finally show ?thesis using assms(1) by (simp add: leaf_out_def target_def)
qed

section \<open>Blocks and ranges\<close>

lemma and_block_mask: "w AND (push_bit k 1 - 1) = take_bit k (w :: u64)"
  by (simp add: take_bit_eq_mask mask_eq_exp_minus_1)

lemma unat_take_bit: "unat (take_bit k (w :: u64)) = unat w mod 2 ^ k"
  by (simp only: unsigned_take_bit_eq) (simp add: take_bit_eq_mod)

lemma unat_covered_size:
  assumes "k < 64"
  shows "unat (covered_size virt sz (push_bit k 1)) = min (unat sz) (2 ^ k - unat virt mod 2 ^ k)"
proof -
  have le: "take_bit k virt \<le> push_bit k 1"
    using mask_less_pow2 [OF assms, of virt] by (simp only: and_block_mask less_imp_le)
  have "unat (push_bit k 1 - take_bit k virt) = 2 ^ k - unat virt mod 2 ^ k"
    unfolding unat_sub [OF le] unat_take_bit using unat_pow2 [of k, where 'a = 64] assms by simp
  then show ?thesis
    unfolding covered_size_def Let_def and_block_mask by (simp add: word_less_nat_alt min_def)
qed

lemma FMmuBlcokAligned_iff:
  assumes "s < 32" "12 \<le> s"
  shows "FMmuBlcokAligned desc (ucast (push_bit s (1 :: u64))) \<longleftrightarrow> take_bit s (desc_pa desc) = 0"
proof -
  have "(ucast (push_bit s (1 :: u64)) :: u32) = push_bit s 1"
    using assms(1) by (intro bit_word_eqI) (auto simp: bit_ucast_iff bit_push_bit_iff bit_1_iff
      simp del: push_bit_of_1)
  then have "ucast (ucast (push_bit s (1 :: u64)) - 1 :: u32) = (mask s :: u64)"
    using assms(1) by (intro bit_word_eqI)
      (auto simp: bit_ucast_iff mask_eq_exp_minus_1 [symmetric] bit_mask_iff)
  then show ?thesis by (simp add: FMmuBlcokAligned_def const_defs desc_pa_def take_bit_eq_mask)
qed

definition in_range :: "u64 \<Rightarrow> u64 \<Rightarrow> u64 \<Rightarrow> bool" where
  "in_range virt sz va \<longleftrightarrow> unat virt \<le> unat va \<and> unat va < unat virt + unat sz"

lemma in_range_block:
  assumes "unat virt mod 2 ^ lshift l = 0" "unat ls = 2 ^ lshift l"
  shows "in_range virt ls va \<longleftrightarrow> blk va l = blk virt l"
proof -
  define m where "m = (2 :: nat) ^ lshift l"
  have m: "0 < m" by (simp add: m_def)
  obtain q where q: "unat virt = q * m" using assms(1) by (auto simp: m_def mod_eq_0_iff_dvd dvd_def)
  have "q * m \<le> x \<and> x < q * m + m \<longleftrightarrow> x div m = q" for x
    using m by (metis add.commute div_nat_eqI dividend_less_times_div div_times_less_eq_dividend mult.commute mult_Suc)
  then show ?thesis using q assms(2) m by (simp add: in_range_def blk_def m_def [symmetric])
qed

lemma in_range_within_block:
  assumes "in_range virt ls va" "unat ls \<le> 2 ^ lshift l - unat virt mod 2 ^ lshift l"
  shows "blk va l = blk virt l"
proof -
  define m where "m = (2 :: nat) ^ lshift l"
  have m: "0 < m" by (simp add: m_def)
  have "unat virt div m * m \<le> unat va" "unat va < Suc (unat virt div m) * m"
  proof -
    obtain q r where qr: "unat virt = q * m + r" "r < m" "q = unat virt div m" "r = unat virt mod m"
      using m by simp
    show "unat virt div m * m \<le> unat va" "unat va < Suc (unat virt div m) * m"
      using assms unfolding in_range_def m_def [symmetric] qr(3,4) [symmetric] qr(1) using qr(2) by auto
  qed
  then have "unat va div m = unat virt div m" using m by (simp add: div_nat_eqI mult.commute)
  then show ?thesis by (simp add: blk_def m_def)
qed

lemma in_range_split:
  assumes "unat ls \<le> unat sz" "unat virt + unat sz \<le> 2 ^ 48"
  shows "unat (virt + ls) = unat virt + unat ls" "unat (sz - ls) = unat sz - unat ls"
    "in_range virt sz va \<longleftrightarrow> in_range virt ls va \<or> in_range (virt + ls) (sz - ls) va"
    "\<not> (in_range virt ls va \<and> in_range (virt + ls) (sz - ls) va)"
proof -
  show a: "unat (virt + ls) = unat virt + unat ls" using assms by (simp add: unat_word_ariths(1))
  show b: "unat (sz - ls) = unat sz - unat ls" using assms by (simp add: unat_sub word_le_nat_alt)
  show "in_range virt sz va \<longleftrightarrow> in_range virt ls va \<or> in_range (virt + ls) (sz - ls) va"
    "\<not> (in_range virt ls va \<and> in_range (virt + ls) (sz - ls) va)"
    using assms(1) by (auto simp: in_range_def a b)
qed

section \<open>The loop of SetMapping\<close>

text \<open>
  What a call has done when it returns: outside the range nothing changed; an address of the
  range is unchanged or translates as asked, and on success it translates as asked; when overwriting was not allowed, no address that was
  mapped has changed, and the call is refused only if some address of the range was mapped.
\<close>

definition map_post :: "ArmMmuPtables \<Rightarrow> u64 \<Rightarrow> u64 \<Rightarrow> u64 \<Rightarrow> bool \<Rightarrow> int \<Rightarrow> ArmMmuPtables \<Rightarrow> bool" where
  "map_post pt virt sz desc may_overwrite ret pt' \<longleftrightarrow>
     ret \<in> {0, - EBUSY, - ENOMEM} \<and>
     (\<forall>va. unat va < 2 ^ 48 \<and> \<not> in_range virt sz va \<longrightarrow> translate pt' va = translate pt va) \<and>
     (\<forall>va. unat va < 2 ^ 48 \<and> in_range virt sz va \<longrightarrow>
        translate pt' va = translate pt va \<or> translate pt' va = target desc virt va) \<and>
     (ret = 0 \<longrightarrow> (\<forall>va. unat va < 2 ^ 48 \<and> in_range virt sz va \<longrightarrow> translate pt' va = target desc virt va)) \<and>
     (ret = - EBUSY \<longrightarrow> \<not> may_overwrite \<and>
        (\<exists>va. unat va < 2 ^ 48 \<and> in_range virt sz va \<and> translate pt va \<noteq> None)) \<and>
     (\<not> may_overwrite \<longrightarrow>
        (\<forall>va. unat va < 2 ^ 48 \<and> translate pt va \<noteq> None \<longrightarrow> translate pt' va = translate pt va))"

lemma map_post_same:
  assumes "map_post pt1 virt sz desc may ret pt'" "\<And>va. unat va < 2 ^ 48 \<Longrightarrow> translate pt1 va = translate pt va"
  shows "map_post pt virt sz desc may ret pt'"
  using assms unfolding map_post_def by auto

text \<open>A first part of the range done, then the rest.\<close>

lemma map_post_compose:
  assumes rest: "map_post pt1 (virt + ls) (sz - ls) desc' may ret pt'"
    and out: "\<And>va. unat va < 2 ^ 48 \<Longrightarrow> \<not> in_range virt ls va \<Longrightarrow> translate pt1 va = translate pt va"
    and inr: "\<And>va. unat va < 2 ^ 48 \<Longrightarrow> in_range virt ls va \<Longrightarrow> translate pt1 va = target desc virt va"
    and keep: "\<And>va. \<not> may \<Longrightarrow> unat va < 2 ^ 48 \<Longrightarrow> in_range virt ls va \<Longrightarrow> translate pt va \<noteq> None
        \<Longrightarrow> translate pt1 va = translate pt va"
    and tgt: "sz - ls \<noteq> 0 \<Longrightarrow> target desc' (virt + ls) = target desc virt"
    and ls: "unat ls \<le> unat sz" "unat virt + unat sz \<le> 2 ^ 48"
  shows "map_post pt virt sz desc may ret pt'"
proof -
  note sp = in_range_split [OF ls]
  have tgt': "target desc' (virt + ls) va = target desc virt va" if "in_range (virt + ls) (sz - ls) va" for va
    using tgt that by (cases "sz - ls = 0") (auto simp: in_range_def)
  have keep': "translate pt1 va = translate pt va"
    if "\<not> may" "unat va < 2 ^ 48" "translate pt va \<noteq> None" for va
    using that out keep by (cases "in_range virt ls va") auto
  show ?thesis
    unfolding map_post_def
  proof (intro conjI impI allI)
    show "ret \<in> {0, - EBUSY, - ENOMEM}" using rest by (simp add: map_post_def)
    fix va assume "unat va < 2 ^ 48 \<and> \<not> in_range virt sz va"
    then show "translate pt' va = translate pt va"
      using rest out sp(3) unfolding map_post_def by metis
  next
    fix va assume "unat va < 2 ^ 48 \<and> in_range virt sz va"
    then show "translate pt' va = translate pt va \<or> translate pt' va = target desc virt va"
      using rest out inr tgt' sp(3,4) [of va] unfolding map_post_def by metis
  next
    fix va assume r: "ret = 0" and va: "unat va < 2 ^ 48 \<and> in_range virt sz va"
    then show "translate pt' va = target desc virt va"
      using rest inr tgt' sp(3,4) [of va] unfolding map_post_def by metis
  next
    assume "ret = - EBUSY"
    then show "\<not> may" using rest by (simp add: map_post_def)
    obtain va where "unat va < 2 ^ 48" "in_range (virt + ls) (sz - ls) va" "translate pt1 va \<noteq> None"
      using rest \<open>ret = - EBUSY\<close> unfolding map_post_def by blast
    then show "\<exists>va. unat va < 2 ^ 48 \<and> in_range virt sz va \<and> translate pt va \<noteq> None"
      using out sp(3,4) by metis
  next
    fix va assume "\<not> may" "unat va < 2 ^ 48 \<and> translate pt va \<noteq> None"
    then show "translate pt' va = translate pt va" using rest keep' unfolding map_post_def by metis
  qed
qed

text \<open>The conditions under which the loop is entered, apart from the tables.\<close>

definition request_ok :: "u64 \<Rightarrow> u64 \<Rightarrow> u64 \<Rightarrow> bool \<Rightarrow> bool" where
  "request_ok virt sz desc may \<longleftrightarrow>
     unat virt mod 4096 = 0 \<and> unat sz mod 4096 = 0 \<and> unat virt + unat sz \<le> 2 ^ 48 \<and> unat sz < 2 ^ 39 \<and>
     desc_wf desc \<and>
     (desc \<noteq> 0 \<longrightarrow> unat (desc_pa desc) + unat sz \<le> 2 ^ 48) \<and>
     (desc = 0 \<or> \<not> may \<or> unat (desc_pa desc) mod 2 ^ 30 = unat virt mod 2 ^ 30)"

lemma mod_4096_add_sub:
  "(a :: nat) mod 4096 = 0 \<Longrightarrow> b mod 4096 = 0 \<Longrightarrow> (a + b) mod 4096 = 0 \<and> (a - b) mod 4096 = 0"
  by (simp add: mod_eq_0_iff_dvd)

lemma request_advance:
  assumes "request_ok virt sz desc may" "unat ls \<le> unat sz" "unat ls mod 4096 = 0" "sz - ls \<noteq> 0"
    "desc' = (if desc \<noteq> 0 then desc + ls else desc)"
  shows "request_ok (virt + ls) (sz - ls) desc' may" "target desc' (virt + ls) = target desc virt"
proof -
  have r: "unat virt + unat sz \<le> 2 ^ 48" using assms(1) by (simp add: request_ok_def)
  note sp = in_range_split(1,2) [OF assms(2) r]
  have lt: "unat ls < unat sz"
  proof (rule ccontr)
    assume "\<not> unat ls < unat sz"
    then have "unat (sz - ls) = 0" using sp by simp
    then show False using assms(4) by (simp add: unat_eq_zero)
  qed
  note m = mod_4096_add_sub [of "unat virt" "unat ls"] mod_4096_add_sub [of "unat sz" "unat ls"]
  have "request_ok (virt + ls) (sz - ls) desc' may \<and> target desc' (virt + ls) = target desc virt"
  proof (cases "desc = 0")
    case True
    then show ?thesis
      using assms m lt by (auto simp: request_ok_def sp target_def fun_eq_iff)
  next
    case False
    then have p: "unat (desc_pa desc) + unat ls < 2 ^ 48"
      using assms(1) lt by (auto simp: request_ok_def)
    have wf: "desc_wf desc" using assms(1) by (simp add: request_ok_def)
    note w = desc_wf_add [OF wf False assms(3) p]
    have pa: "unat (desc_pa (desc + ls)) = unat (desc_pa desc) + unat ls"
      using desc_add(1) [OF assms(3) p] p by (simp add: unat_word_ariths(1))
    have "(unat (desc_pa desc) + unat ls) mod 2 ^ 30 = (unat virt + unat ls) mod 2 ^ 30"
      if "unat (desc_pa desc) mod 2 ^ 30 = unat virt mod 2 ^ 30"
      using that by (metis mod_add_left_eq)
    then show ?thesis
      using assms m lt w False by (auto simp: request_ok_def sp pa)
  qed
  then show "request_ok (virt + ls) (sz - ls) desc' may" "target desc' (virt + ls) = target desc virt" by auto
qed

text \<open>The entry an address is at, when it is not a link.\<close>

lemma translate_leaf_or_free:
  assumes "on_path pt va l" "l \<le> 3" "e = xlat_tables pt (walk_pte pt va l)" "e = 0 \<or> is_leaf l e"
  shows "translate pt va = (if e = 0 then None else Some (leaf_out e l va))"
proof (cases "e = 0")
  case True
  then show ?thesis using translate_entry [OF assms(1,2,3)] by simp
next
  case False
  then have "0 < l" "e AND 3 = (if l = 3 then 3 else 1)" using assms(4) by (auto simp: is_leaf_def)
  then show ?thesis using translate_entry [OF assms(1,2,3)] False assms(2) by (cases "l = 3") simp_all
qed

lemma dvd_min_block:
  assumes "unat virt mod 4096 = 0" "unat sz mod 4096 = 0"
  shows "min (unat sz) (2 ^ lshift l - unat virt mod 2 ^ lshift l) mod 4096 = 0"
proof -
  have d: "(4096 :: nat) dvd 2 ^ lshift l"
    using le_imp_power_dvd [of 12 "lshift l" "2 :: nat"] by (simp add: lshift_eq)
  then have "4096 dvd unat virt mod 2 ^ lshift l" using assms(1) by (simp add: dvd_mod mod_eq_0_iff_dvd)
  then show ?thesis using d assms(2) by (simp add: min_def mod_eq_0_iff_dvd)
qed

lemma skip_step:
  assumes inv: "pt_inv own pt" and rq: "request_ok virt sz desc may" "sz \<noteq> 0"
    and on: "on_path pt virt l" "l \<le> 3"
    and d: "d = xlat_tables pt (walk_pte pt virt l)" "d = 0 \<or> is_leaf l d" "may \<or> d = 0"
    and sup: "IsDescSuperset d desc l"
    and ls: "ls = covered_size virt sz (push_bit (lshift l) 1)"
  shows "0 < unat ls" "unat ls \<le> unat sz" "unat ls mod 4096 = 0"
    "unat va < 2 ^ 48 \<Longrightarrow> in_range virt ls va \<Longrightarrow> translate pt va = target desc virt va"
proof -
  have s: "lshift l < 64" using level_shift_less [of l] by simp
  note u = unat_covered_size [OF s, of virt sz, folded ls]
  show "0 < unat ls" using covered_size_pos(1) [OF s rq(2), of virt] ls by (simp add: word_less_nat_alt)
  show "unat ls \<le> unat sz" using u by simp
  show "unat ls mod 4096 = 0" using u dvd_min_block [of virt sz l] rq(1) by (simp add: request_ok_def)
  assume va: "unat va < 2 ^ 48" "in_range virt ls va"
  have b: "blk va l = blk virt l" using in_range_within_block [OF va(2)] u by simp
  have on': "on_path pt va l" using on_path_same_block [OF b on(2)] on(1) by simp
  have d': "d = xlat_tables pt (walk_pte pt va l)" using d(1) walk_same_block(2) [OF b on(2) order_refl] by simp
  note tr = translate_leaf_or_free [OF on' on(2) d' d(2)]
  have b10: "bit d 10 = bit desc 10" using IsDescSuperset_bits [OF sup on(2), of 10] by simp
  have wf: "desc_wf desc" using rq(1) by (simp add: request_ok_def)
  show "translate pt va = target desc virt va"
  proof (cases "d = 0")
    case True
    then show ?thesis using tr b10 wf by (auto simp: desc_wf_def target_def)
  next
    case False
    then have leaf: "is_leaf l d" and may using d by auto
    have nz: "desc \<noteq> 0" using leaf b10 by (auto simp: is_leaf_def)
    have "lshift l \<le> 30" using leaf by (auto simp: is_leaf_def lshift_eq)
    then have "unat (desc_pa desc) mod 2 ^ lshift l = unat virt mod 2 ^ lshift l"
      using rq(1) \<open>may\<close> nz mod_mod_cancel [OF le_imp_power_dvd, of "lshift l" 30 _ 2]
      unfolding request_ok_def by metis
    then have "take_bit (lshift l) (desc_pa desc) = take_bit (lshift l) virt"
      by (simp only: word_unat_eq_iff unat_take_bit)
    then show ?thesis
      using tr False leaf_out_superset [OF sup on(2)] leaf_out_target [OF nz on(2) b] by simp
  qed
qed

lemma leaf_value_is_leaf:
  assumes "desc_wf desc" "desc \<noteq> 0" "take_bit (lshift l) (desc_pa desc) = 0" "0 < l" "l \<le> 3"
  shows "is_leaf l (leaf_value desc l)"
proof -
  have d: "\<not> bit desc 0" "\<not> bit desc 1" "bit desc 10" using assms(1,2) by (auto simp: desc_wf_def)
  have b: "bit (leaf_value desc l) k \<longleftrightarrow> bit desc k \<or> k = 0 \<or> l = 3 \<and> k = 1" for k
    using assms(2) by (auto simp: leaf_value_def bit_or_iff bit_3 bit_1_iff simp del: bit_numeral_word_iff)
  have al: "\<not> bit desc k" if "12 \<le> k" "k < lshift l" for k
  proof -
    have "\<not> bit (take_bit (lshift l) (desc_pa desc)) k" using assms(3) by simp
    moreover have "lshift l \<le> 30" using assms(4) by (simp add: lshift_eq)
    ultimately show ?thesis using that by (simp add: bit_take_bit_iff bit_desc_pa)
  qed
  show ?thesis
    unfolding is_leaf_def
  proof (intro conjI allI impI)
    show "leaf_value desc l AND 3 = (if l = 3 then 3 else 1)" using d b [of 0] b [of 1] by (cases "l = 3") (simp_all add: and_3_bits)
    show "bit (leaf_value desc l) 10" using d(3) b [of 10] by simp
    fix k assume "12 \<le> k \<and> k < lshift l"
    then show "\<not> bit (leaf_value desc l) k" using al [of k] b [of k] by auto
  qed (use assms(4,5) in auto)
qed

lemma write_step:
  assumes inv: "pt_inv own pt" and rq: "request_ok virt sz desc may"
    and on: "on_path pt virt l" "l \<le> 3"
    and d: "d = xlat_tables pt (walk_pte pt virt l)" "d = 0 \<or> is_leaf l d" "may \<or> d = 0"
    and sup: "\<not> IsDescSuperset d desc l"
    and ls: "ls = push_bit (lshift l) 1" "\<not> sz < ls" "virt AND (ls - 1) = 0" "FMmuBlcokAligned desc (ucast ls)"
    and ptes: "\<And>l'. l' < l \<Longrightarrow> ptes l' = walk_pte pt virt l'"
  shows "0 < unat ls" "unat ls \<le> unat sz" "unat ls mod 4096 = 0"
    "\<exists>pt1 own1. write_leaf pt ptes (walk_pte pt virt l) l desc = Some pt1 \<and> pt_inv own1 pt1 \<and>
      (\<forall>va. unat va < 2 ^ 48 \<longrightarrow> translate pt1 va = (if in_range virt ls va then target desc virt va else translate pt va)) \<and>
      (\<not> may \<longrightarrow> (\<forall>va. unat va < 2 ^ 48 \<and> in_range virt ls va \<longrightarrow> translate pt va = None))"
proof -
  have uls: "unat ls = 2 ^ lshift l"
    unfolding ls(1) by (rule unat_pow2) (use level_shift_less [of l] in simp)
  show pos: "0 < unat ls" using uls by simp
  show le: "unat ls \<le> unat sz" using ls(2) by (simp add: word_less_nat_alt)
  show "unat ls mod 4096 = 0"
    using uls le_imp_power_dvd [of 12 "lshift l" "2 :: nat"] by (simp add: lshift_eq mod_eq_0_iff_dvd)
  have "0 < unat sz" using pos le by linarith
  have "unat sz < 2 ^ 39" using rq by (simp add: request_ok_def)
  then have "(2 :: nat) ^ lshift l < 2 ^ 39" using le uls by simp
  then have l0: "0 < l" by (auto simp: lshift_eq intro: Suc_leI gr0I)
  have s: "lshift l < 32" "12 \<le> lshift l" using l0 by (auto simp: lshift_eq)
  have vz: "take_bit (lshift l) virt = 0" using ls(3) unfolding ls(1) and_block_mask .
  then have al: "unat virt mod 2 ^ lshift l = 0" by (simp only: take_bit_0_iff)
  have dal: "take_bit (lshift l) (desc_pa desc) = 0"
    using ls(4) FMmuBlcokAligned_iff [OF s] unfolding ls(1) by blast
  have v48: "unat virt < 2 ^ 48" using rq \<open>0 < unat sz\<close> by (auto simp: request_ok_def)
  have wf: "desc_wf desc" using rq by (simp add: request_ok_def)
  have d0: "desc = 0 \<longrightarrow> d \<noteq> 0" using sup by (auto simp: IsDescSuperset_def)
  have lv: "is_leaf l (leaf_value desc l)" if "desc \<noteq> 0"
    using leaf_value_is_leaf [OF wf that dal l0 on(2)] .
  obtain pt1 own1 where w: "write_leaf pt ptes (walk_pte pt virt l) l desc = Some pt1" "pt_inv own1 pt1"
    "\<And>va. unat va < 2 ^ 48 \<Longrightarrow> translate pt1 va =
      (if blk va l = blk virt l then (if desc = 0 then None else Some (leaf_out (leaf_value desc l) l va))
       else translate pt va)"
    using write_leaf_ok [OF inv v48 on d(1,2) d0 lv ptes] by blast
  have rng: "in_range virt ls va \<longleftrightarrow> blk va l = blk virt l" for va using in_range_block [OF al uls] .
  have "translate pt1 va = (if in_range virt ls va then target desc virt va else translate pt va)"
    if "unat va < 2 ^ 48" for va
    using w(3) [OF that] rng [of va] leaf_out_superset [OF leaf_value_superset [OF on(2)] on(2), of desc va]
      leaf_out_target [of desc l va virt] dal vz on(2)
    by (cases "blk va l = blk virt l"; cases "desc = 0") (simp_all add: target_def)
  moreover have "translate pt va = None" if "\<not> may" "in_range virt ls va" for va
  proof -
    have b: "blk va l = blk virt l" using that(2) rng by simp
    have "on_path pt va l" using on_path_same_block [OF b on(2)] on(1) by simp
    moreover have "xlat_tables pt (walk_pte pt va l) = 0"
      using d that(1) walk_same_block(2) [OF b on(2) order_refl] by simp
    ultimately show ?thesis using translate_leaf_or_free [OF _ on(2) refl] by simp
  qed
  ultimately show "\<exists>pt1 own1. write_leaf pt ptes (walk_pte pt virt l) l desc = Some pt1 \<and> pt_inv own1 pt1 \<and>
      (\<forall>va. unat va < 2 ^ 48 \<longrightarrow> translate pt1 va = (if in_range virt ls va then target desc virt va else translate pt va)) \<and>
      (\<not> may \<longrightarrow> (\<forall>va. unat va < 2 ^ 48 \<and> in_range virt ls va \<longrightarrow> translate pt va = None))"
    using w by blast
qed

lemma level3_fits:
  assumes "request_ok virt sz desc may" "sz \<noteq> 0" "ls = push_bit (lshift 3) 1"
  shows "\<not> sz < ls" "virt AND (ls - 1) = 0" "FMmuBlcokAligned desc (ucast ls)"
proof -
  have s: "lshift 3 = 12" by (simp add: lshift_eq)
  have uls: "unat ls = 4096" unfolding assms(3) s by (subst unat_pow2) auto
  have "unat sz mod 4096 = 0" "unat virt mod 4096 = 0" using assms(1) by (auto simp: request_ok_def)
  moreover have "0 < unat sz" using assms(2) by (simp add: word_neq_0_conv word_less_nat_alt)
  ultimately have "4096 \<le> unat sz" by (meson dvd_imp_le mod_eq_0_iff_dvd)
  then show "\<not> sz < ls" using uls by (simp add: word_less_nat_alt)
  have "take_bit 12 virt = 0" unfolding take_bit_0_iff using \<open>unat virt mod 4096 = 0\<close> by simp
  then show "virt AND (ls - 1) = 0" unfolding assms(3) s and_block_mask .
  have "take_bit 12 (desc_pa desc) = 0" by (rule bit_word_eqI) (auto simp: bit_take_bit_iff bit_desc_pa)
  then show "FMmuBlcokAligned desc (ucast ls)" unfolding assms(3) s using FMmuBlcokAligned_iff [of 12 desc] by simp
qed

lemma measure_advance:
  assumes "0 < unat ls" "unat ls \<le> unat (sz :: u64)" "level \<le> 3"
  shows "unat (sz - ls) * 5 + (4 - 0) < unat sz * 5 + (4 - level)"
proof -
  have "unat (sz - ls) = unat sz - unat ls" using assms(2) by (simp add: unat_sub word_le_nat_alt)
  then show ?thesis using assms by (simp add: diff_mult_distrib)
qed

abbreviation loop_ok where
  "loop_ok pt virt sz desc may table level ptes \<equiv>
     \<exists>ret pt' own'. set_mapping_loop pt virt sz desc may table level ptes = Some (ret, pt') \<and>
       pt_inv own' pt' \<and> map_post pt virt sz desc may ret pt'"

lemma map_post_refl:
  "ret \<in> {0, - EBUSY, - ENOMEM} \<Longrightarrow> (ret = 0 \<Longrightarrow> sz = 0) \<Longrightarrow>
   (ret = - EBUSY \<Longrightarrow> \<not> may \<and> (\<exists>va. unat va < 2 ^ 48 \<and> in_range virt sz va \<and> translate pt va \<noteq> None)) \<Longrightarrow>
   map_post pt virt sz desc may ret pt"
  by (auto simp: map_post_def in_range_def)

text \<open>The branches of one iteration.\<close>

lemma loop_branches:
  assumes "sz \<noteq> 0" "level \<le> 3" "pte = table + XLAT_TABLE_VA_IDX virt level" "d = xlat_tables pt pte"
    "ls = push_bit (lshift level) 1"
  shows loop_link: "IsTableDesc d level \<Longrightarrow> set_mapping_loop pt virt sz desc may table level ptes =
      set_mapping_loop pt virt sz desc may (PteDescTable pt d) (Suc level) (ptes(level := pte))"
    and loop_busy: "\<not> IsTableDesc d level \<Longrightarrow> \<not> may \<Longrightarrow> \<not> IsFreeDesc d \<Longrightarrow>
      set_mapping_loop pt virt sz desc may table level ptes = Some (- EBUSY, pt)"
    and loop_skip: "\<not> IsTableDesc d level \<Longrightarrow> may \<or> IsFreeDesc d \<Longrightarrow> IsDescSuperset d desc level \<Longrightarrow>
      cs = covered_size virt sz ls \<Longrightarrow> desc' = (if desc \<noteq> 0 then desc + cs else desc) \<Longrightarrow>
      set_mapping_loop pt virt sz desc may table level ptes =
      set_mapping_loop pt (virt + cs) (sz - cs) desc' may (base_xlat_table pt) 0 (ptes(level := pte))"
    and loop_expand: "\<not> IsTableDesc d level \<Longrightarrow> may \<or> IsFreeDesc d \<Longrightarrow> \<not> IsDescSuperset d desc level \<Longrightarrow>
      sz < ls \<or> virt AND (ls - 1) \<noteq> 0 \<or> \<not> FMmuBlcokAligned desc (ucast ls) \<Longrightarrow>
      set_mapping_loop pt virt sz desc may table level ptes =
      (case ExpandToTable pt pte level of None \<Rightarrow> None | Some (None, pt) \<Rightarrow> Some (- ENOMEM, pt)
       | Some (Some table, pt) \<Rightarrow> set_mapping_loop pt virt sz desc may table (Suc level) (ptes(level := pte)))"
    and loop_write: "\<not> IsTableDesc d level \<Longrightarrow> may \<or> IsFreeDesc d \<Longrightarrow> \<not> IsDescSuperset d desc level \<Longrightarrow>
      \<not> sz < ls \<Longrightarrow> virt AND (ls - 1) = 0 \<Longrightarrow> FMmuBlcokAligned desc (ucast ls) \<Longrightarrow>
      write_leaf pt (ptes(level := pte)) pte level desc = Some pt1 \<Longrightarrow>
      desc' = (if desc \<noteq> 0 then desc + ls else desc) \<Longrightarrow>
      set_mapping_loop pt virt sz desc may table level ptes =
      set_mapping_loop pt1 (virt + ls) (sz - ls) desc' may (base_xlat_table pt1) 0 (ptes(level := pte))"
  using assms set_mapping_loop.simps [of pt virt sz desc may table level ptes]
  unfolding Let_def XLAT_LAST_LEVEL_def BASE_XLAT_LEVEL_def Suc_eq_plus1 by (simp_all only: if_False if_True simp_thms) auto

lemma skip_case:
  assumes inv: "pt_inv own pt" and rq: "request_ok virt sz desc may" "sz \<noteq> 0"
    and on: "on_path pt virt l" "l \<le> 3"
    and d: "d = xlat_tables pt (walk_pte pt virt l)" "d = 0 \<or> is_leaf l d" "may \<or> d = 0"
    and sup: "IsDescSuperset d desc l"
    and cs: "cs = covered_size virt sz (push_bit (lshift l) 1)" "desc' = (if desc \<noteq> 0 then desc + cs else desc)"
    and rest: "map_post pt (virt + cs) (sz - cs) desc' may ret pt'"
  shows "map_post pt virt sz desc may ret pt'"
proof -
  note sk = skip_step [OF inv rq on d sup cs(1)]
  have r48: "unat virt + unat sz \<le> 2 ^ 48" using rq(1) by (simp add: request_ok_def)
  show ?thesis
    by (rule map_post_compose [OF rest _ sk(4) _ request_advance(2) [OF rq(1) sk(2,3) _ cs(2)] sk(2) r48]) auto
qed

lemma write_case:
  assumes rq: "request_ok virt sz desc may"
    and ls: "unat ls \<le> unat sz" "unat ls mod 4096 = 0" "desc' = (if desc \<noteq> 0 then desc + ls else desc)"
    and w: "\<And>va. unat va < 2 ^ 48 \<Longrightarrow> translate pt1 va = (if in_range virt ls va then target desc virt va else translate pt va)"
      "\<And>va. \<not> may \<Longrightarrow> unat va < 2 ^ 48 \<Longrightarrow> in_range virt ls va \<Longrightarrow> translate pt va = None"
    and rest: "map_post pt1 (virt + ls) (sz - ls) desc' may ret pt'"
  shows "map_post pt virt sz desc may ret pt'"
proof -
  have r48: "unat virt + unat sz \<le> 2 ^ 48" using rq(1) by (simp add: request_ok_def)
  show ?thesis
    by (rule map_post_compose [OF rest _ _ _ request_advance(2) [OF rq(1) ls(1,2) _ ls(3)] ls(1) r48])
       (use w in auto)
qed

text \<open>
  An iteration at an entry that is empty or a leaf: the entry already covers the range, or it is
  replaced by a table, or it is written. \<open>IH\<close> is the claim for the calls that follow.
\<close>

lemma leaf_entry_case:
  assumes inv: "pt_inv own pt" and rq: "request_ok virt sz desc may" and sz: "sz \<noteq> 0"
    and on: "on_path pt virt level" "level \<le> 3" and table: "table = walk_tab pt virt level"
    and d: "d = xlat_tables pt (walk_pte pt virt level)" "d = 0 \<or> is_leaf level d" "may \<or> d = 0"
      "\<not> IsTableDesc d level"
    and ptes': "\<And>l'. l' < Suc level \<Longrightarrow> (ptes(level := walk_pte pt virt level)) l' = walk_pte pt virt l'"
    and IH: "\<And>sz1 level1 own1 pt1 virt1 desc1 table1 ptes1.
      \<lbrakk>unat sz1 * 5 + (4 - level1) < unat sz * 5 + (4 - level); pt_inv own1 pt1;
       sz1 \<noteq> 0 \<Longrightarrow> request_ok virt1 sz1 desc1 may;
       on_path pt1 virt1 level1; level1 \<le> 3; table1 = walk_tab pt1 virt1 level1;
       \<And>l'. l' < level1 \<Longrightarrow> ptes1 l' = walk_pte pt1 virt1 l'\<rbrakk>
      \<Longrightarrow> loop_ok pt1 virt1 sz1 desc1 may table1 level1 ptes1"
  shows "loop_ok pt virt sz desc may table level ptes"
proof -
  define pte where "pte = walk_pte pt virt level"
  define ls where "ls = (push_bit (lshift level) 1 :: u64)"
  let ?ptes = "ptes(level := pte)"
  have pte: "pte = table + XLAT_TABLE_VA_IDX virt level" by (simp add: table pte_def walk_pte_def)
  have v48: "unat virt < 2 ^ 48"
    using rq sz by (auto simp: request_ok_def word_neq_0_conv word_less_nat_alt)
  have mf: "may \<or> IsFreeDesc d" using d(3) by (auto simp: IsFreeDesc_def const_defs)
  note branch = loop_branches [OF sz on(2) pte d(1) [folded pte_def] ls_def]
  consider (skip) "IsDescSuperset d desc level"
    | (expand) "\<not> IsDescSuperset d desc level" "sz < ls \<or> virt AND (ls - 1) \<noteq> 0 \<or> \<not> FMmuBlcokAligned desc (ucast ls)"
    | (wrt) "\<not> IsDescSuperset d desc level" "\<not> sz < ls" "virt AND (ls - 1) = 0" "FMmuBlcokAligned desc (ucast ls)"
    by blast
  then show ?thesis
  proof cases
    case skip
    define cs where "cs = covered_size virt sz ls"
    let ?desc = "if desc \<noteq> 0 then desc + cs else desc"
    note sk = skip_step [OF inv rq sz on d(1-3) skip cs_def [unfolded ls_def]]
    have "loop_ok pt (virt + cs) (sz - cs) ?desc may (base_xlat_table pt) 0 ?ptes"
      by (rule IH [OF measure_advance [OF sk(1,2) on(2)] inv request_advance(1) [OF rq sk(2,3) _ refl]]) auto
    then show ?thesis
      unfolding branch(3) [OF d(4) mf skip cs_def refl]
      using skip_case [OF inv rq sz on d(1-3) skip cs_def [unfolded ls_def] refl] by blast
  next
    case expand
    have l3: "level < 3" using expand(2) level3_fits [OF rq sz] on(2) ls_def by (metis le_neq_implies_less)
    note eq = branch(4) [OF d(4) mf expand]
    from ExpandToTable_ok [OF inv v48 on(1) l3 d(1,2), folded pte_def] show ?thesis
    proof
      assume "ExpandToTable pt pte level = Some (None, pt)"
      moreover have "map_post pt virt sz desc may (- ENOMEM) pt"
        by (rule map_post_refl) (auto simp: const_defs)
      ultimately show ?thesis using eq inv by auto
    next
      assume "\<exists>pt' own'. ExpandToTable pt pte level = Some (Some (walk_tab pt' virt (Suc level)), pt') \<and>
        pt_inv own' pt' \<and> on_path pt' virt (Suc level) \<and>
        (\<forall>l'\<le>level. walk_pte pt' virt l' = walk_pte pt virt l') \<and>
        (\<forall>va. unat va < 2 ^ 48 \<longrightarrow> translate pt' va = translate pt va)"
      then obtain pt1 own1 where e: "ExpandToTable pt pte level = Some (Some (walk_tab pt1 virt (Suc level)), pt1)"
        "pt_inv own1 pt1" "on_path pt1 virt (Suc level)" "\<And>l'. l' \<le> level \<Longrightarrow> walk_pte pt1 virt l' = walk_pte pt virt l'"
        "\<And>va. unat va < 2 ^ 48 \<Longrightarrow> translate pt1 va = translate pt va" by blast
      have "loop_ok pt1 virt sz desc may (walk_tab pt1 virt (Suc level)) (Suc level) ?ptes"
        by (rule IH [OF _ e(2) rq e(3)]) (use e(4) l3 ptes' in \<open>auto simp: pte_def\<close>)
      then show ?thesis
        unfolding eq e(1) option.case prod.case using map_post_same [OF _ e(5)] by blast
    qed
  next
    case wrt
    let ?desc = "if desc \<noteq> 0 then desc + ls else desc"
    note ws = write_step [OF inv rq on d(1-3) wrt(1) ls_def wrt(2-4), of ?ptes, folded pte_def,
        OF ptes' [folded pte_def, OF less_SucI]]
    obtain pt1 own1 where w: "write_leaf pt ?ptes pte level desc = Some pt1" "pt_inv own1 pt1"
      "\<And>va. unat va < 2 ^ 48 \<Longrightarrow> translate pt1 va = (if in_range virt ls va then target desc virt va else translate pt va)"
      "\<And>va. \<not> may \<Longrightarrow> unat va < 2 ^ 48 \<Longrightarrow> in_range virt ls va \<Longrightarrow> translate pt va = None"
      using ws(4) by blast
    have "loop_ok pt1 (virt + ls) (sz - ls) ?desc may (base_xlat_table pt1) 0 ?ptes"
      by (rule IH [OF measure_advance [OF ws(1,2) on(2)] w(2) request_advance(1) [OF rq ws(2,3) _ refl]]) auto
    then show ?thesis
      unfolding branch(5) [OF d(4) mf wrt w(1) refl]
      using write_case [OF rq ws(2,3) refl w(3,4)] by blast
  qed
qed

text \<open>The induction: the range shrinks, or the walk goes down.\<close>

lemma set_mapping_loop_ok:
  assumes "pt_inv own pt" "sz \<noteq> 0 \<Longrightarrow> request_ok virt sz desc may"
    "on_path pt virt level" "level \<le> 3" "table = walk_tab pt virt level"
    "\<And>l'. l' < level \<Longrightarrow> ptes l' = walk_pte pt virt l'"
  shows "loop_ok pt virt sz desc may table level ptes"
  using assms
proof (induction "unat sz * 5 + (4 - level)" arbitrary: own pt virt sz desc level table ptes rule: less_induct)
  case less
  show ?case
  proof (cases "sz = 0")
    case True
    then have "set_mapping_loop pt virt sz desc may table level ptes = Some (0, pt)"
      by (simp add: set_mapping_loop.simps)
    then show ?thesis using True less.prems(1) map_post_refl [of 0 sz] by (auto simp: const_defs)
  next
    case sz: False
    have inv: "pt_inv own pt" and on: "on_path pt virt level" "level \<le> 3" using less.prems by auto
    have rq: "request_ok virt sz desc may" using less.prems(2) sz by blast
    define pte where "pte = walk_pte pt virt level"
    define d where "d = xlat_tables pt pte"
    define ls where "ls = (push_bit (lshift level) 1 :: u64)"
    let ?ptes = "ptes(level := pte)"
    have v48: "unat virt < 2 ^ 48"
      using rq sz by (auto simp: request_ok_def word_neq_0_conv word_less_nat_alt)
    have d': "d = xlat_tables pt (walk_pte pt virt level)" by (simp add: d_def pte_def)
    have ptes': "?ptes l' = walk_pte pt virt l'" if "l' < Suc level" for l'
      using less.prems(6) that by (auto simp: pte_def less_Suc_eq)
    have pte: "pte = table + XLAT_TABLE_VA_IDX virt level" by (simp add: less.prems(5) pte_def walk_pte_def)
    note branch = loop_branches [OF sz on(2) pte d_def ls_def]
    have ok: "entry_ok own pt level (blk virt level) d"
      by (rule path_entry [OF inv v48 on]) (simp add: d')
    have free: "IsFreeDesc d \<longleftrightarrow> d = 0" using IsFreeDesc_eq [OF ok] .
    consider (link) "IsTableDesc d level"
      | (busy) "\<not> IsTableDesc d level" "is_leaf level d" "d \<noteq> 0" "\<not> may"
      | (leaf) "\<not> IsTableDesc d level" "d = 0 \<or> is_leaf level d" "may \<or> d = 0"
      using ok table_desc_type is_leaf_nonzero by (auto simp: entry_ok_def IsTableDesc_def const_defs)
    then show ?thesis
    proof cases
      case link
      then have l: "level < 3" "d AND 3 = 3" using on(2) by (auto simp: IsTableDesc_def const_defs)
      have "loop_ok pt virt sz desc may (PteDescTable pt d) (Suc level) ?ptes"
        by (rule less.hyps) (use inv rq on l ptes' d' in \<open>auto simp: on_path_Suc walk_pte_def\<close>)
      then show ?thesis unfolding branch(1) [OF link] .
    next
      case busy
      have "translate pt virt \<noteq> None"
        using translate_leaf_or_free [OF on d'] busy by simp
      moreover have "in_range virt sz virt" using sz by (simp add: in_range_def word_neq_0_conv word_less_nat_alt)
      ultimately have "map_post pt virt sz desc may (- EBUSY) pt"
        using busy v48 by (intro map_post_refl) (auto simp: const_defs)
      then show ?thesis using branch(2) [OF busy(1,4)] busy(3) free inv by blast
    next
      case leaf
      show ?thesis
        by (rule leaf_entry_case [OF inv rq sz on less.prems(5) d' leaf(2,3,1) ptes' [unfolded pte_def]])
           (assumption, (rule less.hyps; assumption))
    qed
  qed
qed

end
