(* ===== verification/MmuRegion.thy ===== *)
theory MmuRegion
  imports MmuMapping
begin

text \<open>
  The entry points of the memory management unit: region attributes, \<open>FMmuMap\<close>, \<open>FMmuUnMap\<close>,
  \<open>FSetTlbAttributes\<close> and the boot mapping.
\<close>

section \<open>Attributes of a region\<close>

text \<open>Every bit of the descriptor of a region, in terms of the attributes asked for.\<close>

lemma bit_AND_MT:
  "attrs AND MT_NS \<noteq> 0 \<longleftrightarrow> bit attrs 4" "attrs AND MT_RW \<noteq> 0 \<longleftrightarrow> bit attrs 3"
  "attrs AND MT_RW_AP_ELX \<noteq> 0 \<longleftrightarrow> bit attrs 7" "attrs AND MT_P_EXECUTE_NEVER \<noteq> 0 \<longleftrightarrow> bit attrs 5"
  "attrs AND MT_U_EXECUTE_NEVER \<noteq> 0 \<longleftrightarrow> bit attrs 6" "attrs AND MT_NO_OVERWRITE = 0 \<longleftrightarrow> \<not> bit attrs 8"
  by (simp_all add: AND_BIT_eq_0_iff MT_NS_def MT_RW_def MT_RW_AP_ELX_def MT_P_EXECUTE_NEVER_def
      MT_U_EXECUTE_NEVER_def MT_NO_OVERWRITE_def)

lemma bit_numeral_2_64: "bit (2 :: u64) k \<longleftrightarrow> k = 1"
proof -
  have "bit (2 :: u64) k \<longleftrightarrow> bit (push_bit 1 1 :: u64) k" by simp
  then show ?thesis by (simp only: bit_push_bit_iff bit_1_iff) auto
qed

lemma bit_pte_consts:
  "bit PTE_BLOCK_DESC_NS k \<longleftrightarrow> k = 5" "bit PTE_BLOCK_DESC_AP_ELx k \<longleftrightarrow> k = 6"
  "bit PTE_BLOCK_DESC_AP_RO k \<longleftrightarrow> k = 7" "bit PTE_BLOCK_DESC_AF k \<longleftrightarrow> k = 10"
  "bit PTE_BLOCK_DESC_PXN k \<longleftrightarrow> k = 53" "bit PTE_BLOCK_DESC_UXN k \<longleftrightarrow> k = 54"
  "bit PTE_BLOCK_DESC_OUTER_SHARE k \<longleftrightarrow> k = 9" "bit PTE_BLOCK_DESC_INNER_SHARE k \<longleftrightarrow> k = 8 \<or> k = 9"
  "\<not> bit PTE_BLOCK_DESC_AP_RW k" "\<not> bit PTE_BLOCK_DESC_AP_EL_HIGHER k"
  unfolding PTE_BLOCK_DESC_NS_def PTE_BLOCK_DESC_AP_ELx_def PTE_BLOCK_DESC_AP_RO_def
    PTE_BLOCK_DESC_AF_def PTE_BLOCK_DESC_PXN_def PTE_BLOCK_DESC_UXN_def PTE_BLOCK_DESC_OUTER_SHARE_def
    PTE_BLOCK_DESC_INNER_SHARE_def PTE_BLOCK_DESC_AP_RW_def PTE_BLOCK_DESC_AP_EL_HIGHER_def
  by (simp_all only: bit_push_bit_iff bit_1_iff bit_3 bit_numeral_2_64 push_bit_of_0 bit_0_eq) auto

lemma bit_7: "bit (7 :: u32) k \<longleftrightarrow> k < 3"
proof -
  have "bit (7 :: u32) k \<longleftrightarrow> bit (mask 3 :: u32) k" by (simp add: mask_eq_exp_minus_1)
  then show ?thesis by (simp only: bit_mask_iff) auto
qed

lemma bit_7_64: "bit (7 :: u64) k \<longleftrightarrow> k < 3"
proof -
  have "bit (7 :: u64) k \<longleftrightarrow> bit (mask 3 :: u64) k" by (simp add: mask_eq_exp_minus_1)
  then show ?thesis by (simp only: bit_mask_iff) auto
qed

lemma bit_MEMTYPE:
  "bit (PTE_BLOCK_DESC_MEMTYPE (MT_TYPE attrs)) k \<longleftrightarrow> 2 \<le> k \<and> k \<le> 4 \<and> bit attrs (k - 2)"
  unfolding PTE_BLOCK_DESC_MEMTYPE_def MT_TYPE_def MT_TYPE_MASK_def
  by (simp only: bit_ucast_iff bit_push_bit_iff bit_and_iff bit_7) auto

lemma bit_GetRegionDesc:
  fixes attrs :: u32
  defines "mt \<equiv> MT_TYPE attrs"
  shows "bit (GetRegionDesc attrs) k \<longleftrightarrow>
    2 \<le> k \<and> k \<le> 4 \<and> bit attrs (k - 2) \<or> k = 5 \<and> bit attrs 4 \<or> k = 6 \<and> bit attrs 7 \<or>
    k = 7 \<and> \<not> bit attrs 3 \<or> k = 8 \<and> mt = 4 \<or> k = 9 \<and> mt \<in> {0, 1, 2, 3, 4} \<or> k = 10 \<or>
    k = 53 \<and> (mt \<in> {0, 1, 2} \<or> mt \<in> {3, 4} \<and> bit attrs 3 \<and> bit attrs 5) \<or>
    k = 54 \<and> (mt \<in> {0, 1, 2} \<or> mt \<in> {3, 4} \<and> (bit attrs 3 \<and> bit attrs 7 \<or> bit attrs 6))"
proof -
  define M where "M = PTE_BLOCK_DESC_MEMTYPE mt"
  have M: "bit M k \<longleftrightarrow> 2 \<le> k \<and> k \<le> 4 \<and> bit attrs (k - 2)" by (simp add: M_def mt_def bit_MEMTYPE)
  consider "mt \<in> {0, 1, 2}" | "mt = 3" | "mt = 4" | "mt \<notin> {0, 1, 2, 3, 4}" by auto
  then show ?thesis
    unfolding GetRegionDesc_def Let_def bit_AND_MT mt_def [symmetric] M_def [symmetric]
    by cases
       (auto simp: MT_DEVICE_NGNRNE_def MT_DEVICE_NGNRE_def MT_DEVICE_GRE_def MT_NORMAL_NC_def
         MT_NORMAL_def bit_or_iff bit_pte_consts M)
qed

lemma GetRegionDesc_type: "drop_bit 2 (GetRegionDesc attrs) AND 7 = ucast (MT_TYPE attrs)"
proof (rule bit_word_eqI)
  fix k
  show "bit (drop_bit 2 (GetRegionDesc attrs) AND 7) k = bit (ucast (MT_TYPE attrs) :: u64) k"
    unfolding MT_TYPE_def MT_TYPE_MASK_def
    by (cases "k < 3")
       (simp_all add: bit_and_iff bit_drop_bit_eq bit_7_64 bit_ucast_iff bit_7 bit_GetRegionDesc del: bit_numeral_word_iff)
qed

lemma GetRegionDesc_attrs: "GetRegionDesc attrs AND DESC_ATTRS_MASK = GetRegionDesc attrs"
  by (rule bit_word_eqI) (auto simp: bit_and_iff bit_DESC_ATTRS_MASK bit_GetRegionDesc)

text \<open>The descriptor of a region at a physical address.\<close>

lemma region_desc:
  fixes phys :: u64 and attrs :: u32
  assumes "unat phys mod 4096 = 0" "unat phys < 2 ^ 48"
  defines "desc \<equiv> GetRegionDesc attrs OR phys"
  shows "desc_wf desc" "desc \<noteq> 0" "desc_pa desc = phys" "desc AND DESC_ATTRS_MASK = GetRegionDesc attrs"
proof -
  have lo: "\<not> bit phys k" if "k < 12" for k using iffD1 [OF aligned_bits, of phys 12] assms(1) that by simp
  have hi: "\<not> bit phys k" if "48 \<le> k" for k using high_bits [OF assms(2) that] .
  have b: "bit desc k \<longleftrightarrow> bit (GetRegionDesc attrs) k \<or> bit phys k" for k by (simp add: desc_def bit_or_iff)
  have "bit desc 10" "\<not> bit desc 0" "\<not> bit desc 1" using lo [of 0] lo [of 1] by (auto simp: b bit_GetRegionDesc)
  then show "desc_wf desc" "desc \<noteq> 0" by (auto simp: desc_wf_def)
  show "desc_pa desc = phys"
  proof (rule bit_word_eqI)
    fix k show "bit (desc_pa desc) k = bit phys k"
      using lo [of k] hi [of k] by (cases "k < 12"; cases "48 \<le> k") (auto simp: bit_desc_pa b bit_GetRegionDesc)
  qed
  show "desc AND DESC_ATTRS_MASK = GetRegionDesc attrs"
  proof (rule bit_word_eqI)
    fix k show "bit (desc AND DESC_ATTRS_MASK) k = bit (GetRegionDesc attrs) k"
      using lo [of k] hi [of k]
      by (cases "k < 12"; cases "48 \<le> k") (auto simp: bit_and_iff bit_DESC_ATTRS_MASK b bit_GetRegionDesc)
  qed
qed

section \<open>SetMapping, AddMap and RemoveMap\<close>

lemma SetMapping_ok:
  assumes "mmu_wf pt" "request_ok virt sz desc may"
  obtains ret pt' where "SetMapping pt virt sz desc may = Some (ret, pt')" "mmu_wf pt'"
    "map_post pt virt sz desc may ret pt'"
proof -
  obtain own where "pt_inv own pt" using assms(1) by (auto simp: mmu_wf_def)
  from set_mapping_loop_ok [OF this assms(2), of 0 "base_xlat_table pt" "\<lambda>_. 0"] that
  show ?thesis by (auto simp: SetMapping_def BASE_XLAT_LEVEL_def mmu_wf_def)
qed

lemma page_aligned_iff: "w AND (CONFIG_MMU_PAGE_SIZE - 1) = 0 \<longleftrightarrow> unat w mod 4096 = 0"
proof -
  have "CONFIG_MMU_PAGE_SIZE - 1 = push_bit 12 1 - 1" by (simp add: CONFIG_MMU_PAGE_SIZE_def)
  then show ?thesis using take_bit_0_iff [of 12 w] by (simp only: and_block_mask) simp
qed

lemma page_aligned_or:
  "unat (v OR w :: u64) mod 4096 = 0 \<longleftrightarrow> unat v mod 4096 = 0 \<and> unat w mod 4096 = 0"
proof -
  have "unat x mod 4096 = 0 \<longleftrightarrow> (\<forall>k<12. \<not> bit x k)" for x :: u64 using aligned_bits [of x 12] by simp
  then show ?thesis by (simp only: bit_or_iff) blast
qed

text \<open>A request the mapping code serves: aligned, and inside the address space.\<close>

definition map_request :: "u64 \<Rightarrow> u64 \<Rightarrow> bool" where
  "map_request virt sz \<longleftrightarrow> unat virt mod 4096 = 0 \<and> unat sz mod 4096 = 0 \<and> sz \<noteq> 0 \<and>
     unat virt + unat sz \<le> 2 ^ 48 \<and> unat sz < 2 ^ 39"

text \<open>The physical range of a request, and its congruence with the virtual one up to 1 GiB blocks.\<close>

definition phys_request :: "u64 \<Rightarrow> u64 \<Rightarrow> u64 \<Rightarrow> u32 \<Rightarrow> bool" where
  "phys_request virt phys sz flags \<longleftrightarrow> unat phys mod 4096 = 0 \<and> unat phys + unat sz \<le> 2 ^ 48 \<and>
     unat phys < 2 ^ 44 \<and> (bit flags 8 \<or> unat phys mod 2 ^ 30 = unat virt mod 2 ^ 30)"

lemma request_ok_map:
  assumes "map_request virt sz" "phys_request virt phys sz flags"
  shows "request_ok virt sz (GetRegionDesc flags OR phys) (flags AND MT_NO_OVERWRITE = 0)"
proof -
  have "unat phys < 2 ^ 48" "unat phys mod 4096 = 0" using assms(2) by (auto simp: phys_request_def)
  note rd = region_desc [OF this(2,1)]
  show ?thesis
    using assms rd by (auto simp: request_ok_def map_request_def phys_request_def bit_AND_MT)
qed

lemma request_ok_unmap: "map_request virt sz \<Longrightarrow> request_ok virt sz 0 True"
  by (simp add: request_ok_def map_request_def desc_wf_def)

lemma virt_in_range: "map_request virt sz \<Longrightarrow> unat virt < 2 ^ 48"
  by (auto simp: map_request_def word_neq_0_conv word_less_nat_alt)

lemma FMmuMap_run:
  assumes "mmu_wf pt" "map_request virt sz" "phys_request virt phys sz flags"
  obtains ret pt' where "FMmuMap pt virt phys sz flags = Some (ret, pt', ret = 0)" "mmu_wf pt'"
    "map_post pt virt sz (GetRegionDesc flags OR phys) (flags AND MT_NO_OVERWRITE = 0) ret pt'"
proof -
  obtain ret pt' where r: "SetMapping pt virt sz (GetRegionDesc flags OR phys) (flags AND MT_NO_OVERWRITE = 0)
      = Some (ret, pt')" "mmu_wf pt'"
    "map_post pt virt sz (GetRegionDesc flags OR phys) (flags AND MT_NO_OVERWRITE = 0) ret pt'"
    by (rule SetMapping_ok [OF assms(1) request_ok_map [OF assms(2,3)]])
  have "(push_bit 48 1 :: u64) = 2 ^ 48" "(push_bit 44 1 :: u64) = 2 ^ 44" by simp_all
  moreover have "virt < push_bit FCPU_CONFIG_ARM64_VA_BITS 1" "phys < push_bit FCPU_CONFIG_ARM64_PA_BITS 1"
    using virt_in_range [OF assms(2)] assms(3)
    by (simp_all add: word_less_nat_alt const_defs unat_pow2 phys_request_def del: push_bit_of_1)
  moreover have "0 < sz" using assms(2) by (simp add: map_request_def word_neq_0_conv)
  moreover have "unat virt mod 4096 = 0" "unat phys mod 4096 = 0" "unat sz mod 4096 = 0"
    using assms by (auto simp: map_request_def phys_request_def)
  ultimately have "FMmuMap pt virt phys sz flags = Some (ret, pt', ret = 0)"
    unfolding FMmuMap_def ArchMemMap_def AddMap_def
    by (simp add: page_aligned_iff page_aligned_or r(1))
  then show ?thesis using that r by blast
qed

lemma FMmuUnMap_run:
  assumes "mmu_wf pt" "map_request virt sz"
  obtains ret pt' where "FMmuUnMap pt virt sz = Some (ret, pt', ret = 0)" "mmu_wf pt'"
    "map_post pt virt sz 0 True ret pt'"
proof -
  obtain ret pt' where r: "SetMapping pt virt sz 0 True = Some (ret, pt')" "mmu_wf pt'"
    "map_post pt virt sz 0 True ret pt'"
    by (rule SetMapping_ok [OF assms(1) request_ok_unmap [OF assms(2)]])
  have "virt < push_bit FCPU_CONFIG_ARM64_VA_BITS 1"
    using virt_in_range [OF assms(2)]
    by (simp add: word_less_nat_alt const_defs unat_pow2 del: push_bit_of_1)
  moreover have "0 < sz" using assms(2) by (simp add: map_request_def word_neq_0_conv)
  moreover have "unat virt mod 4096 = 0" "unat sz mod 4096 = 0" using assms by (auto simp: map_request_def)
  ultimately have "FMmuUnMap pt virt sz = Some (ret, pt', ret = 0)"
    unfolding FMmuUnMap_def RemoveMap_def
    by (simp add: page_aligned_iff page_aligned_or r(1))
  then show ?thesis using that r by blast
qed

end
