(* ===== verification/MmuProps.thy ===== *)
theory MmuProps
  imports MmuRegion
begin

text \<open>
  What a user of the mapping interface relies on: the contract of an address map as a locale, its
  interpretation on \<open>FMmuMap\<close> and \<open>FMmuUnMap\<close> with the hardware translation, and the properties
  of the component.
\<close>

section \<open>The contract of an address map\<close>

text \<open>
  \<open>wf\<close> is the invariant of the state, \<open>lookup\<close> the translation it defines; \<open>map_range\<close> and
  \<open>unmap_range\<close> return a new state when they succeed.
\<close>

locale address_map =
  fixes wf :: "'s \<Rightarrow> bool"
    and lookup :: "'s \<Rightarrow> u64 \<Rightarrow> (u64 \<times> u64) option"
    and attr :: "u32 \<Rightarrow> u64"
    and map_ok :: "u64 \<Rightarrow> u64 \<Rightarrow> u64 \<Rightarrow> u32 \<Rightarrow> bool"
    and unmap_ok :: "u64 \<Rightarrow> u64 \<Rightarrow> bool"
    and map_range :: "'s \<Rightarrow> u64 \<Rightarrow> u64 \<Rightarrow> u64 \<Rightarrow> u32 \<Rightarrow> 's option"
    and unmap_range :: "'s \<Rightarrow> u64 \<Rightarrow> u64 \<Rightarrow> 's option"
  assumes wf_map: "\<lbrakk>wf s; map_ok v p sz f; map_range s v p sz f = Some s'\<rbrakk> \<Longrightarrow> wf s'"
    and wf_unmap: "\<lbrakk>wf s; unmap_ok v sz; unmap_range s v sz = Some s'\<rbrakk> \<Longrightarrow> wf s'"
    and lookup_map: "\<lbrakk>wf s; map_ok v p sz f; map_range s v p sz f = Some s'; unat va < 2 ^ 48\<rbrakk>
      \<Longrightarrow> lookup s' va = (if in_range v sz va then Some (p + (va - v), attr f) else lookup s va)"
    and lookup_unmap: "\<lbrakk>wf s; unmap_ok v sz; unmap_range s v sz = Some s'; unat va < 2 ^ 48\<rbrakk>
      \<Longrightarrow> lookup s' va = (if in_range v sz va then None else lookup s va)"
begin

lemma unmap_undoes_map:
  assumes "wf s" "map_ok v p sz f" "unmap_ok v sz" "map_range s v p sz f = Some s1"
    "unmap_range s1 v sz = Some s2" "unat va < 2 ^ 48"
  shows "lookup s2 va = (if in_range v sz va then None else lookup s va)"
  using assms lookup_map [OF assms(1,2,4,6)] lookup_unmap [OF wf_map [OF assms(1,2,4)] assms(3,5,6)] by simp

lemma disjoint_maps_commute:
  assumes "wf s" "map_ok v p sz f" "map_ok v' p' sz' f'"
    "\<And>va. \<not> (in_range v sz va \<and> in_range v' sz' va)"
    "map_range s v p sz f = Some s1" "map_range s1 v' p' sz' f' = Some s2"
    "map_range s v' p' sz' f' = Some t1" "map_range t1 v p sz f = Some t2" "unat va < 2 ^ 48"
  shows "lookup s2 va = lookup t2 va"
  using assms(4) [of va]
    lookup_map [OF assms(1,2,5,9)] lookup_map [OF wf_map [OF assms(1,2,5)] assms(3,6,9)]
    lookup_map [OF assms(1,3,7,9)] lookup_map [OF wf_map [OF assms(1,3,7)] assms(2,8,9)]
  by auto

end

section \<open>Sequences of requests\<close>

datatype mmu_req = MapReq u64 u64 u64 u32 | UnmapReq u64 u64

text \<open>The abstract machine: a partial function from addresses, overridden range by range.\<close>

fun apply_req :: "(u64 \<Rightarrow> (u64 \<times> u64) option) \<Rightarrow> mmu_req \<Rightarrow> u64 \<Rightarrow> (u64 \<times> u64) option" where
  "apply_req m (MapReq v p sz f) va = (if in_range v sz va then Some (p + (va - v), GetRegionDesc f) else m va)"
| "apply_req m (UnmapReq v sz) va = (if in_range v sz va then None else m va)"

fun valid_req :: "mmu_req \<Rightarrow> bool" where
  "valid_req (MapReq v p sz f) \<longleftrightarrow> map_request v sz \<and> phys_request v p sz f"
| "valid_req (UnmapReq v sz) \<longleftrightarrow> map_request v sz"

text \<open>One request on the tables; a request that does not return 0 ends the sequence.\<close>

definition map_result :: "(int \<times> 's \<times> bool) option \<Rightarrow> 's option" where
  "map_result r = (case r of Some (ret, s, _) \<Rightarrow> if ret = 0 then Some s else None | None \<Rightarrow> None)"

fun do_req :: "ArmMmuPtables \<Rightarrow> mmu_req \<Rightarrow> ArmMmuPtables option" where
  "do_req pt (MapReq v p sz f) = map_result (FMmuMap pt v p sz f)"
| "do_req pt (UnmapReq v sz) = map_result (FMmuUnMap pt v sz)"

primrec do_reqs :: "ArmMmuPtables \<Rightarrow> mmu_req list \<Rightarrow> ArmMmuPtables option" where
  "do_reqs pt [] = Some pt"
| "do_reqs pt (r # rs) = do { pt \<leftarrow> do_req pt r; do_reqs pt rs }"

lemma map_result_eq: "map_result (Some (ret, s, b)) = (if ret = 0 then Some s else None)"
  by (simp add: map_result_def)

lemma map_effect:
  assumes "mmu_wf pt" "map_request virt sz" "phys_request virt phys sz flags"
    "map_result (FMmuMap pt virt phys sz flags) = Some pt'"
  shows "mmu_wf pt'"
    "unat va < 2 ^ 48 \<Longrightarrow> translate pt' va =
       (if in_range virt sz va then Some (phys + (va - virt), GetRegionDesc flags) else translate pt va)"
proof -
  obtain ret pt1 where r: "FMmuMap pt virt phys sz flags = Some (ret, pt1, ret = 0)" "mmu_wf pt1"
    "map_post pt virt sz (GetRegionDesc flags OR phys) (flags AND MT_NO_OVERWRITE = 0) ret pt1"
    by (rule FMmuMap_run [OF assms(1,2,3)])
  have ret: "ret = 0" "pt' = pt1" using assms(4) r(1) by (auto simp: map_result_eq split: if_splits)
  show "mmu_wf pt'" using r(2) ret by simp
  have p: "unat phys mod 4096 = 0" "unat phys < 2 ^ 48" using assms(3) by (auto simp: phys_request_def)
  have "target (GetRegionDesc flags OR phys) virt va = Some (phys + (va - virt), GetRegionDesc flags)"
    using region_desc [OF p, of flags] by (simp add: target_def)
  then show "unat va < 2 ^ 48 \<Longrightarrow> translate pt' va =
       (if in_range virt sz va then Some (phys + (va - virt), GetRegionDesc flags) else translate pt va)"
    using r(3) ret unfolding map_post_def by auto
qed

lemma unmap_effect:
  assumes "mmu_wf pt" "map_request virt sz" "map_result (FMmuUnMap pt virt sz) = Some pt'"
  shows "mmu_wf pt'"
    "unat va < 2 ^ 48 \<Longrightarrow> translate pt' va = (if in_range virt sz va then None else translate pt va)"
proof -
  obtain ret pt1 where r: "FMmuUnMap pt virt sz = Some (ret, pt1, ret = 0)" "mmu_wf pt1"
    "map_post pt virt sz 0 True ret pt1"
    by (rule FMmuUnMap_run [OF assms(1,2)])
  have ret: "ret = 0" "pt' = pt1" using assms(3) r(1) by (auto simp: map_result_eq split: if_splits)
  show "mmu_wf pt'" using r(2) ret by simp
  show "unat va < 2 ^ 48 \<Longrightarrow> translate pt' va = (if in_range virt sz va then None else translate pt va)"
    using r(3) ret unfolding map_post_def target_def by auto
qed

interpretation mmu: address_map mmu_wf translate GetRegionDesc
  "\<lambda>v p sz f. map_request v sz \<and> phys_request v p sz f" map_request
  "\<lambda>pt v p sz f. map_result (FMmuMap pt v p sz f)" "\<lambda>pt v sz. map_result (FMmuUnMap pt v sz)"
proof (unfold_locales, goal_cases)
  case (1 s v p sz f s')
  then show ?case by (auto intro: map_effect(1))
next
  case (2 s v sz s')
  then show ?case by (rule unmap_effect(1))
next
  case (3 s v p sz f s' va)
  then show ?case using map_effect(2) [of s v sz p f s' va] by blast
next
  case (4 s v sz s' va)
  then show ?case by (rule unmap_effect(2))
qed

lemma do_req_refines:
  assumes "mmu_wf pt" "valid_req r" "do_req pt r = Some pt'"
  shows "mmu_wf pt' \<and> (\<forall>va. unat va < 2 ^ 48 \<longrightarrow> translate pt' va = apply_req (translate pt) r va)"
proof (cases r)
  case (MapReq v p sz f)
  then show ?thesis
    using assms mmu.wf_map [of pt v sz p f pt'] mmu.lookup_map [of pt v sz p f pt'] by auto
next
  case (UnmapReq v sz)
  then show ?thesis using assms mmu.wf_unmap [of pt v sz pt'] mmu.lookup_unmap [of pt v sz pt'] by auto
qed

lemma apply_req_local: "m va = m' va \<Longrightarrow> apply_req m r va = apply_req m' r va"
  by (cases r) auto

lemma foldl_apply_local: "m va = m' va \<Longrightarrow> foldl apply_req m rs va = foldl apply_req m' rs va"
proof (induction rs arbitrary: m m')
  case (Cons r rs)
  show ?case
    using Cons.IH [of "apply_req m r" "apply_req m' r"] apply_req_local [of m va m' r, OF Cons.prems] by simp
qed simp

lemma do_reqs_refine:
  assumes "mmu_wf pt" "\<forall>r\<in>set rs. valid_req r" "do_reqs pt rs = Some pt'"
  shows "mmu_wf pt' \<and> (\<forall>va. unat va < 2 ^ 48 \<longrightarrow> translate pt' va = foldl apply_req (translate pt) rs va)"
  using assms
proof (induction rs arbitrary: pt)
  case (Cons r rs)
  obtain pt1 where pt1: "do_req pt r = Some pt1" "do_reqs pt1 rs = Some pt'"
    using Cons.prems(3) by (auto simp: bind_eq_Some_conv)
  note one = do_req_refines [OF Cons.prems(1) _ pt1(1)]
  show ?case
    using Cons.IH [OF _ _ pt1(2)] one Cons.prems(2) foldl_apply_local [of "translate pt1" _ "apply_req (translate pt) r" rs]
    by simp
qed simp

section \<open>The boot mapping\<close>

text \<open>The tables before \<open>MmuInit\<close>: zero-initialised, page aligned, below the end of the address space.\<close>

definition fresh_tables :: "ArmMmuPtables \<Rightarrow> bool" where
  "fresh_tables pt \<longleftrightarrow> pool_ok pt \<and> xlat_tables pt = (\<lambda>_. 0) \<and> xlat_use_count pt = (\<lambda>_. 0)"

lemma NewTable_fresh:
  assumes "fresh_tables pt"
  shows "\<exists>pt1. NewTable pt = (Some 0, pt1) \<and> mmu_wf (pt1\<lparr>base_xlat_table := 0\<rparr>) \<and>
    (\<forall>va. translate (pt1\<lparr>base_xlat_table := 0\<rparr>) va = None)"
proof -
  let ?pt1 = "pt\<lparr>xlat_use_count := (\<lambda>_. 0)(0 := 1)\<rparr>" let ?own = "[0 \<mapsto> (0, 0)] :: owners"
  have f: "pool_ok pt" "xlat_tables pt = (\<lambda>_. 0)" "xlat_use_count pt = (\<lambda>_. 0)"
    using assms by (auto simp: fresh_tables_def)
  have "new_table_search pt 0 (Suc 255) = Some 0" by (simp only: new_table_search.simps f) simp
  then have new: "NewTable pt = (Some 0, ?pt1)" by (simp add: NewTable_def const_defs f)
  have "pt_inv ?own (?pt1\<lparr>base_xlat_table := 0\<rparr>)"
    unfolding pt_inv_def using f by (auto simp: pool_ok_def entry_ok_def used_entries_def split: if_splits)
  moreover have "translate (?pt1\<lparr>base_xlat_table := 0\<rparr>) va = None" for va
    by (simp add: translate_def numeral_3_eq_3 Let_def f)
  ultimately show ?thesis using new by (auto simp: mmu_wf_def)
qed

text \<open>A region of the board table: mapped to itself, page aligned, inside the physical space.\<close>

definition flat_region :: "ArmMmuRegion \<Rightarrow> bool" where
  "flat_region r \<longleftrightarrow> base_pa r = base_va r \<and> unat (base_va r) mod 4096 = 0 \<and>
     unat (region_size r) mod 4096 = 0 \<and> unat (base_va r) + unat (region_size r) \<le> 2 ^ 44 \<and>
     unat (region_size r) < 2 ^ 39"

text \<open>What the boot code establishes for a list of regions.\<close>

definition identity_map :: "ArmMmuRegion list \<Rightarrow> ArmMmuPtables \<Rightarrow> bool" where
  "identity_map rs pt \<longleftrightarrow> (\<forall>va x. unat va < 2 ^ 48 \<and> translate pt va = Some x \<longrightarrow>
     (\<exists>r\<in>set rs. in_range (base_va r) (region_size r) va \<and> x = (va, GetRegionDesc (region_attrs r))))"

lemma AddArmMmuRegion_identity:
  assumes "mmu_wf pt" "identity_map rs pt" "flat_region r"
  obtains pt' where "AddArmMmuRegion pt r 0 = Some pt'" "mmu_wf pt'" "identity_map (rs @ [r]) pt'"
proof (cases "region_size r = 0")
  case True
  have "AddArmMmuRegion pt r 0 = Some pt"
    using assms(3) True
    by (simp add: AddArmMmuRegion_def AddMap_def SetMapping_def set_mapping_loop.simps page_aligned_iff
        page_aligned_or flat_region_def)
  then show ?thesis using that assms by (auto simp: identity_map_def)
next
  case False
  let ?v = "base_va r" let ?sz = "region_size r" let ?f = "region_attrs r"
  have rq: "map_request ?v ?sz" "phys_request ?v (base_pa r) ?sz ?f \<or> unat ?v = 2 ^ 44"
    using assms(3) False by (auto simp: flat_region_def map_request_def phys_request_def)
  have "0 < unat ?sz" using False by (simp add: word_neq_0_conv word_less_nat_alt)
  then have ph: "phys_request ?v (base_pa r) ?sz ?f" using rq(2) assms(3) by (auto simp: flat_region_def)
  obtain ret pt' where s: "SetMapping pt ?v ?sz (GetRegionDesc ?f OR base_pa r) (?f AND MT_NO_OVERWRITE = 0)
      = Some (ret, pt')" "mmu_wf pt'"
    "map_post pt ?v ?sz (GetRegionDesc ?f OR base_pa r) (?f AND MT_NO_OVERWRITE = 0) ret pt'"
    by (rule SetMapping_ok [OF assms(1) request_ok_map [OF rq(1) ph]])
  have run: "AddArmMmuRegion pt r 0 = Some pt'"
    using assms(3) False s(1) by (simp add: AddArmMmuRegion_def AddMap_def page_aligned_iff page_aligned_or flat_region_def)
  have p: "unat (base_pa r) mod 4096 = 0" "unat (base_pa r) < 2 ^ 48" using ph by (auto simp: phys_request_def)
  have tgt: "target (GetRegionDesc ?f OR base_pa r) ?v va = Some (va, GetRegionDesc ?f)" for va
    using region_desc [OF p, of ?f] assms(3) by (simp add: target_def flat_region_def)
  have "identity_map (rs @ [r]) pt'"
    unfolding identity_map_def
  proof (intro allI impI)
    fix va x assume a: "unat va < 2 ^ 48 \<and> translate pt' va = Some x"
    then consider "translate pt va = Some x" | "in_range ?v ?sz va" "x = (va, GetRegionDesc ?f)"
      using s(3) tgt unfolding map_post_def by (metis option.inject)
    then show "\<exists>r\<in>set (rs @ [r]). in_range (base_va r) (region_size r) va \<and> x = (va, GetRegionDesc (region_attrs r))"
    proof cases
      case 1
      then obtain r' where "r' \<in> set rs" "in_range (base_va r') (region_size r') va"
        "x = (va, GetRegionDesc (region_attrs r'))"
        using a assms(2) unfolding identity_map_def by blast
      then show ?thesis by auto
    qed auto
  qed
  then show ?thesis using that run s(2) by blast
qed

lemma add_regions_identity:
  assumes "mmu_wf pt" "identity_map done pt" "\<forall>r\<in>set rs. flat_region r"
  shows "\<exists>pt'. add_regions pt rs = Some pt' \<and> mmu_wf pt' \<and> identity_map (done @ rs) pt'"
  using assms
proof (induction rs arbitrary: pt "done")
  case (Cons r rs)
  obtain pt1 where "AddArmMmuRegion pt r 0 = Some pt1" "mmu_wf pt1" "identity_map (done @ [r]) pt1"
    by (rule AddArmMmuRegion_identity [OF Cons.prems(1,2)]) (use Cons.prems(3) in auto)
  then show ?case using Cons.IH [of pt1 "done @ [r]"] Cons.prems(3) by auto
qed auto

lemma foldl_max_bound:
  assumes "\<forall>r\<in>set rs. f r \<le> (B :: u64)" "m \<le> B"
  shows "foldl (\<lambda>m r. max m (f r)) m rs \<le> B"
  using assms by (induction rs arbitrary: m) (auto simp: max_def)

lemma MmuInit_identity:
  assumes "fresh_tables pt" "mmu_init_checks mmfr0 current_el sctlr = Some ()"
    "\<forall>r\<in>set (board @ code). flat_region r"
  shows "\<exists>pt'. MmuInit mmfr0 current_el sctlr board code pt = Some (pt', EnableMmuEl1 pt') \<and>
    mmu_wf pt' \<and> identity_map (board @ code) pt'"
proof -
  obtain pt1 where n: "NewTable pt = (Some 0, pt1)" "mmu_wf (pt1\<lparr>base_xlat_table := 0\<rparr>)"
    "\<And>va. translate (pt1\<lparr>base_xlat_table := 0\<rparr>) va = None"
    using NewTable_fresh [OF assms(1)] by blast
  let ?pt1 = "pt1\<lparr>base_xlat_table := 0\<rparr>"
  have "identity_map [] ?pt1" using n(3) by (auto simp: identity_map_def)
  then obtain pt2 where p2: "add_regions ?pt1 board = Some pt2" "mmu_wf pt2" "identity_map board pt2"
    using add_regions_identity [OF n(2), of "[]" board] assms(3) by auto
  obtain pt3 where p3: "add_regions pt2 code = Some pt3" "mmu_wf pt3" "identity_map (board @ code) pt3"
    using add_regions_identity [OF p2(2,3), of code] assms(3) by auto
  have b: "base_va r + region_size r \<le> push_bit 44 1" "base_pa r = base_va r" if "r \<in> set board" for r
  proof -
    have fr: "flat_region r" using assms(3) that by auto
    then have "unat (base_va r + region_size r) = unat (base_va r) + unat (region_size r)"
      by (simp add: flat_region_def unat_word_ariths(1))
    then show "base_va r + region_size r \<le> push_bit 44 1"
      using fr unat_pow2 [of 44, where 'a = 64] by (simp add: word_le_nat_alt flat_region_def)
    show "base_pa r = base_va r" using fr by (simp add: flat_region_def)
  qed
  have "foldl (\<lambda>m r. max m (base_va r + region_size r)) 0 board \<le> push_bit 48 1"
    using b(1) order_trans [of _ "push_bit 44 (1 :: u64)" "push_bit 48 1"] by (intro foldl_max_bound) auto
  moreover have "foldl (\<lambda>m r. max m (base_pa r + region_size r)) 0 board \<le> push_bit 44 1"
    using b by (auto intro!: foldl_max_bound)
  ultimately have "SetupPageTables ?pt1 board code = Some pt3"
    using p2(1) p3(1) by (simp add: SetupPageTables_def const_defs)
  then show ?thesis using n(1) assms(2) p3 by (simp add: MmuInit_def)
qed

section \<open>Evaluation of concrete requests\<close>

lemma genmask_values:
  "GENMASK_ULL 47 12 = 0xFFFFFFFFF000" "GENMASK_ULL 47 21 = 0xFFFFFFE00000"
  "GENMASK_ULL 47 30 = 0xFFFFC0000000" "GENMASK_ULL 47 39 = 0xFF8000000000"
  "GENMASK_ULL 63 51 = 0xFFF8000000000000" "GENMASK_ULL 11 2 = 0xFFC"
  by (simp_all add: GENMASK_ULL_code)

lemma new_table_search_rec:
  "new_table_search pt i k = (if k = 0 then None else if xlat_use_count pt i = 0 then Some i
     else new_table_search pt (Suc i) (k - 1))"
  by (cases k) auto

lemma free_unused_rec:
  "free_unused pt ptes pte l = (if l = 0 then Some pt else do {
     unused \<leftarrow> IsTableUnused pt pte;
     if \<not> unused then Some pt
     else do {
       pt \<leftarrow> FreeTable pt pte;
       let pt = SetPteBlockDesc pt (ptes (l - 1)) 0 (l - 1);
       (_, pt) \<leftarrow> TableUsage pt (ptes (l - 1)) (- 1);
       free_unused pt ptes (ptes (l - 1)) (l - 1)
     }})"
proof (cases l)
  case (Suc n)
  show ?thesis unfolding Suc free_unused.simps Let_def by (simp only: diff_Suc_1 nat.distinct if_False)
qed simp

lemmas mmu_eval = genmask_values SetMapping_def set_mapping_loop.simps Let_def XLAT_TABLE_VA_IDX_def
  LEVEL_TO_VA_SIZE_SHIFT_def const_defs IsTableDesc_def IsFreeDesc_def IsBlockDesc_def IsDescSuperset_def
  DESC_ATTRS_MASK_def ExpandToTable_def NewTable_def new_table_search_rec free_unused_rec TableUsage_def
  TableIndex_def SetPteTableDesc_def SetPteBlockDesc_def set_pte_def FMmuBlcokAligned_def write_leaf_def
  PteDescTable_def pool_index_def IsTableUnused_def FreeTable_def covered_size_def

lemmas region_eval = GetRegionDesc_def BIT_def MT_RW_def MT_TYPE_def MT_NS_def MT_RW_AP_ELX_def
  PTE_BLOCK_DESC_MEMTYPE_def PTE_BLOCK_DESC_INNER_SHARE_def PTE_BLOCK_DESC_OUTER_SHARE_def
  PTE_BLOCK_DESC_AP_RW_def PTE_BLOCK_DESC_AP_RO_def PTE_BLOCK_DESC_AP_ELx_def PTE_BLOCK_DESC_AP_EL_HIGHER_def
  PTE_BLOCK_DESC_AF_def PTE_BLOCK_DESC_PXN_def PTE_BLOCK_DESC_UXN_def PTE_BLOCK_DESC_NS_def
  MT_P_EXECUTE_NEVER_def MT_U_EXECUTE_NEVER_def MT_NO_OVERWRITE_def

lemmas request_eval = FMmuMap_def FMmuUnMap_def ArchMemMap_def AddMap_def RemoveMap_def map_result_def

section \<open>Properties\<close>


text \<open>A concrete set of tables: only the base table, nothing mapped.\<close>

definition empty_tables :: ArmMmuPtables where
  "empty_tables = \<lparr>xlat_addr = 0x80000000, xlat_tables = (\<lambda>_. 0),
     xlat_use_count = (\<lambda>_. 0)(0 := 1), base_xlat_table = 0\<rparr>"

lemma empty_tables_wf: "mmu_wf empty_tables"
proof -
  have "pt_inv [0 \<mapsto> (0, 0)] empty_tables"
    unfolding pt_inv_def by (auto simp: empty_tables_def pool_ok_def entry_ok_def used_entries_def split: if_splits)
  then show ?thesis by (auto simp: mmu_wf_def)
qed


text \<open>
  C10: \<open>FMmuUnMap\<close> on well-formed tables always returns and keeps them well-formed. Addresses
  outside the range translate as before, those inside translate to nothing or (only when a block
  could not be split for lack of tables) as before; on success none translates.
\<close>

theorem FMmuUnMap_correct:
  assumes "mmu_wf pt" "map_request virt sz"
  shows "\<exists>ret pt'. FMmuUnMap pt virt sz = Some (ret, pt', ret = 0) \<and> mmu_wf pt' \<and>
    ret \<in> {0, - ENOMEM} \<and>
    (\<forall>va. unat va < 2 ^ 48 \<longrightarrow>
       (if in_range virt sz va
        then translate pt' va = None \<or> ret \<noteq> 0 \<and> translate pt' va = translate pt va
        else translate pt' va = translate pt va))"
proof -
  obtain ret pt' where r: "FMmuUnMap pt virt sz = Some (ret, pt', ret = 0)" "mmu_wf pt'"
    "map_post pt virt sz 0 True ret pt'"
    by (rule FMmuUnMap_run [OF assms])
  then show ?thesis unfolding map_post_def target_def by (intro exI [of _ ret] exI [of _ pt']) auto
qed

theorem FMmuUnMap_correct_witness:
  "\<exists>ret pt'. FMmuUnMap empty_tables 0x40000000 0x1000 = Some (ret, pt', ret = 0) \<and> mmu_wf pt' \<and>
    ret \<in> {0, - ENOMEM} \<and>
    (\<forall>va. unat va < 2 ^ 48 \<longrightarrow>
       (if in_range 0x40000000 0x1000 va
        then translate pt' va = None \<or> ret \<noteq> 0 \<and> translate pt' va = translate empty_tables va
        else translate pt' va = translate empty_tables va))"
  by (rule FMmuUnMap_correct [OF empty_tables_wf]) (simp add: map_request_def)


definition two_reqs :: "mmu_req list" where
  "two_reqs = [MapReq 0x40000000 0x80000000 0x1000 (MT_RW OR MT_NORMAL), UnmapReq 0x40000000 0x1000]"


text \<open>
  C32: With \<open>MT_NO_OVERWRITE\<close> no existing mapping changes, whatever the physical range and
  whether or not the call succeeds; it is refused with \<open>-EBUSY\<close> only when an address of the range
  was mapped before.
\<close>

theorem no_overwrite_protects:
  assumes "mmu_wf pt" "map_request virt sz" "phys_request virt phys sz flags" "bit flags 8"
  shows "\<exists>ret pt'. FMmuMap pt virt phys sz flags = Some (ret, pt', ret = 0) \<and>
    (\<forall>va. unat va < 2 ^ 48 \<and> translate pt va \<noteq> None \<longrightarrow> translate pt' va = translate pt va) \<and>
    (ret = - EBUSY \<longrightarrow> (\<exists>va. unat va < 2 ^ 48 \<and> in_range virt sz va \<and> translate pt va \<noteq> None))"
proof -
  obtain ret pt' where r: "FMmuMap pt virt phys sz flags = Some (ret, pt', ret = 0)" "mmu_wf pt'"
    "map_post pt virt sz (GetRegionDesc flags OR phys) (flags AND MT_NO_OVERWRITE = 0) ret pt'"
    by (rule FMmuMap_run [OF assms(1-3)])
  then show ?thesis
    using assms(4) unfolding map_post_def bit_AND_MT by (intro exI [of _ ret] exI [of _ pt']) auto
qed

theorem no_overwrite_protects_witness:
  "\<exists>ret pt'. FMmuMap empty_tables 0x40000000 0x80005000 0x1000 MT_NO_OVERWRITE = Some (ret, pt', ret = 0) \<and>
    (\<forall>va. unat va < 2 ^ 48 \<and> translate empty_tables va \<noteq> None \<longrightarrow> translate pt' va = translate empty_tables va) \<and>
    (ret = - EBUSY \<longrightarrow>
      (\<exists>va. unat va < 2 ^ 48 \<and> in_range 0x40000000 0x1000 va \<and> translate empty_tables va \<noteq> None))"
  by (rule no_overwrite_protects [OF empty_tables_wf])
     (simp_all add: map_request_def phys_request_def MT_NO_OVERWRITE_def)


lemma loop_descend:
  assumes "sz \<noteq> 0" "on_path pt virt l" "l \<le> 3"
  shows "\<exists>ptes'. set_mapping_loop pt virt sz desc may (base_xlat_table pt) 0 ptes =
    set_mapping_loop pt virt sz desc may (walk_tab pt virt l) l ptes'"
  using assms(2,3)
proof (induction l)
  case (Suc l)
  then obtain ptes' where p: "set_mapping_loop pt virt sz desc may (base_xlat_table pt) 0 ptes =
      set_mapping_loop pt virt sz desc may (walk_tab pt virt l) l ptes'"
    by (auto simp: on_path_Suc)
  have "IsTableDesc (xlat_tables pt (walk_pte pt virt l)) l"
    using Suc.prems by (simp add: IsTableDesc_def on_path_Suc const_defs)
  then have "set_mapping_loop pt virt sz desc may (walk_tab pt virt l) l ptes' =
      set_mapping_loop pt virt sz desc may (walk_tab pt virt (Suc l)) (Suc l) (ptes'(l := walk_pte pt virt l))"
    using loop_link [where pt = pt and virt = virt and level = l and table = "walk_tab pt virt l" and ptes = ptes'
        and desc = desc and may = may, OF assms(1) _ refl refl refl] Suc.prems
    by (simp add: walk_pte_def)
  then show ?case using p by metis
qed auto

lemma SetMapping_skips:
  assumes "sz \<noteq> 0" "on_path pt virt l" "l < 3" "is_leaf l (xlat_tables pt (walk_pte pt virt l))"
    "IsDescSuperset (xlat_tables pt (walk_pte pt virt l)) desc l"
    "unat virt mod 2 ^ lshift l + unat sz \<le> 2 ^ lshift l"
  shows "SetMapping pt virt sz desc True = Some (0, pt)"
proof -
  obtain ptes where p: "SetMapping pt virt sz desc True =
      set_mapping_loop pt virt sz desc True (walk_tab pt virt l) l ptes"
    using loop_descend [OF assms(1,2), of desc True "\<lambda>_. 0"] assms(3)
    by (auto simp: SetMapping_def BASE_XLAT_LEVEL_def)
  have cs: "covered_size virt sz (push_bit (lshift l) 1) = sz"
    using assms(6) level_shift_less [of l] by (intro word_unat_eq_iff [THEN iffD2]) (subst unat_covered_size; simp)
  have "\<not> IsTableDesc (xlat_tables pt (walk_pte pt virt l)) l"
    using is_leaf_not_link [OF assms(4,3)] by (simp add: IsTableDesc_def const_defs)
  then show ?thesis
    using loop_skip [where pt = pt and virt = virt and level = l and table = "walk_tab pt virt l" and ptes = ptes
        and desc = desc and may = True, OF assms(1) _ refl refl refl _ _ _ refl refl] assms(3,5)
    unfolding p walk_pte_def cs by (simp add: set_mapping_loop.simps)
qed

lemma leaf_out_offset:
  assumes "leaf_out e l va = (pa, a)" "l \<le> 3"
  shows "unat pa mod 2 ^ lshift l = unat va mod 2 ^ lshift l"
proof -
  have "take_bit (lshift l) pa = take_bit (lshift l) va"
    using assms by (intro bit_word_eqI)
      (auto simp: leaf_out_def bit_take_bit_iff bit_or_iff bit_and_iff bit_mask_iff bit_GENMASK_ULL)
  then show ?thesis by (simp only: word_unat_eq_iff unat_take_bit)
qed

text \<open>
  \<open>FMmuMap\<close> can report success without mapping. When the address already lies in a block
  whose descriptor has the attributes and the block-aligned part of the physical address asked
  for, the request is skipped: \<open>IsDescSuperset\<close> does not compare the offset inside the block. The
  tables are unchanged, the call returns 0 and the TLB is flushed, but the address does not
  translate to the physical address asked for unless both have the same offset in the block.
\<close>

theorem superset_ignores_offset:
  assumes "map_request virt sz" "unat phys mod 4096 = 0" "unat phys < 2 ^ 44" "\<not> bit flags 8"
    "on_path pt virt l" "l < 3" "is_leaf l (xlat_tables pt (walk_pte pt virt l))"
    "IsDescSuperset (xlat_tables pt (walk_pte pt virt l)) (GetRegionDesc flags OR phys) l"
    "unat virt mod 2 ^ lshift l + unat sz \<le> 2 ^ lshift l"
    "unat virt mod 2 ^ lshift l \<noteq> unat phys mod 2 ^ lshift l"
  shows "FMmuMap pt virt phys sz flags = Some (0, pt, True) \<and>
    map_option fst (translate pt virt) \<noteq> Some phys"
proof
  have sz: "sz \<noteq> 0" using assms(1) by (simp add: map_request_def)
  have s: "SetMapping pt virt sz (GetRegionDesc flags OR phys) True = Some (0, pt)"
    by (rule SetMapping_skips [OF sz assms(5,6,7,8,9)])
  have "virt < push_bit FCPU_CONFIG_ARM64_VA_BITS 1" "phys < push_bit FCPU_CONFIG_ARM64_PA_BITS 1"
    using virt_in_range [OF assms(1)] assms(3)
    by (simp_all add: word_less_nat_alt const_defs unat_pow2 del: push_bit_of_1)
  then show "FMmuMap pt virt phys sz flags = Some (0, pt, True)"
    unfolding FMmuMap_def ArchMemMap_def AddMap_def bit_AND_MT
    using assms(1,2,4) s sz by (simp add: page_aligned_iff page_aligned_or map_request_def word_neq_0_conv)
  have "translate pt virt = Some (leaf_out (xlat_tables pt (walk_pte pt virt l)) l virt)"
    using translate_leaf_or_free [OF assms(5) _ refl] assms(6,7) is_leaf_nonzero by auto
  then show "map_option fst (translate pt virt) \<noteq> Some phys"
    using leaf_out_offset [of "xlat_tables pt (walk_pte pt virt l)" l virt phys] assms(6,10)
    by (cases "leaf_out (xlat_tables pt (walk_pte pt virt l)) l virt") auto
qed

text \<open>A 1 GiB block from \<open>0x40000000\<close> to \<open>0x80000000\<close>.\<close>

definition block_tables :: ArmMmuPtables where
  "block_tables = \<lparr>xlat_addr = 0x80000000, xlat_tables = (\<lambda>_. 0)(0 := 0x80001003, 513 := 0x80000711),
     xlat_use_count = (\<lambda>_. 0)(0 := 2, 1 := 3), base_xlat_table = 0\<rparr>"

lemma block_tables_walk:
  "on_path block_tables 0x40001000 1" "walk_pte block_tables 0x40001000 1 = 513"
  by (simp_all add: on_path_def walk_pte_def idx_eq blk_def lshift_eq block_tables_def PteDescTable_def
      pool_index_def genmask_values const_defs)

theorem superset_ignores_offset_witness:
  "FMmuMap block_tables 0x40001000 0x80005000 0x1000 (MT_RW OR MT_NORMAL) = Some (0, block_tables, True) \<and>
   map_option fst (translate block_tables 0x40001000) \<noteq> Some 0x80005000"
proof (rule superset_ignores_offset [OF _ _ _ _ block_tables_walk(1)])
  show "is_leaf 1 (xlat_tables block_tables (walk_pte block_tables 0x40001000 1))"
  proof -
    have "(0x80000711 :: u64) AND GENMASK_ULL 29 12 = 0" by (simp add: GENMASK_ULL_code)
    then have z: "\<not> bit ((0x80000711 :: u64) AND GENMASK_ULL 29 12) k" for k by simp
    have "\<not> bit (0x80000711 :: u64) k" if "12 \<le> k" "k < 30" for k
      using z [of k] that unfolding bit_and_iff by (simp add: bit_GENMASK_ULL del: bit_numeral_word_iff)
    then show ?thesis
      unfolding block_tables_walk(2) by (simp add: is_leaf_def block_tables_def lshift_eq del: bit_numeral_word_iff) simp
  qed
  show "IsDescSuperset (xlat_tables block_tables (walk_pte block_tables 0x40001000 1))
      (GetRegionDesc (MT_RW OR MT_NORMAL) OR 0x80005000) 1"
    unfolding block_tables_walk(2) by (simp add: region_eval mmu_eval block_tables_def)
qed (simp_all add: map_request_def lshift_eq region_eval const_defs)

text \<open>
  The descriptor of a region carries the permissions asked for: read-only unless \<open>MT_RW\<close>,
  accessible from EL0 only with \<open>MT_RW_AP_ELX\<close>, non-secure with \<open>MT_NS\<close>, the memory type in its
  field, the access flag set, the type bits left for the level; and device memory is never
  executable at any level.
\<close>

theorem region_permissions:
  "(bit (GetRegionDesc attrs) 7 \<longleftrightarrow> \<not> bit attrs 3) \<and> (bit (GetRegionDesc attrs) 6 \<longleftrightarrow> bit attrs 7) \<and>
   (bit (GetRegionDesc attrs) 5 \<longleftrightarrow> bit attrs 4) \<and> bit (GetRegionDesc attrs) 10 \<and>
   GetRegionDesc attrs AND 3 = 0 \<and>
   drop_bit 2 (GetRegionDesc attrs) AND 7 = ucast (MT_TYPE attrs) \<and>
   (MT_TYPE attrs \<in> {MT_DEVICE_NGNRNE, MT_DEVICE_NGNRE, MT_DEVICE_GRE} \<longrightarrow>
      bit (GetRegionDesc attrs) 53 \<and> bit (GetRegionDesc attrs) 54)"
proof -
  have "GetRegionDesc attrs AND 3 = 0" by (simp add: and_3_bits bit_GetRegionDesc)
  then show ?thesis using GetRegionDesc_type [of attrs] by (auto simp: bit_GetRegionDesc const_defs)
qed

theorem region_permissions_witness:
  "MT_TYPE (MT_RW OR MT_DEVICE_NGNRE) = MT_DEVICE_NGNRE \<and> bit (GetRegionDesc (MT_RW OR MT_DEVICE_NGNRE)) 53"
proof -
  have "MT_TYPE (MT_RW OR MT_DEVICE_NGNRE) = MT_DEVICE_NGNRE" by (simp add: region_eval const_defs)
  then show ?thesis using region_permissions [of "MT_RW OR MT_DEVICE_NGNRE"] by simp
qed

text \<open>
  Read-only normal memory is executable at EL1 even when \<open>MT_P_EXECUTE_NEVER\<close> is asked for:
  \<open>GetRegionDesc\<close> sets the privileged execute-never bit only together with \<open>MT_RW\<close>. This includes
  \<open>MT_P_RO_U_NA\<close> and \<open>MT_P_RO_U_RO\<close>, which \<^verbatim>\<open>fmmu.h\<close> describes as "no execution allowed in any
  mode", and with them the read-only data of the image.
\<close>

theorem read_only_memory_is_executable:
  assumes "MT_TYPE attrs \<in> {MT_NORMAL_NC, MT_NORMAL}" "attrs AND MT_RW = 0"
  shows "GetRegionDesc attrs AND PTE_BLOCK_DESC_PXN = 0"
proof -
  have "\<not> bit attrs 3" using assms(2) bit_AND_MT(2) by blast
  then have "\<not> bit (GetRegionDesc attrs) 53" using assms(1) by (auto simp: bit_GetRegionDesc const_defs)
  then show ?thesis by (intro bit_word_eqI) (auto simp: bit_and_iff bit_pte_consts)
qed

definition MT_P_RO_U_NA :: u32 where
  "MT_P_RO_U_NA = ((push_bit 3 0 OR push_bit 7 0) OR MT_P_EXECUTE_NEVER) OR MT_U_EXECUTE_NEVER"

theorem read_only_memory_is_executable_witness:
  "GetRegionDesc (MT_NORMAL OR MT_P_RO_U_NA) AND PTE_BLOCK_DESC_PXN = 0"
  by (rule read_only_memory_is_executable) (simp_all add: MT_P_RO_U_NA_def region_eval const_defs)


definition zero_tables :: ArmMmuPtables where
  "zero_tables = \<lparr>xlat_addr = 0x80000000, xlat_tables = (\<lambda>_. 0), xlat_use_count = (\<lambda>_. 0), base_xlat_table = 0\<rparr>"

definition device_region :: ArmMmuRegion where
  "device_region = \<lparr>base_pa = 0, base_va = 0, region_size = 0x40000000,
     region_attrs = (MT_DEVICE_NGNRNE OR MT_RW) OR MT_NS\<rparr>"


text \<open>
  \<open>FSetTlbAttributes\<close> rounds the size up without the offset of the address in its page. When
  the offset plus the size exceeds the rounded size, the call changes only the pages before the
  last one: the translation of the last byte of the region stays as it was.
\<close>

theorem tlb_attributes_miss_tail:
  assumes "mmu_wf pt" "sz \<noteq> 0" "unat addr + unat sz < 2 ^ 44" "unat sz < 2 ^ 38"
    "(unat sz + 4095) div 4096 * 4096 < unat addr mod 4096 + unat sz"
  shows "\<exists>pt'. FSetTlbAttributes pt addr sz attrib = Some pt' \<and> mmu_wf pt' \<and>
    translate pt' (addr + (sz - 1)) = translate pt (addr + (sz - 1))"
proof -
  define a where "a = rounddown addr 0x1000"
  define s where "s = roundup sz 0x1000"
  have us: "unat s = (unat sz + 4095) div 4096 * 4096"
  proof -
    have "unat (sz + 0xFFF) = unat sz + 4095" using assms(4) by (simp add: unat_word_ariths(1))
    then have "unat ((sz + 0xFFF) div 0x1000) = (unat sz + 4095) div 4096" by (simp add: unat_div_distrib)
    then show ?thesis using assms(4) by (simp add: s_def roundup_def unat_word_ariths(2))
  qed
  have ua: "unat a = unat addr div 4096 * 4096"
  proof -
    have m: "unat (addr mod 0x1000) = unat addr mod 4096" by (simp add: unat_mod_distrib)
    then have "addr mod 0x1000 \<le> addr" by (simp add: word_le_nat_alt)
    then have "unat a = unat addr - unat addr mod 4096" unfolding a_def rounddown_def m [symmetric] by (rule unat_sub)
    then show ?thesis by (simp add: minus_mod_eq_div_mult)
  qed
  have sz: "0 < unat sz" using assms(2) by (simp add: word_neq_0_conv word_less_nat_alt)
  have last: "unat (addr + (sz - 1)) = unat addr + unat sz - 1"
    using assms(3) sz by (simp add: unat_word_ariths(1) unat_sub word_le_nat_alt)
  have rq: "map_request a s" "phys_request a a s attrib"
    using assms(3,4) sz us ua
    by (auto simp: map_request_def phys_request_def word_neq_0_conv word_less_nat_alt)
  obtain ret pt' where r: "SetMapping pt a s (GetRegionDesc attrib OR a) (attrib AND MT_NO_OVERWRITE = 0) = Some (ret, pt')"
    "mmu_wf pt'" "map_post pt a s (GetRegionDesc attrib OR a) (attrib AND MT_NO_OVERWRITE = 0) ret pt'"
    by (rule SetMapping_ok [OF assms(1) request_ok_map [OF rq]])
  have "s \<noteq> 0" using rq(1) by (simp add: map_request_def)
  moreover have "a < a + (s - 1)"
  proof -
    have "4096 \<le> unat s" using us sz by (simp add: div_greater_zero_iff Suc_le_eq)
    moreover have "unat a + unat s < 2 ^ 48" using us ua assms(3,4) by simp
    ultimately show ?thesis by (simp add: word_less_nat_alt unat_word_ariths(1) unat_sub word_le_nat_alt)
  qed
  ultimately have "FSetTlbAttributes pt addr sz attrib = Some pt'"
    using r(1) rq unfolding FSetTlbAttributes_def MemRegionAlign_def ArchMemMap_def AddMap_def Let_def
    by (simp add: const_defs a_def [symmetric] s_def [symmetric])
       (simp add: map_request_def page_aligned_or page_aligned_iff [unfolded CONFIG_MMU_PAGE_SIZE_def, simplified])
  moreover have "\<not> in_range a s (addr + (sz - 1))"
    unfolding in_range_def us ua last using assms(5) div_mult_mod_eq [of "unat addr" 4096] by linarith
  moreover have "unat (addr + (sz - 1)) < 2 ^ 48" using last assms(3) by simp
  ultimately show ?thesis using r(2,3) unfolding map_post_def by blast
qed

theorem tlb_attributes_miss_tail_witness:
  "\<exists>pt'. FSetTlbAttributes empty_tables 0x80000ff0 0x20 MT_NORMAL = Some pt' \<and> mmu_wf pt' \<and>
    translate pt' (0x80000ff0 + (0x20 - 1)) = translate empty_tables (0x80000ff0 + (0x20 - 1))"
  by (rule tlb_attributes_miss_tail [OF empty_tables_wf]) simp_all

end
