(* ===== verification/MmuDisplay.thy ===== *)
theory MmuDisplay
  imports MmuProps
begin

text \<open>
  The inspection functions of \<^verbatim>\<open>standalone/arch/armv8/aarch64/fmmu_display.c\<close>: the list of
  mappings read back from the tables, its compression, and the queries by virtual and by physical
  address. An output array is a list; the array of mappings with its count is one list.
\<close>

section \<open>Model\<close>

record MappingInfo =
  start_virt :: u64
  end_virt :: u64
  start_phys :: u64
  end_phys :: u64
  map_size :: u64
  map_attrs :: u64
  map_count :: u64

text \<open>One round of the loop of \<open>FMmuCompressMappingInfo\<close>; the last element is the current run.\<close>

definition compress_step :: "MappingInfo list \<Rightarrow> MappingInfo \<Rightarrow> MappingInfo list" where
  "compress_step compressed m =
    (if compressed = [] \<or>
        map_attrs m \<noteq> map_attrs (last compressed) \<or>
        map_size m \<noteq> map_size (last compressed) \<or>
        start_phys m \<noteq> end_phys (last compressed) + 1 \<or>
        start_virt m \<noteq> end_virt (last compressed) + 1
     then compressed @ [m\<lparr>end_virt := start_virt m + map_size m - 1,
                          end_phys := start_phys m + map_size m - 1, map_count := 1\<rparr>]
     else butlast compressed @ [(last compressed)\<lparr>end_virt := start_virt m + map_size m - 1,
            end_phys := start_phys m + map_size m - 1, map_count := map_count (last compressed) + 1\<rparr>])"

definition FMmuCompressMappingInfo :: "MappingInfo list \<Rightarrow> MappingInfo list" where
  "FMmuCompressMappingInfo mappings = foldl compress_step [] mappings"

text \<open>The record of a block or page descriptor of a level at a virtual address.\<close>

definition leaf_info :: "u64 \<Rightarrow> nat \<Rightarrow> u64 \<Rightarrow> MappingInfo" where
  "leaf_info pte level va =
     (let sz = push_bit (LEVEL_TO_VA_SIZE_SHIFT level) 1; pa = pte AND GENMASK_ULL 47 12
      in \<lparr>start_virt = va, end_virt = va + sz - 1, start_phys = pa, end_phys = pa + sz - 1,
          map_size = sz, map_attrs = pte AND NOT (GENMASK_ULL 47 12), map_count = 1\<rparr>)"

text \<open>
  \<open>FMmuCollectMappingInfo\<close>: the first number counts the levels below the table, so the level of
  the table is \<open>3 - n\<close>; the entries found are appended in order.
\<close>

primrec FMmuCollectMappingInfo :: "ArmMmuPtables \<Rightarrow> nat \<Rightarrow> nat \<Rightarrow> u64 \<Rightarrow> MappingInfo list" where
  "FMmuCollectMappingInfo pt 0 table va_start =
     concat (map (\<lambda>i. let pte = xlat_tables pt (table + i);
                          va = va_start + push_bit (LEVEL_TO_VA_SIZE_SHIFT 3) (of_nat i)
                      in if pte AND PTE_DESC_TYPE_MASK = PTE_INVALID_DESC then []
                         else [leaf_info pte 3 va]) [0..<LN_XLAT_NUM_ENTRIES])"
| "FMmuCollectMappingInfo pt (Suc n) table va_start =
     concat (map (\<lambda>i. let level = 2 - n; pte = xlat_tables pt (table + i);
                          va = va_start + push_bit (LEVEL_TO_VA_SIZE_SHIFT level) (of_nat i)
                      in if pte AND PTE_DESC_TYPE_MASK = PTE_INVALID_DESC then []
                         else if pte AND PTE_DESC_TYPE_MASK = PTE_BLOCK_DESC then [leaf_info pte level va]
                         else if pte AND PTE_DESC_TYPE_MASK = PTE_TABLE_DESC
                         then FMmuCollectMappingInfo pt n (PteDescTable pt pte) va
                         else []) [0..<LN_XLAT_NUM_ENTRIES])"

definition FMmuReverseSetMapping :: "ArmMmuPtables \<Rightarrow> MappingInfo list" where
  "FMmuReverseSetMapping pt = FMmuCollectMappingInfo pt 3 0 0"

text \<open>The attributes of a region from those of a descriptor; the names are not modelled.\<close>

definition mapping_attrs :: "u64 \<Rightarrow> u32" where
  "mapping_attrs attrs =
     (let r = 0 OR (if attrs AND PTE_BLOCK_DESC_PXN \<noteq> 0 then MT_P_EXECUTE_NEVER else 0);
          r = r OR (if attrs AND PTE_BLOCK_DESC_NS \<noteq> 0 then MT_NS else 0);
          r = r OR (if attrs AND PTE_BLOCK_DESC_UXN \<noteq> 0 then MT_U_EXECUTE_NEVER else 0);
          r = r OR (if PTE_BLOCK_DESC_AP_RO AND attrs = PTE_BLOCK_DESC_AP_RO then push_bit 3 0 else MT_RW);
          r = r OR (if PTE_BLOCK_DESC_AP_ELx AND attrs = 0 then push_bit 7 0 else MT_RW_AP_ELX);
          mt = drop_bit 2 attrs AND 7
      in r OR (if mt = 0 then MT_DEVICE_NGNRNE else if mt = 1 then MT_DEVICE_NGNRE
               else if mt = 2 then MT_DEVICE_GRE else if mt = 3 then MT_NORMAL_NC
               else if mt = 4 then MT_NORMAL else if mt = 5 then MT_NORMAL_WT else 0))"

definition FMmuMapping2Region :: "MappingInfo \<Rightarrow> ArmMmuRegion" where
  "FMmuMapping2Region m =
     \<lparr>base_pa = start_phys m, base_va = start_virt m, region_size = map_size m,
      region_attrs = mapping_attrs (map_attrs m)\<rparr>"

text \<open>The count, and the regions stored in an output array of \<open>max_mappings\<close> elements.\<close>

definition FMmuGetMappingsByPA :: "MappingInfo list \<Rightarrow> u64 \<Rightarrow> nat \<Rightarrow> nat \<times> ArmMmuRegion list" where
  "FMmuGetMappingsByPA all_mappings pa max_mappings =
     foldl (\<lambda>(mapping_count, out) m.
        if pa \<ge> start_phys m \<and> pa \<le> end_phys m
        then (mapping_count + 1, if mapping_count < max_mappings then out @ [FMmuMapping2Region m] else out)
        else (mapping_count, out)) (0, []) all_mappings"

definition FMmuGetAllVaByPA :: "MappingInfo list \<Rightarrow> u64 \<Rightarrow> nat \<Rightarrow> nat \<times> u64 list" where
  "FMmuGetAllVaByPA all_mappings pa max_va =
     foldl (\<lambda>(mapping_count, out) m.
        if pa \<ge> start_phys m \<and> pa \<le> end_phys m
        then (mapping_count + 1,
              if mapping_count < max_va then out @ [start_virt m + (pa - start_phys m)] else out)
        else (mapping_count, out)) (0, []) all_mappings"

text \<open>The static state: the mappings, and whether they have been sorted once.\<close>

record mmu_view =
  all_mappings :: "MappingInfo list"
  is_sorted :: bool

definition FMmuMapRetopology :: "ArmMmuPtables \<Rightarrow> mmu_view \<Rightarrow> mmu_view" where
  "FMmuMapRetopology pt v = v\<lparr>all_mappings := FMmuReverseSetMapping pt\<rparr>"

text \<open>The binary search of \<open>FMmuGetMappingByVA\<close>, with the signed bounds of the code.\<close>

function mapping_search :: "MappingInfo list \<Rightarrow> u64 \<Rightarrow> int \<Rightarrow> int \<Rightarrow> MappingInfo option" where
  "mapping_search ms va left right =
    (if left \<le> right
     then let mid = left + (right - left) div 2; m = ms ! nat mid
          in if va \<ge> start_virt m \<and> va \<le> end_virt m then Some m
             else if va < start_virt m then mapping_search ms va left (mid - 1)
             else mapping_search ms va (mid + 1) right
     else None)"
  by auto
termination by (relation "measure (\<lambda>(ms, va, left, right). nat (right - left + 1))") auto

declare mapping_search.simps [simp del]

definition FMmuGetMappingByVA :: "mmu_view \<Rightarrow> u64 \<Rightarrow> ArmMmuRegion option \<times> mmu_view" where
  "FMmuGetMappingByVA v va =
     (let v = (if \<not> is_sorted v
               then v\<lparr>all_mappings := sort_key start_virt (all_mappings v), is_sorted := True\<rparr> else v)
      in (map_option FMmuMapping2Region
            (mapping_search (all_mappings v) va 0 (int (length (all_mappings v)) - 1)), v))"

definition FMmuGetPAByVA :: "mmu_view \<Rightarrow> u64 \<Rightarrow> u64 option \<times> mmu_view" where
  "FMmuGetPAByVA v va =
     (case FMmuGetMappingByVA v va of
        (Some mmu_region, v) \<Rightarrow> (Some (base_pa mmu_region + (va - base_va mmu_region)), v)
      | (None, v) \<Rightarrow> (None, v))"

text \<open>The remaining tables and bytes that \<open>FMmuCalculateRemainingMemorySpace\<close> reports.\<close>

definition FMmuCalculateRemainingMemorySpace :: "ArmMmuPtables \<Rightarrow> u64 \<times> u64" where
  "FMmuCalculateRemainingMemorySpace pt =
     (let free_entries = foldl (\<lambda>f i. f + ucast (of_nat LN_XLAT_NUM_ENTRIES + 2 - ucast (xlat_use_count pt i) :: u32))
            0 [0..<CONFIG_MAX_XLAT_TABLES]
      in (free_entries, free_entries * push_bit PAGE_SIZE_SHIFT 1))"

end
