(* ===== verification/MmuDisplayProps.thy ===== *)
theory MmuDisplayProps
  imports MmuDisplay
begin

text \<open>
  The list of mappings read back from well-formed tables is sorted, its ranges are disjoint, and
  it lists exactly the addresses the hardware translates; so the queries answer what the hardware
  would do.
\<close>

section \<open>The list read back from the tables\<close>

definition covers :: "MappingInfo \<Rightarrow> u64 \<Rightarrow> bool" where
  "covers m va \<longleftrightarrow> start_virt m \<le> va \<and> va \<le> end_virt m"

definition info_out :: "MappingInfo \<Rightarrow> u64 \<Rightarrow> u64 \<times> u64" where
  "info_out m va = (start_phys m + (va - start_virt m), map_attrs m AND DESC_ATTRS_MASK)"

text \<open>Mappings in increasing order of disjoint ranges between two bounds.\<close>

definition same_extent :: "MappingInfo \<Rightarrow> bool" where
  "same_extent m \<longleftrightarrow> (\<exists>n. unat (end_virt m) = unat (start_virt m) + n \<and> unat (end_phys m) = unat (start_phys m) + n) \<and>
     unat (end_phys m) < 2 ^ 48"

definition in_bounds :: "nat \<Rightarrow> nat \<Rightarrow> MappingInfo \<Rightarrow> bool" where
  "in_bounds lo hi m \<longleftrightarrow> lo \<le> unat (start_virt m) \<and> unat (end_virt m) < hi \<and> same_extent m"

lemma same_extent_le: "same_extent m \<Longrightarrow> unat (start_virt m) \<le> unat (end_virt m)"
  by (auto simp: same_extent_def)

definition ordered :: "MappingInfo list \<Rightarrow> bool" where
  "ordered ms \<longleftrightarrow> sorted_wrt (\<lambda>m m'. unat (end_virt m) < unat (start_virt m')) ms"

lemma ordered_concat:
  assumes "\<And>j. j < n \<Longrightarrow> ordered (f j) \<and> (\<forall>m\<in>set (f j). in_bounds (lo + j * s) (lo + Suc j * s) m)"
  shows "ordered (concat (map f [0..<n])) \<and> (\<forall>m\<in>set (concat (map f [0..<n])). in_bounds lo (lo + n * s) m)"
  using assms
proof (induction n)
  case (Suc n)
  then have IH: "ordered (concat (map f [0..<n]))" "\<forall>m\<in>set (concat (map f [0..<n])). in_bounds lo (lo + n * s) m"
    and new: "ordered (f n)" "\<forall>m\<in>set (f n). in_bounds (lo + n * s) (lo + Suc n * s) m" by auto
  have "ordered (concat (map f [0..<Suc n]))"
    using IH new by (fastforce simp: ordered_def sorted_wrt_append in_bounds_def)
  moreover have "\<forall>m\<in>set (concat (map f [0..<Suc n])). in_bounds lo (lo + Suc n * s) m"
    using IH(2) new(2) by (fastforce simp: in_bounds_def dest: same_extent_le)
  ultimately show ?case by blast
qed (simp add: ordered_def)

lemma leaf_info_simps [simp]:
  "start_virt (leaf_info e l va) = va" "start_phys (leaf_info e l va) = desc_pa e"
  "end_virt (leaf_info e l va) = va + push_bit (lshift l) 1 - 1" "map_size (leaf_info e l va) = push_bit (lshift l) 1"
  "end_phys (leaf_info e l va) = desc_pa e + push_bit (lshift l) 1 - 1"
  "map_attrs (leaf_info e l va) = e AND NOT (GENMASK_ULL 47 12)"
  by (simp_all add: leaf_info_def Let_def desc_pa_def)

text \<open>The mapping of a leaf: its range is the block, and it translates as the leaf does.\<close>

lemma unat_block_end:
  fixes va :: u64
  assumes "unat va = q * 2 ^ lshift l" "q * 2 ^ lshift l + 2 ^ lshift l \<le> 2 ^ 48" "l \<le> 3"
  shows "unat (va + push_bit (lshift l) 1 - 1) = q * 2 ^ lshift l + 2 ^ lshift l - 1"
proof -
  have p: "unat (push_bit (lshift l) (1 :: u64)) = 2 ^ lshift l"
    using level_shift_less [of l] by (intro unat_pow2) simp
  have s: "unat (va + push_bit (lshift l) 1) = q * 2 ^ lshift l + 2 ^ lshift l"
    using assms(1,2) unfolding unat_word_ariths(1) p by (simp del: push_bit_of_1)
  have "1 \<le> va + push_bit (lshift l) 1" 
    using s by (simp add: word_le_nat_alt Suc_le_eq del: push_bit_of_1)
  then show ?thesis using s by (simp add: unat_sub del: push_bit_of_1)
qed

lemma leaf_info_ok:
  assumes "is_leaf l e" "unat va = q * 2 ^ lshift l" "q * 2 ^ lshift l + 2 ^ lshift l \<le> 2 ^ 48"
  shows "in_bounds (q * 2 ^ lshift l) (Suc q * 2 ^ lshift l) (leaf_info e l va)"
    and "covers (leaf_info e l va) va' \<longleftrightarrow> blk va' l = q"
    and "covers (leaf_info e l va) va' \<Longrightarrow> info_out (leaf_info e l va) va' = leaf_out e l va'"
proof -
  have l: "l \<le> 3" "0 < l" using assms(1) by (auto simp: is_leaf_def)
  note ue = unat_block_end [OF assms(2,3) l(1)]
  have pos: "(0 :: nat) < 2 ^ lshift l" by simp
  have al: "take_bit (lshift l) (desc_pa e) = 0"
    using assms(1) by (intro bit_word_eqI) (auto simp: bit_take_bit_iff bit_desc_pa is_leaf_def)
  obtain q' where q': "unat (desc_pa e) = q' * 2 ^ lshift l" "q' * 2 ^ lshift l + 2 ^ lshift l \<le> 2 ^ 48"
  proof -
    have "unat (desc_pa e) mod 2 ^ lshift l = 0" using al by (simp only: take_bit_0_iff)
    then obtain q' where q': "unat (desc_pa e) = q' * 2 ^ lshift l" by (metis mod_0_imp_dvd dvdE mult.commute)
    have "desc_pa e = take_bit 48 (desc_pa e)" by (intro bit_word_eqI) (auto simp: bit_take_bit_iff bit_desc_pa)
    then have "unat (desc_pa e) < 2 ^ 48" using unat_take_bit [of 48 "desc_pa e"] by simp
    moreover have "lshift l \<le> 48" by (simp add: lshift_eq)
    ultimately have "q' < 2 ^ (48 - lshift l)"
      using q' by (metis le_add_diff_inverse2 nat_mult_less_cancel_disj mult.commute power_add)
    then have "Suc q' * 2 ^ lshift l \<le> 2 ^ (48 - lshift l) * 2 ^ lshift l" by (intro mult_le_mono1) simp
    then show ?thesis using that q' \<open>lshift l \<le> 48\<close> by (simp add: power_add [symmetric])
  qed
  show "in_bounds (q * 2 ^ lshift l) (Suc q * 2 ^ lshift l) (leaf_info e l va)"
    unfolding in_bounds_def same_extent_def leaf_info_simps ue assms(2) unat_block_end [OF q' l(1)] q'(1) mult_Suc
    using pos q'(2) by (intro conjI exI [of _ "2 ^ lshift l - 1"]) linarith+
  have "q * m \<le> x \<and> x \<le> q * m + m - 1 \<longleftrightarrow> x div m = q" if "0 < m" for x m :: nat
    using that by (metis One_nat_def Suc_pred add_gr_0 div_nat_eqI dividend_less_times_div less_Suc_eq_le
        mult.commute mult_Suc_right div_times_less_eq_dividend add.commute)
  from this [OF pos, of "unat va'"] show c: "covers (leaf_info e l va) va' \<longleftrightarrow> blk va' l = q"
    unfolding covers_def leaf_info_simps word_le_nat_alt ue assms(2) blk_def .
  assume "covers (leaf_info e l va) va'"
  then have b: "blk va' l = blk va l" using c assms(2) by (simp add: blk_def)
  have "take_bit (lshift l) va = 0" using assms(2) by (simp add: take_bit_0_iff)
  then have "Some (leaf_out e l va') = target e va va'"
    using leaf_out_target [OF is_leaf_nonzero [OF assms(1)] l(1) b] al by simp
  moreover have "(e AND NOT (GENMASK_ULL 47 12)) AND DESC_ATTRS_MASK = e AND DESC_ATTRS_MASK"
    by (rule bit_word_eqI) (auto simp: bit_and_iff bit_not_iff bit_GENMASK_ULL bit_DESC_ATTRS_MASK)
  ultimately show "info_out (leaf_info e l va) va' = leaf_out e l va'"
    using is_leaf_nonzero [OF assms(1)] by (simp add: info_out_def target_def)
qed

text \<open>
  The entries of one table: entry \<open>j\<close> of a table of level \<open>l\<close> that covers block \<open>p\<close> of the level
  above stands for block \<open>p * 512 + j\<close>.
\<close>

definition collects :: "ArmMmuPtables \<Rightarrow> nat \<Rightarrow> nat \<Rightarrow> nat \<Rightarrow> MappingInfo list \<Rightarrow> bool" where
  "collects pt l q table ms \<longleftrightarrow> ordered ms \<and>
     (\<forall>m\<in>set ms. in_bounds (q * 2 ^ (lshift l + 9)) (Suc q * 2 ^ (lshift l + 9)) m) \<and>
     (\<forall>va. blk va l div 512 = q \<longrightarrow> (\<forall>x. hw_walk pt va (3 - l) table = Some x \<longleftrightarrow>
        (\<exists>m\<in>set ms. covers m va \<and> x = info_out m va)))"

lemma in_bounds_covers:
  assumes "in_bounds (q * 2 ^ lshift l) (Suc q * 2 ^ lshift l) m" "covers m va"
  shows "blk va l = q"
proof -
  have "q * 2 ^ lshift l \<le> unat va" "unat va < Suc q * 2 ^ lshift l"
    using assms by (auto simp: in_bounds_def covers_def word_le_nat_alt)
  then show ?thesis unfolding blk_def by (intro div_nat_eqI) (simp_all add: mult.commute)
qed

text \<open>A table whose entries are collected one by one is collected.\<close>

lemma collects_table:
  assumes l: "l \<le> 3"
    and ent: "\<And>j. j < 512 \<Longrightarrow> ordered (f j) \<and>
      (\<forall>m\<in>set (f j). in_bounds ((p * 512 + j) * 2 ^ lshift l) (Suc (p * 512 + j) * 2 ^ lshift l) m)"
    and walk: "\<And>va x. blk va l div 512 = p \<Longrightarrow> hw_walk pt va (3 - l) table = Some x \<longleftrightarrow>
      (\<exists>m\<in>set (f (XLAT_TABLE_VA_IDX va l)). covers m va \<and> x = info_out m va)"
  shows "collects pt l p table (concat (map f [0..<512]))"
proof -
  let ?s = "2 ^ lshift l :: nat"
  have b: "(p * 512 + j) * ?s = p * 2 ^ (lshift l + 9) + j * ?s"
    "Suc (p * 512 + j) * ?s = p * 2 ^ (lshift l + 9) + Suc j * ?s" for j
    by (simp_all add: power_add algebra_simps)
  have oc: "ordered (concat (map f [0..<512])) \<and> (\<forall>m\<in>set (concat (map f [0..<512])).
      in_bounds (p * 2 ^ (lshift l + 9)) (p * 2 ^ (lshift l + 9) + 512 * ?s) m)"
    by (rule ordered_concat) (use ent [unfolded b] in blast)
  have e: "p * 2 ^ (lshift l + 9) + 512 * ?s = Suc p * 2 ^ (lshift l + 9)" by (simp add: power_add)
  have "(\<exists>m\<in>set (concat (map f [0..<512])). covers m va \<and> x = info_out m va) \<longleftrightarrow>
      (\<exists>m\<in>set (f (XLAT_TABLE_VA_IDX va l)). covers m va \<and> x = info_out m va)"
    if va: "blk va l div 512 = p" for va x
  proof
    assume "\<exists>m\<in>set (concat (map f [0..<512])). covers m va \<and> x = info_out m va"
    then obtain j m where j: "j < 512" "m \<in> set (f j)" "covers m va" "x = info_out m va" by auto
    then have "blk va l = p * 512 + j" using ent [OF j(1)] in_bounds_covers by blast
    then have "XLAT_TABLE_VA_IDX va l = j" using j(1) by (simp add: idx_eq)
    then show "\<exists>m\<in>set (f (XLAT_TABLE_VA_IDX va l)). covers m va \<and> x = info_out m va" using j by auto
  next
    assume "\<exists>m\<in>set (f (XLAT_TABLE_VA_IDX va l)). covers m va \<and> x = info_out m va"
    then show "\<exists>m\<in>set (concat (map f [0..<512])). covers m va \<and> x = info_out m va"
      using idx_less [of va l] by auto
  qed
  then show ?thesis unfolding collects_def using oc walk e by simp
qed

lemma unat_entry_va:
  assumes "unat va = p * 2 ^ (lshift l + 9)" "j < 512" "p * 2 ^ (lshift l + 9) + 2 ^ (lshift l + 9) \<le> 2 ^ 48" "l \<le> 3"
  shows "unat (va + push_bit (lshift l) (of_nat j) :: u64) = (p * 512 + j) * 2 ^ lshift l"
    "(p * 512 + j) * 2 ^ lshift l + 2 ^ lshift l \<le> 2 ^ 48"
proof -
  let ?s = "2 ^ lshift l :: nat"
  have j: "j * ?s + ?s \<le> 512 * ?s" using assms(2) by (metis Suc_leI add.commute mult_Suc mult_le_mono1)
  have b: "p * 2 ^ (lshift l + 9) = p * 512 * ?s" "2 ^ (lshift l + 9) = 512 * ?s" by (simp_all add: power_add)
  show le: "(p * 512 + j) * ?s + ?s \<le> 2 ^ 48" 
    using j assms(3) unfolding b add_mult_distrib by linarith
  have uj: "unat (of_nat j :: u64) = j" using assms(2) by (subst unat_of_nat_64) auto
  have "j * ?s < 2 ^ 64" using le by (simp add: algebra_simps)
  then have "unat (push_bit (lshift l) (of_nat j) :: u64) = j * ?s"
    by (simp only: unsigned_push_bit_eq uj) (simp add: take_bit_nat_eq_self push_bit_eq_mult)
  then have sum: "unat va + unat (push_bit (lshift l) (of_nat j) :: u64) = (p * 512 + j) * ?s"
    unfolding assms(1) b by (simp only: add_mult_distrib)
  have "(2 :: nat) ^ 48 < 2 ^ LENGTH(64)" by simp
  then have "(p * 512 + j) * ?s < 2 ^ LENGTH(64)" using le by linarith
  then show "unat (va + push_bit (lshift l) (of_nat j)) = (p * 512 + j) * ?s"
    unfolding unat_word_ariths(1) sum by (rule mod_less)
qed

lemma collect_ok:
  assumes inv: "pt_inv own pt"
  shows "n \<le> 3 \<Longrightarrow> own i = Some (3 - n, p) \<Longrightarrow> unat va = p * 2 ^ (lshift (3 - n) + 9) \<Longrightarrow>
    p * 2 ^ (lshift (3 - n) + 9) + 2 ^ (lshift (3 - n) + 9) \<le> 2 ^ 48 \<Longrightarrow>
    collects pt (3 - n) p (i * 512) (FMmuCollectMappingInfo pt n (i * 512) va)"
proof (induction n arbitrary: i p va)
  case 0
  let ?f = "\<lambda>j. let pte = xlat_tables pt (i * 512 + j); va = va + push_bit (lshift 3) (of_nat j)
    in if pte AND PTE_DESC_TYPE_MASK = PTE_INVALID_DESC then [] else [leaf_info pte 3 va]"
  have ok: "xlat_tables pt (i * 512 + j) = 0 \<or> is_leaf 3 (xlat_tables pt (i * 512 + j))" if "j < 512" for j
    using pt_invD(6) [OF inv, of i 3 p j] 0 that by (auto simp: entry_ok_def)
  have f: "?f j = (if xlat_tables pt (i * 512 + j) = 0 then []
      else [leaf_info (xlat_tables pt (i * 512 + j)) 3 (va + push_bit (lshift 3) (of_nat j))])" if "j < 512" for j
    using ok [OF that] by (auto simp: is_leaf_def const_defs)
  note va = unat_entry_va [of va p 3]
  have "collects pt 3 p (i * 512) (concat (map ?f [0..<512]))"
  proof (rule collects_table)
    fix j :: nat assume j: "j < 512"
    show "ordered (?f j) \<and> (\<forall>m\<in>set (?f j).
        in_bounds ((p * 512 + j) * 2 ^ lshift 3) (Suc (p * 512 + j) * 2 ^ lshift 3) m)"
      unfolding f [OF j] using leaf_info_ok(1) ok [OF j] va [OF _ j] 0 by (auto simp: ordered_def)
  next
    fix va' x assume b: "blk va' 3 div 512 = p"
    let ?j = "XLAT_TABLE_VA_IDX va' 3" let ?e = "xlat_tables pt (i * 512 + ?j)"
    have c: "covers (leaf_info ?e 3 (va + push_bit (lshift 3) (of_nat ?j))) va'" "info_out (leaf_info ?e 3 (va + push_bit (lshift 3) (of_nat ?j))) va' = leaf_out ?e 3 va'" if "is_leaf 3 ?e"
      using leaf_info_ok(2,3) [OF that va(1) [OF _ idx_less]] va(2) [OF _ idx_less] 0 b blk_split [of va' 3] by auto
    show "hw_walk pt va' (3 - 3) (i * 512) = Some x \<longleftrightarrow> (\<exists>m\<in>set (?f ?j). covers m va' \<and> x = info_out m va')"
      unfolding f [OF idx_less] using ok [of ?j] c by (auto simp: is_leaf_def)
  qed simp
  then show ?case by (simp add: LN_XLAT_NUM_ENTRIES_def)
next
  case (Suc n)
  let ?l = "2 - n"
  let ?va = "\<lambda>j. va + push_bit (lshift ?l) (of_nat j)" let ?e = "\<lambda>j. xlat_tables pt (i * 512 + j)"
  let ?f = "\<lambda>j. let level = 2 - n; pte = ?e j; va = va + push_bit (lshift level) (of_nat j)
    in if pte AND PTE_DESC_TYPE_MASK = PTE_INVALID_DESC then []
       else if pte AND PTE_DESC_TYPE_MASK = PTE_BLOCK_DESC then [leaf_info pte level va]
       else if pte AND PTE_DESC_TYPE_MASK = PTE_TABLE_DESC then FMmuCollectMappingInfo pt n (PteDescTable pt pte) va
       else []"
  have l: "?l < 3" "3 - n = Suc ?l" "?l \<le> 3" and own: "own i = Some (?l, p)" using Suc.prems by auto
  have ls: "lshift (Suc ?l) + 9 = lshift ?l" using lshift_Suc [OF l(1)] by simp
  note va = unat_entry_va [of va p ?l]
  have vaj: "unat (?va j) = (p * 512 + j) * 2 ^ lshift ?l" "(p * 512 + j) * 2 ^ lshift ?l + 2 ^ lshift ?l \<le> 2 ^ 48"
    if "j < 512" for j using va [OF _ that] Suc.prems by auto
  have entry: "?f j = [] \<and> ?e j AND 3 = 0 \<or> ?f j = [leaf_info (?e j) ?l (?va j)] \<and> is_leaf ?l (?e j) \<and> ?e j AND 3 = 1 \<or>
      ?e j AND 3 = 3 \<and> collects pt (Suc ?l) (p * 512 + j) (PteDescTable pt (?e j)) (?f j)" if j: "j < 512" for j
  proof -
    have ok: "entry_ok own pt ?l (p * 512 + j) (?e j)" using pt_invD(6) [OF inv own j] .
    consider "?e j = 0" | "is_leaf ?l (?e j)" "?e j AND 3 = 1" | "?e j AND 3 = 3"
      using ok l(1) table_desc_type is_leaf_not_link unfolding entry_ok_def by metis
    then show ?thesis
    proof cases
      case 3
      obtain k where k: "own k = Some (Suc ?l, p * 512 + j)" "PteDescTable pt (?e j) = k * 512"
        by (rule entry_link [OF inv ok l(1) 3])
      have "collects pt (3 - n) (p * 512 + j) (k * 512) (FMmuCollectMappingInfo pt n (k * 512) (?va j))"
        using Suc.IH [of k "p * 512 + j" "?va j"] Suc.prems(1) k(1) vaj [OF j] by (simp add: l(2) ls)
      then show ?thesis using 3 k(2) l(2) by (simp add: const_defs)
    qed (auto simp: const_defs Let_def)
  qed
  have "collects pt ?l p (i * 512) (concat (map ?f [0..<512]))"
  proof (rule collects_table [OF l(3)])
    fix j :: nat assume j: "j < 512"
    from entry [OF j] show "ordered (?f j) \<and> (\<forall>m\<in>set (?f j).
        in_bounds ((p * 512 + j) * 2 ^ lshift ?l) (Suc (p * 512 + j) * 2 ^ lshift ?l) m)"
      using leaf_info_ok(1) [OF _ vaj [OF j]] unfolding collects_def ls by (elim disjE conjE) (simp_all add: ordered_def)
  next
    fix va' x assume b: "blk va' ?l div 512 = p"
    let ?j = "XLAT_TABLE_VA_IDX va' ?l"
    have bq: "blk va' ?l = p * 512 + ?j" using b blk_split [of va' ?l] by simp
    have w: "hw_walk pt va' (3 - ?l) (i * 512) = (if ?e ?j AND 3 = 3 then hw_walk pt va' n (PteDescTable pt (?e ?j))
       else if ?e ?j AND 3 = 1 \<and> ?l \<noteq> 0 then Some (leaf_out (?e ?j) ?l va') else None)"
    proof -
      have "3 - ?l = Suc n" using Suc.prems(1) by simp
      then show ?thesis by (simp add: Let_def)
    qed
    from entry [OF idx_less, of va' ?l]
    show "hw_walk pt va' (3 - ?l) (i * 512) = Some x \<longleftrightarrow> (\<exists>m\<in>set (?f ?j). covers m va' \<and> x = info_out m va')"
    proof (elim disjE conjE)
      assume a: "?f ?j = [leaf_info (?e ?j) ?l (?va ?j)]" "is_leaf ?l (?e ?j)" "?e ?j AND 3 = 1"
      have "covers (leaf_info (?e ?j) ?l (?va ?j)) va'" "info_out (leaf_info (?e ?j) ?l (?va ?j)) va' = leaf_out (?e ?j) ?l va'"
        using leaf_info_ok(2,3) [OF a(2) vaj [OF idx_less]] bq by auto
      moreover have "?l \<noteq> 0" using a(2) by (auto simp: is_leaf_def)
      ultimately show ?thesis unfolding w a(1) using a(3) by auto
    next
      assume a: "?e ?j AND 3 = 3" "collects pt (Suc ?l) (p * 512 + ?j) (PteDescTable pt (?e ?j)) (?f ?j)"
      have "blk va' (Suc ?l) div 512 = p * 512 + ?j" using blk_Suc [OF l(1), of va'] bq by simp
      moreover have n: "3 - Suc ?l = n" using Suc.prems(1) by simp
      ultimately show ?thesis
        using a(2) unfolding w if_P [OF a(1)] collects_def n by blast
    qed (simp add: w)
  qed
  then show ?case by (simp add: LN_XLAT_NUM_ENTRIES_def)
qed

lemma reverse_ok:
  assumes "mmu_wf pt" "base_xlat_table pt = 0"
  shows "ordered (FMmuReverseSetMapping pt)"
    and "\<forall>m\<in>set (FMmuReverseSetMapping pt). in_bounds 0 (2 ^ 48) m"
    and "unat va < 2 ^ 48 \<Longrightarrow> translate pt va = Some x \<longleftrightarrow>
      (\<exists>m\<in>set (FMmuReverseSetMapping pt). covers m va \<and> x = info_out m va)"
proof -
  obtain own where inv: "pt_inv own pt" using assms(1) by (auto simp: mmu_wf_def)
  obtain b where "base_xlat_table pt = b * 512" "own b = Some (0, 0)" using pt_invD(2) [OF inv] by blast
  then have "own 0 = Some (0, 0)" using assms(2) by simp
  then have c: "collects pt 0 0 0 (FMmuReverseSetMapping pt)"
    using collect_ok [OF inv, of 3 0 0 0] by (simp add: FMmuReverseSetMapping_def lshift_eq)
  have l: "lshift 0 + 9 = 48" by (simp add: lshift_eq)
  show "ordered (FMmuReverseSetMapping pt)" using c by (simp add: collects_def)
  show "\<forall>m\<in>set (FMmuReverseSetMapping pt). in_bounds 0 (2 ^ 48) m" using c unfolding collects_def l by simp
  assume "unat va < 2 ^ 48"
  then show "translate pt va = Some x \<longleftrightarrow>
      (\<exists>m\<in>set (FMmuReverseSetMapping pt). covers m va \<and> x = info_out m va)"
    using c blk_0 [of va] unfolding collects_def translate_def assms(2) diff_zero by blast
qed

section \<open>Search by virtual address\<close>

lemma ordered_nth_less:
  "ordered ms \<Longrightarrow> i < j \<Longrightarrow> j < length ms \<Longrightarrow> unat (end_virt (ms ! i)) < unat (start_virt (ms ! j))"
  by (auto simp: ordered_def sorted_wrt_iff_nth_less)

lemma not_covered_side:
  assumes "ordered ms" "\<forall>m\<in>set ms. unat (start_virt m) \<le> unat (end_virt m)" "k < length ms" "\<not> covers (ms ! k) va"
  shows "va < start_virt (ms ! k) \<Longrightarrow> k \<le> i \<Longrightarrow> i < length ms \<Longrightarrow> \<not> covers (ms ! i) va"
    and "\<not> va < start_virt (ms ! k) \<Longrightarrow> i \<le> k \<Longrightarrow> \<not> covers (ms ! i) va"
proof -
  have se: "unat (start_virt (ms ! i)) \<le> unat (end_virt (ms ! i))" if "i < length ms" for i
    using assms(2) that by simp
  show "\<not> covers (ms ! i) va" if "va < start_virt (ms ! k)" "k \<le> i" "i < length ms"
    using that assms(3) se [of k] ordered_nth_less [OF assms(1), of k i]
    by (cases "k = i") (auto simp: covers_def word_less_nat_alt word_le_nat_alt)
  show "\<not> covers (ms ! i) va" if "\<not> va < start_virt (ms ! k)" "i \<le> k"
    using that assms(3,4) se [of k] ordered_nth_less [OF assms(1), of i k]
    by (cases "i = k") (auto simp: covers_def word_less_nat_alt word_le_nat_alt)
qed

lemma mapping_search_ok:
  assumes "ordered ms" "\<forall>m\<in>set ms. unat (start_virt m) \<le> unat (end_virt m)"
    "0 \<le> left" "right < int (length ms)" "\<And>i. int i < left \<Longrightarrow> i < length ms \<Longrightarrow> \<not> covers (ms ! i) va"
    "\<And>i. right < int i \<Longrightarrow> i < length ms \<Longrightarrow> \<not> covers (ms ! i) va"
  shows "case mapping_search ms va left right of Some m \<Rightarrow> m \<in> set ms \<and> covers m va
      | None \<Rightarrow> \<forall>m\<in>set ms. \<not> covers m va"
  using assms
proof (induction ms va left right rule: mapping_search.induct)
  case (1 ms va left right)
  show ?case
  proof (cases "left \<le> right")
    case False
    have "\<not> covers (ms ! i) va" if "i < length ms" for i
      using "1.prems"(5,6) [OF _ that] False by (cases "int i < left") auto
    then have "\<forall>m\<in>set ms. \<not> covers m va" by (metis in_set_conv_nth)
    then show ?thesis using False by (simp add: mapping_search.simps)
  next
    case True
    define mid where "mid = left + (right - left) div 2"
    define m where "m = ms ! nat mid"
    have mid: "left \<le> mid" "mid \<le> right" using True by (auto simp: mid_def)
    then have nm: "nat mid < length ms" and im: "int (nat mid) = mid" using "1.prems"(3,4) by auto
    note step = mapping_search.simps [of ms va left right, unfolded Let_def, folded mid_def, folded m_def]
    note IH = "1.IH" [OF True mid_def m_def]
    note side = not_covered_side [OF "1.prems"(1,2) nm, of va, folded m_def]
    consider "covers m va" | "\<not> covers m va" "va < start_virt m" | "\<not> covers m va" "\<not> va < start_virt m" by blast
    then show ?thesis
    proof cases
      case 1
      then show ?thesis using step True nm by (simp add: covers_def m_def)
    next
      case 2
      have "case mapping_search ms va left (mid - 1) of Some m \<Rightarrow> m \<in> set ms \<and> covers m va
          | None \<Rightarrow> \<forall>m\<in>set ms. \<not> covers m va"
      proof (rule IH(1))
        show "\<not> (start_virt m \<le> va \<and> va \<le> end_virt m)" using 2(1) by (simp add: covers_def)
        fix i assume "mid - 1 < int i" "i < length ms"
        then show "\<not> covers (ms ! i) va" using side(1) [OF 2] im by simp
      qed (use 2 "1.prems" mid in auto)
      moreover have "mapping_search ms va left right = mapping_search ms va left (mid - 1)"
        unfolding step if_P [OF True] using 2 by (auto simp: covers_def)
      ultimately show ?thesis by simp
    next
      case 3
      have "case mapping_search ms va (mid + 1) right of Some m \<Rightarrow> m \<in> set ms \<and> covers m va
          | None \<Rightarrow> \<forall>m\<in>set ms. \<not> covers m va"
      proof (rule IH(2))
        show "\<not> (start_virt m \<le> va \<and> va \<le> end_virt m)" using 3(1) by (simp add: covers_def)
        fix i assume "int i < mid + 1" "i < length ms"
        then show "\<not> covers (ms ! i) va" using side(2) [OF 3, of i] im by simp
      qed (use 3 "1.prems" mid in auto)
      moreover have "mapping_search ms va left right = mapping_search ms va (mid + 1) right"
        unfolding step if_P [OF True] using 3 by (auto simp: covers_def)
      ultimately show ?thesis by simp
    qed
  qed
qed

lemma ordered_sorted:
  assumes "ordered ms" "\<forall>m\<in>set ms. unat (start_virt m) \<le> unat (end_virt m)"
  shows "sort_key start_virt ms = ms"
proof (rule sort_key_id_if_sorted)
  have "sorted_wrt (\<lambda>m m'. start_virt m \<le> start_virt m') ms"
    unfolding sorted_wrt_iff_nth_less
  proof (intro allI impI)
    fix i j assume "i < j" "j < length ms"
    then show "start_virt (ms ! i) \<le> start_virt (ms ! j)"
      using ordered_nth_less [OF assms(1), of i j] bspec [OF assms(2), of "ms ! i"] by (simp add: word_le_nat_alt)
  qed
  then show "sorted (map start_virt ms)" by (simp add: sorted_wrt_map)
qed

lemma va_query:
  fixes v :: mmu_view
  assumes "mmu_wf pt" "base_xlat_table pt = 0" "unat va < 2 ^ 48"
  defines "v1 \<equiv> FMmuMapRetopology pt v"
  obtains m where "fst (FMmuGetMappingByVA v1 va) = Some (FMmuMapping2Region m)"
      "m \<in> set (FMmuReverseSetMapping pt)" "covers m va" "translate pt va = Some (info_out m va)"
  | "fst (FMmuGetMappingByVA v1 va) = None" "translate pt va = None"
proof -
  let ?ms = "FMmuReverseSetMapping pt"
  note rv = reverse_ok [OF assms(1,2)]
  have le: "\<forall>m\<in>set ?ms. unat (start_virt m) \<le> unat (end_virt m)"
    using rv(2) same_extent_le by (auto simp: in_bounds_def)
  have q: "fst (FMmuGetMappingByVA v1 va) = map_option FMmuMapping2Region (mapping_search ?ms va 0 (int (length ?ms) - 1))"
    using ordered_sorted [OF rv(1) le] by (simp add: FMmuGetMappingByVA_def v1_def FMmuMapRetopology_def Let_def)
  have s: "case mapping_search ?ms va 0 (int (length ?ms) - 1) of Some m \<Rightarrow> m \<in> set ?ms \<and> covers m va
      | None \<Rightarrow> \<forall>m\<in>set ?ms. \<not> covers m va"
    by (rule mapping_search_ok [OF rv(1) le]) auto
  show ?thesis
  proof (cases "mapping_search ?ms va 0 (int (length ?ms) - 1)")
    case None
    then have "translate pt va = None" using s rv(3) [OF assms(3)] by (cases "translate pt va") auto
    then show ?thesis using that(2) q None by simp
  next
    case (Some m)
    then show ?thesis using that(1) q s rv(3) [OF assms(3)] by auto
  qed
qed

section \<open>Queries by physical address\<close>

lemma foldl_filter_take:
  "foldl (\<lambda>(c, out) m. if P m then (c + 1, if c < n then out @ [g m] else out) else (c, out)) (length xs, take n xs) ms
   = (length (xs @ map g (filter P ms)), take n (xs @ map g (filter P ms)))"
proof (induction ms arbitrary: xs)
  case (Cons m ms)
  show ?case
  proof (cases "P m")
    case True
    have "(if length xs < n then take n xs @ [g m] else take n xs) = take n (xs @ [g m])" by simp
    then show ?thesis using Cons.IH [of "xs @ [g m]"] True by simp
  qed (use Cons.IH in simp)
qed simp

lemma FMmuGetAllVaByPA_eq:
  "FMmuGetAllVaByPA ms pa n =
    (let L = map (\<lambda>m. start_virt m + (pa - start_phys m)) (filter (\<lambda>m. pa \<ge> start_phys m \<and> pa \<le> end_phys m) ms)
     in (length L, take n L))"
  using foldl_filter_take [where xs = "[]"] unfolding FMmuGetAllVaByPA_def Let_def by simp

lemma FMmuGetMappingsByPA_eq:
  "FMmuGetMappingsByPA ms pa n =
    (let L = map FMmuMapping2Region (filter (\<lambda>m. pa \<ge> start_phys m \<and> pa \<le> end_phys m) ms)
     in (length L, take n L))"
  using foldl_filter_take [where xs = "[]"] unfolding FMmuGetMappingsByPA_def Let_def by simp

lemma phys_covers:
  assumes "same_extent m" "start_phys m \<le> pa" "pa \<le> end_phys m"
  shows "covers m (start_virt m + (pa - start_phys m))"
proof -
  obtain n where n: "unat (end_virt m) = unat (start_virt m) + n" "unat (end_phys m) = unat (start_phys m) + n"
    using assms(1) by (auto simp: same_extent_def)
  have d: "unat (pa - start_phys m) = unat pa - unat (start_phys m)" using assms(2) by (simp add: unat_sub)
  have le: "unat pa - unat (start_phys m) \<le> n" using assms(2,3) n(2) by (simp add: word_le_nat_alt)
  have "unat (end_virt m) < 2 ^ 64" using unsigned_less [of "end_virt m"] by simp
  then have "unat (start_virt m + (pa - start_phys m)) = unat (start_virt m) + (unat pa - unat (start_phys m))"
    using n(1) le d by (simp add: unat_word_ariths(1))
  then show ?thesis using n(1) le by (simp add: covers_def word_le_nat_alt)
qed

lemma virt_covers:
  assumes "same_extent m" "covers m va"
  shows "start_phys m \<le> fst (info_out m va)" "fst (info_out m va) \<le> end_phys m"
    "start_virt m + (fst (info_out m va) - start_phys m) = va"
proof -
  obtain n where n: "unat (end_virt m) = unat (start_virt m) + n" "unat (end_phys m) = unat (start_phys m) + n"
    using assms(1) by (auto simp: same_extent_def)
  have d: "unat (va - start_virt m) = unat va - unat (start_virt m)" "unat va - unat (start_virt m) \<le> n"
    using assms(2) n(1) by (auto simp: covers_def unat_sub word_le_nat_alt)
  have "unat (end_phys m) < 2 ^ 64" using unsigned_less [of "end_phys m"] by simp
  then have "unat (fst (info_out m va)) = unat (start_phys m) + (unat va - unat (start_virt m))"
    using n(2) d by (simp add: info_out_def unat_word_ariths(1))
  then show "start_phys m \<le> fst (info_out m va)" "fst (info_out m va) \<le> end_phys m"
    using n(2) d(2) by (simp_all add: word_le_nat_alt)
  show "start_virt m + (fst (info_out m va) - start_phys m) = va" by (simp add: info_out_def)
qed

text \<open>The virtual addresses listed for a physical one.\<close>

definition vas_of :: "MappingInfo list \<Rightarrow> u64 \<Rightarrow> u64 list" where
  "vas_of ms pa = map (\<lambda>m. start_virt m + (pa - start_phys m)) (filter (\<lambda>m. pa \<ge> start_phys m \<and> pa \<le> end_phys m) ms)"

lemma distinct_vas_of:
  assumes "ordered ms" "\<forall>m\<in>set ms. in_bounds 0 (2 ^ 48) m"
  shows "distinct (vas_of ms pa)"
  using assms
proof (induction ms)
  case (Cons m ms)
  have lt: "\<forall>m'\<in>set ms. unat (end_virt m) < unat (start_virt m')" and o: "ordered ms"
    using Cons.prems(1) by (auto simp: ordered_def)
  have cov: "covers m' (start_virt m' + (pa - start_phys m'))"
    if "m' \<in> set (m # ms)" "start_phys m' \<le> pa" "pa \<le> end_phys m'" for m'
    using phys_covers that Cons.prems(2) by (auto simp: in_bounds_def)
  have "start_virt m + (pa - start_phys m) \<notin> set (vas_of ms pa)" if "start_phys m \<le> pa" "pa \<le> end_phys m"
  proof
    assume "start_virt m + (pa - start_phys m) \<in> set (vas_of ms pa)"
    then obtain m' where m': "m' \<in> set ms" "start_phys m' \<le> pa" "pa \<le> end_phys m'"
      "start_virt m + (pa - start_phys m) = start_virt m' + (pa - start_phys m')" by (auto simp: vas_of_def)
    have "covers m' (start_virt m' + (pa - start_phys m'))" using cov m' by simp
    moreover have "covers m (start_virt m' + (pa - start_phys m'))" using cov [of m] that unfolding m'(4) by simp
    ultimately show False using bspec [OF lt m'(1)] unfolding covers_def word_le_nat_alt by linarith
  qed
  then show ?case using Cons.IH [OF o] Cons.prems(2) by (simp add: vas_of_def)
qed (simp add: vas_of_def)

lemma set_vas_of:
  assumes "mmu_wf pt" "base_xlat_table pt = 0"
  shows "set (vas_of (FMmuReverseSetMapping pt) pa) =
    {va. unat va < 2 ^ 48 \<and> map_option fst (translate pt va) = Some pa}" (is "?L = ?R")
proof (intro set_eqI iffI)
  note rv = reverse_ok [OF assms]
  fix va assume "va \<in> ?L"
  then obtain m where m: "m \<in> set (FMmuReverseSetMapping pt)" "start_phys m \<le> pa" "pa \<le> end_phys m"
    "va = start_virt m + (pa - start_phys m)" by (auto simp: vas_of_def)
  then have c: "covers m va" "in_bounds 0 (2 ^ 48) m" using phys_covers rv(2) by (auto simp: in_bounds_def)
  then have b: "unat va < 2 ^ 48" by (auto simp: covers_def in_bounds_def word_le_nat_alt)
  have "translate pt va = Some (info_out m va)" using rv(3) [OF b] m(1) c(1) by blast
  then show "va \<in> ?R" using b m(4) by (simp add: info_out_def)
next
  note rv = reverse_ok [OF assms]
  fix va assume "va \<in> ?R"
  then obtain x where b: "unat va < 2 ^ 48" and x: "translate pt va = Some x" "fst x = pa" by auto
  obtain m where m: "m \<in> set (FMmuReverseSetMapping pt)" "covers m va" "x = info_out m va"
    using rv(3) [OF b] x(1) by blast
  then have "same_extent m" using rv(2) by (auto simp: in_bounds_def)
  from virt_covers [OF this m(2)] show "va \<in> ?L" using m x(2) by (force simp: vas_of_def)
qed

section \<open>Compression\<close>

text \<open>The addresses a list of mappings translates, and to what.\<close>

definition maps_to :: "MappingInfo list \<Rightarrow> u64 \<Rightarrow> u64 \<times> u64 \<Rightarrow> bool" where
  "maps_to ms va x \<longleftrightarrow> (\<exists>m\<in>set ms. covers m va \<and> x = info_out m va)"

definition sized :: "MappingInfo \<Rightarrow> bool" where
  "sized m \<longleftrightarrow> in_bounds 0 (2 ^ 48) m \<and> end_virt m = start_virt m + map_size m - 1 \<and>
     end_phys m = start_phys m + map_size m - 1"

lemma maps_to_append [simp]: "maps_to (xs @ ys) va x \<longleftrightarrow> maps_to xs va x \<or> maps_to ys va x"
  by (auto simp: maps_to_def)

lemma maps_to_single: "maps_to [m] va x \<longleftrightarrow> covers m va \<and> x = info_out m va"
  by (simp add: maps_to_def)

text \<open>Joining two adjacent runs gives the union of both.\<close>

lemma join_runs:
  assumes c: "in_bounds 0 (2 ^ 48) c" and m: "in_bounds 0 (2 ^ 48) m"
    and adj: "start_virt m = end_virt c + 1" "start_phys m = end_phys c + 1" "map_attrs m = map_attrs c"
    and j: "start_virt j = start_virt c" "start_phys j = start_phys c" "map_attrs j = map_attrs c"
      "end_virt j = end_virt m" "end_phys j = end_phys m"
  shows "in_bounds 0 (2 ^ 48) j" "maps_to [j] va x \<longleftrightarrow> maps_to [c] va x \<or> maps_to [m] va x"
proof -
  obtain n where n: "unat (end_virt c) = unat (start_virt c) + n" "unat (end_phys c) = unat (start_phys c) + n"
    using c by (auto simp: in_bounds_def same_extent_def)
  obtain k where k: "unat (end_virt m) = unat (start_virt m) + k" "unat (end_phys m) = unat (start_phys m) + k"
    using m by (auto simp: in_bounds_def same_extent_def)
  have b: "unat (end_virt c) < 2 ^ 48" "unat (end_virt m) < 2 ^ 48" using c m by (auto simp: in_bounds_def)
  have v: "unat (start_virt m) = unat (end_virt c) + 1" using b(1) adj(1) by (simp add: unat_word_ariths(1))
  have p: "unat (start_phys m) = unat (end_phys c) + 1"
    using c adj(2) by (simp add: in_bounds_def same_extent_def unat_word_ariths(1))
  show jb: "in_bounds 0 (2 ^ 48) j"
    using b(2) n k v p j m by (auto simp: in_bounds_def same_extent_def)
  have w: "end_virt c = start_virt c + of_nat n" "end_phys c = start_phys c + of_nat n"
    using n by (metis of_nat_add of_nat_unat ucast_id)+
  have "info_out j va = info_out c va" using j by (simp add: info_out_def)
  moreover have "info_out m va = info_out c va"
    unfolding info_out_def adj w by simp
  moreover have "covers j va \<longleftrightarrow> covers c va \<or> covers m va"
    using n(1) k(1) v j by (auto simp: covers_def word_le_nat_alt)
  ultimately show "maps_to [j] va x \<longleftrightarrow> maps_to [c] va x \<or> maps_to [m] va x"
    by (auto simp: maps_to_single)
qed

lemma compress_step_ok:
  assumes "\<forall>c\<in>set cs. in_bounds 0 (2 ^ 48) c" "sized m"
  shows "(\<forall>c\<in>set (compress_step cs m). in_bounds 0 (2 ^ 48) c) \<and>
    (\<forall>va x. maps_to (compress_step cs m) va x \<longleftrightarrow> maps_to cs va x \<or> maps_to [m] va x)"
proof (cases "cs = [] \<or> map_attrs m \<noteq> map_attrs (last cs) \<or> map_size m \<noteq> map_size (last cs) \<or>
    start_phys m \<noteq> end_phys (last cs) + 1 \<or> start_virt m \<noteq> end_virt (last cs) + 1")
  case True
  have s: "compress_step cs m = cs @ [m\<lparr>map_count := 1\<rparr>]"
    unfolding compress_step_def if_P [OF True] using assms(2) by (simp add: sized_def)
  have "in_bounds 0 (2 ^ 48) (m\<lparr>map_count := 1\<rparr>) \<longleftrightarrow> in_bounds 0 (2 ^ 48) m" by (simp add: in_bounds_def same_extent_def)
  then have "in_bounds 0 (2 ^ 48) (m\<lparr>map_count := 1\<rparr>)" using assms(2) sized_def by blast
  moreover have "maps_to [m\<lparr>map_count := 1\<rparr>] va x \<longleftrightarrow> maps_to [m] va x" for va x
    by (simp add: maps_to_single covers_def info_out_def)
  ultimately show ?thesis unfolding s using assms(1) by auto
next
  case False
  define j where "j = (last cs)\<lparr>end_virt := start_virt m + map_size m - 1,
     end_phys := start_phys m + map_size m - 1, map_count := map_count (last cs) + 1\<rparr>"
  have s: "compress_step cs m = butlast cs @ [j]" unfolding compress_step_def if_not_P [OF False] j_def ..
  have ne: "cs \<noteq> []" using False by blast
  have cs: "butlast cs @ [last cs] = cs" using ne by simp
  have "last cs \<in> set cs" using ne by simp
  then have l: "in_bounds 0 (2 ^ 48) (last cs)" using assms(1) by blast
  have m: "in_bounds 0 (2 ^ 48) m" "end_virt m = start_virt m + map_size m - 1" "end_phys m = start_phys m + map_size m - 1"
    using assms(2) by (auto simp: sized_def)
  have jr: "in_bounds 0 (2 ^ 48) j" "\<And>va x. maps_to [j] va x \<longleftrightarrow> maps_to [last cs] va x \<or> maps_to [m] va x"
    using join_runs [OF l m(1), of j] False m(2,3) by (auto simp: j_def)
  have "maps_to cs va x \<longleftrightarrow> maps_to (butlast cs) va x \<or> maps_to [last cs] va x" for va x
    using maps_to_append [of "butlast cs" "[last cs]" va x] unfolding cs .
  then show ?thesis unfolding s using jr assms(1) in_set_butlastD [of _ cs] by auto
qed

lemma compress_ok:
  assumes "\<forall>c\<in>set cs. in_bounds 0 (2 ^ 48) c" "\<forall>m\<in>set ms. sized m"
  shows "maps_to (foldl compress_step cs ms) va x \<longleftrightarrow> maps_to cs va x \<or> maps_to ms va x"
  using assms
proof (induction ms arbitrary: cs)
  case (Cons m ms)
  have st: "(\<forall>c\<in>set (compress_step cs m). in_bounds 0 (2 ^ 48) c) \<and>
    (\<forall>va x. maps_to (compress_step cs m) va x \<longleftrightarrow> maps_to cs va x \<or> maps_to [m] va x)"
    by (rule compress_step_ok [OF Cons.prems(1)]) (use Cons.prems(2) in simp)
  then have "maps_to (compress_step cs m) va x \<longleftrightarrow> maps_to cs va x \<or> maps_to [m] va x" by blast
  moreover have "maps_to (foldl compress_step (compress_step cs m) ms) va x \<longleftrightarrow>
      maps_to (compress_step cs m) va x \<or> maps_to ms va x"
    by (rule Cons.IH) (use st Cons.prems(2) in auto)
  ultimately show ?case using maps_to_append [of "[m]" ms va x] by auto
qed (simp add: maps_to_def)

lemma collect_sized:
  "m \<in> set (FMmuCollectMappingInfo pt n table va) \<Longrightarrow>
   end_virt m = start_virt m + map_size m - 1 \<and> end_phys m = start_phys m + map_size m - 1"
  by (induction n arbitrary: table va) (auto simp: Let_def split: if_splits)

lemma reverse_sized:
  assumes "mmu_wf pt" "base_xlat_table pt = 0"
  shows "\<forall>m\<in>set (FMmuReverseSetMapping pt). sized m"
  using reverse_ok(2) [OF assms] collect_sized unfolding sized_def FMmuReverseSetMapping_def by blast

section \<open>Attributes\<close>

lemma AND_pte_const:
  "attrs AND PTE_BLOCK_DESC_PXN \<noteq> 0 \<longleftrightarrow> bit attrs 53" "attrs AND PTE_BLOCK_DESC_NS \<noteq> 0 \<longleftrightarrow> bit attrs 5"
  "attrs AND PTE_BLOCK_DESC_UXN \<noteq> 0 \<longleftrightarrow> bit attrs 54"
  "PTE_BLOCK_DESC_AP_RO AND attrs = PTE_BLOCK_DESC_AP_RO \<longleftrightarrow> bit attrs 7"
  "PTE_BLOCK_DESC_AP_ELx AND attrs = 0 \<longleftrightarrow> \<not> bit attrs 6"
  by (auto simp: bit_eq_iff [where 'a = "64 word"] bit_and_iff bit_pte_consts dest: spec [of _ 7])

lemma bit_MT_consts:
  "bit MT_RW k \<longleftrightarrow> k = 3" "bit MT_NS k \<longleftrightarrow> k = 4" "bit MT_P_EXECUTE_NEVER k \<longleftrightarrow> k = 5"
  "bit MT_U_EXECUTE_NEVER k \<longleftrightarrow> k = 6" "bit MT_RW_AP_ELX k \<longleftrightarrow> k = 7"
  by (auto simp: MT_RW_def MT_NS_def MT_P_EXECUTE_NEVER_def MT_U_EXECUTE_NEVER_def MT_RW_AP_ELX_def)

text \<open>The type a descriptor of a known memory type is read back as.\<close>

lemma mapping_type:
  fixes attrs :: u64
  defines "mt \<equiv> drop_bit 2 attrs AND 7"
  assumes "mt \<in> {0, 1, 2, 3, 4, 5}"
  shows "(if mt = 0 then MT_DEVICE_NGNRNE else if mt = 1 then MT_DEVICE_NGNRE
     else if mt = 2 then MT_DEVICE_GRE else if mt = 3 then MT_NORMAL_NC
     else if mt = 4 then MT_NORMAL else if mt = 5 then MT_NORMAL_WT else 0) = (ucast mt :: u32)"
  using assms(2) by (auto simp: const_defs)

lemma bit_mapping_attrs:
  assumes "drop_bit 2 attrs AND 7 \<in> {0, 1, 2, 3, 4, 5}"
  shows "bit (mapping_attrs attrs) k \<longleftrightarrow> k < 3 \<and> bit attrs (k + 2) \<or> k = 3 \<and> \<not> bit attrs 7 \<or>
    k = 4 \<and> bit attrs 5 \<or> k = 5 \<and> bit attrs 53 \<or> k = 6 \<and> bit attrs 54 \<or> k = 7 \<and> bit attrs 6"
proof -
  have "bit (ucast (drop_bit 2 attrs AND 7) :: u32) k \<longleftrightarrow> k < 3 \<and> bit attrs (k + 2)"
    by (simp only: bit_ucast_iff bit_and_iff bit_drop_bit_eq bit_7_64) (auto simp: add.commute)
  then show ?thesis
    unfolding mapping_attrs_def Let_def mapping_type [OF assms] AND_pte_const bit_or_iff
    by (auto simp: bit_MT_consts)
qed

lemma type_cases:
  assumes "MT_TYPE attrs \<le> 5"
  shows "(ucast (MT_TYPE attrs) :: u64) \<in> {0, 1, 2, 3, 4, 5}"
proof -
  have "unat (MT_TYPE attrs) \<le> 5" using assms by (simp add: word_le_nat_alt)
  then have "unat (MT_TYPE attrs) \<in> {0, 1, 2, 3, 4, 5}" by auto
  moreover have "(ucast (MT_TYPE attrs) :: u64) = of_nat (unat (MT_TYPE attrs))" by simp
  ultimately show ?thesis by (auto simp del: of_nat_unat)
qed

section \<open>Remaining space\<close>

lemma use_count_bound: "pt_inv own pt \<Longrightarrow> i < 256 \<Longrightarrow> unat (xlat_use_count pt i) \<le> 514"
  using pt_invD(7,9) [of own pt i] card_used_le [of pt i] by (cases "own i") (auto split: if_splits)

lemma unat_remaining:
  fixes c :: "nat \<Rightarrow> u16"
  assumes "\<And>i. i < n \<Longrightarrow> unat (c i) \<le> 514" "n \<le> 256"
  shows "unat (foldl (\<lambda>f i. f + ucast (514 - ucast (c i) :: u32)) (0 :: u64) [0..<n]) = (\<Sum>i<n. 514 - unat (c i))"
  using assms
proof (induction n)
  case (Suc n)
  let ?s = "foldl (\<lambda>f i. f + ucast (514 - ucast (c i) :: u32)) (0 :: u64) [0..<n]"
  have IH: "unat ?s = (\<Sum>i<n. 514 - unat (c i))" using Suc by simp
  have le: "unat (c n) \<le> 514" using Suc.prems by simp
  have "ucast (c n) \<le> (514 :: u32)" using le by (simp add: word_le_nat_alt unat_ucast_up)
  then have t: "unat (ucast (514 - ucast (c n) :: u32) :: u64) = 514 - unat (c n)"
    by (simp add: unat_ucast_up unat_sub)
  have "(\<Sum>i<n. 514 - unat (c i)) \<le> (\<Sum>i<n. 514)" by (rule sum_mono) simp
  also have "\<dots> \<le> 256 * 514" using Suc.prems(2) by simp
  finally have "unat ?s + (514 - unat (c n)) < 2 ^ 64" using IH by simp
  then have "unat (?s + ucast (514 - ucast (c n) :: u32)) = unat ?s + (514 - unat (c n))"
    using t by (simp add: unat_word_ariths(1))
  then show ?case using IH by simp
qed simp

section \<open>Properties\<close>

text \<open>
  C22: After \<open>FMmuMapRetopology\<close>, \<open>FMmuGetPAByVA\<close> answers for every virtual address exactly the
  physical address the hardware walk of the tables gives, and fails exactly where the hardware
  faults: the binary search over the list read back from the tables is equivalent to the walk.
\<close>

theorem va_query_is_translation:
  assumes "mmu_wf pt" "base_xlat_table pt = 0" "unat va < 2 ^ 48"
  shows "fst (FMmuGetPAByVA (FMmuMapRetopology pt v) va) = map_option fst (translate pt va)"
proof (rule va_query [OF assms, of v])
  fix m assume m: "fst (FMmuGetMappingByVA (FMmuMapRetopology pt v) va) = Some (FMmuMapping2Region m)"
    "translate pt va = Some (info_out m va)"
  then show ?thesis
    by (cases "FMmuGetMappingByVA (FMmuMapRetopology pt v) va")
       (simp add: FMmuGetPAByVA_def FMmuMapping2Region_def info_out_def)
next
  assume "fst (FMmuGetMappingByVA (FMmuMapRetopology pt v) va) = None" "translate pt va = None"
  then show ?thesis
    by (cases "FMmuGetMappingByVA (FMmuMapRetopology pt v) va") (simp add: FMmuGetPAByVA_def)
qed

theorem va_query_is_translation_witness:
  "fst (FMmuGetPAByVA (FMmuMapRetopology empty_tables \<lparr>all_mappings = [], is_sorted = False\<rparr>) 0x1000)
     = map_option fst (translate empty_tables 0x1000)"
  by (rule va_query_is_translation [OF empty_tables_wf]) (simp_all add: empty_tables_def)

text \<open>
  \<open>FMmuGetAllVaByPA\<close> counts and lists exactly the virtual addresses that translate to a
  physical address, each once, as far as the output array reaches.
\<close>

theorem pa_query_is_preimage:
  fixes pa :: u64
  assumes "mmu_wf pt" "base_xlat_table pt = 0"
  defines "preimage \<equiv> {va. unat va < 2 ^ 48 \<and> map_option fst (translate pt va) = Some pa}"
  shows "case FMmuGetAllVaByPA (FMmuReverseSetMapping pt) pa max_va of (count, out) \<Rightarrow>
    count = card preimage \<and> distinct out \<and> set out \<subseteq> preimage \<and> length out = min max_va count"
proof -
  let ?L = "vas_of (FMmuReverseSetMapping pt) pa"
  have "distinct ?L" by (rule distinct_vas_of [OF reverse_ok(1,2) [OF assms(1,2)]])
  moreover have "set ?L = preimage" unfolding preimage_def by (rule set_vas_of [OF assms(1,2)])
  ultimately show ?thesis
    using distinct_card [of ?L] set_take_subset [of max_va ?L]
    by (auto simp: FMmuGetAllVaByPA_eq vas_of_def Let_def min.commute)
qed

theorem pa_query_is_preimage_witness:
  "case FMmuGetAllVaByPA (FMmuReverseSetMapping empty_tables) 0x1000 4 of (count, out) \<Rightarrow>
    count = card {va. unat va < 2 ^ 48 \<and> map_option fst (translate empty_tables va) = Some 0x1000} \<and>
    distinct out \<and> set out \<subseteq> {va. unat va < 2 ^ 48 \<and> map_option fst (translate empty_tables va) = Some 0x1000} \<and>
    length out = min 4 count"
  by (rule pa_query_is_preimage [OF empty_tables_wf]) (simp add: empty_tables_def)

text \<open>
  Compression joins neighbouring mappings and loses nothing: the compressed list of the
  mappings read back from the tables covers exactly the addresses the hardware translates, with
  the same physical address and the same attributes.
\<close>

theorem compression_is_translation:
  assumes "mmu_wf pt" "base_xlat_table pt = 0" "unat va < 2 ^ 48"
  shows "(\<exists>m\<in>set (FMmuCompressMappingInfo (FMmuReverseSetMapping pt)). covers m va \<and> x = info_out m va)
    \<longleftrightarrow> translate pt va = Some x"
  using compress_ok [OF _ reverse_sized [OF assms(1,2)], of "[]" va x] reverse_ok(3) [OF assms, of x]
  by (simp add: FMmuCompressMappingInfo_def maps_to_def)

theorem compression_is_translation_witness:
  "(\<exists>m\<in>set (FMmuCompressMappingInfo (FMmuReverseSetMapping empty_tables)). covers m 0x1000 \<and> (0, 0) = info_out m 0x1000)
    \<longleftrightarrow> translate empty_tables 0x1000 = Some (0, 0)"
  by (rule compression_is_translation [OF empty_tables_wf]) (simp_all add: empty_tables_def)

text \<open>
  The attributes \<open>FMmuMapping2Region\<close> reads back from a descriptor are those of the region up
  to the descriptor: encoding them again with \<open>GetRegionDesc\<close> gives the same descriptor bits, for
  each of the six memory types.
\<close>

theorem region_attributes_round_trip:
  assumes "MT_TYPE attrs \<le> 5"
  shows "GetRegionDesc (mapping_attrs (GetRegionDesc attrs)) = GetRegionDesc attrs"
proof -
  have "drop_bit 2 (GetRegionDesc attrs) AND 7 \<in> {0, 1, 2, 3, 4, 5}"
    unfolding GetRegionDesc_type by (rule type_cases [OF assms])
  note b = bit_mapping_attrs [OF this]
  have low: "bit (mapping_attrs (GetRegionDesc attrs)) k \<longleftrightarrow> bit attrs k" if "k < 3" for k
    using that unfolding b bit_GetRegionDesc [of attrs "k + 2"] by auto
  have t: "MT_TYPE (mapping_attrs (GetRegionDesc attrs)) = MT_TYPE attrs"
    unfolding MT_TYPE_def MT_TYPE_MASK_def
    by (rule bit_word_eqI) (use low in \<open>auto simp: bit_and_iff bit_7 simp del: bit_numeral_word_iff\<close>)
  let ?a = "mapping_attrs (GetRegionDesc attrs)" and ?mt = "MT_TYPE attrs"
  have kept: "bit ?a 3 \<longleftrightarrow> bit attrs 3" "bit ?a 4 \<longleftrightarrow> bit attrs 4" "bit ?a 7 \<longleftrightarrow> bit attrs 7"
    by (simp_all add: b bit_GetRegionDesc)
  have xn: "bit ?a 5 \<longleftrightarrow> ?mt \<in> {0, 1, 2} \<or> ?mt \<in> {3, 4} \<and> bit attrs 3 \<and> bit attrs 5"
    "bit ?a 6 \<longleftrightarrow> ?mt \<in> {0, 1, 2} \<or> ?mt \<in> {3, 4} \<and> (bit attrs 3 \<and> bit attrs 7 \<or> bit attrs 6)"
    by (simp_all add: b bit_GetRegionDesc)
  show ?thesis
  proof (rule bit_word_eqI)
    fix k
    have l: "2 \<le> k \<and> k \<le> 4 \<and> bit ?a (k - 2) \<longleftrightarrow> 2 \<le> k \<and> k \<le> 4 \<and> bit attrs (k - 2)"
      using low [of "k - 2"] by auto
    have e: "?mt \<in> {0, 1, 2} \<or> ?mt \<in> {3, 4} \<and> bit attrs 3 \<and> bit ?a 5 \<longleftrightarrow>
        ?mt \<in> {0, 1, 2} \<or> ?mt \<in> {3, 4} \<and> bit attrs 3 \<and> bit attrs 5"
      "?mt \<in> {0, 1, 2} \<or> ?mt \<in> {3, 4} \<and> (bit attrs 3 \<and> bit attrs 7 \<or> bit ?a 6) \<longleftrightarrow>
        ?mt \<in> {0, 1, 2} \<or> ?mt \<in> {3, 4} \<and> (bit attrs 3 \<and> bit attrs 7 \<or> bit attrs 6)"
      unfolding xn by argo+
    show "bit (GetRegionDesc ?a) k \<longleftrightarrow> bit (GetRegionDesc attrs) k"
      unfolding bit_GetRegionDesc [of ?a] bit_GetRegionDesc [of attrs] t kept l e by (rule refl)
  qed
qed

theorem region_attributes_round_trip_witness:
  "GetRegionDesc (mapping_attrs (GetRegionDesc (MT_RW OR MT_NORMAL))) = GetRegionDesc (MT_RW OR MT_NORMAL)"
  by (rule region_attributes_round_trip) (simp add: region_eval const_defs)

text \<open>
  \<open>FMmuCalculateRemainingMemorySpace\<close> overcounts: what it reports as remaining entries exceeds
  the free entries of the pool by one and by two for every table not in use, because the constant
  \<open>+ 2\<close> for the use count of an allocated table is added for tables that have not got it.
\<close>

theorem remaining_space_overcounts:
  assumes "mmu_wf pt"
  shows "(\<Sum>i<256. 512 - card (used_entries pt i)) + 1 + 2 * card {i. i < 256 \<and> xlat_use_count pt i = 0}
    \<le> unat (fst (FMmuCalculateRemainingMemorySpace pt))"
proof -
  obtain own where inv: "pt_inv own pt" using assms by (auto simp: mmu_wf_def)
  obtain b where b: "own b = Some (0, 0)" "b < 256" using pt_invD(2,3) [OF inv] by blast
  let ?free = "{i. i < 256 \<and> xlat_use_count pt i = 0}"
  have "(\<Sum>i<256. 512 - card (used_entries pt i)) + 1 + 2 * card ?free
    = (\<Sum>i<256. (512 - card (used_entries pt i)) + of_bool (i = b) + 2 * of_bool (xlat_use_count pt i = 0))"
    using b(2) by (simp add: sum.distrib sum_distrib_left [symmetric] of_bool_def sum.If_cases Int_def conj_commute lessThan_def)
  also have "\<dots> \<le> (\<Sum>i<256. 514 - unat (xlat_use_count pt i))"
  proof (rule sum_mono)
    fix i assume "i \<in> {..<256::nat}"
    then have i: "i < 256" by simp
    show "(512 - card (used_entries pt i)) + of_bool (i = b) + 2 * of_bool (xlat_use_count pt i = 0)
      \<le> 514 - unat (xlat_use_count pt i)"
    proof (cases "own i")
      case None
      then show ?thesis using pt_invD(7,8) [OF inv i None] b by auto
    next
      case (Some x)
      obtain l p where x: "own i = Some (l, p)" using Some by (cases x) auto
      have "i = b \<Longrightarrow> l = 0" using x b by simp
      then show ?thesis using pt_invD(9) [OF inv x] card_used_le [of pt i] by auto
    qed
  qed
  also have "\<dots> = unat (fst (FMmuCalculateRemainingMemorySpace pt))"
    by (simp add: FMmuCalculateRemainingMemorySpace_def Let_def const_defs unat_remaining use_count_bound [OF inv])
  finally show ?thesis .
qed

theorem remaining_space_overcounts_witness:
  "(\<Sum>i<256. 512 - card (used_entries empty_tables i)) + 1 + 2 * card {i. i < 256 \<and> xlat_use_count empty_tables i = 0}
    \<le> unat (fst (FMmuCalculateRemainingMemorySpace empty_tables))"
  by (rule remaining_space_overcounts [OF empty_tables_wf])

end
