(* ===== verification/Mmio.thy ===== *)
theory Mmio
  imports SdkPrelude
begin

text \<open>
  Access to device registers, \<^verbatim>\<open>standalone/common/fio.h\<close>. A device is a parameter: the
  value of a read is an arbitrary function of the address and of everything that happened on the
  bus before. The bus records every read, write, delay and call out of the driver, in order, so
  that a driver is judged by the sequence of events it causes and not by assumptions on the
  hardware.

  The locale \<open>event_class\<close> is the contract shared by the classes of event sequences the drivers
  are judged by: they are closed under concatenation, so a composition of operations stays in the
  class when each of them does.
\<close>

section \<open>The bus\<close>

datatype 'c bus_event = Rd uintptr u32 | Wr uintptr u32 | Delay nat | Call 'c

record 'c bus =
  dev :: "'c bus_event list \<Rightarrow> uintptr \<Rightarrow> u32"
  trace :: "'c bus_event list"

definition emit :: "'c bus_event \<Rightarrow> 'c bus \<Rightarrow> 'c bus" where
  "emit e b = b\<lparr>trace := trace b @ [e]\<rparr>"

definition FtIn32 :: "uintptr \<Rightarrow> 'c bus \<Rightarrow> u32 \<times> 'c bus" where
  "FtIn32 addr b = (let v = dev b (trace b) addr in (v, emit (Rd addr v) b))"

definition FtOut32 :: "uintptr \<Rightarrow> u32 \<Rightarrow> 'c bus \<Rightarrow> 'c bus" where
  "FtOut32 addr value b = emit (Wr addr value) b"

definition FtSetBit32 :: "uintptr \<Rightarrow> u32 \<Rightarrow> 'c bus \<Rightarrow> 'c bus" where
  "FtSetBit32 addr value b = (let (last_value, b) = FtIn32 addr b in FtOut32 addr (last_value OR value) b)"

definition FtClearBit32 :: "uintptr \<Rightarrow> u32 \<Rightarrow> 'c bus \<Rightarrow> 'c bus" where
  "FtClearBit32 addr value b = (let (last_value, b) = FtIn32 addr b in FtOut32 addr (last_value AND NOT value) b)"

definition FDriverUdelay :: "nat \<Rightarrow> 'c bus \<Rightarrow> 'c bus" where
  "FDriverUdelay usec b = emit (Delay usec) b"

definition SET_REG32_BITS :: "u32 \<Rightarrow> nat \<Rightarrow> nat \<Rightarrow> u32" where
  "SET_REG32_BITS x a b = push_bit b x AND GENMASK a b"

lemma emit_simps [simp]:
  "dev (emit e b) = dev b" "trace (emit e b) = trace b @ [e]"
  by (simp_all add: emit_def)

section \<open>Loops over operations that may not return\<close>

primrec foreach :: "('a \<Rightarrow> 's \<Rightarrow> 's option) \<Rightarrow> 'a list \<Rightarrow> 's \<Rightarrow> 's option" where
  "foreach f [] s = Some s"
| "foreach f (x # xs) s = Option.bind (f x s) (foreach f xs)"

lemma foreach_Some:
  assumes "\<And>x s. x \<in> set xs \<Longrightarrow> I s \<Longrightarrow> \<exists>s'. f x s = Some s' \<and> I s'" "I s"
  shows "\<exists>s'. foreach f xs s = Some s' \<and> I s'"
  using assms
proof (induction xs arbitrary: s)
  case (Cons x xs)
  obtain s1 where "f x s = Some s1" "I s1" using Cons.prems by (meson list.set_intros(1))
  then show ?case using Cons.IH [of s1] Cons.prems(1) by simp
qed simp

section \<open>Classes of event sequences\<close>

text \<open>The reads of a sequence of events have the values the device gives after the history \<open>h\<close>.\<close>

primrec consistent :: "('c bus_event list \<Rightarrow> uintptr \<Rightarrow> u32) \<Rightarrow> 'c bus_event list \<Rightarrow> 'c bus_event list \<Rightarrow> bool" where
  "consistent d h [] \<longleftrightarrow> True"
| "consistent d h (e # es) \<longleftrightarrow> (case e of Rd a v \<Rightarrow> v = d h a | _ \<Rightarrow> True) \<and> consistent d (h @ [e]) es"

lemma consistent_append [simp]:
  "consistent d h (xs @ ys) \<longleftrightarrow> consistent d h xs \<and> consistent d (h @ xs) ys"
  by (induction xs arbitrary: h) auto

definition extends :: "('c bus_event list \<Rightarrow> bool) \<Rightarrow> 'c bus \<Rightarrow> 'c bus \<Rightarrow> bool" where
  "extends P b b' \<longleftrightarrow>
     dev b' = dev b \<and> (\<exists>es. trace b' = trace b @ es \<and> consistent (dev b) (trace b) es \<and> P es)"

lemma extends_mono: "extends P b b' \<Longrightarrow> (\<And>es. P es \<Longrightarrow> Q es) \<Longrightarrow> extends Q b b'"
  by (auto simp: extends_def)

text \<open>A single event, a read-modify-write of one register.\<close>

lemma extends_Wr: "P [Wr a v] \<Longrightarrow> extends P b (FtOut32 a v b)"
  by (simp add: extends_def FtOut32_def)

lemma extends_Rd: "(\<And>v. P [Rd a v]) \<Longrightarrow> extends P b (snd (FtIn32 a b))"
  by (simp add: extends_def FtIn32_def Let_def)

lemma extends_Delay: "P [Delay n] \<Longrightarrow> extends P b (FDriverUdelay n b)"
  by (simp add: extends_def FDriverUdelay_def)

lemma extends_update:
  "(\<And>v. P [Rd a v, Wr a (f v)]) \<Longrightarrow> extends P b (FtOut32 a (f (fst (FtIn32 a b))) (snd (FtIn32 a b)))"
  by (simp add: extends_def FtIn32_def FtOut32_def Let_def)

locale event_class =
  fixes P :: "'c bus_event list \<Rightarrow> bool"
  assumes empty: "P []"
    and concat: "P xs \<Longrightarrow> P ys \<Longrightarrow> P (xs @ ys)"
begin

lemma refl: "extends P b b"
  by (simp add: extends_def empty)

lemma trans: "extends P a b \<Longrightarrow> extends P b c \<Longrightarrow> extends P a c"
  by (auto simp: extends_def intro!: concat)

lemma loop:
  assumes "\<And>x b. x \<in> set xs \<Longrightarrow> extends P b (f x b)"
  shows "extends P b (fold f xs b)"
  using assms
proof (induction xs arbitrary: b)
  case (Cons x xs)
  have "extends P b (f x b)" "extends P (f x b) (fold f xs (f x b))" using Cons by simp_all
  then show ?case using trans by simp
qed (simp add: refl)

end

text \<open>The last value written to an address by a sequence of events.\<close>

definition last_wr :: "uintptr \<Rightarrow> 'c bus_event list \<Rightarrow> u32 option" where
  "last_wr a es = foldl (\<lambda>r e. case e of Wr x v \<Rightarrow> if x = a then Some v else r | _ \<Rightarrow> r) None es"

lemma last_wr_Nil [simp]: "last_wr a [] = None"
  by (simp add: last_wr_def)

lemma last_wr_snoc [simp]:
  "last_wr a (es @ [e]) = (case e of Wr x v \<Rightarrow> if x = a then Some v else last_wr a es | _ \<Rightarrow> last_wr a es)"
  by (cases e) (simp_all add: last_wr_def)

lemma last_wr_append:
  "last_wr a (xs @ ys) = (case last_wr a ys of Some v \<Rightarrow> Some v | None \<Rightarrow> last_wr a xs)"
proof (induction ys rule: rev_induct)
  case (snoc e ys)
  then show ?case unfolding append_assoc [symmetric] last_wr_snoc by (cases e) auto
qed simp

lemma last_wr_Cons:
  "last_wr a (e # es) = (case last_wr a es of Some v \<Rightarrow> Some v
     | None \<Rightarrow> (case e of Wr x v \<Rightarrow> if x = a then Some v else None | _ \<Rightarrow> None))"
  using last_wr_append [of a "[e]" es] last_wr_snoc [of a "[]" e] by (simp only: append.simps last_wr_Nil)

text \<open>
  Every write to the address \<open>a\<close> directly follows a read of it and changes no bit outside the
  mask \<open>m\<close>: a read-modify-write that leaves the rest of a shared register alone.
\<close>

primrec rmw_after :: "uintptr \<Rightarrow> u32 \<Rightarrow> u32 option \<Rightarrow> 'c bus_event list \<Rightarrow> bool" where
  "rmw_after a m r [] \<longleftrightarrow> True"
| "rmw_after a m r (e # es) \<longleftrightarrow> (case e of
      Wr y v \<Rightarrow> (y = a \<longrightarrow> (\<exists>v0. r = Some v0 \<and> (\<forall>k. \<not> bit m k \<longrightarrow> bit v k = bit v0 k))) \<and> rmw_after a m None es
    | Rd x v \<Rightarrow> rmw_after a m (if x = a then Some v else None) es
    | _ \<Rightarrow> rmw_after a m None es)"

definition rmw :: "uintptr \<Rightarrow> u32 \<Rightarrow> 'c bus_event list \<Rightarrow> bool" where
  "rmw a m es \<longleftrightarrow> rmw_after a m None es"

lemma rmw_after_weaken: "rmw_after a m None es \<Longrightarrow> rmw_after a m r es"
  by (cases es) (auto split: bus_event.splits)

lemma rmw_append: "rmw_after a m r xs \<Longrightarrow> rmw a m ys \<Longrightarrow> rmw_after a m r (xs @ ys)"
  by (induction xs arbitrary: r) (auto simp: rmw_def rmw_after_weaken split: bus_event.splits)

interpretation rmw: event_class "rmw a m"
  by unfold_locales (auto simp: rmw_def intro: rmw_append [unfolded rmw_def])

section \<open>Registers that hold their value\<close>

text \<open>A register that only a write to it changes, and one that reads back what was written.\<close>

definition keeps :: "('c bus_event list \<Rightarrow> uintptr \<Rightarrow> u32) \<Rightarrow> uintptr \<Rightarrow> bool" where
  "keeps d a \<longleftrightarrow> (\<forall>h e. (\<forall>v. e \<noteq> Wr a v) \<longrightarrow> d (h @ [e]) a = d h a)"

definition plain_reg :: "('c bus_event list \<Rightarrow> uintptr \<Rightarrow> u32) \<Rightarrow> uintptr \<Rightarrow> bool" where
  "plain_reg d a \<longleftrightarrow> keeps d a \<and> (\<forall>h v. d (h @ [Wr a v]) a = v)"

lemma keeps_events:
  assumes "keeps d a" "\<forall>v. Wr a v \<notin> set es"
  shows "d (h @ es) a = d h a"
  using assms(2)
proof (induction es arbitrary: h)
  case (Cons e es)
  have "d (h @ e # es) a = d (h @ [e]) a" using Cons.IH [of "h @ [e]"] Cons.prems by simp
  also have "\<dots> = d h a" using assms(1) Cons.prems by (metis keeps_def list.set_intros(1))
  finally show ?case .
qed simp

lemma rmw_after_keeps_bits:
  assumes "plain_reg d a" "\<not> bit m k"
    and "rmw_after a m r es" "consistent d h es" "\<forall>v. r = Some v \<longrightarrow> v = d h a"
  shows "bit (d (h @ es) a) k = bit (d h a) k"
  using assms(3-5)
proof (induction es arbitrary: h r)
  case (Cons e es)
  let ?r = "case e of Rd x v \<Rightarrow> if x = a then Some v else None | _ \<Rightarrow> None"
  have d: "d (h @ [e]) a = (case e of Wr y v \<Rightarrow> if y = a then v else d h a | _ \<Rightarrow> d h a)"
    using assms(1) by (auto simp: plain_reg_def keeps_def split: bus_event.splits)
  have "bit (d ((h @ [e]) @ es) a) k = bit (d (h @ [e]) a) k"
    by (rule Cons.IH [of ?r]) (use Cons.prems d in \<open>auto split: bus_event.splits\<close>)
  also have "\<dots> = bit (d h a) k"
    using Cons.prems assms(2) by (auto simp: d split: bus_event.splits)
  finally show ?case by simp
qed simp

lemmas rmw_keeps_bits = rmw_after_keeps_bits [where r = None, folded rmw_def, simplified]

end
