(* ===== verification/Gdma.thy ===== *)
theory Gdma
  imports Mmio
begin

text \<open>
  The general DMA controller driver, \<^verbatim>\<open>standalone/drivers/dma/fgdma\<close>: register map and
  register operations (\<^verbatim>\<open>fgdma_hw.h\<close>), controller and channel operations
  (\<^verbatim>\<open>fgdma.c\<close>), interrupt handling (\<^verbatim>\<open>fgdma_intr.c\<close>) and the configuration
  table (\<^verbatim>\<open>fgdma_g.c\<close>, \<^verbatim>\<open>fgdma_sinit.c\<close>), for the PE220x controller with 16
  channels and the AArch64 build.

  The driver instance is a record that every operation takes and returns; the bus is threaded
  through. Enumeration types are 32-bit numbers, as the code also handles values that are not
  enumerators; a priority is an integer, \<open>-1\<close> for none. A null test of a pointer parameter is not
  modelled, and a static helper does not repeat the channel assertion its only caller has made;
  using a null back pointer of a channel is a fault, \<open>None\<close>. The log macros are compiled out below their level and are not modelled. BDL
  descriptors live in a store indexed by the address of the descriptor.
\<close>

section \<open>Constants\<close>

definition FGDMA_NUM_OF_CHAN :: nat where [const_defs]: "FGDMA_NUM_OF_CHAN = 16"
definition FGDMA_INSTANCE_NUM :: nat where [const_defs]: "FGDMA_INSTANCE_NUM = 1"
definition FGDMA0_BASE_ADDR :: uintptr where [const_defs]: "FGDMA0_BASE_ADDR = 0x32B34000"

definition ErrGdma :: u32 where [const_defs]: "ErrGdma = 18"
definition FGDMA_SUCCESS :: FError where [const_defs]: "FGDMA_SUCCESS = FT_SUCCESS"
definition FGDMA_ERR_COMMON :: FError where "FGDMA_ERR_COMMON = FT_MAKE_ERRCODE ErrModBsp ErrGdma 0"
definition FGDMA_ERR_NOT_INIT :: FError where "FGDMA_ERR_NOT_INIT = FT_MAKE_ERRCODE ErrModBsp ErrGdma 1"
definition FGDMA_ERR_WRONG_PARA :: FError where "FGDMA_ERR_WRONG_PARA = FT_MAKE_ERRCODE ErrModBsp ErrGdma 2"
definition FGDMA_ERR_INVALID_ADDR :: FError where "FGDMA_ERR_INVALID_ADDR = FT_MAKE_ERRCODE ErrModBsp ErrGdma 5"
definition FGDMA_ERR_INVALID_SIZE :: FError where "FGDMA_ERR_INVALID_SIZE = FT_MAKE_ERRCODE ErrModBsp ErrGdma 6"

definition FGDMA_IRQ1_MASK :: u32 where "FGDMA_IRQ1_MASK = BIT 0"
definition FGDMA_IRQ2_MASK :: u32 where "FGDMA_IRQ2_MASK = BIT 1"
definition FGDMA_TRANS_NEED_RESET_MASK :: u32 where "FGDMA_TRANS_NEED_RESET_MASK = BIT 2"
definition FGDMA_OPER_NONE_PRIORITY_POLL :: int where [const_defs]: "FGDMA_OPER_NONE_PRIORITY_POLL = -1"
definition FGDMA_OPER_DIRECT :: u32 where [const_defs]: "FGDMA_OPER_DIRECT = 0"
definition FGDMA_OPER_BDL :: u32 where [const_defs]: "FGDMA_OPER_BDL = 1"
definition FGDMA_WAIT_INTR :: u32 where [const_defs]: "FGDMA_WAIT_INTR = 0"
definition FGDMA_CHAN_EVT_FIFO_EMPTY :: nat where [const_defs]: "FGDMA_CHAN_EVT_FIFO_EMPTY = 0"
definition FGDMA_CHAN_EVT_FIFO_FULL :: nat where [const_defs]: "FGDMA_CHAN_EVT_FIFO_FULL = 1"
definition FGDMA_CHAN_EVT_BDL_END :: nat where [const_defs]: "FGDMA_CHAN_EVT_BDL_END = 2"
definition FGDMA_CHAN_EVT_TRANS_END :: nat where [const_defs]: "FGDMA_CHAN_EVT_TRANS_END = 3"
definition FGDMA_CHAN_EVT_BUSY :: nat where [const_defs]: "FGDMA_CHAN_EVT_BUSY = 4"
definition FGDMA_CHAN_NUM_OF_EVT :: nat where [const_defs]: "FGDMA_CHAN_NUM_OF_EVT = 5"
definition FGDMA_BDL_DESC_ALIGMENT :: u32 where [const_defs]: "FGDMA_BDL_DESC_ALIGMENT = 128"

definition FGDMA_GET_BURST_BYTE :: "u32 \<Rightarrow> u32" where
  "FGDMA_GET_BURST_BYTE burst_size = push_bit (unat burst_size) 1"

text \<open>Register offsets.\<close>

definition FGDMA_CTL_OFFSET :: u32 where [const_defs]: "FGDMA_CTL_OFFSET = 0x0"
definition FGDMA_INTR_STATE_OFFSET :: u32 where [const_defs]: "FGDMA_INTR_STATE_OFFSET = 0x4"
definition FGDMA_INTR_CTRL_OFFSET :: u32 where [const_defs]: "FGDMA_INTR_CTRL_OFFSET = 0x8"
definition FGDMA_LP_OFFSET :: u32 where [const_defs]: "FGDMA_LP_OFFSET = 0xC"
definition FGDMA_QOS_CFG_OFFSET :: u32 where [const_defs]: "FGDMA_QOS_CFG_OFFSET = 0x10"
definition FGDMA_CHX_OFFSET :: "u32 \<Rightarrow> u32" where "FGDMA_CHX_OFFSET x = x * 0x60"
definition FGDMA_CHX_CTL_OFFSET :: "u32 \<Rightarrow> u32" where "FGDMA_CHX_CTL_OFFSET x = 0x20 + FGDMA_CHX_OFFSET x"
definition FGDMA_CHX_MODE_OFFSET :: "u32 \<Rightarrow> u32" where "FGDMA_CHX_MODE_OFFSET x = 0x24 + FGDMA_CHX_OFFSET x"
definition FGDMA_CHX_INT_CTRL_OFFSET :: "u32 \<Rightarrow> u32" where "FGDMA_CHX_INT_CTRL_OFFSET x = 0x28 + FGDMA_CHX_OFFSET x"
definition FGDMA_CHX_INT_STATE_OFFSET :: "u32 \<Rightarrow> u32" where "FGDMA_CHX_INT_STATE_OFFSET x = 0x2C + FGDMA_CHX_OFFSET x"
definition FGDMA_CHX_LVI_OFFSET :: "u32 \<Rightarrow> u32" where "FGDMA_CHX_LVI_OFFSET x = 0x30 + FGDMA_CHX_OFFSET x"
definition FGDMA_CHX_TS_OFFSET :: "u32 \<Rightarrow> u32" where "FGDMA_CHX_TS_OFFSET x = 0x34 + FGDMA_CHX_OFFSET x"
definition FGDMA_CHX_UPSADDR_OFFSET :: "u32 \<Rightarrow> u32" where "FGDMA_CHX_UPSADDR_OFFSET x = 0x38 + FGDMA_CHX_OFFSET x"
definition FGDMA_CHX_LWSADDR_OFFSET :: "u32 \<Rightarrow> u32" where "FGDMA_CHX_LWSADDR_OFFSET x = 0x3C + FGDMA_CHX_OFFSET x"
definition FGDMA_CHX_UPDADDR_OFFSET :: "u32 \<Rightarrow> u32" where "FGDMA_CHX_UPDADDR_OFFSET x = 0x40 + FGDMA_CHX_OFFSET x"
definition FGDMA_CHX_LWDADDR_OFFSET :: "u32 \<Rightarrow> u32" where "FGDMA_CHX_LWDADDR_OFFSET x = 0x44 + FGDMA_CHX_OFFSET x"
definition FGDMA_CHX_XFER_CFG_OFFSET :: "u32 \<Rightarrow> u32" where "FGDMA_CHX_XFER_CFG_OFFSET x = 0x48 + FGDMA_CHX_OFFSET x"

lemmas chan_offset_defs = FGDMA_CHX_OFFSET_def FGDMA_CHX_CTL_OFFSET_def FGDMA_CHX_MODE_OFFSET_def
  FGDMA_CHX_INT_CTRL_OFFSET_def FGDMA_CHX_INT_STATE_OFFSET_def FGDMA_CHX_LVI_OFFSET_def
  FGDMA_CHX_TS_OFFSET_def FGDMA_CHX_UPSADDR_OFFSET_def FGDMA_CHX_LWSADDR_OFFSET_def
  FGDMA_CHX_UPDADDR_OFFSET_def FGDMA_CHX_LWDADDR_OFFSET_def FGDMA_CHX_XFER_CFG_OFFSET_def

text \<open>Register fields.\<close>

definition FGDMA_CTL_RD_ARB :: u32 where "FGDMA_CTL_RD_ARB = BIT 5"
definition FGDMA_CTL_WR_ARB :: u32 where "FGDMA_CTL_WR_ARB = BIT 4"
definition FGDMA_CTL_SOFT_RESET :: u32 where "FGDMA_CTL_SOFT_RESET = BIT 1"
definition FGDMA_CTL_ENABLE :: u32 where "FGDMA_CTL_ENABLE = BIT 0"
definition FGDMA_CHX_INTR_STATE :: "u32 \<Rightarrow> u32" where "FGDMA_CHX_INTR_STATE x = BIT (unat x)"
definition FGDMA_CHX_INTR_MASK :: "u32 \<Rightarrow> u32" where "FGDMA_CHX_INTR_MASK x = BIT (unat x)"
definition FGDMA_CHX_INTR_GLOBAL_MASK :: u32 where "FGDMA_CHX_INTR_GLOBAL_MASK = BIT 31"
definition FGDMA_CHX_LP_CTL :: "u32 \<Rightarrow> u32" where "FGDMA_CHX_LP_CTL x = BIT (unat x)"
definition FGDMA_QOS_CFG_ARGOS_MASK :: u32 where "FGDMA_QOS_CFG_ARGOS_MASK = GENMASK 7 4"
definition FGDMA_QOS_CFG_ARGOS_SET :: "u32 \<Rightarrow> u32" where "FGDMA_QOS_CFG_ARGOS_SET qos = SET_REG32_BITS qos 7 4"
definition FGDMA_QOS_CFG_AWQOS_MASK :: u32 where "FGDMA_QOS_CFG_AWQOS_MASK = GENMASK 3 0"
definition FGDMA_QOS_CFG_AWQOS_SET :: "u32 \<Rightarrow> u32" where "FGDMA_QOS_CFG_AWQOS_SET qos = SET_REG32_BITS qos 3 0"
definition FGDMA_CHX_CTL_SOFT_RESET :: u32 where "FGDMA_CHX_CTL_SOFT_RESET = BIT 4"
definition FGDMA_CHX_CTL_ENABLE :: u32 where "FGDMA_CHX_CTL_ENABLE = BIT 0"
definition FGDMA_CHX_MODE_RD_QOS_MASK :: u32 where "FGDMA_CHX_MODE_RD_QOS_MASK = GENMASK 23 20"
definition FGDMA_CHX_MODE_RD_QOS_SET :: "u32 \<Rightarrow> u32" where "FGDMA_CHX_MODE_RD_QOS_SET qos = SET_REG32_BITS qos 23 20"
definition FGDMA_CHX_MODE_RD_QOS_EN :: u32 where "FGDMA_CHX_MODE_RD_QOS_EN = BIT 16"
definition FGDMA_CHX_MODE_WR_QOS_MASK :: u32 where "FGDMA_CHX_MODE_WR_QOS_MASK = GENMASK 15 12"
definition FGDMA_CHX_MODE_WR_QOS_SET :: "u32 \<Rightarrow> u32" where "FGDMA_CHX_MODE_WR_QOS_SET qos = SET_REG32_BITS qos 15 12"
definition FGDMA_CHX_MODE_WR_QOS_EN :: u32 where "FGDMA_CHX_MODE_WR_QOS_EN = BIT 8"
definition FGDMA_CHX_MODE_BDL_ROLL_EN :: u32 where "FGDMA_CHX_MODE_BDL_ROLL_EN = BIT 4"
definition FGDMA_CHX_MODE_BDL_EN :: u32 where "FGDMA_CHX_MODE_BDL_EN = BIT 0"
definition FGDMA_CHX_INT_CTRL_TRANS_END_ENABLE :: u32 where "FGDMA_CHX_INT_CTRL_TRANS_END_ENABLE = BIT 3"
definition FGDMA_CHX_INT_CTRL_BDL_END_ENABLE :: u32 where "FGDMA_CHX_INT_CTRL_BDL_END_ENABLE = BIT 2"
definition FGDMA_CHX_INT_STATE_BUSY :: u32 where "FGDMA_CHX_INT_STATE_BUSY = BIT 4"
definition FGDMA_CHX_INT_STATE_TRANS_END :: u32 where "FGDMA_CHX_INT_STATE_TRANS_END = BIT 3"
definition FGDMA_CHX_INT_STATE_BDL_END :: u32 where "FGDMA_CHX_INT_STATE_BDL_END = BIT 2"
definition FGDMA_CHX_INT_STATE_FIFO_FULL :: u32 where "FGDMA_CHX_INT_STATE_FIFO_FULL = BIT 1"
definition FGDMA_CHX_INT_STATE_FIFO_EMPTY :: u32 where "FGDMA_CHX_INT_STATE_FIFO_EMPTY = BIT 0"
definition FGDMA_CHX_INT_STATE_ALL :: u32 where "FGDMA_CHX_INT_STATE_ALL = GENMASK 4 0"
definition FGDMA_CHX_LVI_SET :: "u64 \<Rightarrow> u32" where "FGDMA_CHX_LVI_SET lvi = SET_REG32_BITS (ucast (lvi - 1)) 31 0"
definition FGDMA_CHX_XFER_CFG_AR_LEN_SET :: "u32 \<Rightarrow> u32" where "FGDMA_CHX_XFER_CFG_AR_LEN_SET len = SET_REG32_BITS len 31 24"
definition FGDMA_CHX_XFER_CFG_AR_SIZE_SET :: "u32 \<Rightarrow> u32" where "FGDMA_CHX_XFER_CFG_AR_SIZE_SET sz = SET_REG32_BITS sz 22 20"
definition FGDMA_CHX_XFER_CFG_AR_BRUST_SET :: "u32 \<Rightarrow> u32" where "FGDMA_CHX_XFER_CFG_AR_BRUST_SET ty = SET_REG32_BITS ty 17 16"
definition FGDMA_CHX_XFER_CFG_AW_LEN_SET :: "u32 \<Rightarrow> u32" where "FGDMA_CHX_XFER_CFG_AW_LEN_SET len = SET_REG32_BITS len 15 8"
definition FGDMA_CHX_XFER_CFG_AW_SIZE_SET :: "u32 \<Rightarrow> u32" where "FGDMA_CHX_XFER_CFG_AW_SIZE_SET sz = SET_REG32_BITS sz 6 4"
definition FGDMA_CHX_XFER_CFG_AW_BRUST_SET :: "u32 \<Rightarrow> u32" where "FGDMA_CHX_XFER_CFG_AW_BRUST_SET ty = SET_REG32_BITS ty 1 0"
definition FGDMA_SRC_TC_BDL_BURST_SET :: "u32 \<Rightarrow> u32" where "FGDMA_SRC_TC_BDL_BURST_SET x = SET_REG32_BITS x 1 0"
definition FGDMA_SRC_TC_BDL_SIZE_SET :: "u32 \<Rightarrow> u32" where "FGDMA_SRC_TC_BDL_SIZE_SET x = SET_REG32_BITS x 6 4"
definition FGDMA_SRC_TC_BDL_LEN_SET :: "u32 \<Rightarrow> u32" where "FGDMA_SRC_TC_BDL_LEN_SET x = SET_REG32_BITS x 15 8"
definition FGDMA_DST_TC_BDL_BURST_SET :: "u32 \<Rightarrow> u32" where "FGDMA_DST_TC_BDL_BURST_SET x = SET_REG32_BITS x 1 0"
definition FGDMA_DST_TC_BDL_SIZE_SET :: "u32 \<Rightarrow> u32" where "FGDMA_DST_TC_BDL_SIZE_SET x = SET_REG32_BITS x 6 4"
definition FGDMA_DST_TC_BDL_LEN_SET :: "u32 \<Rightarrow> u32" where "FGDMA_DST_TC_BDL_LEN_SET x = SET_REG32_BITS x 15 8"

section \<open>State\<close>

record FGdmaConfig =
  instance_id :: u32
  irq_num :: "nat \<Rightarrow> u32"
  irq_prority :: u32
  caps :: u32
  base_addr :: uintptr
  ctl_rd_qos :: int
  ctl_wr_qos :: int
  ctl_wait_mode :: u32

record FGdmaBdlDesc =
  src_addr_l :: u32
  src_addr_h :: u32
  dst_addr_l :: u32
  dst_addr_h :: u32
  src_tc :: u32
  dst_tc :: u32
  total_bytes :: u32
  desc_ioc :: u32

record FGdmaChanConfig =
  trans_mode :: u32
  wait_mode :: u32
  rd_qos :: int
  wr_qos :: int
  src_addr :: uintptr
  dst_addr :: uintptr
  trans_length :: u64
  rd_type :: u32
  wr_type :: u32
  rd_size :: u32
  wr_size :: u32
  rd_length :: u32
  wr_length :: u32
  first_desc_addr :: uintptr
  valid_desc_num :: u64
  roll_back :: bool

record FGdmaBdlDescConfig =
  current_desc_num :: u64
  d_src_addr :: uintptr
  d_dst_addr :: uintptr
  d_trans_length :: u64
  d_rd_type :: u32
  d_wr_type :: u32
  d_rd_size :: u32
  d_wr_size :: u32
  d_rd_length :: u32
  d_wr_length :: u32
  d_ioc :: bool

text \<open>
  The interrupt data of a channel; \<open>gdma_instance\<close> tells whether the back pointer has been set.
  A handler is the address of a function, zero for none.
\<close>

record FGdmaChanIrq =
  chan_id :: u32
  gdma_instance :: bool
  evt_handler_args :: "nat \<Rightarrow> uintptr"
  evt_handlers :: "nat \<Rightarrow> uintptr"

record FGdma =
  config :: FGdmaConfig
  gdma_ready :: u32
  chan_ready_flag :: u32
  chan_irq_info :: "nat \<Rightarrow> FGdmaChanIrq"

text \<open>The instance after \<open>memset\<close> with zero.\<close>

definition FGdma_zero :: FGdma where
  "FGdma_zero =
     \<lparr>config = \<lparr>instance_id = 0, irq_num = (\<lambda>_. 0), irq_prority = 0, caps = 0, base_addr = 0,
        ctl_rd_qos = 0, ctl_wr_qos = 0, ctl_wait_mode = 0\<rparr>,
      gdma_ready = 0, chan_ready_flag = 0,
      chan_irq_info = (\<lambda>_. \<lparr>chan_id = 0, gdma_instance = False, evt_handler_args = (\<lambda>_. 0), evt_handlers = (\<lambda>_. 0)\<rparr>)\<rparr>"

definition chan_ready :: "FGdma \<Rightarrow> u32 \<Rightarrow> bool" where
  "chan_ready g ch \<longleftrightarrow> chan_ready_flag g AND BIT (unat ch) \<noteq> 0"

section \<open>Register operations\<close>

definition FGDMA_READREG :: "uintptr \<Rightarrow> u32 \<Rightarrow> 'c bus \<Rightarrow> u32 \<times> 'c bus" where
  "FGDMA_READREG base reg_offset = FtIn32 (base + ucast reg_offset)"

definition FGDMA_WRITEREG :: "uintptr \<Rightarrow> u32 \<Rightarrow> u32 \<Rightarrow> 'c bus \<Rightarrow> 'c bus" where
  "FGDMA_WRITEREG base reg_offset data = FtOut32 (base + ucast reg_offset) data"

definition FGdmaDisable :: "uintptr \<Rightarrow> 'c bus \<Rightarrow> 'c bus" where
  "FGdmaDisable base b =
     (let (reg_val, b) = FGDMA_READREG base FGDMA_CTL_OFFSET b
      in FGDMA_WRITEREG base FGDMA_CTL_OFFSET (reg_val AND NOT FGDMA_CTL_ENABLE) b)"

definition FGdmaEnable :: "uintptr \<Rightarrow> 'c bus \<Rightarrow> 'c bus" where
  "FGdmaEnable base b =
     (let (reg_val, b) = FGDMA_READREG base FGDMA_CTL_OFFSET b
      in FGDMA_WRITEREG base FGDMA_CTL_OFFSET (reg_val OR FGDMA_CTL_ENABLE) b)"

definition FGdmaSoftReset :: "uintptr \<Rightarrow> 'c bus \<Rightarrow> 'c bus" where
  "FGdmaSoftReset base b =
     (let (reg_val, b) = FGDMA_READREG base FGDMA_CTL_OFFSET b;
          b = FGDMA_WRITEREG base FGDMA_CTL_OFFSET (reg_val OR FGDMA_CTL_SOFT_RESET) b;
          (reg_val, b) = FGDMA_READREG base FGDMA_CTL_OFFSET b
      in FGDMA_WRITEREG base FGDMA_CTL_OFFSET (reg_val AND NOT FGDMA_CTL_SOFT_RESET) b)"

definition FGdmaIrqEnable :: "uintptr \<Rightarrow> 'c bus \<Rightarrow> 'c bus" where
  "FGdmaIrqEnable base b =
     (let (reg_val, b) = FGDMA_READREG base FGDMA_INTR_CTRL_OFFSET b
      in FGDMA_WRITEREG base FGDMA_INTR_CTRL_OFFSET (reg_val OR FGDMA_CHX_INTR_GLOBAL_MASK) b)"

definition FGdmaIrqDisable :: "uintptr \<Rightarrow> 'c bus \<Rightarrow> 'c bus" where
  "FGdmaIrqDisable base b =
     (let (reg_val, b) = FGDMA_READREG base FGDMA_INTR_CTRL_OFFSET b
      in FGDMA_WRITEREG base FGDMA_INTR_CTRL_OFFSET (reg_val AND NOT FGDMA_CHX_INTR_GLOBAL_MASK) b)"

definition FGdmaChanDisable :: "uintptr \<Rightarrow> u32 \<Rightarrow> 'c bus \<Rightarrow> 'c bus" where
  "FGdmaChanDisable base chan b =
     (let (reg_val, b) = FGDMA_READREG base (FGDMA_CHX_CTL_OFFSET chan) b
      in FGDMA_WRITEREG base (FGDMA_CHX_CTL_OFFSET chan) (reg_val AND NOT FGDMA_CHX_CTL_ENABLE) b)"

definition FGdmaChanEnable :: "uintptr \<Rightarrow> u32 \<Rightarrow> 'c bus \<Rightarrow> 'c bus" where
  "FGdmaChanEnable base chan b =
     (let (reg_val, b) = FGDMA_READREG base (FGDMA_CHX_CTL_OFFSET chan) b
      in FGDMA_WRITEREG base (FGDMA_CHX_CTL_OFFSET chan) (reg_val OR FGDMA_CHX_CTL_ENABLE) b)"

definition FGdmaChanIrqDisable :: "uintptr \<Rightarrow> u32 \<Rightarrow> 'c bus \<Rightarrow> 'c bus" where
  "FGdmaChanIrqDisable base chan b =
     (let (reg_val, b) = FGDMA_READREG base FGDMA_INTR_CTRL_OFFSET b;
          b = FGDMA_WRITEREG base FGDMA_INTR_CTRL_OFFSET (reg_val AND NOT (FGDMA_CHX_INTR_MASK chan)) b
      in FGDMA_WRITEREG base (FGDMA_CHX_INT_CTRL_OFFSET chan) 0 b)"

definition FGdmaChanIrqEnable :: "uintptr \<Rightarrow> u32 \<Rightarrow> u32 \<Rightarrow> 'c bus \<Rightarrow> 'c bus" where
  "FGdmaChanIrqEnable base chan umask b =
     (let (reg_val, b) = FGDMA_READREG base FGDMA_INTR_CTRL_OFFSET b;
          b = FGDMA_WRITEREG base FGDMA_INTR_CTRL_OFFSET (reg_val OR FGDMA_CHX_INTR_MASK chan) b
      in FGDMA_WRITEREG base (FGDMA_CHX_INT_CTRL_OFFSET chan) umask b)"

definition FGdmaChanSoftReset :: "uintptr \<Rightarrow> u32 \<Rightarrow> 'c bus \<Rightarrow> 'c bus" where
  "FGdmaChanSoftReset base chan b =
     (let (reg_val, b) = FGDMA_READREG base (FGDMA_CHX_CTL_OFFSET chan) b;
          b = FGDMA_WRITEREG base (FGDMA_CHX_CTL_OFFSET chan) (reg_val OR FGDMA_CHX_CTL_SOFT_RESET) b;
          (reg_val, b) = FGDMA_READREG base (FGDMA_CHX_CTL_OFFSET chan) b
      in FGDMA_WRITEREG base (FGDMA_CHX_CTL_OFFSET chan) (reg_val AND NOT FGDMA_CHX_CTL_SOFT_RESET) b)"

definition FGdmaReadStatus :: "uintptr \<Rightarrow> 'c bus \<Rightarrow> u32 \<times> 'c bus" where
  "FGdmaReadStatus base = FGDMA_READREG base FGDMA_INTR_STATE_OFFSET"

definition FGdmaReadChanStatus :: "uintptr \<Rightarrow> u32 \<Rightarrow> 'c bus \<Rightarrow> u32 \<times> 'c bus" where
  "FGdmaReadChanStatus base chan = FGDMA_READREG base (FGDMA_CHX_INT_STATE_OFFSET chan)"

definition FGdmaClearChanStatus :: "uintptr \<Rightarrow> u32 \<Rightarrow> u32 \<Rightarrow> 'c bus \<Rightarrow> 'c bus" where
  "FGdmaClearChanStatus base chan status = FGDMA_WRITEREG base (FGDMA_CHX_INT_STATE_OFFSET chan) status"

definition FGdmaSetChanClock :: "uintptr \<Rightarrow> u32 \<Rightarrow> bool \<Rightarrow> 'c bus \<Rightarrow> 'c bus" where
  "FGdmaSetChanClock base chan enable b =
     (let (reg_val, b) = FGDMA_READREG base FGDMA_LP_OFFSET b;
          reg_val = (if enable then reg_val AND NOT (FGDMA_CHX_LP_CTL chan) else reg_val OR FGDMA_CHX_LP_CTL chan)
      in FGDMA_WRITEREG base FGDMA_LP_OFFSET reg_val b)"

section \<open>Stopping a channel\<close>

text \<open>
  The poll loop of an abort: \<open>timeout\<close> is the counter of the code, 10000 at the start. The counter
  never reaches zero before the test, so the first equation is not used.
\<close>

primrec abort_loop :: "uintptr \<Rightarrow> u32 \<Rightarrow> nat \<Rightarrow> 'c bus \<Rightarrow> FError \<times> 'c bus" where
  "abort_loop base ch 0 b = (FGDMA_ERR_COMMON, b)"
| "abort_loop base ch (Suc timeout) b =
    (let (chan_status, b) = FGdmaReadChanStatus base ch b
     in if chan_status AND FGDMA_CHX_INT_STATE_BUSY = 0 then (FGDMA_SUCCESS, b)
        else let b = FGdmaChanDisable base ch b
             in if timeout = 0 then (FGDMA_ERR_COMMON, b)
                else abort_loop base ch timeout (FDriverUdelay 2 b))"

definition FGdmaChanAbort :: "FGdma \<Rightarrow> u32 \<Rightarrow> 'c bus \<Rightarrow> (FError \<times> 'c bus) option" where
  "FGdmaChanAbort g channel_id b = do {
     FASSERT (unat channel_id < FGDMA_NUM_OF_CHAN);
     if \<not> chan_ready g channel_id then Some (FGDMA_SUCCESS, b)
     else let base = base_addr (config g); b = FGdmaChanDisable base channel_id b
          in Some (abort_loop base channel_id 10000 b)
   }"

text \<open>The loop of \<open>FGdmaGlobalStop\<close> leaves at the first channel that is not configured.\<close>

primrec stop_chans :: "FGdma \<Rightarrow> nat list \<Rightarrow> 'c bus \<Rightarrow> FError \<times> 'c bus" where
  "stop_chans g [] b = (FGDMA_SUCCESS, b)"
| "stop_chans g (k # ks) b =
    (if \<not> chan_ready g (of_nat k) then (FGDMA_SUCCESS, b)
     else let base = base_addr (config g);
              (err, b) = abort_loop base (of_nat k) 10000 (FGdmaChanDisable base (of_nat k) b)
          in if err = FGDMA_SUCCESS then stop_chans g ks b else (err, b))"

definition FGdmaGlobalStop :: "FGdma \<Rightarrow> 'c bus \<Rightarrow> FError \<times> 'c bus" where
  "FGdmaGlobalStop g b =
    (let (err, b) = stop_chans g [0..<FGDMA_NUM_OF_CHAN] b
     in if err \<noteq> FGDMA_SUCCESS then (err, b)
        else (FGDMA_SUCCESS, FGdmaDisable (base_addr (config g)) b))"

section \<open>Initialisation\<close>

definition FGdmaSetQos :: "FGdma \<Rightarrow> 'c bus \<Rightarrow> 'c bus" where
  "FGdmaSetQos g b =
    (let base = base_addr (config g); rd = ctl_rd_qos (config g); wr = ctl_wr_qos (config g);
         (reg_val, b) = FGDMA_READREG base FGDMA_CTL_OFFSET b;
         reg_val = (if rd = FGDMA_OPER_NONE_PRIORITY_POLL then reg_val AND NOT FGDMA_CTL_RD_ARB
                    else reg_val OR FGDMA_CTL_RD_ARB);
         reg_val = (if wr = FGDMA_OPER_NONE_PRIORITY_POLL then reg_val AND NOT FGDMA_CTL_WR_ARB
                    else reg_val OR FGDMA_CTL_WR_ARB);
         b = FGDMA_WRITEREG base FGDMA_CTL_OFFSET reg_val b;
         (reg_val, b) = FGDMA_READREG base FGDMA_QOS_CFG_OFFSET b;
         reg_val = (if rd = FGDMA_OPER_NONE_PRIORITY_POLL then reg_val AND NOT FGDMA_QOS_CFG_ARGOS_MASK
                    else reg_val OR FGDMA_QOS_CFG_ARGOS_SET (of_int rd));
         reg_val = (if wr = FGDMA_OPER_NONE_PRIORITY_POLL then reg_val AND NOT FGDMA_QOS_CFG_AWQOS_MASK
                    else reg_val OR FGDMA_QOS_CFG_AWQOS_SET (of_int wr))
     in FGDMA_WRITEREG base FGDMA_QOS_CFG_OFFSET reg_val b)"

definition clear_ready :: "u32 \<Rightarrow> FGdma \<Rightarrow> FGdma" where
  "clear_ready ch g = g\<lparr>chan_ready_flag := chan_ready_flag g AND NOT (BIT (unat ch))\<rparr>"

definition set_ready :: "u32 \<Rightarrow> FGdma \<Rightarrow> FGdma" where
  "set_ready ch g = g\<lparr>chan_ready_flag := chan_ready_flag g OR BIT (unat ch)\<rparr>"

text \<open>One round of the loop of \<open>FGdmaReset\<close>; the result of the abort is not looked at.\<close>

definition reset_chan :: "nat \<Rightarrow> FGdma \<times> 'c bus \<Rightarrow> (FGdma \<times> 'c bus) option" where
  "reset_chan k = (\<lambda>(g, b).
     let ch = of_nat k; base = base_addr (config g);
         g = g\<lparr>chan_irq_info := (chan_irq_info g)(k := (chan_irq_info g k)\<lparr>chan_id := ch, gdma_instance := True\<rparr>)\<rparr>
     in if chan_ready g ch
        then do {
          (_, b) \<leftarrow> FGdmaChanAbort g ch b;
          let b = FGdmaChanIrqDisable base ch b;
          let b = FGdmaClearChanStatus base ch FGDMA_CHX_INT_STATE_ALL b;
          let b = FGdmaChanSoftReset base ch b;
          let b = FGdmaSetChanClock base ch False b;
          Some (clear_ready ch g, b)
        }
        else Some (g, b))"

definition FGdmaReset :: "FGdma \<Rightarrow> 'c bus \<Rightarrow> (FGdma \<times> 'c bus) option" where
  "FGdmaReset g b =
    (let base = base_addr (config g);
         b = FGdmaDisable base b;
         b = FGdmaIrqDisable base b;
         b = FGdmaSoftReset base b
     in foreach reset_chan [0..<FGDMA_NUM_OF_CHAN] (g, b))"

definition FGdmaDeInitialize :: "FGdma \<Rightarrow> 'c bus \<Rightarrow> (FGdma \<times> 'c bus) option" where
  "FGdmaDeInitialize g b = do { (g, b) \<leftarrow> FGdmaReset g b; Some (FGdma_zero, b) }"

definition FGdmaCfgInitialize :: "FGdma \<Rightarrow> FGdmaConfig \<Rightarrow> 'c bus \<Rightarrow> (FError \<times> FGdma \<times> 'c bus) option" where
  "FGdmaCfgInitialize g controller_config b = do {
     (g, b) \<leftarrow> (if gdma_ready g = FT_COMPONENT_IS_READY then FGdmaDeInitialize g b else Some (g, b));
     let g = g\<lparr>config := controller_config\<rparr>;
     (g, b) \<leftarrow> FGdmaReset g b;
     let b = (if ctl_wait_mode (config g) = FGDMA_WAIT_INTR then FGdmaIrqEnable (base_addr (config g)) b else b);
     let b = FGdmaSetQos g b;
     Some (FGDMA_SUCCESS, g\<lparr>gdma_ready := FT_COMPONENT_IS_READY\<rparr>, b)
   }"

section \<open>Channel configuration\<close>

definition FGdmaChanSetQos :: "FGdma \<Rightarrow> u32 \<Rightarrow> int \<Rightarrow> int \<Rightarrow> 'c bus \<Rightarrow> 'c bus" where
  "FGdmaChanSetQos g channel_id rd wr b =
    (let base = base_addr (config g);
         (reg_val, b) = FGDMA_READREG base (FGDMA_CHX_MODE_OFFSET channel_id) b;
         reg_val = (if rd = FGDMA_OPER_NONE_PRIORITY_POLL then reg_val AND NOT FGDMA_CHX_MODE_RD_QOS_EN
                    else (reg_val AND NOT FGDMA_CHX_MODE_RD_QOS_MASK)
                      OR (FGDMA_CHX_MODE_RD_QOS_EN OR FGDMA_CHX_MODE_RD_QOS_SET (of_int rd)));
         reg_val = (if wr = FGDMA_OPER_NONE_PRIORITY_POLL then reg_val AND NOT FGDMA_CHX_MODE_WR_QOS_EN
                    else (reg_val AND NOT FGDMA_CHX_MODE_WR_QOS_MASK)
                      OR (FGDMA_CHX_MODE_WR_QOS_EN OR FGDMA_CHX_MODE_WR_QOS_SET (of_int wr)))
     in FGDMA_WRITEREG base (FGDMA_CHX_MODE_OFFSET channel_id) reg_val b)"

definition xfer_cfg :: "FGdmaChanConfig \<Rightarrow> u32" where
  "xfer_cfg cfg =
    (0 OR ((FGDMA_CHX_XFER_CFG_AR_LEN_SET (rd_length cfg) OR FGDMA_CHX_XFER_CFG_AR_SIZE_SET (rd_size cfg))
       OR FGDMA_CHX_XFER_CFG_AR_BRUST_SET (rd_type cfg)))
    OR ((FGDMA_CHX_XFER_CFG_AW_LEN_SET (wr_length cfg) OR FGDMA_CHX_XFER_CFG_AW_SIZE_SET (wr_size cfg))
       OR FGDMA_CHX_XFER_CFG_AW_BRUST_SET (wr_type cfg))"

definition FGdmaChanDirectSetBasic :: "FGdma \<Rightarrow> u32 \<Rightarrow> FGdmaChanConfig \<Rightarrow> 'c bus \<Rightarrow> FError \<times> 'c bus" where
  "FGdmaChanDirectSetBasic g channel_id cfg b =
    (let base = base_addr (config g);
         (reg_val, b) = FGDMA_READREG base (FGDMA_CHX_MODE_OFFSET channel_id) b;
         reg_val = reg_val AND NOT FGDMA_CHX_MODE_BDL_EN;
         reg_val = reg_val AND NOT FGDMA_CHX_MODE_BDL_ROLL_EN;
         b = FGDMA_WRITEREG base (FGDMA_CHX_MODE_OFFSET channel_id) reg_val b;
         b = FGdmaChanSetQos g channel_id (rd_qos cfg) (wr_qos cfg) b;
         b = FGDMA_WRITEREG base (FGDMA_CHX_XFER_CFG_OFFSET channel_id) (xfer_cfg cfg) b;
         b = (if wait_mode cfg = FGDMA_WAIT_INTR
              then FGdmaChanIrqEnable base channel_id FGDMA_CHX_INT_CTRL_TRANS_END_ENABLE b else b)
     in (0, b))"

definition FGdmaChanDirectSetTrans :: "FGdma \<Rightarrow> u32 \<Rightarrow> uintptr \<Rightarrow> uintptr \<Rightarrow> u64 \<Rightarrow> 'c bus \<Rightarrow> FError \<times> FGdma \<times> 'c bus" where
  "FGdmaChanDirectSetTrans g channel_id src dst data_len b =
    (let base = base_addr (config g);
         b = FGDMA_WRITEREG base (FGDMA_CHX_UPSADDR_OFFSET channel_id) (UPPER_32_BITS src) b;
         b = FGDMA_WRITEREG base (FGDMA_CHX_LWSADDR_OFFSET channel_id) (LOWER_32_BITS src) b;
         b = FGDMA_WRITEREG base (FGDMA_CHX_UPDADDR_OFFSET channel_id) (UPPER_32_BITS dst) b;
         b = FGDMA_WRITEREG base (FGDMA_CHX_LWDADDR_OFFSET channel_id) (LOWER_32_BITS dst) b;
         b = FGDMA_WRITEREG base (FGDMA_CHX_LVI_OFFSET channel_id) 0 b;
         b = FGDMA_WRITEREG base (FGDMA_CHX_TS_OFFSET channel_id) (ucast data_len) b
     in (FGDMA_SUCCESS, set_ready channel_id g, b))"

definition FGdmaChanDirectConfiguration :: "FGdma \<Rightarrow> u32 \<Rightarrow> FGdmaChanConfig \<Rightarrow> 'c bus \<Rightarrow> (FError \<times> FGdma \<times> 'c bus) option" where
  "FGdmaChanDirectConfiguration g channel_id cfg b = do {
     FASSERT (gdma_ready g \<noteq> 0);
     FASSERT (unat channel_id < FGDMA_NUM_OF_CHAN);
     if src_addr cfg = 0 \<or> dst_addr cfg = 0 \<or> src_addr cfg mod ucast (FGDMA_GET_BURST_BYTE (rd_size cfg)) \<noteq> 0
        \<or> dst_addr cfg mod ucast (FGDMA_GET_BURST_BYTE (wr_size cfg)) \<noteq> 0
     then Some (FGDMA_ERR_INVALID_ADDR, g, b)
     else if trans_length cfg = 0 \<or> trans_length cfg mod ucast (FGDMA_GET_BURST_BYTE (wr_size cfg)) \<noteq> 0
        \<or> trans_length cfg mod ucast (FGDMA_GET_BURST_BYTE (rd_size cfg)) \<noteq> 0
     then Some (FGDMA_ERR_INVALID_SIZE, g, b)
     else let (ret, b) = FGdmaChanDirectSetBasic g channel_id cfg b
          in if ret \<noteq> 0 then Some (FGDMA_ERR_COMMON, g, b)
             else let (ret, g, b) = FGdmaChanDirectSetTrans g channel_id (src_addr cfg) (dst_addr cfg) (trans_length cfg) b
                  in if ret \<noteq> 0 then Some (FGDMA_ERR_COMMON, g, b) else Some (FGDMA_SUCCESS, g, b)
   }"

text \<open>The descriptors of a list, by address: \<open>first\<close> plus 32 bytes for each.\<close>

definition desc_addr :: "uintptr \<Rightarrow> u64 \<Rightarrow> uintptr" where
  "desc_addr first i = first + i * 0x20"

definition FGdmaBDLSetDesc ::
  "uintptr \<Rightarrow> FGdmaBdlDescConfig \<Rightarrow> (uintptr \<Rightarrow> FGdmaBdlDesc) \<Rightarrow> FError \<times> (uintptr \<Rightarrow> FGdmaBdlDesc)" where
  "FGdmaBDLSetDesc first cfg mem =
    (let p = desc_addr first (current_desc_num cfg) in
     if d_src_addr cfg = 0 \<or> d_dst_addr cfg = 0
        \<or> d_src_addr cfg mod ucast (FGDMA_GET_BURST_BYTE (d_rd_size cfg)) \<noteq> 0
        \<or> d_dst_addr cfg mod ucast (FGDMA_GET_BURST_BYTE (d_wr_size cfg)) \<noteq> 0
     then (FGDMA_ERR_INVALID_ADDR, mem)
     else if d_trans_length cfg = 0
        \<or> d_trans_length cfg mod ucast (FGDMA_GET_BURST_BYTE (d_rd_size cfg)) \<noteq> 0
        \<or> d_trans_length cfg mod ucast (FGDMA_GET_BURST_BYTE (d_wr_size cfg)) \<noteq> 0
     then (FGDMA_ERR_INVALID_SIZE, mem)
     else (FGDMA_SUCCESS, mem(p :=
       \<lparr>src_addr_l = LOWER_32_BITS (d_src_addr cfg), src_addr_h = UPPER_32_BITS (d_src_addr cfg),
        dst_addr_l = LOWER_32_BITS (d_dst_addr cfg), dst_addr_h = UPPER_32_BITS (d_dst_addr cfg),
        src_tc = (FGDMA_SRC_TC_BDL_BURST_SET (d_rd_type cfg) OR FGDMA_SRC_TC_BDL_SIZE_SET (d_rd_size cfg))
          OR FGDMA_SRC_TC_BDL_LEN_SET (d_rd_length cfg),
        dst_tc = (FGDMA_DST_TC_BDL_BURST_SET (d_wr_type cfg) OR FGDMA_DST_TC_BDL_SIZE_SET (d_wr_size cfg))
          OR FGDMA_DST_TC_BDL_LEN_SET (d_wr_length cfg),
        total_bytes = ucast (d_trans_length cfg),
        desc_ioc = (if d_ioc cfg then 1 else 0)\<rparr>)))"

definition FGdmaChanBDLSetBasic :: "FGdma \<Rightarrow> u32 \<Rightarrow> FGdmaChanConfig \<Rightarrow> 'c bus \<Rightarrow> FError \<times> 'c bus" where
  "FGdmaChanBDLSetBasic g channel_id cfg b =
    (let base = base_addr (config g);
         (reg_val, b) = FGDMA_READREG base (FGDMA_CHX_MODE_OFFSET channel_id) b;
         reg_val = reg_val OR FGDMA_CHX_MODE_BDL_EN;
         reg_val = (if roll_back cfg then reg_val OR FGDMA_CHX_MODE_BDL_ROLL_EN
                    else reg_val AND NOT FGDMA_CHX_MODE_BDL_ROLL_EN);
         b = FGDMA_WRITEREG base (FGDMA_CHX_MODE_OFFSET channel_id) reg_val b;
         b = FGdmaChanSetQos g channel_id (rd_qos cfg) (wr_qos cfg) b;
         b = (if wait_mode cfg = FGDMA_WAIT_INTR
              then FGdmaChanIrqEnable base channel_id
                     (FGDMA_CHX_INT_CTRL_TRANS_END_ENABLE OR FGDMA_CHX_INT_CTRL_BDL_END_ENABLE) b else b)
     in (0, b))"

text \<open>Whether some descriptor of the list has no source address; the list is read in order.\<close>

definition desc_unset :: "(uintptr \<Rightarrow> FGdmaBdlDesc) \<Rightarrow> uintptr \<Rightarrow> nat \<Rightarrow> bool" where
  "desc_unset mem first loop \<longleftrightarrow>
     (let d = mem (desc_addr first (of_nat loop)) in src_addr_l d = 0 \<and> src_addr_h d = 0)"

definition FGdmaChanBDLSetTrans ::
  "FGdma \<Rightarrow> u32 \<Rightarrow> FGdmaChanConfig \<Rightarrow> (uintptr \<Rightarrow> FGdmaBdlDesc) \<Rightarrow> 'c bus \<Rightarrow> (FError \<times> FGdma \<times> 'c bus) option" where
  "FGdmaChanBDLSetTrans g channel_id cfg mem b = do {
     FASSERT (unat channel_id < FGDMA_NUM_OF_CHAN);
     FASSERT (first_desc_addr cfg \<noteq> 0 \<and> valid_desc_num cfg > 0);
     if (\<exists>loop\<in>set [0..<unat (valid_desc_num cfg)]. desc_unset mem (first_desc_addr cfg) loop)
     then Some (FGDMA_ERR_COMMON, g, b)
     else let base = base_addr (config g);
              b = FGDMA_WRITEREG base (FGDMA_CHX_UPSADDR_OFFSET channel_id) (UPPER_32_BITS (first_desc_addr cfg)) b;
              b = FGDMA_WRITEREG base (FGDMA_CHX_LWSADDR_OFFSET channel_id) (LOWER_32_BITS (first_desc_addr cfg)) b;
              b = FGDMA_WRITEREG base (FGDMA_CHX_UPDADDR_OFFSET channel_id) 0 b;
              b = FGDMA_WRITEREG base (FGDMA_CHX_LWDADDR_OFFSET channel_id) 0 b;
              b = FGDMA_WRITEREG base (FGDMA_CHX_TS_OFFSET channel_id) 0 b;
              b = FGDMA_WRITEREG base (FGDMA_CHX_LVI_OFFSET channel_id) (FGDMA_CHX_LVI_SET (valid_desc_num cfg)) b
          in Some (FGDMA_SUCCESS, set_ready channel_id g, b)
   }"

definition FGdmaChanBDLConfiguration ::
  "FGdma \<Rightarrow> u32 \<Rightarrow> FGdmaChanConfig \<Rightarrow> (uintptr \<Rightarrow> FGdmaBdlDesc) \<Rightarrow> 'c bus \<Rightarrow> (FError \<times> FGdma \<times> 'c bus) option" where
  "FGdmaChanBDLConfiguration g channel_id cfg mem b = do {
     FASSERT (gdma_ready g \<noteq> 0);
     FASSERT (unat channel_id < FGDMA_NUM_OF_CHAN);
     let (ret, b) = FGdmaChanBDLSetBasic g channel_id cfg b;
     if ret \<noteq> 0 then Some (FGDMA_ERR_COMMON, g, b)
     else if first_desc_addr cfg mod ucast FGDMA_BDL_DESC_ALIGMENT \<noteq> 0 then Some (FGDMA_ERR_INVALID_ADDR, g, b)
     else do {
       (ret, g, b) \<leftarrow> FGdmaChanBDLSetTrans g channel_id cfg mem b;
       if ret \<noteq> 0 then Some (FGDMA_ERR_COMMON, g, b) else Some (FGDMA_SUCCESS, g, b)
     }
   }"

text \<open>The part of \<open>FGdmaChanConfigure\<close> before the mode is looked at: the channel is stopped and reset.\<close>

definition restart_chan :: "FGdma \<Rightarrow> u32 \<Rightarrow> 'c bus \<Rightarrow> 'c bus option" where
  "restart_chan g channel_id b = do {
     (_, b) \<leftarrow> FGdmaChanAbort g channel_id b;
     let base = base_addr (config g);
     let b = FGdmaChanIrqDisable base channel_id b;
     let b = FGdmaClearChanStatus base channel_id FGDMA_CHX_INT_STATE_ALL b;
     let b = FGdmaChanSoftReset base channel_id b;
     Some (FGdmaSetChanClock base channel_id True b)
   }"

definition FGdmaChanConfigure ::
  "FGdma \<Rightarrow> u32 \<Rightarrow> FGdmaChanConfig \<Rightarrow> (uintptr \<Rightarrow> FGdmaBdlDesc) \<Rightarrow> 'c bus \<Rightarrow> (FError \<times> FGdma \<times> 'c bus) option" where
  "FGdmaChanConfigure g channel_id cfg mem b = do {
     FASSERT (gdma_ready g \<noteq> 0);
     FASSERT (unat channel_id < FGDMA_NUM_OF_CHAN);
     b \<leftarrow> restart_chan g channel_id b;
     if trans_mode cfg = FGDMA_OPER_DIRECT then do {
       (ret, g, b) \<leftarrow> FGdmaChanDirectConfiguration g channel_id cfg b;
       if ret \<noteq> 0 then Some (FGDMA_ERR_COMMON, g, b) else Some (FGDMA_SUCCESS, g, b)
     }
     else if trans_mode cfg = FGDMA_OPER_BDL then do {
       (ret, g, b) \<leftarrow> FGdmaChanBDLConfiguration g channel_id cfg mem b;
       if ret \<noteq> 0 then Some (FGDMA_ERR_COMMON, g, b) else Some (FGDMA_SUCCESS, g, b)
     }
     else Some (FGDMA_ERR_WRONG_PARA, g, b)
   }"

definition FGdmaChanDeconfigure :: "FGdma \<Rightarrow> u32 \<Rightarrow> 'c bus \<Rightarrow> (FError \<times> FGdma \<times> 'c bus) option" where
  "FGdmaChanDeconfigure g channel_id b = do {
     FASSERT (unat channel_id < FGDMA_NUM_OF_CHAN);
     if \<not> chan_ready g channel_id then Some (FGDMA_ERR_NOT_INIT, g, b)
     else let base = base_addr (config g);
              b = FGdmaChanIrqDisable base channel_id b;
              b = FGdmaClearChanStatus base channel_id FGDMA_CHX_INT_STATE_ALL b;
              b = FGdmaChanDisable base channel_id b;
              b = FGdmaChanSoftReset base channel_id b;
              b = FGdmaSetChanClock base channel_id False b
          in Some (FGDMA_SUCCESS, clear_ready channel_id g, b)
   }"

section \<open>Starting transfers\<close>

definition FGdmaChanStartTrans :: "FGdma \<Rightarrow> u32 \<Rightarrow> 'c bus \<Rightarrow> 'c bus option" where
  "FGdmaChanStartTrans g channel_id b = do {
     FASSERT (gdma_ready g \<noteq> 0);
     FASSERT (chan_ready g channel_id);
     let base = base_addr (config g);
     let b = FGdmaChanEnable base channel_id b;
     let b = (if FGDMA_TRANS_NEED_RESET_MASK AND caps (config g) \<noteq> 0 then FGdmaSoftReset base b else b);
     Some (FGdmaEnable base b)
   }"

definition FGdmaGlobalStartTrans :: "FGdma \<Rightarrow> 'c bus \<Rightarrow> 'c bus option" where
  "FGdmaGlobalStartTrans g b = do {
     FASSERT (gdma_ready g \<noteq> 0);
     FASSERT (chan_ready_flag g \<noteq> 0);
     let base = base_addr (config g);
     let b = fold (\<lambda>k b. if chan_ready g (of_nat k) then FGdmaChanEnable base (of_nat k) b else b)
               [0..<FGDMA_NUM_OF_CHAN] b;
     let b = (if FGDMA_TRANS_NEED_RESET_MASK AND caps (config g) \<noteq> 0 then FGdmaSoftReset base b else b);
     Some (FGdmaEnable base b)
   }"

section \<open>Interrupts\<close>

text \<open>
  Calling a handler is a parameter: \<open>call\<close> takes the address of the function, the interrupt data
  of the channel and the argument, and may use the bus. Handlers that call back into the driver
  are not modelled.
\<close>

type_synonym 'c caller = "uintptr \<Rightarrow> FGdmaChanIrq \<Rightarrow> uintptr \<Rightarrow> 'c bus \<Rightarrow> 'c bus"

definition FGDMA_CALL_EVT_HANDLER :: "'c caller \<Rightarrow> FGdmaChanIrq \<Rightarrow> nat \<Rightarrow> 'c bus \<Rightarrow> 'c bus" where
  "FGDMA_CALL_EVT_HANDLER call info evt b =
    (if evt_handlers info evt \<noteq> 0 then call (evt_handlers info evt) info (evt_handler_args info evt) b else b)"

definition FGdmaChanIrqHandler :: "'c caller \<Rightarrow> FGdma \<Rightarrow> nat \<Rightarrow> 'c bus \<Rightarrow> 'c bus option" where
  "FGdmaChanIrqHandler call g k b = do {
     let info = chan_irq_info g k;
     let channel_id = chan_id info;
     FASSERT (gdma_instance info);
     let base = base_addr (config g);
     FASSERT (unat channel_id < FGDMA_NUM_OF_CHAN);
     if \<not> chan_ready g channel_id then Some b
     else
       let (chan_status, b) = FGdmaReadChanStatus base channel_id b;
           b = (if FGDMA_CHX_INT_STATE_BUSY AND chan_status \<noteq> 0
                then FGDMA_CALL_EVT_HANDLER call info FGDMA_CHAN_EVT_BUSY b else b);
           b = (if FGDMA_CHX_INT_STATE_TRANS_END AND chan_status \<noteq> 0
                then FGDMA_CALL_EVT_HANDLER call info FGDMA_CHAN_EVT_TRANS_END b else b);
           b = (if FGDMA_CHX_INT_STATE_BDL_END AND chan_status \<noteq> 0
                then FGDMA_CALL_EVT_HANDLER call info FGDMA_CHAN_EVT_BDL_END b else b);
           b = (if FGDMA_CHX_INT_STATE_FIFO_FULL AND chan_status \<noteq> 0
                then FGDMA_CALL_EVT_HANDLER call info FGDMA_CHAN_EVT_FIFO_FULL b else b);
           b = (if FGDMA_CHX_INT_STATE_FIFO_EMPTY AND chan_status \<noteq> 0
                then FGDMA_CALL_EVT_HANDLER call info FGDMA_CHAN_EVT_FIFO_EMPTY b else b);
           b = FGdmaClearChanStatus base channel_id chan_status b;
           (_, b) = FGdmaReadChanStatus base channel_id b
       in Some b
   }"

definition FGdmaIrqHandler :: "'c caller \<Rightarrow> FGdma \<Rightarrow> 'c bus \<Rightarrow> 'c bus option" where
  "FGdmaIrqHandler call g b = do {
     let base = base_addr (config g);
     let (status, b) = FGdmaReadStatus base b;
     let b = FGdmaIrqDisable base b;
     b \<leftarrow> foreach (\<lambda>k b. if \<not> chan_ready g (of_nat k) \<or> status AND FGDMA_CHX_INTR_STATE (of_nat k) = 0
            then Some b else FGdmaChanIrqHandler call g k b) [0..<FGDMA_NUM_OF_CHAN] b;
     let b = FGdmaIrqEnable base b;
     let (_, b) = FGdmaReadStatus base b;
     Some b
   }"

definition FGdmaIrqHandlerPrivateChannel :: "'c caller \<Rightarrow> FGdma \<Rightarrow> nat \<Rightarrow> 'c bus \<Rightarrow> 'c bus option" where
  "FGdmaIrqHandlerPrivateChannel call g k b = do {
     let info = chan_irq_info g k;
     FASSERT (gdma_instance info);
     FASSERT (unat (chan_id info) < FGDMA_NUM_OF_CHAN);
     if \<not> chan_ready g (chan_id info) then Some b
     else do {
       let base = base_addr (config g);
       let (_, b) = FGdmaReadStatus base b;
       b \<leftarrow> FGdmaChanIrqHandler call g k b;
       let (_, b) = FGdmaReadStatus base b;
       Some b
     }
   }"

definition FGdmaChanRegisterEvtHandler :: "FGdma \<Rightarrow> u32 \<Rightarrow> nat \<Rightarrow> uintptr \<Rightarrow> uintptr \<Rightarrow> FGdma option" where
  "FGdmaChanRegisterEvtHandler g channel_id evt handler handler_arg = do {
     FASSERT (unat channel_id < FGDMA_NUM_OF_CHAN);
     FASSERT (evt < FGDMA_CHAN_NUM_OF_EVT);
     let k = unat channel_id;
     let info = chan_irq_info g k;
     let info = info\<lparr>evt_handlers := (evt_handlers info)(evt := handler),
                     evt_handler_args := (evt_handler_args info)(evt := handler_arg)\<rparr>;
     Some (g\<lparr>chan_irq_info := (chan_irq_info g)(k := info)\<rparr>)
   }"

section \<open>Configuration table\<close>

definition fgdma_cfg_tbl :: "FGdmaConfig list" where
  "fgdma_cfg_tbl =
    [\<lparr>instance_id = 0, irq_num = (\<lambda>_. 0)(0 := 266), irq_prority = 0, caps = BIT 0,
      base_addr = FGDMA0_BASE_ADDR, ctl_rd_qos = FGDMA_OPER_NONE_PRIORITY_POLL,
      ctl_wr_qos = FGDMA_OPER_NONE_PRIORITY_POLL, ctl_wait_mode = FGDMA_WAIT_INTR\<rparr>]"

definition FGdmaLookupConfig :: "u32 \<Rightarrow> FGdmaConfig option" where
  "FGdmaLookupConfig i = find (\<lambda>c. instance_id c = i) fgdma_cfg_tbl"

end
