(* ===== verification/GdmaProps.thy ===== *)
theory GdmaProps
  imports Gdma
begin

text \<open>
  What the DMA driver does on the bus. An operation on a channel writes only registers of that
  channel and its own bit of the two shared registers; an abort polls a bounded number of times;
  a successful configuration programs the transfer it was given; the interrupt handler
  acknowledges exactly the events it has dispatched.
\<close>

section \<open>Addresses\<close>

text \<open>The register at offset \<open>k\<close> of a channel, as an offset and as an address.\<close>

definition creg :: "uintptr \<Rightarrow> u32 \<Rightarrow> u32 \<Rightarrow> uintptr" where
  "creg base ch k = base + ucast (k + FGDMA_CHX_OFFSET ch)"

definition chan_reg :: "uintptr \<Rightarrow> u32 \<Rightarrow> uintptr \<Rightarrow> bool" where
  "chan_reg base ch a \<longleftrightarrow> (\<exists>k. 0x20 \<le> k \<and> k < 0x68 \<and> a = creg base ch (of_nat k))"

lemma unat_chan_offset:
  assumes "unat ch < 16" "unat k < 0x68"
  shows "unat (k + FGDMA_CHX_OFFSET ch) = unat k + unat ch * 0x60"
proof -
  have "unat (ch * 0x60) = unat ch * 0x60" using assms(1) by (simp add: unat_word_ariths(2))
  then show ?thesis using assms by (simp add: FGDMA_CHX_OFFSET_def unat_word_ariths(1))
qed

lemma creg_inject:
  assumes "unat ch < 16" "unat k < 0x68" "unat d < 16" "unat l < 0x68"
  shows "creg base ch k = creg base d l \<longleftrightarrow> unat k + unat ch * 0x60 = unat l + unat d * 0x60"
  using unat_chan_offset [OF assms(1,2)] unat_chan_offset [OF assms(3,4)]
  by (simp add: creg_def ucast_u32_inject) (metis word_unat_eq_iff)

definition INTR_CTRL :: "uintptr \<Rightarrow> uintptr" where "INTR_CTRL base = base + ucast FGDMA_INTR_CTRL_OFFSET"
definition LP :: "uintptr \<Rightarrow> uintptr" where "LP base = base + ucast FGDMA_LP_OFFSET"

lemma INTR_CTRL_neq_LP [simp]: "INTR_CTRL base \<noteq> LP base" "LP base \<noteq> INTR_CTRL base"
  by (auto simp: INTR_CTRL_def LP_def const_defs)

lemma creg_low:
  assumes "unat ch < 16" "unat k < 0x68" "0x20 \<le> unat k" "unat s < 0x20"
  shows "creg base ch k \<noteq> base + ucast (s :: u32)"
proof
  assume "creg base ch k = base + ucast s"
  then have "k + FGDMA_CHX_OFFSET ch = s" by (simp only: creg_def add_left_cancel ucast_u32_inject)
  then show False using unat_chan_offset [OF assms(1,2)] assms(3,4) by simp
qed

lemma creg_shared:
  assumes "unat ch < 16" "unat k < 0x68" "0x20 \<le> unat k"
  shows "creg base ch k \<noteq> INTR_CTRL base" "creg base ch k \<noteq> LP base"
    "INTR_CTRL base \<noteq> creg base ch k" "LP base \<noteq> creg base ch k"
  using creg_low [OF assms, of FGDMA_INTR_CTRL_OFFSET base] creg_low [OF assms, of FGDMA_LP_OFFSET base]
  unfolding INTR_CTRL_def LP_def by (auto simp: const_defs)

lemma chan_reg_low:
  assumes "chan_reg base ch a" "unat ch < 16" "unat s < 0x20"
  shows "a \<noteq> base + ucast (s :: u32)"
proof -
  obtain k where k: "0x20 \<le> k" "k < 0x68" "a = creg base ch (of_nat k)" using assms(1) by (auto simp: chan_reg_def)
  have "unat (of_nat k :: u32) = k" using k by (simp add: unat_of_nat_32)
  then show ?thesis using creg_low [OF assms(2) _ _ assms(3), of "of_nat k"] k by simp
qed

lemma chan_reg_disjoint:
  assumes "unat ch < 16" "unat d < 16" "d \<noteq> ch" "chan_reg base d a"
  shows "\<not> chan_reg base ch a" "a \<noteq> INTR_CTRL base" "a \<noteq> LP base"
proof -
  obtain k where k: "0x20 \<le> k" "k < 0x68" "a = creg base d (of_nat k)" using assms(4) by (auto simp: chan_reg_def)
  have uk: "unat (of_nat k :: u32) = k" using k by (simp add: unat_of_nat_32)
  show "\<not> chan_reg base ch a"
  proof
    assume "chan_reg base ch a"
    then obtain l where l: "0x20 \<le> l" "l < 0x68" "a = creg base ch (of_nat l)" by (auto simp: chan_reg_def)
    have ul: "unat (of_nat l :: u32) = l" using l by (simp add: unat_of_nat_32)
    have "k + unat d * 0x60 = l + unat ch * 0x60"
      using creg_inject [of d "of_nat k" ch "of_nat l" base] assms k l uk ul by simp
    moreover have "unat d \<noteq> unat ch" using assms(3) by (simp add: word_unat_eq_iff)
    ultimately show False using k l by (cases "unat d < unat ch") (auto dest!: Suc_leI)
  qed
  show "a \<noteq> INTR_CTRL base" "a \<noteq> LP base"
    using chan_reg_low [OF assms(4,2), of FGDMA_INTR_CTRL_OFFSET] chan_reg_low [OF assms(4,2), of FGDMA_LP_OFFSET]
    by (simp_all add: INTR_CTRL_def LP_def const_defs)
qed

text \<open>The channel registers the driver uses, as \<open>creg\<close>.\<close>

lemma creg_eqs:
  "base + ucast (FGDMA_CHX_CTL_OFFSET ch) = creg base ch 0x20"
  "base + ucast (FGDMA_CHX_MODE_OFFSET ch) = creg base ch 0x24"
  "base + ucast (FGDMA_CHX_INT_CTRL_OFFSET ch) = creg base ch 0x28"
  "base + ucast (FGDMA_CHX_INT_STATE_OFFSET ch) = creg base ch 0x2C"
  "base + ucast (FGDMA_CHX_LVI_OFFSET ch) = creg base ch 0x30"
  "base + ucast (FGDMA_CHX_TS_OFFSET ch) = creg base ch 0x34"
  "base + ucast (FGDMA_CHX_UPSADDR_OFFSET ch) = creg base ch 0x38"
  "base + ucast (FGDMA_CHX_LWSADDR_OFFSET ch) = creg base ch 0x3C"
  "base + ucast (FGDMA_CHX_UPDADDR_OFFSET ch) = creg base ch 0x40"
  "base + ucast (FGDMA_CHX_LWDADDR_OFFSET ch) = creg base ch 0x44"
  "base + ucast (FGDMA_CHX_XFER_CFG_OFFSET ch) = creg base ch 0x48"
  by (simp_all add: creg_def chan_offset_defs)

lemma chan_reg_creg: "0x20 \<le> unat k \<Longrightarrow> unat k < 0x68 \<Longrightarrow> chan_reg base ch (creg base ch k)"
  unfolding chan_reg_def by (rule exI [of _ "unat k"]) simp

lemma creg_neq:
  assumes "unat ch < 16" "unat k < 0x68" "unat l < 0x68"
  shows "creg base ch k = creg base ch l \<longleftrightarrow> k = l"
  using creg_inject [OF assms(1,2,1,3)] by (simp add: word_unat_eq_iff)

section \<open>Operations on one channel\<close>

text \<open>The events an operation on channel \<open>ch\<close> may cause.\<close>

definition chan_events :: "uintptr \<Rightarrow> u32 \<Rightarrow> 'c bus_event list \<Rightarrow> bool" where
  "chan_events base ch es \<longleftrightarrow>
     (\<forall>a v. Wr a v \<in> set es \<longrightarrow> chan_reg base ch a \<or> a = INTR_CTRL base \<or> a = LP base) \<and>
     rmw (INTR_CTRL base) (BIT (unat ch)) es \<and> rmw (LP base) (BIT (unat ch)) es"

interpretation chan: event_class "chan_events base ch"
  by unfold_locales (auto simp: chan_events_def intro: rmw.empty rmw.concat)

lemma chan_events_own:
  assumes "unat ch < 16" "0x20 \<le> unat k" "unat k < 0x68"
  shows "chan_events base ch [Wr (creg base ch k) v]" "chan_events base ch [Rd (creg base ch k) u]"
    "chan_events base ch [Rd (creg base ch k) u, Wr (creg base ch k) v]"
    "chan_events base ch [Delay n]"
  using chan_reg_creg [OF assms(2,3), of base ch] creg_shared [OF assms(1,3,2), of base]
  by (simp_all add: chan_events_def rmw_def)

lemma chan_events_shared:
  assumes "\<And>k. k \<noteq> unat ch \<Longrightarrow> bit v k = bit u k" "unat ch < 16"
  shows "chan_events base ch [Rd (INTR_CTRL base) u, Wr (INTR_CTRL base) v]"
    "chan_events base ch [Rd (LP base) u, Wr (LP base) v]"
  using assms by (auto simp: chan_events_def rmw_def)

lemmas reg_defs = FGDMA_READREG_def FGDMA_WRITEREG_def creg_eqs INTR_CTRL_def [symmetric] LP_def [symmetric]
  case_prod_beta Let_def

lemma chan_reg_ops:
  assumes "unat ch < 16" "0x20 \<le> unat k" "unat k < 0x68"
  shows "extends (chan_events base ch) b (FtOut32 (creg base ch k) v b)"
    and "extends (chan_events base ch) b (snd (FtIn32 (creg base ch k) b))"
    and "extends (chan_events base ch) b (FtOut32 (creg base ch k) (f (fst (FtIn32 (creg base ch k) b))) (snd (FtIn32 (creg base ch k) b)))"
    and "extends (chan_events base ch) b (FDriverUdelay n b)"
  by (rule extends_Wr extends_Rd extends_update extends_Delay; rule chan_events_own [OF assms])+

lemma chan_shared_ops:
  assumes "unat ch < 16" "\<And>v k. k \<noteq> unat ch \<Longrightarrow> bit (f v) k = bit v k"
  shows "extends (chan_events base ch) b (FtOut32 (INTR_CTRL base) (f (fst (FtIn32 (INTR_CTRL base) b))) (snd (FtIn32 (INTR_CTRL base) b)))"
    and "extends (chan_events base ch) b (FtOut32 (LP base) (f (fst (FtIn32 (LP base) b))) (snd (FtIn32 (LP base) b)))"
  by (rule extends_update, rule chan_events_shared; use assms in simp)+

lemma bit_mask_other:
  fixes v :: u32
  shows "k \<noteq> n \<Longrightarrow> bit (v AND NOT (BIT n)) k = bit v k" "k \<noteq> n \<Longrightarrow> bit (v OR BIT n) k = bit v k"
  using bit_imp_le_length [of v k] by (auto simp: bit_and_iff bit_or_iff bit_not_iff)

lemma chan_ops_local:
  assumes "unat ch < 16"
  shows "extends (chan_events base ch) b (FGdmaChanDisable base ch b)"
    and "extends (chan_events base ch) b (FGdmaChanEnable base ch b)"
    and "extends (chan_events base ch) b (FGdmaClearChanStatus base ch st b)"
    and "extends (chan_events base ch) b (snd (FGdmaReadChanStatus base ch b))"
  unfolding FGdmaChanDisable_def FGdmaChanEnable_def FGdmaClearChanStatus_def FGdmaReadChanStatus_def reg_defs
  using chan_reg_ops(1,2) [OF assms, of "0x2C" base b]
    chan_reg_ops(3) [OF assms, of "0x20" base b "\<lambda>v. v AND NOT FGDMA_CHX_CTL_ENABLE"]
    chan_reg_ops(3) [OF assms, of "0x20" base b "\<lambda>v. v OR FGDMA_CHX_CTL_ENABLE"]
  by simp_all

lemma chan_clock_local:
  assumes "unat ch < 16"
  shows "extends (chan_events base ch) b (FGdmaSetChanClock base ch on b)"
  unfolding FGdmaSetChanClock_def reg_defs
  using chan_shared_ops(2) [OF assms, of "\<lambda>v. if on then v AND NOT (FGDMA_CHX_LP_CTL ch) else v OR FGDMA_CHX_LP_CTL ch" base b]
  by (simp add: FGDMA_CHX_LP_CTL_def bit_mask_other)

lemma chan_irq_local:
  assumes "unat ch < 16"
  shows "extends (chan_events base ch) b (FGdmaChanIrqDisable base ch b)"
    and "extends (chan_events base ch) b (FGdmaChanIrqEnable base ch m b)"
proof -
  have "extends (chan_events base ch) b (FtOut32 (INTR_CTRL base) (fst (FtIn32 (INTR_CTRL base) b) AND NOT (FGDMA_CHX_INTR_MASK ch)) (snd (FtIn32 (INTR_CTRL base) b)))"
    "extends (chan_events base ch) b (FtOut32 (INTR_CTRL base) (fst (FtIn32 (INTR_CTRL base) b) OR FGDMA_CHX_INTR_MASK ch) (snd (FtIn32 (INTR_CTRL base) b)))"
    using chan_shared_ops(1) [OF assms, of "\<lambda>v. v AND NOT (FGDMA_CHX_INTR_MASK ch)" base b]
      chan_shared_ops(1) [OF assms, of "\<lambda>v. v OR FGDMA_CHX_INTR_MASK ch" base b]
    by (simp_all add: FGDMA_CHX_INTR_MASK_def bit_mask_other)
  then show "extends (chan_events base ch) b (FGdmaChanIrqDisable base ch b)"
    "extends (chan_events base ch) b (FGdmaChanIrqEnable base ch m b)"
    unfolding FGdmaChanIrqDisable_def FGdmaChanIrqEnable_def reg_defs
    using chan_reg_ops(1) [OF assms, of "0x28" base] chan.trans by simp_all blast+
qed

lemma chan_reset_local:
  assumes "unat ch < 16"
  shows "extends (chan_events base ch) b (FGdmaChanSoftReset base ch b)"
proof -
  let ?b = "FtOut32 (creg base ch 0x20) (fst (FtIn32 (creg base ch 0x20) b) OR FGDMA_CHX_CTL_SOFT_RESET) (snd (FtIn32 (creg base ch 0x20) b))"
  have "extends (chan_events base ch) b ?b"
    using chan_reg_ops(3) [OF assms, of "0x20" base b "\<lambda>v. v OR FGDMA_CHX_CTL_SOFT_RESET"] by simp
  moreover have "extends (chan_events base ch) ?b (FGdmaChanSoftReset base ch b)"
    unfolding FGdmaChanSoftReset_def reg_defs
    using chan_reg_ops(3) [OF assms, of "0x20" base ?b "\<lambda>v. v AND NOT FGDMA_CHX_CTL_SOFT_RESET"] by simp
  ultimately show ?thesis by (rule chan.trans)
qed

lemma abort_loop_local:
  assumes "unat ch < 16"
  shows "extends (chan_events base ch) b (snd (abort_loop base ch t b))"
proof (induction t arbitrary: b)
  case (Suc t)
  let ?b1 = "snd (FGdmaReadChanStatus base ch b)"
  let ?b2 = "FGdmaChanDisable base ch ?b1"
  note r = chan_ops_local(4) [OF assms, of base b] and d = chan_ops_local(1) [OF assms, of base ?b1]
  have "extends (chan_events base ch) ?b2 (snd (abort_loop base ch t (FDriverUdelay 2 ?b2)))"
    by (rule chan.trans [OF chan_reg_ops(4) [of ch "0x20"] Suc.IH]) (use assms in simp_all)
  then show ?case using r chan.trans [OF r d] chan.trans [OF chan.trans [OF r d]]
    by (simp add: case_prod_beta Let_def)
qed (simp add: chan.refl)

lemma abort_local:
  assumes "FGdmaChanAbort g ch b = Some (err, b')"
  shows "extends (chan_events (base_addr (config g)) ch) b b'"
proof -
  have ch: "unat ch < 16" using assms by (auto simp: FGdmaChanAbort_def FASSERT_bind_eq_Some_iff const_defs)
  show ?thesis
  proof (cases "chan_ready g ch")
    case True
    let ?b1 = "FGdmaChanDisable (base_addr (config g)) ch b"
    have "b' = snd (abort_loop (base_addr (config g)) ch 10000 ?b1)"
      using assms True ch by (simp add: FGdmaChanAbort_def const_defs Let_def del: abort_loop.simps)
    then show ?thesis using chan.trans [OF chan_ops_local(1) [OF ch] abort_loop_local [OF ch]] by blast
  qed (use assms ch chan.refl in \<open>auto simp: FGdmaChanAbort_def const_defs\<close>)
qed

lemma restart_local:
  assumes "restart_chan g ch b = Some b'"
  shows "extends (chan_events (base_addr (config g)) ch) b b'"
proof -
  obtain err b1 where a: "FGdmaChanAbort g ch b = Some (err, b1)"
    using assms by (auto simp: restart_chan_def bind_eq_Some_conv)
  then have ch: "unat ch < 16" by (auto simp: FGdmaChanAbort_def FASSERT_bind_eq_Some_iff const_defs)
  note 1 = chan.trans [OF abort_local [OF a] chan_irq_local(1) [OF ch]]
  note 2 = chan.trans [OF 1 chan_ops_local(3) [OF ch]]
  note 3 = chan.trans [OF 2 chan_reset_local [OF ch]]
  note 4 = chan.trans [OF 3 chan_clock_local [OF ch]]
  from assms a show ?thesis unfolding restart_chan_def Let_def by (simp, hypsubst) (rule 4)
qed

lemma set_qos_local:
  assumes "unat ch < 16"
  shows "extends (chan_events (base_addr (config g)) ch) b (FGdmaChanSetQos g ch rd wr b)"
  unfolding FGdmaChanSetQos_def reg_defs
  using chan_reg_ops(3) [OF assms, of "0x24" "base_addr (config g)" b "\<lambda>v.
      let v = (if rd = FGDMA_OPER_NONE_PRIORITY_POLL then v AND NOT FGDMA_CHX_MODE_RD_QOS_EN
                    else (v AND NOT FGDMA_CHX_MODE_RD_QOS_MASK)
                      OR (FGDMA_CHX_MODE_RD_QOS_EN OR FGDMA_CHX_MODE_RD_QOS_SET (of_int rd)))
      in (if wr = FGDMA_OPER_NONE_PRIORITY_POLL then v AND NOT FGDMA_CHX_MODE_WR_QOS_EN
                    else (v AND NOT FGDMA_CHX_MODE_WR_QOS_MASK)
                      OR (FGDMA_CHX_MODE_WR_QOS_EN OR FGDMA_CHX_MODE_WR_QOS_SET (of_int wr)))"]
  by (simp add: Let_def)

lemma direct_basic_local:
  assumes "unat ch < 16"
  shows "extends (chan_events (base_addr (config g)) ch) b (snd (FGdmaChanDirectSetBasic g ch cfg b))"
proof -
  let ?base = "base_addr (config g)"
  let ?f = "\<lambda>v. (v AND NOT FGDMA_CHX_MODE_BDL_EN) AND NOT FGDMA_CHX_MODE_BDL_ROLL_EN"
  let ?b1 = "FtOut32 (creg ?base ch 0x24) (?f (fst (FtIn32 (creg ?base ch 0x24) b))) (snd (FtIn32 (creg ?base ch 0x24) b))"
  have "extends (chan_events ?base ch) b ?b1"
    using chan_reg_ops(3) [OF assms, of "0x24" ?base b ?f] by simp
  note 1 = chan.trans [OF this set_qos_local [OF assms, of g ?b1 "rd_qos cfg" "wr_qos cfg"]]
  note 2 = chan.trans [OF 1 chan_reg_ops(1) [OF assms, of "0x48" ?base _ "xfer_cfg cfg"]]
  note 3 = chan.trans [OF 2 chan_irq_local(2) [OF assms]]
  show ?thesis unfolding FGdmaChanDirectSetBasic_def reg_defs using 2 3 by simp
qed

lemma bdl_basic_local:
  assumes "unat ch < 16"
  shows "extends (chan_events (base_addr (config g)) ch) b (snd (FGdmaChanBDLSetBasic g ch cfg b))"
proof -
  let ?base = "base_addr (config g)"
  let ?f = "\<lambda>v. if roll_back cfg then (v OR FGDMA_CHX_MODE_BDL_EN) OR FGDMA_CHX_MODE_BDL_ROLL_EN
                else (v OR FGDMA_CHX_MODE_BDL_EN) AND NOT FGDMA_CHX_MODE_BDL_ROLL_EN"
  let ?b1 = "FtOut32 (creg ?base ch 0x24) (?f (fst (FtIn32 (creg ?base ch 0x24) b))) (snd (FtIn32 (creg ?base ch 0x24) b))"
  have "extends (chan_events ?base ch) b ?b1"
    using chan_reg_ops(3) [OF assms, of "0x24" ?base b ?f] by simp
  note 1 = chan.trans [OF this set_qos_local [OF assms, of g ?b1 "rd_qos cfg" "wr_qos cfg"]]
  note 2 = chan.trans [OF 1 chan_irq_local(2) [OF assms]]
  show ?thesis unfolding FGdmaChanBDLSetBasic_def reg_defs using 1 2 by simp
qed

text \<open>Six writes to registers of the channel, the shape of both transfer set-ups.\<close>

lemma six_writes_local:
  assumes "unat ch < 16" "\<forall>k\<in>{k1, k2, k3, k4, k5, k6}. 0x20 \<le> unat k \<and> unat k < 0x68"
  shows "extends (chan_events base ch) b
    (FtOut32 (creg base ch k6) v6 (FtOut32 (creg base ch k5) v5 (FtOut32 (creg base ch k4) v4
      (FtOut32 (creg base ch k3) v3 (FtOut32 (creg base ch k2) v2 (FtOut32 (creg base ch k1) v1 b))))))"
  using assms(2) by (auto intro!: chan.trans [OF _ chan_reg_ops(1) [OF assms(1)]] chan.refl)

lemma direct_config_local:
  assumes "FGdmaChanDirectConfiguration g ch cfg b = Some (err, g', b')"
  shows "extends (chan_events (base_addr (config g)) ch) b b' \<and> (g' = g \<or> g' = set_ready ch g)"
proof -
  have ch: "unat ch < 16"
    using assms by (auto simp: FGdmaChanDirectConfiguration_def FASSERT_bind_eq_Some_iff const_defs)
  let ?b1 = "snd (FGdmaChanDirectSetBasic g ch cfg b)"
  have "extends (chan_events (base_addr (config g)) ch) ?b1
      (snd (snd (FGdmaChanDirectSetTrans g ch src dst len ?b1)))" for src dst len
    unfolding FGdmaChanDirectSetTrans_def reg_defs snd_conv by (rule six_writes_local [OF ch]) simp
  from chan.trans [OF direct_basic_local [OF ch] this] show ?thesis
    using assms ch chan.refl [of "base_addr (config g)" ch b]
    by (auto simp: FGdmaChanDirectConfiguration_def FASSERT_bind_eq_Some_iff case_prod_beta Let_def
        FGdmaChanDirectSetTrans_def FGdmaChanDirectSetBasic_def const_defs split: if_splits)
qed

lemma bdl_trans_local:
  assumes "FGdmaChanBDLSetTrans g ch cfg mem b = Some (err, g', b')"
  shows "extends (chan_events (base_addr (config g)) ch) b b' \<and> (g' = g \<or> g' = set_ready ch g)"
proof -
  have ch: "unat ch < 16"
    using assms by (auto simp: FGdmaChanBDLSetTrans_def FASSERT_bind_eq_Some_iff const_defs)
  note w = six_writes_local [OF ch, where base = "base_addr (config g)" and b = b and ?k1.0 = "0x38" and ?k2.0 = "0x3C"
      and ?k3.0 = "0x40" and ?k4.0 = "0x44" and ?k5.0 = "0x34" and ?k6.0 = "0x30"]
  show ?thesis
    using assms w chan.refl [of "base_addr (config g)" ch b]
    by (auto simp: FGdmaChanBDLSetTrans_def FASSERT_bind_eq_Some_iff FGDMA_WRITEREG_def creg_eqs Let_def split: if_splits)
qed

lemma bdl_config_local:
  assumes "FGdmaChanBDLConfiguration g ch cfg mem b = Some (err, g', b')"
  shows "extends (chan_events (base_addr (config g)) ch) b b' \<and> (g' = g \<or> g' = set_ready ch g)"
proof -
  have ch: "unat ch < 16"
    using assms by (auto simp: FGdmaChanBDLConfiguration_def FASSERT_bind_eq_Some_iff const_defs)
  let ?b1 = "snd (FGdmaChanBDLSetBasic g ch cfg b)"
  note l = bdl_basic_local [OF ch, of g b cfg]
  obtain r0 b1 where p: "FGdmaChanBDLSetBasic g ch cfg b = (r0, b1)" by fastforce
  consider "b' = ?b1" "g' = g" | r where "FGdmaChanBDLSetTrans g ch cfg mem ?b1 = Some (r, g', b')"
    using assms unfolding FGdmaChanBDLConfiguration_def p
    by (auto simp: FASSERT_bind_eq_Some_iff bind_eq_Some_conv split: if_splits)
  then show ?thesis
  proof cases
    case (2 r)
    then show ?thesis using chan.trans [OF l] bdl_trans_local [OF 2] by simp
  qed (use l in simp)
qed

lemma configure_local:
  assumes "FGdmaChanConfigure g ch cfg mem b = Some (err, g', b')"
  shows "extends (chan_events (base_addr (config g)) ch) b b' \<and> (g' = g \<or> g' = set_ready ch g)"
proof -
  obtain b1 where b1: "restart_chan g ch b = Some b1"
    using assms by (auto simp: FGdmaChanConfigure_def FASSERT_bind_eq_Some_iff bind_eq_Some_conv)
  note l = restart_local [OF b1]
  consider r where "FGdmaChanDirectConfiguration g ch cfg b1 = Some (r, g', b')"
    | r where "FGdmaChanBDLConfiguration g ch cfg mem b1 = Some (r, g', b')" | "g' = g" "b' = b1"
    using assms b1
    by (auto simp: FGdmaChanConfigure_def FASSERT_bind_eq_Some_iff bind_eq_Some_conv split: if_splits)
  then show ?thesis
  proof cases
    case (1 r)
    then show ?thesis using chan.trans [OF l] direct_config_local [OF 1] by simp
  next
    case (2 r)
    then show ?thesis using chan.trans [OF l] bdl_config_local [OF 2] by simp
  qed (use l in simp)
qed

lemma deconfigure_local:
  assumes "FGdmaChanDeconfigure g ch b = Some (err, g', b')"
  shows "extends (chan_events (base_addr (config g)) ch) b b' \<and> (g' = g \<or> g' = clear_ready ch g)"
proof -
  have ch: "unat ch < 16"
    using assms by (auto simp: FGdmaChanDeconfigure_def FASSERT_bind_eq_Some_iff const_defs)
  note 1 = chan.trans [OF chan_irq_local(1) [OF ch] chan_ops_local(3) [OF ch]]
  note 2 = chan.trans [OF 1 chan_ops_local(1) [OF ch]]
  note 3 = chan.trans [OF 2 chan_reset_local [OF ch]]
  note 4 = chan.trans [OF 3 chan_clock_local [OF ch]]
  show ?thesis
    using assms 4 chan.refl [of "base_addr (config g)" ch b]
    by (auto simp: FGdmaChanDeconfigure_def FASSERT_bind_eq_Some_iff Let_def split: if_splits)
qed

section \<open>Sequences of operations\<close>

text \<open>The calls that work on one channel.\<close>

inductive chan_step :: "u32 \<Rightarrow> FGdma \<times> 'c bus \<Rightarrow> FGdma \<times> 'c bus \<Rightarrow> bool" where
  configure: "FGdmaChanConfigure g ch cfg mem b = Some (err, g', b') \<Longrightarrow> chan_step ch (g, b) (g', b')"
| deconfigure: "FGdmaChanDeconfigure g ch b = Some (err, g', b') \<Longrightarrow> chan_step ch (g, b) (g', b')"
| abort: "FGdmaChanAbort g ch b = Some (err, b') \<Longrightarrow> chan_step ch (g, b) (g, b')"

inductive_cases chan_stepE: "chan_step ch (g, b) (g', b')"

lemma chan_ready_other:
  assumes "unat d < 16" "d \<noteq> ch"
  shows "chan_ready (set_ready ch g) d = chan_ready g d" "chan_ready (clear_ready ch g) d = chan_ready g d"
proof -
  have "unat d \<noteq> unat ch" using assms(2) by (simp add: word_unat_eq_iff)
  then show "chan_ready (set_ready ch g) d = chan_ready g d" "chan_ready (clear_ready ch g) d = chan_ready g d"
    using assms(1) by (simp_all add: chan_ready_def set_ready_def clear_ready_def AND_BIT_eq_0_iff bit_mask_other)
qed

lemma chan_step_local:
  assumes "chan_step ch (g, b) (g', b')"
  shows "unat ch < 16" "extends (chan_events (base_addr (config g)) ch) b b'" "config g' = config g"
    "unat d < 16 \<Longrightarrow> d \<noteq> ch \<Longrightarrow> chan_ready g' d = chan_ready g d"
proof -
  show "unat ch < 16"
    using assms by (auto elim!: chan_stepE simp: FGdmaChanConfigure_def FGdmaChanDeconfigure_def FGdmaChanAbort_def
        FASSERT_bind_eq_Some_iff const_defs)
  have *: "extends (chan_events (base_addr (config g)) ch) b b' \<and> g' \<in> {g, set_ready ch g, clear_ready ch g}"
    using assms by (auto elim!: chan_stepE dest: configure_local deconfigure_local abort_local)
  then show "extends (chan_events (base_addr (config g)) ch) b b'" ..
  show "config g' = config g" using * by (auto simp: set_ready_def clear_ready_def)
  show "unat d < 16 \<Longrightarrow> d \<noteq> ch \<Longrightarrow> chan_ready g' d = chan_ready g d"
    using * chan_ready_other [of d ch g] by auto
qed

definition other_step :: "u32 \<Rightarrow> FGdma \<times> 'c bus \<Rightarrow> FGdma \<times> 'c bus \<Rightarrow> bool" where
  "other_step d s s' \<longleftrightarrow> (\<exists>ch. ch \<noteq> d \<and> chan_step ch s s')"

lemma other_step_keeps:
  assumes "other_step d (g, b) (g', b')" "unat d < 16"
    and "chan_reg (base_addr (config g)) d a" "keeps (dev b) a"
    and "s \<in> {INTR_CTRL (base_addr (config g)), LP (base_addr (config g))}" "plain_reg (dev b) s"
  shows "dev b' = dev b" "config g' = config g" "chan_ready g' d = chan_ready g d"
    "dev b (trace b') a = dev b (trace b) a" "bit (dev b (trace b') s) (unat d) = bit (dev b (trace b) s) (unat d)"
proof -
  obtain ch where ch: "ch \<noteq> d" "chan_step ch (g, b) (g', b')" using assms(1) by (auto simp: other_step_def)
  note l = chan_step_local [OF ch(2)]
  obtain es where es: "dev b' = dev b" "trace b' = trace b @ es" "consistent (dev b) (trace b) es"
    "chan_events (base_addr (config g)) ch es" using l(2) by (auto simp: extends_def)
  show "dev b' = dev b" by (fact es(1))
  show "config g' = config g" by (fact l(3))
  show "chan_ready g' d = chan_ready g d" using l(4) assms(2) ch(1) by blast
  have "Wr a v \<notin> set es" for v
    using es(4) chan_reg_disjoint [OF l(1) assms(2) _ assms(3)] ch(1) by (auto simp: chan_events_def)
  then show "dev b (trace b') a = dev b (trace b) a" using keeps_events [OF assms(4)] es(2) by simp
  have "\<not> bit (BIT (unat ch)) (unat d)" using ch(1) by (simp add: word_unat_eq_iff)
  moreover have "rmw s (BIT (unat ch)) es" using es(4) assms(5) by (auto simp: chan_events_def)
  ultimately show "bit (dev b (trace b') s) (unat d) = bit (dev b (trace b) s) (unat d)"
    unfolding es(2) by (rule rmw_keeps_bits [OF assms(6) _ _ es(3)])
qed

section \<open>Polling\<close>

lemma err_neq_success [simp]:
  "FGDMA_ERR_COMMON \<noteq> FGDMA_SUCCESS" "FGDMA_ERR_WRONG_PARA \<noteq> FGDMA_SUCCESS" "FGDMA_ERR_INVALID_ADDR \<noteq> FGDMA_SUCCESS"
  "FGDMA_ERR_INVALID_SIZE \<noteq> FGDMA_SUCCESS"
  "FGDMA_ERR_COMMON \<noteq> 0" "FGDMA_ERR_INVALID_ADDR \<noteq> 0" "FGDMA_ERR_INVALID_SIZE \<noteq> 0"
  by (simp_all add: FGDMA_ERR_COMMON_def FGDMA_ERR_WRONG_PARA_def FGDMA_ERR_INVALID_ADDR_def
      FGDMA_ERR_INVALID_SIZE_def FT_MAKE_ERRCODE_def const_defs)

text \<open>The values read from an address, in order.\<close>

definition polls :: "uintptr \<Rightarrow> 'c bus_event list \<Rightarrow> u32 list" where
  "polls a es = List.map_filter (\<lambda>e. case e of Rd x v \<Rightarrow> if x = a then Some v else None | _ \<Rightarrow> None) es"

lemma polls_simps [simp]:
  "polls a [] = []" "polls a (Rd x v # es) = (if x = a then v # polls a es else polls a es)"
  "polls a (Wr x v # es) = polls a es" "polls a (Delay n # es) = polls a es"
  "polls a (xs @ ys) = polls a xs @ polls a ys"
  by (simp_all add: polls_def List.map_filter_def)

definition busy :: "u32 \<Rightarrow> bool" where
  "busy st \<longleftrightarrow> st AND FGDMA_CHX_INT_STATE_BUSY \<noteq> 0"

text \<open>What the values polled by an abort with counter \<open>t\<close> say about its result.\<close>

definition polled :: "nat \<Rightarrow> FError \<Rightarrow> u32 list \<Rightarrow> bool" where
  "polled t err ps \<longleftrightarrow> ps \<noteq> [] \<and> length ps \<le> t \<and> (\<forall>p\<in>set (butlast ps). busy p) \<and>
     (err = FGDMA_SUCCESS \<and> \<not> busy (last ps) \<or> err = FGDMA_ERR_COMMON \<and> busy (last ps) \<and> length ps = t)"

lemma abort_loop_polled:
  assumes "unat ch < 16" "t > 0"
  shows "\<exists>es. trace (snd (abort_loop base ch t b)) = trace b @ es \<and>
    polled t (fst (abort_loop base ch t b)) (polls (creg base ch 0x2C) es)"
  using assms(2)
proof (induction t arbitrary: b)
  case (Suc t)
  let ?st = "dev b (trace b) (creg base ch 0x2C)"
  have neq: "creg base ch 0x20 \<noteq> creg base ch 0x2C" using creg_neq [OF assms(1)] by simp
  show ?case
  proof (cases "busy ?st")
    case False
    then show ?thesis
      by (intro exI [of _ "[Rd (creg base ch 0x2C) ?st]"])
         (simp add: FGdmaReadChanStatus_def reg_defs FtIn32_def busy_def polled_def)
  next
    case True
    let ?b2 = "FGdmaChanDisable base ch (snd (FGdmaReadChanStatus base ch b))"
    obtain es2 where es2: "trace ?b2 = trace b @ es2" "polls (creg base ch 0x2C) es2 = [?st]"
      using neq by (simp add: FGdmaReadChanStatus_def FGdmaChanDisable_def reg_defs FtIn32_def FtOut32_def)
    show ?thesis
    proof (cases t)
      case 0
      then show ?thesis using True es2
        by (intro exI [of _ es2])
           (simp add: FGdmaReadChanStatus_def reg_defs FtIn32_def busy_def polled_def)
    next
      case (Suc t')
      then obtain es where es: "trace (snd (abort_loop base ch t (FDriverUdelay 2 ?b2))) = trace (FDriverUdelay 2 ?b2) @ es"
        "polled t (fst (abort_loop base ch t (FDriverUdelay 2 ?b2))) (polls (creg base ch 0x2C) es)"
        using Suc.IH [of "FDriverUdelay 2 ?b2"] by auto
      have st: "fst (FGdmaReadChanStatus base ch b) = ?st" by (simp add: FGdmaReadChanStatus_def reg_defs FtIn32_def)
      have a: "abort_loop base ch (Suc t) b = abort_loop base ch t (FDriverUdelay 2 ?b2)"
        using True Suc st by (simp add: case_prod_beta Let_def busy_def)
      have t: "trace (FDriverUdelay 2 ?b2) = trace b @ es2 @ [Delay 2]" using es2(1) by (simp add: FDriverUdelay_def)
      show ?thesis unfolding a
        by (intro exI [of _ "es2 @ [Delay 2] @ es"]) (use es es2(2) True t in \<open>auto simp: polled_def\<close>)
    qed
  qed
qed simp

section \<open>Writes to several channels\<close>

text \<open>Sequences that write only registers of the channels of a set.\<close>

definition chans_events :: "uintptr \<Rightarrow> nat set \<Rightarrow> 'c bus_event list \<Rightarrow> bool" where
  "chans_events base K es \<longleftrightarrow> (\<forall>a v. Wr a v \<in> set es \<longrightarrow> (\<exists>k\<in>K. chan_reg base (of_nat k) a))"

interpretation chans: event_class "chans_events base K"
  by unfold_locales (auto simp: chans_events_def)

lemma chan_disable_chans: "k \<in> K \<Longrightarrow> extends (chans_events base K) b (FGdmaChanDisable base (of_nat k) b)"
proof -
  assume k: "k \<in> K"
  have "chans_events base K [Rd (creg base (of_nat k) 0x20) v, Wr (creg base (of_nat k) 0x20) (v AND NOT FGDMA_CHX_CTL_ENABLE)]" for v
    using k chan_reg_creg [of "0x20" base "of_nat k"] by (auto simp: chans_events_def)
  then show ?thesis
    unfolding FGdmaChanDisable_def reg_defs by (rule extends_update)
qed

lemma abort_loop_chans:
  assumes "k \<in> K"
  shows "extends (chans_events base K) b (snd (abort_loop base (of_nat k) t b))"
proof (induction t arbitrary: b)
  case (Suc t)
  let ?b1 = "snd (FGdmaReadChanStatus base (of_nat k) b)"
  let ?b2 = "FGdmaChanDisable base (of_nat k) ?b1"
  have r: "extends (chans_events base K) b ?b1"
    unfolding FGdmaReadChanStatus_def reg_defs by (rule extends_Rd) (simp add: chans_events_def)
  note d = chan_disable_chans [OF assms, of base ?b1]
  have "extends (chans_events base K) ?b2 (FDriverUdelay 2 ?b2)" by (rule extends_Delay) (simp add: chans_events_def)
  then have "extends (chans_events base K) ?b2 (snd (abort_loop base (of_nat k) t (FDriverUdelay 2 ?b2)))"
    using chans.trans [OF _ Suc.IH] by blast
  then show ?case using r chans.trans [OF r d] chans.trans [OF chans.trans [OF r d]]
    by (simp add: case_prod_beta Let_def)
qed (simp add: chans.refl)

lemma stop_chans_local:
  assumes "set (takeWhile (\<lambda>k. chan_ready g (of_nat k)) ks) \<subseteq> K"
  shows "extends (chans_events (base_addr (config g)) K) b (snd (stop_chans g ks b))"
  using assms
proof (induction ks arbitrary: b)
  case (Cons k ks)
  show ?case
  proof (cases "chan_ready g (of_nat k)")
    case True
    then have k: "k \<in> K" and ks: "set (takeWhile (\<lambda>k. chan_ready g (of_nat k)) ks) \<subseteq> K" using Cons.prems by auto
    note a = chans.trans [OF chan_disable_chans [OF k, of "base_addr (config g)" b] abort_loop_chans [OF k]]
    show ?thesis
      using True a chans.trans [OF a Cons.IH [OF ks]] by (simp add: case_prod_beta Let_def del: abort_loop.simps)
  qed (simp add: chans.refl)
qed (simp add: chans.refl)

lemma takeWhile_below_gap:
  assumes "c < n" "\<not> P c" "k \<in> set (takeWhile P [0..<n])"
  shows "k < c"
proof -
  have "[0..<n] = [0..<c] @ c # [Suc c..<n]" using assms(1) by (metis le_add_diff_inverse less_imp_le_nat upt_add_eq_append upt_conv_Cons zero_le)
  then have "takeWhile P [0..<n] = takeWhile P [0..<c]" using assms(2) by (simp add: takeWhile_tail)
  then show ?thesis using assms(3) set_takeWhileD [of k P "[0..<c]"] by simp
qed

lemma abort_eq:
  assumes "unat ch < 16" "chan_ready g ch"
  shows "FGdmaChanAbort g ch b =
    Some (abort_loop (base_addr (config g)) ch 10000 (FGdmaChanDisable (base_addr (config g)) ch b))"
  using assms by (simp add: FGdmaChanAbort_def const_defs Let_def del: abort_loop.simps)

section \<open>Interrupts\<close>

text \<open>A caller that records the handler and its argument.\<close>

definition log_call :: "(uintptr \<times> uintptr) caller" where
  "log_call f info arg b = emit (Call (f, arg)) b"

lemma bit_state:
  "FGDMA_CHX_INT_STATE_BUSY AND st \<noteq> 0 \<longleftrightarrow> bit st 4" "FGDMA_CHX_INT_STATE_TRANS_END AND st \<noteq> 0 \<longleftrightarrow> bit st 3"
  "FGDMA_CHX_INT_STATE_BDL_END AND st \<noteq> 0 \<longleftrightarrow> bit st 2" "FGDMA_CHX_INT_STATE_FIFO_FULL AND st \<noteq> 0 \<longleftrightarrow> bit st 1"
  "FGDMA_CHX_INT_STATE_FIFO_EMPTY AND st \<noteq> 0 \<longleftrightarrow> bit st 0"
  unfolding FGDMA_CHX_INT_STATE_BUSY_def FGDMA_CHX_INT_STATE_TRANS_END_def FGDMA_CHX_INT_STATE_BDL_END_def
    FGDMA_CHX_INT_STATE_FIFO_FULL_def FGDMA_CHX_INT_STATE_FIFO_EMPTY_def
  using AND_BIT_eq_0_iff [of _ st] by (simp_all add: and.commute)

lemma dispatch_log:
  "(if c then FGDMA_CALL_EVT_HANDLER log_call info evt b else b) =
   b\<lparr>trace := trace b @ (if c \<and> evt_handlers info evt \<noteq> 0 then [Call (evt_handlers info evt, evt_handler_args info evt)] else [])\<rparr>"
  by (simp add: FGDMA_CALL_EVT_HANDLER_def log_call_def emit_def)

section \<open>Direct transfers\<close>

text \<open>The checks of a direct transfer.\<close>

definition direct_ok :: "FGdmaChanConfig \<Rightarrow> bool" where
  "direct_ok cfg \<longleftrightarrow> src_addr cfg \<noteq> 0 \<and> dst_addr cfg \<noteq> 0 \<and> trans_length cfg \<noteq> 0 \<and>
     src_addr cfg mod ucast (FGDMA_GET_BURST_BYTE (rd_size cfg)) = 0 \<and>
     dst_addr cfg mod ucast (FGDMA_GET_BURST_BYTE (wr_size cfg)) = 0 \<and>
     trans_length cfg mod ucast (FGDMA_GET_BURST_BYTE (rd_size cfg)) = 0 \<and>
     trans_length cfg mod ucast (FGDMA_GET_BURST_BYTE (wr_size cfg)) = 0"

definition direct_written :: "uintptr \<Rightarrow> u32 \<Rightarrow> FGdmaChanConfig \<Rightarrow> 'c bus_event list \<Rightarrow> bool" where
  "direct_written base ch cfg es \<longleftrightarrow>
      last_wr (creg base ch 0x38) es = Some (UPPER_32_BITS (src_addr cfg)) \<and>
      last_wr (creg base ch 0x3C) es = Some (LOWER_32_BITS (src_addr cfg)) \<and>
      last_wr (creg base ch 0x40) es = Some (UPPER_32_BITS (dst_addr cfg)) \<and>
      last_wr (creg base ch 0x44) es = Some (LOWER_32_BITS (dst_addr cfg)) \<and>
      last_wr (creg base ch 0x34) es = Some (ucast (trans_length cfg)) \<and>
      last_wr (creg base ch 0x48) es = Some (xfer_cfg cfg) \<and>
      last_wr (creg base ch 0x28) es =
        (if wait_mode cfg = FGDMA_WAIT_INTR then Some FGDMA_CHX_INT_CTRL_TRANS_END_ENABLE else None)"

lemma direct_written_ex:
  assumes "gdma_ready g \<noteq> 0" "unat ch < 16" "direct_ok cfg"
  shows "\<exists>b' es. FGdmaChanDirectConfiguration g ch cfg b = Some (FGDMA_SUCCESS, set_ready ch g, b') \<and>
    trace b' = trace b @ es \<and> direct_written (base_addr (config g)) ch cfg es"
proof -
  let ?base = "base_addr (config g)"
  let ?b1 = "snd (FGdmaChanDirectSetBasic g ch cfg b)"
  let ?b2 = "snd (snd (FGdmaChanDirectSetTrans g ch (src_addr cfg) (dst_addr cfg) (trans_length cfg) ?b1))"
  have "FGdmaChanDirectConfiguration g ch cfg b = Some (FGDMA_SUCCESS, set_ready ch g, ?b2)"
    using assms by (simp add: FGdmaChanDirectConfiguration_def direct_ok_def FGDMA_NUM_OF_CHAN_def
        FGdmaChanDirectSetBasic_def FGdmaChanDirectSetTrans_def case_prod_beta Let_def FGDMA_SUCCESS_def FT_SUCCESS_def)
  moreover have "\<exists>es. trace ?b2 = trace b @ es \<and> direct_written ?base ch cfg es"
    using creg_neq [OF assms(2), where base = ?base] creg_shared [OF assms(2), where base = ?base]
    by (simp add: FGdmaChanDirectSetBasic_def FGdmaChanDirectSetTrans_def FGdmaChanSetQos_def FGdmaChanIrqEnable_def reg_defs
        FtIn32_def FtOut32_def direct_written_def last_wr_Cons)
  ultimately show ?thesis by blast
qed

lemma direct_refused:
  assumes "gdma_ready g \<noteq> 0" "unat ch < 16" "\<not> direct_ok cfg"
  shows "\<exists>e. e \<noteq> 0 \<and> FGdmaChanDirectConfiguration g ch cfg b = Some (e, g, b)"
proof -
  let ?A = "src_addr cfg = 0 \<or> dst_addr cfg = 0 \<or> src_addr cfg mod ucast (FGDMA_GET_BURST_BYTE (rd_size cfg)) \<noteq> 0
        \<or> dst_addr cfg mod ucast (FGDMA_GET_BURST_BYTE (wr_size cfg)) \<noteq> 0"
  let ?S = "trans_length cfg = 0 \<or> trans_length cfg mod ucast (FGDMA_GET_BURST_BYTE (wr_size cfg)) \<noteq> 0
        \<or> trans_length cfg mod ucast (FGDMA_GET_BURST_BYTE (rd_size cfg)) \<noteq> 0"
  have n: "unat ch < FGDMA_NUM_OF_CHAN" using assms(2) by (simp add: const_defs)
  have "?A \<or> ?S" using assms(3) unfolding direct_ok_def by argo
  then consider ?A | "\<not> ?A" ?S by argo
  then show ?thesis
  proof cases
    case 1
    show ?thesis unfolding FGdmaChanDirectConfiguration_def if_P [OF 1] using assms(1) n by simp
  next
    case 2
    show ?thesis unfolding FGdmaChanDirectConfiguration_def if_not_P [OF 2(1)] if_P [OF 2(2)] using assms(1) n by simp
  qed
qed

lemma restart_ex:
  assumes "unat ch < 16"
  shows "\<exists>b' es. restart_chan g ch b = Some b' \<and> trace b' = trace b @ es \<and>
    last_wr (creg (base_addr (config g)) ch 0x28) es = Some 0"
proof -
  let ?base = "base_addr (config g)"
  obtain p where "FGdmaChanAbort g ch b = Some p"
    using assms abort_eq [of ch g b] by (cases "chan_ready g ch") (auto simp: FGdmaChanAbort_def FGDMA_NUM_OF_CHAN_def Let_def)
  then obtain err b1 where a: "FGdmaChanAbort g ch b = Some (err, b1)" by (cases p) simp
  obtain es where es: "trace b1 = trace b @ es" using abort_local [OF a] by (auto simp: extends_def)
  show ?thesis
    unfolding restart_chan_def a
    using es creg_neq [OF assms, where base = ?base] creg_shared [OF assms, where base = ?base]
    by (simp add: FGdmaChanIrqDisable_def FGdmaClearChanStatus_def FGdmaChanSoftReset_def FGdmaSetChanClock_def reg_defs
        FtIn32_def FtOut32_def last_wr_append last_wr_Cons)
qed

section \<open>Evaluation on a concrete device\<close>

text \<open>A device that is a plain memory, and an instance with one configured channel.\<close>

definition mem_dev :: "'c bus_event list \<Rightarrow> uintptr \<Rightarrow> u32" where
  "mem_dev h a = (case last_wr a h of Some v \<Rightarrow> v | None \<Rightarrow> 0)"

lemma mem_dev_plain: "plain_reg mem_dev a" "keeps mem_dev a"
  by (auto simp: plain_reg_def keeps_def mem_dev_def split: bus_event.split)

definition demo_cfg :: FGdmaChanConfig where
  "demo_cfg = \<lparr>trans_mode = 0, wait_mode = 0, rd_qos = -1, wr_qos = -1, src_addr = 0x80000000, dst_addr = 0x90000000,
     trans_length = 0x1000, rd_type = 1, wr_type = 1, rd_size = 4, wr_size = 4, rd_length = 7, wr_length = 7,
     first_desc_addr = 0, valid_desc_num = 4, roll_back = False\<rparr>"

definition mem_bus :: "unit bus" where
  "mem_bus = \<lparr>dev = mem_dev, trace = []\<rparr>"

definition demo_gdma :: "nat \<Rightarrow> FGdma" where
  "demo_gdma k = FGdma_zero\<lparr>config := (config FGdma_zero)\<lparr>base_addr := FGDMA0_BASE_ADDR\<rparr>, gdma_ready := FT_COMPONENT_IS_READY, chan_ready_flag := BIT k\<rparr>"

lemma demo_gdma_simps [simp]:
  "base_addr (config (demo_gdma k)) = FGDMA0_BASE_ADDR" "gdma_ready (demo_gdma k) \<noteq> 0"
  "chan_ready (demo_gdma k) ch \<longleftrightarrow> unat ch = k \<and> k < 32" "caps (config (demo_gdma k)) = 0"
  by (simp_all add: demo_gdma_def FGdma_zero_def const_defs)
     (auto simp: demo_gdma_def chan_ready_def FGdma_zero_def bit_eq_iff [where 'a = "32 word"] bit_and_iff)

text \<open>An instance whose channel 3 has a handler at \<open>0x1000\<close> for the end of a transfer.\<close>

definition irq_gdma :: FGdma where
  "irq_gdma = (demo_gdma 3)\<lparr>chan_irq_info := (\<lambda>k. \<lparr>chan_id = of_nat k, gdma_instance = True,
     evt_handler_args = (\<lambda>_. 0x42), evt_handlers = (\<lambda>evt. if evt = FGDMA_CHAN_EVT_TRANS_END then 0x1000 else 0)\<rparr>)\<rparr>"

section \<open>Properties\<close>

text \<open>
  C3: Channels are isolated. Whatever sequence of configurations, releases and aborts is done on
  other channels, successful or not: every register of channel \<open>d\<close> that holds its value keeps it,
  the interrupt-enable and clock bits of \<open>d\<close> in the two shared registers do not change, and the
  driver's ready flag of \<open>d\<close> is the same.
\<close>

theorem channel_isolation:
  assumes "(other_step d)\<^sup>*\<^sup>* (g, b) (g', b')" "unat d < 16"
    and "chan_reg (base_addr (config g)) d a" "keeps (dev b) a"
    and "s \<in> {INTR_CTRL (base_addr (config g)), LP (base_addr (config g))}" "plain_reg (dev b) s"
  shows "dev b' (trace b') a = dev b (trace b) a \<and> bit (dev b' (trace b') s) (unat d) = bit (dev b (trace b) s) (unat d)
    \<and> chan_ready g' d = chan_ready g d"
  using assms
proof (induction "(g, b)" arbitrary: g b rule: converse_rtranclp_induct)
  case (step s1)
  obtain g1 b1 where s1: "s1 = (g1, b1)" by (cases s1)
  from step.hyps(1) have o: "other_step d (g, b) (g1, b1)" unfolding s1 .
  note k = other_step_keeps [OF o step.prems]
  show ?case using step.hyps(3) [OF s1 step.prems(1)] step.prems k by simp
qed simp

theorem channel_isolation_witness:
  "\<exists>b'. (other_step 5)\<^sup>*\<^sup>* (demo_gdma 3, mem_bus) (demo_gdma 3, b') \<and>
    dev b' (trace b') (creg FGDMA0_BASE_ADDR 5 0x34) = 0 \<and> \<not> bit (dev b' (trace b') (LP FGDMA0_BASE_ADDR)) 5"
proof -
  obtain err b' where "FGdmaChanAbort (demo_gdma 3) 3 mem_bus = Some (err, b')" using abort_eq [of 3 "demo_gdma 3" mem_bus] by (cases "abort_loop FGDMA0_BASE_ADDR 3 10000 (FGdmaChanDisable FGDMA0_BASE_ADDR 3 mem_bus)") simp
  then have "chan_step 3 (demo_gdma 3, mem_bus) (demo_gdma 3, b')" by (rule chan_step.abort)
  then have s: "(other_step 5)\<^sup>*\<^sup>* (demo_gdma 3, mem_bus) (demo_gdma 3, b')"
    by (intro r_into_rtranclp) (auto simp: other_step_def intro!: exI [of _ 3])
  have "dev b' (trace b') (creg FGDMA0_BASE_ADDR 5 0x34) = dev mem_bus (trace mem_bus) (creg FGDMA0_BASE_ADDR 5 0x34) \<and>
      bit (dev b' (trace b') (LP FGDMA0_BASE_ADDR)) (unat (5 :: u32)) = bit (dev mem_bus (trace mem_bus) (LP FGDMA0_BASE_ADDR)) (unat (5 :: u32)) \<and>
      chan_ready (demo_gdma 3) 5 = chan_ready (demo_gdma 3) 5"
    by (rule channel_isolation [OF s]) (simp_all add: chan_reg_creg mem_bus_def mem_dev_plain)
  then show ?thesis using s by (auto simp: mem_bus_def mem_dev_def)
qed

text \<open>
  C33: An abort always returns, after at most 10000 reads of the channel status. It reports success
  exactly when the last value read says the channel is idle, every earlier one having said busy;
  it reports failure only after 10000 busy values. The first thing it does is to clear the enable
  bit of the channel.
\<close>

theorem abort_bounded:
  assumes "unat ch < 16" "chan_ready g ch"
  shows "\<exists>err b' v es. FGdmaChanAbort g ch b = Some (err, b') \<and>
    trace b' = trace b @ [Rd (creg (base_addr (config g)) ch 0x20) v,
      Wr (creg (base_addr (config g)) ch 0x20) (v AND NOT FGDMA_CHX_CTL_ENABLE)] @ es \<and>
    polled 10000 err (polls (creg (base_addr (config g)) ch 0x2C) es)"
proof -
  let ?base = "base_addr (config g)"
  let ?b1 = "FGdmaChanDisable ?base ch b"
  obtain es where es: "trace (snd (abort_loop ?base ch 10000 ?b1)) = trace ?b1 @ es"
    "polled 10000 (fst (abort_loop ?base ch 10000 ?b1)) (polls (creg ?base ch 0x2C) es)"
    using abort_loop_polled [OF assms(1), of 10000 ?base ?b1] by auto
  have "trace ?b1 = trace b @ [Rd (creg ?base ch 0x20) (dev b (trace b) (creg ?base ch 0x20)),
      Wr (creg ?base ch 0x20) (dev b (trace b) (creg ?base ch 0x20) AND NOT FGDMA_CHX_CTL_ENABLE)]"
    by (simp add: FGdmaChanDisable_def reg_defs FtIn32_def FtOut32_def)
  then show ?thesis using es abort_eq [OF assms, of b] by (cases "abort_loop ?base ch 10000 ?b1") auto
qed

theorem abort_bounded_witness:
  "\<exists>err b' v es. FGdmaChanAbort (demo_gdma 3) 3 mem_bus = Some (err, b') \<and>
    trace b' = trace mem_bus @ [Rd (creg FGDMA0_BASE_ADDR 3 0x20) v,
      Wr (creg FGDMA0_BASE_ADDR 3 0x20) (v AND NOT FGDMA_CHX_CTL_ENABLE)] @ es \<and>
    polled 10000 err (polls (creg FGDMA0_BASE_ADDR 3 0x2C) es)"
  using abort_bounded [of 3 "demo_gdma 3" mem_bus] by simp

text \<open>
  \<open>FGdmaGlobalStop\<close> does not stop the channels behind a gap: when some channel \<open>c\<close> below \<open>d\<close> is
  not configured, no register of \<open>d\<close> is written, whatever the state of \<open>d\<close>, because the loop
  breaks at the first channel that is not configured instead of passing over it.
\<close>

theorem global_stop_misses:
  assumes "c < unat d" "unat d < 16" "\<not> chan_ready g (of_nat c)" "chan_reg (base_addr (config g)) d a"
  shows "\<exists>es. trace (snd (FGdmaGlobalStop g b)) = trace b @ es \<and> (\<forall>v. Wr a v \<notin> set es)"
proof -
  let ?base = "base_addr (config g)"
  have k: "k < c" if "k \<in> set (takeWhile (\<lambda>k. chan_ready g (of_nat k)) [0..<16])" for k
    by (rule takeWhile_below_gap [OF _ assms(3) that]) (use assms in simp)
  obtain es where es: "trace (snd (stop_chans g [0..<16] b)) = trace b @ es" "chans_events ?base {..<c} es"
    using stop_chans_local [of g "[0..<16]" "{..<c}" b] k by (auto simp: extends_def)
  have "Wr a v \<notin> set es" for v
  proof
    assume "Wr a v \<in> set es"
    then obtain k where k: "k < c" "chan_reg ?base (of_nat k) a" using es(2) by (auto simp: chans_events_def)
    have u: "unat (of_nat k :: u32) = k" using k(1) assms(1,2) by (intro unat_of_nat_32) simp
    moreover have "d \<noteq> of_nat k" using u k(1) assms(1) by auto
    ultimately show False using chan_reg_disjoint(1) [of "of_nat k" d ?base a] k assms by simp
  qed
  moreover have "a \<noteq> ?base + ucast FGDMA_CTL_OFFSET"
    by (rule chan_reg_low [OF assms(4,2)]) (simp add: const_defs)
  ultimately show ?thesis
    using es(1) by (auto simp: FGdmaGlobalStop_def FGDMA_NUM_OF_CHAN_def case_prod_beta Let_def FGdmaDisable_def
        FGDMA_READREG_def FGDMA_WRITEREG_def FtIn32_def FtOut32_def simp del: stop_chans.simps upt.simps)
qed

theorem global_stop_misses_witness:
  "chan_ready (demo_gdma 5) 5 \<and>
   (\<exists>es. trace (snd (FGdmaGlobalStop (demo_gdma 5) mem_bus)) = trace mem_bus @ es \<and>
     (\<forall>v. Wr (creg FGDMA0_BASE_ADDR 5 0x20) v \<notin> set es))"
  using global_stop_misses [of 0 5 "demo_gdma 5" "creg FGDMA0_BASE_ADDR 5 0x20" mem_bus] by (simp add: chan_reg_creg)

text \<open>
  A failed reconfiguration leaves the channel startable. When \<open>FGdmaChanConfigure\<close> reports an
  error for a channel that was configured before, the ready flag stays set although the channel
  has been reset: \<open>FGdmaChanStartTrans\<close> passes its assertions and enables the channel.
\<close>

theorem failed_reconfigure_startable:
  assumes "chan_ready g ch" "FGdmaChanConfigure g ch cfg mem b = Some (err, g', b')" "err \<noteq> FGDMA_SUCCESS"
  shows "\<exists>b'' es. FGdmaChanStartTrans g' ch b' = Some b'' \<and> trace b'' = trace b' @ es \<and>
    (\<exists>v. last_wr (creg (base_addr (config g')) ch 0x20) es = Some v \<and> bit v 0)"
proof -
  have ch: "unat ch < 16" and r: "gdma_ready g \<noteq> 0"
    using assms(2) by (auto simp: FGdmaChanConfigure_def FASSERT_bind_eq_Some_iff const_defs)
  have g': "g' = g \<or> g' = set_ready ch g" using configure_local [OF assms(2)] by blast
  have "bit (v OR FGDMA_CHX_CTL_ENABLE) 0" for v by (simp add: FGDMA_CHX_CTL_ENABLE_def bit_or_iff)
  moreover have "chan_ready g' ch" "gdma_ready g' \<noteq> 0"
    using g' assms(1) r ch by (auto simp: chan_ready_def set_ready_def AND_BIT_eq_0_iff bit_or_iff)
  moreover have "creg (base_addr (config g')) ch 0x20 \<noteq> base_addr (config g') + ucast FGDMA_CTL_OFFSET"
    by (rule creg_low [OF ch]) (simp_all add: const_defs)
  ultimately show ?thesis
    by (simp add: FGdmaChanStartTrans_def FGdmaChanEnable_def FGdmaEnable_def FGdmaSoftReset_def reg_defs FtIn32_def
        FtOut32_def last_wr_Cons)
qed

theorem failed_reconfigure_startable_witness:
  "\<exists>err g' b' b'' es. FGdmaChanConfigure (demo_gdma 3) 3 (demo_cfg\<lparr>trans_mode := 2\<rparr>) (\<lambda>_. undefined) mem_bus = Some (err, g', b') \<and>
    err = FGDMA_ERR_WRONG_PARA \<and> FGdmaChanStartTrans g' 3 b' = Some b'' \<and> trace b'' = trace b' @ es \<and>
    (\<exists>v. last_wr (creg (base_addr (config g')) 3 0x20) es = Some v \<and> bit v 0)"
proof -
  obtain b1 where "restart_chan (demo_gdma 3) 3 mem_bus = Some b1" using restart_ex [of 3 "demo_gdma 3" mem_bus] by auto
  then have c: "FGdmaChanConfigure (demo_gdma 3) 3 (demo_cfg\<lparr>trans_mode := 2\<rparr>) (\<lambda>_. undefined) mem_bus = Some (FGDMA_ERR_WRONG_PARA, demo_gdma 3, b1)"
    by (simp add: FGdmaChanConfigure_def const_defs)
  show ?thesis using failed_reconfigure_startable [OF _ c] c by (auto simp: FGDMA_CHX_OFFSET_def)
qed



text \<open>
  The channel interrupt handler acknowledges exactly what it has seen. It reads the status
  once, calls the registered handler of every event set in it, once each and in the order busy,
  transfer end, descriptor end, FIFO full, FIFO empty, and then writes back the value it read:
  an event that comes up in between is not acknowledged.
\<close>

theorem irq_dispatch:
  assumes "gdma_instance (chan_irq_info g k)" "chan_id (chan_irq_info g k) = of_nat k" "k < 16" "chan_ready g (of_nat k)"
  defines "st_reg \<equiv> creg (base_addr (config g)) (of_nat k) 0x2C"
  shows "\<exists>v. FGdmaChanIrqHandler log_call g k b = Some (b\<lparr>trace := trace b @ [Rd st_reg (dev b (trace b) st_reg)] @
      concat (map (\<lambda>(n, evt). if bit (dev b (trace b) st_reg) n \<and> evt_handlers (chan_irq_info g k) evt \<noteq> 0
        then [Call (evt_handlers (chan_irq_info g k) evt, evt_handler_args (chan_irq_info g k) evt)] else [])
        [(4, FGDMA_CHAN_EVT_BUSY), (3, FGDMA_CHAN_EVT_TRANS_END), (2, FGDMA_CHAN_EVT_BDL_END),
         (1, FGDMA_CHAN_EVT_FIFO_FULL), (0, FGDMA_CHAN_EVT_FIFO_EMPTY)]) @
      [Wr st_reg (dev b (trace b) st_reg), Rd st_reg v]\<rparr>)"
proof -
  have u: "unat (of_nat k :: u32) = k" using assms(3) by (intro unat_of_nat_32) simp
  let ?info = "chan_irq_info g k"
  define st where "st = dev b (trace b) st_reg"
  define L where "L n evt = (if bit st n \<and> evt_handlers ?info evt \<noteq> 0
    then [Call (evt_handlers ?info evt, evt_handler_args ?info evt)] else [])" for n evt
  have d: "(if bit st n then FGDMA_CALL_EVT_HANDLER log_call ?info evt b else b) = b\<lparr>trace := trace b @ L n evt\<rparr>" for n evt b
    unfolding dispatch_log L_def ..
  have r: "FGdmaReadChanStatus (base_addr (config g)) (of_nat k) b = (dev b (trace b) st_reg, emit (Rd st_reg (dev b (trace b) st_reg)) b)"
    "FGdmaClearChanStatus (base_addr (config g)) (of_nat k) v b = emit (Wr st_reg v) b" for b :: "(uintptr \<times> uintptr) bus" and v
    by (simp_all add: FGdmaReadChanStatus_def FGdmaClearChanStatus_def reg_defs FtIn32_def FtOut32_def st_reg_def)
  have "\<exists>v. FGdmaChanIrqHandler log_call g k b = Some (b\<lparr>trace := trace b @ [Rd st_reg st] @
      (L 4 FGDMA_CHAN_EVT_BUSY @ L 3 FGDMA_CHAN_EVT_TRANS_END @ L 2 FGDMA_CHAN_EVT_BDL_END @
       L 1 FGDMA_CHAN_EVT_FIFO_FULL @ L 0 FGDMA_CHAN_EVT_FIFO_EMPTY) @ [Wr st_reg st, Rd st_reg v]\<rparr>)"
    unfolding FGdmaChanIrqHandler_def Let_def assms(2) r bit_state prod.case st_def [symmetric] d
    using assms(1,3,4) u by (simp add: emit_def FGDMA_NUM_OF_CHAN_def) (rule exI, rule refl)
  then show ?thesis by (simp add: L_def st_def)
qed

theorem irq_dispatch_witness:
  "\<exists>b'. FGdmaChanIrqHandler log_call irq_gdma 3 \<lparr>dev = (\<lambda>_ _. 0x18), trace = []\<rparr> = Some b' \<and>
    Call (0x1000, 0x42) \<in> set (trace b') \<and> Wr (creg FGDMA0_BASE_ADDR 3 0x2C) 0x18 \<in> set (trace b')"
proof -
  have "chan_ready irq_gdma (of_nat 3)" using demo_gdma_simps(3) [of 3 3] by (simp add: irq_gdma_def chan_ready_def)
  moreover have "base_addr (config irq_gdma) = FGDMA0_BASE_ADDR" by (simp add: irq_gdma_def)
  ultimately show ?thesis
    using irq_dispatch [of irq_gdma 3 "\<lparr>dev = (\<lambda>_ _. 0x18), trace = []\<rparr>"] by (auto simp: irq_gdma_def const_defs)
qed

end
