(* ===== verification/GdmaOs.thy ===== *)
theory GdmaOs
  imports GdmaProps
begin

text \<open>
  The FreeRTOS layer of the DMA driver, \<^verbatim>\<open>drivers/dma/fgdma/fgdma_os.c\<close>. The kernel, the
  memory pool and the interrupt controller are not part of it: \<open>os_env\<close> gives the results of the
  semaphore operations as functions of the history, the allocator as functions on its own state
  and the address of the completion callback; calls of the kernel and of the interrupt
  controller are events on the bus, in order with the register accesses. The controller has one
  instance, so the array of instances is one record.
\<close>

section \<open>Environment and state\<close>

datatype gdma_event =
    SemTake bool | SemGive bool | SemDelete | EnterCritical | ExitCritical
  | InterruptSetTargetCpus u32 u32 | InterruptSetPriority u32 u32
  | InterruptInstallShared u32 | InterruptInstallPrivate u32 u32 | InterruptUmask u32
  | UserHandler uintptr u32 uintptr | DriverHandler uintptr uintptr

record 'm os_env =
  sem_take :: "gdma_event bus_event list \<Rightarrow> bool"
  sem_give :: "gdma_event bus_event list \<Rightarrow> bool"
  create_mutex :: bool
  cpu_id :: u32
  mem_init :: "'m \<Rightarrow> FError \<times> 'm"
  mem_deinit :: "'m \<Rightarrow> 'm"
  mem_alloc :: "'m \<Rightarrow> u64 \<Rightarrow> u64 \<Rightarrow> uintptr \<times> 'm"
  mem_free :: "'m \<Rightarrow> uintptr \<Rightarrow> 'm"
  transfer_end_addr :: uintptr

record 'm FFreeRTOSGdma =
  ctrl :: FGdma
  locker :: bool
  memp :: 'm
  os_evt_handler :: "nat \<Rightarrow> nat \<Rightarrow> uintptr"
  os_evt_handler_arg :: "nat \<Rightarrow> nat \<Rightarrow> uintptr"

text \<open>The instance with the static list of descriptor arrays, the descriptors and the bus.\<close>

record 'm gdma_world =
  os :: "'m FFreeRTOSGdma"
  channel_first_desc_addr :: "nat \<Rightarrow> uintptr"
  desc_mem :: "uintptr \<Rightarrow> FGdmaBdlDesc"
  obus :: "gdma_event bus"

definition FFREERTOS_GDMA_OK :: FError where [const_defs]: "FFREERTOS_GDMA_OK = FT_SUCCESS"
definition FFREERTOS_GDMA_SEMA_ERR :: FError where "FFREERTOS_GDMA_SEMA_ERR = FT_MAKE_ERRCODE ErrModPort ErrGdma 2"
definition FFREERTOS_GDMA_ALLOCATE_FAIL :: FError where "FFREERTOS_GDMA_ALLOCATE_FAIL = FT_MAKE_ERRCODE ErrModPort ErrGdma 4"
definition FFREERTOS_GDMA_IRQ_PRIORITY :: u32 where [const_defs]: "FFREERTOS_GDMA_IRQ_PRIORITY = 0xc"
definition FFREERTOS_GDMA_CHAN_EVT_TRANS_END :: nat where [const_defs]: "FFREERTOS_GDMA_CHAN_EVT_TRANS_END = 1"
definition FFREERTOS_GDMA_CHAN_NUM_OF_EVT :: nat where [const_defs]: "FFREERTOS_GDMA_CHAN_NUM_OF_EVT = 3"
definition FFREERTOS_GDMA_OPER_DIRECT :: u32 where [const_defs]: "FFREERTOS_GDMA_OPER_DIRECT = 0"
definition FFREERTOS_GDMA_OPER_BDL :: u32 where [const_defs]: "FFREERTOS_GDMA_OPER_BDL = 1"

record FFreeRTOSGdmaChanCfg =
  os_trans_mode :: u32
  os_src_addr :: uintptr
  os_dst_addr :: uintptr
  os_trans_length :: u64

definition FGDMA_DEFAULT_CHAN_CONFIG :: FGdmaChanConfig where
  "FGDMA_DEFAULT_CHAN_CONFIG =
     \<lparr>trans_mode = FGDMA_OPER_DIRECT, wait_mode = FGDMA_WAIT_INTR,
      rd_qos = FGDMA_OPER_NONE_PRIORITY_POLL, wr_qos = FGDMA_OPER_NONE_PRIORITY_POLL,
      src_addr = 0, dst_addr = 0, trans_length = 0, rd_type = 1, wr_type = 1, rd_size = 4, wr_size = 4,
      rd_length = 7, wr_length = 7, first_desc_addr = 0, valid_desc_num = 4, roll_back = False\<rparr>"

definition FGDMA_DEFAULT_DESC_CONFIG :: FGdmaBdlDescConfig where
  "FGDMA_DEFAULT_DESC_CONFIG =
     \<lparr>current_desc_num = 0, d_src_addr = 0, d_dst_addr = 0, d_trans_length = 0, d_rd_type = 1, d_wr_type = 1,
      d_rd_size = 4, d_wr_size = 4, d_rd_length = 7, d_wr_length = 7, d_ioc = False\<rparr>"

section \<open>Semaphore and interrupts\<close>

definition os_call :: "gdma_event \<Rightarrow> 'm gdma_world \<Rightarrow> 'm gdma_world" where
  "os_call c w = w\<lparr>obus := emit (Call c) (obus w)\<rparr>"

definition set_ctrl :: "FGdma \<Rightarrow> 'm gdma_world \<Rightarrow> 'm gdma_world" where
  "set_ctrl g w = w\<lparr>os := (os w)\<lparr>ctrl := g\<rparr>\<rparr>"

definition FGdmaOsTakeSema :: "'m os_env \<Rightarrow> 'm gdma_world \<Rightarrow> (FError \<times> 'm gdma_world) option" where
  "FGdmaOsTakeSema env w = do {
     FASSERT (locker (os w));
     let ok = sem_take env (trace (obus w));
     let w = os_call (SemTake ok) w;
     Some (if ok then FFREERTOS_GDMA_OK else FFREERTOS_GDMA_SEMA_ERR, w)
   }"

definition FGdmaOsGiveSema :: "'m os_env \<Rightarrow> 'm gdma_world \<Rightarrow> 'm gdma_world option" where
  "FGdmaOsGiveSema env w = do {
     FASSERT (locker (os w));
     Some (os_call (SemGive (sem_give env (trace (obus w)))) w)
   }"

definition FGdmaSetupShareInterrupt :: "'m os_env \<Rightarrow> 'm gdma_world \<Rightarrow> 'm gdma_world option" where
  "FGdmaSetupShareInterrupt env w = do {
     let g = ctrl (os w);
     FASSERT (gdma_ready g \<noteq> 0);
     let n = irq_num (config g) 0;
     let w = os_call (InterruptSetTargetCpus n (cpu_id env)) w;
     let w = os_call (InterruptSetPriority n (irq_prority (config g))) w;
     let w = os_call (InterruptInstallShared n) w;
     Some (os_call (InterruptUmask n) w)
   }"

definition FGdmaSetupPrivateInterrupt :: "u32 \<Rightarrow> 'm gdma_world \<Rightarrow> 'm gdma_world option" where
  "FGdmaSetupPrivateInterrupt channel_id w = do {
     let g = ctrl (os w);
     FASSERT (gdma_ready g \<noteq> 0);
     FASSERT (unat channel_id < FGDMA_NUM_OF_CHAN);
     let n = irq_num (config g) (unat channel_id);
     let w = os_call (InterruptSetTargetCpus n 0) w;
     let w = os_call (InterruptSetPriority n (irq_prority (config g))) w;
     let w = os_call (InterruptInstallPrivate n channel_id) w;
     Some (os_call (InterruptUmask n) w)
   }"

text \<open>The completion callback of the driver calls the handler the user has registered.\<close>

definition GdmaChannelTransferEnd :: "'m FFreeRTOSGdma \<Rightarrow> FGdmaChanIrq \<Rightarrow> gdma_event bus \<Rightarrow> gdma_event bus" where
  "GdmaChannelTransferEnd inst info b =
    (let h = os_evt_handler inst (unat (chan_id info)) FFREERTOS_GDMA_CHAN_EVT_TRANS_END;
         arg = os_evt_handler_arg inst (unat (chan_id info)) FFREERTOS_GDMA_CHAN_EVT_TRANS_END
     in if h \<noteq> 0 then emit (Call (UserHandler h (chan_id info) arg)) b else b)"

definition os_caller :: "'m os_env \<Rightarrow> 'm FFreeRTOSGdma \<Rightarrow> gdma_event caller" where
  "os_caller env inst f info arg b =
    (if f = transfer_end_addr env then GdmaChannelTransferEnd inst info b else emit (Call (DriverHandler f arg)) b)"

definition FFreeRTOSGdmaChanRegisterEvtHandler ::
  "u32 \<Rightarrow> nat \<Rightarrow> uintptr \<Rightarrow> uintptr \<Rightarrow> 'm gdma_world \<Rightarrow> 'm gdma_world option" where
  "FFreeRTOSGdmaChanRegisterEvtHandler channel_id evt handler arg w = do {
     FASSERT (unat channel_id < FGDMA_NUM_OF_CHAN);
     FASSERT (evt < FFREERTOS_GDMA_CHAN_NUM_OF_EVT);
     FASSERT (handler \<noteq> 0);
     let o' = os w;
     let k = unat channel_id;
     Some (w\<lparr>os := o'\<lparr>os_evt_handler := (os_evt_handler o')(k := (os_evt_handler o' k)(evt := handler)),
       os_evt_handler_arg := (os_evt_handler_arg o')(k := (os_evt_handler_arg o' k)(evt := arg))\<rparr>\<rparr>)
   }"

section \<open>Instances\<close>

text \<open>Returns whether the instance is usable; a missing configuration is a null dereference.\<close>

definition FFreeRTOSGdmaInit :: "'m os_env \<Rightarrow> u32 \<Rightarrow> 'm gdma_world \<Rightarrow> (bool \<times> 'm gdma_world) option" where
  "FFreeRTOSGdmaInit env ctrl_id w = do {
     FASSERT (unat ctrl_id < FGDMA_INSTANCE_NUM);
     let w = os_call EnterCritical w;
     ctrl_config \<leftarrow> FGdmaLookupConfig ctrl_id;
     let ctrl_config = ctrl_config\<lparr>irq_prority := FFREERTOS_GDMA_IRQ_PRIORITY\<rparr>;
     (err, g, b) \<leftarrow> FGdmaCfgInitialize (ctrl (os w)) ctrl_config (obus w);
     let w = set_ctrl g (w\<lparr>obus := b\<rparr>);
     if err \<noteq> FGDMA_SUCCESS then Some (err = FT_SUCCESS, os_call ExitCritical w)
     else do {
       w \<leftarrow> (if caps (config (ctrl (os w))) AND FGDMA_IRQ1_MASK \<noteq> 0 then FGdmaSetupShareInterrupt env w else Some w);
       let (err, m) = mem_init env (memp (os w));
       let w = w\<lparr>os := (os w)\<lparr>memp := m\<rparr>\<rparr>;
       if err \<noteq> FT_SUCCESS then Some (err = FT_SUCCESS, os_call ExitCritical w)
       else do {
         FASSERT (\<not> locker (os w));
         let w = w\<lparr>os := (os w)\<lparr>locker := create_mutex env\<rparr>\<rparr>;
         FASSERT (create_mutex env);
         Some (err = FT_SUCCESS, os_call ExitCritical w)
       }
     }
   }"

definition FFreeRTOSGdmaDeInit :: "'m os_env \<Rightarrow> 'm gdma_world \<Rightarrow> (FError \<times> 'm gdma_world) option" where
  "FFreeRTOSGdmaDeInit env w = do {
     let w = os_call EnterCritical w;
     let (err, b) = FGdmaGlobalStop (ctrl (os w)) (obus w);
     let w = w\<lparr>obus := b\<rparr>;
     if err \<noteq> FT_SUCCESS then Some (err, os_call ExitCritical w)
     else do {
       let w = w\<lparr>os := (os w)\<lparr>memp := mem_deinit env (memp (os w))\<rparr>\<rparr>;
       (g, b) \<leftarrow> FGdmaDeInitialize (ctrl (os w)) (obus w);
       let w = os_call SemDelete (set_ctrl g (w\<lparr>obus := b\<rparr>));
       let w = w\<lparr>os := (os w)\<lparr>locker := False\<rparr>\<rparr>;
       Some (err, os_call ExitCritical w)
     }
   }"

section \<open>Channels\<close>

text \<open>
  The list of descriptors for a transfer: the length is divided by the number of descriptors and
  kept in a signed 32-bit number; the offset of a descriptor is a signed 32-bit product. The
  result of \<open>FGdmaBDLSetDesc\<close> is not looked at.
\<close>

definition pre_desc_trans_len :: "FFreeRTOSGdmaChanCfg \<Rightarrow> u64 \<Rightarrow> u32" where
  "pre_desc_trans_len cfg n = ucast (os_trans_length cfg div n)"

definition bdl_desc_config :: "FFreeRTOSGdmaChanCfg \<Rightarrow> u32 \<Rightarrow> nat \<Rightarrow> FGdmaBdlDescConfig" where
  "bdl_desc_config cfg len loop =
     FGDMA_DEFAULT_DESC_CONFIG
       \<lparr>current_desc_num := of_nat loop,
        d_src_addr := os_src_addr cfg + scast (of_nat loop * len :: u32),
        d_dst_addr := os_dst_addr cfg + scast (of_nat loop * len :: u32),
        d_trans_length := scast len\<rparr>"

definition set_descs :: "FFreeRTOSGdmaChanCfg \<Rightarrow> uintptr \<Rightarrow> u64 \<Rightarrow> (uintptr \<Rightarrow> FGdmaBdlDesc) \<Rightarrow> (uintptr \<Rightarrow> FGdmaBdlDesc)" where
  "set_descs cfg first n mem =
     fold (\<lambda>loop mem. snd (FGdmaBDLSetDesc first (bdl_desc_config cfg (pre_desc_trans_len cfg n) loop) mem)) [0..<unat n] mem"

text \<open>The channel configuration for a request; \<open>Inl\<close> when the pool has no memory left.\<close>

definition make_chan_config ::
  "'m os_env \<Rightarrow> u32 \<Rightarrow> FFreeRTOSGdmaChanCfg \<Rightarrow> 'm gdma_world \<Rightarrow> (FError + FGdmaChanConfig) \<times> 'm gdma_world" where
  "make_chan_config env channel_id cfg w =
    (let cc = FGDMA_DEFAULT_CHAN_CONFIG in
     if os_trans_mode cfg = FFREERTOS_GDMA_OPER_DIRECT
     then (Inr (cc\<lparr>trans_mode := FGDMA_OPER_DIRECT, src_addr := os_src_addr cfg, dst_addr := os_dst_addr cfg,
                   trans_length := os_trans_length cfg\<rparr>), w)
     else if os_trans_mode cfg = FFREERTOS_GDMA_OPER_BDL
     then let (first, m) = mem_alloc env (memp (os w)) (0x20 * valid_desc_num cc) (ucast FGDMA_BDL_DESC_ALIGMENT);
              w = w\<lparr>os := (os w)\<lparr>memp := m\<rparr>\<rparr>
          in if first = 0 then (Inl FFREERTOS_GDMA_ALLOCATE_FAIL, w)
             else let w = w\<lparr>channel_first_desc_addr := (channel_first_desc_addr w)(unat channel_id := first),
                            desc_mem := set_descs cfg first (valid_desc_num cc) (desc_mem w)\<rparr>
                  in (Inr (cc\<lparr>trans_mode := FGDMA_OPER_BDL, first_desc_addr := first\<rparr>), w)
     else (Inr cc, w))"

text \<open>The part of \<open>FFreeRTOSGdmaChanConfigure\<close> between taking and giving the semaphore.\<close>

definition configure_locked ::
  "'m os_env \<Rightarrow> u32 \<Rightarrow> FFreeRTOSGdmaChanCfg \<Rightarrow> 'm gdma_world \<Rightarrow> (FError \<times> 'm gdma_world) option" where
  "configure_locked env channel_id cfg w =
    (case make_chan_config env channel_id cfg w of
       (Inl err, w) \<Rightarrow> Some (err, w)
     | (Inr cc, w) \<Rightarrow> do {
         (err, g, b) \<leftarrow> FGdmaChanConfigure (ctrl (os w)) channel_id cc (desc_mem w) (obus w);
         let w = set_ctrl g (w\<lparr>obus := b\<rparr>);
         if err \<noteq> FGDMA_SUCCESS then Some (err, w)
         else do {
           w \<leftarrow> (if caps (config (ctrl (os w))) AND FGDMA_IRQ2_MASK \<noteq> 0 then FGdmaSetupPrivateInterrupt channel_id w
                 else Some w);
           g \<leftarrow> FGdmaChanRegisterEvtHandler (ctrl (os w)) channel_id FGDMA_CHAN_EVT_TRANS_END (transfer_end_addr env) 0;
           Some (err, set_ctrl g w)
         }
       })"

definition FFreeRTOSGdmaChanConfigure ::
  "'m os_env \<Rightarrow> u32 \<Rightarrow> FFreeRTOSGdmaChanCfg \<Rightarrow> 'm gdma_world \<Rightarrow> (FError \<times> 'm gdma_world) option" where
  "FFreeRTOSGdmaChanConfigure env channel_id cfg w = do {
     FASSERT (unat channel_id < FGDMA_NUM_OF_CHAN);
     (err, w) \<leftarrow> FGdmaOsTakeSema env w;
     if err \<noteq> FFREERTOS_GDMA_OK then Some (err, w)
     else do {
       (err, w) \<leftarrow> configure_locked env channel_id cfg w;
       w \<leftarrow> FGdmaOsGiveSema env w;
       Some (err, w)
     }
   }"

definition FFreeRTOSGdmaChanStart :: "'m os_env \<Rightarrow> u32 \<Rightarrow> 'm gdma_world \<Rightarrow> 'm gdma_world option" where
  "FFreeRTOSGdmaChanStart env channel_id w = do {
     FASSERT (unat channel_id < FGDMA_NUM_OF_CHAN);
     (err, w) \<leftarrow> FGdmaOsTakeSema env w;
     w \<leftarrow> (if err \<noteq> FFREERTOS_GDMA_OK then Some w
           else do { b \<leftarrow> FGdmaChanStartTrans (ctrl (os w)) channel_id (obus w); Some (w\<lparr>obus := b\<rparr>) });
     FGdmaOsGiveSema env w
   }"

definition FFreeRTOSGdmaChanStop :: "'m os_env \<Rightarrow> u32 \<Rightarrow> 'm gdma_world \<Rightarrow> (FError \<times> 'm gdma_world) option" where
  "FFreeRTOSGdmaChanStop env channel_id w = do {
     FASSERT (unat channel_id < FGDMA_NUM_OF_CHAN);
     (err, w) \<leftarrow> FGdmaOsTakeSema env w;
     (err, w) \<leftarrow> (if err \<noteq> FFREERTOS_GDMA_OK then Some (err, w)
           else do { (err, b) \<leftarrow> FGdmaChanAbort (ctrl (os w)) channel_id (obus w); Some (err, w\<lparr>obus := b\<rparr>) });
     w \<leftarrow> FGdmaOsGiveSema env w;
     Some (err, w)
   }"

definition FFreeRTOSGdmaChanDeconfigure :: "'m os_env \<Rightarrow> u32 \<Rightarrow> 'm gdma_world \<Rightarrow> (FError \<times> 'm gdma_world) option" where
  "FFreeRTOSGdmaChanDeconfigure env channel_id w = do {
     FASSERT (unat channel_id < FGDMA_NUM_OF_CHAN);
     (err, w) \<leftarrow> FGdmaOsTakeSema env w;
     (err, w) \<leftarrow> (if err \<noteq> FFREERTOS_GDMA_OK then Some (err, w)
           else do {
             let k = unat channel_id;
             let w = (if channel_first_desc_addr w k \<noteq> 0
                      then w\<lparr>os := (os w)\<lparr>memp := mem_free env (memp (os w)) (channel_first_desc_addr w k)\<rparr>,
                             channel_first_desc_addr := (channel_first_desc_addr w)(k := 0)\<rparr>
                      else w);
             (err, g, b) \<leftarrow> FGdmaChanDeconfigure (ctrl (os w)) channel_id (obus w);
             Some (err, set_ctrl g (w\<lparr>obus := b\<rparr>))
           });
     w \<leftarrow> FGdmaOsGiveSema env w;
     Some (err, w)
   }"

end
