(* ===== verification/GdmaOsProps.thy ===== *)
theory GdmaOsProps
  imports GdmaOs
begin

text \<open>
  Transfers through a list of descriptors: when the length divides evenly, the four descriptors
  cover exactly the requested range; when a quarter of it is not a multiple of the burst size,
  the failure to write the descriptors is ignored and the channel is armed with whatever the
  memory held before.
\<close>

section \<open>Lengths and addresses\<close>

lemma pre_len:
  assumes "unat (os_trans_length cfg) < 2 ^ 31"
  shows "unat (pre_desc_trans_len cfg 4) = unat (os_trans_length cfg) div 4"
proof -
  have "unat (os_trans_length cfg div 4) = unat (os_trans_length cfg) div 4" by (simp add: unat_div)
  then show ?thesis using assms by (simp add: pre_desc_trans_len_def unat_ucast_small)
qed

text \<open>A non-negative signed 32-bit number keeps its value when it is widened.\<close>

lemma unat_scast_nonneg:
  fixes x :: u32
  assumes "unat x < 2 ^ 31"
  shows "unat (scast x :: u64) = unat x"
proof -
  have "\<not> bit (unat x) 31" using assms by (simp only: bit_iff_odd) simp
  then have "\<not> bit x 31" by (simp add: bit_unsigned_iff)
  moreover have "int (unat x) < int (2 ^ 31)" using assms by (simp only: of_nat_less_iff)
  then have "uint x < 2 ^ 31" by (simp only: uint_nat) simp
  ultimately have "sint x = uint x"
    by (simp add: sint_uint signed_take_bit_eq_if_positive bit_unsigned_iff take_bit_int_eq_self)
  then have "scast x = (ucast x :: u64)" by (simp only: scast_eq ucast_eq)
  then show ?thesis by (simp add: unat_ucast_up)
qed

lemma unat_desc_offset:
  assumes "unat (os_trans_length cfg) < 2 ^ 31" "i < 4"
  shows "unat (scast (of_nat i * pre_desc_trans_len cfg 4 :: u32) :: u64) = i * (unat (os_trans_length cfg) div 4)"
proof -
  have i: "unat (of_nat i :: u32) = i" using assms(2) by (simp add: unat_of_nat_32)
  have "i * (unat (os_trans_length cfg) div 4) \<le> 3 * (unat (os_trans_length cfg) div 4)" using assms(2) by (intro mult_right_mono) auto
  also have "\<dots> < 2 ^ 31" using assms(1) by simp
  finally have b: "i * (unat (os_trans_length cfg) div 4) < 2 ^ 31" .
  then have "unat (of_nat i * pre_desc_trans_len cfg 4 :: u32) = i * (unat (os_trans_length cfg) div 4)"
    using i pre_len [OF assms(1)] by (simp add: unat_word_ariths(2))
  then show ?thesis using b by (simp add: unat_scast_nonneg)
qed

lemma mod_16_iff: "(x :: u64) mod 16 = 0 \<longleftrightarrow> unat x mod 16 = 0"
  by (simp add: word_unat_eq_iff unat_mod)

lemma burst_16 [simp]: "ucast (FGDMA_GET_BURST_BYTE 4) = (16 :: u64)"
  by (simp add: FGDMA_GET_BURST_BYTE_def)

section \<open>The descriptors\<close>

text \<open>The source and destination of a descriptor, from their halves.\<close>

definition desc_src :: "FGdmaBdlDesc \<Rightarrow> uintptr" where
  "desc_src d = push_bit 32 (ucast (src_addr_h d)) OR ucast (src_addr_l d)"

definition desc_dst :: "FGdmaBdlDesc \<Rightarrow> uintptr" where
  "desc_dst d = push_bit 32 (ucast (dst_addr_h d)) OR ucast (dst_addr_l d)"

text \<open>A transfer the list can carry: each of four equal parts is a multiple of the burst size.\<close>

definition bdl_ok :: "FFreeRTOSGdmaChanCfg \<Rightarrow> bool" where
  "bdl_ok cfg \<longleftrightarrow>
     0 < unat (os_trans_length cfg) \<and> unat (os_trans_length cfg) < 2 ^ 31 \<and> unat (os_trans_length cfg) mod 64 = 0 \<and>
     os_src_addr cfg \<noteq> 0 \<and> unat (os_src_addr cfg) mod 16 = 0 \<and> unat (os_src_addr cfg) + unat (os_trans_length cfg) < 2 ^ 64 \<and>
     os_dst_addr cfg \<noteq> 0 \<and> unat (os_dst_addr cfg) mod 16 = 0 \<and> unat (os_dst_addr cfg) + unat (os_trans_length cfg) < 2 ^ 64"

lemma fold_updates:
  assumes "\<And>x m. x \<in> set xs \<Longrightarrow> f x m = m(p x := d x)" "inj_on p (set xs)" "distinct xs" "x \<in> set xs"
  shows "fold f xs m (p x) = d x"
proof -
  have out: "fold f ys m q = m q" if "set ys \<subseteq> set xs" "q \<notin> p ` set ys" for ys m q
    using that by (induction ys arbitrary: m) (auto simp: assms(1))
  obtain us vs where xs: "xs = us @ x # vs" using assms(4) by (meson split_list)
  have "p x \<notin> p ` set vs" using assms(2,3) xs by (auto dest: inj_onD)
  moreover have "set vs \<subseteq> set xs" using xs by auto
  ultimately show ?thesis using out [of vs "p x"] assms(1,4) xs by simp
qed

lemma desc_addr_inj: "inj_on (\<lambda>i. desc_addr first (of_nat i)) {0..<4}"
proof (rule inj_onI)
  fix i j :: nat assume ij: "i \<in> {0..<4}" "j \<in> {0..<4}" "desc_addr first (of_nat i) = desc_addr first (of_nat j)"
  have "unat (of_nat i * 0x20 :: u64) = i * 0x20" if "i < 4" for i
    using that by (simp add: unat_word_ariths(2) unat_of_nat_64)
  moreover have "of_nat i * 0x20 = (of_nat j * 0x20 :: u64)" using ij(3) by (simp add: desc_addr_def)
  ultimately show "i = j" using ij(1,2) by (metis atLeastLessThan_iff mult_right_cancel zero_neq_numeral)
qed

text \<open>The descriptor \<open>i\<close> of a transfer that the list can carry.\<close>

definition part_of :: "FFreeRTOSGdmaChanCfg \<Rightarrow> nat \<Rightarrow> FGdmaBdlDesc \<Rightarrow> bool" where
  "part_of cfg i d \<longleftrightarrow>
     unat (desc_src d) = unat (os_src_addr cfg) + i * (unat (os_trans_length cfg) div 4) \<and>
     unat (desc_dst d) = unat (os_dst_addr cfg) + i * (unat (os_trans_length cfg) div 4) \<and>
     unat (total_bytes d) = unat (os_trans_length cfg) div 4"

lemma part_addr:
  assumes "unat (os_trans_length cfg) < 2 ^ 31" "unat (os_trans_length cfg) mod 64 = 0" "i < 4"
    and "(a :: uintptr) \<noteq> 0" "unat a mod 16 = 0" "unat a + unat (os_trans_length cfg) < 2 ^ 64"
  defines "x \<equiv> a + scast (of_nat i * pre_desc_trans_len cfg 4 :: u32)"
  shows "unat x = unat a + i * (unat (os_trans_length cfg) div 4)" "x \<noteq> 0" "x mod 16 = 0"
proof -
  obtain q where q: "unat (os_trans_length cfg) = 64 * q" using assms(2) by auto
  have "i * (unat (os_trans_length cfg) div 4) \<le> 4 * (unat (os_trans_length cfg) div 4)"
    using assms(3) by (intro mult_right_mono) auto
  also have "\<dots> \<le> unat (os_trans_length cfg)" by simp
  finally show u: "unat x = unat a + i * (unat (os_trans_length cfg) div 4)"
    using assms(6) unat_desc_offset [OF assms(1,3)] by (simp add: x_def unat_word_ariths(1))
  have "unat a \<noteq> 0" using assms(4) by (simp add: unat_eq_0)
  then have "unat x \<noteq> 0" using u by simp
  then show "x \<noteq> 0" by (metis unat_0)
  have "unat x = unat a + 16 * (i * q)" using u q by simp
  then show "x mod 16 = 0" using assms(5) by (simp only: mod_16_iff mod_mult_self2)
qed

lemma set_desc_part:
  assumes "bdl_ok cfg" "i < 4"
  shows "\<exists>d. part_of cfg i d \<and> (\<forall>mem. FGdmaBDLSetDesc first (bdl_desc_config cfg (pre_desc_trans_len cfg 4) i) mem
     = (FGDMA_SUCCESS, mem(desc_addr first (of_nat i) := d)))"
proof -
  let ?c = "bdl_desc_config cfg (pre_desc_trans_len cfg 4) i"
  let ?L = "unat (os_trans_length cfg)"
  note ok = assms(1) [unfolded bdl_ok_def]
  note S = part_addr [of cfg i "os_src_addr cfg"] and D = part_addr [of cfg i "os_dst_addr cfg"]
  have s: "unat (d_src_addr ?c) = unat (os_src_addr cfg) + i * (?L div 4)" "d_src_addr ?c \<noteq> 0" "d_src_addr ?c mod 16 = 0"
    using S ok assms(2) by (simp_all add: bdl_desc_config_def)
  have d: "unat (d_dst_addr ?c) = unat (os_dst_addr cfg) + i * (?L div 4)" "d_dst_addr ?c \<noteq> 0" "d_dst_addr ?c mod 16 = 0"
    using D ok assms(2) by (simp_all add: bdl_desc_config_def)
  obtain q where q: "?L = 64 * q" "q > 0" using ok by auto
  have l: "unat (d_trans_length ?c) = 16 * q"
    using pre_len [of cfg] ok q by (simp add: bdl_desc_config_def unat_scast_nonneg)
  then have l0: "d_trans_length ?c \<noteq> 0" "d_trans_length ?c mod 16 = 0"
    using q by (auto simp: mod_16_iff)
  have t: "unat (ucast (d_trans_length ?c) :: u32) = ?L div 4"
    using l q ok by (subst unat_ucast_small) simp_all
  have sz: "d_rd_size ?c = 4" "d_wr_size ?c = 4" "current_desc_num ?c = of_nat i"
    by (simp_all add: bdl_desc_config_def FGDMA_DEFAULT_DESC_CONFIG_def)
  show ?thesis
    unfolding FGdmaBDLSetDesc_def Let_def sz burst_16
    using s d l0 t by (intro exI conjI allI) (auto simp: part_of_def desc_src_def desc_dst_def UPPER_LOWER_join)
qed

lemma set_descs_parts:
  assumes "bdl_ok cfg" "i < 4"
  shows "part_of cfg i (set_descs cfg first 4 mem (desc_addr first (of_nat i)))"
proof -
  obtain d where d: "\<And>i mem. i < 4 \<Longrightarrow> part_of cfg i (d i) \<and>
      FGdmaBDLSetDesc first (bdl_desc_config cfg (pre_desc_trans_len cfg 4) i) mem = (FGDMA_SUCCESS, mem(desc_addr first (of_nat i) := d i))"
    using set_desc_part [OF assms(1), where first = first] by (metis (no_types, lifting))
  have "set_descs cfg first 4 mem (desc_addr first (of_nat i)) = d i"
    unfolding set_descs_def
    by (rule fold_updates [where p = "\<lambda>i. desc_addr first (of_nat i)"]) (use d assms(2) desc_addr_inj in \<open>simp_all add: fun_upd_def\<close>)
  then show ?thesis using d assms(2) by simp
qed

section \<open>Configuring a channel with a list\<close>

text \<open>The list has the address \<open>first\<close> and the number of its last descriptor is 3.\<close>

definition list_written :: "uintptr \<Rightarrow> u32 \<Rightarrow> uintptr \<Rightarrow> 'c bus_event list \<Rightarrow> bool" where
  "list_written base ch first es \<longleftrightarrow>
     last_wr (creg base ch 0x38) es = Some (UPPER_32_BITS first) \<and>
     last_wr (creg base ch 0x3C) es = Some (LOWER_32_BITS first) \<and>
     last_wr (creg base ch 0x30) es = Some 3"

lemma list_written_append:
  "list_written base ch first ys \<Longrightarrow> list_written base ch first (xs @ ys)"
  by (simp add: list_written_def last_wr_append)

lemma list_written_calls:
  "list_written base ch first xs \<Longrightarrow> list_written base ch first (xs @ map Call cs)"
proof -
  have "last_wr a (map Call cs) = None" for a by (induction cs) (simp_all add: last_wr_Cons)
  then show "list_written base ch first xs \<Longrightarrow> list_written base ch first (xs @ map Call cs)"
    by (simp add: list_written_def last_wr_append)
qed

lemma lvi_4: "FGDMA_CHX_LVI_SET 4 = 3"
proof -
  have "GENMASK 31 0 = NOT 0" by (rule bit_word_eqI) (simp add: bit_GENMASK bit_not_iff)
  then show ?thesis by (simp add: FGDMA_CHX_LVI_SET_def SET_REG32_BITS_def)
qed

lemma configure_list:
  assumes "gdma_ready g \<noteq> 0" "unat ch < 16" "trans_mode cfg = FGDMA_OPER_BDL" "valid_desc_num cfg = 4"
    and "first_desc_addr cfg \<noteq> 0" "first_desc_addr cfg mod 128 = 0"
    and "\<And>i. i < 4 \<Longrightarrow> \<not> desc_unset mem (first_desc_addr cfg) i"
  shows "\<exists>b' es. FGdmaChanConfigure g ch cfg mem b = Some (FGDMA_SUCCESS, set_ready ch g, b') \<and>
    trace b' = trace b @ es \<and> list_written (base_addr (config g)) ch (first_desc_addr cfg) es"
proof -
  let ?base = "base_addr (config g)"
  obtain b1 es1 where b1: "restart_chan g ch b = Some b1" "trace b1 = trace b @ es1"
    using restart_ex [OF assms(2), of g b] by blast
  obtain b2 where r: "FGdmaChanBDLSetBasic g ch cfg b1 = (0, b2)"
    by (simp add: FGdmaChanBDLSetBasic_def case_prod_beta Let_def)
  obtain es2 where es2: "trace b2 = trace b1 @ es2"
    using bdl_basic_local [OF assms(2), of g b1 cfg] r by (auto simp: extends_def)
  have n: "\<not> (\<exists>loop\<in>set [0..<unat (valid_desc_num cfg)]. desc_unset mem (first_desc_addr cfg) loop)"
    using assms(4,7) by auto
  obtain b3 es3 where b3: "FGdmaChanBDLSetTrans g ch cfg mem b2 = Some (FGDMA_SUCCESS, set_ready ch g, b3)"
      "trace b3 = trace b2 @ es3" "list_written ?base ch (first_desc_addr cfg) es3"
    using assms(2,4,5) creg_neq [OF assms(2), where base = ?base]
    unfolding FGdmaChanBDLSetTrans_def if_not_P [OF n]
    by (simp add: reg_defs FtOut32_def FGDMA_NUM_OF_CHAN_def list_written_def last_wr_Cons lvi_4)
  have "FGdmaChanConfigure g ch cfg mem b = Some (FGDMA_SUCCESS, set_ready ch g, b3)"
    using assms(1,2,3,6) b1(1) r b3(1)
    by (simp add: FGdmaChanConfigure_def FGdmaChanBDLConfiguration_def const_defs)
  moreover have "trace b3 = trace b @ (es1 @ es2) @ es3" using b1 es2 b3(2) by simp
  ultimately show ?thesis using b3(3) list_written_append by blast
qed

text \<open>
  A request with a list that gets as far as the driver: the semaphore is taken and the pool gives
  memory aligned as asked for. The pool is not part of this code; it is \<open>mem_alloc\<close> of the
  environment.
\<close>

definition list_request :: "'m os_env \<Rightarrow> u32 \<Rightarrow> FFreeRTOSGdmaChanCfg \<Rightarrow> 'm gdma_world \<Rightarrow> uintptr \<Rightarrow> bool" where
  "list_request env ch cfg w first \<longleftrightarrow>
     locker (os w) \<and> sem_take env (trace (obus w)) \<and> gdma_ready (ctrl (os w)) \<noteq> 0 \<and> unat ch < 16 \<and>
     os_trans_mode cfg = FFREERTOS_GDMA_OPER_BDL \<and> fst (mem_alloc env (memp (os w)) 128 128) = first \<and>
     first \<noteq> 0 \<and> first mod 128 = 0"

lemma make_list_config:
  assumes "list_request env ch cfg w first"
  shows "\<exists>w'. make_chan_config env ch cfg (os_call c w) =
      (Inr (FGDMA_DEFAULT_CHAN_CONFIG\<lparr>trans_mode := FGDMA_OPER_BDL, first_desc_addr := first\<rparr>), w') \<and>
    desc_mem w' = set_descs cfg first 4 (desc_mem w) \<and> channel_first_desc_addr w' (unat ch) = first \<and>
    ctrl (os w') = ctrl (os w) \<and> locker (os w') \<and> trace (obus w') = trace (obus w) @ [Call c]"
proof -
  obtain m where "mem_alloc env (memp (os w)) 128 128 = (first, m)"
    using assms by (metis list_request_def prod.collapse)
  then show ?thesis
    using assms by (simp add: list_request_def make_chan_config_def os_call_def FGDMA_DEFAULT_CHAN_CONFIG_def const_defs)
qed

lemma private_interrupt_calls:
  assumes "gdma_ready (ctrl (os w)) \<noteq> 0" "unat ch < 16"
  shows "\<exists>w' cs. (if P then FGdmaSetupPrivateInterrupt ch w else Some w) = Some w' \<and>
    w' = w\<lparr>obus := (obus w)\<lparr>trace := trace (obus w) @ map Call cs\<rparr>\<rparr>"
proof (cases P)
  case True
  let ?n = "irq_num (config (ctrl (os w))) (unat ch)"
  have "FGdmaSetupPrivateInterrupt ch w = Some (w\<lparr>obus := (obus w)\<lparr>trace := trace (obus w) @ map Call
      [InterruptSetTargetCpus ?n 0, InterruptSetPriority ?n (irq_prority (config (ctrl (os w)))),
       InterruptInstallPrivate ?n ch, InterruptUmask ?n]\<rparr>\<rparr>)"
    using assms by (simp add: FGdmaSetupPrivateInterrupt_def os_call_def emit_def FGDMA_NUM_OF_CHAN_def Let_def)
  then show ?thesis using True by (intro exI conjI) (simp_all only: if_True)
next
  case False
  then show ?thesis by (intro exI [of _ w] exI [of _ "[]"]) simp
qed

lemma chan_ready_set [simp]: "unat ch < 16 \<Longrightarrow> chan_ready (set_ready ch g) ch"
  by (simp only: chan_ready_def set_ready_def AND_BIT_eq_0_iff) (simp add: bit_or_iff AND_BIT_eq_0_iff del: word_bw_comms)

lemma register_handler:
  assumes "unat ch < 16"
  shows "\<exists>g'. FGdmaChanRegisterEvtHandler g ch FGDMA_CHAN_EVT_TRANS_END h arg = Some g' \<and> chan_ready_flag g' = chan_ready_flag g"
  using assms by (simp add: FGdmaChanRegisterEvtHandler_def const_defs Let_def)

lemma os_configure_list:
  assumes req: "list_request env ch cfg w first"
    and set: "\<And>i. i < 4 \<Longrightarrow> \<not> desc_unset (set_descs cfg first 4 (desc_mem w)) first i"
  shows "\<exists>w' es. FFreeRTOSGdmaChanConfigure env ch cfg w = Some (FFREERTOS_GDMA_OK, w') \<and>
    chan_ready (ctrl (os w')) ch \<and> desc_mem w' = set_descs cfg first 4 (desc_mem w) \<and>
    trace (obus w') = trace (obus w) @ es \<and> list_written (base_addr (config (ctrl (os w)))) ch first es"
proof -
  note r = req [unfolded list_request_def]
  let ?base = "base_addr (config (ctrl (os w)))"
  let ?cc = "FGDMA_DEFAULT_CHAN_CONFIG\<lparr>trans_mode := FGDMA_OPER_BDL, first_desc_addr := first\<rparr>"
  obtain w2 where w2: "make_chan_config env ch cfg (os_call (SemTake True) w) = (Inr ?cc, w2)"
      "desc_mem w2 = set_descs cfg first 4 (desc_mem w)" "ctrl (os w2) = ctrl (os w)" "locker (os w2)"
      "trace (obus w2) = trace (obus w) @ [Call (SemTake True)]"
    using make_list_config [OF req] by blast
  obtain b3 es3 where b3: "FGdmaChanConfigure (ctrl (os w2)) ch ?cc (desc_mem w2) (obus w2) = Some (FGDMA_SUCCESS, set_ready ch (ctrl (os w)), b3)"
      "trace b3 = trace (obus w2) @ es3" "list_written ?base ch first es3"
    using configure_list [of "ctrl (os w2)" ch ?cc "desc_mem w2" "obus w2"] r set w2(2,3)
    by (auto simp: FGDMA_DEFAULT_CHAN_CONFIG_def)
  define w3 where "w3 = set_ctrl (set_ready ch (ctrl (os w))) (w2\<lparr>obus := b3\<rparr>)"
  have f3: "ctrl (os w3) = set_ready ch (ctrl (os w))" "gdma_ready (ctrl (os w3)) \<noteq> 0" "desc_mem w3 = desc_mem w2" "locker (os w3)" "obus w3 = b3"
    using r w2(4) by (simp_all add: w3_def set_ctrl_def set_ready_def)
  obtain w3' cs where cs: "(if caps (config (ctrl (os w3))) AND FGDMA_IRQ2_MASK \<noteq> 0 then FGdmaSetupPrivateInterrupt ch w3 else Some w3) = Some w3'"
      "w3' = w3\<lparr>obus := (obus w3)\<lparr>trace := trace (obus w3) @ map Call cs\<rparr>\<rparr>"
    using private_interrupt_calls [OF f3(2)] r by metis
  obtain g' where g': "FGdmaChanRegisterEvtHandler (ctrl (os w3')) ch FGDMA_CHAN_EVT_TRANS_END (transfer_end_addr env) 0 = Some g'"
      "chan_ready_flag g' = chan_ready_flag (ctrl (os w3'))"
    using register_handler [of ch "ctrl (os w3')"] r by blast
  let ?w4 = "set_ctrl g' w3'"
  have w4: "configure_locked env ch cfg (os_call (SemTake True) w) = Some (FGDMA_SUCCESS, ?w4)"
    unfolding configure_locked_def w2(1) using b3(1) cs(1) g'(1) by (simp add: w3_def [symmetric] Let_def split: if_splits)
  have f4: "chan_ready (ctrl (os ?w4)) ch" "desc_mem ?w4 = desc_mem w2" "locker (os ?w4)" "trace (obus ?w4) = trace b3 @ map Call cs"
    using g'(2) cs(2) f3 chan_ready_set [of ch "ctrl (os w)"] r by (simp_all add: set_ctrl_def chan_ready_def)
  let ?g = "SemGive (sem_give env (trace (obus ?w4)))"
  have "FFreeRTOSGdmaChanConfigure env ch cfg w = Some (FFREERTOS_GDMA_OK, os_call ?g ?w4)"
    using r w4 f4(3) by (simp add: FFreeRTOSGdmaChanConfigure_def FGdmaOsTakeSema_def FGdmaOsGiveSema_def FGDMA_NUM_OF_CHAN_def
        FGDMA_SUCCESS_def FFREERTOS_GDMA_OK_def Let_def)
  moreover have "trace (obus (os_call ?g ?w4)) = trace (obus w) @ (Call (SemTake True) # es3) @ map Call (cs @ [?g])"
    using f4(4) b3(2) w2(5) by (simp add: os_call_def)
  moreover have "list_written ?base ch first ((Call (SemTake True) # es3) @ map Call (cs @ [?g]))"
    using list_written_append [OF b3(3), of "[Call (SemTake True)]"] by (intro list_written_calls) simp
  ultimately show ?thesis using f4(1,2) w2(2)
    by (intro exI [of _ "os_call ?g ?w4"] exI conjI) (auto simp: os_call_def)
qed

section \<open>Descriptors that are not written\<close>

text \<open>A quarter of the length is not a multiple of the burst size.\<close>

lemma set_desc_refused:
  assumes "unat (os_trans_length cfg) < 2 ^ 31" "unat (os_trans_length cfg) div 4 mod 16 \<noteq> 0"
  shows "snd (FGdmaBDLSetDesc first (bdl_desc_config cfg (pre_desc_trans_len cfg 4) i) mem) = mem"
proof -
  let ?c = "bdl_desc_config cfg (pre_desc_trans_len cfg 4) i"
  have u: "unat (pre_desc_trans_len cfg 4) = unat (os_trans_length cfg) div 4" by (rule pre_len [OF assms(1)])
  moreover have "unat (os_trans_length cfg) div 4 < 2 ^ 31" using assms(1) by simp
  ultimately have "unat (d_trans_length ?c) = unat (os_trans_length cfg) div 4"
    by (simp add: bdl_desc_config_def unat_scast_nonneg)
  then have "d_trans_length ?c mod 16 \<noteq> 0" using assms(2) by (simp add: mod_16_iff)
  moreover have "d_rd_size ?c = 4" "d_wr_size ?c = 4"
    by (simp_all add: bdl_desc_config_def FGDMA_DEFAULT_DESC_CONFIG_def)
  ultimately show ?thesis by (simp add: FGdmaBDLSetDesc_def Let_def)
qed

lemma set_descs_refused:
  assumes "unat (os_trans_length cfg) < 2 ^ 31" "unat (os_trans_length cfg) div 4 mod 16 \<noteq> 0"
  shows "set_descs cfg first 4 mem = mem"
proof -
  have "fold (\<lambda>i mem. snd (FGdmaBDLSetDesc first (bdl_desc_config cfg (pre_desc_trans_len cfg 4) i) mem)) xs mem = mem" for xs
    by (induction xs) (simp_all add: set_desc_refused [OF assms])
  then show ?thesis by (simp add: set_descs_def)
qed

lemma desc_unset_iff: "desc_unset mem first i \<longleftrightarrow> desc_src (mem (desc_addr first (of_nat i))) = 0"
proof -
  have "x = 0 \<and> y = 0" if "push_bit 32 (ucast x) OR ucast y = (0 :: u64)" for x y :: u32
  proof -
    have b: "bit (push_bit 32 (ucast x) OR ucast y :: u64) k = False" for k using that by simp
    have "\<not> bit x k" "\<not> bit y k" if "k < 32" for k
      using b [of "k + 32"] b [of k] that by (auto simp: bit_or_iff bit_push_bit_iff bit_ucast_iff)
    then show ?thesis by (auto intro!: bit_word_eqI)
  qed
  then show ?thesis by (auto simp: desc_unset_def desc_src_def Let_def)
qed

section \<open>Evaluation on a concrete instance\<close>

text \<open>A pool with its free memory at \<open>0x1000\<close>; descriptors left over from an earlier transfer.\<close>

definition demo_env :: "unit os_env" where
  "demo_env = \<lparr>sem_take = (\<lambda>_. True), sem_give = (\<lambda>_. True), create_mutex = True, cpu_id = 0,
     mem_init = (\<lambda>m. (FT_SUCCESS, m)), mem_deinit = (\<lambda>m. m), mem_alloc = (\<lambda>m _ _. (0x1000, m)),
     mem_free = (\<lambda>m _. m), transfer_end_addr = 0x2000\<rparr>"

definition stale_desc :: FGdmaBdlDesc where
  "stale_desc = \<lparr>src_addr_l = 0xdead0000, src_addr_h = 0, dst_addr_l = 0xbeef0000, dst_addr_h = 0,
     src_tc = 0, dst_tc = 0, total_bytes = 0x10000, desc_ioc = 0\<rparr>"

definition demo_world :: "unit gdma_world" where
  "demo_world = \<lparr>os = \<lparr>ctrl = demo_gdma 3, locker = True, memp = (), os_evt_handler = (\<lambda>_ _. 0), os_evt_handler_arg = (\<lambda>_ _. 0)\<rparr>,
     channel_first_desc_addr = (\<lambda>_. 0), desc_mem = (\<lambda>_. stale_desc), obus = \<lparr>dev = mem_dev, trace = []\<rparr>\<rparr>"

definition demo_os_cfg :: "u64 \<Rightarrow> FFreeRTOSGdmaChanCfg" where
  "demo_os_cfg n = \<lparr>os_trans_mode = FFREERTOS_GDMA_OPER_BDL, os_src_addr = 0x80000000, os_dst_addr = 0x90000000, os_trans_length = n\<rparr>"

lemma demo_request: "list_request demo_env 5 (demo_os_cfg n) demo_world 0x1000"
  by (simp add: list_request_def demo_env_def demo_world_def demo_os_cfg_def)

section \<open>Properties\<close>



text \<open>
  A transfer whose quarter is not a multiple of the burst size is accepted and runs old
  descriptors. Every \<open>FGdmaBDLSetDesc\<close> is refused, but its result is not looked at and the memory
  of the pool is not cleared: when the four descriptors found there have a source, the
  configuration reports success, the channel is ready and points to them, and they are unchanged.
\<close>

theorem bdl_stale:
  assumes "list_request env ch cfg w first"
    and "unat (os_trans_length cfg) < 2 ^ 31" "unat (os_trans_length cfg) div 4 mod 16 \<noteq> 0"
    and "\<And>i. i < 4 \<Longrightarrow> desc_src (desc_mem w (desc_addr first (of_nat i))) \<noteq> 0"
  shows "\<exists>w' es. FFreeRTOSGdmaChanConfigure env ch cfg w = Some (FFREERTOS_GDMA_OK, w') \<and>
    chan_ready (ctrl (os w')) ch \<and> desc_mem w' = desc_mem w \<and>
    trace (obus w') = trace (obus w) @ es \<and> list_written (base_addr (config (ctrl (os w)))) ch first es"
proof -
  have s: "set_descs cfg first 4 (desc_mem w) = desc_mem w" by (rule set_descs_refused [OF assms(2,3)])
  have "\<not> desc_unset (set_descs cfg first 4 (desc_mem w)) first i" if "i < 4" for i
    unfolding s desc_unset_iff using assms(4) that by blast
  from os_configure_list [OF assms(1) this] s show ?thesis by auto
qed

theorem bdl_stale_witness:
  "\<exists>w'. FFreeRTOSGdmaChanConfigure demo_env 5 (demo_os_cfg 0x20) demo_world = Some (FFREERTOS_GDMA_OK, w') \<and>
    chan_ready (ctrl (os w')) 5 \<and> unat (desc_src (desc_mem w' 0x1000)) = 0xdead0000"
proof -
  have n: "desc_src stale_desc = 0xdead0000" by (simp add: desc_src_def stale_desc_def)
  have "unat (os_trans_length (demo_os_cfg 0x20)) < 2 ^ 31" "unat (os_trans_length (demo_os_cfg 0x20)) div 4 mod 16 \<noteq> 0"
    by (simp_all add: demo_os_cfg_def)
  from bdl_stale [OF demo_request this] obtain w' where
    "FFreeRTOSGdmaChanConfigure demo_env 5 (demo_os_cfg 0x20) demo_world = Some (FFREERTOS_GDMA_OK, w')"
    "chan_ready (ctrl (os w')) 5" "desc_mem w' = desc_mem demo_world"
    using n by (auto simp: demo_world_def)
  then show ?thesis using n by (simp add: demo_world_def)
qed

end
