(* ===== verification/Gdb.thy ===== *)
theory Gdb
  imports SdkPrelude
begin

text \<open>
  The packet layer of the debugger stub, \<^verbatim>\<open>standalone/arch/armv8/common/gdb\<close>:
  \<^verbatim>\<open>fgdb_packet.c\<close> and the inline functions of \<^verbatim>\<open>fgdb_def.h\<close>.

  The state \<open>gdb_st\<close> is the structure \<open>FGdb\<close> extended by what lies outside it: the debug registers,
  the characters still to come from the debug port, what the port has been asked to do, the memory
  of the target and the build option that selects the C library. The port is polled until it has
  a character; a call that needs a character when no more will come does not return, \<open>None\<close>. An
  access outside the receive or transmit buffer is \<open>None\<close> as well. The debug port delivers bytes;
  \<open>char\<close> is unsigned on this architecture, and the end-of-packet value of \<open>gdb_rx_char\<close> is \<open>None\<close>.
  Pointers into the receive buffer are indices, and the transmit buffer is the list of what has
  been put in it so far. Target memory and the structure itself are disjoint.
\<close>

section \<open>State\<close>

definition GDB_BUFSZ :: nat where [const_defs]: "GDB_BUFSZ = 4096"
definition ENOSPC :: int where [const_defs]: "ENOSPC = 28"

abbreviation ch :: "char \<Rightarrow> u8" where "ch c \<equiv> of_char c"
abbreviation str :: "string \<Rightarrow> u8 list" where "str s \<equiv> map of_char s"

record FGdbDebugMonitorState =
  dbg_enable_count :: u32
  dbg_flags :: u32
  dbg_bcr :: "nat \<Rightarrow> u64"
  dbg_bvr :: "nat \<Rightarrow> u64"
  dbg_wcr :: "nat \<Rightarrow> u64"
  dbg_wvr :: "nat \<Rightarrow> u64"

record FGdbTrapframe =
  tf_sp :: u64
  tf_lr :: u64
  tf_elr :: u64
  tf_spsr :: u64
  tf_esr :: u64
  tf_far :: u64
  tf_x :: "nat \<Rightarrow> u64"

record FGdb =
  gdb_dbfeatures :: u32
  monitor :: FGdbDebugMonitorState
  dbg_watchpoint_num :: nat
  dbg_breakpoint_num :: nat
  gdb_sendpacket :: bool
  dbbe_active :: bool
  gdb_frame :: FGdbTrapframe
  gdb_listening :: bool
  gdb_ackmode :: bool
  gdb_bindata :: "u8 list"
  gdb_rxbuf :: "u8 list"
  gdb_rxp :: nat
  gdb_rxsz :: nat
  gdb_txbuf :: "u8 list"
  compiled_brk_process :: bool

datatype port_event = Putc u8 | SendPacket "u8 list" | IntrCtrl bool | Term

record dbg_hw =
  mdscr_el1 :: u64
  daif :: u64
  far_el1 :: u64
  esr_el1 :: u64
  id_aa64dfr0_el1 :: u64
  oslar_el1 :: u64
  dbgbvr :: "nat \<Rightarrow> u64"
  dbgbcr :: "nat \<Rightarrow> u64"
  dbgwvr :: "nat \<Rightarrow> u64"
  dbgwcr :: "nat \<Rightarrow> u64"

record gdb_st = FGdb +
  hw :: dbg_hw
  input :: "u8 list"
  port_out :: "port_event list"
  tmem :: "u64 \<Rightarrow> u8"
  use_newlib :: bool

section \<open>Digits\<close>

definition C2N :: "u8 \<Rightarrow> u32" where
  "C2N c = (if c < ch CHR ''A'' then ucast c - ucast (ch CHR ''0'')
            else 10 + (if c < ch CHR ''a'' then ucast c - ucast (ch CHR ''A'') else ucast c - ucast (ch CHR ''a'')))"

definition N2C :: "u8 \<Rightarrow> u8" where
  "N2C n = (if n < 10 then n + ch CHR ''0'' else n + ch CHR ''a'' - 10)"

definition isdigit :: "u8 \<Rightarrow> bool" where
  "isdigit c \<longleftrightarrow> c \<ge> ch CHR ''0'' \<and> c \<le> ch CHR ''9''"

definition isxdigit :: "u8 \<Rightarrow> bool" where
  "isxdigit c \<longleftrightarrow> isdigit c \<or> (c \<ge> ch CHR ''A'' \<and> c \<le> ch CHR ''F'') \<or> (c \<ge> ch CHR ''a'' \<and> c \<le> ch CHR ''f'')"

section \<open>Receiving a packet\<close>

definition gdb_getc :: "gdb_st \<Rightarrow> (u8 \<times> gdb_st) option" where
  "gdb_getc s = (case input s of [] \<Rightarrow> None | c # cs \<Rightarrow> Some (c, s\<lparr>input := cs\<rparr>))"

definition gdb_port_putc :: "u8 \<Rightarrow> gdb_st \<Rightarrow> gdb_st" where
  "gdb_port_putc c s = s\<lparr>port_out := port_out s @ [Putc c]\<rparr>"

definition gdb_nack :: "gdb_st \<Rightarrow> gdb_st" where
  "gdb_nack s = (if gdb_ackmode s then gdb_port_putc (ch CHR ''-'') s else s)"

definition gdb_ack :: "gdb_st \<Rightarrow> gdb_st" where
  "gdb_ack s = (if gdb_ackmode s then gdb_port_putc (ch CHR ''+'') s else s)"

primrec skip_to_start :: "u8 list \<Rightarrow> u8 list option" where
  "skip_to_start [] = None"
| "skip_to_start (c # cs) = (if c \<noteq> ch CHR ''$'' then skip_to_start cs else Some cs)"

text \<open>The loop that fills the buffer; the first argument is the room that is left in it.\<close>

primrec rx_chars :: "nat \<Rightarrow> gdb_st \<Rightarrow> u32 \<Rightarrow> u8 \<Rightarrow> (gdb_st \<times> u32 \<times> u8) option" where
  "rx_chars 0 s cksum c = Some (s, cksum, c)"
| "rx_chars (Suc n) s cksum c = do {
     (c, s) \<leftarrow> gdb_getc s;
     if c = ch CHR ''#'' then Some (s, cksum, c)
     else rx_chars n (s\<lparr>gdb_rxbuf := (gdb_rxbuf s)[gdb_rxsz s := c], gdb_rxsz := gdb_rxsz s + 1\<rparr>) (cksum + ucast c) c
   }"

text \<open>One round of the outer loop: the value to return, or none when the checksum was wrong.\<close>

definition rx_round :: "gdb_st \<Rightarrow> (int option \<times> gdb_st) option" where
  "rx_round s = do {
     cs \<leftarrow> skip_to_start (input s);
     (s, cksum, c) \<leftarrow> rx_chars (GDB_BUFSZ - 1) (s\<lparr>input := cs, gdb_rxsz := 0\<rparr>) 0 (ch CHR ''$'');
     let s = s\<lparr>gdb_rxbuf := (gdb_rxbuf s)[gdb_rxsz s := 0]\<rparr>;
     let cksum = cksum AND 0xff;
     if c \<noteq> ch CHR ''#'' then Some (Some ENOSPC, gdb_nack s)
     else if \<not> gdb_ackmode s then Some (Some 0, s)
     else do {
       (c, s) \<leftarrow> gdb_getc s;
       let cksum = cksum - (push_bit 4 (C2N c) AND 0xf0);
       (c, s) \<leftarrow> gdb_getc s;
       let cksum = cksum - (C2N c AND 0x0f);
       Some (if cksum = 0 then (Some 0, gdb_ack s) else (None, gdb_nack s))
     }
   }"

lemma input_simps [simp]:
  "input (gdb_port_putc c s) = input s" "input (gdb_nack s) = input s" "input (gdb_ack s) = input s"
  by (simp_all add: gdb_port_putc_def gdb_nack_def gdb_ack_def)

lemma gdb_getc_Some: "gdb_getc s = Some (c, s') \<longleftrightarrow> (\<exists>cs. input s = c # cs \<and> s' = s\<lparr>input := cs\<rparr>)"
  by (auto simp: gdb_getc_def split: list.splits)

lemma gdb_getc_Cons [simp]: "input s = c # cs \<Longrightarrow> gdb_getc s = Some (c, s\<lparr>input := cs\<rparr>)"
  by (simp add: gdb_getc_def)

lemma rx_chars_input: "rx_chars n s k c = Some (s', k', c') \<Longrightarrow> length (input s') \<le> length (input s)"
proof (induction n arbitrary: s k c)
  case (Suc n)
  then obtain c1 s1 where c1: "gdb_getc s = Some (c1, s1)" by (auto split: bind_splits)
  then have "length (input s1) < length (input s)" by (auto simp: gdb_getc_Some)
  with c1 Suc show ?case by (fastforce split: if_splits)
qed simp

lemma skip_to_start_length: "skip_to_start xs = Some ys \<Longrightarrow> length ys < length xs"
  by (induction xs) (auto split: if_splits)

lemma rx_round_consumes:
  assumes "rx_round s = Some (r, s')"
  shows "length (input s') < length (input s)"
proof -
  obtain cs s1 k c where cs: "skip_to_start (input s) = Some cs"
    and s1: "rx_chars (GDB_BUFSZ - 1) (s\<lparr>input := cs, gdb_rxsz := 0\<rparr>) 0 (ch CHR ''$'') = Some (s1, k, c)"
    and le: "length (input s') \<le> length (input s1)"
    using assms by (auto simp: rx_round_def Let_def gdb_getc_Some split: if_splits bind_splits)
  show ?thesis using skip_to_start_length [OF cs] rx_chars_input [OF s1] le by simp
qed

function gdb_rx_begin :: "gdb_st \<Rightarrow> (int \<times> gdb_st) option" where
  "gdb_rx_begin s = (case rx_round s of
      None \<Rightarrow> None
    | Some (Some r, s) \<Rightarrow> Some (r, if r = 0 then s\<lparr>gdb_rxp := 0\<rparr> else s)
    | Some (None, s) \<Rightarrow> gdb_rx_begin s)"
  by auto
termination by (relation "measure (length \<circ> input)") (auto dest: rx_round_consumes)

declare gdb_rx_begin.simps [simp del]

section \<open>Taking a packet apart\<close>

definition gdb_rx_char :: "gdb_st \<Rightarrow> u8 option \<times> gdb_st" where
  "gdb_rx_char s =
    (if gdb_rxsz s > 0
     then (Some (gdb_rxbuf s ! gdb_rxp s), s\<lparr>gdb_rxp := gdb_rxp s + 1, gdb_rxsz := gdb_rxsz s - 1\<rparr>)
     else (None, s))"

definition gdb_rx_equal :: "u8 list \<Rightarrow> gdb_st \<Rightarrow> bool \<times> gdb_st" where
  "gdb_rx_equal t s =
    (let len = length t in
     if len > gdb_rxsz s \<or> take len (drop (gdb_rxp s) (gdb_rxbuf s)) \<noteq> t then (False, s)
     else (True, s\<lparr>gdb_rxp := gdb_rxp s + len, gdb_rxsz := gdb_rxsz s - len\<rparr>))"

text \<open>
  Decoding pairs of digits into memory; \<open>put\<close> stores the byte with the given number, in the target
  or in the receive buffer itself. The length is compared after a 64-bit multiplication.
\<close>

primrec rx_mem_loop :: "(nat \<Rightarrow> u8 \<Rightarrow> gdb_st \<Rightarrow> gdb_st) \<Rightarrow> nat \<Rightarrow> nat \<Rightarrow> gdb_st \<Rightarrow> gdb_st option" where
  "rx_mem_loop put k 0 s = Some s"
| "rx_mem_loop put k (Suc cnt) s = do {
     FASSERT (gdb_rxp s + 1 < length (gdb_rxbuf s));
     let c = (ucast (push_bit 4 (C2N (gdb_rxbuf s ! gdb_rxp s)) AND 0xf0) :: u8);
     let c = c OR ucast (C2N (gdb_rxbuf s ! (gdb_rxp s + 1)) AND 0x0f);
     let s = put k c s;
     rx_mem_loop put (Suc k) cnt (s\<lparr>gdb_rxsz := gdb_rxsz s - 2, gdb_rxp := gdb_rxp s + 2\<rparr>)
   }"

definition gdb_rx_mem :: "(nat \<Rightarrow> u8 \<Rightarrow> gdb_st \<Rightarrow> gdb_st) \<Rightarrow> u64 \<Rightarrow> gdb_st \<Rightarrow> (int \<times> gdb_st) option" where
  "gdb_rx_mem put sz s =
    (if unat (sz * 2) \<noteq> gdb_rxsz s then Some (- 1, s)
     else map_option (Pair 1) (rx_mem_loop put 0 (unat sz) s))"

definition put_target :: "u64 \<Rightarrow> nat \<Rightarrow> u8 \<Rightarrow> gdb_st \<Rightarrow> gdb_st" where
  "put_target addr k c s = s\<lparr>tmem := (tmem s)(addr + of_nat k := c)\<rparr>"

definition put_rxbuf :: "nat \<Rightarrow> nat \<Rightarrow> u8 \<Rightarrow> gdb_st \<Rightarrow> gdb_st" where
  "put_rxbuf val k c s = s\<lparr>gdb_rxbuf := (gdb_rxbuf s)[val + k := c]\<rparr>"

lemma gdb_rx_char_decreases: "gdb_rx_char s = (Some c, s') \<Longrightarrow> gdb_rxsz s' < gdb_rxsz s"
  by (auto simp: gdb_rx_char_def split: if_splits)

definition opt_isxdigit :: "u8 option \<Rightarrow> bool" where
  "opt_isxdigit c \<longleftrightarrow> (case c of None \<Rightarrow> False | Some c \<Rightarrow> isxdigit c)"

function varhex_loop :: "u64 \<Rightarrow> u8 \<Rightarrow> gdb_st \<Rightarrow> u64 \<times> u8 option \<times> gdb_st" where
  "varhex_loop v c s =
    (let v = push_bit 4 v + ucast (C2N c) in
     case gdb_rx_char s of
       (Some c, s) \<Rightarrow> if isxdigit c then varhex_loop v c s else (v, Some c, s)
     | (None, s) \<Rightarrow> (v, None, s))"
  by auto
termination by (relation "measure (\<lambda>(v, c, s). gdb_rxsz s)") (auto dest: gdb_rx_char_decreases [OF sym])

declare varhex_loop.simps [simp del]

text \<open>The value, or nothing when the packet does not go on with a number.\<close>

definition gdb_rx_varhex :: "gdb_st \<Rightarrow> u64 option \<times> gdb_st" where
  "gdb_rx_varhex s =
    (let (c, s) = gdb_rx_char s;
         neg = (if c = Some (ch CHR ''-'') then 1 else 0);
         (c, s) = (if neg = 1 then gdb_rx_char s else (c, s))
     in case c of
       Some d \<Rightarrow> if isxdigit d
         then let (v, c, s) = varhex_loop 0 d s;
                  s = (if c \<noteq> None then s\<lparr>gdb_rxp := gdb_rxp s - 1, gdb_rxsz := gdb_rxsz s + 1\<rparr> else s)
              in (Some (if neg = 1 then - v else v), s)
         else (None, s\<lparr>gdb_rxp := gdb_rxp s - (1 + neg), gdb_rxsz := gdb_rxsz s + (1 + neg)\<rparr>)
     | None \<Rightarrow> (None, s\<lparr>gdb_rxp := gdb_rxp s - (0 + neg), gdb_rxsz := gdb_rxsz s + (0 + neg)\<rparr>))"

function bindata_loop :: "nat \<Rightarrow> u8 list \<Rightarrow> gdb_st \<Rightarrow> bool \<times> u8 list \<times> gdb_st" where
  "bindata_loop datalen data s =
    (if length data < datalen
     then case gdb_rx_char s of
         (None, s) \<Rightarrow> (True, data, s)
       | (Some c, s) \<Rightarrow>
           if c = ch CHR ''}''
           then (case gdb_rx_char s of
                   (None, s) \<Rightarrow> (False, data, s)
                 | (Some c, s) \<Rightarrow> bindata_loop datalen (data @ [c XOR 0x20]) s)
           else bindata_loop datalen (data @ [c]) s
     else (True, data, s))"
  by auto
termination by (relation "measure (\<lambda>(n, data, s). n - length data)") auto

declare bindata_loop.simps [simp del]

text \<open>Whether the data was well formed, the bytes, and the state.\<close>

definition gdb_rx_bindata :: "nat \<Rightarrow> gdb_st \<Rightarrow> bool \<times> u8 list \<times> gdb_st" where
  "gdb_rx_bindata datalen s = bindata_loop datalen [] s"

section \<open>Searching memory\<close>

definition mem_range :: "(u64 \<Rightarrow> u8) \<Rightarrow> u64 \<Rightarrow> nat \<Rightarrow> u8 list" where
  "mem_range m addr n = map (\<lambda>k. m (addr + of_nat k)) [0..<n]"

text \<open>The search looks at the positions up to the last one where the pattern fits.\<close>

definition memmem :: "(u64 \<Rightarrow> u8) \<Rightarrow> u64 \<Rightarrow> nat \<Rightarrow> u8 list \<Rightarrow> u64 option" where
  "memmem m l l_len pat =
    (let s_len = length pat in
     if l_len = 0 \<or> s_len = 0 then None
     else if l_len < s_len then None
     else if s_len = 1 then map_option (\<lambda>k. l + of_nat k) (find (\<lambda>k. m (l + of_nat k) = pat ! 0) [0..<l_len])
     else map_option (\<lambda>k. l + of_nat k)
       (find (\<lambda>k. m (l + of_nat k) = pat ! 0 \<and> mem_range m (l + of_nat k) s_len = pat) [0..<l_len - s_len + 1]))"

definition gdb_search_mem :: "u64 \<Rightarrow> u64 \<Rightarrow> u8 list \<Rightarrow> gdb_st \<Rightarrow> u64 option" where
  "gdb_search_mem addr sz pat s = memmem (tmem s) addr (unat sz) pat"

section \<open>Building a packet\<close>

definition gdb_tx_char :: "u8 \<Rightarrow> gdb_st \<Rightarrow> gdb_st option" where
  "gdb_tx_char c s = do {
     FASSERT (length (gdb_txbuf s) < GDB_BUFSZ);
     Some (s\<lparr>gdb_txbuf := gdb_txbuf s @ [c]\<rparr>)
   }"

definition gdb_tx_begin :: "u8 \<Rightarrow> gdb_st \<Rightarrow> gdb_st option" where
  "gdb_tx_begin tp s =
    (let s = s\<lparr>gdb_txbuf := []\<rparr> in if tp \<noteq> 0 then gdb_tx_char tp s else Some s)"

primrec gdb_tx_str :: "u8 list \<Rightarrow> gdb_st \<Rightarrow> gdb_st option" where
  "gdb_tx_str [] s = Some s"
| "gdb_tx_str (c # cs) s = do { s \<leftarrow> gdb_tx_char c s; gdb_tx_str cs s }"

definition gdb_txbuf_has_capacity :: "gdb_st \<Rightarrow> nat \<Rightarrow> bool" where
  "gdb_txbuf_has_capacity s req \<longleftrightarrow> GDB_BUFSZ - length (gdb_txbuf s) \<ge> req"

text \<open>The byte that ends what \<open>sprintf\<close> writes needs room too.\<close>

definition sprintf_txp :: "u8 list \<Rightarrow> gdb_st \<Rightarrow> gdb_st option" where
  "sprintf_txp t s = do {
     FASSERT (length (gdb_txbuf s) + length t < GDB_BUFSZ);
     Some (s\<lparr>gdb_txbuf := gdb_txbuf s @ t\<rparr>)
   }"

primrec uintmax_to_hex :: "u64 \<Rightarrow> nat \<Rightarrow> u8 list" where
  "uintmax_to_hex n 0 = []"
| "uintmax_to_hex n (Suc i) = uintmax_to_hex (drop_bit 4 n) i @ [str ''0123456789abcdef'' ! unat (n AND 0xF)]"

fun strip_zeros :: "u8 list \<Rightarrow> u8 list" where
  "strip_zeros (c # d # cs) = (if c = ch CHR ''0'' then strip_zeros (d # cs) else c # d # cs)"
| "strip_zeros cs = cs"

text \<open>The conversions \<^verbatim>\<open>%jx\<close> and \<^verbatim>\<open>%0*jx\<close> of the C library.\<close>

definition jx :: "u64 \<Rightarrow> u8 list" where
  "jx n = strip_zeros (uintmax_to_hex n 16)"

definition jx_padded :: "nat \<Rightarrow> u64 \<Rightarrow> u8 list" where
  "jx_padded sz n = replicate (sz - length (jx n)) (ch CHR ''0'') @ jx n"

definition gdb_tx_hex :: "u64 \<Rightarrow> nat \<Rightarrow> gdb_st \<Rightarrow> gdb_st option" where
  "gdb_tx_hex n sz s = sprintf_txp (if use_newlib s then uintmax_to_hex n sz else jx_padded sz n) s"

definition gdb_tx_varhex :: "u64 \<Rightarrow> gdb_st \<Rightarrow> gdb_st option" where
  "gdb_tx_varhex n s = sprintf_txp (if use_newlib s then strip_zeros (uintmax_to_hex n 16) else jx n) s"

primrec gdb_tx_mem :: "u8 list \<Rightarrow> gdb_st \<Rightarrow> gdb_st option" where
  "gdb_tx_mem [] s = Some s"
| "gdb_tx_mem (b # bs) s = do {
     s \<leftarrow> gdb_tx_char (N2C (drop_bit 4 b)) s;
     s \<leftarrow> gdb_tx_char (N2C (b AND 0x0f)) s;
     gdb_tx_mem bs s
   }"

section \<open>Sending a packet\<close>

text \<open>Every character that is sent is added to the checksum: the characters so far and the sum.\<close>

definition tx_put :: "u8 \<Rightarrow> u8 list \<times> u8 \<Rightarrow> u8 list \<times> u8" where
  "tx_put c = (\<lambda>(sent, cksum). (sent @ [c], cksum + c))"

function long_runs :: "u8 \<Rightarrow> nat \<Rightarrow> u8 list \<times> u8 \<Rightarrow> nat \<times> u8 list \<times> u8" where
  "long_runs c runlen acc =
    (if runlen \<ge> 97
     then let acc = tx_put (97 + 29) (tx_put (ch CHR ''*'') acc); runlen = runlen - 97
          in if runlen > 0 then long_runs c (runlen - 1) (tx_put c acc) else long_runs c runlen acc
     else (runlen, acc))"
  by auto
termination by (relation "measure (\<lambda>(c, n, acc). n)") auto

definition bad_run :: "nat \<Rightarrow> bool" where
  "bad_run runlen \<longleftrightarrow> runlen = 1 \<or> runlen = 2 \<or> runlen + 29 = of_char CHR ''$'' \<or>
     runlen + 29 = of_char CHR ''#'' \<or> runlen + 29 = of_char CHR ''+'' \<or> runlen + 29 = of_char CHR ''-''"

primrec short_runs :: "u8 \<Rightarrow> nat \<Rightarrow> u8 list \<times> u8 \<Rightarrow> nat \<times> u8 list \<times> u8" where
  "short_runs c 0 acc = (0, acc)"
| "short_runs c (Suc n) acc = (if bad_run (Suc n) then short_runs c n (tx_put c acc) else (Suc n, acc))"

declare long_runs.simps [simp del]

function rle_chars :: "u8 list \<Rightarrow> u8 list \<times> u8 \<Rightarrow> u8 list \<times> u8" where
  "rle_chars [] acc = acc"
| "rle_chars (c # p) acc =
    (let acc = tx_put c acc;
         runlen = length (takeWhile (\<lambda>x. x = c) p);
         p = dropWhile (\<lambda>x. x = c) p;
         (runlen, acc) = long_runs c runlen acc;
         (runlen, acc) = short_runs c runlen acc
     in if runlen = 0 then rle_chars p acc
        else rle_chars p (tx_put (of_nat (runlen + 29)) (tx_put (ch CHR ''*'') acc)))"
  by pat_completeness auto
termination by (relation "measure (\<lambda>(p, acc). length p)") (auto simp: le_imp_less_Suc length_dropWhile_le)

text \<open>The characters of one transmission, through the character port or as one buffer.\<close>

definition rle_frame :: "u8 list \<Rightarrow> u8 list" where
  "rle_frame p =
    (let (sent, cksum) = rle_chars p ([ch CHR ''$''], 0)
     in sent @ [ch CHR ''#'', N2C (drop_bit 4 cksum), N2C (cksum AND 0x0f)])"

definition gdb_tx_sendpacket :: "gdb_st \<Rightarrow> gdb_st" where
  "gdb_tx_sendpacket s =
    (let csum = foldl (+) 0 (gdb_txbuf s);
         buf = [ch CHR ''$''] @ gdb_txbuf s @ [ch CHR ''#''] @ jx_padded 2 (ucast csum)
     in s\<lparr>port_out := port_out s @ [SendPacket (take (length (gdb_txbuf s) + 4) buf)]\<rparr>)"

definition tx_once :: "gdb_st \<Rightarrow> gdb_st" where
  "tx_once s =
    (if gdb_sendpacket s then gdb_tx_sendpacket s
     else s\<lparr>port_out := port_out s @ map Putc (rle_frame (gdb_txbuf s))\<rparr>)"

lemma tx_once_input [simp]: "input (tx_once s) = input s"
  by (simp add: tx_once_def gdb_tx_sendpacket_def Let_def)

function gdb_tx_end :: "gdb_st \<Rightarrow> gdb_st option" where
  "gdb_tx_end s =
    (let s = tx_once s in
     if \<not> gdb_ackmode s then Some s
     else case gdb_getc s of
       None \<Rightarrow> None
     | Some (c, s) \<Rightarrow> if c \<noteq> ch CHR ''+'' then gdb_tx_end s else Some s)"
  by auto
termination by (relation "measure (length \<circ> input)") (auto simp: gdb_getc_Some)

declare gdb_tx_end.simps [simp del]

definition gdb_tx_empty :: "gdb_st \<Rightarrow> gdb_st option" where
  "gdb_tx_empty s = do { s \<leftarrow> gdb_tx_begin 0 s; gdb_tx_end s }"

definition gdb_tx_err :: "int \<Rightarrow> gdb_st \<Rightarrow> gdb_st option" where
  "gdb_tx_err err s = do {
     s \<leftarrow> gdb_tx_begin (ch CHR ''E'') s;
     s \<leftarrow> gdb_tx_hex (of_int err) 2 s;
     gdb_tx_end s
   }"

definition gdb_tx_ok :: "gdb_st \<Rightarrow> gdb_st option" where
  "gdb_tx_ok s = do {
     s \<leftarrow> gdb_tx_begin (ch CHR ''O'') s;
     s \<leftarrow> gdb_tx_char (ch CHR ''K'') s;
     gdb_tx_end s
   }"

end
