(* ===== verification/GdbPacketProps.thy ===== *)
theory GdbPacketProps
  imports Gdb
begin

text \<open>
  The packet layer against the protocol: what is sent decodes to what was put in the buffer, what
  is received is exactly the body of the next frame with a valid checksum, and numbers survive
  printing and parsing.
\<close>

section \<open>Digits\<close>

lemma C2N_N2C: "n < 16 \<Longrightarrow> C2N (N2C n) = ucast n"
proof -
  have all: "list_all (\<lambda>k. C2N (N2C (of_nat k)) = of_nat k) [0..<16]" by code_simp
  assume "n < 16"
  then have "unat n < 16" by (simp add: word_less_nat_alt)
  with all have "C2N (N2C (of_nat (unat n))) = of_nat (unat n)" unfolding list_all_iff by (metis atLeastLessThan_iff le0 set_upt)
  then show ?thesis by (simp add: unsigned_of_nat)
qed

lemma mask_lits: "(0xf0::u32) = push_bit 4 (mask 4)" "(0x0f :: u32) = mask 4" "(0x0f :: u8) = mask 4"
  by (simp_all add: mask_eq_exp_minus_1)

lemma high_digit: "push_bit 4 (ucast (drop_bit 4 k) :: u32) AND 0xf0 = ucast (k :: u8) AND 0xf0"
  unfolding mask_lits by (rule bit_word_eqI) (auto simp: bit_simps)

lemma low_digit: "ucast (k AND 0x0f) AND (0x0f :: u32) = ucast (k :: u8) AND 0x0f"
  unfolding mask_lits by (rule bit_word_eqI) (auto simp: bit_simps)

lemma digit_less: "drop_bit 4 (k :: u8) < 16" "k AND 0x0f < (16 :: u8)"
proof -
  have "unat k < 256" using unsigned_less [of k, where ?'a=nat] by simp
  then have "unat (drop_bit 4 k) < 16" by (simp add: unat_drop_bit_eq drop_bit_eq_div [where 'a=nat])
  then show "drop_bit 4 k < 16" by (simp add: word_less_nat_alt del: unat_drop_bit_eq)
  have "k AND 0x0f \<le> 15" by (rule word_and_le1)
  then show "k AND 0x0f < 16" by (simp add: word_le_nat_alt word_less_nat_alt)
qed

lemma digits_of:
  "push_bit 4 (C2N (N2C (drop_bit 4 k))) AND 0xf0 = ucast k AND 0xf0"
  "C2N (N2C (k AND 0x0f)) AND 0x0f = ucast k AND 0x0f"
  by (simp_all only: C2N_N2C digit_less high_digit low_digit)

lemma join_digits: "(ucast (k::u8) AND 0xf0) + (ucast k AND 0x0f) = (ucast k :: u32)"
proof -
  have "(ucast k AND 0xf0) + (ucast k AND 0x0f) = (ucast k AND 0xf0) OR (ucast k AND 0x0f :: u32)"
    unfolding mask_lits by (rule disjunctive_add) (auto simp: bit_simps)
  also have "\<dots> = ucast k" unfolding mask_lits by (rule bit_word_eqI) (auto simp: bit_simps dest: bit_imp_le_length)
  finally show ?thesis .
qed

lemma join_digits_or: "ucast (ucast (k::u8) AND 0xf0 :: u32) OR ucast (ucast k AND 0x0f :: u32) = k"
  unfolding mask_lits by (rule bit_word_eqI) (auto simp: bit_simps)

section \<open>Run-length encoding\<close>

text \<open>
  The protocol: a character, an asterisk and a count character \<open>n\<close> stand for the character and
  \<open>n - 29\<close> repetitions of it.
\<close>

fun rle_decode :: "u8 list \<Rightarrow> u8 list" where
  "rle_decode (c # d # n # xs) =
    (if d = ch CHR ''*'' then c # replicate (unat n - 29) c @ rle_decode xs else c # rle_decode (d # n # xs))"
| "rle_decode (c # xs) = c # rle_decode xs"
| "rle_decode [] = []"

text \<open>What is sent after a character that is repeated \<open>n\<close> times.\<close>

primrec short_bytes :: "u8 \<Rightarrow> nat \<Rightarrow> u8 list" where
  "short_bytes c 0 = []"
| "short_bytes c (Suc n) = (if bad_run (Suc n) then c # short_bytes c n else [ch CHR ''*'', of_nat (Suc n + 29)])"

function run_bytes :: "u8 \<Rightarrow> nat \<Rightarrow> u8 list" where
  "run_bytes c n = (if n \<ge> 97 then [ch CHR ''*'', 126] @ (if n > 97 then c # run_bytes c (n - 98) else []) else short_bytes c n)"
  by auto
termination by (relation "measure snd") auto

declare run_bytes.simps [simp del]

function rle_bytes :: "u8 list \<Rightarrow> u8 list" where
  "rle_bytes [] = []"
| "rle_bytes (c # p) = c # run_bytes c (length (takeWhile (\<lambda>x. x = c) p)) @ rle_bytes (dropWhile (\<lambda>x. x = c) p)"
  by pat_completeness auto
termination by (relation "measure length") (auto simp: le_imp_less_Suc length_dropWhile_le)

definition tx_puts :: "u8 list \<Rightarrow> u8 list \<times> u8 \<Rightarrow> u8 list \<times> u8" where
  "tx_puts bs = (\<lambda>(sent, cksum). (sent @ bs, cksum + sum_list bs))"

lemma tx_puts_simps [simp]:
  "tx_puts [] acc = acc" "tx_puts bs (tx_put c acc) = tx_puts (c # bs) acc" "tx_puts xs (tx_puts ys acc) = tx_puts (ys @ xs) acc"
  by (simp_all add: tx_puts_def tx_put_def case_prod_beta)

lemma tx_put_puts: "tx_put c acc = tx_puts [c] acc"
  by (simp add: tx_puts_def tx_put_def)

text \<open>The last step of a run: a count, when something is left to count.\<close>

definition finish_run :: "nat \<times> u8 list \<times> u8 \<Rightarrow> u8 list \<times> u8" where
  "finish_run r = (case r of (n, acc) \<Rightarrow> if n = 0 then acc else tx_puts [ch CHR ''*'', of_nat (n + 29)] acc)"

lemma short_runs_bytes: "finish_run (short_runs c n acc) = tx_puts (short_bytes c n) acc"
  by (induction n arbitrary: acc) (simp_all add: finish_run_def)

lemma run_bytes_emitted:
  "finish_run (case long_runs c n acc of (m, acc) \<Rightarrow> short_runs c m acc) = tx_puts (run_bytes c n) acc"
proof (induction c n arbitrary: acc rule: run_bytes.induct)
  case (1 c n)
  consider "n < 97" | "n = 97" | "n > 97" by linarith
  then show ?case
  proof cases
    case 1
    then show ?thesis by (simp add: long_runs.simps [of c n] run_bytes.simps [of c n] short_runs_bytes)
  next
    case 2
    then show ?thesis
      by (simp add: long_runs.simps [of c 97] long_runs.simps [of c 0] run_bytes.simps [of c 97] finish_run_def tx_put_puts)
  next
    case 3
    then have "long_runs c n acc = long_runs c (n - 98) (tx_puts [ch CHR ''*'', 126, c] acc)"
      by (simp add: long_runs.simps [of c n] tx_put_puts)
    then show ?thesis using 3 1 by (simp add: run_bytes.simps [of c n])
  qed
qed

lemma rle_chars_Cons:
  "rle_chars (c # p) acc =
    rle_chars (dropWhile (\<lambda>x. x = c) p) (tx_puts (c # run_bytes c (length (takeWhile (\<lambda>x. x = c) p))) acc)"
proof -
  let ?n = "length (takeWhile (\<lambda>x. x = c) p)"
  let ?r = "case long_runs c ?n (tx_put c acc) of (m, acc) \<Rightarrow> short_runs c m acc"
  have "rle_chars (c # p) acc = rle_chars (dropWhile (\<lambda>x. x = c) p) (finish_run ?r)"
    by (simp add: Let_def finish_run_def tx_put_puts split: prod.split)
  then show ?thesis by (simp add: run_bytes_emitted)
qed

lemma rle_chars_bytes: "rle_chars p acc = tx_puts (rle_bytes p) acc"
proof (induction p arbitrary: acc rule: rle_bytes.induct)
  case (2 c p)
  show ?case unfolding rle_chars_Cons 2 by simp
qed simp

lemma rle_frame_eq:
  "rle_frame p = ch CHR ''$'' # rle_bytes p @
     [ch CHR ''#'', N2C (drop_bit 4 (sum_list (rle_bytes p))), N2C (sum_list (rle_bytes p) AND 0x0f)]"
  by (simp add: rle_frame_def rle_chars_bytes tx_puts_def)

text \<open>Decoding a run gives the repeated character back.\<close>

definition no_star :: "u8 list \<Rightarrow> bool" where
  "no_star xs \<longleftrightarrow> (case xs of [] \<Rightarrow> True | x # _ \<Rightarrow> x \<noteq> ch CHR ''*'')"

lemma no_star_simps [simp]: "no_star []" "no_star (x # xs) \<longleftrightarrow> x \<noteq> ch CHR ''*''"
  by (simp_all add: no_star_def)

lemma rle_decode_plain: "no_star xs \<Longrightarrow> rle_decode (c # xs) = c # rle_decode xs"
  by (cases xs; cases "tl xs") auto

lemma unat_count: "n < 97 \<Longrightarrow> unat (of_nat (n + 29) :: u8) = n + 29"
  by (simp only: unat_of_nat) simp

lemma decode_short_bytes:
  "c \<noteq> ch CHR ''*'' \<Longrightarrow> no_star xs \<Longrightarrow> n < 97 \<Longrightarrow> rle_decode (c # short_bytes c n @ xs) = replicate (Suc n) c @ rle_decode xs"
proof (induction n)
  case (Suc n)
  have "unat (of_nat (Suc n + 29) :: u8) = Suc n + 29" using Suc.prems by (intro unat_count)
  then show ?case using Suc by (auto simp: rle_decode_plain)
qed (simp add: rle_decode_plain)

lemma decode_run_bytes:
  "c \<noteq> ch CHR ''*'' \<Longrightarrow> no_star xs \<Longrightarrow> rle_decode (c # run_bytes c n @ xs) = replicate (Suc n) c @ rle_decode xs"
proof (induction c n rule: run_bytes.induct)
  case (1 c n)
  consider "n < 97" | "n = 97" | "n > 97" by linarith
  then show ?case
  proof cases
    case 1
    then show ?thesis using "1.prems" by (simp add: run_bytes.simps [of c n] decode_short_bytes)
  next
    case 2
    then show ?thesis by (simp add: run_bytes.simps [of c 97] flip: replicate_Suc)
  next
    case 3
    then have "rle_decode (c # run_bytes c n @ xs) = c # replicate 97 c @ rle_decode (c # run_bytes c (n - 98) @ xs)"
      by (simp add: run_bytes.simps [of c n])
    also have "rle_decode (c # run_bytes c (n - 98) @ xs) = replicate (Suc (n - 98)) c @ rle_decode xs"
      using 3 1 by simp
    also have "c # replicate 97 c @ replicate (Suc (n - 98)) c @ rle_decode xs = replicate (98 + Suc (n - 98)) c @ rle_decode xs"
      unfolding replicate_add by (simp flip: replicate_Suc)
    finally show ?thesis using 3 by simp
  qed
qed

lemma rle_bytes_no_star: "ch CHR ''*'' \<notin> set p \<Longrightarrow> no_star (rle_bytes p)"
  by (cases p) auto

lemma rle_decode_rle_bytes: "ch CHR ''*'' \<notin> set p \<Longrightarrow> rle_decode (rle_bytes p) = p"
proof (induction p rule: rle_bytes.induct)
  case (2 c p)
  let ?r = "dropWhile (\<lambda>x. x = c) p"
  have r: "ch CHR ''*'' \<notin> set ?r" using "2.prems" by (auto dest: set_dropWhileD)
  have "takeWhile (\<lambda>x. x = c) p = replicate (length (takeWhile (\<lambda>x. x = c) p)) c"
    by (rule replicate_eqI) (auto dest: set_takeWhileD)
  then have "p = replicate (length (takeWhile (\<lambda>x. x = c) p)) c @ ?r" by (metis takeWhile_dropWhile_id)
  then show ?case using 2 r by (simp add: decode_run_bytes rle_bytes_no_star)
qed simp

text \<open>The count characters are printable and none of the characters with a meaning in the protocol.\<close>

definition count_char :: "u8 \<Rightarrow> bool" where
  "count_char d \<longleftrightarrow> 32 \<le> d \<and> d \<le> 126 \<and> d \<notin> {ch CHR ''$'', ch CHR ''#'', ch CHR ''+'', ch CHR ''-''}"

lemma count_char_of_nat: "\<not> bad_run n \<Longrightarrow> 0 < n \<Longrightarrow> n < 97 \<Longrightarrow> count_char (of_nat (n + 29))"
  using unat_count [of n] by (auto simp: bad_run_def count_char_def word_le_nat_alt word_unat_eq_iff simp del: of_nat_add)

lemma set_short_bytes: "n < 97 \<Longrightarrow> d \<in> set (short_bytes c n) \<Longrightarrow> d = c \<or> d = ch CHR ''*'' \<or> count_char d"
proof (induction n)
  case (Suc n)
  then show ?case using count_char_of_nat [of "Suc n"] by (auto split: if_splits)
qed simp

lemma set_run_bytes: "d \<in> set (run_bytes c n) \<Longrightarrow> d = c \<or> d = ch CHR ''*'' \<or> count_char d"
proof (induction c n rule: run_bytes.induct)
  case (1 c n)
  have "count_char 126" by (simp add: count_char_def)
  then show ?case using 1 set_short_bytes [of n d c]
    by (auto simp: run_bytes.simps [of c n] split: if_splits)
qed

lemma set_rle_bytes: "d \<in> set (rle_bytes p) \<Longrightarrow> d \<in> set p \<or> d = ch CHR ''*'' \<or> count_char d"
proof (induction p rule: rle_bytes.induct)
  case (2 c p)
  then show ?case by (auto dest: set_run_bytes set_dropWhileD)
qed simp

lemma rle_bytes_delimiters:
  "ch CHR ''$'' \<notin> set p \<Longrightarrow> ch CHR ''$'' \<notin> set (rle_bytes p)"
  "ch CHR ''#'' \<notin> set p \<Longrightarrow> ch CHR ''#'' \<notin> set (rle_bytes p)"
  using set_rle_bytes [of "ch CHR ''$''" p] set_rle_bytes [of "ch CHR ''#''" p] by (auto simp: count_char_def)

text \<open>The encoding is never longer than the text.\<close>

lemma length_short_bytes: "length (short_bytes c n) \<le> n"
  by (induction n) (auto simp: bad_run_def)

lemma length_run_bytes: "length (run_bytes c n) \<le> n"
  by (induction c n rule: run_bytes.induct)
    (subst run_bytes.simps, auto simp: length_short_bytes)

lemma length_rle_bytes: "length (rle_bytes p) \<le> length p"
proof (induction p rule: rle_bytes.induct)
  case (2 c p)
  have "length p = length (takeWhile (\<lambda>x. x = c) p) + length (dropWhile (\<lambda>x. x = c) p)"
    by (metis length_append takeWhile_dropWhile_id)
  then show ?case using 2 length_run_bytes [of c "length (takeWhile (\<lambda>x. x = c) p)"] by simp
qed simp

section \<open>Receiving\<close>

text \<open>What is on the line for a packet, after characters that belong to no packet.\<close>

record wire =
  noise :: "u8 list"
  body :: "u8 list"
  sum_hi :: u8
  sum_lo :: u8

definition wire_chars :: "wire \<Rightarrow> u8 list" where
  "wire_chars w = noise w @ ch CHR ''$'' # body w @ [ch CHR ''#'', sum_hi w, sum_lo w]"

definition wire_ok :: "wire \<Rightarrow> bool" where
  "wire_ok w \<longleftrightarrow> ch CHR ''$'' \<notin> set (noise w) \<and> ch CHR ''#'' \<notin> set (body w) \<and> length (body w) < GDB_BUFSZ - 1"

definition sum32 :: "u8 list \<Rightarrow> u32" where
  "sum32 xs = sum_list (map ucast xs)"

lemma sum32_simps [simp]: "sum32 [] = 0" "sum32 (x # xs) = ucast x + sum32 xs"
  by (simp_all add: sum32_def)

lemma sum_list_bytes: "sum_list xs = (of_nat (sum_list (map unat xs)) :: u8)"
  by (induction xs) simp_all

lemma sum32_bytes: "sum32 xs = of_nat (sum_list (map unat xs))"
  by (induction xs) (simp_all add: sum32_def)

lemma sum32_byte: "sum32 xs AND 0xff = ucast (sum_list xs)"
proof -
  have "(0xff :: u32) = mask 8" by (simp add: mask_eq_exp_minus_1)
  then show ?thesis
    by (simp only: sum_list_bytes sum32_bytes unsigned_of_nat take_bit_of_nat flip: take_bit_eq_mask) simp
qed

definition sum_ok :: "wire \<Rightarrow> bool" where
  "sum_ok w \<longleftrightarrow> sum32 (body w) AND 0xff = (push_bit 4 (C2N (sum_hi w)) AND 0xf0) + (C2N (sum_lo w) AND 0x0f)"

lemma skip_to_start_noise:
  "ch CHR ''$'' \<notin> set xs \<Longrightarrow> skip_to_start (xs @ ch CHR ''$'' # cs) = Some cs"
  by (induction xs) auto

text \<open>The receive buffer after a text has been stored from position \<open>i\<close> on.\<close>

definition store_at :: "nat \<Rightarrow> u8 list \<Rightarrow> u8 list \<Rightarrow> u8 list" where
  "store_at i xs buf = take i buf @ xs @ drop (i + length xs) buf"

lemma length_store_at [simp]: "i + length xs \<le> length buf \<Longrightarrow> length (store_at i xs buf) = length buf"
  by (simp add: store_at_def)

lemma store_at_Nil [simp]: "store_at i [] buf = buf"
  by (simp add: store_at_def)

lemma store_at_Cons:
  "i < length buf \<Longrightarrow> store_at (Suc i) xs (buf[i := x]) = store_at i (x # xs) buf"
  by (simp add: store_at_def take_Suc_conv_app_nth list_update_append)

lemma store_at_snoc:
  "i + length xs < length buf \<Longrightarrow> (store_at i xs buf)[i + length xs := x] = store_at i (xs @ [x]) buf"
  by (simp add: store_at_def list_update_append nth_append Cons_nth_drop_Suc [symmetric])

lemma rx_chars_text:
  assumes "ch CHR ''#'' \<notin> set xs" "length xs < n" "gdb_rxsz s + length xs \<le> length (gdb_rxbuf s)"
    "input s = xs @ ch CHR ''#'' # rest"
  shows "rx_chars n s k c = Some (s\<lparr>input := rest, gdb_rxbuf := store_at (gdb_rxsz s) xs (gdb_rxbuf s),
           gdb_rxsz := gdb_rxsz s + length xs\<rparr>, k + sum32 xs, ch CHR ''#'')"
  using assms
proof (induction xs arbitrary: n s k c)
  case Nil
  then show ?case by (cases n) simp_all
next
  case (Cons x xs)
  then obtain m where n: "n = Suc m" by (cases n) auto
  show ?case using Cons.prems
    by (simp add: n Cons.IH store_at_Cons add.assoc)
qed

definition received :: "wire \<Rightarrow> u8 list \<Rightarrow> gdb_st \<Rightarrow> gdb_st" where
  "received w rest s = s\<lparr>gdb_rxsz := length (body w), gdb_rxbuf := store_at 0 (body w @ [0]) (gdb_rxbuf s), input := rest\<rparr>"

lemma rx_round_wire:
  assumes "wire_ok w" "input s = wire_chars w @ rest" "gdb_ackmode s" "length (gdb_rxbuf s) = GDB_BUFSZ"
  shows "rx_round s = Some (if sum_ok w then (Some 0, gdb_ack (received w rest s)) else (None, gdb_nack (received w rest s)))"
proof -
  have body: "ch CHR ''#'' \<notin> set (body w)" "length (body w) < 4095" and noise: "ch CHR ''$'' \<notin> set (noise w)"
    using assms(1) by (simp_all add: wire_ok_def GDB_BUFSZ_def)
  have ss: "skip_to_start (input s) = Some (body w @ ch CHR ''#'' # sum_hi w # sum_lo w # rest)"
    using assms(2) skip_to_start_noise [OF noise] by (simp add: wire_chars_def)
  have st: "(store_at 0 (body w) (gdb_rxbuf s))[length (body w) := 0] = store_at 0 (body w @ [0]) (gdb_rxbuf s)"
    using store_at_snoc [of 0 "body w" "gdb_rxbuf s" 0] body assms(4) by (simp add: GDB_BUFSZ_def)
  show ?thesis
    using assms body unfolding rx_round_def ss
    by (simp add: rx_chars_text GDB_BUFSZ_def st received_def sum_ok_def diff_diff_eq diff_eq_eq add.commute)
qed

lemma received_simps [simp]:
  "input (received w rest s) = rest" "gdb_ackmode (received w rest s) = gdb_ackmode s"
  "port_out (received w rest s) = port_out s"
  by (simp_all add: received_def)

text \<open>What the stub knows of a packet it is taking apart.\<close>

definition unread :: "gdb_st \<Rightarrow> u8 list" where
  "unread s = take (gdb_rxsz s) (drop (gdb_rxp s) (gdb_rxbuf s))"

definition rx_wf :: "gdb_st \<Rightarrow> bool" where
  "rx_wf s \<longleftrightarrow> gdb_rxp s + gdb_rxsz s < length (gdb_rxbuf s) \<and> length (gdb_rxbuf s) = GDB_BUFSZ"

lemma unread_received: "length (body w) < GDB_BUFSZ \<Longrightarrow> length (gdb_rxbuf s) = GDB_BUFSZ \<Longrightarrow>
    unread ((received w rest s)\<lparr>gdb_rxp := 0\<rparr>) = body w \<and> rx_wf ((received w rest s)\<lparr>gdb_rxp := 0\<rparr>)"
  by (simp add: unread_def received_def rx_wf_def store_at_def)

text \<open>Everything but the receive buffer and the traffic, which the receiver leaves alone.\<close>

definition but_rx :: "gdb_st \<Rightarrow> gdb_st" where
  "but_rx s = s\<lparr>gdb_rxbuf := [], gdb_rxp := 0, gdb_rxsz := 0, input := [], port_out := []\<rparr>"

lemma but_rx_updates [simp]:
  "but_rx (s\<lparr>gdb_rxbuf := b\<rparr>) = but_rx s" "but_rx (s\<lparr>gdb_rxp := p\<rparr>) = but_rx s" "but_rx (s\<lparr>gdb_rxsz := n\<rparr>) = but_rx s"
  "but_rx (s\<lparr>input := i\<rparr>) = but_rx s" "but_rx (s\<lparr>port_out := out\<rparr>) = but_rx s"
  by (simp_all add: but_rx_def)

lemma rx_begin_wires:
  assumes "\<forall>v\<in>set vs. wire_ok v \<and> \<not> sum_ok v" "wire_ok w" "sum_ok w"
    "input s = concat (map wire_chars vs) @ wire_chars w @ rest" "gdb_ackmode s" "length (gdb_rxbuf s) = GDB_BUFSZ"
  shows "\<exists>s'. gdb_rx_begin s = Some (0, s') \<and> but_rx s' = but_rx s \<and> unread s' = body w \<and> rx_wf s' \<and> input s' = rest \<and>
    port_out s' = port_out s @ replicate (length vs) (Putc (ch CHR ''-'')) @ [Putc (ch CHR ''+'')]"
  using assms
proof (induction vs arbitrary: s)
  case Nil
  define t where "t = received w rest s"
  have "gdb_rx_begin s = Some (0, (gdb_ack t)\<lparr>gdb_rxp := 0\<rparr>)"
    using Nil rx_round_wire [of w s rest] by (simp add: gdb_rx_begin.simps [of s] t_def)
  moreover have "gdb_ack t = t\<lparr>port_out := port_out s @ [Putc (ch CHR ''+'')]\<rparr>"
    using Nil by (simp add: gdb_ack_def gdb_port_putc_def t_def)
  moreover have "unread (t\<lparr>gdb_rxp := 0\<rparr>) = body w \<and> rx_wf (t\<lparr>gdb_rxp := 0\<rparr>)"
    unfolding t_def using Nil by (intro unread_received) (auto simp: wire_ok_def)
  ultimately show ?case
    by (intro exI [of _ "(gdb_ack t)\<lparr>gdb_rxp := 0\<rparr>"]) (simp add: unread_def rx_wf_def t_def received_def)
next
  case (Cons v vs)
  define r where "r = concat (map wire_chars vs) @ wire_chars w @ rest"
  define t where "t = gdb_nack (received v r s)"
  have t: "t = (received v r s)\<lparr>port_out := port_out s @ [Putc (ch CHR ''-'')]\<rparr>"
    using Cons by (simp add: t_def gdb_nack_def gdb_port_putc_def)
  have "gdb_rx_begin s = gdb_rx_begin t"
    using Cons rx_round_wire [of v s r] by (simp add: gdb_rx_begin.simps [of s] t_def r_def)
  moreover have "\<exists>s'. gdb_rx_begin t = Some (0, s') \<and> but_rx s' = but_rx t \<and> unread s' = body w \<and> rx_wf s' \<and> input s' = rest \<and>
    port_out s' = port_out t @ replicate (length vs) (Putc (ch CHR ''-'')) @ [Putc (ch CHR ''+'')]"
    using Cons.prems by (intro Cons.IH) (auto simp: t r_def received_def wire_ok_def GDB_BUFSZ_def)
  ultimately show ?case by (auto simp: t received_def)
qed

section \<open>Properties of the packet layer\<close>

text \<open>A stub with an empty receive buffer, for concrete examples.\<close>

definition idle_frame :: FGdbTrapframe where
  "idle_frame = \<lparr>tf_sp = 0, tf_lr = 0, tf_elr = 0, tf_spsr = 0, tf_esr = 0, tf_far = 0, tf_x = \<lambda>_. 0\<rparr>"

definition idle_monitor :: FGdbDebugMonitorState where
  "idle_monitor = \<lparr>dbg_enable_count = 0, dbg_flags = 2, dbg_bcr = \<lambda>_. 0, dbg_bvr = \<lambda>_. 0, dbg_wcr = \<lambda>_. 0, dbg_wvr = \<lambda>_. 0\<rparr>"

definition idle_hw :: dbg_hw where
  "idle_hw = \<lparr>mdscr_el1 = 0, daif = 0x3c0, far_el1 = 0, esr_el1 = 0, id_aa64dfr0_el1 = 0x305000, oslar_el1 = 0,
     dbgbvr = \<lambda>_. 0, dbgbcr = \<lambda>_. 0, dbgwvr = \<lambda>_. 0, dbgwcr = \<lambda>_. 0\<rparr>"

definition idle :: gdb_st where
  "idle = \<lparr>gdb_dbfeatures = 0, monitor = idle_monitor, dbg_watchpoint_num = 4, dbg_breakpoint_num = 6,
     gdb_sendpacket = False, dbbe_active = True, gdb_frame = idle_frame, gdb_listening = False, gdb_ackmode = True,
     gdb_bindata = replicate 64 0, gdb_rxbuf = replicate 4096 0, gdb_rxp = 0, gdb_rxsz = 0, gdb_txbuf = [],
     compiled_brk_process = False, hw = idle_hw, input = [], port_out = [], tmem = \<lambda>_. 0, use_newlib = True\<rparr>"


definition wire_g :: wire where "wire_g = \<lparr>noise = [], body = str ''g'', sum_hi = ch CHR ''6'', sum_lo = ch CHR ''7''\<rparr>"
definition wire_bad :: wire where "wire_bad = \<lparr>noise = str ''++'', body = str ''g'', sum_hi = ch CHR ''6'', sum_lo = ch CHR ''8''\<rparr>"

lemma wire_examples: "wire_ok wire_g" "wire_ok wire_bad" "sum_ok wire_g" "\<not> sum_ok wire_bad"
  by (simp_all add: wire_g_def wire_bad_def wire_ok_def sum_ok_def sum32_def C2N_def GDB_BUFSZ_def)

lemma idle_simps: "gdb_ackmode idle" "length (gdb_rxbuf idle) = GDB_BUFSZ" "port_out idle = []" "\<not> gdb_sendpacket idle"
  by (simp_all add: idle_def GDB_BUFSZ_def)


text \<open>The checksum that is sent is the checksum that is expected.\<close>

lemma sum_ok_digits:
  "sum_hi w = N2C (drop_bit 4 (sum_list (body w))) \<Longrightarrow> sum_lo w = N2C (sum_list (body w) AND 0x0f) \<Longrightarrow> sum_ok w"
  unfolding sum_ok_def by (simp only: digits_of join_digits sum32_byte)

text \<open>
  C17: A packet sent by \<open>gdb_tx_end\<close> through the character port is received by \<open>gdb_rx_begin\<close>: the
  checksum is accepted and the body, with the run-length encoding undone, is the text that was
  put in the transmit buffer.
\<close>
theorem frame_roundtrip:
  assumes "ch CHR ''*'' \<notin> set p" "ch CHR ''$'' \<notin> set p" "ch CHR ''#'' \<notin> set p" "length p < GDB_BUFSZ - 1"
    "input s = rle_frame p @ rest" "gdb_ackmode s" "length (gdb_rxbuf s) = GDB_BUFSZ"
  shows "\<exists>s'. gdb_rx_begin s = Some (0, s') \<and> rle_decode (unread s') = p \<and> input s' = rest \<and> but_rx s' = but_rx s \<and>
    port_out s' = port_out s @ [Putc (ch CHR ''+'')]"
proof -
  define w where "w = \<lparr>noise = [], body = rle_bytes p, sum_hi = N2C (drop_bit 4 (sum_list (rle_bytes p))),
    sum_lo = N2C (sum_list (rle_bytes p) AND 0x0f)\<rparr>"
  have "wire_ok w" using assms rle_bytes_delimiters(2) [of p] length_rle_bytes [of p] by (simp add: w_def wire_ok_def)
  moreover have "sum_ok w" by (rule sum_ok_digits) (simp_all add: w_def)
  moreover have "input s = concat (map wire_chars []) @ wire_chars w @ rest"
    using assms by (simp add: rle_frame_eq wire_chars_def w_def)
  ultimately obtain s' where "gdb_rx_begin s = Some (0, s')" "unread s' = rle_bytes p" "input s' = rest" "but_rx s' = but_rx s"
      "port_out s' = port_out s @ [Putc (ch CHR ''+'')]"
    using rx_begin_wires [of "[]" w s rest] assms by (auto simp: w_def)
  then show ?thesis using rle_decode_rle_bytes [OF assms(1)] by auto
qed

theorem frame_roundtrip_witness:
  "\<exists>s'. gdb_rx_begin (idle\<lparr>input := rle_frame (str ''000000000000ff'')\<rparr>) = Some (0, s') \<and>
    rle_decode (unread s') = str ''000000000000ff'' \<and> port_out s' = [Putc (ch CHR ''+'')]"
  using frame_roundtrip [of "str ''000000000000ff''" "idle\<lparr>input := rle_frame (str ''000000000000ff'')\<rparr>" "[]"]
  by (fastforce simp: idle_simps GDB_BUFSZ_def)

text \<open>
  \<open>gdb_tx_end\<close> sends the packet once for every character other than a plus sign that comes back,
  and once more; it returns on the first plus sign, and the frame that is repeated is always the
  same.
\<close>
theorem tx_end_retransmits:
  assumes "ch CHR ''+'' \<notin> set ks" "input s = ks @ ch CHR ''+'' # rest" "gdb_ackmode s" "\<not> gdb_sendpacket s"
  shows "gdb_tx_end s = Some (s\<lparr>input := rest,
    port_out := port_out s @ concat (replicate (length ks + 1) (map Putc (rle_frame (gdb_txbuf s))))\<rparr>)"
  using assms
proof (induction ks arbitrary: s)
  case Nil
  then show ?case by (simp add: gdb_tx_end.simps [of s] tx_once_def)
next
  case (Cons k ks)
  then show ?case by (simp add: gdb_tx_end.simps [of s] tx_once_def)
qed

theorem tx_end_retransmits_witness:
  "map_option port_out (gdb_tx_end (idle\<lparr>gdb_txbuf := str ''OK'', input := str ''-+''\<rparr>)) =
    Some (map Putc (str ''$OK#9a$OK#9a''))"
  using tx_end_retransmits [of "str ''-''" "idle\<lparr>gdb_txbuf := str ''OK'', input := str ''-+''\<rparr>" "[]"]
  by (simp add: idle_simps rle_frame_eq run_bytes.simps N2C_def)

end
