(* ===== verification/GdbParse.thy ===== *)
theory GdbParse
  imports GdbPacketProps
begin

text \<open>
  Taking a packet apart: the functions that read from the receive buffer in terms of the text that is
  still unread, \<open>unread\<close>, and the position \<open>adv\<close>; numbers are printed and read back.
\<close>

section \<open>Characters\<close>

definition adv :: "nat \<Rightarrow> gdb_st \<Rightarrow> gdb_st" where
  "adv n s = s\<lparr>gdb_rxp := gdb_rxp s + n, gdb_rxsz := gdb_rxsz s - n\<rparr>"

lemma adv_alt: "adv n s = s\<lparr>gdb_rxsz := gdb_rxsz s - n, gdb_rxp := gdb_rxp s + n\<rparr>"
  by (rule gdb_st.equality) (simp_all add: adv_def)

lemma adv_adv [simp]: "adv m (adv n s) = adv (n + m) s"
  by (simp add: adv_def)

lemma adv_0 [simp]: "adv 0 s = s"
  by (simp add: adv_def)

lemma adv_simps [simp]:
  "gdb_rxbuf (adv n s) = gdb_rxbuf s" "gdb_rxp (adv n s) = gdb_rxp s + n" "gdb_rxsz (adv n s) = gdb_rxsz s - n"
  "input (adv n s) = input s" "port_out (adv n s) = port_out s" "gdb_ackmode (adv n s) = gdb_ackmode s"
  "tmem (adv n s) = tmem s" "gdb_frame (adv n s) = gdb_frame s" "monitor (adv n s) = monitor s" "hw (adv n s) = hw s"
  "gdb_sendpacket (adv n s) = gdb_sendpacket s" "use_newlib (adv n s) = use_newlib s" "but_rx (adv n s) = but_rx s"
  "dbg_watchpoint_num (adv n s) = dbg_watchpoint_num s" "dbg_breakpoint_num (adv n s) = dbg_breakpoint_num s"
  "gdb_dbfeatures (adv n s) = gdb_dbfeatures s" "dbbe_active (adv n s) = dbbe_active s" "gdb_listening (adv n s) = gdb_listening s"
  "gdb_bindata (adv n s) = gdb_bindata s" "gdb_txbuf (adv n s) = gdb_txbuf s" "compiled_brk_process (adv n s) = compiled_brk_process s"
  by (simp_all add: adv_def)

lemma rx_wf_adv [simp]: "rx_wf s \<Longrightarrow> n \<le> gdb_rxsz s \<Longrightarrow> rx_wf (adv n s)"
  by (simp add: rx_wf_def)

lemma unread_adv [simp]: "unread (adv n s) = drop n (unread s)"
  by (simp add: unread_def drop_take add.commute)

lemma length_unread: "rx_wf s \<Longrightarrow> length (unread s) = gdb_rxsz s"
  by (auto simp: unread_def rx_wf_def)

lemma rx_char_Cons:
  assumes "rx_wf s" "unread s = c # cs"
  shows "gdb_rx_char s = (Some c, adv 1 s)"
proof -
  have "gdb_rxsz s > 0" using length_unread [OF assms(1)] assms(2) by simp
  moreover have "gdb_rxbuf s ! gdb_rxp s = unread s ! 0"
    using assms(1) \<open>gdb_rxsz s > 0\<close> by (simp add: unread_def rx_wf_def)
  ultimately show ?thesis using assms(2) by (simp add: gdb_rx_char_def adv_def)
qed

lemma rx_char_Nil: "rx_wf s \<Longrightarrow> unread s = [] \<Longrightarrow> gdb_rx_char s = (None, s)"
  using length_unread [of s] by (simp add: gdb_rx_char_def)

section \<open>Numbers\<close>

definition hexval :: "u64 \<Rightarrow> u8 list \<Rightarrow> u64" where
  "hexval = foldl (\<lambda>v c. push_bit 4 v + ucast (C2N c))"

lemma hexval_simps [simp]:
  "hexval v [] = v" "hexval v (c # cs) = hexval (push_bit 4 v + ucast (C2N c)) cs"
  "hexval v (cs @ ds) = hexval (hexval v cs) ds"
  by (simp_all add: hexval_def)

definition no_digit :: "u8 list \<Rightarrow> bool" where
  "no_digit r \<longleftrightarrow> (case r of [] \<Rightarrow> True | c # _ \<Rightarrow> \<not> isxdigit c)"

lemma no_digit_simps [simp]: "no_digit []" "no_digit (c # r) \<longleftrightarrow> \<not> isxdigit c"
  by (simp_all add: no_digit_def)

text \<open>The loop stops one character after the number, if there is one.\<close>

lemma varhex_loop_text:
  assumes "rx_wf s" "unread s = ds @ r" "list_all isxdigit ds" "no_digit r"
  shows "varhex_loop v d s = (hexval v (d # ds), if r = [] then None else Some (hd r), adv (length ds + min 1 (length r)) s)"
  using assms
proof (induction ds arbitrary: v d s)
  case Nil
  show ?case
  proof (cases r)
    case Nil
    then show ?thesis using Nil.prems by (simp add: varhex_loop.simps [of v d s] rx_char_Nil)
  next
    case (Cons c cs)
    then show ?thesis using Nil.prems by (simp add: varhex_loop.simps [of v d s] rx_char_Cons [of s c cs])
  qed
next
  case (Cons c ds)
  have c: "gdb_rx_char s = (Some c, adv 1 s)" using Cons.prems by (intro rx_char_Cons) simp_all
  have "1 \<le> gdb_rxsz s" using Cons.prems length_unread [of s] by simp
  then have "varhex_loop (push_bit 4 v + ucast (C2N d)) c (adv 1 s) =
      (hexval (push_bit 4 v + ucast (C2N d)) (c # ds), if r = [] then None else Some (hd r),
       adv (length ds + min 1 (length r)) (adv 1 s))"
    using Cons.prems by (intro Cons.IH) simp_all
  then show ?case using c Cons.prems by (simp add: varhex_loop.simps [of v d s])
qed

lemma isxdigit_not_minus: "isxdigit d \<Longrightarrow> d \<noteq> ch CHR ''-''"
  by (auto simp: isxdigit_def isdigit_def)

lemma rx_varhex_text:
  assumes "rx_wf s" "unread s = ds @ r" "list_all isxdigit ds" "ds \<noteq> []" "no_digit r"
  shows "gdb_rx_varhex s = (Some (hexval 0 ds), adv (length ds) s)"
proof -
  obtain d ds' where ds: "ds = d # ds'" using assms(4) by (cases ds) auto
  have len: "gdb_rxsz s = Suc (length ds') + length r" using assms length_unread [of s] by (simp add: ds)
  have c: "gdb_rx_char s = (Some d, adv 1 s)" using assms by (intro rx_char_Cons) (simp_all add: ds)
  have "varhex_loop 0 d (adv 1 s) =
      (hexval 0 (d # ds'), if r = [] then None else Some (hd r), adv (length ds' + min 1 (length r)) (adv 1 s))"
    using assms len by (intro varhex_loop_text) (simp_all add: ds)
  moreover have "d \<noteq> ch CHR ''-''" "isxdigit d" using assms isxdigit_not_minus [of d] by (simp_all add: ds)
  ultimately show ?thesis using c len
    by (cases r) (simp_all add: gdb_rx_varhex_def ds Let_def adv_def)
qed

text \<open>What is not a number is left in the buffer.\<close>

lemma rx_varhex_none:
  assumes "rx_wf s" "unread s = r" "no_digit r" "r = [] \<or> hd r \<noteq> ch CHR ''-''"
  shows "gdb_rx_varhex s = (None, s)"
proof (cases r)
  case Nil
  then show ?thesis using assms by (simp add: gdb_rx_varhex_def rx_char_Nil)
next
  case (Cons c cs)
  then have "gdb_rxsz s > 0" using assms length_unread [of s] by auto
  then show ?thesis using assms Cons by (simp add: gdb_rx_varhex_def rx_char_Cons [of s c cs] adv_def)
qed

section \<open>Printing numbers\<close>

definition hex_digit :: "u64 \<Rightarrow> u8" where
  "hex_digit n = str ''0123456789abcdef'' ! unat n"

lemma hex_digit_lemma:
  assumes "n < 16"
  shows "C2N (hex_digit n) = ucast n \<and> isxdigit (hex_digit n) \<and> (hex_digit n = ch CHR ''0'' \<longleftrightarrow> n = 0)"
proof -
  have all: "list_all (\<lambda>k. C2N (hex_digit (of_nat k)) = ucast (of_nat k :: u64) \<and> isxdigit (hex_digit (of_nat k)) \<and>
      (hex_digit (of_nat k) = ch CHR ''0'' \<longleftrightarrow> of_nat k = (0 :: u64))) [0..<16]"
    by code_simp
  from assms have "unat n < 16" by (simp add: word_less_nat_alt)
  moreover have "of_nat (unat n) = n" by simp
  ultimately show ?thesis using all unfolding list_all_iff by (metis atLeastLessThan_iff le0 set_upt)
qed

lemma low_digit_less: "n AND 0xF < (16 :: u64)"
proof -
  have "n AND 0xF \<le> 0xF" by (rule word_and_le1)
  then show ?thesis by (simp add: word_le_nat_alt word_less_nat_alt)
qed

lemma uintmax_to_hex_Suc: "uintmax_to_hex n (Suc i) = uintmax_to_hex (drop_bit 4 n) i @ [hex_digit (n AND 0xF)]"
  by (simp only: uintmax_to_hex.simps hex_digit_def)

lemma hexval_uintmax_to_hex: "hexval 0 (uintmax_to_hex n k) = take_bit (4 * k) n"
proof (induction k arbitrary: n)
  case (Suc k)
  have "hexval 0 (uintmax_to_hex n (Suc k)) = push_bit 4 (take_bit (4 * k) (drop_bit 4 n)) + ucast (ucast (n AND 0xF) :: u32)"
    using hex_digit_lemma [OF low_digit_less [of n]] by (simp only: uintmax_to_hex_Suc hexval_simps Suc)
  also have "(0xF :: u64) = mask 4" by (simp add: mask_eq_exp_minus_1)
  also have "push_bit 4 (take_bit (4 * k) (drop_bit 4 n)) + ucast (ucast (n AND mask 4) :: u32) =
      push_bit 4 (take_bit (4 * k) (drop_bit 4 n)) OR (ucast (ucast (n AND mask 4) :: u32) :: u64)"
    by (rule disjunctive_add) (auto simp: bit_simps)
  also have "\<dots> = take_bit (4 * Suc k) n"
    by (rule bit_word_eqI) (auto simp: bit_simps)
  finally show ?case .
qed simp

lemma xdigits_uintmax_to_hex: "list_all isxdigit (uintmax_to_hex n k)"
proof (induction k arbitrary: n)
  case (Suc k)
  then show ?case using hex_digit_lemma [OF low_digit_less [of n]] by (simp only: uintmax_to_hex_Suc) simp
qed simp

lemma length_uintmax_to_hex [simp]: "length (uintmax_to_hex n k) = k"
  by (induction k arbitrary: n) simp_all

lemma strip_zeros_lemma: "cs \<noteq> [] \<Longrightarrow> list_all isxdigit cs \<Longrightarrow>
    strip_zeros cs \<noteq> [] \<and> list_all isxdigit (strip_zeros cs) \<and> hexval 0 (strip_zeros cs) = hexval 0 cs \<and>
    length (strip_zeros cs) \<le> length cs"
  by (induction cs rule: strip_zeros.induct) (auto simp: C2N_def)

lemma jx_lemma: "jx v \<noteq> []" "list_all isxdigit (jx v)" "hexval 0 (jx v) = v" "length (jx v) \<le> 16"
proof -
  have "uintmax_to_hex v 16 \<noteq> []" using length_uintmax_to_hex [of v 16] by fastforce
  moreover have "hexval 0 (uintmax_to_hex v 16) = v"
    using hexval_uintmax_to_hex [of v 16] take_bit_word_eq_self [of 64 v] by simp
  ultimately show "jx v \<noteq> []" "list_all isxdigit (jx v)" "hexval 0 (jx v) = v" "length (jx v) \<le> 16"
    using strip_zeros_lemma [OF _ xdigits_uintmax_to_hex [of v 16]] unfolding jx_def by auto
qed

lemma rx_varhex_jx:
  "rx_wf s \<Longrightarrow> unread s = jx v @ r \<Longrightarrow> no_digit r \<Longrightarrow> gdb_rx_varhex s = (Some v, adv (length (jx v)) s)"
  using rx_varhex_text [of s "jx v" r] jx_lemma [of v] by simp

end
