(* ===== verification/GdbArch.thy ===== *)
theory GdbArch
  imports Gdb
begin

text \<open>
  The processor side of the debugger stub, \<^verbatim>\<open>aarch64/gdb/fgdb_arch.c\<close>: registers of the
  interrupted context, hardware breakpoints and watchpoints, single stepping. The debug registers
  are the record \<open>hw\<close>; a special register is read and written like a variable and the instruction
  barriers have no effect on it.
\<close>

section \<open>Constants\<close>

definition EBUSY :: int where [const_defs]: "EBUSY = 16"
definition EINVAL :: int where [const_defs]: "EINVAL = 22"
definition EIO :: int where [const_defs]: "EIO = 5"

definition DBGMON_ENABLED :: u32 where [const_defs]: "DBGMON_ENABLED = 1"
definition DBGMON_KERNEL :: u32 where [const_defs]: "DBGMON_KERNEL = 2"

definition BREAK_INSTR_SIZE :: u64 where [const_defs]: "BREAK_INSTR_SIZE = 4"
definition ESR_ELx_BRK64_ISS_COMMENT_MASK :: u64 where [const_defs]: "ESR_ELx_BRK64_ISS_COMMENT_MASK = 0xFFFF"
definition GDB_COMPILED_DBG_BRK_IMM :: u64 where [const_defs]: "GDB_COMPILED_DBG_BRK_IMM = 0x401"
definition ID_AA64DFR0_BRPs_VAL :: "u64 \<Rightarrow> nat" where "ID_AA64DFR0_BRPs_VAL x = unat ((drop_bit 12 x AND 0xf) + 1)"
definition ID_AA64DFR0_WRPs_VAL :: "u64 \<Rightarrow> nat" where "ID_AA64DFR0_WRPs_VAL x = unat ((drop_bit 20 x AND 0xf) + 1)"

definition PSR_F :: u64 where [const_defs]: "PSR_F = 0x40"
definition PSR_I :: u64 where [const_defs]: "PSR_I = 0x80"
definition PSR_A :: u64 where [const_defs]: "PSR_A = 0x100"
definition PSR_D :: u64 where [const_defs]: "PSR_D = 0x200"
definition PSR_DAIF :: u64 where [const_defs]: "PSR_DAIF = PSR_D OR PSR_A OR PSR_I OR PSR_F"
definition PSR_SS :: u64 where [const_defs]: "PSR_SS = 0x200000"

definition EXCP_BRKPT_EL1 :: int where [const_defs]: "EXCP_BRKPT_EL1 = 0x31"
definition EXCP_SOFTSTP_EL1 :: int where [const_defs]: "EXCP_SOFTSTP_EL1 = 0x33"
definition EXCP_WATCHPT_EL1 :: int where [const_defs]: "EXCP_WATCHPT_EL1 = 0x35"
definition EXCP_BRK :: int where [const_defs]: "EXCP_BRK = 0x3c"
definition SIGTRAP :: u64 where [const_defs]: "SIGTRAP = 5"
definition SIGEMT :: u64 where [const_defs]: "SIGEMT = 7"

definition GDB_NREGS :: nat where [const_defs]: "GDB_NREGS = 68"
definition GDB_REG_X0 :: int where [const_defs]: "GDB_REG_X0 = 0"
definition GDB_REG_X29 :: int where [const_defs]: "GDB_REG_X29 = 29"
definition GDB_REG_LR :: int where [const_defs]: "GDB_REG_LR = 30"
definition GDB_REG_SP :: int where [const_defs]: "GDB_REG_SP = 31"
definition GDB_REG_PC :: int where [const_defs]: "GDB_REG_PC = 32"
definition GDB_REG_CSPR :: int where [const_defs]: "GDB_REG_CSPR = 33"
definition GDB_REG_V0 :: int where [const_defs]: "GDB_REG_V0 = 34"
definition GDB_REG_V31 :: int where [const_defs]: "GDB_REG_V31 = 65"
definition GDB_REG_FPSR :: int where [const_defs]: "GDB_REG_FPSR = 66"
definition GDB_REG_FPCR :: int where [const_defs]: "GDB_REG_FPCR = 67"

definition DBG_WATCH_CTRL_LEN_1 :: u64 where [const_defs]: "DBG_WATCH_CTRL_LEN_1 = push_bit 5 0x1"
definition DBG_WATCH_CTRL_LEN_2 :: u64 where [const_defs]: "DBG_WATCH_CTRL_LEN_2 = push_bit 5 0x3"
definition DBG_WATCH_CTRL_LEN_4 :: u64 where [const_defs]: "DBG_WATCH_CTRL_LEN_4 = push_bit 5 0xf"
definition DBG_WATCH_CTRL_LEN_8 :: u64 where [const_defs]: "DBG_WATCH_CTRL_LEN_8 = push_bit 5 0xff"
definition DBG_WATCH_CTRL_EXEC :: u64 where [const_defs]: "DBG_WATCH_CTRL_EXEC = push_bit 3 0x0"
definition DBG_WATCH_CTRL_LOAD :: u64 where [const_defs]: "DBG_WATCH_CTRL_LOAD = push_bit 3 0x1"
definition DBG_WATCH_CTRL_STORE :: u64 where [const_defs]: "DBG_WATCH_CTRL_STORE = push_bit 3 0x2"
definition DBG_WB_CTRL_EL1 :: u64 where [const_defs]: "DBG_WB_CTRL_EL1 = push_bit 1 0x1"
definition DBG_WB_CTRL_E :: u64 where [const_defs]: "DBG_WB_CTRL_E = 0x1"

definition DBG_REG_BASE_BVR :: nat where [const_defs]: "DBG_REG_BASE_BVR = 0"
definition DBG_REG_BASE_BCR :: nat where [const_defs]: "DBG_REG_BASE_BCR = DBG_REG_BASE_BVR + 16"
definition DBG_REG_BASE_WVR :: nat where [const_defs]: "DBG_REG_BASE_WVR = DBG_REG_BASE_BCR + 16"
definition DBG_REG_BASE_WCR :: nat where [const_defs]: "DBG_REG_BASE_WCR = DBG_REG_BASE_WVR + 16"

definition MDSCR_SS :: u64 where [const_defs]: "MDSCR_SS = 0x1"
definition MDSCR_KDE :: u64 where [const_defs]: "MDSCR_KDE = push_bit 13 0x1"
definition MDSCR_MDE :: u64 where [const_defs]: "MDSCR_MDE = push_bit 15 0x1"

text \<open>Access types and kinds of debug registers are enumerations.\<close>

datatype FGdbDebugAccessType = HW_BREAKPOINT_X | HW_BREAKPOINT_R | HW_BREAKPOINT_W | HW_BREAKPOINT_RW
datatype FGdbBreakType = DBG_TYPE_BREAKPOINT | DBG_TYPE_WATCHPOINT

definition KDB_DBG_ACCESS_R :: nat where [const_defs]: "KDB_DBG_ACCESS_R = 1"
definition KDB_DBG_ACCESS_W :: nat where [const_defs]: "KDB_DBG_ACCESS_W = 2"
definition KDB_DBG_ACCESS_RW :: nat where [const_defs]: "KDB_DBG_ACCESS_RW = 3"

section \<open>Registers of the interrupted context\<close>

definition gdb_cpu_regsz :: "int \<Rightarrow> nat" where
  "gdb_cpu_regsz regnum =
    (if regnum = GDB_REG_CSPR \<or> regnum = GDB_REG_FPSR \<or> regnum = GDB_REG_FPCR then 4
     else if regnum \<ge> GDB_REG_V0 \<and> regnum \<le> GDB_REG_V31 then 16
     else 8)"

text \<open>The value a register is sent from; nothing for a null pointer.\<close>

definition gdb_cpu_getreg :: "gdb_st \<Rightarrow> int \<Rightarrow> u64 option" where
  "gdb_cpu_getreg s regnum =
    (let f = gdb_frame s in
     if regnum = GDB_REG_LR then Some (tf_lr f)
     else if regnum = GDB_REG_SP then Some (tf_sp f)
     else if regnum = GDB_REG_PC then Some (tf_elr f)
     else if regnum = GDB_REG_CSPR then Some (tf_spsr f)
     else if regnum \<ge> GDB_REG_X0 \<and> regnum \<le> GDB_REG_X29 then Some (tf_x f (nat (regnum - GDB_REG_X0)))
     else None)"

definition set_frame :: "(FGdbTrapframe \<Rightarrow> FGdbTrapframe) \<Rightarrow> gdb_st \<Rightarrow> gdb_st" where
  "set_frame f s = s\<lparr>gdb_frame := f (gdb_frame s)\<rparr>"

definition gdb_cpu_setreg :: "int \<Rightarrow> u64 \<Rightarrow> gdb_st \<Rightarrow> gdb_st" where
  "gdb_cpu_setreg regnum regval s =
    (if regnum = GDB_REG_PC then set_frame (\<lambda>f. f\<lparr>tf_elr := regval\<rparr>) s
     else if regnum = GDB_REG_SP then set_frame (\<lambda>f. f\<lparr>tf_sp := regval\<rparr>) s
     else if regnum \<ge> GDB_REG_X0 \<and> regnum \<le> GDB_REG_X29
     then set_frame (\<lambda>f. f\<lparr>tf_x := (tf_x f)(nat regnum := regval)\<rparr>) s
     else s)"

text \<open>Memory is little endian.\<close>

definition le_bytes :: "nat \<Rightarrow> u64 \<Rightarrow> u8 list" where
  "le_bytes n v = map (\<lambda>k. ucast (drop_bit (8 * k) v)) [0..<n]"

primrec le_word :: "u8 list \<Rightarrow> u64" where
  "le_word [] = 0"
| "le_word (b # bs) = ucast b OR push_bit 8 (le_word bs)"

definition gdb_tx_reg :: "int \<Rightarrow> gdb_st \<Rightarrow> gdb_st option" where
  "gdb_tx_reg regnum s =
    (case gdb_cpu_getreg s regnum of
       None \<Rightarrow> gdb_tx_str (replicate (2 * gdb_cpu_regsz regnum) (ch CHR ''x'')) s
     | Some v \<Rightarrow> gdb_tx_mem (le_bytes (gdb_cpu_regsz regnum) v) s)"

definition gdb_cpu_signal :: "int \<Rightarrow> u64" where
  "gdb_cpu_signal tp =
    (if tp = EXCP_WATCHPT_EL1 \<or> tp = EXCP_SOFTSTP_EL1 \<or> tp = EXCP_BRKPT_EL1 \<or> tp = EXCP_BRK then SIGTRAP else SIGEMT)"

definition gdb_cpu_stop_reason :: "int \<Rightarrow> gdb_st \<Rightarrow> gdb_st option" where
  "gdb_cpu_stop_reason tp s =
    (if tp = EXCP_WATCHPT_EL1
     then do {
       s \<leftarrow> gdb_tx_str (str ''watch:'') s;
       s \<leftarrow> gdb_tx_varhex (far_el1 (hw s)) s;
       gdb_tx_char (ch CHR '';'') s
     }
     else Some s)"

section \<open>Breakpoints and watchpoints\<close>

definition set_hw :: "(dbg_hw \<Rightarrow> dbg_hw) \<Rightarrow> gdb_st \<Rightarrow> gdb_st" where
  "set_hw f s = s\<lparr>hw := f (hw s)\<rparr>"

definition set_mon :: "(FGdbDebugMonitorState \<Rightarrow> FGdbDebugMonitorState) \<Rightarrow> gdb_st \<Rightarrow> gdb_st" where
  "set_mon f s = s\<lparr>monitor := f (monitor s)\<rparr>"

definition dbg_wb_write_reg :: "nat \<Rightarrow> nat \<Rightarrow> u64 \<Rightarrow> gdb_st \<Rightarrow> gdb_st" where
  "dbg_wb_write_reg reg n val s =
    (let i = reg + n in
     if DBG_REG_BASE_WVR \<le> i \<and> i < DBG_REG_BASE_WVR + 16
     then set_hw (\<lambda>h. h\<lparr>dbgwvr := (dbgwvr h)(i - DBG_REG_BASE_WVR := val)\<rparr>) s
     else if DBG_REG_BASE_WCR \<le> i \<and> i < DBG_REG_BASE_WCR + 16
     then set_hw (\<lambda>h. h\<lparr>dbgwcr := (dbgwcr h)(i - DBG_REG_BASE_WCR := val)\<rparr>) s
     else if DBG_REG_BASE_BVR \<le> i \<and> i < DBG_REG_BASE_BVR + 16
     then set_hw (\<lambda>h. h\<lparr>dbgbvr := (dbgbvr h)(i - DBG_REG_BASE_BVR := val)\<rparr>) s
     else if DBG_REG_BASE_BCR \<le> i \<and> i < DBG_REG_BASE_BCR + 16
     then set_hw (\<lambda>h. h\<lparr>dbgbcr := (dbgbcr h)(i - DBG_REG_BASE_BCR := val)\<rparr>) s
     else s)"

definition dbg_find_free_slot :: "gdb_st \<Rightarrow> FGdbBreakType \<Rightarrow> nat option" where
  "dbg_find_free_slot s tp =
    (let (n, reg) = (case tp of DBG_TYPE_BREAKPOINT \<Rightarrow> (dbg_breakpoint_num s, dbg_bcr (monitor s))
                              | DBG_TYPE_WATCHPOINT \<Rightarrow> (dbg_watchpoint_num s, dbg_wcr (monitor s)))
     in find (\<lambda>i. reg i AND DBG_WB_CTRL_E = 0) [0..<n])"

definition dbg_find_slot :: "gdb_st \<Rightarrow> FGdbBreakType \<Rightarrow> u64 \<Rightarrow> nat option" where
  "dbg_find_slot s tp addr =
    (let (n, reg_addr, reg_ctrl) =
           (case tp of DBG_TYPE_BREAKPOINT \<Rightarrow> (dbg_breakpoint_num s, dbg_bvr (monitor s), dbg_bcr (monitor s))
                     | DBG_TYPE_WATCHPOINT \<Rightarrow> (dbg_watchpoint_num s, dbg_wvr (monitor s), dbg_wcr (monitor s)))
     in find (\<lambda>i. reg_addr i = addr \<and> reg_ctrl i AND DBG_WB_CTRL_E \<noteq> 0) [0..<n])"

definition dbg_register_sync :: "gdb_st \<Rightarrow> gdb_st" where
  "dbg_register_sync s =
    (let s = fold (\<lambda>i s. dbg_wb_write_reg DBG_REG_BASE_BVR i (dbg_bvr (monitor s) i)
                        (dbg_wb_write_reg DBG_REG_BASE_BCR i (dbg_bcr (monitor s) i) s)) [0..<dbg_breakpoint_num s] s;
         s = fold (\<lambda>i s. dbg_wb_write_reg DBG_REG_BASE_WVR i (dbg_wvr (monitor s) i)
                        (dbg_wb_write_reg DBG_REG_BASE_WCR i (dbg_wcr (monitor s) i) s)) [0..<dbg_watchpoint_num s] s;
         mdscr = mdscr_el1 (hw s);
         mdscr = (if dbg_flags (monitor s) AND DBGMON_ENABLED = 0 then mdscr AND NOT (MDSCR_MDE OR MDSCR_KDE)
                  else let mdscr = mdscr OR MDSCR_MDE
                       in if dbg_flags (monitor s) AND DBGMON_KERNEL = DBGMON_KERNEL then mdscr OR MDSCR_KDE else mdscr)
     in set_hw (\<lambda>h. h\<lparr>mdscr_el1 := mdscr\<rparr>) s)"

definition wcr_size_of :: "u64 \<Rightarrow> u64 option" where
  "wcr_size_of sz =
    (if sz = 1 then Some DBG_WATCH_CTRL_LEN_1 else if sz = 2 then Some DBG_WATCH_CTRL_LEN_2
     else if sz = 4 then Some DBG_WATCH_CTRL_LEN_4 else if sz = 8 then Some DBG_WATCH_CTRL_LEN_8 else None)"

definition wcr_access_of :: "FGdbDebugAccessType \<Rightarrow> u64" where
  "wcr_access_of access = (case access of
      HW_BREAKPOINT_X \<Rightarrow> DBG_WATCH_CTRL_EXEC
    | HW_BREAKPOINT_R \<Rightarrow> DBG_WATCH_CTRL_LOAD
    | HW_BREAKPOINT_W \<Rightarrow> DBG_WATCH_CTRL_STORE
    | HW_BREAKPOINT_RW \<Rightarrow> DBG_WATCH_CTRL_LOAD OR DBG_WATCH_CTRL_STORE)"

definition dbg_setup_watchpoint :: "u64 \<Rightarrow> u64 \<Rightarrow> FGdbDebugAccessType \<Rightarrow> gdb_st \<Rightarrow> int \<times> gdb_st" where
  "dbg_setup_watchpoint addr sz access s =
    (case dbg_find_free_slot s DBG_TYPE_WATCHPOINT of
       None \<Rightarrow> (EBUSY, s)
     | Some i \<Rightarrow> (case wcr_size_of sz of
         None \<Rightarrow> (EINVAL, s)
       | Some wcr_size \<Rightarrow>
           let s = set_mon (\<lambda>m. m\<lparr>dbg_wvr := (dbg_wvr m)(i := addr),
                     dbg_wcr := (dbg_wcr m)(i := wcr_size OR wcr_access_of access OR DBG_WB_CTRL_EL1 OR DBG_WB_CTRL_E),
                     dbg_enable_count := dbg_enable_count m + 1,
                     dbg_flags := dbg_flags m OR DBGMON_ENABLED\<rparr>) s
           in (0, dbg_register_sync s)))"

text \<open>The common end of removing a breakpoint or a watchpoint.\<close>

definition drop_enable :: "FGdbDebugMonitorState \<Rightarrow> FGdbDebugMonitorState" where
  "drop_enable m =
    (let m = m\<lparr>dbg_enable_count := dbg_enable_count m - 1\<rparr>
     in if dbg_enable_count m = 0 then m\<lparr>dbg_flags := dbg_flags m AND NOT DBGMON_ENABLED\<rparr> else m)"

definition dbg_remove_watchpoint :: "u64 \<Rightarrow> u64 \<Rightarrow> gdb_st \<Rightarrow> int \<times> gdb_st" where
  "dbg_remove_watchpoint addr sz s =
    (case dbg_find_slot s DBG_TYPE_WATCHPOINT addr of
       None \<Rightarrow> (EINVAL, s)
     | Some i \<Rightarrow> (0, dbg_register_sync (set_mon (\<lambda>m. drop_enable
         (m\<lparr>dbg_wvr := (dbg_wvr m)(i := 0), dbg_wcr := (dbg_wcr m)(i := 0)\<rparr>)) s)))"

definition kdb_cpu_set_watchpoint :: "u64 \<Rightarrow> u64 \<Rightarrow> nat \<Rightarrow> gdb_st \<Rightarrow> int \<times> gdb_st" where
  "kdb_cpu_set_watchpoint addr sz access s =
    (if access = KDB_DBG_ACCESS_R then dbg_setup_watchpoint addr sz HW_BREAKPOINT_R s
     else if access = KDB_DBG_ACCESS_W then dbg_setup_watchpoint addr sz HW_BREAKPOINT_W s
     else if access = KDB_DBG_ACCESS_RW then dbg_setup_watchpoint addr sz HW_BREAKPOINT_RW s
     else (EINVAL, s))"

definition kdb_cpu_clr_watchpoint :: "u64 \<Rightarrow> u64 \<Rightarrow> gdb_st \<Rightarrow> int \<times> gdb_st" where
  "kdb_cpu_clr_watchpoint = dbg_remove_watchpoint"

definition kdb_cpu_set_hwbreakpoint :: "u64 \<Rightarrow> u64 \<Rightarrow> gdb_st \<Rightarrow> int \<times> gdb_st" where
  "kdb_cpu_set_hwbreakpoint addr sz s =
    (case dbg_find_free_slot s DBG_TYPE_BREAKPOINT of
       None \<Rightarrow> (EBUSY, s)
     | Some i \<Rightarrow> (case wcr_size_of sz of
         None \<Rightarrow> (EINVAL, s)
       | Some bcr_size \<Rightarrow>
           let s = set_mon (\<lambda>m. m\<lparr>dbg_bvr := (dbg_bvr m)(i := addr),
                     dbg_bcr := (dbg_bcr m)(i := bcr_size OR DBG_WB_CTRL_EL1 OR DBG_WB_CTRL_E),
                     dbg_enable_count := dbg_enable_count m + 1,
                     dbg_flags := dbg_flags m OR DBGMON_ENABLED\<rparr>) s
           in (0, dbg_register_sync s)))"

definition kdb_cpu_clr_hwbreakpoint :: "u64 \<Rightarrow> u64 \<Rightarrow> gdb_st \<Rightarrow> int \<times> gdb_st" where
  "kdb_cpu_clr_hwbreakpoint addr sz s =
    (case dbg_find_slot s DBG_TYPE_BREAKPOINT addr of
       None \<Rightarrow> (EINVAL, s)
     | Some i \<Rightarrow> (0, dbg_register_sync (set_mon (\<lambda>m. drop_enable
         (m\<lparr>dbg_bvr := (dbg_bvr m)(i := 0), dbg_bcr := (dbg_bcr m)(i := 0)\<rparr>)) s)))"

section \<open>Single stepping\<close>

definition skip_compiled_brk :: "gdb_st \<Rightarrow> gdb_st" where
  "skip_compiled_brk s =
    (if compiled_brk_process s
     then (set_frame (\<lambda>f. f\<lparr>tf_elr := tf_elr f + BREAK_INSTR_SIZE\<rparr>) s)\<lparr>compiled_brk_process := False\<rparr>
     else s)"

definition set_mdscr :: "(u64 \<Rightarrow> u64) \<Rightarrow> gdb_st \<Rightarrow> gdb_st" where
  "set_mdscr f s = set_hw (\<lambda>h. h\<lparr>mdscr_el1 := f (mdscr_el1 h)\<rparr>) s"

definition kdb_cpu_set_singlestep :: "gdb_st \<Rightarrow> gdb_st option" where
  "kdb_cpu_set_singlestep s = do {
     FASSERT (daif (hw s) AND PSR_D = PSR_D);
     let s = skip_compiled_brk s;
     let s = set_frame (\<lambda>f. f\<lparr>tf_spsr := tf_spsr f OR PSR_SS\<rparr>) s;
     let s = set_mon (\<lambda>m. m\<lparr>dbg_flags := ucast (ucast (dbg_flags m) AND NOT PSR_DAIF)\<rparr>) s;
     let s = set_mon (\<lambda>m. m\<lparr>dbg_flags := ucast (ucast (dbg_flags m) OR (tf_spsr (gdb_frame s) AND PSR_DAIF))\<rparr>) s;
     let s = set_frame (\<lambda>f. f\<lparr>tf_spsr := tf_spsr f OR (PSR_A OR PSR_I OR PSR_F)\<rparr>) s;
     let s = set_mdscr (\<lambda>r. r OR MDSCR_SS OR MDSCR_KDE) s;
     Some (if dbg_flags (monitor s) AND DBGMON_ENABLED \<noteq> 0 then set_mdscr (\<lambda>r. r AND NOT MDSCR_MDE) s else s)
   }"

definition kdb_cpu_clear_singlestep :: "gdb_st \<Rightarrow> gdb_st option" where
  "kdb_cpu_clear_singlestep s = do {
     FASSERT (daif (hw s) AND PSR_D = PSR_D);
     let s = skip_compiled_brk s;
     let s = set_frame (\<lambda>f. f\<lparr>tf_spsr := tf_spsr f AND NOT PSR_DAIF\<rparr>) s;
     let s = set_frame (\<lambda>f. f\<lparr>tf_spsr := tf_spsr f OR (ucast (dbg_flags (monitor s)) AND PSR_DAIF)\<rparr>) s;
     let s = set_mdscr (\<lambda>r. r AND NOT (MDSCR_SS OR MDSCR_KDE)) s;
     Some (if dbg_flags (monitor s) AND DBGMON_ENABLED \<noteq> 0
           then let s = set_mdscr (\<lambda>r. r OR MDSCR_MDE) s
                in if dbg_flags (monitor s) AND DBGMON_KERNEL \<noteq> 0 then set_mdscr (\<lambda>r. r OR MDSCR_KDE) s else s
           else s)
   }"

end
