(* ===== verification/GdbTrap.thy ===== *)
theory GdbTrap
  imports GdbArch
begin

text \<open>
  The commands of the debugger stub: \<^verbatim>\<open>fgdb_main.c\<close> (queries, breakpoint packets),
  \<^verbatim>\<open>fgdb_thread.c\<close> and \<^verbatim>\<open>fgdb.c\<close> (initialisation and the command loop of
  \<open>FGdbTrap\<close>). The functions declared weak are modelled with their default bodies. The command loop
  waits for input for as long as there is none, so it is a partial function: \<open>None\<close> is "does not
  return".
\<close>

section \<open>Queries\<close>

text \<open>A helper for the checks \<open>gdb_rx_char(gdb) != c\<close> in the conditions: whether it was \<open>c\<close>.\<close>

definition rx_is :: "u8 \<Rightarrow> gdb_st \<Rightarrow> bool \<times> gdb_st" where
  "rx_is c s = (let (d, s) = gdb_rx_char s in (d = Some c, s))"

definition gdb_do_mem_search :: "gdb_st \<Rightarrow> gdb_st option" where
  "gdb_do_mem_search s =
    (case gdb_rx_varhex s of
       (None, s) \<Rightarrow> gdb_tx_err EINVAL s
     | (Some addr, s) \<Rightarrow> let (ok, s) = rx_is (ch CHR '';'') s in
         if \<not> ok then gdb_tx_err EINVAL s
         else case gdb_rx_varhex s of
           (None, s) \<Rightarrow> gdb_tx_err EINVAL s
         | (Some sz, s) \<Rightarrow> let (ok, s) = rx_is (ch CHR '';'') s in
             if \<not> ok then gdb_tx_err EINVAL s
             else let (ok, pat, s) = gdb_rx_bindata (length (gdb_bindata s)) s;
                      s = s\<lparr>gdb_bindata := pat @ drop (length pat) (gdb_bindata s)\<rparr> in
               if \<not> ok then gdb_tx_err EINVAL s
               else case gdb_search_mem addr sz pat s of
                 None \<Rightarrow> do { s \<leftarrow> gdb_tx_begin (ch CHR ''0'') s; gdb_tx_end s }
               | Some found \<Rightarrow> if found = 0 then do { s \<leftarrow> gdb_tx_begin (ch CHR ''0'') s; gdb_tx_end s }
                   else do {
                     s \<leftarrow> gdb_tx_begin (ch CHR ''1'') s;
                     s \<leftarrow> gdb_tx_char (ch CHR '','') s;
                     s \<leftarrow> gdb_tx_hex found 8 s;
                     gdb_tx_end s
                   })"

definition gdb_feature_names :: "u8 list list" where
  "gdb_feature_names = map str [''multiprocess'', ''swbreak'', ''hwbreak'', ''qRelocInsn'', ''fork-events'',
     ''vfork-events'', ''exec-events'', ''vContSupported'', ''QThreadEvents'', ''no-resumed'']"

text \<open>The index of the first \<open>NUL\<close> or \<open>c\<close> from \<open>p\<close> on.\<close>

function strchrnul :: "u8 list \<Rightarrow> nat \<Rightarrow> u8 \<Rightarrow> nat" where
  "strchrnul buf p c = (if p < length buf \<and> buf ! p \<noteq> 0 \<and> buf ! p \<noteq> c then strchrnul buf (p + 1) c else p)"
  by auto
termination by (relation "measure (\<lambda>(buf, p, c). length buf - p)") auto

declare strchrnul.simps [simp del]

text \<open>
  The loop over the features of the host. A feature that ends in a plus sign is looked up in the
  table; the result is the set of features, or nothing for a malformed list. The first argument
  bounds the number of features by the size of the packet.
\<close>

primrec qsupported_loop :: "nat \<Rightarrow> u32 \<Rightarrow> gdb_st \<Rightarrow> u32 option \<times> gdb_st" where
  "qsupported_loop 0 feat s = (Some feat, s)"
| "qsupported_loop (Suc n) feat s =
    (if gdb_rxsz s = 0 then (Some feat, s)
     else let tok = gdb_rxp s;
              delim = strchrnul (gdb_rxbuf s) tok (ch CHR '';'');
              toklen = delim - tok;
              token = take toklen (drop tok (gdb_rxbuf s));
              s = s\<lparr>gdb_rxp := gdb_rxp s + toklen, gdb_rxsz := gdb_rxsz s - toklen\<rparr>;
              s = (if gdb_rxbuf s ! delim \<noteq> 0
                   then s\<lparr>gdb_rxbuf := (gdb_rxbuf s)[delim := 0], gdb_rxp := gdb_rxp s + 1, gdb_rxsz := gdb_rxsz s - 1\<rparr>
                   else s)
          in if toklen < 2 then (None, s)
             else let ok = last token in
               if ok \<noteq> ch CHR ''-'' \<and> ok \<noteq> ch CHR ''+''
               then (if ch CHR ''='' \<in> set token then qsupported_loop n feat s else (None, s))
               else if ok \<noteq> ch CHR ''+'' then qsupported_loop n feat s
               else let s = s\<lparr>gdb_rxbuf := (gdb_rxbuf s)[tok + toklen - 1 := 0]\<rparr> in
                 case find (\<lambda>i. gdb_feature_names ! i = butlast token) [0..<length gdb_feature_names] of
                   None \<Rightarrow> qsupported_loop n feat s
                 | Some i \<Rightarrow> qsupported_loop n (feat OR BIT i) s)"

definition GDB_DBGP_FEAT_WANTTERM :: u32 where [const_defs]: "GDB_DBGP_FEAT_WANTTERM = 1"
definition GDB_DBGP_FEAT_RELIABLE :: u32 where [const_defs]: "GDB_DBGP_FEAT_RELIABLE = 2"

definition tx_features :: "gdb_st \<Rightarrow> gdb_st option" where
  "tx_features s = do {
     s \<leftarrow> gdb_tx_begin 0 s;
     s \<leftarrow> gdb_tx_str (str ''PacketSize'') s;
     s \<leftarrow> gdb_tx_char (ch CHR ''='') s;
     s \<leftarrow> gdb_tx_varhex (of_nat (GDB_BUFSZ + 4 - 1)) s;
     s \<leftarrow> gdb_tx_str (str '';qXfer:threads:read+'') s;
     s \<leftarrow> (if gdb_dbfeatures s AND GDB_DBGP_FEAT_RELIABLE \<noteq> 0 then gdb_tx_str (str '';QStartNoAckMode+'') s else Some s);
     gdb_tx_end s
   }"

definition gdb_do_qsupported :: "gdb_st \<Rightarrow> (u32 \<times> gdb_st) option" where
  "gdb_do_qsupported s =
    (let (c, s) = gdb_rx_char s in
     if c = None then map_option (Pair 0) (tx_features s)
     else if c \<noteq> Some (ch CHR '':'') then map_option (Pair 0) (gdb_tx_err EINVAL s)
     else case qsupported_loop (gdb_rxsz s) 0 s of
       (Some feat, s) \<Rightarrow> map_option (Pair feat) (tx_features s)
     | (None, s) \<Rightarrow> map_option (Pair 0) (gdb_tx_err EINVAL s))"

definition FGdbCurrentThreadId :: u32 where [const_defs]: "FGdbCurrentThreadId = 1"

definition FGdbSystemQuery :: "gdb_st \<Rightarrow> gdb_st option" where
  "FGdbSystemQuery s =
    (let (eq, s) = gdb_rx_equal (str ''C'') s in
     if eq then do {
       s \<leftarrow> gdb_tx_begin (ch CHR ''Q'') s;
       s \<leftarrow> gdb_tx_char (ch CHR ''C'') s;
       s \<leftarrow> gdb_tx_varhex (ucast FGdbCurrentThreadId) s;
       gdb_tx_end s
     }
     else let (eq, s) = gdb_rx_equal (str ''Supported'') s in
     if eq then map_option snd (gdb_do_qsupported s)
     else let (eq, s) = gdb_rx_equal (str ''fThreadInfo'') s in
     if eq then gdb_tx_empty s
     else let (eq, s) = gdb_rx_equal (str ''sThreadInfo'') s in
     if eq then gdb_tx_empty s
     else let (eq, s) = gdb_rx_equal (str ''Xfer:'') s in
     if eq then gdb_tx_err 0 s
     else let (eq, s) = gdb_rx_equal (str ''Search:memory:'') s in
     if eq then gdb_do_mem_search s
     else gdb_tx_empty s)"

section \<open>Breakpoint packets\<close>

text \<open>The common start of both packets: type, address and length.\<close>

definition rx_z :: "gdb_st \<Rightarrow> (u8 option \<times> u64 \<times> u64) option \<times> gdb_st" where
  "rx_z s =
    (let (ztype, s) = gdb_rx_char s; (ok, s) = rx_is (ch CHR '','') s in
     if \<not> ok then (None, s)
     else case gdb_rx_varhex s of
       (None, s) \<Rightarrow> (None, s)
     | (Some addr, s) \<Rightarrow> let (ok, s) = rx_is (ch CHR '','') s in
         if \<not> ok then (None, s)
         else case gdb_rx_varhex s of
           (None, s) \<Rightarrow> (None, s)
         | (Some len, s) \<Rightarrow> (Some (ztype, addr, len), s))"

definition z_reply :: "int \<times> gdb_st \<Rightarrow> gdb_st option" where
  "z_reply r = (case r of (error, s) \<Rightarrow> if error \<noteq> 0 then gdb_tx_err error s else gdb_tx_ok s)"

definition z_insert_op :: "u8 option \<Rightarrow> u64 \<Rightarrow> u64 \<Rightarrow> gdb_st \<Rightarrow> int \<times> gdb_st" where
  "z_insert_op ztype addr len s =
    (if ztype = Some (ch CHR ''2'') then kdb_cpu_set_watchpoint addr len KDB_DBG_ACCESS_W s
     else if ztype = Some (ch CHR ''3'') then kdb_cpu_set_watchpoint addr len KDB_DBG_ACCESS_R s
     else if ztype = Some (ch CHR ''4'') then kdb_cpu_set_watchpoint addr len KDB_DBG_ACCESS_RW s
     else if ztype = Some (ch CHR ''0'') \<or> ztype = Some (ch CHR ''1'') then kdb_cpu_set_hwbreakpoint addr len s
     else (EINVAL, s))"

definition z_remove_op :: "u8 option \<Rightarrow> u64 \<Rightarrow> u64 \<Rightarrow> gdb_st \<Rightarrow> int \<times> gdb_st" where
  "z_remove_op ztype addr len s =
    (if ztype = Some (ch CHR ''2'') \<or> ztype = Some (ch CHR ''3'') \<or> ztype = Some (ch CHR ''4'')
     then kdb_cpu_clr_watchpoint addr len s
     else if ztype = Some (ch CHR ''0'') \<or> ztype = Some (ch CHR ''1'') then kdb_cpu_clr_hwbreakpoint addr len s
     else (EINVAL, s))"

definition gdb_z_insert :: "gdb_st \<Rightarrow> gdb_st option" where
  "gdb_z_insert s = (case rx_z s of
      (None, s) \<Rightarrow> z_reply (EINVAL, s)
    | (Some (ztype, addr, len), s) \<Rightarrow> z_reply (z_insert_op ztype addr len s))"

definition gdb_z_remove :: "gdb_st \<Rightarrow> gdb_st option" where
  "gdb_z_remove s = (case rx_z s of
      (None, s) \<Rightarrow> z_reply (EINVAL, s)
    | (Some (ztype, addr, len), s) \<Rightarrow> z_reply (z_remove_op ztype addr len s))"

definition gdb_handle_detach :: "gdb_st \<Rightarrow> gdb_st option" where
  "gdb_handle_detach s = do {
     s \<leftarrow> kdb_cpu_clear_singlestep s;
     let s = s\<lparr>gdb_listening := False\<rparr>;
     Some (if gdb_dbfeatures s AND GDB_DBGP_FEAT_WANTTERM \<noteq> 0 then s\<lparr>port_out := port_out s @ [Term]\<rparr> else s)
   }"

section \<open>Commands\<close>

text \<open>Going on at an address, if one is given.\<close>

definition rx_pc :: "gdb_st \<Rightarrow> gdb_st" where
  "rx_pc s = (case gdb_rx_varhex s of (Some addr, s) \<Rightarrow> gdb_cpu_setreg GDB_REG_PC addr s | (None, s) \<Rightarrow> s)"

primrec tx_regs :: "nat list \<Rightarrow> gdb_st \<Rightarrow> gdb_st option" where
  "tx_regs [] s = Some s"
| "tx_regs (r # rs) s = do { s \<leftarrow> gdb_tx_reg (int r) s; tx_regs rs s }"

definition cmd_read_regs :: "gdb_st \<Rightarrow> gdb_st option" where
  "cmd_read_regs s = do {
     s \<leftarrow> gdb_tx_begin 0 s;
     s \<leftarrow> tx_regs [0..<GDB_NREGS] s;
     gdb_tx_end s
   }"

text \<open>The eight bytes of the receive buffer that \<open>val\<close> points to.\<close>

definition val_word :: "gdb_st \<Rightarrow> nat \<Rightarrow> u64" where
  "val_word s val = le_word (take 8 (drop val (gdb_rxbuf s)))"

text \<open>
  The result of \<open>gdb_rx_mem\<close> is only compared with zero: \<open>-1\<close>, a length that does not match, counts
  as success.
\<close>

primrec write_regs :: "nat list \<Rightarrow> gdb_st \<Rightarrow> (bool \<times> gdb_st) option" where
  "write_regs [] s = Some (True, s)"
| "write_regs (r # rs) s = do {
     let val = gdb_rxp s;
     (ret, s) \<leftarrow> gdb_rx_mem (put_rxbuf val) (of_nat (gdb_cpu_regsz (int r))) s;
     if ret = 0 then do { s \<leftarrow> gdb_tx_err EINVAL s; Some (False, s) }
     else write_regs rs (gdb_cpu_setreg (int r) (val_word s val) s)
   }"

definition cmd_write_regs :: "gdb_st \<Rightarrow> gdb_st option" where
  "cmd_write_regs s = do {
     (success, s) \<leftarrow> write_regs [0..<GDB_NREGS] s;
     if success then gdb_tx_ok s else Some s
   }"

text \<open>Address and length, separated by a comma.\<close>

definition rx_addr_size :: "gdb_st \<Rightarrow> (u64 \<times> u64) option \<times> gdb_st" where
  "rx_addr_size s =
    (case gdb_rx_varhex s of
       (None, s) \<Rightarrow> (None, s)
     | (Some addr, s) \<Rightarrow> let (ok, s) = rx_is (ch CHR '','') s in
         if \<not> ok then (None, s)
         else case gdb_rx_varhex s of (None, s) \<Rightarrow> (None, s) | (Some sz, s) \<Rightarrow> (Some (addr, sz), s))"

definition cmd_read_mem :: "gdb_st \<Rightarrow> gdb_st option" where
  "cmd_read_mem s = (case rx_addr_size s of
      (None, s) \<Rightarrow> gdb_tx_err EINVAL s
    | (Some (addr, sz), s) \<Rightarrow> do {
        s \<leftarrow> gdb_tx_begin 0 s;
        s \<leftarrow> gdb_tx_mem (mem_range (tmem s) addr (unat sz)) s;
        gdb_tx_end s
      })"

definition cmd_write_mem :: "gdb_st \<Rightarrow> gdb_st option" where
  "cmd_write_mem s = (case rx_addr_size s of
      (None, s) \<Rightarrow> gdb_tx_err EINVAL s
    | (Some (addr, sz), s) \<Rightarrow> let (ok, s) = rx_is (ch CHR '':'') s in
        if \<not> ok then gdb_tx_err EINVAL s
        else do {
          (ret, s) \<leftarrow> gdb_rx_mem (put_target addr) sz s;
          if ret = 0 then gdb_tx_err EIO s else gdb_tx_ok s
        })"

text \<open>A register number is a 64-bit number converted to \<open>int\<close>.\<close>

definition to_int :: "u64 \<Rightarrow> int" where
  "to_int reg = sint (ucast reg :: u32)"

definition cmd_read_reg :: "gdb_st \<Rightarrow> gdb_st option" where
  "cmd_read_reg s = (case gdb_rx_varhex s of
      (None, s) \<Rightarrow> gdb_tx_err EINVAL s
    | (Some reg, s) \<Rightarrow> do {
        s \<leftarrow> gdb_tx_begin 0 s;
        s \<leftarrow> gdb_tx_reg (to_int reg) s;
        gdb_tx_end s
      })"

definition cmd_write_reg :: "gdb_st \<Rightarrow> gdb_st option" where
  "cmd_write_reg s =
    (let val = gdb_rxp s in
     case gdb_rx_varhex s of
       (None, s) \<Rightarrow> gdb_tx_err EINVAL s
     | (Some reg, s) \<Rightarrow> let (ok, s) = rx_is (ch CHR ''='') s in
         if \<not> ok then gdb_tx_err EINVAL s
         else do {
           (ret, s) \<leftarrow> gdb_rx_mem (put_rxbuf val) (of_nat (gdb_cpu_regsz (to_int reg))) s;
           if ret = 0 then gdb_tx_err EINVAL s
           else gdb_tx_ok (gdb_cpu_setreg (to_int reg) (val_word s val) s)
         })"

definition cmd_signal :: "int \<Rightarrow> gdb_st \<Rightarrow> gdb_st option" where
  "cmd_signal tp s = do {
     s \<leftarrow> gdb_tx_begin (ch CHR ''T'') s;
     s \<leftarrow> gdb_tx_hex (gdb_cpu_signal tp) 2 s;
     gdb_tx_end s
   }"

text \<open>One command: the state, and whether \<open>FGdbTrap\<close> is left.\<close>

definition stay :: "gdb_st option \<Rightarrow> (bool \<times> gdb_st) option" where "stay = map_option (Pair False)"
definition leave :: "gdb_st option \<Rightarrow> (bool \<times> gdb_st) option" where "leave = map_option (Pair True)"

definition gdb_command :: "int \<Rightarrow> gdb_st \<Rightarrow> (bool \<times> gdb_st) option" where
  "gdb_command tp s =
    (let (req, s) = gdb_rx_char s in
     if req = Some (ch CHR ''?'') then stay (cmd_signal tp s)
     else if req = Some (ch CHR ''c'')
     then leave (map_option (\<lambda>s. s\<lparr>gdb_listening := True\<rparr>) (kdb_cpu_clear_singlestep (rx_pc s)))
     else if req = Some (ch CHR ''D'') then leave (do { s \<leftarrow> gdb_tx_ok s; gdb_handle_detach s })
     else if req = Some (ch CHR ''g'') then stay (cmd_read_regs s)
     else if req = Some (ch CHR ''G'') then stay (cmd_write_regs s)
     else if req = Some (ch CHR ''H'') then stay (gdb_tx_ok s)
     else if req = Some (ch CHR ''k'') then leave (gdb_handle_detach s)
     else if req = Some (ch CHR ''m'') then stay (cmd_read_mem s)
     else if req = Some (ch CHR ''M'') then stay (cmd_write_mem s)
     else if req = Some (ch CHR ''p'') then stay (cmd_read_reg s)
     else if req = Some (ch CHR ''P'') then stay (cmd_write_reg s)
     else if req = Some (ch CHR ''q'') then stay (FGdbSystemQuery s)
     else if req = Some (ch CHR ''s'')
     then leave (map_option (\<lambda>s. s\<lparr>gdb_listening := True\<rparr>) (kdb_cpu_set_singlestep (rx_pc s)))
     else if req = Some (ch CHR ''z'') then stay (gdb_z_remove s)
     else if req = Some (ch CHR ''Z'') then stay (gdb_z_insert s)
     else stay (gdb_tx_empty s))"

partial_function (option) trap_loop :: "int \<Rightarrow> gdb_st \<Rightarrow> (int \<times> gdb_st) option" where
  "trap_loop tp s = do {
     (err, s) \<leftarrow> gdb_rx_begin s;
     if err \<noteq> 0 then Some (0, s)
     else do {
       (exit, s) \<leftarrow> gdb_command tp s;
       if exit then Some (1, s) else trap_loop tp s
     }
   }"

text \<open>The packet that reports why the target has stopped.\<close>

definition tx_stop :: "int \<Rightarrow> gdb_st \<Rightarrow> gdb_st option" where
  "tx_stop tp s = do {
     s \<leftarrow> gdb_tx_begin (ch CHR ''T'') s;
     s \<leftarrow> gdb_tx_hex (gdb_cpu_signal tp) 2 s;
     s \<leftarrow> gdb_tx_varhex (of_int GDB_REG_PC) s;
     s \<leftarrow> gdb_tx_char (ch CHR '':'') s;
     s \<leftarrow> gdb_tx_reg GDB_REG_PC s;
     s \<leftarrow> gdb_tx_char (ch CHR '';'') s;
     s \<leftarrow> gdb_cpu_stop_reason tp s;
     s \<leftarrow> gdb_tx_str (str ''thread:'') s;
     s \<leftarrow> gdb_tx_varhex (ucast FGdbCurrentThreadId) s;
     s \<leftarrow> gdb_tx_char (ch CHR '';'') s;
     gdb_tx_end s
   }"

definition port_intr_ctrl :: "bool \<Rightarrow> gdb_st \<Rightarrow> gdb_st" where
  "port_intr_ctrl b s = s\<lparr>port_out := port_out s @ [IntrCtrl b]\<rparr>"

definition FGdbTrap :: "int \<Rightarrow> gdb_st \<Rightarrow> (int \<times> gdb_st) option" where
  "FGdbTrap tp s = do {
     FASSERT (dbbe_active s);
     let s = port_intr_ctrl False s;
     let s = s\<lparr>gdb_listening := False, gdb_ackmode := True\<rparr>;
     s \<leftarrow> tx_stop tp s;
     (ret, s) \<leftarrow> trap_loop tp s;
     Some (ret, port_intr_ctrl True s)
   }"

section \<open>Entry and initialisation\<close>

definition FGdbDebugInterrupt :: "FGdbTrapframe \<Rightarrow> gdb_st \<Rightarrow> gdb_st option" where
  "FGdbDebugInterrupt trap_frame s = do {
     let s = dbg_register_sync s;
     let esr = esr_el1 (hw s);
     let ec = drop_bit 26 esr AND 0x3f;
     let iss = esr AND ESR_ELx_BRK64_ISS_COMMENT_MASK;
     let s = (if iss = GDB_COMPILED_DBG_BRK_IMM then s\<lparr>compiled_brk_process := True\<rparr> else s);
     let s = s\<lparr>gdb_frame := trap_frame\<rparr>;
     map_option snd (FGdbTrap (uint ec) s)
   }"

definition FGDB_FAILED :: FError where "FGDB_FAILED = FT_MAKE_ERRCODE 0 0 1"

text \<open>\<open>port_init\<close> is the result of the initialisation of the port.\<close>

definition FGdbInitialize :: "nat \<Rightarrow> int \<Rightarrow> gdb_st \<Rightarrow> FError \<times> gdb_st" where
  "FGdbInitialize port port_init s =
    (let s = set_hw (\<lambda>h. h\<lparr>oslar_el1 := 0\<rparr>) s;
         aa64dfr0 = id_aa64dfr0_el1 (hw s);
         s = s\<lparr>dbg_watchpoint_num := ID_AA64DFR0_WRPs_VAL aa64dfr0, dbg_breakpoint_num := ID_AA64DFR0_BRPs_VAL aa64dfr0\<rparr>;
         s = fold (\<lambda>i s. dbg_wb_write_reg DBG_REG_BASE_WVR i 0 (dbg_wb_write_reg DBG_REG_BASE_WCR i 0 s))
               [0..<dbg_watchpoint_num s] s;
         s = fold (\<lambda>i s. dbg_wb_write_reg DBG_REG_BASE_BVR i 0 (dbg_wb_write_reg DBG_REG_BASE_BCR i 0 s))
               [0..<dbg_breakpoint_num s] s;
         s = set_hw (\<lambda>h. h\<lparr>daif := daif h AND NOT PSR_D\<rparr>) s
     in if port = 0
        then let ret = (if port_init \<noteq> 0 then FGDB_FAILED else FT_SUCCESS);
                 s = s\<lparr>dbbe_active := True\<rparr>
             in (ret, set_mon (\<lambda>m. m\<lparr>dbg_flags := DBGMON_KERNEL\<rparr>) s)
        else (FGDB_FAILED, s))"

end
