(* ===== verification/GdbCommands.thy ===== *)
theory GdbCommands
  imports GdbParse GdbTrap
begin

text \<open>
  The contract of a command of the stub, as a locale: a request text, the reply text and the
  effect on the state, and what the command loop does with a correct packet that carries the
  request. The interpretations show that the commands of \<open>FGdbTrap\<close> meet it.
\<close>

section \<open>Replies\<close>

text \<open>The state without the buffers and the traffic.\<close>

definition core :: "gdb_st \<Rightarrow> gdb_st" where
  "core s = (but_rx s)\<lparr>gdb_txbuf := []\<rparr>"

lemma core_updates [simp]:
  "core (s\<lparr>gdb_rxbuf := b\<rparr>) = core s" "core (s\<lparr>gdb_rxp := p\<rparr>) = core s" "core (s\<lparr>gdb_rxsz := n\<rparr>) = core s"
  "core (s\<lparr>input := i\<rparr>) = core s" "core (s\<lparr>port_out := out\<rparr>) = core s" "core (s\<lparr>gdb_txbuf := tx\<rparr>) = core s"
  "core (adv n s) = core s"
  by (simp_all add: core_def but_rx_def adv_def)

lemma core_fields:
  assumes "core s = core t"
  shows "gdb_ackmode s = gdb_ackmode t" "gdb_sendpacket s = gdb_sendpacket t" "tmem s = tmem t"
    "gdb_frame s = gdb_frame t" "monitor s = monitor t" "hw s = hw t" "use_newlib s = use_newlib t"
    "dbg_watchpoint_num s = dbg_watchpoint_num t" "dbg_breakpoint_num s = dbg_breakpoint_num t"
    "gdb_dbfeatures s = gdb_dbfeatures t" "compiled_brk_process s = compiled_brk_process t"
  using arg_cong [OF assms, of gdb_ackmode] arg_cong [OF assms, of gdb_sendpacket] arg_cong [OF assms, of tmem]
    arg_cong [OF assms, of gdb_frame] arg_cong [OF assms, of monitor] arg_cong [OF assms, of hw]
    arg_cong [OF assms, of use_newlib] arg_cong [OF assms, of dbg_watchpoint_num]
    arg_cong [OF assms, of dbg_breakpoint_num] arg_cong [OF assms, of gdb_dbfeatures]
    arg_cong [OF assms, of compiled_brk_process]
  by (simp_all add: core_def but_rx_def)

lemma core_changes [simp]:
  "core (s\<lparr>tmem := m\<rparr>) = (core s)\<lparr>tmem := m\<rparr>" "core (s\<lparr>gdb_frame := f\<rparr>) = (core s)\<lparr>gdb_frame := f\<rparr>"
  "core (s\<lparr>monitor := d\<rparr>) = (core s)\<lparr>monitor := d\<rparr>" "core (s\<lparr>hw := h\<rparr>) = (core s)\<lparr>hw := h\<rparr>"
  by (rule gdb_st.equality; simp add: core_def but_rx_def)+

lemma core_of_but_rx: "but_rx s = but_rx t \<Longrightarrow> core s = core t"
  by (simp add: core_def)

text \<open>Replies go character by character and wait for the plus sign.\<close>

definition linked :: "gdb_st \<Rightarrow> bool" where
  "linked s \<longleftrightarrow> gdb_ackmode s \<and> \<not> gdb_sendpacket s"

lemma linked_core: "core s = core t \<Longrightarrow> linked s = linked t"
  using core_fields(1,2) [of s t] by (simp add: linked_def)

lemma linked_updates [simp]:
  "linked (s\<lparr>gdb_rxbuf := b\<rparr>) = linked s" "linked (s\<lparr>gdb_rxp := p\<rparr>) = linked s" "linked (s\<lparr>gdb_rxsz := n\<rparr>) = linked s"
  "linked (s\<lparr>input := i\<rparr>) = linked s" "linked (s\<lparr>port_out := out\<rparr>) = linked s" "linked (s\<lparr>gdb_txbuf := tx\<rparr>) = linked s"
  "linked (adv n s) = linked s" "linked (s\<lparr>tmem := m\<rparr>) = linked s" "linked (set_frame f s) = linked s"
  "linked (set_mon g s) = linked s" "linked (set_hw h s) = linked s"
  by (simp_all add: linked_def adv_def set_frame_def set_mon_def set_hw_def)

definition reply :: "u8 list \<Rightarrow> u8 list \<Rightarrow> gdb_st \<Rightarrow> gdb_st" where
  "reply t rest s = s\<lparr>gdb_txbuf := t, input := rest, port_out := port_out s @ map Putc (rle_frame t)\<rparr>"

lemma tx_end_reply: "linked s \<Longrightarrow> input s = ch CHR ''+'' # rest \<Longrightarrow> gdb_tx_end (s\<lparr>gdb_txbuf := t\<rparr>) = Some (reply t rest s)"
  by (simp add: gdb_tx_end.simps tx_once_def reply_def linked_def)

lemma core_reply [simp]: "core (reply t rest s) = core s"
  by (simp add: reply_def)

lemma reply_simps [simp]:
  "input (reply t rest s) = rest" "port_out (reply t rest s) = port_out s @ map Putc (rle_frame t)"
  "gdb_rxbuf (reply t rest s) = gdb_rxbuf s"
  by (simp_all add: reply_def)

text \<open>Building a text in the transmit buffer.\<close>

lemma tx_char_append:
  "length (gdb_txbuf s) < GDB_BUFSZ \<Longrightarrow> gdb_tx_char c s = Some (s\<lparr>gdb_txbuf := gdb_txbuf s @ [c]\<rparr>)"
  by (simp add: gdb_tx_char_def)

lemma tx_begin_eq: "gdb_tx_begin c s = Some (s\<lparr>gdb_txbuf := if c = 0 then [] else [c]\<rparr>)"
  by (simp add: gdb_tx_begin_def tx_char_append GDB_BUFSZ_def)

lemma tx_str_append:
  "length (gdb_txbuf s) + length t \<le> GDB_BUFSZ \<Longrightarrow> gdb_tx_str t s = Some (s\<lparr>gdb_txbuf := gdb_txbuf s @ t\<rparr>)"
  by (induction t arbitrary: s) (simp_all add: tx_char_append)

definition hexs :: "u8 list \<Rightarrow> u8 list" where
  "hexs bs = concat (map (\<lambda>b. [N2C (drop_bit 4 b), N2C (b AND 0x0f)]) bs)"

lemma hexs_simps [simp]: "hexs [] = []" "hexs (b # bs) = N2C (drop_bit 4 b) # N2C (b AND 0x0f) # hexs bs"
  by (simp_all add: hexs_def)

lemma length_hexs [simp]: "length (hexs bs) = 2 * length bs"
  by (induction bs) simp_all

lemma tx_mem_append:
  "length (gdb_txbuf s) + 2 * length bs \<le> GDB_BUFSZ \<Longrightarrow> gdb_tx_mem bs s = Some (s\<lparr>gdb_txbuf := gdb_txbuf s @ hexs bs\<rparr>)"
proof (induction bs arbitrary: s)
  case (Cons b bs)
  then show ?case by (simp add: tx_char_append)
qed simp

lemma tx_ok_reply: "linked s \<Longrightarrow> input s = ch CHR ''+'' # rest \<Longrightarrow> gdb_tx_ok s = Some (reply (str ''OK'') rest s)"
  using tx_end_reply [of s rest "str ''OK''"]
  by (simp add: gdb_tx_ok_def tx_begin_eq tx_char_append GDB_BUFSZ_def)

lemma tx_empty_reply: "linked s \<Longrightarrow> input s = ch CHR ''+'' # rest \<Longrightarrow> gdb_tx_empty s = Some (reply [] rest s)"
  by (simp add: gdb_tx_empty_def tx_begin_eq tx_end_reply)

section \<open>The contract\<close>

text \<open>A request on the line, with its checksum.\<close>

definition packet :: "u8 list \<Rightarrow> wire" where
  "packet p = \<lparr>noise = [], body = p, sum_hi = N2C (drop_bit 4 (sum_list p)), sum_lo = N2C (sum_list p AND 0x0f)\<rparr>"

definition request :: "u8 list \<Rightarrow> u8 list" where
  "request p = wire_chars (packet p)"

definition req_text :: "u8 list \<Rightarrow> bool" where
  "req_text p \<longleftrightarrow> ch CHR ''#'' \<notin> set p \<and> length p < GDB_BUFSZ - 1"

lemma packet_ok: "sum_ok (packet p)"
  by (rule sum_ok_digits) (simp_all add: packet_def)

lemma rx_begin_request:
  assumes "req_text p" "input s = request p @ rest" "gdb_ackmode s" "length (gdb_rxbuf s) = GDB_BUFSZ"
  shows "\<exists>s'. gdb_rx_begin s = Some (0, s') \<and> core s' = core s \<and> unread s' = p \<and> rx_wf s' \<and> input s' = rest \<and>
    port_out s' = port_out s @ [Putc (ch CHR ''+'')]"
proof -
  have "wire_ok (packet p)" using assms(1) by (simp add: req_text_def wire_ok_def packet_def)
  then show ?thesis
    using rx_begin_wires [of "[]" "packet p" s rest] packet_ok [of p] assms
    by (auto simp: request_def packet_def intro: core_of_but_rx)
qed

locale command =
  fixes req :: "'a \<Rightarrow> u8 list" and guard :: "'a \<Rightarrow> gdb_st \<Rightarrow> bool" and answer :: "'a \<Rightarrow> int \<Rightarrow> gdb_st \<Rightarrow> u8 list"
    and effect :: "'a \<Rightarrow> gdb_st \<Rightarrow> gdb_st"
  assumes req_text: "guard x s \<Longrightarrow> req_text (req x)"
    and guard_core: "core s = core t \<Longrightarrow> guard x s = guard x t"
    and answer_core: "core s = core t \<Longrightarrow> answer x tp s = answer x tp t"
    and effect_core: "core s = core t \<Longrightarrow> core (effect x s) = core (effect x t)"
    and effect_linked: "linked s \<Longrightarrow> linked (effect x s)"
    and answered: "guard x s \<Longrightarrow> rx_wf s \<Longrightarrow> linked s \<Longrightarrow> unread s = req x \<Longrightarrow> input s = ch CHR ''+'' # rest \<Longrightarrow>
      \<exists>s'. gdb_command tp s = Some (False, s') \<and> core s' = core (effect x s) \<and> input s' = rest \<and>
        port_out s' = port_out s @ map Putc (rle_frame (answer x tp s)) \<and> length (gdb_rxbuf s') = GDB_BUFSZ"
begin

lemma served:
  assumes "guard x s" "linked s" "length (gdb_rxbuf s) = GDB_BUFSZ" "input s = request (req x) @ ch CHR ''+'' # rest"
  shows "\<exists>s'. trap_loop tp s = trap_loop tp s' \<and> core s' = core (effect x s) \<and> linked s' \<and> input s' = rest \<and>
    port_out s' = port_out s @ Putc (ch CHR ''+'') # map Putc (rle_frame (answer x tp s)) \<and> length (gdb_rxbuf s') = GDB_BUFSZ"
proof -
  obtain s1 where s1: "gdb_rx_begin s = Some (0, s1)" "core s1 = core s" "unread s1 = req x" "rx_wf s1"
      "input s1 = ch CHR ''+'' # rest" "port_out s1 = port_out s @ [Putc (ch CHR ''+'')]"
    using rx_begin_request [of "req x" s "ch CHR ''+'' # rest"] req_text [OF assms(1)] assms by (auto simp: linked_def)
  moreover have "guard x s1" "linked s1" using guard_core [OF s1(2)] linked_core [OF s1(2)] assms by simp_all
  ultimately obtain s2 where s2: "gdb_command tp s1 = Some (False, s2)" "core s2 = core (effect x s1)" "input s2 = rest"
      "port_out s2 = port_out s1 @ map Putc (rle_frame (answer x tp s1))" "length (gdb_rxbuf s2) = GDB_BUFSZ"
    using answered [of x s1 rest tp] by blast
  have "trap_loop tp s = trap_loop tp s2" using s1(1) s2(1) by (simp add: trap_loop.simps [of tp s])
  moreover have "linked s2" using linked_core [OF s2(2)] effect_linked [OF \<open>linked s1\<close>] by simp
  ultimately show ?thesis
    using s1 s2 effect_core [OF s1(2), of x] answer_core [OF s1(2), of x tp] by (intro exI [of _ s2]) simp
qed

end

end
