(* ===== verification/GdbMemory.thy ===== *)
theory GdbMemory
  imports GdbCommands
begin

text \<open>
  The commands that read and write memory and registers: each meets the contract \<open>command\<close>, with
  the memory of the target or the interrupted context as its effect.
\<close>

section \<open>Reading the arguments\<close>

lemma rx_wf_adv_unread: "rx_wf s \<Longrightarrow> n \<le> length (unread s) \<Longrightarrow> rx_wf (adv n s)"
  using length_unread [of s] by simp

lemma rx_is_Cons: "rx_wf s \<Longrightarrow> unread s = c # cs \<Longrightarrow> rx_is d s = (c = d, adv 1 s)"
  by (simp add: rx_is_def rx_char_Cons)

lemma separators_no_digits [simp]: "\<not> isxdigit (ch CHR '','')" "\<not> isxdigit (ch CHR '':'')" "\<not> isxdigit (ch CHR ''='')"
  by (simp_all add: isxdigit_def isdigit_def)

lemma rx_addr_size_text:
  assumes "rx_wf s" "unread s = jx a @ ch CHR '','' # jx n @ r" "no_digit r"
  shows "rx_addr_size s = (Some (a, n), adv (length (jx a) + 1 + length (jx n)) s)"
proof -
  let ?s1 = "adv (length (jx a)) s" let ?s2 = "adv (length (jx a) + 1) s"
  have 1: "gdb_rx_varhex s = (Some a, ?s1)"
    using rx_varhex_jx [OF assms(1,2)] separators_no_digits(1) by simp
  have w1: "rx_wf ?s1" using assms by (intro rx_wf_adv_unread) simp_all
  have 2: "rx_is (ch CHR '','') ?s1 = (True, ?s2)"
    using rx_is_Cons [OF w1, of "ch CHR '',''"] assms by simp
  have w2: "rx_wf ?s2" using assms by (intro rx_wf_adv_unread) simp_all
  have 3: "gdb_rx_varhex ?s2 = (Some n, adv (length (jx n)) ?s2)"
    using assms by (intro rx_varhex_jx [OF w2, where r=r]) simp_all
  show ?thesis by (simp only: rx_addr_size_def 1 2 3 prod.case option.case Let_def if_True if_False not_True_eq_False)
    (simp add: add.assoc)
qed

section \<open>Decoding bytes\<close>

primrec mem_write :: "(u64 \<Rightarrow> u8) \<Rightarrow> u64 \<Rightarrow> u8 list \<Rightarrow> u64 \<Rightarrow> u8" where
  "mem_write m a [] = m"
| "mem_write m a (b # bs) = mem_write (m(a := b)) (a + 1) bs"

lemma decode_digits:
  "(ucast (push_bit 4 (C2N (N2C (drop_bit 4 b))) AND 0xf0) :: u8) OR ucast (C2N (N2C (b AND 0x0f)) AND 0x0f) = b"
  by (simp only: digits_of join_digits_or)

text \<open>The digits of the first byte, and what the loop has to check before it.\<close>

lemma unread_hex_pair:
  assumes "rx_wf s" "unread s = h # l # r"
  shows "gdb_rxp s + 1 < length (gdb_rxbuf s)" "gdb_rxbuf s ! gdb_rxp s = h" "gdb_rxbuf s ! (gdb_rxp s + 1) = l"
    "gdb_rxsz s \<ge> 2"
proof -
  have sz: "gdb_rxsz s = Suc (Suc (length r))" using length_unread [OF assms(1)] assms(2) by simp
  then show "gdb_rxp s + 1 < length (gdb_rxbuf s)" "gdb_rxsz s \<ge> 2" using assms(1) by (simp_all add: rx_wf_def)
  have "unread s ! 0 = gdb_rxbuf s ! gdb_rxp s" "unread s ! 1 = gdb_rxbuf s ! (gdb_rxp s + 1)"
    using sz assms(1) by (simp_all add: unread_def rx_wf_def)
  then show "gdb_rxbuf s ! gdb_rxp s = h" "gdb_rxbuf s ! (gdb_rxp s + 1) = l" using assms(2) by simp_all
qed

lemma rx_mem_loop_step:
  assumes "rx_wf s" "unread s = hexs (b # bs)" "gdb_rxp (put k b s) = gdb_rxp s" "gdb_rxsz (put k b s) = gdb_rxsz s"
  shows "rx_mem_loop put k (length (b # bs)) s = rx_mem_loop put (Suc k) (length bs) (adv 2 (put k b s))"
proof -
  have u: "unread s = N2C (drop_bit 4 b) # N2C (b AND 0x0f) # hexs bs" using assms(2) by simp
  show ?thesis
    unfolding adv_alt using unread_hex_pair(1-3) [OF assms(1) u] assms(3,4)
    by (simp only: rx_mem_loop.simps list.size FASSERT_bind_True decode_digits Let_def add_Suc_right add_0_right)
qed

lemma rx_mem_target:
  assumes "rx_wf s" "unread s = hexs bs"
  shows "rx_mem_loop (put_target a) k (length bs) s =
    Some ((adv (2 * length bs) s)\<lparr>tmem := mem_write (tmem s) (a + of_nat k) bs\<rparr>)"
  using assms
proof (induction bs arbitrary: k s)
  case (Cons b bs)
  let ?t = "adv 2 (put_target a k b s)"
  have "rx_mem_loop (put_target a) k (length (b # bs)) s = rx_mem_loop (put_target a) (Suc k) (length bs) ?t"
    using Cons.prems by (intro rx_mem_loop_step) (simp_all add: put_target_def)
  also have "\<dots> = Some ((adv (2 * length bs) ?t)\<lparr>tmem := mem_write (tmem ?t) (a + of_nat (Suc k)) bs\<rparr>)"
  proof (rule Cons.IH)
    have "rx_wf (adv 2 s)" using Cons.prems by (intro rx_wf_adv_unread) simp_all
    then show "rx_wf ?t" by (simp add: rx_wf_def put_target_def)
    have "unread (adv 2 s) = hexs bs" using Cons.prems by simp
    then show "unread ?t = hexs bs" by (simp add: unread_def put_target_def)
  qed
  also have "(adv (2 * length bs) ?t)\<lparr>tmem := mem_write (tmem ?t) (a + of_nat (Suc k)) bs\<rparr> =
      (adv (2 * length (b # bs)) s)\<lparr>tmem := mem_write (tmem s) (a + of_nat k) (b # bs)\<rparr>"
    by (rule gdb_st.equality) (simp_all add: put_target_def add.assoc add.commute add.left_commute)
  finally show ?case .
qed (simp add: put_target_def)

lemma rx_mem_rxbuf:
  assumes "rx_wf s" "unread s = hexs bs" "val + k \<le> gdb_rxp s"
  shows "rx_mem_loop (put_rxbuf val) k (length bs) s =
    Some ((adv (2 * length bs) s)\<lparr>gdb_rxbuf := store_at (val + k) bs (gdb_rxbuf s)\<rparr>)"
  using assms
proof (induction bs arbitrary: k s)
  case (Cons b bs)
  let ?t = "adv 2 (put_rxbuf val k b s)"
  have "rx_mem_loop (put_rxbuf val) k (length (b # bs)) s = rx_mem_loop (put_rxbuf val) (Suc k) (length bs) ?t"
    using Cons.prems by (intro rx_mem_loop_step) (simp_all add: put_rxbuf_def)
  also have "\<dots> = Some ((adv (2 * length bs) ?t)\<lparr>gdb_rxbuf := store_at (val + Suc k) bs (gdb_rxbuf ?t)\<rparr>)"
  proof (rule Cons.IH)
    have "rx_wf (adv 2 s)" using Cons.prems by (intro rx_wf_adv_unread) simp_all
    then show "rx_wf ?t" by (simp add: rx_wf_def put_rxbuf_def)
    have "unread (adv 2 s) = hexs bs" using Cons.prems by simp
    then show "unread ?t = hexs bs" using Cons.prems(3) by (simp add: unread_def put_rxbuf_def)
    show "val + Suc k \<le> gdb_rxp ?t" using Cons.prems(3) by (simp add: put_rxbuf_def)
  qed
  also have "(adv (2 * length bs) ?t)\<lparr>gdb_rxbuf := store_at (val + Suc k) bs (gdb_rxbuf ?t)\<rparr> =
      (adv (2 * length (b # bs)) s)\<lparr>gdb_rxbuf := store_at (val + k) (b # bs) (gdb_rxbuf s)\<rparr>"
    using Cons.prems by (intro gdb_st.equality) (simp_all add: put_rxbuf_def store_at_Cons rx_wf_def)
  finally show ?case .
qed (simp add: put_rxbuf_def)

text \<open>A packet is shorter than the buffer, so the length that is expected does not wrap around.\<close>

lemma rx_mem_length:
  assumes "rx_wf s" "unread s = hexs bs" "(sz :: u64) = of_nat (length bs)"
  shows "unat sz = length bs" "unat (sz * 2) = gdb_rxsz s"
proof -
  have l: "gdb_rxsz s = 2 * length bs" "2 * length bs < 4096"
    using length_unread [OF assms(1)] assms by (simp_all add: rx_wf_def GDB_BUFSZ_def)
  have "sz * 2 = of_nat (2 * length bs)" by (simp add: assms(3) mult.commute)
  then show "unat (sz * 2) = gdb_rxsz s" using l unat_of_nat_64 [of "2 * length bs"] by simp
  show "unat sz = length bs" using l unat_of_nat_64 [of "length bs"] by (simp add: assms(3))
qed

section \<open>Memory commands\<close>

lemma N2C_isxdigit: "isxdigit (N2C (drop_bit 4 b))" "isxdigit (N2C (b AND 0x0f))"
proof -
  have all: "list_all (\<lambda>k. isxdigit (N2C (of_nat k))) [0..<16]" by code_simp
  have "isxdigit (N2C n)" if "n < 16" for n
  proof -
    have "unat n < 16" using that by (simp add: word_less_nat_alt)
    moreover have "of_nat (unat n) = n" by simp
    ultimately show ?thesis using all unfolding list_all_iff by (metis atLeastLessThan_iff le0 set_upt)
  qed
  then show "isxdigit (N2C (drop_bit 4 b))" "isxdigit (N2C (b AND 0x0f))" using digit_less by blast+
qed

lemma xdigits_hexs: "list_all isxdigit (hexs bs)"
  by (induction bs) (simp_all add: N2C_isxdigit)

lemma xdigits_no_hash: "list_all isxdigit xs \<Longrightarrow> ch CHR ''#'' \<notin> set xs"
  by (auto simp: list_all_iff isxdigit_def isdigit_def)

lemma jx_no_hash: "ch CHR ''#'' \<notin> set (jx v)"
  by (rule xdigits_no_hash) (rule jx_lemma)

lemma hexs_no_hash: "ch CHR ''#'' \<notin> set (hexs bs)"
  by (rule xdigits_no_hash) (rule xdigits_hexs)

definition write_req :: "u64 \<times> u8 list \<Rightarrow> u8 list" where
  "write_req = (\<lambda>(a, bs). ch CHR ''M'' # jx a @ ch CHR '','' # jx (of_nat (length bs)) @ ch CHR '':'' # hexs bs)"

definition write_effect :: "u64 \<times> u8 list \<Rightarrow> gdb_st \<Rightarrow> gdb_st" where
  "write_effect = (\<lambda>(a, bs) s. s\<lparr>tmem := mem_write (tmem s) a bs\<rparr>)"

definition read_req :: "u64 \<times> u64 \<Rightarrow> u8 list" where
  "read_req = (\<lambda>(a, n). ch CHR ''m'' # jx a @ ch CHR '','' # jx n)"

definition fits :: "u8 list \<Rightarrow> bool" where
  "fits req \<longleftrightarrow> length req < GDB_BUFSZ - 1"

lemma command_char:
  "rx_wf s \<Longrightarrow> unread s = c # cs \<Longrightarrow> gdb_rx_char s = (Some c, adv 1 s) \<and> rx_wf (adv 1 s) \<and> unread (adv 1 s) = cs"
  using rx_wf_adv_unread [of s 1] by (simp add: rx_char_Cons)

lemma cmd_write_mem_text:
  assumes "rx_wf s" "unread s = jx a @ ch CHR '','' # jx (of_nat (length bs)) @ ch CHR '':'' # hexs bs"
    "linked s" "input s = ch CHR ''+'' # rest"
  shows "cmd_write_mem s = Some (reply (str ''OK'') rest
    ((adv (gdb_rxsz s) s)\<lparr>tmem := mem_write (tmem s) a bs\<rparr>))"
proof -
  let ?n = "of_nat (length bs) :: u64"
  let ?k = "length (jx a) + 1 + length (jx ?n)"
  have sz: "gdb_rxsz s = ?k + 1 + 2 * length bs" using assms length_unread [of s] by simp
  have 1: "rx_addr_size s = (Some (a, ?n), adv ?k s)"
    using rx_addr_size_text [OF assms(1,2)] separators_no_digits(2) by simp
  have w1: "rx_wf (adv ?k s)" using assms by (intro rx_wf_adv_unread) simp_all
  have 2: "rx_is (ch CHR '':'') (adv ?k s) = (True, adv (?k + 1) s)"
    using rx_is_Cons [OF w1, of "ch CHR '':''" "hexs bs"] assms by simp
  have w2: "rx_wf (adv (?k + 1) s)" using assms by (intro rx_wf_adv_unread) simp_all
  have u2: "unread (adv (?k + 1) s) = hexs bs" using assms(2) by simp
  have 3: "gdb_rx_mem (put_target a) ?n (adv (?k + 1) s) =
      Some (1, (adv (gdb_rxsz s) s)\<lparr>tmem := mem_write (tmem s) a bs\<rparr>)"
    using rx_mem_length [OF w2 u2 refl] rx_mem_target [OF w2 u2, of a 0] sz by (simp add: gdb_rx_mem_def)
  show ?thesis
    unfolding cmd_write_mem_def 1 using 2 3 assms(3,4) by (simp add: tx_ok_reply)
qed

lemma cmd_read_mem_text:
  assumes "rx_wf s" "unread s = jx a @ ch CHR '','' # jx n" "linked s" "input s = ch CHR ''+'' # rest" "2 * unat n \<le> GDB_BUFSZ"
  shows "cmd_read_mem s = Some (reply (hexs (mem_range (tmem s) a (unat n))) rest (adv (gdb_rxsz s) s))"
proof -
  have "rx_addr_size s = (Some (a, n), adv (gdb_rxsz s) s)"
    using rx_addr_size_text [of s a n "[]"] assms length_unread [OF assms(1)] by simp
  moreover have "length (mem_range m a k) = k" for m k by (simp add: mem_range_def)
  ultimately show ?thesis using assms by (simp add: cmd_read_mem_def tx_begin_eq tx_mem_append tx_end_reply)
qed

interpretation wm: command write_req "\<lambda>x s. fits (write_req x)" "\<lambda>x tp s. str ''OK''" write_effect
proof (unfold_locales, goal_cases)
  case (1 x s)
  then show ?case using jx_no_hash hexs_no_hash by (auto simp: req_text_def fits_def write_req_def split: prod.splits)
next
  case (4 s t x)
  then show ?case using core_fields(3) [of s t] by (simp add: write_effect_def split: prod.splits)
next
  case (5 s x)
  then show ?case by (simp add: write_effect_def split: prod.splits)
next
  case (6 x s rest tp)
  obtain a bs where x: "x = (a, bs)" by (cases x)
  note c = command_char [OF 6(2), of "ch CHR ''M''"]
  have "cmd_write_mem (adv 1 s) = Some (reply (str ''OK'') rest
      ((adv (gdb_rxsz (adv 1 s)) (adv 1 s))\<lparr>tmem := mem_write (tmem (adv 1 s)) a bs\<rparr>))"
    using 6 c by (intro cmd_write_mem_text) (simp_all add: x write_req_def)
  then show ?case using 6 c
    by (simp add: gdb_command_def stay_def x write_req_def write_effect_def rx_wf_def)
qed simp_all

interpretation rm: command read_req "\<lambda>(a, n) s. 2 * unat n \<le> GDB_BUFSZ"
  "\<lambda>(a, n) tp s. hexs (mem_range (tmem s) a (unat n))" "\<lambda>x s. s"
proof (unfold_locales, goal_cases)
  case (1 x s)
  obtain a n where x: "x = (a, n)" by (cases x)
  show ?case using jx_no_hash jx_lemma(4) [of a] jx_lemma(4) [of n]
    by (auto simp: req_text_def read_req_def x GDB_BUFSZ_def)
next
  case (2 s t x)
  then show ?case by (simp split: prod.splits)
next
  case (3 s t x tp)
  then show ?case using core_fields(3) [of s t] by (simp split: prod.splits)
next
  case (6 x s rest tp)
  obtain a n where x: "x = (a, n)" by (cases x)
  note c = command_char [OF 6(2), of "ch CHR ''m''"]
  have "cmd_read_mem (adv 1 s) = Some (reply (hexs (mem_range (tmem (adv 1 s)) a (unat n))) rest
      (adv (gdb_rxsz (adv 1 s)) (adv 1 s)))"
    using 6 c by (intro cmd_read_mem_text) (simp_all add: x read_req_def)
  then show ?case using 6 c
    by (simp add: gdb_command_def stay_def x read_req_def rx_wf_def)
qed simp_all

section \<open>Register commands\<close>

definition reg_text :: "gdb_st \<Rightarrow> int \<Rightarrow> u8 list" where
  "reg_text s r = (case gdb_cpu_getreg s r of
      None \<Rightarrow> replicate (2 * gdb_cpu_regsz r) (ch CHR ''x'')
    | Some v \<Rightarrow> hexs (le_bytes (gdb_cpu_regsz r) v))"

lemma length_le_bytes [simp]: "length (le_bytes n v) = n"
  by (simp add: le_bytes_def)

lemma length_reg_text [simp]: "length (reg_text s r) = 2 * gdb_cpu_regsz r"
  by (simp add: reg_text_def split: option.split)

lemma reg_text_cong: "gdb_frame s = gdb_frame t \<Longrightarrow> reg_text s r = reg_text t r"
  by (simp add: reg_text_def gdb_cpu_getreg_def)

lemma reg_text_txbuf [simp]: "reg_text (s\<lparr>gdb_txbuf := b\<rparr>) r = reg_text s r"
  by (rule reg_text_cong) simp

lemma regsz_le: "gdb_cpu_regsz r \<le> 16"
  by (simp add: gdb_cpu_regsz_def)

lemma tx_reg_append:
  "length (gdb_txbuf s) + 2 * gdb_cpu_regsz r \<le> GDB_BUFSZ \<Longrightarrow>
    gdb_tx_reg r s = Some (s\<lparr>gdb_txbuf := gdb_txbuf s @ reg_text s r\<rparr>)"
  by (simp add: gdb_tx_reg_def reg_text_def tx_str_append tx_mem_append split: option.split)

lemma tx_regs_append:
  "length (gdb_txbuf s) + (\<Sum>r\<leftarrow>rs. 2 * gdb_cpu_regsz (int r)) \<le> GDB_BUFSZ \<Longrightarrow>
    tx_regs rs s = Some (s\<lparr>gdb_txbuf := gdb_txbuf s @ concat (map (reg_text s \<circ> int) rs)\<rparr>)"
  by (induction rs arbitrary: s) (simp_all add: tx_reg_append comp_def)

lemma all_regs_fit: "(\<Sum>r\<leftarrow>[0..<GDB_NREGS]. 2 * gdb_cpu_regsz (int r)) = 1576"
  by code_simp

definition read_reg_req :: "u64 \<Rightarrow> u8 list" where
  "read_reg_req n = ch CHR ''p'' # jx n"

definition write_reg_req :: "u64 \<times> u64 \<Rightarrow> u8 list" where
  "write_reg_req = (\<lambda>(n, v). ch CHR ''P'' # jx n @ ch CHR ''='' # hexs (le_bytes (gdb_cpu_regsz (to_int n)) v))"

definition write_reg_effect :: "u64 \<times> u64 \<Rightarrow> gdb_st \<Rightarrow> gdb_st" where
  "write_reg_effect = (\<lambda>(n, v). gdb_cpu_setreg (to_int n) v)"

interpretation rr: command read_reg_req "\<lambda>n s. True" "\<lambda>n tp s. reg_text s (to_int n)" "\<lambda>x s. s"
proof (unfold_locales, goal_cases)
  case (1 x s)
  show ?case using jx_no_hash jx_lemma(4) [of x] by (auto simp: req_text_def read_reg_req_def GDB_BUFSZ_def)
next
  case (3 s t x tp)
  then show ?case using core_fields(4) [of s t] by (simp add: reg_text_cong [of s t])
next
  case (6 n s rest tp)
  note c = command_char [OF 6(2), of "ch CHR ''p''" "jx n"]
  have "gdb_rx_varhex (adv 1 s) = (Some n, adv (length (jx n)) (adv 1 s))"
    using 6 c by (intro rx_varhex_jx [where r="[]"]) (simp_all add: read_reg_req_def)
  moreover have "reg_text (adv k s) r = reg_text s r" for k r by (rule reg_text_cong) simp
  ultimately have "cmd_read_reg (adv 1 s) = Some (reply (reg_text s (to_int n)) rest (adv (length (jx n)) (adv 1 s)))"
    using 6 regsz_le [of "to_int n"]
    by (simp add: cmd_read_reg_def tx_begin_eq tx_reg_append tx_end_reply GDB_BUFSZ_def)
  then show ?case using 6 c by (simp add: gdb_command_def stay_def read_reg_req_def rx_wf_def)
qed simp_all

interpretation rg: command "\<lambda>_ :: unit. str ''g''" "\<lambda>_ s. True" "\<lambda>_ tp s. concat (map (reg_text s \<circ> int) [0..<GDB_NREGS])" "\<lambda>x s. s"
proof (unfold_locales, goal_cases)
  case (3 s t x tp)
  then have "reg_text s = reg_text t" using core_fields(4) [of s t] reg_text_cong [of s t] by blast
  then show ?case by simp
next
  case (6 n s rest tp)
  note c = command_char [OF 6(2), of "ch CHR ''g''" "[]"]
  have "reg_text (adv 1 s) = reg_text s" using reg_text_cong [of "adv 1 s" s] by (simp add: fun_eq_iff)
  then have "cmd_read_regs (adv 1 s) = Some (reply (concat (map (reg_text s \<circ> int) [0..<GDB_NREGS])) rest (adv 1 s))"
    using 6 all_regs_fit by (simp add: cmd_read_regs_def tx_begin_eq tx_regs_append tx_end_reply GDB_BUFSZ_def comp_def)
  then show ?case using 6 c by (simp add: gdb_command_def stay_def rx_wf_def)
qed (simp_all add: req_text_def GDB_BUFSZ_def)

text \<open>A register that is set has eight bytes, and its bytes make up the word again.\<close>

lemma le_word_le_bytes: "le_word (le_bytes n v) = take_bit (8 * n) v"
proof (induction n arbitrary: v)
  case (Suc n)
  have "le_bytes (Suc n) v = ucast v # le_bytes n (drop_bit 8 v)"
    unfolding le_bytes_def upt_conv_Cons [OF zero_less_Suc] map_Suc_upt [symmetric]
    by (simp add: comp_def add.commute)
  then have "le_word (le_bytes (Suc n) v) = ucast (ucast v :: u8) OR push_bit 8 (take_bit (8 * n) (drop_bit 8 v))"
    by (simp add: Suc)
  also have "\<dots> = take_bit (8 * Suc n) v" by (rule bit_word_eqI) (auto simp: bit_simps)
  finally show ?case .
qed (simp add: le_bytes_def)

lemma val_word_stored:
  "i + 8 \<le> length buf \<Longrightarrow> val_word (s\<lparr>gdb_rxbuf := store_at i (le_bytes 8 v) buf\<rparr>) i = v"
  using le_word_le_bytes [of 8 v] take_bit_word_eq_self [of 64 v]
  by (simp add: val_word_def store_at_def)

definition settable :: "int \<Rightarrow> bool" where
  "settable r \<longleftrightarrow> (GDB_REG_X0 \<le> r \<and> r \<le> GDB_REG_X29) \<or> r = GDB_REG_SP \<or> r = GDB_REG_PC"

lemma settable_regsz: "settable r \<Longrightarrow> gdb_cpu_regsz r = 8"
  by (auto simp: settable_def gdb_cpu_regsz_def const_defs)

lemma setreg_not_settable: "\<not> settable r \<Longrightarrow> gdb_cpu_setreg r v s = s"
  by (auto simp: settable_def gdb_cpu_setreg_def)

lemma getreg_setreg: "settable r \<Longrightarrow> gdb_cpu_getreg (gdb_cpu_setreg r v s) q = (if q = r then Some v else gdb_cpu_getreg s q)"
  by (auto simp: settable_def gdb_cpu_setreg_def gdb_cpu_getreg_def set_frame_def const_defs Let_def nat_eq_iff)

lemma core_set_frame [simp]: "core (set_frame f s) = (core s)\<lparr>gdb_frame := f (gdb_frame s)\<rparr>"
  by (simp add: set_frame_def)

lemma core_setreg_cong: "core s = core t \<Longrightarrow> core (gdb_cpu_setreg r v s) = core (gdb_cpu_setreg r v t)"
  using core_fields(4) [of s t] by (simp add: gdb_cpu_setreg_def)

lemma setreg_simps [simp]:
  "input (gdb_cpu_setreg r v s) = input s" "port_out (gdb_cpu_setreg r v s) = port_out s"
  "gdb_rxbuf (gdb_cpu_setreg r v s) = gdb_rxbuf s" "linked (gdb_cpu_setreg r v s) = linked s"
  by (simp_all add: gdb_cpu_setreg_def set_frame_def linked_def)

lemma cmd_write_reg_text:
  assumes "rx_wf s" "unread s = jx n @ ch CHR ''='' # hexs (le_bytes (gdb_cpu_regsz (to_int n)) v)"
    "linked s" "input s = ch CHR ''+'' # rest"
  shows "\<exists>s'. cmd_write_reg s = Some (reply (str ''OK'') rest s') \<and> core s' = core (gdb_cpu_setreg (to_int n) v s) \<and>
    port_out s' = port_out s \<and> length (gdb_rxbuf s') = GDB_BUFSZ"
proof -
  let ?r = "to_int n" let ?bs = "le_bytes (gdb_cpu_regsz ?r) v" let ?k = "length (jx n)"
  have sz: "gdb_rxsz s = ?k + 1 + 2 * gdb_cpu_regsz ?r" using assms length_unread [of s] by simp
  have 1: "gdb_rx_varhex s = (Some n, adv ?k s)" using rx_varhex_jx [OF assms(1,2)] separators_no_digits(3) by simp
  have w1: "rx_wf (adv ?k s)" using assms by (intro rx_wf_adv_unread) simp_all
  have 2: "rx_is (ch CHR ''='') (adv ?k s) = (True, adv (?k + 1) s)"
    using rx_is_Cons [OF w1, of "ch CHR ''=''" "hexs ?bs"] assms by simp
  have w2: "rx_wf (adv (?k + 1) s)" using assms by (intro rx_wf_adv_unread) simp_all
  have u2: "unread (adv (?k + 1) s) = hexs ?bs" using assms(2) by simp
  define t where "t = (adv (gdb_rxsz s) s)\<lparr>gdb_rxbuf := store_at (gdb_rxp s) ?bs (gdb_rxbuf s)\<rparr>"
  have 3: "gdb_rx_mem (put_rxbuf (gdb_rxp s)) (of_nat (gdb_cpu_regsz ?r)) (adv (?k + 1) s) = Some (1, t)"
    using rx_mem_length [OF w2 u2, of "of_nat (gdb_cpu_regsz ?r)"] rx_mem_rxbuf [OF w2 u2, of "gdb_rxp s" 0] sz
    by (simp add: gdb_rx_mem_def t_def)
  have "settable ?r \<Longrightarrow> val_word t (gdb_rxp s) = v"
    unfolding t_def using settable_regsz [of ?r] assms(1) sz by (simp add: val_word_stored rx_wf_def)
  then have 4: "gdb_cpu_setreg ?r (val_word t (gdb_rxp s)) t = gdb_cpu_setreg ?r v t"
    using setreg_not_settable [of ?r] by (cases "settable ?r") simp_all
  have "core t = core s" by (simp add: t_def)
  then have "core (gdb_cpu_setreg ?r v t) = core (gdb_cpu_setreg ?r v s)" by (rule core_setreg_cong)
  moreover have "length (gdb_rxbuf t) = GDB_BUFSZ" using assms(1) sz by (simp add: t_def rx_wf_def)
  moreover have "cmd_write_reg s = Some (reply (str ''OK'') rest (gdb_cpu_setreg ?r v t))"
    using 1 2 3 4 assms(3,4) by (simp add: cmd_write_reg_def Let_def tx_ok_reply t_def)
  moreover have "port_out t = port_out s" by (simp add: t_def)
  ultimately show ?thesis by (intro exI [of _ "gdb_cpu_setreg ?r v t"]) simp
qed

interpretation wr: command write_reg_req "\<lambda>x s. True" "\<lambda>x tp s. str ''OK''" write_reg_effect
proof (unfold_locales, goal_cases)
  case (1 x s)
  obtain n v where x: "x = (n, v)" by (cases x)
  show ?case using jx_no_hash hexs_no_hash jx_lemma(4) [of n] regsz_le [of "to_int n"]
    by (auto simp: req_text_def write_reg_req_def x GDB_BUFSZ_def)
next
  case (4 s t x)
  then show ?case using core_setreg_cong [of s t] by (simp add: write_reg_effect_def split: prod.splits)
next
  case (5 s x)
  then show ?case by (simp add: write_reg_effect_def split: prod.splits)
next
  case (6 x s rest tp)
  obtain n v where x: "x = (n, v)" by (cases x)
  note c = command_char [OF 6(2), of "ch CHR ''P''"]
  obtain s' where s': "cmd_write_reg (adv 1 s) = Some (reply (str ''OK'') rest s')"
      "core s' = core (gdb_cpu_setreg (to_int n) v (adv 1 s))" "port_out s' = port_out (adv 1 s)" "length (gdb_rxbuf s') = GDB_BUFSZ"
    using 6 c cmd_write_reg_text [of "adv 1 s" n v rest] by (auto simp: x write_reg_req_def)
  have "core (gdb_cpu_setreg (to_int n) v (adv 1 s)) = core (gdb_cpu_setreg (to_int n) v s)"
    by (rule core_setreg_cong) simp
  then show ?case using 6 c s'
    by (simp add: gdb_command_def stay_def x write_reg_req_def write_reg_effect_def)
qed simp_all

section \<open>Sessions\<close>

lemma mem_write_outside: "(\<forall>k<length bs. x \<noteq> a + of_nat k) \<Longrightarrow> mem_write m a bs x = m x"
proof (induction bs arbitrary: m a)
  case (Cons b bs)
  have "x \<noteq> a" using Cons.prems [rule_format, of 0] by simp
  moreover have "\<forall>k<length bs. x \<noteq> (a + 1) + of_nat k"
  proof (intro allI impI)
    fix k assume "k < length bs"
    then have "x \<noteq> a + of_nat (Suc k)" using Cons.prems [rule_format, of "Suc k"] by simp
    then show "x \<noteq> (a + 1) + of_nat k" by (simp add: add.assoc)
  qed
  ultimately show ?case using Cons.IH by simp
qed simp

lemma mem_range_mem_write: "length bs \<le> 2 ^ 64 \<Longrightarrow> mem_range (mem_write m a bs) a (length bs) = bs"
proof (induction bs arbitrary: m a)
  case (Cons b bs)
  have shift: "mem_range f a (Suc n) = f a # mem_range f (a + 1) n" for f n
    unfolding mem_range_def upt_conv_Cons [OF zero_less_Suc] map_Suc_upt [symmetric]
    by (simp add: comp_def add.assoc)
  have "\<forall>k<length bs. a \<noteq> (a + 1) + of_nat k"
  proof (intro allI impI notI)
    fix k assume k: "k < length bs" and eq: "a = (a + 1) + of_nat k"
    then have "of_nat (Suc k) = (0 :: u64)" by (simp add: add.assoc)
    moreover have "Suc k < 2 ^ 64" using k Cons.prems by simp
    ultimately show False using unat_of_nat_64 [of "Suc k"] by simp
  qed
  then have "mem_write (m(a := b)) (a + 1) bs a = b" by (subst mem_write_outside) simp_all
  then show ?case using Cons by (simp add: shift)
qed (simp add: mem_range_def)

lemma fits_length: "fits (write_req (a, bs)) \<Longrightarrow> 2 * length bs \<le> GDB_BUFSZ \<and> length bs < 2 ^ 64"
  by (simp add: fits_def write_req_def GDB_BUFSZ_def)

text \<open>
  C5: A memory session. The bytes a debugger writes with an \<open>M\<close> packet are stored at the address and
  nowhere else, the write is acknowledged with \<open>OK\<close>, an \<open>m\<close> packet for the same range is answered
  with the same bytes, and the command loop goes on with the rest of the input; nothing else of the
  stub's state has changed.
\<close>
theorem memory_session:
  assumes "linked s" "length (gdb_rxbuf s) = GDB_BUFSZ" "fits (write_req (a, bs))"
    "input s = request (write_req (a, bs)) @ ch CHR ''+'' # request (read_req (a, of_nat (length bs))) @ ch CHR ''+'' # rest"
  shows "\<exists>s'. trap_loop tp s = trap_loop tp s' \<and> core s' = core (s\<lparr>tmem := tmem s'\<rparr>) \<and> input s' = rest \<and>
    mem_range (tmem s') a (length bs) = bs \<and> (\<forall>x. (\<forall>k<length bs. x \<noteq> a + of_nat k) \<longrightarrow> tmem s' x = tmem s x) \<and>
    port_out s' = port_out s @ map Putc (ch CHR ''+'' # rle_frame (str ''OK'') @ ch CHR ''+'' # rle_frame (hexs bs))"
proof -
  obtain s1 where s1: "trap_loop tp s = trap_loop tp s1" "core s1 = core (write_effect (a, bs) s)" "linked s1"
      "input s1 = request (read_req (a, of_nat (length bs))) @ ch CHR ''+'' # rest"
      "port_out s1 = port_out s @ Putc (ch CHR ''+'') # map Putc (rle_frame (str ''OK''))" "length (gdb_rxbuf s1) = GDB_BUFSZ"
    using wm.served [of "(a, bs)" s _ tp] assms by blast
  have n: "unat (of_nat (length bs) :: u64) = length bs" using fits_length [OF assms(3)] by (intro unat_of_nat_64) simp
  then obtain s2 where s2: "trap_loop tp s1 = trap_loop tp s2" "core s2 = core s1" "input s2 = rest"
      "port_out s2 = port_out s1 @ Putc (ch CHR ''+'') # map Putc (rle_frame (hexs (mem_range (tmem s1) a (length bs))))"
    using rm.served [of "(a, of_nat (length bs))" s1 rest tp] s1 fits_length [OF assms(3)] by auto
  have m: "tmem s1 = mem_write (tmem s) a bs" "tmem s2 = tmem s1"
    using core_fields(3) [OF s1(2)] core_fields(3) [OF s2(2)] by (simp_all add: write_effect_def)
  show ?thesis
    using s1 s2 m fits_length [OF assms(3)]
    by (intro exI [of _ s2]) (simp add: write_effect_def mem_range_mem_write mem_write_outside)
qed

definition mem_example :: gdb_st where
  "mem_example = idle\<lparr>input := request (str ''M1000,2:2a07'') @ ch CHR ''+'' # request (str ''m1000,2'') @ [ch CHR ''+'']\<rparr>"

lemma mem_requests:
  "write_req (0x1000, [0x2a, 0x07]) = str ''M1000,2:2a07''" "read_req (0x1000, of_nat (length [0x2a, 0x07 :: u8])) = str ''m1000,2''"
  "hexs [0x2a, 0x07] = str ''2a07''"
  by code_simp+

theorem memory_session_witness:
  "\<exists>s'. trap_loop 0x3c mem_example = trap_loop 0x3c s' \<and> tmem s' 0x1000 = 0x2a \<and> tmem s' 0x1001 = 0x07 \<and> tmem s' 0x1002 = 0 \<and>
    port_out s' = map Putc (ch CHR ''+'' # rle_frame (str ''OK'') @ ch CHR ''+'' # rle_frame (str ''2a07''))"
proof -
  have k: "(\<forall>k<2. (0x1002 :: u64) \<noteq> 0x1000 + of_nat k)" by (simp add: less_2_cases_iff)
  have f: "fits (write_req (0x1000, [0x2a, 0x07]))" unfolding mem_requests by (simp add: fits_def GDB_BUFSZ_def)
  have l: "linked mem_example" "length (gdb_rxbuf mem_example) = GDB_BUFSZ" and e: "port_out mem_example = []" "tmem mem_example = (\<lambda>_. 0)"
    by (simp_all add: mem_example_def linked_def idle_def GDB_BUFSZ_def)
  have i: "input mem_example = request (write_req (0x1000, [0x2a, 0x07])) @ ch CHR ''+'' #
      request (read_req (0x1000, of_nat (length [0x2a, 0x07 :: u8]))) @ [ch CHR ''+'']"
    unfolding mem_requests mem_example_def by simp
  have "\<exists>s'. trap_loop 0x3c mem_example = trap_loop 0x3c s' \<and> mem_range (tmem s') 0x1000 2 = [0x2a, 0x07] \<and>
      (\<forall>x. (\<forall>k<2. x \<noteq> 0x1000 + of_nat k) \<longrightarrow> tmem s' x = 0) \<and>
      port_out s' = map Putc (ch CHR ''+'' # rle_frame (str ''OK'') @ ch CHR ''+'' # rle_frame (str ''2a07''))"
    using memory_session [OF l f i, of "0x3c"] e unfolding mem_requests(3)
    by (elim ex_forward) (simp add: numeral_2_eq_2 [symmetric])
  then show ?thesis using k by (elim ex_forward) (simp add: mem_range_def upt_rec)
qed

end
