(* ===== verification/GdbErrors.thy ===== *)
theory GdbErrors
  imports GdbMemory
begin

text \<open>
  Requests the stub does not check: a length that does not match the data, a length whose double
  wraps around, and a read that does not fit in the transmit buffer.
\<close>

section \<open>A length that does not match\<close>

definition odd_write_req :: "u64 \<times> u64 \<times> u8 list \<Rightarrow> u8 list" where
  "odd_write_req = (\<lambda>(a, n, xs). ch CHR ''M'' # jx a @ ch CHR '','' # jx n @ ch CHR '':'' # xs)"

definition mismatch :: "u64 \<times> u64 \<times> u8 list \<Rightarrow> bool" where
  "mismatch = (\<lambda>(a, n, xs). unat (n * 2) \<noteq> length xs)"

lemma write_mem_arguments:
  assumes "rx_wf s" "unread s = jx a @ ch CHR '','' # jx n @ ch CHR '':'' # xs"
  shows "\<exists>k. cmd_write_mem s = do { (ret, s) \<leftarrow> gdb_rx_mem (put_target a) n (adv k s); if ret = 0 then gdb_tx_err EIO s else gdb_tx_ok s } \<and>
    unread (adv k s) = xs \<and> rx_wf (adv k s)"
proof -
  let ?k = "length (jx a) + 1 + length (jx n)"
  have 1: "rx_addr_size s = (Some (a, n), adv ?k s)"
    using rx_addr_size_text [OF assms] separators_no_digits(2) by simp
  have w1: "rx_wf (adv ?k s)" using assms by (intro rx_wf_adv_unread) simp_all
  have 2: "rx_is (ch CHR '':'') (adv ?k s) = (True, adv (?k + 1) s)"
    using rx_is_Cons [OF w1, of "ch CHR '':''" xs] assms by simp
  have "rx_wf (adv (?k + 1) s)" using assms by (intro rx_wf_adv_unread) simp_all
  moreover have "unread (adv (?k + 1) s) = xs" using assms(2) by simp
  ultimately show ?thesis using 1 2 by (intro exI [of _ "?k + 1"]) (simp add: cmd_write_mem_def)
qed

interpretation ow: command odd_write_req "\<lambda>x s. mismatch x \<and> req_text (odd_write_req x)" "\<lambda>x tp s. str ''OK''" "\<lambda>x s. s"
proof (unfold_locales, goal_cases)
  case (6 x s rest tp)
  obtain a n xs where x: "x = (a, n, xs)" by (cases x)
  note c = command_char [OF 6(2), of "ch CHR ''M''"]
  obtain k where k: "cmd_write_mem (adv 1 s) = do { (ret, s) \<leftarrow> gdb_rx_mem (put_target a) n (adv k (adv 1 s)); if ret = 0 then gdb_tx_err EIO s else gdb_tx_ok s }"
      "unread (adv k (adv 1 s)) = xs" "rx_wf (adv k (adv 1 s))"
    using write_mem_arguments [of "adv 1 s" a n xs] 6 c by (auto simp: x odd_write_req_def)
  have "gdb_rxsz (adv k (adv 1 s)) = length xs" using length_unread [OF k(3)] by (simp only: k(2))
  then have "gdb_rx_mem (put_target a) n (adv k (adv 1 s)) = Some (- 1, adv k (adv 1 s))"
    using 6(1) by (simp add: gdb_rx_mem_def x mismatch_def)
  then have "cmd_write_mem (adv 1 s) = Some (reply (str ''OK'') rest (adv k (adv 1 s)))"
    using k(1) 6 by (simp add: tx_ok_reply)
  then show ?case using 6 c by (simp add: gdb_command_def stay_def x odd_write_req_def rx_wf_def)
qed simp_all

text \<open>
  A write whose data is shorter or longer than its length says is acknowledged with \<open>OK\<close>, and
  nothing is written.
\<close>
theorem write_mismatch_acknowledged:
  assumes "linked s" "length (gdb_rxbuf s) = GDB_BUFSZ" "unat (n * 2) \<noteq> length xs" "req_text (odd_write_req (a, n, xs))"
    "input s = request (odd_write_req (a, n, xs)) @ ch CHR ''+'' # rest"
  shows "\<exists>s'. trap_loop tp s = trap_loop tp s' \<and> core s' = core s \<and> input s' = rest \<and>
    port_out s' = port_out s @ map Putc (ch CHR ''+'' # rle_frame (str ''OK''))"
  using ow.served [of "(a, n, xs)" s rest tp] assms by (auto simp: mismatch_def)

theorem write_mismatch_acknowledged_witness:
  "\<exists>s'. trap_loop 0x3c (idle\<lparr>input := request (str ''M1000,4:2a'') @ [ch CHR ''+'']\<rparr>) = trap_loop 0x3c s' \<and>
    tmem s' = tmem idle \<and> port_out s' = map Putc (ch CHR ''+'' # rle_frame (str ''OK''))"
proof -
  let ?s = "idle\<lparr>input := request (str ''M1000,4:2a'') @ [ch CHR ''+'']\<rparr>"
  have q: "odd_write_req (0x1000, 4, str ''2a'') = str ''M1000,4:2a''" by code_simp
  have l: "linked ?s" "length (gdb_rxbuf ?s) = GDB_BUFSZ" "port_out ?s = []" by (simp_all add: linked_def idle_def GDB_BUFSZ_def)
  have r: "req_text (odd_write_req (0x1000, 4, str ''2a''))" unfolding q by (simp add: req_text_def GDB_BUFSZ_def)
  have i: "input ?s = request (odd_write_req (0x1000, 4, str ''2a'')) @ ch CHR ''+'' # []" unfolding q by simp
  show ?thesis using write_mismatch_acknowledged [OF l(1,2) _ r i, of "0x3c"] l(3)
    by (simp, elim ex_forward) (auto dest: core_fields(3))
qed

section \<open>A length whose double wraps around\<close>

lemma FASSERT_False: "\<not> b \<Longrightarrow> Option.bind (FASSERT b) f = None"
  by (simp add: FASSERT_def)

lemma rx_mem_loop_overrun:
  assumes "\<And>k c s. gdb_rxp (put k c s) = gdb_rxp s" "\<And>k c s. gdb_rxbuf (put k c s) = gdb_rxbuf s"
  shows "0 < n \<Longrightarrow> length (gdb_rxbuf s) < gdb_rxp s + 2 * n \<Longrightarrow> rx_mem_loop put k n s = None"
proof (induction n arbitrary: k s)
  case (Suc n)
  show ?case
  proof (cases "gdb_rxp s + 1 < length (gdb_rxbuf s)")
    case True
    then show ?thesis using Suc assms by (simp add: Let_def)
  next
    case False
    then show ?thesis by (simp add: FASSERT_False)
  qed
qed simp

lemma rx_begin_command_None:
  assumes "req_text p" "input s = request p @ rest" "gdb_ackmode s" "length (gdb_rxbuf s) = GDB_BUFSZ"
    "\<And>t. rx_wf t \<Longrightarrow> unread t = p \<Longrightarrow> core t = core s \<Longrightarrow> gdb_command tp t = None"
  shows "trap_loop tp s = None"
proof -
  obtain t where "gdb_rx_begin s = Some (0, t)" "rx_wf t" "unread t = p" "core t = core s"
    using rx_begin_request [OF assms(1-4)] by blast
  then show ?thesis using assms(5) by (simp add: trap_loop.simps [of tp s])
qed

text \<open>
  C38: The length is compared with the data after a 64-bit doubling. A length of \<open>2 ^ 63\<close> with no data
  passes, and the loop that decodes runs past the end of the receive buffer, whatever follows on the
  line: the command does not complete.
\<close>
theorem write_length_wraps:
  assumes "gdb_ackmode s" "length (gdb_rxbuf s) = GDB_BUFSZ" "input s = request (odd_write_req (a, 0x8000000000000000, [])) @ rest"
  shows "trap_loop tp s = None"
proof (rule rx_begin_command_None [OF _ assms(3,1,2)])
  show "req_text (odd_write_req (a, 0x8000000000000000, []))"
    using jx_no_hash [of a] jx_no_hash [of "0x8000000000000000"] jx_lemma(4) [of a] jx_lemma(4) [of "0x8000000000000000"]
    by (auto simp: odd_write_req_def req_text_def GDB_BUFSZ_def)
  fix t assume t: "rx_wf t" "unread t = odd_write_req (a, 0x8000000000000000, [])"
  note c = command_char [OF t(1), of "ch CHR ''M''"]
  obtain k where k: "cmd_write_mem (adv 1 t) = do { (ret, s) \<leftarrow> gdb_rx_mem (put_target a) 0x8000000000000000 (adv k (adv 1 t)); if ret = 0 then gdb_tx_err EIO s else gdb_tx_ok s }"
      "unread (adv k (adv 1 t)) = []" "rx_wf (adv k (adv 1 t))"
    using write_mem_arguments [of "adv 1 t" a "0x8000000000000000" "[]"] t c by (auto simp: odd_write_req_def)
  let ?u = "adv k (adv 1 t)"
  have z: "gdb_rxsz ?u = 0" "length (gdb_rxbuf ?u) = 4096" using length_unread [OF k(3)] k(2,3) by (simp_all add: rx_wf_def GDB_BUFSZ_def)
  have "rx_mem_loop (put_target a) 0 (unat (0x8000000000000000 :: u64)) ?u = None"
    by (rule rx_mem_loop_overrun) (use z in \<open>simp_all add: put_target_def\<close>)
  then have "gdb_rx_mem (put_target a) 0x8000000000000000 ?u = None" using z(1) by (simp add: gdb_rx_mem_def)
  then show "gdb_command tp t = None" using k(1) c t(2) by (simp add: gdb_command_def stay_def odd_write_req_def)
qed

theorem write_length_wraps_witness:
  "trap_loop 0x3c (idle\<lparr>input := request (odd_write_req (0x1000, 0x8000000000000000, [])) @ str ''+$c#63''\<rparr>) = None"
  using write_length_wraps [of "idle\<lparr>input := request (odd_write_req (0x1000, 0x8000000000000000, [])) @ str ''+$c#63''\<rparr>"]
  by (simp add: idle_simps)

section \<open>A read that does not fit\<close>

lemma tx_mem_overrun: "GDB_BUFSZ < length (gdb_txbuf s) + 2 * length bs \<Longrightarrow> length (gdb_txbuf s) \<le> GDB_BUFSZ \<Longrightarrow> gdb_tx_mem bs s = None"
proof (induction bs arbitrary: s)
  case (Cons b bs)
  have full: "\<not> length (gdb_txbuf t) < GDB_BUFSZ \<Longrightarrow> gdb_tx_char c t = None" for c t
    by (simp add: gdb_tx_char_def FASSERT_False)
  show ?case
  proof (cases "length (gdb_txbuf s) + 2 \<le> GDB_BUFSZ")
    case True
    then show ?thesis using Cons by (simp add: tx_char_append)
  next
    case False
    then show ?thesis using Cons.prems full by (cases "length (gdb_txbuf s) < GDB_BUFSZ") (simp_all add: tx_char_append)
  qed
qed simp

text \<open>
  A read of more than 2048 bytes is not refused: the digits run past the end of the transmit
  buffer. \<open>gdb_txbuf_has_capacity\<close>, the check that would stop it, is not called.
\<close>
theorem read_overruns_transmit_buffer:
  assumes "gdb_ackmode s" "length (gdb_rxbuf s) = GDB_BUFSZ" "input s = request (read_req (a, n)) @ rest" "2 * unat n > GDB_BUFSZ"
  shows "trap_loop tp s = None \<and> \<not> gdb_txbuf_has_capacity (s\<lparr>gdb_txbuf := []\<rparr>) (2 * unat n)"
proof
  show "\<not> gdb_txbuf_has_capacity (s\<lparr>gdb_txbuf := []\<rparr>) (2 * unat n)" using assms(4) by (simp add: gdb_txbuf_has_capacity_def)
  show "trap_loop tp s = None"
  proof (rule rx_begin_command_None [OF _ assms(3,1,2)])
    show "req_text (read_req (a, n))"
      using jx_no_hash [of a] jx_no_hash [of n] jx_lemma(4) [of a] jx_lemma(4) [of n] by (auto simp: read_req_def req_text_def GDB_BUFSZ_def)
    fix t assume t: "rx_wf t" "unread t = read_req (a, n)"
    note c = command_char [OF t(1), of "ch CHR ''m''" "jx a @ ch CHR '','' # jx n"]
    obtain k where "rx_addr_size (adv 1 t) = (Some (a, n), adv k (adv 1 t))"
      using rx_addr_size_text [of "adv 1 t" a n "[]"] c t by (auto simp: read_req_def)
    then have "cmd_read_mem (adv 1 t) = None"
      using assms(4) by (simp add: cmd_read_mem_def tx_begin_eq tx_mem_overrun mem_range_def)
    then show "gdb_command tp t = None" using c t(2) by (simp add: gdb_command_def stay_def read_req_def)
  qed
qed

theorem read_overruns_transmit_buffer_witness:
  "trap_loop 0x3c (idle\<lparr>input := request (read_req (0x1000, 0x1000)) @ str ''+$c#63''\<rparr>) = None"
  using read_overruns_transmit_buffer [of "idle\<lparr>input := request (read_req (0x1000, 0x1000)) @ str ''+$c#63''\<rparr>" "0x1000" "0x1000"]
  by (simp add: idle_simps GDB_BUFSZ_def)

end
