(* ===== verification/GdbBreak.thy ===== *)
theory GdbBreak
  imports GdbMemory "HOL-Library.Multiset"
begin

text \<open>
  Breakpoints and watchpoints: the slots of the monitor against an abstract collection of armed
  addresses. Both banks of debug registers meet one contract, the locale \<open>bank\<close>; the invariant of
  the monitor ties the count of enabled slots and the enable flag to the slots, and the debug
  registers mirror the slots.
\<close>

section \<open>Armed slots\<close>

definition armed :: "nat \<Rightarrow> (nat \<Rightarrow> u64) \<Rightarrow> (nat \<Rightarrow> u64) \<Rightarrow> (u64 \<times> u64) multiset" where
  "armed n addr ctrl = mset (map (\<lambda>i. (addr i, ctrl i)) (filter (\<lambda>i. ctrl i AND DBG_WB_CTRL_E \<noteq> 0) [0..<n]))"

lemma armed_Suc:
  "armed (Suc n) addr ctrl = armed n addr ctrl + (if ctrl n AND DBG_WB_CTRL_E \<noteq> 0 then {#(addr n, ctrl n)#} else {#})"
  by (simp add: armed_def)

lemma armed_0 [simp]: "armed 0 addr ctrl = {#}"
  by (simp add: armed_def)

lemma armed_beyond: "n \<le> i \<Longrightarrow> armed n (addr(i := a)) (ctrl(i := c)) = armed n addr ctrl"
  by (induction n) (simp_all add: armed_Suc)

lemma armed_update:
  assumes "i < n"
  shows "armed n (addr(i := a)) (ctrl(i := c)) + (if ctrl i AND DBG_WB_CTRL_E \<noteq> 0 then {#(addr i, ctrl i)#} else {#}) =
    armed n addr ctrl + (if c AND DBG_WB_CTRL_E \<noteq> 0 then {#(a, c)#} else {#})"
  using assms
proof (induction n)
  case (Suc n)
  show ?case
  proof (cases "i = n")
    case True
    then show ?thesis using armed_beyond [of n n addr a ctrl c] by (simp add: armed_Suc fun_upd_def)
  next
    case False
    then have "i < n" using Suc.prems by simp
    then show ?thesis using Suc.IH False by (simp add: armed_Suc ac_simps split: if_splits)
  qed
qed simp

lemma find_index: "find P [0..<n] = Some i \<Longrightarrow> i < n \<and> P i"
  by (auto simp: find_Some_iff)

lemma find_index_None: "find P [0..<n] = None \<longleftrightarrow> (\<forall>i<n. \<not> P i)"
  by (simp add: find_None_iff)

lemma size_armed_le: "size (armed n addr ctrl) \<le> n"
  by (induction n) (auto simp: armed_Suc)

lemma armed_full: "(\<forall>i<n. ctrl i AND DBG_WB_CTRL_E \<noteq> 0) \<longleftrightarrow> size (armed n addr ctrl) = n"
proof (induction n)
  case (Suc n)
  then show ?case using size_armed_le [of n addr ctrl] by (auto simp: armed_Suc less_Suc_eq)
qed simp

lemma armed_addr: "(\<exists>i<n. addr i = a \<and> ctrl i AND DBG_WB_CTRL_E \<noteq> 0) \<longleftrightarrow> a \<in> fst ` set_mset (armed n addr ctrl)"
  by (auto simp: armed_def image_iff)

section \<open>Banks\<close>

text \<open>
  A bank of debug registers: how many slots there are, the registers of the monitor, and how a
  slot is written. The two search functions of the stub work on it.
\<close>

locale bank =
  fixes tp :: FGdbBreakType and num :: "gdb_st \<Rightarrow> nat"
    and addr :: "FGdbDebugMonitorState \<Rightarrow> nat \<Rightarrow> u64" and ctrl :: "FGdbDebugMonitorState \<Rightarrow> nat \<Rightarrow> u64"
  assumes find_free: "dbg_find_free_slot s tp = find (\<lambda>i. ctrl (monitor s) i AND DBG_WB_CTRL_E = 0) [0..<num s]"
    and find_slot: "dbg_find_slot s tp a = find (\<lambda>i. addr (monitor s) i = a \<and> ctrl (monitor s) i AND DBG_WB_CTRL_E \<noteq> 0) [0..<num s]"
begin

abbreviation slots :: "gdb_st \<Rightarrow> (u64 \<times> u64) multiset" where
  "slots s \<equiv> armed (num s) (addr (monitor s)) (ctrl (monitor s))"

lemma free_None: "dbg_find_free_slot s tp = None \<longleftrightarrow> size (slots s) = num s"
  using armed_full [of "num s" "ctrl (monitor s)" "addr (monitor s)"] by (simp add: find_free find_index_None)

lemma free_Some:
  assumes "dbg_find_free_slot s tp = Some i" "c AND DBG_WB_CTRL_E \<noteq> 0"
  shows "i < num s" "armed (num s) ((addr (monitor s))(i := a)) ((ctrl (monitor s))(i := c)) = add_mset (a, c) (slots s)"
proof -
  have i: "i < num s" "ctrl (monitor s) i AND DBG_WB_CTRL_E = 0" using find_index assms(1) by (auto simp: find_free)
  then show "i < num s" by simp
  show "armed (num s) ((addr (monitor s))(i := a)) ((ctrl (monitor s))(i := c)) = add_mset (a, c) (slots s)"
    using armed_update [OF i(1), of "addr (monitor s)" a "ctrl (monitor s)" c] i(2) assms(2) by simp
qed

lemma slot_None: "dbg_find_slot s tp a = None \<longleftrightarrow> a \<notin> fst ` set_mset (slots s)"
  using armed_addr [of "num s" "addr (monitor s)" a "ctrl (monitor s)"] by (auto simp: find_slot find_index_None)

lemma slot_Some:
  assumes "dbg_find_slot s tp a = Some i"
  shows "i < num s" "add_mset (a, ctrl (monitor s) i) (armed (num s) ((addr (monitor s))(i := 0)) ((ctrl (monitor s))(i := 0))) = slots s"
proof -
  have i: "i < num s" "addr (monitor s) i = a" "ctrl (monitor s) i AND DBG_WB_CTRL_E \<noteq> 0"
    using find_index assms by (auto simp: find_slot)
  then show "i < num s" by simp
  show "add_mset (a, ctrl (monitor s) i) (armed (num s) ((addr (monitor s))(i := 0)) ((ctrl (monitor s))(i := 0))) = slots s"
    using armed_update [OF i(1), of "addr (monitor s)" 0 "ctrl (monitor s)" 0] i(2,3) by simp
qed

end

interpretation bp: bank DBG_TYPE_BREAKPOINT dbg_breakpoint_num dbg_bvr dbg_bcr
  by unfold_locales (simp_all add: dbg_find_free_slot_def dbg_find_slot_def)

interpretation wp: bank DBG_TYPE_WATCHPOINT dbg_watchpoint_num dbg_wvr dbg_wcr
  by unfold_locales (simp_all add: dbg_find_free_slot_def dbg_find_slot_def)

definition bps :: "gdb_st \<Rightarrow> (u64 \<times> u64) multiset" where
  "bps s = armed (dbg_breakpoint_num s) (dbg_bvr (monitor s)) (dbg_bcr (monitor s))"

definition wps :: "gdb_st \<Rightarrow> (u64 \<times> u64) multiset" where
  "wps s = armed (dbg_watchpoint_num s) (dbg_wvr (monitor s)) (dbg_wcr (monitor s))"

section \<open>Writing the debug registers\<close>

definition sync_regs :: "nat \<Rightarrow> (nat \<Rightarrow> u64) \<Rightarrow> (nat \<Rightarrow> u64) \<Rightarrow> nat \<Rightarrow> u64" where
  "sync_regs n new old = (\<lambda>i. if i < n then new i else old i)"

lemma sync_regs_Suc: "(sync_regs n new old)(n := new n) = sync_regs (Suc n) new old" "sync_regs 0 new old = old"
  by (auto simp: sync_regs_def)

lemma write_regs_bank:
  assumes "i < 16"
  shows "dbg_wb_write_reg DBG_REG_BASE_BVR i v s = set_hw (\<lambda>h. h\<lparr>dbgbvr := (dbgbvr h)(i := v)\<rparr>) s"
    "dbg_wb_write_reg DBG_REG_BASE_BCR i v s = set_hw (\<lambda>h. h\<lparr>dbgbcr := (dbgbcr h)(i := v)\<rparr>) s"
    "dbg_wb_write_reg DBG_REG_BASE_WVR i v s = set_hw (\<lambda>h. h\<lparr>dbgwvr := (dbgwvr h)(i := v)\<rparr>) s"
    "dbg_wb_write_reg DBG_REG_BASE_WCR i v s = set_hw (\<lambda>h. h\<lparr>dbgwcr := (dbgwcr h)(i := v)\<rparr>) s"
  using assms by (simp_all add: dbg_wb_write_reg_def const_defs)

lemma sync_breakpoints:
  "n \<le> 16 \<Longrightarrow> fold (\<lambda>i s. dbg_wb_write_reg DBG_REG_BASE_BVR i (dbg_bvr (monitor s) i)
      (dbg_wb_write_reg DBG_REG_BASE_BCR i (dbg_bcr (monitor s) i) s)) [0..<n] s =
    set_hw (\<lambda>h. h\<lparr>dbgbcr := sync_regs n (dbg_bcr (monitor s)) (dbgbcr h), dbgbvr := sync_regs n (dbg_bvr (monitor s)) (dbgbvr h)\<rparr>) s"
proof (induction n)
  case (Suc n)
  then show ?case by (simp add: write_regs_bank set_hw_def sync_regs_Suc)
qed (simp add: set_hw_def sync_regs_Suc)

lemma sync_watchpoints:
  "n \<le> 16 \<Longrightarrow> fold (\<lambda>i s. dbg_wb_write_reg DBG_REG_BASE_WVR i (dbg_wvr (monitor s) i)
      (dbg_wb_write_reg DBG_REG_BASE_WCR i (dbg_wcr (monitor s) i) s)) [0..<n] s =
    set_hw (\<lambda>h. h\<lparr>dbgwcr := sync_regs n (dbg_wcr (monitor s)) (dbgwcr h), dbgwvr := sync_regs n (dbg_wvr (monitor s)) (dbgwvr h)\<rparr>) s"
proof (induction n)
  case (Suc n)
  then show ?case by (simp add: write_regs_bank set_hw_def sync_regs_Suc)
qed (simp add: set_hw_def sync_regs_Suc)

definition mirrored :: "gdb_st \<Rightarrow> bool" where
  "mirrored s \<longleftrightarrow>
    (\<forall>i<dbg_breakpoint_num s. dbgbvr (hw s) i = dbg_bvr (monitor s) i \<and> dbgbcr (hw s) i = dbg_bcr (monitor s) i) \<and>
    (\<forall>i<dbg_watchpoint_num s. dbgwvr (hw s) i = dbg_wvr (monitor s) i \<and> dbgwcr (hw s) i = dbg_wcr (monitor s) i)"

definition banks_ok :: "gdb_st \<Rightarrow> bool" where
  "banks_ok s \<longleftrightarrow> dbg_breakpoint_num s \<le> 16 \<and> dbg_watchpoint_num s \<le> 16"

text \<open>Monitor debug events are enabled in the processor while the monitor is enabled.\<close>

definition events_on :: "gdb_st \<Rightarrow> bool" where
  "events_on s \<longleftrightarrow> mdscr_el1 (hw s) AND MDSCR_MDE \<noteq> 0"

lemma MDE_bits: "MDSCR_MDE \<noteq> 0" "(x OR MDSCR_MDE) AND MDSCR_MDE = MDSCR_MDE" "(x AND NOT (MDSCR_MDE OR MDSCR_KDE)) AND MDSCR_MDE = 0" "((x OR MDSCR_MDE) OR MDSCR_KDE) AND MDSCR_MDE = MDSCR_MDE"
proof -
  show "MDSCR_MDE \<noteq> 0" by (simp add: MDSCR_MDE_def)
  show "(x OR MDSCR_MDE) AND MDSCR_MDE = MDSCR_MDE" "(x AND NOT (MDSCR_MDE OR MDSCR_KDE)) AND MDSCR_MDE = 0" "((x OR MDSCR_MDE) OR MDSCR_KDE) AND MDSCR_MDE = MDSCR_MDE"
    by (rule bit_word_eqI, auto simp: bit_and_iff bit_or_iff bit_not_iff)+
qed

definition sync_mdscr :: "u32 \<Rightarrow> u64 \<Rightarrow> u64" where
  "sync_mdscr flags mdscr = (if flags AND DBGMON_ENABLED = 0 then mdscr AND NOT (MDSCR_MDE OR MDSCR_KDE)
     else if flags AND DBGMON_KERNEL = DBGMON_KERNEL then (mdscr OR MDSCR_MDE) OR MDSCR_KDE else mdscr OR MDSCR_MDE)"

lemma sync_mdscr_MDE: "sync_mdscr flags x AND MDSCR_MDE \<noteq> 0 \<longleftrightarrow> flags AND DBGMON_ENABLED \<noteq> 0"
  unfolding sync_mdscr_def by (simp only: MDE_bits split: if_split) simp

lemma register_sync_hw:
  assumes "banks_ok s"
  shows "dbg_register_sync s = s\<lparr>hw := (hw s)
    \<lparr>dbgbcr := sync_regs (dbg_breakpoint_num s) (dbg_bcr (monitor s)) (dbgbcr (hw s)),
     dbgbvr := sync_regs (dbg_breakpoint_num s) (dbg_bvr (monitor s)) (dbgbvr (hw s)),
     dbgwcr := sync_regs (dbg_watchpoint_num s) (dbg_wcr (monitor s)) (dbgwcr (hw s)),
     dbgwvr := sync_regs (dbg_watchpoint_num s) (dbg_wvr (monitor s)) (dbgwvr (hw s)),
     mdscr_el1 := sync_mdscr (dbg_flags (monitor s)) (mdscr_el1 (hw s))\<rparr>\<rparr>"
  using assms
  by (simp add: dbg_register_sync_def Let_def banks_ok_def sync_breakpoints sync_watchpoints set_hw_def sync_mdscr_def)

lemma sync_unchanged [simp]:
  assumes "banks_ok s"
  shows "monitor (dbg_register_sync s) = monitor s" "dbg_breakpoint_num (dbg_register_sync s) = dbg_breakpoint_num s"
    "dbg_watchpoint_num (dbg_register_sync s) = dbg_watchpoint_num s" "bps (dbg_register_sync s) = bps s"
    "wps (dbg_register_sync s) = wps s" "mirrored (dbg_register_sync s)"
    "events_on (dbg_register_sync s) \<longleftrightarrow> dbg_flags (monitor s) AND DBGMON_ENABLED \<noteq> 0"
    "but_rx (dbg_register_sync s) = but_rx (s\<lparr>hw := hw (dbg_register_sync s)\<rparr>)"
  unfolding register_sync_hw [OF assms]
  by (simp_all add: bps_def wps_def mirrored_def sync_regs_def events_on_def sync_mdscr_MDE)

section \<open>The monitor invariant\<close>

definition monitor_inv :: "gdb_st \<Rightarrow> bool" where
  "monitor_inv s \<longleftrightarrow> banks_ok s \<and> mirrored s \<and>
    unat (dbg_enable_count (monitor s)) = size (bps s) + size (wps s) \<and>
    (dbg_flags (monitor s) AND DBGMON_ENABLED \<noteq> 0 \<longleftrightarrow> bps s \<noteq> {#} \<or> wps s \<noteq> {#}) \<and>
    dbg_flags (monitor s) AND DBGMON_KERNEL \<noteq> 0"

lemma bit0_flags:
  "DBGMON_ENABLED \<noteq> 0" "(f OR DBGMON_ENABLED) AND DBGMON_KERNEL = f AND DBGMON_KERNEL"
  "(f AND NOT DBGMON_ENABLED) AND DBGMON_ENABLED = 0" "(f AND NOT DBGMON_ENABLED) AND DBGMON_KERNEL = f AND DBGMON_KERNEL"
proof -
  have e: "DBGMON_ENABLED = push_bit 0 1" "DBGMON_KERNEL = push_bit 1 1" by (simp_all add: const_defs)
  show "DBGMON_ENABLED \<noteq> 0" by (simp add: e)
  show "(f OR DBGMON_ENABLED) AND DBGMON_KERNEL = f AND DBGMON_KERNEL" "(f AND NOT DBGMON_ENABLED) AND DBGMON_ENABLED = 0"
    "(f AND NOT DBGMON_ENABLED) AND DBGMON_KERNEL = f AND DBGMON_KERNEL"
    unfolding e by (rule bit_word_eqI, auto simp: bit_simps)+
qed

lemma bps_wps_le: "banks_ok s \<Longrightarrow> size (bps s) + size (wps s) \<le> 32"
  using size_armed_le [of "dbg_breakpoint_num s" "dbg_bvr (monitor s)" "dbg_bcr (monitor s)"]
    size_armed_le [of "dbg_watchpoint_num s" "dbg_wvr (monitor s)" "dbg_wcr (monitor s)"]
  by (simp add: bps_def wps_def banks_ok_def)

text \<open>Arming and disarming a slot, in the monitor, with the count and the flag.\<close>

definition armed_more :: "gdb_st \<Rightarrow> FGdbDebugMonitorState \<Rightarrow> bool" where
  "armed_more s m \<longleftrightarrow> dbg_enable_count m = dbg_enable_count (monitor s) + 1 \<and> dbg_flags m = dbg_flags (monitor s) OR DBGMON_ENABLED"

lemma arm_inv:
  assumes "monitor_inv s" "armed_more s m" "size (bps (s\<lparr>monitor := m\<rparr>)) + size (wps (s\<lparr>monitor := m\<rparr>)) = size (bps s) + size (wps s) + 1"
  shows "monitor_inv (dbg_register_sync (s\<lparr>monitor := m\<rparr>))" "events_on (dbg_register_sync (s\<lparr>monitor := m\<rparr>))"
proof -
  let ?t = "s\<lparr>monitor := m\<rparr>"
  have b: "banks_ok ?t" "banks_ok s" using assms(1) by (simp_all add: monitor_inv_def banks_ok_def)
  then have b': "banks_ok (dbg_register_sync ?t)" by (simp add: banks_ok_def)
  have le: "size (bps s) + size (wps s) \<le> 32" using bps_wps_le [OF b(2)] .
  have "unat (dbg_enable_count (monitor s)) = size (bps s) + size (wps s)" using assms(1) by (simp add: monitor_inv_def)
  then have "unat (dbg_enable_count (monitor s) + 1) = size (bps s) + size (wps s) + 1"
    using le by (subst unat_inc [of _ 64]) (simp_all add: word_less_nat_alt)
  moreover have "bps ?t \<noteq> {#} \<or> wps ?t \<noteq> {#}" using assms(3) by auto
  ultimately show "monitor_inv (dbg_register_sync ?t)" "events_on (dbg_register_sync ?t)"
    using assms b b' by (simp_all add: monitor_inv_def armed_more_def bit0_flags)
qed

lemma disarm_inv:
  assumes "monitor_inv s" "m = drop_enable m0" "dbg_enable_count m0 = dbg_enable_count (monitor s)" "dbg_flags m0 = dbg_flags (monitor s)"
    "size (bps (s\<lparr>monitor := m\<rparr>)) + size (wps (s\<lparr>monitor := m\<rparr>)) + 1 = size (bps s) + size (wps s)"
  shows "monitor_inv (dbg_register_sync (s\<lparr>monitor := m\<rparr>))"
proof -
  let ?t = "s\<lparr>monitor := m\<rparr>"
  have b: "banks_ok ?t" "banks_ok s" using assms(1) by (simp_all add: monitor_inv_def banks_ok_def)
  then have b': "banks_ok (dbg_register_sync ?t)" by (simp add: banks_ok_def)
  have n: "unat (dbg_enable_count (monitor s)) = size (bps s) + size (wps s)" using assms(1) by (simp add: monitor_inv_def)
  then have "dbg_enable_count (monitor s) \<noteq> 0" using assms(5) by auto
  then have c: "unat (dbg_enable_count (monitor s) - 1) = size (bps ?t) + size (wps ?t)"
    using n assms(5) by (simp add: unat_minus_one)
  then have z: "dbg_enable_count (monitor s) - 1 = 0 \<longleftrightarrow> bps ?t = {#} \<and> wps ?t = {#}"
    by (metis add_is_0 size_eq_0_iff_empty unat_eq_zero)
  have "dbg_flags (monitor s) AND DBGMON_ENABLED \<noteq> 0" using assms(1,5) by (auto simp: monitor_inv_def)
  moreover have "dbg_flags (monitor s) AND DBGMON_KERNEL \<noteq> 0" using assms(1) by (simp add: monitor_inv_def)
  ultimately show ?thesis
    using b b' c z assms(2-4) by (auto simp: monitor_inv_def drop_enable_def Let_def bit0_flags)
qed

section \<open>The specification\<close>

definition spec_insert :: "nat \<Rightarrow> u64 \<Rightarrow> u64 \<Rightarrow> u64 \<Rightarrow> (u64 \<times> u64) multiset \<Rightarrow> int \<times> (u64 \<times> u64) multiset" where
  "spec_insert cap len a c M =
    (if size M = cap then (EBUSY, M) else if len \<notin> {1, 2, 4, 8} then (EINVAL, M) else (0, add_mset (a, c) M))"

definition spec_remove :: "u64 \<Rightarrow> (u64 \<times> u64) multiset \<Rightarrow> int \<Rightarrow> (u64 \<times> u64) multiset \<Rightarrow> bool" where
  "spec_remove a M r M' \<longleftrightarrow>
    (if a \<in> fst ` set_mset M then r = 0 \<and> (\<exists>c. M = add_mset (a, c) M') else r = EINVAL \<and> M' = M)"

definition bp_ctrl :: "u64 \<Rightarrow> u64" where
  "bp_ctrl len = (the (wcr_size_of len) OR DBG_WB_CTRL_EL1 OR DBG_WB_CTRL_E)"

definition wp_ctrl :: "u64 \<Rightarrow> FGdbDebugAccessType \<Rightarrow> u64" where
  "wp_ctrl len access = (the (wcr_size_of len) OR wcr_access_of access OR DBG_WB_CTRL_EL1 OR DBG_WB_CTRL_E)"

lemma ctrl_enabled: "bp_ctrl len AND DBG_WB_CTRL_E \<noteq> 0" "wp_ctrl len access AND DBG_WB_CTRL_E \<noteq> 0"
proof -
  have "(x OR DBG_WB_CTRL_E) AND DBG_WB_CTRL_E = DBG_WB_CTRL_E" "DBG_WB_CTRL_E \<noteq> 0" for x
    by (simp_all add: DBG_WB_CTRL_E_def)
  then show "bp_ctrl len AND DBG_WB_CTRL_E \<noteq> 0" "wp_ctrl len access AND DBG_WB_CTRL_E \<noteq> 0"
    by (simp_all add: bp_ctrl_def wp_ctrl_def or.assoc [symmetric])
qed

lemma wcr_size_of_None: "wcr_size_of len = None \<longleftrightarrow> len \<notin> {1, 2, 4, 8}"
  by (simp add: wcr_size_of_def)

text \<open>The state without the monitor and the debug registers.\<close>

definition but_dbg :: "gdb_st \<Rightarrow> gdb_st" where
  "but_dbg s = s\<lparr>monitor := idle_monitor, hw := idle_hw\<rparr>"

lemma but_dbg_updates [simp]: "but_dbg (s\<lparr>monitor := m\<rparr>) = but_dbg s" "but_dbg (s\<lparr>hw := h\<rparr>) = but_dbg s"
  "banks_ok s \<Longrightarrow> but_dbg (dbg_register_sync s) = but_dbg s"
  by (simp_all add: but_dbg_def register_sync_hw)

lemma monitor_inv_banks: "monitor_inv s \<Longrightarrow> banks_ok (s\<lparr>monitor := m\<rparr>)"
  by (simp add: monitor_inv_def banks_ok_def)

lemma set_hwbreakpoint_spec:
  assumes "monitor_inv s" "kdb_cpu_set_hwbreakpoint a len s = (r, s')"
  shows "(r, bps s') = spec_insert (dbg_breakpoint_num s) len a (bp_ctrl len) (bps s) \<and> wps s' = wps s \<and>
    monitor_inv s' \<and> but_dbg s' = but_dbg s \<and> (r = 0 \<longrightarrow> events_on s') \<and> (r \<noteq> 0 \<longrightarrow> s' = s)"
proof (cases "dbg_find_free_slot s DBG_TYPE_BREAKPOINT")
  case None
  then have "size (bps s) = dbg_breakpoint_num s" by (simp add: bp.free_None bps_def)
  then show ?thesis using None assms by (simp add: kdb_cpu_set_hwbreakpoint_def spec_insert_def EBUSY_def)
next
  case (Some i)
  then have nf: "size (bps s) \<noteq> dbg_breakpoint_num s" using bp.free_None [of s] by (simp add: bps_def)
  show ?thesis
  proof (cases "wcr_size_of len")
    case None
    then show ?thesis using Some nf assms wcr_size_of_None [of len]
      by (simp add: kdb_cpu_set_hwbreakpoint_def spec_insert_def EINVAL_def)
  next
    case (Some sz)
    let ?m = "(monitor s)\<lparr>dbg_bvr := (dbg_bvr (monitor s))(i := a), dbg_bcr := (dbg_bcr (monitor s))(i := bp_ctrl len),
      dbg_enable_count := dbg_enable_count (monitor s) + 1, dbg_flags := dbg_flags (monitor s) OR DBGMON_ENABLED\<rparr>"
    have r: "r = 0" "s' = dbg_register_sync (s\<lparr>monitor := ?m\<rparr>)"
      using assms(2) \<open>dbg_find_free_slot s DBG_TYPE_BREAKPOINT = Some i\<close> Some
      by (simp_all add: kdb_cpu_set_hwbreakpoint_def set_mon_def bp_ctrl_def)
    have b: "bps (s\<lparr>monitor := ?m\<rparr>) = add_mset (a, bp_ctrl len) (bps s)" "wps (s\<lparr>monitor := ?m\<rparr>) = wps s"
      using bp.free_Some(2) [OF \<open>dbg_find_free_slot s DBG_TYPE_BREAKPOINT = Some i\<close> ctrl_enabled(1), of a len]
      by (simp_all add: bps_def wps_def)
    have "monitor_inv s'" "events_on s'" unfolding r(2)
      by (intro arm_inv [OF assms(1)]; simp add: armed_more_def b)+
    then show ?thesis using r b nf Some wcr_size_of_None [of len] monitor_inv_banks [OF assms(1), of ?m]
      by (simp add: spec_insert_def)
  qed
qed

lemma setup_watchpoint_spec:
  assumes "monitor_inv s" "dbg_setup_watchpoint a len access s = (r, s')"
  shows "(r, wps s') = spec_insert (dbg_watchpoint_num s) len a (wp_ctrl len access) (wps s) \<and> bps s' = bps s \<and>
    monitor_inv s' \<and> but_dbg s' = but_dbg s \<and> (r = 0 \<longrightarrow> events_on s') \<and> (r \<noteq> 0 \<longrightarrow> s' = s)"
proof (cases "dbg_find_free_slot s DBG_TYPE_WATCHPOINT")
  case None
  then have "size (wps s) = dbg_watchpoint_num s" by (simp add: wp.free_None wps_def)
  then show ?thesis using None assms by (simp add: dbg_setup_watchpoint_def spec_insert_def EBUSY_def)
next
  case (Some i)
  then have nf: "size (wps s) \<noteq> dbg_watchpoint_num s" using wp.free_None [of s] by (simp add: wps_def)
  show ?thesis
  proof (cases "wcr_size_of len")
    case None
    then show ?thesis using Some nf assms wcr_size_of_None [of len]
      by (simp add: dbg_setup_watchpoint_def spec_insert_def EINVAL_def)
  next
    case (Some sz)
    let ?m = "(monitor s)\<lparr>dbg_wvr := (dbg_wvr (monitor s))(i := a), dbg_wcr := (dbg_wcr (monitor s))(i := wp_ctrl len access),
      dbg_enable_count := dbg_enable_count (monitor s) + 1, dbg_flags := dbg_flags (monitor s) OR DBGMON_ENABLED\<rparr>"
    have r: "r = 0" "s' = dbg_register_sync (s\<lparr>monitor := ?m\<rparr>)"
      using assms(2) \<open>dbg_find_free_slot s DBG_TYPE_WATCHPOINT = Some i\<close> Some
      by (simp_all add: dbg_setup_watchpoint_def set_mon_def wp_ctrl_def)
    have b: "wps (s\<lparr>monitor := ?m\<rparr>) = add_mset (a, wp_ctrl len access) (wps s)" "bps (s\<lparr>monitor := ?m\<rparr>) = bps s"
      using wp.free_Some(2) [OF \<open>dbg_find_free_slot s DBG_TYPE_WATCHPOINT = Some i\<close> ctrl_enabled(2), of a len access]
      by (simp_all add: bps_def wps_def)
    have "monitor_inv s'" "events_on s'" unfolding r(2)
      by (intro arm_inv [OF assms(1)]; simp add: armed_more_def b)+
    then show ?thesis using r b nf Some wcr_size_of_None [of len] monitor_inv_banks [OF assms(1), of ?m]
      by (simp add: spec_insert_def)
  qed
qed

lemma drop_enable_slots [simp]:
  "dbg_bvr (drop_enable m) = dbg_bvr m" "dbg_bcr (drop_enable m) = dbg_bcr m"
  "dbg_wvr (drop_enable m) = dbg_wvr m" "dbg_wcr (drop_enable m) = dbg_wcr m"
  by (simp_all add: drop_enable_def Let_def)

lemma spec_remove_Some: "M = add_mset (a, c) M' \<Longrightarrow> spec_remove a M 0 M'"
  by (auto simp: spec_remove_def)

lemma clr_hwbreakpoint_spec:
  assumes "monitor_inv s" "kdb_cpu_clr_hwbreakpoint a len s = (r, s')"
  shows "spec_remove a (bps s) r (bps s') \<and> wps s' = wps s \<and> monitor_inv s' \<and> but_dbg s' = but_dbg s \<and> (r \<noteq> 0 \<longrightarrow> s' = s)"
proof (cases "dbg_find_slot s DBG_TYPE_BREAKPOINT a")
  case None
  then have "a \<notin> fst ` set_mset (bps s)" using bp.slot_None [of s a] by (simp add: bps_def)
  then show ?thesis using None assms by (simp add: kdb_cpu_clr_hwbreakpoint_def spec_remove_def)
next
  case (Some i)
  let ?m0 = "(monitor s)\<lparr>dbg_bvr := (dbg_bvr (monitor s))(i := 0), dbg_bcr := (dbg_bcr (monitor s))(i := 0)\<rparr>"
  have r: "r = 0" "s' = dbg_register_sync (s\<lparr>monitor := drop_enable ?m0\<rparr>)"
    using assms(2) Some by (simp_all add: kdb_cpu_clr_hwbreakpoint_def set_mon_def)
  have b: "bps s = add_mset (a, dbg_bcr (monitor s) i) (bps (s\<lparr>monitor := drop_enable ?m0\<rparr>))"
      "wps (s\<lparr>monitor := drop_enable ?m0\<rparr>) = wps s"
    using bp.slot_Some(2) [OF Some] by (simp_all add: bps_def wps_def)
  have "monitor_inv s'" unfolding r(2) by (rule disarm_inv [OF assms(1) refl]) (simp_all add: b)
  then show ?thesis
    using r b(2) spec_remove_Some [OF b(1)] monitor_inv_banks [OF assms(1), of "drop_enable ?m0"] by simp
qed

lemma remove_watchpoint_spec:
  assumes "monitor_inv s" "dbg_remove_watchpoint a len s = (r, s')"
  shows "spec_remove a (wps s) r (wps s') \<and> bps s' = bps s \<and> monitor_inv s' \<and> but_dbg s' = but_dbg s \<and> (r \<noteq> 0 \<longrightarrow> s' = s)"
proof (cases "dbg_find_slot s DBG_TYPE_WATCHPOINT a")
  case None
  then have "a \<notin> fst ` set_mset (wps s)" using wp.slot_None [of s a] by (simp add: wps_def)
  then show ?thesis using None assms by (simp add: dbg_remove_watchpoint_def spec_remove_def)
next
  case (Some i)
  let ?m0 = "(monitor s)\<lparr>dbg_wvr := (dbg_wvr (monitor s))(i := 0), dbg_wcr := (dbg_wcr (monitor s))(i := 0)\<rparr>"
  have r: "r = 0" "s' = dbg_register_sync (s\<lparr>monitor := drop_enable ?m0\<rparr>)"
    using assms(2) Some by (simp_all add: dbg_remove_watchpoint_def set_mon_def)
  have b: "wps s = add_mset (a, dbg_wcr (monitor s) i) (wps (s\<lparr>monitor := drop_enable ?m0\<rparr>))"
      "bps (s\<lparr>monitor := drop_enable ?m0\<rparr>) = bps s"
    using wp.slot_Some(2) [OF Some] by (simp_all add: bps_def wps_def)
  have "monitor_inv s'" unfolding r(2) by (rule disarm_inv [OF assms(1) refl]) (simp_all add: b)
  then show ?thesis
    using r b(2) spec_remove_Some [OF b(1)] monitor_inv_banks [OF assms(1), of "drop_enable ?m0"] by simp
qed

section \<open>Breakpoint operations refine the specification\<close>

text \<open>The control word and the bank that a packet type selects.\<close>

definition z_breakpoint :: "u8 option \<Rightarrow> bool" where
  "z_breakpoint z \<longleftrightarrow> z = Some (ch CHR ''0'') \<or> z = Some (ch CHR ''1'')"

definition z_access :: "u8 option \<Rightarrow> FGdbDebugAccessType option" where
  "z_access z = (if z = Some (ch CHR ''2'') then Some HW_BREAKPOINT_W else if z = Some (ch CHR ''3'') then Some HW_BREAKPOINT_R
     else if z = Some (ch CHR ''4'') then Some HW_BREAKPOINT_RW else None)"

lemma z_insert_op_cases:
  "z_insert_op z a len s = (if z_breakpoint z then kdb_cpu_set_hwbreakpoint a len s
     else case z_access z of Some access \<Rightarrow> dbg_setup_watchpoint a len access s | None \<Rightarrow> (EINVAL, s))"
  by (simp add: z_insert_op_def z_breakpoint_def z_access_def kdb_cpu_set_watchpoint_def const_defs)

lemma z_remove_op_cases:
  "z_remove_op z a len s = (if z_breakpoint z then kdb_cpu_clr_hwbreakpoint a len s
     else case z_access z of Some access \<Rightarrow> dbg_remove_watchpoint a len s | None \<Rightarrow> (EINVAL, s))"
  by (simp add: z_remove_op_def z_breakpoint_def z_access_def kdb_cpu_clr_watchpoint_def)

lemma z_insert_op_spec:
  assumes "monitor_inv s" "z_insert_op z a len s = (r, s')"
  shows "monitor_inv s' \<and> but_dbg s' = but_dbg s \<and> (r = 0 \<longrightarrow> events_on s') \<and> (r \<noteq> 0 \<longrightarrow> s' = s) \<and>
    (if z_breakpoint z then (r, bps s') = spec_insert (dbg_breakpoint_num s) len a (bp_ctrl len) (bps s) \<and> wps s' = wps s
     else case z_access z of
       Some access \<Rightarrow> (r, wps s') = spec_insert (dbg_watchpoint_num s) len a (wp_ctrl len access) (wps s) \<and> bps s' = bps s
     | None \<Rightarrow> r = EINVAL)"
  using assms set_hwbreakpoint_spec [OF assms(1), of a len r s'] setup_watchpoint_spec [OF assms(1), of a len _ r s']
  by (auto simp: z_insert_op_cases EINVAL_def split: if_splits option.splits)

lemma z_remove_op_spec:
  assumes "monitor_inv s" "z_remove_op z a len s = (r, s')"
  shows "monitor_inv s' \<and> but_dbg s' = but_dbg s \<and> (r \<noteq> 0 \<longrightarrow> s' = s) \<and>
    (if z_breakpoint z then spec_remove a (bps s) r (bps s') \<and> wps s' = wps s
     else if z_access z \<noteq> None then spec_remove a (wps s) r (wps s') \<and> bps s' = bps s
     else r = EINVAL)"
  using assms clr_hwbreakpoint_spec [OF assms(1), of a len r s'] remove_watchpoint_spec [OF assms(1), of a len r s']
  by (auto simp: z_remove_op_cases EINVAL_def split: if_splits option.splits)

end
