(* ===== verification/GdbInv.thy ===== *)
theory GdbInv
  imports GdbBreak
begin

text \<open>
  The invariant of the stub over whole debug sessions. Every command leaves the monitor, the debug
  registers and the sizes of the buffers alone, except the breakpoint packets and single stepping;
  those keep the invariant.
\<close>

section \<open>Quiet operations\<close>

text \<open>The monitor, the debug registers and the sizes of the buffers.\<close>

definition calm :: "gdb_st \<Rightarrow> gdb_st \<Rightarrow> bool" where
  "calm s s' \<longleftrightarrow> monitor s' = monitor s \<and> hw s' = hw s \<and> dbg_breakpoint_num s' = dbg_breakpoint_num s \<and>
    dbg_watchpoint_num s' = dbg_watchpoint_num s \<and> length (gdb_rxbuf s') = length (gdb_rxbuf s) \<and>
    length (gdb_bindata s') = length (gdb_bindata s) \<and> (length (gdb_txbuf s) \<le> GDB_BUFSZ \<longrightarrow> length (gdb_txbuf s') \<le> GDB_BUFSZ)"

definition quiet :: "gdb_st \<Rightarrow> gdb_st option \<Rightarrow> bool" where
  "quiet s m \<longleftrightarrow> (\<forall>s'. m = Some s' \<longrightarrow> calm s s')"

named_theorems quiet_intros \<open>operations that leave the monitor and the debug registers alone\<close>

lemma calm_refl [simp, intro]: "calm s s"
  by (simp add: calm_def)

lemma calm_trans: "calm s t \<Longrightarrow> calm t u \<Longrightarrow> calm s u"
  by (simp add: calm_def)

lemma calm_updates [simp]:
  "calm s (t\<lparr>input := i\<rparr>) = calm s t" "calm s (t\<lparr>port_out := out\<rparr>) = calm s t" "calm s (t\<lparr>gdb_rxp := p\<rparr>) = calm s t"
  "calm s (t\<lparr>gdb_rxsz := n\<rparr>) = calm s t" "calm s (t\<lparr>tmem := m\<rparr>) = calm s t" "calm s (t\<lparr>gdb_frame := f\<rparr>) = calm s t"
  "calm s (t\<lparr>gdb_listening := b\<rparr>) = calm s t" "calm s (t\<lparr>gdb_ackmode := b\<rparr>) = calm s t"
  "calm s (t\<lparr>compiled_brk_process := b\<rparr>) = calm s t"
  "length r = length (gdb_rxbuf t) \<Longrightarrow> calm s (t\<lparr>gdb_rxbuf := r\<rparr>) = calm s t"
  "length d = length (gdb_bindata t) \<Longrightarrow> calm s (t\<lparr>gdb_bindata := d\<rparr>) = calm s t"
  by (simp_all add: calm_def)

lemma calm_tx: "length x \<le> GDB_BUFSZ \<Longrightarrow> calm s t \<Longrightarrow> calm s (t\<lparr>gdb_txbuf := x\<rparr>)"
  by (simp add: calm_def)

lemma quiet_bind [quiet_intros]: "quiet s m \<Longrightarrow> (\<And>t. calm s t \<Longrightarrow> quiet s (g t)) \<Longrightarrow> quiet s (Option.bind m g)"
  by (cases m) (simp_all add: quiet_def)

lemma quiet_Some [quiet_intros]: "calm s t \<Longrightarrow> quiet s (Some t)"
  by (simp add: quiet_def)

lemma quiet_if [quiet_intros]: "(b \<Longrightarrow> quiet s m) \<Longrightarrow> (\<not> b \<Longrightarrow> quiet s n) \<Longrightarrow> quiet s (if b then m else n)"
  by simp

lemma quietD: "quiet s m \<Longrightarrow> m = Some s' \<Longrightarrow> calm s s'"
  by (simp add: quiet_def)

section \<open>The packet layer is quiet\<close>

lemma calm_ack [simp]: "calm s (gdb_ack t) = calm s t" "calm s (gdb_nack t) = calm s t"
  by (simp_all add: gdb_ack_def gdb_nack_def gdb_port_putc_def)

lemma calm_rx_chars: "rx_chars n t k c = Some (t', k', c') \<Longrightarrow> calm s t \<Longrightarrow> calm s t'"
proof (induction n arbitrary: t k c)
  case (Suc n)
  from Suc.prems obtain d cs where d: "input t = d # cs" by (auto simp: gdb_getc_def split: list.splits)
  show ?case
  proof (cases "d = ch CHR ''#''")
    case True
    then show ?thesis using Suc.prems d by auto
  next
    case False
    let ?t = "t\<lparr>input := cs, gdb_rxbuf := (gdb_rxbuf t)[gdb_rxsz t := d], gdb_rxsz := Suc (gdb_rxsz t)\<rparr>"
    have "rx_chars n ?t (k + ucast d) d = Some (t', k', c')" using Suc.prems d False by simp
    moreover have "calm s ?t" using Suc.prems by simp
    ultimately show ?thesis by (rule Suc.IH)
  qed
qed simp

lemma calm_rx_round:
  assumes "rx_round t = Some (r, t')" "calm s t"
  shows "calm s t'"
proof -
  obtain cs t1 k c where "rx_chars (GDB_BUFSZ - 1) (t\<lparr>input := cs, gdb_rxsz := 0\<rparr>) 0 (ch CHR ''$'') = Some (t1, k, c)"
    and r: "calm s t1 \<Longrightarrow> calm s t'"
    using assms(1) by (auto simp: rx_round_def Let_def gdb_getc_Some split: if_splits bind_splits)
  then show ?thesis using calm_rx_chars [of _ "t\<lparr>input := cs, gdb_rxsz := 0\<rparr>"] assms(2) by simp
qed

lemma calm_rx_begin: "gdb_rx_begin t = Some (r, t') \<Longrightarrow> calm s t \<Longrightarrow> calm s t'"
proof (induction t arbitrary: r t' rule: gdb_rx_begin.induct)
  case (1 t)
  then show ?case
    by (auto simp: gdb_rx_begin.simps [of t] dest: calm_rx_round split: option.splits prod.splits if_splits)
qed

lemma calm_rx_char: "gdb_rx_char t = (c, t') \<Longrightarrow> calm s t \<Longrightarrow> calm s t'"
  by (auto simp: gdb_rx_char_def split: if_splits)

lemma calm_rx_equal: "gdb_rx_equal x t = (b, t') \<Longrightarrow> calm s t \<Longrightarrow> calm s t'"
  by (auto simp: gdb_rx_equal_def Let_def split: if_splits)

lemma calm_rx_is: "rx_is x t = (b, t') \<Longrightarrow> calm s t \<Longrightarrow> calm s t'"
  by (auto simp: rx_is_def dest: calm_rx_char split: prod.splits)

lemma calm_rx_mem_loop:
  assumes "\<And>k c t. calm s (put k c t) = calm s t"
  shows "rx_mem_loop put k n t = Some t' \<Longrightarrow> calm s t \<Longrightarrow> calm s t'"
proof (induction n arbitrary: k t)
  case (Suc n)
  then show ?case by (auto simp: Let_def FASSERT_bind_eq_Some_iff assms)
qed simp

lemma calm_put [simp]: "calm s (put_target a k c t) = calm s t" "calm s (put_rxbuf v k c t) = calm s t"
  by (simp_all add: put_target_def put_rxbuf_def)

lemma calm_rx_mem:
  assumes "gdb_rx_mem put n t = Some (r, t')" "\<And>k c t. calm s (put k c t) = calm s t" "calm s t"
  shows "calm s t'"
  using assms calm_rx_mem_loop [of s put 0 "unat n" t t'] by (auto simp: gdb_rx_mem_def split: if_splits)

lemma calm_varhex_loop: "varhex_loop v d t = (v', c, t') \<Longrightarrow> calm s t \<Longrightarrow> calm s t'"
proof (induction v d t arbitrary: v' c t' rule: varhex_loop.induct)
  case (1 v d t)
  then show ?case
    by (auto simp: varhex_loop.simps [of v d t] Let_def dest: calm_rx_char split: prod.splits option.splits if_splits)
qed

lemma calm_rx_varhex:
  assumes "gdb_rx_varhex t = (v, t')" "calm s t"
  shows "calm s t'"
proof -
  obtain c1 t1 where 1: "gdb_rx_char t = (c1, t1)" by fastforce
  obtain c2 t2 where 2: "(if c1 = Some (ch CHR ''-'') then gdb_rx_char t1 else (c1, t1)) = (c2, t2)" by fastforce
  have c: "calm s t2" using calm_rx_char [OF 1 assms(2)] 2 calm_rx_char [of t1 c2 t2 s] by (auto split: if_splits)
  show ?thesis
  proof (cases c2)
    case None
    then show ?thesis using assms(1) 1 2 c by (auto simp: gdb_rx_varhex_def Let_def split: if_splits)
  next
    case (Some d)
    obtain w c3 t3 where 3: "varhex_loop 0 d t2 = (w, c3, t3)" using prod_cases3 by blast
    show ?thesis using assms(1) 1 2 3 c Some calm_varhex_loop [OF 3 c]
      by (auto simp: gdb_rx_varhex_def Let_def split: if_splits)
  qed
qed

lemma calm_bindata: "bindata_loop n d t = (b, d', t') \<Longrightarrow> calm s t \<Longrightarrow> length d \<le> n \<Longrightarrow> calm s t' \<and> length d' \<le> n"
proof (induction n d t arbitrary: b d' t' rule: bindata_loop.induct)
  case (1 n d t)
  then show ?case
    by (auto simp: bindata_loop.simps [of n d t] Suc_le_eq dest: calm_rx_char split: prod.splits option.splits if_splits)
qed

section \<open>Replies are quiet\<close>

lemma quiet_tx_char [quiet_intros]: "calm s t \<Longrightarrow> quiet s (gdb_tx_char c t)"
  by (auto simp: quiet_def gdb_tx_char_def FASSERT_bind_eq_Some_iff intro!: calm_tx)

lemma quiet_tx_begin [quiet_intros]: "calm s t \<Longrightarrow> quiet s (gdb_tx_begin c t)"
  by (auto simp: quiet_def tx_begin_eq GDB_BUFSZ_def intro!: calm_tx)

lemma quiet_tx_str [quiet_intros]: "calm s t \<Longrightarrow> quiet s (gdb_tx_str x t)"
  by (induction x arbitrary: t) (auto intro!: quiet_intros)

lemma quiet_sprintf [quiet_intros]: "calm s t \<Longrightarrow> quiet s (sprintf_txp x t)"
  by (auto simp: quiet_def sprintf_txp_def FASSERT_bind_eq_Some_iff intro!: calm_tx)

lemma quiet_tx_numbers [quiet_intros]: "calm s t \<Longrightarrow> quiet s (gdb_tx_hex n k t)" "calm s t \<Longrightarrow> quiet s (gdb_tx_varhex n t)"
  by (simp_all add: gdb_tx_hex_def gdb_tx_varhex_def quiet_intros)

lemma quiet_tx_mem [quiet_intros]: "calm s t \<Longrightarrow> quiet s (gdb_tx_mem x t)"
  by (induction x arbitrary: t) (auto intro!: quiet_intros)

lemma calm_tx_once [simp]: "calm s (tx_once t) = calm s t"
  by (simp add: tx_once_def gdb_tx_sendpacket_def Let_def)

lemma quiet_tx_end [quiet_intros]: "calm s t \<Longrightarrow> quiet s (gdb_tx_end t)"
proof (induction t rule: gdb_tx_end.induct)
  case (1 t)
  show ?case
  proof (cases "gdb_ackmode (tx_once t) \<and> gdb_getc (tx_once t) \<noteq> None")
    case True
    then obtain c cs where c: "gdb_getc (tx_once t) = Some (c, (tx_once t)\<lparr>input := cs\<rparr>)" by (auto simp: gdb_getc_Some)
    have "calm s ((tx_once t)\<lparr>input := cs\<rparr>)" using "1.prems" by simp
    then show ?thesis using True c "1.IH" [OF refl _ c refl] by (simp add: gdb_tx_end.simps [of t] Let_def quiet_Some)
  next
    case False
    then show ?thesis using "1.prems" by (cases "gdb_getc (tx_once t)") (auto simp: gdb_tx_end.simps [of t] quiet_def Let_def)
  qed
qed

lemma quiet_replies [quiet_intros]:
  "calm s t \<Longrightarrow> quiet s (gdb_tx_empty t)" "calm s t \<Longrightarrow> quiet s (gdb_tx_err e t)" "calm s t \<Longrightarrow> quiet s (gdb_tx_ok t)"
  by (simp_all add: gdb_tx_empty_def gdb_tx_err_def gdb_tx_ok_def quiet_intros)

lemma quiet_tx_reg [quiet_intros]: "calm s t \<Longrightarrow> quiet s (gdb_tx_reg r t)"
  by (simp add: gdb_tx_reg_def quiet_intros split: option.split)

lemma quiet_tx_regs [quiet_intros]: "calm s t \<Longrightarrow> quiet s (tx_regs rs t)"
  by (induction rs arbitrary: t) (auto intro!: quiet_intros)

lemma quiet_stop_reason [quiet_intros]: "calm s t \<Longrightarrow> quiet s (gdb_cpu_stop_reason tp t)"
  by (auto simp: gdb_cpu_stop_reason_def intro!: quiet_intros)

lemma quiet_tx_stop: "calm s t \<Longrightarrow> quiet s (tx_stop tp t)"
  unfolding tx_stop_def by (intro quiet_intros)

section \<open>Commands\<close>

lemma calm_rx_bindata:
  assumes "gdb_rx_bindata (length (gdb_bindata t)) t = (ok, pat, u)" "calm s t"
  shows "calm s (u\<lparr>gdb_bindata := pat @ drop (length pat) (gdb_bindata u)\<rparr>)"
proof -
  have b: "bindata_loop (length (gdb_bindata t)) [] t = (ok, pat, u)" using assms(1) by (simp add: gdb_rx_bindata_def)
  have "calm s u" "length pat \<le> length (gdb_bindata t)" "calm t u"
    using calm_bindata [OF b assms(2)] calm_bindata [OF b calm_refl] by simp_all
  then show ?thesis by (simp add: calm_def)
qed

text \<open>Taking a packet apart inside an operation.\<close>

definition calm2 :: "gdb_st \<Rightarrow> 'a \<times> gdb_st \<Rightarrow> bool" where
  "calm2 s p \<longleftrightarrow> calm s (snd p)"

definition quiet2 :: "gdb_st \<Rightarrow> ('a \<times> gdb_st) option \<Rightarrow> bool" where
  "quiet2 s m \<longleftrightarrow> quiet s (map_option snd m)"

lemma calm2_parts [quiet_intros]:
  "calm s t \<Longrightarrow> calm2 s (x, t)" "calm s t \<Longrightarrow> calm2 s (gdb_rx_char t)" "calm s t \<Longrightarrow> calm2 s (gdb_rx_equal y t)"
  "calm s t \<Longrightarrow> calm2 s (rx_is c t)" "calm s t \<Longrightarrow> calm2 s (gdb_rx_varhex t)"
  using calm_rx_char [OF prod.collapse [symmetric]] calm_rx_equal [OF prod.collapse [symmetric]]
    calm_rx_is [OF prod.collapse [symmetric]] calm_rx_varhex [OF prod.collapse [symmetric]]
  by (simp_all add: calm2_def)

lemma calm2_if [quiet_intros]: "(b \<Longrightarrow> calm2 s p) \<Longrightarrow> (\<not> b \<Longrightarrow> calm2 s q) \<Longrightarrow> calm2 s (if b then p else q)"
  by simp

lemma case_prod_quiet [quiet_intros]: "calm2 s p \<Longrightarrow> (\<And>x t. calm s t \<Longrightarrow> quiet s (g x t)) \<Longrightarrow> quiet s (case p of (x, t) \<Rightarrow> g x t)"
  by (cases p) (simp add: calm2_def)

lemma case_prod_quiet2 [quiet_intros]: "calm2 s p \<Longrightarrow> (\<And>x t. calm s t \<Longrightarrow> quiet2 s (g x t)) \<Longrightarrow> quiet2 s (case p of (x, t) \<Rightarrow> g x t)"
  by (cases p) (simp add: calm2_def)

lemma case_prod_calm2 [quiet_intros]: "calm2 s p \<Longrightarrow> (\<And>x t. calm s t \<Longrightarrow> calm2 s (g x t)) \<Longrightarrow> calm2 s (case p of (x, t) \<Rightarrow> g x t)"
  by (cases p) (simp add: calm2_def)

lemma case_option_quiet [quiet_intros]:
  "quiet s a \<Longrightarrow> (\<And>x. quiet s (b x)) \<Longrightarrow> quiet s (case y of None \<Rightarrow> a | Some x \<Rightarrow> b x)"
  "quiet2 s a2 \<Longrightarrow> (\<And>x. quiet2 s (b2 x)) \<Longrightarrow> quiet2 s (case y of None \<Rightarrow> a2 | Some x \<Rightarrow> b2 x)"
  "calm2 s a3 \<Longrightarrow> (\<And>x. calm2 s (b3 x)) \<Longrightarrow> calm2 s (case y of None \<Rightarrow> a3 | Some x \<Rightarrow> b3 x)"
  by (simp_all split: option.split)

lemma quiet2_rules [quiet_intros]:
  "quiet s m \<Longrightarrow> quiet2 s (map_option (Pair x) m)" "calm s t \<Longrightarrow> quiet2 s (Some (x, t))"
  "(b \<Longrightarrow> quiet2 s p) \<Longrightarrow> (\<not> b \<Longrightarrow> quiet2 s q) \<Longrightarrow> quiet2 s (if b then p else q)"
  "quiet s m \<Longrightarrow> (\<And>t. calm s t \<Longrightarrow> quiet2 s (h t)) \<Longrightarrow> quiet2 s (Option.bind m h)"
  "quiet2 s k \<Longrightarrow> quiet s (map_option snd k)"
  by (auto simp: quiet2_def quiet_def split: bind_splits)

lemma quiet2_bind [quiet_intros]:
  "quiet2 s m \<Longrightarrow> (\<And>x t. calm s t \<Longrightarrow> quiet s (g x t)) \<Longrightarrow> quiet s (do { (x, t) \<leftarrow> m; g x t })"
  "quiet2 s m \<Longrightarrow> (\<And>x t. calm s t \<Longrightarrow> quiet2 s (h x t)) \<Longrightarrow> quiet2 s (do { (x, t) \<leftarrow> m; h x t })"
  by (cases m; auto simp: quiet2_def quiet_def)+

lemma quiet2_rx_mem [quiet_intros]: "calm s t \<Longrightarrow> (\<And>k c t. calm s (put k c t) = calm s t) \<Longrightarrow> quiet2 s (gdb_rx_mem put n t)"
  using calm_rx_mem [of put n t _ _ s] by (auto simp: quiet2_def quiet_def)

lemma quiet_mem_search [quiet_intros]: "calm s t \<Longrightarrow> quiet s (gdb_do_mem_search t)"
proof -
  have search: "quiet s (case gdb_rx_bindata (length (gdb_bindata t)) t of (ok, pat, u) \<Rightarrow>
      g ok pat (u\<lparr>gdb_bindata := pat @ drop (length pat) (gdb_bindata u)\<rparr>))"
    if "calm s t" "\<And>ok pat u. calm s u \<Longrightarrow> quiet s (g ok pat u)" for t g
    using that calm_rx_bindata [OF _ that(1)] by (auto split: prod.split)
  show "calm s t \<Longrightarrow> quiet s (gdb_do_mem_search t)"
    unfolding gdb_do_mem_search_def Let_def by (intro search quiet_intros)
qed

lemma calm_qsupported: "calm s t \<Longrightarrow> calm2 s (qsupported_loop n f t)"
  by (induction n arbitrary: f t) (auto simp: calm2_def Let_def split: option.split)

lemma quiet_tx_features [quiet_intros]: "calm s t \<Longrightarrow> quiet s (tx_features t)"
  unfolding tx_features_def by (intro quiet_intros)

lemma quiet_qsupported [quiet_intros]: "calm s t \<Longrightarrow> quiet2 s (gdb_do_qsupported t)"
  unfolding gdb_do_qsupported_def Let_def by (intro quiet_intros calm_qsupported)

lemma quiet_query [quiet_intros]: "calm s t \<Longrightarrow> quiet s (FGdbSystemQuery t)"
  unfolding FGdbSystemQuery_def Let_def by (intro quiet_intros)

lemma calm_setreg [simp]: "calm s (gdb_cpu_setreg r v t) = calm s t"
  by (simp add: gdb_cpu_setreg_def set_frame_def)

lemma calm_rx_pc: "calm s t \<Longrightarrow> calm s (rx_pc t)"
  using calm2_parts(5) [of s t] by (cases "gdb_rx_varhex t") (simp add: rx_pc_def calm2_def split: option.split)

lemma quiet2_write_regs [quiet_intros]: "calm s t \<Longrightarrow> quiet2 s (write_regs rs t)"
  by (induction rs arbitrary: t) (simp_all add: Let_def quiet_intros)

lemma calm2_rx_addr_size [quiet_intros]: "calm s t \<Longrightarrow> calm2 s (rx_addr_size t)"
  unfolding rx_addr_size_def Let_def by (intro quiet_intros)

lemma calm2_rx_z [quiet_intros]: "calm s t \<Longrightarrow> calm2 s (rx_z t)"
  unfolding rx_z_def Let_def by (intro quiet_intros)

lemma quiet_commands [quiet_intros]:
  assumes "calm s t"
  shows "quiet s (cmd_read_regs t)" "quiet s (cmd_write_regs t)" "quiet s (cmd_read_mem t)" "quiet s (cmd_write_mem t)"
    "quiet s (cmd_read_reg t)" "quiet s (cmd_write_reg t)" "quiet s (cmd_signal tp t)"
  using assms
  unfolding cmd_read_regs_def cmd_write_regs_def cmd_read_mem_def cmd_write_mem_def cmd_read_reg_def cmd_write_reg_def
    cmd_signal_def Let_def
  by (auto intro!: quiet_intros)

section \<open>The invariant\<close>

definition stub_inv :: "gdb_st \<Rightarrow> bool" where
  "stub_inv s \<longleftrightarrow> monitor_inv s \<and> length (gdb_rxbuf s) = GDB_BUFSZ \<and> length (gdb_bindata s) = 64 \<and> length (gdb_txbuf s) \<le> GDB_BUFSZ"

lemma monitor_inv_cong:
  assumes "monitor t = monitor s" "dbg_breakpoint_num t = dbg_breakpoint_num s" "dbg_watchpoint_num t = dbg_watchpoint_num s"
    "mirrored t = mirrored s"
  shows "monitor_inv t = monitor_inv s"
  using assms by (simp add: monitor_inv_def banks_ok_def bps_def wps_def)

lemma stub_inv_calm: "calm s t \<Longrightarrow> stub_inv s \<Longrightarrow> stub_inv t"
  using monitor_inv_cong [of t s] by (simp add: stub_inv_def calm_def mirrored_def)

lemma stub_inv_but_dbg:
  assumes "but_dbg t = but_dbg s" "monitor_inv t" "stub_inv s"
  shows "stub_inv t"
  using arg_cong [OF assms(1), of gdb_rxbuf] arg_cong [OF assms(1), of gdb_bindata] arg_cong [OF assms(1), of gdb_txbuf] assms(2,3)
  by (simp add: stub_inv_def but_dbg_def)

lemma flags_step:
  "(ucast (ucast (ucast (ucast (f :: u32) AND NOT PSR_DAIF) :: u32) OR ((x :: u64) AND PSR_DAIF)) :: u32) AND DBGMON_ENABLED = f AND DBGMON_ENABLED"
  "(ucast (ucast (ucast (ucast (f :: u32) AND NOT PSR_DAIF) :: u32) OR ((x :: u64) AND PSR_DAIF)) :: u32) AND DBGMON_KERNEL = f AND DBGMON_KERNEL"
proof -
  have e: "DBGMON_ENABLED = push_bit 0 1" "DBGMON_KERNEL = push_bit 1 1" by (simp_all add: const_defs)
  have d: "\<not> bit PSR_DAIF 0" "\<not> bit PSR_DAIF 1" by (simp_all add: const_defs)
  show "(ucast (ucast (ucast (ucast f AND NOT PSR_DAIF) :: u32) OR (x AND PSR_DAIF)) :: u32) AND DBGMON_ENABLED = f AND DBGMON_ENABLED"
    "(ucast (ucast (ucast (ucast f AND NOT PSR_DAIF) :: u32) OR (x AND PSR_DAIF)) :: u32) AND DBGMON_KERNEL = f AND DBGMON_KERNEL"
    using d unfolding e by (auto intro!: bit_word_eqI simp: bit_simps)
qed

lemma stub_inv_set_mdscr [simp]: "stub_inv (set_mdscr f s) = stub_inv s"
  using monitor_inv_cong [of "set_mdscr f s" s] by (simp add: set_mdscr_def set_hw_def stub_inv_def mirrored_def)

lemma stub_inv_set_frame [simp]: "stub_inv (set_frame f s) = stub_inv s"
  using monitor_inv_cong [of "set_frame f s" s] by (simp add: set_frame_def stub_inv_def mirrored_def)

lemma stub_inv_skip_brk [simp]: "stub_inv (skip_compiled_brk s) = stub_inv s"
  using monitor_inv_cong [of "skip_compiled_brk s" s] by (simp add: skip_compiled_brk_def set_frame_def stub_inv_def mirrored_def)

lemma stub_inv_flags:
  assumes "dbg_flags m AND DBGMON_ENABLED = dbg_flags (monitor s) AND DBGMON_ENABLED"
    "dbg_flags m AND DBGMON_KERNEL = dbg_flags (monitor s) AND DBGMON_KERNEL"
    "m = (monitor s)\<lparr>dbg_flags := dbg_flags m\<rparr>" "stub_inv s"
  shows "stub_inv (s\<lparr>monitor := m\<rparr>)"
proof -
  from assms(3) have "dbg_bvr m = dbg_bvr (monitor s)" "dbg_bcr m = dbg_bcr (monitor s)" "dbg_wvr m = dbg_wvr (monitor s)"
      "dbg_wcr m = dbg_wcr (monitor s)" "dbg_enable_count m = dbg_enable_count (monitor s)"
    by (metis FGdbDebugMonitorState.select_convs FGdbDebugMonitorState.surjective FGdbDebugMonitorState.update_convs(2))+
  then show ?thesis using assms(1,2,4) by (simp add: stub_inv_def monitor_inv_def banks_ok_def mirrored_def bps_def wps_def)
qed

lemma stub_inv_save_daif:
  "stub_inv s \<Longrightarrow> stub_inv (set_mon (\<lambda>m. m\<lparr>dbg_flags := ucast (ucast (dbg_flags m) OR (x AND PSR_DAIF))\<rparr>)
     (set_mon (\<lambda>m. m\<lparr>dbg_flags := ucast (ucast (dbg_flags m) AND NOT PSR_DAIF)\<rparr>) s))"
  using stub_inv_flags [of "(monitor s)\<lparr>dbg_flags := ucast (ucast (ucast (ucast (dbg_flags (monitor s)) AND NOT PSR_DAIF) :: u32) OR (x AND PSR_DAIF))\<rparr>" s]
    flags_step [of "dbg_flags (monitor s)" x]
  by (simp add: set_mon_def)

lemma stub_inv_set_singlestep: "kdb_cpu_set_singlestep s = Some s' \<Longrightarrow> stub_inv s \<Longrightarrow> stub_inv s'"
  unfolding kdb_cpu_set_singlestep_def Let_def
  by (auto simp: FASSERT_bind_eq_Some_iff stub_inv_save_daif split: if_splits)

lemma stub_inv_clear_singlestep: "kdb_cpu_clear_singlestep s = Some s' \<Longrightarrow> stub_inv s \<Longrightarrow> stub_inv s'"
  by (auto simp: kdb_cpu_clear_singlestep_def Let_def FASSERT_bind_eq_Some_iff split: if_splits)

lemma stub_inv_listening [simp]: "stub_inv (s\<lparr>gdb_listening := b\<rparr>) = stub_inv s" "stub_inv (s\<lparr>port_out := out\<rparr>) = stub_inv s"
  "stub_inv (s\<lparr>gdb_frame := f\<rparr>) = stub_inv s" "stub_inv (s\<lparr>gdb_ackmode := b\<rparr>) = stub_inv s" "stub_inv (s\<lparr>compiled_brk_process := b\<rparr>) = stub_inv s"
  by (simp_all add: stub_inv_def monitor_inv_def banks_ok_def mirrored_def bps_def wps_def)

lemma stub_inv_detach: "gdb_handle_detach s = Some s' \<Longrightarrow> stub_inv s \<Longrightarrow> stub_inv s'"
  unfolding gdb_handle_detach_def Let_def by (auto dest: stub_inv_clear_singlestep split: bind_splits)

lemma stub_inv_z:
  assumes "stub_inv s"
  shows "gdb_z_insert s = Some s' \<Longrightarrow> stub_inv s'" "gdb_z_remove s = Some s' \<Longrightarrow> stub_inv s'"
proof -
  obtain q t where q: "rx_z s = (q, t)" by fastforce
  then have t: "stub_inv t" using calm2_rx_z [of s s] assms stub_inv_calm [of s t] by (simp add: calm2_def)
  have reply: "stub_inv u" if "z_reply (e, v) = Some u" "stub_inv v" for e u v
    using that quiet_replies(2,3) [OF calm_refl, of v] by (auto simp: z_reply_def quiet_def split: if_splits intro: stub_inv_calm)
  have op: "stub_inv v" if "z_insert_op z a n t = (e, v) \<or> z_remove_op z a n t = (e, v)" for z a n e v
    using that t z_insert_op_spec [of t z a n e v] z_remove_op_spec [of t z a n e v] stub_inv_but_dbg [of v t]
    by (auto simp: stub_inv_def)
  show "gdb_z_insert s = Some s' \<Longrightarrow> stub_inv s'" "gdb_z_remove s = Some s' \<Longrightarrow> stub_inv s'"
    using q reply t op by (auto simp: gdb_z_insert_def gdb_z_remove_def split: option.splits prod.splits)
      (metis prod.collapse)+
qed

lemma stub_inv_command:
  assumes "stub_inv s" "gdb_command tp s = Some (e, s')"
  shows "stub_inv s'"
proof -
  obtain c t where c: "gdb_rx_char s = (c, t)" by fastforce
  then have t: "stub_inv t" "calm t t" using calm_rx_char [OF c calm_refl] assms(1) stub_inv_calm by auto
  have q: "stub_inv u" if "quiet t m" "m = Some u" for m u using that t(1) stub_inv_calm by (auto simp: quiet_def)
  have pc: "stub_inv (rx_pc t)" using calm_rx_pc [OF t(2)] t(1) stub_inv_calm by blast
  have d: "stub_inv u" if "gdb_tx_ok t = Some v" "gdb_handle_detach v = Some u" for u v
    using q [OF quiet_replies(3) [OF t(2)] that(1)] stub_inv_detach [OF that(2)] by simp
  show ?thesis using assms(2) c pc d t(1)
    by (auto simp: gdb_command_def stay_def leave_def split: if_splits bind_splits
        dest: q [OF quiet_commands(1) [OF t(2)]] q [OF quiet_commands(2) [OF t(2)]] q [OF quiet_commands(3) [OF t(2)]]
          q [OF quiet_commands(4) [OF t(2)]] q [OF quiet_commands(5) [OF t(2)]] q [OF quiet_commands(6) [OF t(2)]]
          q [OF quiet_commands(7) [OF t(2)]] q [OF quiet_replies(1) [OF t(2)]] q [OF quiet_replies(3) [OF t(2)]]
          q [OF quiet_query [OF t(2)]] stub_inv_z stub_inv_detach stub_inv_set_singlestep stub_inv_clear_singlestep)
qed

lemma stub_inv_trap_loop:
  assumes "trap_loop tp s = Some y" "stub_inv s"
  shows "stub_inv (snd y)"
proof -
  have "stub_inv s \<longrightarrow> stub_inv (snd y)" using assms(1)
  proof (rule trap_loop.raw_induct [of "\<lambda>tp s y. stub_inv s \<longrightarrow> stub_inv (snd y)", rotated])
    fix loop tp s y
    assume IH: "\<And>tp s y. loop tp s = Some y \<Longrightarrow> stub_inv s \<longrightarrow> stub_inv (snd y)"
      and y: "do { (err, s) \<leftarrow> gdb_rx_begin s; if err \<noteq> 0 then Some (0, s)
        else do { (exit, s) \<leftarrow> gdb_command tp s; if exit then Some (1, s) else loop tp s } } = Some y"
    from y obtain err t where t: "gdb_rx_begin s = Some (err, t)" by (auto split: bind_splits)
    show "stub_inv s \<longrightarrow> stub_inv (snd y)"
    proof
      assume "stub_inv s"
      then have i: "stub_inv t" using calm_rx_begin [OF t calm_refl] stub_inv_calm by blast
      show "stub_inv (snd y)"
      proof (cases "err = 0")
        case True
        then obtain e u where u: "gdb_command tp t = Some (e, u)" using y t by (auto split: bind_splits)
        then show ?thesis using stub_inv_command [OF i u] IH [of tp u y] y t True by (auto split: if_splits)
      next
        case False
        then show ?thesis using y t i by auto
      qed
    qed
  qed
  then show ?thesis using assms(2) by simp
qed

lemma stub_inv_trap: "FGdbTrap tp s = Some (r, s') \<Longrightarrow> stub_inv s \<Longrightarrow> stub_inv s'"
proof -
  assume a: "FGdbTrap tp s = Some (r, s')" "stub_inv s"
  let ?s = "(port_intr_ctrl False s)\<lparr>gdb_listening := False, gdb_ackmode := True\<rparr>"
  obtain t u where t: "tx_stop tp ?s = Some t" and u: "trap_loop tp t = Some (r, u)" and s': "s' = port_intr_ctrl True u"
    using a(1) by (auto simp: FGdbTrap_def Let_def FASSERT_bind_eq_Some_iff split: bind_splits)
  have "stub_inv ?s" using a(2) by (simp add: port_intr_ctrl_def)
  then have "stub_inv t" using quietD [OF quiet_tx_stop [OF calm_refl] t] stub_inv_calm by blast
  then show "stub_inv s'" using stub_inv_trap_loop [OF u] s' by (simp add: port_intr_ctrl_def)
qed

lemma stub_inv_sync: "stub_inv s \<Longrightarrow> stub_inv (dbg_register_sync s)"
  by (rule stub_inv_but_dbg) (auto simp: stub_inv_def monitor_inv_def banks_ok_def)

lemma stub_inv_interrupt:
  assumes "stub_inv s" "FGdbDebugInterrupt tf s = Some s'"
  shows "stub_inv s'"
proof -
  let ?t = "\<lambda>c. (if c then (dbg_register_sync s)\<lparr>compiled_brk_process := True\<rparr> else dbg_register_sync s)\<lparr>gdb_frame := tf\<rparr>"
  have "stub_inv (?t c)" for c using stub_inv_sync [OF assms(1)] by simp
  moreover obtain c tp r where "FGdbTrap tp (?t c) = Some (r, s')"
    using assms(2) unfolding FGdbDebugInterrupt_def Let_def by auto
  ultimately show ?thesis using stub_inv_trap by blast
qed

section \<open>Initialisation\<close>

lemma clear_watchpoints:
  "n \<le> 16 \<Longrightarrow> fold (\<lambda>i s. dbg_wb_write_reg DBG_REG_BASE_WVR i 0 (dbg_wb_write_reg DBG_REG_BASE_WCR i 0 s)) [0..<n] s =
    set_hw (\<lambda>h. h\<lparr>dbgwcr := sync_regs n (\<lambda>_. 0) (dbgwcr h), dbgwvr := sync_regs n (\<lambda>_. 0) (dbgwvr h)\<rparr>) s"
  by (induction n) (simp_all add: write_regs_bank set_hw_def sync_regs_Suc sync_regs_Suc(1) [where new="\<lambda>_. 0"])

lemma clear_breakpoints:
  "n \<le> 16 \<Longrightarrow> fold (\<lambda>i s. dbg_wb_write_reg DBG_REG_BASE_BVR i 0 (dbg_wb_write_reg DBG_REG_BASE_BCR i 0 s)) [0..<n] s =
    set_hw (\<lambda>h. h\<lparr>dbgbcr := sync_regs n (\<lambda>_. 0) (dbgbcr h), dbgbvr := sync_regs n (\<lambda>_. 0) (dbgbvr h)\<rparr>) s"
  by (induction n) (simp_all add: write_regs_bank set_hw_def sync_regs_Suc sync_regs_Suc(1) [where new="\<lambda>_. 0"])

lemma bank_sizes: "ID_AA64DFR0_BRPs_VAL x \<le> 16" "ID_AA64DFR0_WRPs_VAL x \<le> 16"
proof -
  have "unat ((y AND 0xf) + 1 :: u64) \<le> 16" for y
  proof -
    have "y AND 0xf \<le> 0xf" by (rule word_and_le1)
    then have "unat (y AND 0xf) \<le> 15" by (simp add: word_le_nat_alt)
    then show ?thesis by (subst unat_inc [of _ 64]) (simp_all add: word_less_nat_alt)
  qed
  then show "ID_AA64DFR0_BRPs_VAL x \<le> 16" "ID_AA64DFR0_WRPs_VAL x \<le> 16"
    by (simp_all add: ID_AA64DFR0_BRPs_VAL_def ID_AA64DFR0_WRPs_VAL_def)
qed

lemma armed_zero: "armed n a (\<lambda>_. 0) = {#}"
  by (simp add: armed_def)

text \<open>The structure as the loader leaves it, with every field zero.\<close>

definition fresh :: "gdb_st \<Rightarrow> bool" where
  "fresh s \<longleftrightarrow> monitor s = \<lparr>dbg_enable_count = 0, dbg_flags = 0, dbg_bcr = (\<lambda>_. 0), dbg_bvr = (\<lambda>_. 0), dbg_wcr = (\<lambda>_. 0), dbg_wvr = (\<lambda>_. 0)\<rparr> \<and>
    gdb_rxbuf s = replicate GDB_BUFSZ 0 \<and> gdb_bindata s = replicate 64 0 \<and> gdb_txbuf s = []"

lemma stub_inv_initial:
  assumes "fresh s" "FGdbInitialize 0 r s = (e, s')"
  shows "stub_inv s'" "bps s' = {#}" "wps s' = {#}" "dbbe_active s'" "e = (if r = 0 then FT_SUCCESS else FGDB_FAILED)"
  using assms bank_sizes [of "id_aa64dfr0_el1 (hw s)"]
  by (auto simp: FGdbInitialize_def Let_def clear_watchpoints clear_breakpoints set_hw_def set_mon_def fresh_def
      stub_inv_def monitor_inv_def banks_ok_def mirrored_def sync_regs_def bps_def wps_def armed_zero DBGMON_ENABLED_def DBGMON_KERNEL_def)

end
