(* ===== verification/GdbRegs.thy ===== *)
theory GdbRegs
  imports GdbMemory
begin

text \<open>
  Register packets: what a session of \<open>P\<close> and \<open>p\<close> packets does to the interrupted context, the
  registers that cannot be written, and what a \<open>G\<close> packet does.
\<close>

section \<open>Single registers\<close>

lemma settable_reg_text:
  "settable r \<Longrightarrow> gdb_cpu_getreg s r = Some v \<Longrightarrow> reg_text s r = hexs (le_bytes 8 v)"
  by (simp add: reg_text_def settable_regsz)

lemma getreg_cong: "gdb_frame s = gdb_frame t \<Longrightarrow> gdb_cpu_getreg s r = gdb_cpu_getreg t r"
  by (simp add: gdb_cpu_getreg_def)

lemma core_frame_same: "(core s)\<lparr>gdb_frame := gdb_frame s\<rparr> = core s"
  by (rule gdb_st.equality) (simp_all add: core_def but_rx_def)

lemma core_setreg_frame: "core (gdb_cpu_setreg r v s) = core (s\<lparr>gdb_frame := gdb_frame (gdb_cpu_setreg r v s)\<rparr>)"
  by (simp add: gdb_cpu_setreg_def set_frame_def core_frame_same)

text \<open>
  C21: A register session. For X0 to X29, SP and PC, the value of a \<open>P\<close> packet is what a following \<open>p\<close>
  packet is answered with, little endian; every other register keeps its value and nothing but
  the saved context changes.
\<close>
theorem register_session:
  assumes "linked s" "length (gdb_rxbuf s) = GDB_BUFSZ" "settable (to_int n)"
    "input s = request (write_reg_req (n, v)) @ ch CHR ''+'' # request (read_reg_req n) @ ch CHR ''+'' # rest"
  shows "\<exists>s'. trap_loop tp s = trap_loop tp s' \<and> core s' = core (s\<lparr>gdb_frame := gdb_frame s'\<rparr>) \<and> input s' = rest \<and>
    (\<forall>q. gdb_cpu_getreg s' q = (if q = to_int n then Some v else gdb_cpu_getreg s q)) \<and>
    port_out s' = port_out s @ map Putc (ch CHR ''+'' # rle_frame (str ''OK'') @ ch CHR ''+'' # rle_frame (hexs (le_bytes 8 v)))"
proof -
  let ?t = "gdb_cpu_setreg (to_int n) v s"
  obtain s1 where s1: "trap_loop tp s = trap_loop tp s1" "core s1 = core (write_reg_effect (n, v) s)" "linked s1"
      "input s1 = request (read_reg_req n) @ ch CHR ''+'' # rest"
      "port_out s1 = port_out s @ Putc (ch CHR ''+'') # map Putc (rle_frame (str ''OK''))" "length (gdb_rxbuf s1) = GDB_BUFSZ"
    using wr.served [where x="(n, v)" and s=s and tp=tp] assms by blast
  obtain s2 where s2: "trap_loop tp s1 = trap_loop tp s2" "core s2 = core s1" "input s2 = rest"
      "port_out s2 = port_out s1 @ Putc (ch CHR ''+'') # map Putc (rle_frame (reg_text s1 (to_int n)))"
    using rr.served [where x=n and s=s1 and rest=rest and tp=tp] s1 by auto
  have f1: "gdb_frame s1 = gdb_frame ?t" using core_fields(4) [OF s1(2)] by (simp add: write_reg_effect_def)
  have f2: "gdb_frame s2 = gdb_frame ?t" using core_fields(4) [OF s2(2)] f1 by simp
  have regs: "gdb_cpu_getreg s2 q = (if q = to_int n then Some v else gdb_cpu_getreg s q)" for q
    using getreg_cong [OF f2, of q] getreg_setreg [OF assms(3), of v s q] by simp
  have "reg_text s1 (to_int n) = hexs (le_bytes 8 v)"
    using settable_reg_text [OF assms(3), of s1 v] getreg_cong [OF f1] getreg_setreg [OF assms(3), of v s "to_int n"] by simp
  moreover have "core s2 = core (s\<lparr>gdb_frame := gdb_frame s2\<rparr>)"
    using s2(2) s1(2) core_setreg_frame [of "to_int n" v s] f2 by (simp add: write_reg_effect_def)
  ultimately show ?thesis using s1 s2 regs by (intro exI [of _ s2]) simp
qed

definition reg_example :: gdb_st where
  "reg_example = idle\<lparr>input := request (str ''P3=2a00000000000000'') @ ch CHR ''+'' # request (str ''p3'') @ [ch CHR ''+'']\<rparr>"

lemma reg_requests:
  "write_reg_req (3, 0x2a) = str ''P3=2a00000000000000''" "read_reg_req 3 = str ''p3''"
  "hexs (le_bytes 8 0x2a) = str ''2a00000000000000''" "to_int 3 = 3"
  by code_simp+

theorem register_session_witness:
  "\<exists>s'. trap_loop 0x3c reg_example = trap_loop 0x3c s' \<and> tf_x (gdb_frame s') 3 = 0x2a \<and> tf_x (gdb_frame s') 4 = 0 \<and>
    port_out s' = map Putc (ch CHR ''+'' # rle_frame (str ''OK'') @ ch CHR ''+'' # rle_frame (str ''2a00000000000000''))"
proof -
  have l: "linked reg_example" "length (gdb_rxbuf reg_example) = GDB_BUFSZ" and e: "port_out reg_example = []" "gdb_frame reg_example = idle_frame"
    by (simp_all add: reg_example_def linked_def idle_def GDB_BUFSZ_def)
  have t: "settable (to_int 3)" by (simp add: reg_requests settable_def const_defs)
  have i: "input reg_example = request (write_reg_req (3, 0x2a)) @ ch CHR ''+'' # request (read_reg_req 3) @ [ch CHR ''+'']"
    unfolding reg_requests reg_example_def by simp
  have x: "gdb_cpu_getreg s 3 = Some (tf_x (gdb_frame s) 3)" "gdb_cpu_getreg s 4 = Some (tf_x (gdb_frame s) 4)" for s
    by (simp_all add: gdb_cpu_getreg_def const_defs Let_def)
  have "\<exists>s'. trap_loop 0x3c reg_example = trap_loop 0x3c s' \<and>
      (\<forall>q. gdb_cpu_getreg s' q = (if q = 3 then Some 0x2a else gdb_cpu_getreg reg_example q)) \<and>
      port_out s' = map Putc (ch CHR ''+'' # rle_frame (str ''OK'') @ ch CHR ''+'' # rle_frame (str ''2a00000000000000''))"
    using register_session [OF l t i, of "0x3c"] e unfolding reg_requests by (elim ex_forward) simp
  then obtain s' where s': "trap_loop 0x3c reg_example = trap_loop 0x3c s'"
      "\<forall>q. gdb_cpu_getreg s' q = (if q = 3 then Some 0x2a else gdb_cpu_getreg reg_example q)"
      "port_out s' = map Putc (ch CHR ''+'' # rle_frame (str ''OK'') @ ch CHR ''+'' # rle_frame (str ''2a00000000000000''))"
    by blast
  show ?thesis using s'(1,3) s'(2) [rule_format, of 3] s'(2) [rule_format, of 4] e
    by (intro exI [of _ s']) (simp add: x idle_frame_def)
qed

text \<open>
  For every other register, the link register and the saved status among them, the value of a \<open>P\<close>
  packet is dropped although the packet is acknowledged with \<open>OK\<close>.
\<close>
theorem register_write_lost:
  assumes "linked s" "length (gdb_rxbuf s) = GDB_BUFSZ" "\<not> settable (to_int n)"
    "input s = request (write_reg_req (n, v)) @ ch CHR ''+'' # rest"
  shows "\<exists>s'. trap_loop tp s = trap_loop tp s' \<and> core s' = core s \<and> input s' = rest \<and>
    port_out s' = port_out s @ map Putc (ch CHR ''+'' # rle_frame (str ''OK''))"
  using wr.served [where x="(n, v)" and s=s and rest=rest and tp=tp] assms setreg_not_settable [OF assms(3), of v s]
  by (simp add: write_reg_effect_def) blast

theorem register_write_lost_witness:
  "\<exists>s'. trap_loop 0x3c (idle\<lparr>input := request (str ''P1e=2a00000000000000'') @ [ch CHR ''+'']\<rparr>) = trap_loop 0x3c s' \<and>
    tf_lr (gdb_frame s') = 0 \<and> port_out s' = map Putc (ch CHR ''+'' # rle_frame (str ''OK''))"
proof -
  let ?s = "idle\<lparr>input := request (str ''P1e=2a00000000000000'') @ [ch CHR ''+'']\<rparr>"
  have r: "write_reg_req (0x1e, 0x2a) = str ''P1e=2a00000000000000''" "to_int 0x1e = 30" by code_simp+
  have l: "linked ?s" "length (gdb_rxbuf ?s) = GDB_BUFSZ" "\<not> settable (to_int 0x1e)"
    by (simp_all add: linked_def idle_def GDB_BUFSZ_def r settable_def const_defs)
  have i: "input ?s = request (write_reg_req (0x1e, 0x2a)) @ ch CHR ''+'' # []" unfolding r by simp
  have e: "tf_lr (gdb_frame ?s) = 0" "port_out ?s = []" by (simp_all add: idle_def idle_frame_def)
  show ?thesis using register_write_lost [OF l i, of "0x3c"] e
    by (elim ex_forward conjE) (auto dest: core_fields(4))
qed

section \<open>All registers\<close>

text \<open>
  The result \<open>-1\<close> of \<open>gdb_rx_mem\<close>, a packet whose length is not that of one register, is taken for
  success, and the word is read from the characters that have not been decoded.
\<close>

definition regs_frame :: "nat \<Rightarrow> u64 \<Rightarrow> FGdbTrapframe \<Rightarrow> FGdbTrapframe" where
  "regs_frame n w f = f\<lparr>tf_x := (\<lambda>i. if i < n \<and> i < 30 then w else tf_x f i),
     tf_sp := (if n > 31 then w else tf_sp f), tf_elr := (if n > 32 then w else tf_elr f)\<rparr>"

lemma regs_frame_Suc:
  "gdb_cpu_setreg (int n) w (s\<lparr>gdb_frame := regs_frame n w f\<rparr>) = s\<lparr>gdb_frame := regs_frame (Suc n) w f\<rparr>"
proof -
  define x where "x = (\<lambda>n i. if i < n \<and> i < 30 then w else tf_x f i)"
  have x: "x (Suc n) = (if n < 30 then (x n)(n := w) else x n)" by (auto simp: x_def fun_eq_iff)
  have r: "regs_frame m w f = f\<lparr>tf_x := x m, tf_sp := (if m > 31 then w else tf_sp f), tf_elr := (if m > 32 then w else tf_elr f)\<rparr>" for m
    by (simp add: regs_frame_def x_def)
  have late: "x 31 = x 30" "x 32 = x 30" "x 33 = x 30" by (auto simp: x_def fun_eq_iff)
  consider "n < 30" | "n = 30" | "n = 31" | "n = 32" | "n > 32" by linarith
  then show ?thesis
    by cases (simp_all add: r x late gdb_cpu_setreg_def set_frame_def const_defs)
qed

definition odd_length :: "u8 list \<Rightarrow> bool" where
  "odd_length xs \<longleftrightarrow> length xs \<ge> 8 \<and> length xs \<noteq> 8 \<and> length xs \<noteq> 16 \<and> length xs \<noteq> 32"

lemma rx_mem_odd_length:
  assumes "rx_wf s" "unread s = xs" "odd_length xs"
  shows "gdb_rx_mem put (of_nat (gdb_cpu_regsz r)) s = Some (- 1, s)"
proof -
  have "unat (of_nat (gdb_cpu_regsz r) * 2 :: u64) = 2 * gdb_cpu_regsz r"
    by (simp add: gdb_cpu_regsz_def)
  then show ?thesis using assms length_unread [of s] by (auto simp: gdb_rx_mem_def odd_length_def gdb_cpu_regsz_def)
qed

lemma val_word_unread: "rx_wf s \<Longrightarrow> 8 \<le> gdb_rxsz s \<Longrightarrow> val_word s (gdb_rxp s) = le_word (take 8 (unread s))"
  by (simp add: val_word_def unread_def min_def)

lemma write_regs_odd_length:
  assumes "rx_wf s" "unread s = xs" "odd_length xs"
  shows "write_regs [k..<k + n] (s\<lparr>gdb_frame := regs_frame k (le_word (take 8 xs)) f\<rparr>) =
    Some (True, s\<lparr>gdb_frame := regs_frame (k + n) (le_word (take 8 xs)) f\<rparr>)"
proof (induction n arbitrary: k)
  case (Suc n)
  let ?w = "le_word (take 8 xs)"
  let ?s = "s\<lparr>gdb_frame := regs_frame k ?w f\<rparr>"
  have s: "rx_wf ?s" "unread ?s = xs" using assms by (simp_all add: rx_wf_def unread_def)
  have "val_word ?s (gdb_rxp ?s) = ?w"
    using val_word_unread [OF s(1)] length_unread [OF s(1)] s(2) assms(3) by (simp add: odd_length_def)
  then have "write_regs (k # [Suc k..<Suc k + n]) ?s = write_regs [Suc k..<Suc k + n] (s\<lparr>gdb_frame := regs_frame (Suc k) ?w f\<rparr>)"
    using rx_mem_odd_length [OF s assms(3), of "put_rxbuf (gdb_rxp s)" "int k"] regs_frame_Suc [where n=k and w="?w" and s=s and f=f] by simp
  moreover have "[k..<k + Suc n] = k # [Suc k..<Suc k + n]" by (simp add: upt_conv_Cons)
  ultimately show ?case using Suc [of "Suc k"] by simp
qed simp

definition G_effect :: "u8 list \<Rightarrow> gdb_st \<Rightarrow> gdb_st" where
  "G_effect xs s = s\<lparr>gdb_frame := regs_frame GDB_NREGS (le_word (take 8 xs)) (gdb_frame s)\<rparr>"

lemma cmd_write_regs_odd_length:
  assumes "rx_wf s" "unread s = xs" "odd_length xs" "linked s" "input s = ch CHR ''+'' # rest"
  shows "cmd_write_regs s = Some (reply (str ''OK'') rest (G_effect xs s))"
proof -
  have "regs_frame 0 w f = f" for w f by (simp add: regs_frame_def)
  then have "write_regs [0..<GDB_NREGS] s = Some (True, G_effect xs s)"
    using write_regs_odd_length [OF assms(1-3), of 0 GDB_NREGS "gdb_frame s"] by (simp add: G_effect_def)
  moreover have "linked (G_effect xs s)" "input (G_effect xs s) = input s"
    using assms(4) by (simp_all add: G_effect_def linked_def)
  ultimately show ?thesis using assms(5) by (simp add: cmd_write_regs_def tx_ok_reply)
qed

interpretation wg: command "\<lambda>xs. ch CHR ''G'' # xs" "\<lambda>xs s. odd_length xs \<and> req_text (ch CHR ''G'' # xs)" "\<lambda>x tp s. str ''OK''" G_effect
proof (unfold_locales, goal_cases)
  case (4 s t x)
  then show ?case using core_fields(4) [of s t] by (simp add: G_effect_def)
next
  case (5 s x)
  then show ?case by (simp add: G_effect_def linked_def)
next
  case (6 xs s rest tp)
  note c = command_char [OF 6(2,4)]
  have "cmd_write_regs (adv 1 s) = Some (reply (str ''OK'') rest (G_effect xs (adv 1 s)))"
    using 6 c by (intro cmd_write_regs_odd_length) simp_all
  then show ?case using 6 c by (simp add: gdb_command_def stay_def G_effect_def rx_wf_def)
qed simp_all

text \<open>
  A \<open>G\<close> packet with the values of all registers is not decoded. Every general register, the
  stack pointer and the program counter are set to the word that the first eight characters of
  the packet spell in memory, and the packet is acknowledged with \<open>OK\<close>.
\<close>
theorem write_all_registers_undecoded:
  assumes "linked s" "length (gdb_rxbuf s) = GDB_BUFSZ" "length bs = 788" "input s = request (ch CHR ''G'' # hexs bs) @ ch CHR ''+'' # rest"
  shows "\<exists>s'. trap_loop tp s = trap_loop tp s' \<and> port_out s' = port_out s @ map Putc (ch CHR ''+'' # rle_frame (str ''OK'')) \<and>
    (\<forall>q. settable q \<longrightarrow> gdb_cpu_getreg s' q = Some (le_word (take 8 (hexs bs))))"
proof -
  have "odd_length (hexs bs)" "req_text (ch CHR ''G'' # hexs bs)"
    using assms(3) hexs_no_hash [of bs] by (simp_all add: odd_length_def req_text_def GDB_BUFSZ_def)
  then obtain s' where s': "trap_loop tp s = trap_loop tp s'" "core s' = core (G_effect (hexs bs) s)"
      "port_out s' = port_out s @ Putc (ch CHR ''+'') # map Putc (rle_frame (str ''OK''))"
    using wg.served [of "hexs bs" s rest tp] assms by auto
  have "gdb_cpu_getreg s' q = Some (le_word (take 8 (hexs bs)))" if "settable q" for q
    using core_fields(4) [OF s'(2)] that
    by (auto simp: gdb_cpu_getreg_def G_effect_def regs_frame_def settable_def const_defs Let_def)
  then show ?thesis using s' by auto
qed

theorem write_all_registers_undecoded_witness:
  "\<exists>s'. trap_loop 0x3c (idle\<lparr>input := request (ch CHR ''G'' # hexs (replicate 788 0)) @ [ch CHR ''+'']\<rparr>) = trap_loop 0x3c s' \<and>
    tf_elr (gdb_frame s') = 0x3030303030303030"
proof -
  let ?s = "idle\<lparr>input := request (ch CHR ''G'' # hexs (replicate 788 0)) @ [ch CHR ''+'']\<rparr>"
  have l: "linked ?s" "length (gdb_rxbuf ?s) = GDB_BUFSZ" by (simp_all add: linked_def idle_def GDB_BUFSZ_def)
  have "hexs (replicate 788 0) = hexs (replicate 4 0 @ replicate 784 0)" by (simp flip: replicate_add)
  also have "\<dots> = hexs (replicate 4 0) @ hexs (replicate 784 0)" by (simp add: hexs_def)
  also have "hexs (replicate 4 0) = replicate 8 0x30" by code_simp
  finally have h: "take 8 (hexs (replicate 788 0)) = replicate 8 0x30" by simp
  have w: "le_word (replicate 8 0x30) = 0x3030303030303030" by code_simp
  have pc: "settable 32" "gdb_cpu_getreg s 32 = Some (tf_elr (gdb_frame s))" for s
    by (simp_all add: settable_def gdb_cpu_getreg_def const_defs Let_def)
  have "\<exists>s'. trap_loop 0x3c ?s = trap_loop 0x3c s' \<and> (\<forall>q. settable q \<longrightarrow> gdb_cpu_getreg s' q = Some 0x3030303030303030)"
    using write_all_registers_undecoded [OF l, of "replicate 788 0" "[]" "0x3c"] unfolding h w by auto
  then show ?thesis using pc by (elim ex_forward) auto
qed

end
