(* ===== verification/GdbSession.thy ===== *)
theory GdbSession
  imports GdbInv GdbRegs
begin

text \<open>
  Whole sessions: breakpoint packets as commands of the contract, the reply to a debug exception,
  continuing and single stepping, and the states the stub can reach.
\<close>

section \<open>Breakpoint packets\<close>

definition z_req :: "u8 \<Rightarrow> u8 \<times> u64 \<times> u64 \<Rightarrow> u8 list" where
  "z_req c = (\<lambda>(z, a, n). c # z # ch CHR '','' # jx a @ ch CHR '','' # jx n)"

definition err_text :: "gdb_st \<Rightarrow> int \<Rightarrow> u8 list" where
  "err_text s e = (if e = 0 then str ''OK''
     else ch CHR ''E'' # (if use_newlib s then uintmax_to_hex (of_int e) 2 else jx_padded 2 (of_int e)))"

lemma length_jx_padded: "length (jx_padded n v) \<le> max n 16"
  using jx_lemma(4) [of v] by (simp add: jx_padded_def)

lemma sprintf_append:
  "length (gdb_txbuf s) + length x < GDB_BUFSZ \<Longrightarrow> sprintf_txp x s = Some (s\<lparr>gdb_txbuf := gdb_txbuf s @ x\<rparr>)"
  by (simp add: sprintf_txp_def)

lemma z_reply_text:
  assumes "linked s" "input s = ch CHR ''+'' # rest"
  shows "z_reply (e, s) = Some (reply (err_text s e) rest s)"
proof (cases "e = 0")
  case True
  then show ?thesis using assms by (simp add: z_reply_def err_text_def tx_ok_reply)
next
  case False
  have "length (jx_padded 2 (of_int e)) \<le> 16" using length_jx_padded [of 2 "of_int e"] by simp
  then show ?thesis using False assms
    by (simp add: z_reply_def gdb_tx_err_def gdb_tx_hex_def tx_begin_eq sprintf_append err_text_def tx_end_reply GDB_BUFSZ_def)
qed

lemma rx_z_text:
  assumes "rx_wf s" "unread s = z # ch CHR '','' # jx a @ ch CHR '','' # jx n"
  shows "rx_z s = (Some (Some z, a, n), adv (gdb_rxsz s) s)"
proof -
  note z = command_char [OF assms]
  have c: "rx_is (ch CHR '','') (adv 1 s) = (True, adv 2 s)" "rx_wf (adv 2 s)"
    using z rx_is_Cons [of "adv 1 s" "ch CHR '',''"] rx_wf_adv_unread [of s 2] assms by simp_all
  have u: "unread (adv 2 s) = jx a @ ch CHR '','' # jx n @ []" using assms(2) by simp
  have "rx_addr_size (adv 2 s) = (Some (a, n), adv (gdb_rxsz s) s)"
    using rx_addr_size_text [OF c(2) u] length_unread [OF assms(1)] assms(2) by simp
  then show ?thesis using z c by (auto simp: rx_z_def rx_addr_size_def Let_def split: prod.splits option.splits if_splits)
qed

text \<open>The operations depend on the monitor and the debug registers only.\<close>

definition same_dbg :: "gdb_st \<Rightarrow> gdb_st \<Rightarrow> bool" where
  "same_dbg s t \<longleftrightarrow> monitor t = monitor s \<and> hw t = hw s \<and> dbg_breakpoint_num t = dbg_breakpoint_num s \<and>
     dbg_watchpoint_num t = dbg_watchpoint_num s"

lemma sync_local: "same_dbg s t \<Longrightarrow> banks_ok s \<Longrightarrow> dbg_register_sync (t\<lparr>monitor := m\<rparr>) =
    t\<lparr>monitor := m, hw := hw (dbg_register_sync (s\<lparr>monitor := m\<rparr>))\<rparr>"
  by (simp add: same_dbg_def banks_ok_def register_sync_hw)

lemma find_local: "same_dbg s t \<Longrightarrow> dbg_find_free_slot t tp = dbg_find_free_slot s tp \<and> dbg_find_slot t tp a = dbg_find_slot s tp a"
  by (simp add: same_dbg_def dbg_find_free_slot_def dbg_find_slot_def split: FGdbBreakType.split)

lemma z_op_local:
  assumes "same_dbg s t" "banks_ok s"
  shows "z_insert_op z a n t = (fst (z_insert_op z a n s),
      t\<lparr>monitor := monitor (snd (z_insert_op z a n s)), hw := hw (snd (z_insert_op z a n s))\<rparr>)"
    "z_remove_op z a n t = (fst (z_remove_op z a n s),
      t\<lparr>monitor := monitor (snd (z_remove_op z a n s)), hw := hw (snd (z_remove_op z a n s))\<rparr>)"
proof -
  have m: "monitor t = monitor s" "hw t = hw s" using assms(1) by (simp_all add: same_dbg_def)
  have b: "banks_ok (s\<lparr>monitor := x\<rparr>)" for x using assms(2) by (simp add: banks_ok_def)
  have id: "t = t\<lparr>monitor := monitor s, hw := hw s\<rparr>" using m by (intro gdb_st.equality) simp_all
  show "z_insert_op z a n t = (fst (z_insert_op z a n s),
      t\<lparr>monitor := monitor (snd (z_insert_op z a n s)), hw := hw (snd (z_insert_op z a n s))\<rparr>)"
    using find_local [OF assms(1)] sync_local [OF assms] id m b
    by (simp add: z_insert_op_cases kdb_cpu_set_hwbreakpoint_def dbg_setup_watchpoint_def set_mon_def Let_def split: option.split)
  show "z_remove_op z a n t = (fst (z_remove_op z a n s),
      t\<lparr>monitor := monitor (snd (z_remove_op z a n s)), hw := hw (snd (z_remove_op z a n s))\<rparr>)"
    using find_local [OF assms(1)] sync_local [OF assms] id m b
    by (simp add: z_remove_op_cases kdb_cpu_clr_hwbreakpoint_def dbg_remove_watchpoint_def set_mon_def Let_def split: option.split)
qed

definition z_insert :: "u8 \<times> u64 \<times> u64 \<Rightarrow> gdb_st \<Rightarrow> int \<times> gdb_st" where
  "z_insert = (\<lambda>(z, a, n) s. if banks_ok s then z_insert_op (Some z) a n s else (0, s))"

definition z_remove :: "u8 \<times> u64 \<times> u64 \<Rightarrow> gdb_st \<Rightarrow> int \<times> gdb_st" where
  "z_remove = (\<lambda>(z, a, n) s. if banks_ok s then z_remove_op (Some z) a n s else (0, s))"

lemma core_same_dbg: "core s = core t \<Longrightarrow> same_dbg s t"
  using core_fields [of s t] by (simp add: same_dbg_def)

lemma core_banks: "core s = core t \<Longrightarrow> banks_ok s = banks_ok t"
  using core_fields(8,9) [of s t] by (simp add: banks_ok_def)

lemma core_dbg_update: "core s = core t \<Longrightarrow> core (s\<lparr>monitor := m, hw := h\<rparr>) = core (t\<lparr>monitor := m, hw := h\<rparr>)"
  by simp

lemma local_core:
  assumes "p = (r, s\<lparr>monitor := monitor (snd q), hw := hw (snd q)\<rparr>)" "q = (r', t\<lparr>monitor := monitor (snd q), hw := hw (snd q)\<rparr>)"
    "core s = core t"
  shows "core (snd p) = core (snd q)"
proof -
  have "core (snd p) = core (s\<lparr>monitor := monitor (snd q), hw := hw (snd q)\<rparr>)" by (simp only: assms(1) snd_conv)
  also have "\<dots> = core (t\<lparr>monitor := monitor (snd q), hw := hw (snd q)\<rparr>)" by (rule core_dbg_update) (rule assms)
  also have "\<dots> = core (snd q)" using arg_cong [OF assms(2), of "\<lambda>q. core (snd q)"] by (simp only: snd_conv)
  finally show ?thesis .
qed

lemma z_core:
  assumes "core s = core t"
  shows "fst (z_insert x s) = fst (z_insert x t)" "core (snd (z_insert x s)) = core (snd (z_insert x t))"
    "fst (z_remove x s) = fst (z_remove x t)" "core (snd (z_remove x s)) = core (snd (z_remove x t))"
proof -
  obtain z a n where x: "x = (z, a, n)" by (cases x)
  have b: "banks_ok s = banks_ok t" using core_banks [OF assms] .
  have r: "banks_ok t \<Longrightarrow> same_dbg t t" by (simp add: same_dbg_def)
  note l = z_op_local [OF core_same_dbg [OF assms [symmetric]], of "Some z" a n]
  show "fst (z_insert x s) = fst (z_insert x t)" "fst (z_remove x s) = fst (z_remove x t)"
    using l b by (simp_all add: x z_insert_def z_remove_def)
  show "core (snd (z_insert x s)) = core (snd (z_insert x t))" "core (snd (z_remove x s)) = core (snd (z_remove x t))"
    using b assms local_core [OF l(1) z_op_local(1) [OF r] assms] local_core [OF l(2) z_op_local(2) [OF r] assms]
    by (simp_all add: x z_insert_def z_remove_def)
qed

lemma z_req_text: "c \<noteq> ch CHR ''#'' \<Longrightarrow> z \<noteq> ch CHR ''#'' \<Longrightarrow> req_text (z_req c (z, a, n))"
  using jx_no_hash [of a] jx_no_hash [of n] jx_lemma(4) [of a] jx_lemma(4) [of n]
  by (auto simp: req_text_def z_req_def GDB_BUFSZ_def)

lemma err_text_core: "core s = core t \<Longrightarrow> err_text s = err_text t"
  using core_fields(7) [of s t] by (simp add: err_text_def fun_eq_iff)

lemma z_op_frame:
  assumes "banks_ok s"
  shows "input (snd (z_insert_op z a n s)) = input s" "port_out (snd (z_insert_op z a n s)) = port_out s"
    "gdb_rxbuf (snd (z_insert_op z a n s)) = gdb_rxbuf s" "linked (snd (z_insert_op z a n s)) = linked s"
    "use_newlib (snd (z_insert_op z a n s)) = use_newlib s"
    "input (snd (z_remove_op z a n s)) = input s" "port_out (snd (z_remove_op z a n s)) = port_out s"
    "gdb_rxbuf (snd (z_remove_op z a n s)) = gdb_rxbuf s" "linked (snd (z_remove_op z a n s)) = linked s"
    "use_newlib (snd (z_remove_op z a n s)) = use_newlib s"
proof -
  have "same_dbg s s" by (simp add: same_dbg_def)
  note l = z_op_local [OF this assms, of z a n]
  show "input (snd (z_insert_op z a n s)) = input s" "port_out (snd (z_insert_op z a n s)) = port_out s"
    "gdb_rxbuf (snd (z_insert_op z a n s)) = gdb_rxbuf s" "linked (snd (z_insert_op z a n s)) = linked s"
    "use_newlib (snd (z_insert_op z a n s)) = use_newlib s"
    by (subst l(1), simp add: linked_def)+
  show "input (snd (z_remove_op z a n s)) = input s" "port_out (snd (z_remove_op z a n s)) = port_out s"
    "gdb_rxbuf (snd (z_remove_op z a n s)) = gdb_rxbuf s" "linked (snd (z_remove_op z a n s)) = linked s"
    "use_newlib (snd (z_remove_op z a n s)) = use_newlib s"
    by (subst l(2), simp add: linked_def)+
qed

definition z_guard :: "u8 \<times> u64 \<times> u64 \<Rightarrow> gdb_st \<Rightarrow> bool" where
  "z_guard = (\<lambda>(z, a, n) s. z \<noteq> ch CHR ''#'' \<and> banks_ok s)"

interpretation zi: command "z_req (ch CHR ''Z'')" z_guard "\<lambda>x tp s. err_text s (fst (z_insert x s))" "\<lambda>x s. snd (z_insert x s)"
proof (unfold_locales, goal_cases)
  case (1 x s)
  then show ?case by (cases x) (simp add: z_guard_def z_req_text)
next
  case (2 s t x)
  then show ?case using core_banks [of s t] by (simp add: z_guard_def split: prod.split)
next
  case (3 s t x tp)
  then show ?case using z_core(1) [of s t x] err_text_core [of s t] by simp
next
  case (4 s t x)
  then show ?case by (rule z_core)
next
  case (5 s x)
  then show ?case by (cases x) (simp add: z_insert_def z_op_frame)
next
  case (6 x s rest tp)
  obtain z a n where x: "x = (z, a, n)" by (cases x)
  note c = command_char [OF 6(2), of "ch CHR ''Z''" "z # ch CHR '','' # jx a @ ch CHR '','' # jx n"]
  let ?t = "adv (gdb_rxsz (adv 1 s)) (adv 1 s)"
  let ?r = "z_insert_op (Some z) a n ?t"
  have rz: "rx_z (adv 1 s) = (Some (Some z, a, n), ?t)" using 6 c by (intro rx_z_text) (simp_all add: x z_req_def)
  have b: "banks_ok s" "banks_ok ?t" using 6(1) by (simp_all add: x z_guard_def banks_ok_def)
  have "gdb_z_insert (adv 1 s) = Some (reply (err_text (snd ?r) (fst ?r)) rest (snd ?r))"
    using rz z_reply_text [of "snd ?r" rest "fst ?r"] 6 z_op_frame [OF b(2)] by (simp add: gdb_z_insert_def)
  moreover have "core (snd ?r) = core (snd (z_insert x s))" "fst ?r = fst (z_insert x s)"
    using z_core(1,2) [of ?t s x] b by (simp_all add: x z_insert_def)
  moreover have "err_text (snd ?r) = err_text s" using z_op_frame(5) [OF b(2)] by (simp add: err_text_def fun_eq_iff)
  ultimately show ?case using 6 c z_op_frame [OF b(2)] by (simp add: gdb_command_def stay_def x z_req_def rx_wf_def)
qed

interpretation zr: command "z_req (ch CHR ''z'')" z_guard "\<lambda>x tp s. err_text s (fst (z_remove x s))" "\<lambda>x s. snd (z_remove x s)"
proof (unfold_locales, goal_cases)
  case (1 x s)
  then show ?case by (cases x) (simp add: z_guard_def z_req_text)
next
  case (2 s t x)
  then show ?case using core_banks [of s t] by (simp add: z_guard_def split: prod.split)
next
  case (3 s t x tp)
  then show ?case using z_core(3) [of s t x] err_text_core [of s t] by simp
next
  case (4 s t x)
  then show ?case by (rule z_core)
next
  case (5 s x)
  then show ?case by (cases x) (simp add: z_remove_def z_op_frame)
next
  case (6 x s rest tp)
  obtain z a n where x: "x = (z, a, n)" by (cases x)
  note c = command_char [OF 6(2), of "ch CHR ''z''" "z # ch CHR '','' # jx a @ ch CHR '','' # jx n"]
  let ?t = "adv (gdb_rxsz (adv 1 s)) (adv 1 s)"
  let ?r = "z_remove_op (Some z) a n ?t"
  have rz: "rx_z (adv 1 s) = (Some (Some z, a, n), ?t)" using 6 c by (intro rx_z_text) (simp_all add: x z_req_def)
  have b: "banks_ok s" "banks_ok ?t" using 6(1) by (simp_all add: x z_guard_def banks_ok_def)
  have "gdb_z_remove (adv 1 s) = Some (reply (err_text (snd ?r) (fst ?r)) rest (snd ?r))"
    using rz z_reply_text [of "snd ?r" rest "fst ?r"] 6 z_op_frame [OF b(2)] by (simp add: gdb_z_remove_def)
  moreover have "core (snd ?r) = core (snd (z_remove x s))" "fst ?r = fst (z_remove x s)"
    using z_core(3,4) [of ?t s x] b by (simp_all add: x z_remove_def)
  moreover have "err_text (snd ?r) = err_text s" using z_op_frame(10) [OF b(2)] by (simp add: err_text_def fun_eq_iff)
  ultimately show ?case using 6 c z_op_frame [OF b(2)] by (simp add: gdb_command_def stay_def x z_req_def rx_wf_def)
qed

lemma core_monitor_inv:
  assumes "core s = core t"
  shows "monitor_inv s = monitor_inv t" "bps s = bps t" "wps s = wps t"
  using core_fields(5,6,8,9) [OF assms] by (simp_all add: monitor_inv_def banks_ok_def mirrored_def bps_def wps_def)

text \<open>
  C12: A \<open>Z\<close> packet refines the insertion into an abstract collection. Software and hardware
  breakpoints go to the breakpoint bank, watchpoints with the access of the packet to the other; a
  full bank is answered with \<open>EBUSY\<close>, a length other than 1, 2, 4 and 8 with \<open>EINVAL\<close>; the monitor
  and the debug registers agree afterwards.
\<close>
theorem insert_packet_refines:
  assumes "monitor_inv s" "linked s" "length (gdb_rxbuf s) = GDB_BUFSZ" "z \<noteq> ch CHR ''#''"
    "input s = request (z_req (ch CHR ''Z'') (z, a, n)) @ ch CHR ''+'' # rest"
  shows "\<exists>s' r. trap_loop tp s = trap_loop tp s' \<and> monitor_inv s' \<and> input s' = rest \<and>
    port_out s' = port_out s @ map Putc (ch CHR ''+'' # rle_frame (err_text s r)) \<and>
    (if z_breakpoint (Some z) then (r, bps s') = spec_insert (dbg_breakpoint_num s) n a (bp_ctrl n) (bps s) \<and> wps s' = wps s
     else case z_access (Some z) of
       Some access \<Rightarrow> (r, wps s') = spec_insert (dbg_watchpoint_num s) n a (wp_ctrl n access) (wps s) \<and> bps s' = bps s
     | None \<Rightarrow> r = EINVAL \<and> bps s' = bps s \<and> wps s' = wps s)"
proof -
  obtain r t where t: "z_insert_op (Some z) a n s = (r, t)" by fastforce
  have b: "banks_ok s" using assms(1) by (simp add: monitor_inv_def)
  then obtain s' where s': "trap_loop tp s = trap_loop tp s'" "core s' = core t" "input s' = rest"
      "port_out s' = port_out s @ Putc (ch CHR ''+'') # map Putc (rle_frame (err_text s r))"
    using zi.served [of "(z, a, n)" s rest tp] assms by (auto simp: z_guard_def z_insert_def t)
  note spec = z_insert_op_spec [OF assms(1) t]
  have err: "z_access (Some z) = None \<Longrightarrow> \<not> z_breakpoint (Some z) \<Longrightarrow> t = s" using t by (simp add: z_insert_op_cases)
  show ?thesis using s' spec core_monitor_inv [OF s'(2)] err
    by (intro exI [of _ s'] exI [of _ r]) (auto split: option.splits if_splits)
qed

text \<open>
  C13: A \<open>z\<close> packet refines the removal of one entry with that address from the bank of the packet
  type, whatever its length and access; an address that is not there is answered with \<open>EINVAL\<close>.
\<close>
theorem remove_packet_refines:
  assumes "monitor_inv s" "linked s" "length (gdb_rxbuf s) = GDB_BUFSZ" "z \<noteq> ch CHR ''#''"
    "input s = request (z_req (ch CHR ''z'') (z, a, n)) @ ch CHR ''+'' # rest"
  shows "\<exists>s' r. trap_loop tp s = trap_loop tp s' \<and> monitor_inv s' \<and> input s' = rest \<and>
    port_out s' = port_out s @ map Putc (ch CHR ''+'' # rle_frame (err_text s r)) \<and>
    (if z_breakpoint (Some z) then spec_remove a (bps s) r (bps s') \<and> wps s' = wps s
     else if z_access (Some z) \<noteq> None then spec_remove a (wps s) r (wps s') \<and> bps s' = bps s
     else r = EINVAL \<and> bps s' = bps s \<and> wps s' = wps s)"
proof -
  obtain r t where t: "z_remove_op (Some z) a n s = (r, t)" by fastforce
  have b: "banks_ok s" using assms(1) by (simp add: monitor_inv_def)
  then obtain s' where s': "trap_loop tp s = trap_loop tp s'" "core s' = core t" "input s' = rest"
      "port_out s' = port_out s @ Putc (ch CHR ''+'') # map Putc (rle_frame (err_text s r))"
    using zr.served [of "(z, a, n)" s rest tp] assms by (auto simp: z_guard_def z_remove_def t)
  note spec = z_remove_op_spec [OF assms(1) t]
  have err: "z_access (Some z) = None \<Longrightarrow> \<not> z_breakpoint (Some z) \<Longrightarrow> t = s" using t by (simp add: z_remove_op_cases)
  show ?thesis using s' spec core_monitor_inv [OF s'(2)] err
    by (intro exI [of _ s'] exI [of _ r]) (auto split: if_splits)
qed

lemma idle_monitor_inv: "monitor_inv (idle\<lparr>input := i\<rparr>)" "bps (idle\<lparr>input := i\<rparr>) = {#}" "wps (idle\<lparr>input := i\<rparr>) = {#}"
  "linked (idle\<lparr>input := i\<rparr>)" "length (gdb_rxbuf (idle\<lparr>input := i\<rparr>)) = GDB_BUFSZ"
  by (simp_all add: idle_def idle_monitor_def idle_hw_def monitor_inv_def banks_ok_def mirrored_def bps_def wps_def armed_zero
      const_defs linked_def)

theorem insert_packet_refines_witness:
  "\<exists>s'. trap_loop 0x3c (idle\<lparr>input := request (str ''Z1,1000,4'') @ [ch CHR ''+'']\<rparr>) = trap_loop 0x3c s' \<and>
    bps s' = {#(0x1000, 0x1e3)#} \<and> port_out s' = map Putc (ch CHR ''+'' # rle_frame (str ''OK''))"
proof -
  let ?s = "idle\<lparr>input := request (str ''Z1,1000,4'') @ [ch CHR ''+'']\<rparr>"
  have q: "z_req (ch CHR ''Z'') (ch CHR ''1'', 0x1000, 4) = str ''Z1,1000,4''" "bp_ctrl 4 = 0x1e3"
    by code_simp+
  have e: "input ?s = request (z_req (ch CHR ''Z'') (ch CHR ''1'', 0x1000, 4)) @ ch CHR ''+'' # []"
    "ch CHR ''1'' \<noteq> ch CHR ''#''" "dbg_breakpoint_num ?s = 6" "port_out ?s = []" "z_breakpoint (Some (ch CHR ''1''))"
    unfolding q by (simp_all add: idle_def z_breakpoint_def)
  have "\<exists>s' r. trap_loop 0x3c ?s = trap_loop 0x3c s' \<and> port_out s' = map Putc (ch CHR ''+'' # rle_frame (err_text ?s r)) \<and>
      (r, bps s') = spec_insert 6 4 0x1000 (bp_ctrl 4) {#}"
    using insert_packet_refines [OF idle_monitor_inv(1,4,5) e(2,1), of "0x3c"] e idle_monitor_inv(2)
    by (elim ex_forward) simp
  then show ?thesis by (elim exE, intro exI) (auto simp: spec_insert_def q err_text_def)
qed

theorem remove_packet_refines_witness:
  "\<exists>s'. trap_loop 0x3c (idle\<lparr>input := request (str ''z1,1000,4'') @ [ch CHR ''+'']\<rparr>) = trap_loop 0x3c s' \<and>
    bps s' = {#} \<and> port_out s' = map Putc (ch CHR ''+'' # rle_frame (str ''E16''))"
proof -
  let ?s = "idle\<lparr>input := request (str ''z1,1000,4'') @ [ch CHR ''+'']\<rparr>"
  have q: "z_req (ch CHR ''z'') (ch CHR ''1'', 0x1000, 4) = str ''z1,1000,4''" "uintmax_to_hex 22 2 = str ''16''"
    by code_simp+
  have e: "input ?s = request (z_req (ch CHR ''z'') (ch CHR ''1'', 0x1000, 4)) @ ch CHR ''+'' # []"
    "ch CHR ''1'' \<noteq> ch CHR ''#''" "port_out ?s = []" "z_breakpoint (Some (ch CHR ''1''))" "use_newlib ?s"
    unfolding q by (simp_all add: idle_def z_breakpoint_def)
  have "\<exists>s' r. trap_loop 0x3c ?s = trap_loop 0x3c s' \<and> port_out s' = map Putc (ch CHR ''+'' # rle_frame (err_text ?s r)) \<and>
      spec_remove 0x1000 {#} r (bps s')"
    using remove_packet_refines [OF idle_monitor_inv(1,4,5) e(2,1), of "0x3c"] e idle_monitor_inv(2)
    by (elim ex_forward) simp
  then show ?thesis using e(5) by (elim exE, intro exI) (auto simp: spec_remove_def err_text_def EINVAL_def q)
qed

end
