(* ===== verification/GdbResume.thy ===== *)
theory GdbResume
  imports GdbSession
begin

text \<open>
  Entering and leaving the stub: the report of a debug exception, continuing and single stepping
  with the interrupt mask, a packet that is too long, and the states that can be reached.
\<close>

section \<open>The report of a stop\<close>

definition hex_text :: "gdb_st \<Rightarrow> u64 \<Rightarrow> u8 list" where
  "hex_text s n = (if use_newlib s then uintmax_to_hex n 2 else jx_padded 2 n)"

lemma hex_text_txbuf [simp]: "hex_text (s\<lparr>gdb_txbuf := x\<rparr>) n = hex_text s n"
  by (simp add: hex_text_def)

lemma length_hex_text: "length (hex_text s n) \<le> 16"
  using length_jx_padded [of 2 n] by (simp add: hex_text_def)

definition stop_text :: "int \<Rightarrow> gdb_st \<Rightarrow> u8 list" where
  "stop_text tp s = ch CHR ''T'' # hex_text s (gdb_cpu_signal tp) @
     jx (of_int GDB_REG_PC) @ str '':'' @ hexs (le_bytes 8 (tf_elr (gdb_frame s))) @ str '';'' @
     (if tp = EXCP_WATCHPT_EL1 then str ''watch:'' @ jx (far_el1 (hw s)) @ str '';'' else []) @ str ''thread:'' @ jx 1 @ str '';''"

lemma tx_varhex_append:
  "length (gdb_txbuf s) + 16 < GDB_BUFSZ \<Longrightarrow> gdb_tx_varhex n s = Some (s\<lparr>gdb_txbuf := gdb_txbuf s @ jx n\<rparr>)"
  using jx_lemma(4) [of n] by (simp add: gdb_tx_varhex_def sprintf_append jx_def [symmetric])

lemma tx_hex_append:
  "length (gdb_txbuf s) + 16 < GDB_BUFSZ \<Longrightarrow>
    gdb_tx_hex n 2 s = Some (s\<lparr>gdb_txbuf := gdb_txbuf s @ hex_text s n\<rparr>)"
  using length_hex_text [of s n] by (simp add: gdb_tx_hex_def sprintf_append hex_text_def)

lemma reg_text_PC: "reg_text s GDB_REG_PC = hexs (le_bytes 8 (tf_elr (gdb_frame s)))"
  by (simp add: reg_text_def gdb_cpu_getreg_def gdb_cpu_regsz_def const_defs)

lemma tx_stop_text:
  assumes "linked s" "input s = ch CHR ''+'' # rest"
  shows "tx_stop tp s = Some (reply (stop_text tp s) rest s)"
proof -
  have h: "length (hex_text s (gdb_cpu_signal tp)) \<le> 16" by (rule length_hex_text)
  have j: "length (jx v) \<le> 16" for v by (rule jx_lemma)
  have p: "gdb_cpu_regsz GDB_REG_PC = 8" by (simp add: gdb_cpu_regsz_def const_defs)
  show ?thesis
  proof (cases "tp = EXCP_WATCHPT_EL1")
    case True
    show ?thesis
      using h j [of "of_int GDB_REG_PC"] j [of "far_el1 (hw s)"] j [of 1] True assms p
      by (simp add: tx_stop_def tx_begin_eq tx_hex_append tx_varhex_append tx_char_append tx_reg_append tx_str_append
          gdb_cpu_stop_reason_def tx_end_reply stop_text_def reg_text_PC FGdbCurrentThreadId_def GDB_BUFSZ_def)
  next
    case False
    show ?thesis
      using h j [of "of_int GDB_REG_PC"] j [of 1] False assms p
      by (simp add: tx_stop_def tx_begin_eq tx_hex_append tx_varhex_append tx_char_append tx_reg_append tx_str_append
          gdb_cpu_stop_reason_def tx_end_reply stop_text_def reg_text_PC FGdbCurrentThreadId_def GDB_BUFSZ_def)
  qed
qed

section \<open>Continuing\<close>

definition masked :: "gdb_st \<Rightarrow> bool" where
  "masked s \<longleftrightarrow> daif (hw s) AND PSR_D = PSR_D"

lemma clear_singlestep_eq:
  assumes "masked s"
  shows "\<exists>h. kdb_cpu_clear_singlestep s = Some ((skip_compiled_brk s)\<lparr>gdb_frame := (gdb_frame (skip_compiled_brk s))
    \<lparr>tf_spsr := (tf_spsr (gdb_frame s) AND NOT PSR_DAIF) OR (ucast (dbg_flags (monitor s)) AND PSR_DAIF)\<rparr>, hw := h\<rparr>)"
  using assms
  by (auto simp: kdb_cpu_clear_singlestep_def Let_def masked_def skip_compiled_brk_def set_frame_def set_mdscr_def set_hw_def
      intro!: exI)

lemma command_continue:
  assumes "rx_wf s" "unread s = str ''c''" "masked s"
  shows "\<exists>h. gdb_command tp s = Some (True, (skip_compiled_brk (adv 1 s))\<lparr>gdb_frame := (gdb_frame (skip_compiled_brk s))
    \<lparr>tf_spsr := (tf_spsr (gdb_frame s) AND NOT PSR_DAIF) OR (ucast (dbg_flags (monitor s)) AND PSR_DAIF)\<rparr>, hw := h, gdb_listening := True\<rparr>)"
proof -
  note c = command_char [OF assms(1), of "ch CHR ''c''" "[]"]
  have "rx_pc (adv 1 s) = adv 1 s" using c assms rx_varhex_none [of "adv 1 s" "[]"] by (simp add: rx_pc_def)
  moreover have "masked (adv 1 s)" using assms(3) by (simp add: masked_def)
  moreover have "gdb_frame (skip_compiled_brk (adv 1 s)) = gdb_frame (skip_compiled_brk s)"
    by (simp add: skip_compiled_brk_def set_frame_def)
  ultimately show ?thesis using clear_singlestep_eq [of "adv 1 s"] c assms(2)
    by (auto simp: gdb_command_def leave_def)
qed

lemma continue_session_lemma:
  assumes "dbbe_active s" "\<not> gdb_sendpacket s" "length (gdb_rxbuf s) = GDB_BUFSZ" "masked s"
    "input s = ch CHR ''+'' # request (str ''c'') @ rest"
  shows "\<exists>s'. FGdbTrap tp s = Some (1, s') \<and> input s' = rest \<and> gdb_listening s' \<and> monitor s' = monitor s \<and> tmem s' = tmem s \<and>
    gdb_frame s' = (gdb_frame s)\<lparr>tf_elr := tf_elr (gdb_frame s) + (if compiled_brk_process s then BREAK_INSTR_SIZE else 0),
      tf_spsr := (tf_spsr (gdb_frame s) AND NOT PSR_DAIF) OR (ucast (dbg_flags (monitor s)) AND PSR_DAIF)\<rparr> \<and>
    port_out s' = port_out s @ IntrCtrl False # map Putc (rle_frame (stop_text tp s)) @ [Putc (ch CHR ''+''), IntrCtrl True]"
proof -
  let ?s = "(port_intr_ctrl False s)\<lparr>gdb_listening := False, gdb_ackmode := True\<rparr>"
  have l: "linked ?s" "input ?s = ch CHR ''+'' # request (str ''c'') @ rest" using assms by (simp_all add: linked_def port_intr_ctrl_def)
  define t where "t = reply (stop_text tp ?s) (request (str ''c'') @ rest) ?s"
  have t: "tx_stop tp ?s = Some t" using tx_stop_text [OF l] by (simp add: t_def)
  have rt: "req_text (str ''c'')" by (simp add: req_text_def GDB_BUFSZ_def)
  obtain u where u: "gdb_rx_begin t = Some (0, u)" "core u = core t" "unread u = str ''c''" "rx_wf u" "input u = rest"
      "port_out u = port_out t @ [Putc (ch CHR ''+'')]"
    using rx_begin_request [OF rt, of t rest] assms by (auto simp: t_def port_intr_ctrl_def reply_def)
  note f = core_fields [OF u(2)]
  have m: "masked u" using assms(4) f(6) by (simp add: masked_def t_def reply_def port_intr_ctrl_def)
  obtain h where h: "gdb_command tp u = Some (True, (skip_compiled_brk (adv 1 u))\<lparr>gdb_frame := (gdb_frame (skip_compiled_brk u))
      \<lparr>tf_spsr := (tf_spsr (gdb_frame u) AND NOT PSR_DAIF) OR (ucast (dbg_flags (monitor u)) AND PSR_DAIF)\<rparr>, hw := h, gdb_listening := True\<rparr>)"
      (is "_ = Some (True, ?v)")
    using command_continue [OF u(4,3) m, of tp] by blast
  have "trap_loop tp t = Some (1, ?v)" using u(1) h by (simp add: trap_loop.simps [of tp t])
  then have r: "FGdbTrap tp s = Some (1, port_intr_ctrl True ?v)" using assms(1) t by (simp add: FGdbTrap_def Let_def)
  have s: "gdb_frame u = gdb_frame s" "monitor u = monitor s" "compiled_brk_process u = compiled_brk_process s" "tmem u = tmem s"
    using f by (simp_all add: t_def reply_def port_intr_ctrl_def)
  have "port_out u = port_out s @ IntrCtrl False # map Putc (rle_frame (stop_text tp s)) @ [Putc (ch CHR ''+'')]"
    using u(6) by (simp add: t_def port_intr_ctrl_def stop_text_def hex_text_def)
  then show ?thesis using r s u(5)
    by (cases "compiled_brk_process s") (simp_all add: port_intr_ctrl_def skip_compiled_brk_def set_frame_def)
qed

text \<open>
  C28: A session that is continued at once returns to the target: the stop is reported, the packet \<open>c\<close>
  is acknowledged, the port is put back in interrupt mode, a compiled-in breakpoint instruction is
  stepped over, and memory and breakpoints are as before.
\<close>
theorem continue_session:
  assumes "dbbe_active s" "\<not> gdb_sendpacket s" "length (gdb_rxbuf s) = GDB_BUFSZ" "masked s"
    "input s = ch CHR ''+'' # request (str ''c'') @ rest"
  shows "\<exists>s'. FGdbTrap tp s = Some (1, s') \<and> input s' = rest \<and> gdb_listening s' \<and> monitor s' = monitor s \<and> tmem s' = tmem s \<and>
    tf_elr (gdb_frame s') = tf_elr (gdb_frame s) + (if compiled_brk_process s then BREAK_INSTR_SIZE else 0) \<and>
    tf_x (gdb_frame s') = tf_x (gdb_frame s) \<and> tf_sp (gdb_frame s') = tf_sp (gdb_frame s) \<and>
    port_out s' = port_out s @ IntrCtrl False # map Putc (rle_frame (stop_text tp s)) @ [Putc (ch CHR ''+''), IntrCtrl True]"
  using continue_session_lemma [OF assms, of tp] by auto

text \<open>
  Continuing from a breakpoint without a previous single step clears the interrupt mask of the
  interrupted code, whatever it was: the mask is taken from the saved flags, and only a single
  step saves it there.
\<close>
theorem continue_unmasks_interrupts:
  assumes "dbbe_active s" "\<not> gdb_sendpacket s" "length (gdb_rxbuf s) = GDB_BUFSZ" "masked s"
    "input s = ch CHR ''+'' # request (str ''c'') @ rest" "dbg_flags (monitor s) = DBGMON_KERNEL OR DBGMON_ENABLED"
  shows "\<exists>s'. FGdbTrap tp s = Some (1, s') \<and> tf_spsr (gdb_frame s') AND PSR_DAIF = 0"
proof -
  have "((x AND NOT PSR_DAIF) OR (ucast (DBGMON_KERNEL OR DBGMON_ENABLED) AND PSR_DAIF)) AND PSR_DAIF = 0" for x
  proof -
    have "ucast (DBGMON_KERNEL OR DBGMON_ENABLED) AND PSR_DAIF = 0" by (simp add: const_defs)
    then show ?thesis by (simp add: bit_eq_iff bit_simps)
  qed
  then show ?thesis using continue_session_lemma [OF assms(1-5), of tp] assms(6) by auto
qed

definition stopped :: gdb_st where
  "stopped = idle\<lparr>input := ch CHR ''+'' # request (str ''c''), monitor := idle_monitor\<lparr>dbg_flags := 3\<rparr>,
     gdb_frame := idle_frame\<lparr>tf_elr := 0x80, tf_spsr := 0x3c5\<rparr>\<rparr>"

lemma stopped_simps: "dbbe_active stopped" "\<not> gdb_sendpacket stopped" "length (gdb_rxbuf stopped) = GDB_BUFSZ" "masked stopped"
  "input stopped = ch CHR ''+'' # request (str ''c'') @ []" "dbg_flags (monitor stopped) = DBGMON_KERNEL OR DBGMON_ENABLED"
  "port_out stopped = []"
  by (simp_all add: stopped_def idle_def GDB_BUFSZ_def masked_def idle_hw_def const_defs)

theorem continue_session_witness:
  "\<exists>s'. FGdbTrap 0x31 stopped = Some (1, s') \<and> tf_elr (gdb_frame s') = 0x80 \<and> input s' = []"
  using continue_session [OF stopped_simps(1-5), of "0x31"] by (elim ex_forward) (simp add: stopped_def idle_def)

theorem continue_unmasks_interrupts_witness:
  "\<exists>s'. FGdbTrap 0x31 stopped = Some (1, s') \<and> tf_spsr (gdb_frame s') AND PSR_DAIF = 0 \<and> tf_spsr (gdb_frame stopped) AND PSR_I = PSR_I"
  using continue_unmasks_interrupts [OF stopped_simps(1-6), of "0x31"] by (elim ex_forward) (simp add: stopped_def PSR_I_def)

section \<open>Single stepping\<close>

lemma DAIF_flags:
  "ucast (ucast (ucast (ucast (ucast (f :: u32) AND NOT PSR_DAIF) :: u32) OR ((x OR PSR_SS) AND PSR_DAIF)) :: u32) AND PSR_DAIF = x AND PSR_DAIF"
proof -
  have d: "bit PSR_DAIF n \<Longrightarrow> n < 32" for n
  proof -
    assume "bit PSR_DAIF n"
    then have "bit (0x3c0 :: u64) n" by (simp add: const_defs)
    then have "bit (take_bit 32 (0x3c0 :: u64)) n" by simp
    then show "n < 32" by (simp only: bit_take_bit_iff)
  qed
  have s: "\<not> (bit PSR_DAIF n \<and> bit PSR_SS n)" for n
  proof
    assume "bit PSR_DAIF n \<and> bit PSR_SS n"
    then have "bit (PSR_DAIF AND PSR_SS) n" by (simp add: bit_and_iff)
    moreover have "PSR_DAIF AND PSR_SS = 0" by (simp add: const_defs)
    ultimately show False by simp
  qed
  show ?thesis using d s by (auto intro!: bit_word_eqI simp: bit_simps)
qed

lemma set_singlestep_eq:
  assumes "kdb_cpu_set_singlestep s = Some s'"
  shows "ucast (dbg_flags (monitor s')) AND PSR_DAIF = tf_spsr (gdb_frame s) AND PSR_DAIF"
    "tf_spsr (gdb_frame s') = (tf_spsr (gdb_frame s) OR PSR_SS) OR (PSR_A OR PSR_I OR PSR_F)"
    "masked s'"
  using assms DAIF_flags [of "dbg_flags (monitor s)" "tf_spsr (gdb_frame s)"]
  by (auto simp: kdb_cpu_set_singlestep_def Let_def FASSERT_bind_eq_Some_iff masked_def skip_compiled_brk_def
      set_frame_def set_mon_def set_mdscr_def set_hw_def split: if_splits)

text \<open>
  A single step followed by a continue gives the interrupted code its own interrupt mask back,
  whatever mask the exception of the step was taken with.
\<close>
theorem step_then_continue_restores_mask:
  assumes "kdb_cpu_set_singlestep s = Some s1" "kdb_cpu_clear_singlestep (s1\<lparr>gdb_frame := tf\<rparr>) = Some s2"
  shows "tf_spsr (gdb_frame s2) AND PSR_DAIF = tf_spsr (gdb_frame s) AND PSR_DAIF"
proof -
  have "masked (s1\<lparr>gdb_frame := tf\<rparr>)" using set_singlestep_eq(3) [OF assms(1)] by (simp add: masked_def)
  then have "tf_spsr (gdb_frame s2) = (tf_spsr tf AND NOT PSR_DAIF) OR (ucast (dbg_flags (monitor s1)) AND PSR_DAIF)"
    using clear_singlestep_eq [of "s1\<lparr>gdb_frame := tf\<rparr>"] assms(2) by auto
  then have "tf_spsr (gdb_frame s2) AND PSR_DAIF = ucast (dbg_flags (monitor s1)) AND PSR_DAIF"
    by (auto intro!: bit_word_eqI simp: bit_simps)
  then show ?thesis using set_singlestep_eq(1) [OF assms(1)] by simp
qed

text \<open>
  C39: Two single steps in a row lose it: the second step saves the mask that the first one had
  forced, so that the code goes on with asynchronous aborts, interrupts and fast interrupts masked.
\<close>
theorem second_step_masks_interrupts:
  assumes "kdb_cpu_set_singlestep s = Some s1" "tf_spsr tf1 AND PSR_DAIF = tf_spsr (gdb_frame s1) AND PSR_DAIF"
    "kdb_cpu_set_singlestep (s1\<lparr>gdb_frame := tf1\<rparr>) = Some s2" "kdb_cpu_clear_singlestep (s2\<lparr>gdb_frame := tf2\<rparr>) = Some s3"
  shows "tf_spsr (gdb_frame s3) AND (PSR_A OR PSR_I OR PSR_F) = PSR_A OR PSR_I OR PSR_F"
proof -
  have "masked (s2\<lparr>gdb_frame := tf2\<rparr>)" using set_singlestep_eq(3) [OF assms(3)] by (simp add: masked_def)
  then have s3: "tf_spsr (gdb_frame s3) = (tf_spsr tf2 AND NOT PSR_DAIF) OR (ucast (dbg_flags (monitor s2)) AND PSR_DAIF)"
    using clear_singlestep_eq [of "s2\<lparr>gdb_frame := tf2\<rparr>"] assms(4) by auto
  have s2: "ucast (dbg_flags (monitor s2)) AND PSR_DAIF = tf_spsr (gdb_frame s1) AND PSR_DAIF"
    using set_singlestep_eq(1) [OF assms(3)] assms(2) by simp
  have aif: "PSR_DAIF = PSR_D OR (PSR_A OR PSR_I OR PSR_F)" by (simp add: PSR_DAIF_def)
  show ?thesis unfolding s3 s2 unfolding set_singlestep_eq(2) [OF assms(1)] aif
    by (auto intro!: bit_word_eqI simp: bit_simps)
qed

definition stepped :: "gdb_st \<Rightarrow> gdb_st" where
  "stepped s = the (kdb_cpu_set_singlestep s)"

lemma stepped_Some: "masked s \<Longrightarrow> kdb_cpu_set_singlestep s = Some (stepped s)" "masked s \<Longrightarrow> masked (stepped s)"
proof -
  assume "masked s"
  then have "kdb_cpu_set_singlestep s \<noteq> None" by (simp add: kdb_cpu_set_singlestep_def masked_def Let_def)
  then show "kdb_cpu_set_singlestep s = Some (stepped s)" by (simp add: stepped_def)
  then show "masked (stepped s)" by (rule set_singlestep_eq(3))
qed

lemma continued_Some: "masked s \<Longrightarrow> \<exists>s'. kdb_cpu_clear_singlestep s = Some s'"
  using clear_singlestep_eq [of s] by blast

lemma masked_frame [simp]: "masked (s\<lparr>gdb_frame := tf\<rparr>) = masked s"
  by (simp add: masked_def)

theorem step_then_continue_restores_mask_witness:
  "\<exists>s2. kdb_cpu_clear_singlestep ((stepped stopped)\<lparr>gdb_frame := idle_frame\<rparr>) = Some s2 \<and> tf_spsr (gdb_frame s2) AND PSR_DAIF = 0x3c0"
proof -
  have m: "masked stopped" by (rule stopped_simps)
  obtain s2 where s2: "kdb_cpu_clear_singlestep ((stepped stopped)\<lparr>gdb_frame := idle_frame\<rparr>) = Some s2"
    using continued_Some [of "(stepped stopped)\<lparr>gdb_frame := idle_frame\<rparr>"] stepped_Some(2) [OF m] by auto
  moreover have "tf_spsr (gdb_frame stopped) AND PSR_DAIF = 0x3c0" by (simp add: stopped_def const_defs)
  ultimately show ?thesis using step_then_continue_restores_mask [OF stepped_Some(1) [OF m] s2] by simp
qed

theorem second_step_masks_interrupts_witness:
  "\<exists>s3. kdb_cpu_clear_singlestep (stepped (stepped idle)) = Some s3 \<and> tf_spsr (gdb_frame idle) = 0 \<and>
    tf_spsr (gdb_frame s3) AND (PSR_A OR PSR_I OR PSR_F) = PSR_A OR PSR_I OR PSR_F"
proof -
  have m: "masked idle" by (simp add: masked_def idle_def idle_hw_def const_defs)
  have f: "s\<lparr>gdb_frame := gdb_frame s\<rparr> = s" for s :: gdb_st by simp
  have 1: "kdb_cpu_set_singlestep ((stepped idle)\<lparr>gdb_frame := gdb_frame (stepped idle)\<rparr>) = Some (stepped (stepped idle))"
    unfolding f by (rule stepped_Some(1) [OF stepped_Some(2) [OF m]])
  obtain s3 where s3: "kdb_cpu_clear_singlestep (stepped (stepped idle)) = Some s3"
    using continued_Some stepped_Some(2) m by blast
  then have 2: "kdb_cpu_clear_singlestep ((stepped (stepped idle))\<lparr>gdb_frame := gdb_frame (stepped (stepped idle))\<rparr>) = Some s3"
    unfolding f .
  show ?thesis using s3 second_step_masks_interrupts [OF stepped_Some(1) [OF m] refl 1 2]
    by (simp add: idle_def idle_frame_def)
qed

section \<open>A packet that is too long\<close>

lemma rx_chars_full:
  "ch CHR ''#'' \<notin> set xs \<Longrightarrow> input s = xs @ rest \<Longrightarrow> length xs = n \<Longrightarrow> gdb_rxsz s + n \<le> length (gdb_rxbuf s) \<Longrightarrow> c \<noteq> ch CHR ''#'' \<Longrightarrow>
    \<exists>s' k' c'. rx_chars n s k c = Some (s', k', c') \<and> c' \<noteq> ch CHR ''#'' \<and> input s' = rest \<and> port_out s' = port_out s \<and>
      gdb_ackmode s' = gdb_ackmode s \<and> core s' = core s"
proof (induction xs arbitrary: n s k c)
  case (Cons x xs)
  then obtain m where n: "n = Suc m" by (cases n) auto
  let ?s = "s\<lparr>input := xs @ rest, gdb_rxbuf := (gdb_rxbuf s)[gdb_rxsz s := x], gdb_rxsz := gdb_rxsz s + 1\<rparr>"
  have "\<exists>s' k' c'. rx_chars m ?s (k + ucast x) x = Some (s', k', c') \<and> c' \<noteq> ch CHR ''#'' \<and> input s' = rest \<and>
      port_out s' = port_out ?s \<and> gdb_ackmode s' = gdb_ackmode ?s \<and> core s' = core ?s"
    using Cons.prems by (intro Cons.IH) (auto simp: n)
  moreover have "rx_chars n s k c = rx_chars m ?s (k + ucast x) x" using Cons.prems by (simp add: n)
  ultimately show ?case by simp
qed auto

text \<open>
  A packet of the size the stub announces is refused, and the refusal lets the target go. The
  reply to \<open>qSupported\<close> offers packets of 4099 characters, 4095 between the delimiters; after that
  many the receiver gives up without having looked for the delimiter, answers with a minus sign, and
  the command loop returns.
\<close>
theorem announced_packet_refused:
  assumes "ch CHR ''#'' \<notin> set xs" "length xs = GDB_BUFSZ - 1" "gdb_ackmode s" "length (gdb_rxbuf s) = GDB_BUFSZ"
    "input s = ch CHR ''$'' # xs @ ch CHR ''#'' # rest"
  shows "\<exists>s'. trap_loop tp s = Some (0, s') \<and> core s' = core s \<and> input s' = ch CHR ''#'' # rest \<and>
    port_out s' = port_out s @ [Putc (ch CHR ''-'')]"
proof -
  let ?s = "s\<lparr>input := xs @ ch CHR ''#'' # rest, gdb_rxsz := 0\<rparr>"
  have "\<exists>s' k' c'. rx_chars (GDB_BUFSZ - 1) ?s 0 (ch CHR ''$'') = Some (s', k', c') \<and> c' \<noteq> ch CHR ''#'' \<and>
      input s' = ch CHR ''#'' # rest \<and> port_out s' = port_out ?s \<and> gdb_ackmode s' = gdb_ackmode ?s \<and> core s' = core ?s"
    using assms by (intro rx_chars_full) (simp_all add: GDB_BUFSZ_def)
  then obtain s1 k c where s1: "rx_chars (GDB_BUFSZ - 1) ?s 0 (ch CHR ''$'') = Some (s1, k, c)" "c \<noteq> ch CHR ''#''"
      "input s1 = ch CHR ''#'' # rest" "port_out s1 = port_out s" "gdb_ackmode s1" "core s1 = core s"
    using assms(3) by auto
  let ?t = "gdb_nack (s1\<lparr>gdb_rxbuf := (gdb_rxbuf s1)[gdb_rxsz s1 := 0]\<rparr>)"
  have "rx_round s = Some (Some ENOSPC, ?t)"
    using s1 assms(5) by (simp add: rx_round_def)
  then have "gdb_rx_begin s = Some (ENOSPC, ?t)" by (simp add: gdb_rx_begin.simps [of s] ENOSPC_def)
  then have "trap_loop tp s = Some (0, ?t)" by (simp add: trap_loop.simps [of tp s] ENOSPC_def)
  then show ?thesis using s1 by (auto simp: gdb_nack_def gdb_port_putc_def)
qed

theorem announced_packet_refused_witness:
  "\<exists>s'. trap_loop 0x3c (idle\<lparr>input := ch CHR ''$'' # replicate 4095 (ch CHR ''m'') @ str ''#00''\<rparr>) = Some (0, s') \<and>
    port_out s' = [Putc (ch CHR ''-'')]"
  using announced_packet_refused [of "replicate 4095 (ch CHR ''m'')" "idle\<lparr>input := ch CHR ''$'' # replicate 4095 (ch CHR ''m'') @ str ''#00''\<rparr>" "str ''00''" "0x3c"]
  by (fastforce simp: idle_simps GDB_BUFSZ_def)

section \<open>Reachable states\<close>

text \<open>
  Between two debug exceptions the target runs: memory, the input and the registers that record an
  exception change, the structure of the stub and the slots of the debug registers do not.
\<close>

definition target_runs :: "u8 list \<Rightarrow> (u64 \<Rightarrow> u8) \<Rightarrow> u64 \<times> u64 \<times> u64 \<times> u64 \<Rightarrow> gdb_st \<Rightarrow> gdb_st" where
  "target_runs i m = (\<lambda>(esr, far, d, mdscr) s. s\<lparr>input := i, tmem := m,
     hw := (hw s)\<lparr>esr_el1 := esr, far_el1 := far, daif := d, mdscr_el1 := mdscr\<rparr>\<rparr>)"

inductive stub_reach :: "gdb_st \<Rightarrow> bool" where
  initialised: "fresh s \<Longrightarrow> FGdbInitialize 0 r s = (e, s') \<Longrightarrow> stub_reach s'"
| interrupted: "stub_reach s \<Longrightarrow> FGdbDebugInterrupt tf (target_runs i m x s) = Some s' \<Longrightarrow> stub_reach s'"

inductive_cases stub_reachE: "stub_reach s"

lemma stub_inv_target_runs: "stub_inv (target_runs i m x s) = stub_inv s"
  by (simp add: target_runs_def stub_inv_def monitor_inv_def banks_ok_def mirrored_def bps_def wps_def split: prod.split)

text \<open>
  C9: In every state the stub reaches, from its initialisation through any number of debug exceptions
  and whatever the debugger sends in each, the count of enabled slots, the enable flag and the slots
  of the monitor agree, at most sixteen breakpoints and sixteen watchpoints are armed, the debug
  registers mirror the slots, and the buffers have their sizes.
\<close>
theorem reachable_stub_inv:
  assumes "stub_reach s"
  shows "stub_inv s \<and> size (bps s) \<le> 16 \<and> size (wps s) \<le> 16"
proof -
  from assms have i: "stub_inv s"
  proof (induction rule: stub_reach.induct)
    case (initialised s r e s')
    then show ?case by (rule stub_inv_initial)
  next
    case (interrupted s tf i m x s')
    then show ?case using stub_inv_interrupt stub_inv_target_runs by blast
  qed
  then have "banks_ok s" by (simp add: stub_inv_def monitor_inv_def)
  then show ?thesis
    using i size_armed_le [of "dbg_breakpoint_num s" "dbg_bvr (monitor s)" "dbg_bcr (monitor s)"]
      size_armed_le [of "dbg_watchpoint_num s" "dbg_wvr (monitor s)" "dbg_wcr (monitor s)"]
    by (simp add: bps_def wps_def banks_ok_def)
qed

definition zeroed :: gdb_st where
  "zeroed = idle\<lparr>monitor := idle_monitor\<lparr>dbg_flags := 0\<rparr>, dbg_watchpoint_num := 0, dbg_breakpoint_num := 0, dbbe_active := False,
     gdb_ackmode := False\<rparr>"

definition first_stop :: gdb_st where
  "first_stop = target_runs (ch CHR ''+'' # request (str ''c'')) (\<lambda>_. 0) (0xf2000001, 0, 0x3c0, 0) (snd (FGdbInitialize 0 0 zeroed))"

theorem reachable_stub_inv_witness:
  "\<exists>s'. FGdbDebugInterrupt idle_frame first_stop = Some s' \<and> stub_inv s' \<and> size (bps s') \<le> 16 \<and> size (wps s') \<le> 16"
proof -
  have z: "fresh zeroed" by (simp add: fresh_def zeroed_def idle_def idle_monitor_def GDB_BUFSZ_def)
  obtain e s0 where s0: "FGdbInitialize 0 0 zeroed = (e, s0)" by fastforce
  have r: "stub_reach s0" by (rule stub_reach.initialised [OF z s0])
  have i: "stub_inv first_stop" using stub_inv_initial(1) [OF z s0] s0 by (simp add: first_stop_def stub_inv_target_runs)
  have b: "banks_ok first_stop" using i by (simp add: stub_inv_def monitor_inv_def)
  have a: "dbbe_active first_stop" "\<not> gdb_sendpacket first_stop" "daif (hw first_stop) = 0x3c0"
      "input first_stop = ch CHR ''+'' # request (str ''c'') @ []" "esr_el1 (hw first_stop) = 0xf2000001"
    using s0 by (auto simp: first_stop_def target_runs_def FGdbInitialize_def Let_def zeroed_def idle_def set_hw_def set_mon_def
        clear_watchpoints clear_breakpoints bank_sizes)
  let ?t = "(dbg_register_sync first_stop)\<lparr>gdb_frame := idle_frame\<rparr>"
  have t: "dbbe_active ?t" "\<not> gdb_sendpacket ?t" "length (gdb_rxbuf ?t) = GDB_BUFSZ" "masked ?t"
      "input ?t = ch CHR ''+'' # request (str ''c'') @ []"
    using a i by (simp_all add: register_sync_hw [OF b] masked_def stub_inv_def PSR_D_def)
  obtain s' where "FGdbTrap (uint (drop_bit 26 (0xf2000001 :: u64) AND 0x3f)) ?t = Some (1, s')"
    using continue_session_lemma [OF t] by blast
  then have f: "FGdbDebugInterrupt idle_frame first_stop = Some s'"
    using a(5) by (simp add: FGdbDebugInterrupt_def Let_def register_sync_hw [OF b] const_defs)
  then have "stub_reach s'" using stub_reach.interrupted [OF r] s0 by (simp add: first_stop_def)
  then show ?thesis using f reachable_stub_inv by blast
qed

end
