(* ===== verification/Nand.thy ===== *)
theory Nand
  imports Mmio
begin

text \<open>
  The NAND flash controller driver, \<^verbatim>\<open>standalone/drivers/nand/fnand\<close>: types (\<^verbatim>\<open>fnand.h\<close>,
  \<^verbatim>\<open>fnand_dma.h\<close>), registers (\<^verbatim>\<open>fnand_hw.h\<close>, \<^verbatim>\<open>fnand_hw.c\<close>), options
  (\<^verbatim>\<open>fnand_option.c\<close>) and interrupts (\<^verbatim>\<open>fnand_intr.c\<close>).

  The state \<open>FNand\<close> is the driver instance together with what it is connected to: the bus, the
  effect \<open>dma\<close> of a DMA transfer on the data buffer and the callback \<open>wait_irq\<close>, which are
  functions of everything that happened before. A transfer takes place when the start bit is
  written, and the descriptors and the data buffer of that moment are recorded as an event.
  An array is a function of its index; arrays over the connected chips are indexed by the chip
  address. A function pointer to a function of the driver is a value of \<open>nand_fn\<close>, other pointers
  are addresses with 0 for null. The descriptor buffer is a sequence of 16-byte slots.
  \<open>locals\<close> is what a local array holds before it is written, \<open>ret_reg\<close> what a caller finds when a
  function ends without a return statement. The fields \<open>flash_width\<close> and \<open>sdr_timing\<close>, which no
  function reads, are left out.
\<close>

section \<open>Constants\<close>

definition ErrNand :: u32 where [const_defs]: "ErrNand = 19"
definition FNAND_ERR_OPERATION :: FError where "FNAND_ERR_OPERATION = FT_MAKE_ERRCODE ErrModBsp ErrNand 1"
definition FNAND_ERR_INVAILD_PARAMETER :: FError where "FNAND_ERR_INVAILD_PARAMETER = FT_MAKE_ERRCODE ErrModBsp ErrNand 2"
definition FNAND_IS_BUSY :: FError where "FNAND_IS_BUSY = FT_MAKE_ERRCODE ErrModBsp ErrNand 3"
definition FNAND_OP_TIMEOUT :: FError where "FNAND_OP_TIMEOUT = FT_MAKE_ERRCODE ErrModBsp ErrNand 4"
definition FNAND_VALUE_ERROR :: FError where "FNAND_VALUE_ERROR = FT_MAKE_ERRCODE ErrModBsp ErrNand 7"
definition FNAND_VALUE_FAILURE :: FError where "FNAND_VALUE_FAILURE = FT_MAKE_ERRCODE ErrModBsp ErrNand 8"
definition FNAND_NOT_FET_TOGGLE_MODE :: FError where "FNAND_NOT_FET_TOGGLE_MODE = FT_MAKE_ERRCODE ErrModBsp ErrNand 0xC"
definition FNAND_ERR_READ_ECC :: FError where "FNAND_ERR_READ_ECC = FT_MAKE_ERRCODE ErrModBsp ErrNand 0xB"
definition FNAND_ERR_IRQ_OP_FAILED :: FError where "FNAND_ERR_IRQ_OP_FAILED = FT_MAKE_ERRCODE ErrModBsp ErrNand 0xD"
definition FNAND_ERR_NOT_MATCH :: FError where "FNAND_ERR_NOT_MATCH = FT_MAKE_ERRCODE ErrModBsp ErrNand 0xE"

lemmas nand_error_defs = FNAND_ERR_OPERATION_def FNAND_ERR_INVAILD_PARAMETER_def FNAND_IS_BUSY_def
  FNAND_OP_TIMEOUT_def FNAND_VALUE_ERROR_def FNAND_VALUE_FAILURE_def FNAND_NOT_FET_TOGGLE_MODE_def
  FNAND_ERR_READ_ECC_def FNAND_ERR_IRQ_OP_FAILED_def FNAND_ERR_NOT_MATCH_def
  FT_MAKE_ERRCODE_def ErrModBsp_def ErrNand_def FT_SUCCESS_def

definition FNAND_CONNECT_MAX_NUM :: u32 where [const_defs]: "FNAND_CONNECT_MAX_NUM = 1"
definition FNAND_DMA_MAX_LENGTH :: u32 where [const_defs]: "FNAND_DMA_MAX_LENGTH = 32 * 1024"
definition FNAND_MAX_SPARE_SIZE :: u32 where [const_defs]: "FNAND_MAX_SPARE_SIZE = 1024"
definition FNAND_WORK_MODE_ISR :: u32 where [const_defs]: "FNAND_WORK_MODE_ISR = 1"
definition FNAND_ONFI_MODE :: u32 where [const_defs]: "FNAND_ONFI_MODE = 0"
definition FNAND_TOGGLE_MODE :: u32 where [const_defs]: "FNAND_TOGGLE_MODE = 1"
definition FNAND_OPS_INTER_MODE_SELECT :: u32 where [const_defs]: "FNAND_OPS_INTER_MODE_SELECT = 1"
definition FNAND_ASYN_SDR :: u32 where [const_defs]: "FNAND_ASYN_SDR = 0"
definition FNAND_ONFI_DDR :: u32 where [const_defs]: "FNAND_ONFI_DDR = 1"
definition FNAND_TOG_ASYN_DDR :: u32 where [const_defs]: "FNAND_TOG_ASYN_DDR = 2"

text \<open>Register offsets and fields.\<close>

definition FNAND_CTRL0_OFFSET :: u32 where [const_defs]: "FNAND_CTRL0_OFFSET = 0x0"
definition FNAND_CTRL1_OFFSET :: u32 where [const_defs]: "FNAND_CTRL1_OFFSET = 0x4"
definition FNAND_MADDR0_OFFSET :: u32 where [const_defs]: "FNAND_MADDR0_OFFSET = 0x8"
definition FNAND_MADDR1_OFFSET :: u32 where [const_defs]: "FNAND_MADDR1_OFFSET = 0xC"
definition FNAND_ASY_TIMING0_OFFSET :: u32 where [const_defs]: "FNAND_ASY_TIMING0_OFFSET = 0x10"
definition FNAND_SYN_TIMING6_OFFSET :: u32 where [const_defs]: "FNAND_SYN_TIMING6_OFFSET = 0x28"
definition FNAND_TOG_TIMING13_OFFSET :: u32 where [const_defs]: "FNAND_TOG_TIMING13_OFFSET = 0x44"
definition FNAND_FIFORSTA_OFFSET :: u32 where [const_defs]: "FNAND_FIFORSTA_OFFSET = 0x5C"
definition FNAND_INTERVAL_OFFSET :: u32 where [const_defs]: "FNAND_INTERVAL_OFFSET = 0x60"
definition FNAND_FIFO_LEVEL0_FULL_OFFSET :: u32 where [const_defs]: "FNAND_FIFO_LEVEL0_FULL_OFFSET = 0x6C"
definition FNAND_FIFO_LEVEL1_EMPTY_OFFSET :: u32 where [const_defs]: "FNAND_FIFO_LEVEL1_EMPTY_OFFSET = 0x70"
definition FNAND_FIFO_FREE_OFFSET :: u32 where [const_defs]: "FNAND_FIFO_FREE_OFFSET = 0x78"
definition FNAND_STATE_OFFSET :: u32 where [const_defs]: "FNAND_STATE_OFFSET = 0x7C"
definition FNAND_INTRMASK_OFFSET :: u32 where [const_defs]: "FNAND_INTRMASK_OFFSET = 0x80"
definition FNAND_INTR_OFFSET :: u32 where [const_defs]: "FNAND_INTR_OFFSET = 0x84"
definition FNAND_ERROR_CLEAR_OFFSET :: u32 where [const_defs]: "FNAND_ERROR_CLEAR_OFFSET = 0x8C"

definition FNAND_CTRL0_EN_MASK :: u32 where "FNAND_CTRL0_EN_MASK = BIT 0"
definition FNAND_CTRL0_INTER_MODE :: "u32 \<Rightarrow> u32" where "FNAND_CTRL0_INTER_MODE x = push_bit 2 (min x 3)"
definition FNAND_CTRL0_ECC_EN_MASK :: u32 where "FNAND_CTRL0_ECC_EN_MASK = BIT 4"
definition FNAND_CTRL0_ECC_CORRECT_MAKE :: "u32 \<Rightarrow> u32" where "FNAND_CTRL0_ECC_CORRECT_MAKE x = push_bit 5 (min x 7)"
definition FNAND_CTRL1_SAMPL_PHASE_MAKE :: "u32 \<Rightarrow> u32" where "FNAND_CTRL1_SAMPL_PHASE_MAKE x = min x (GENMASK 15 0)"
definition FNAND_CTRL1_ECC_DATA_FIRST_EN_MASK :: u32 where "FNAND_CTRL1_ECC_DATA_FIRST_EN_MASK = BIT 16"
definition FNAND_MADDR0_DT_LOW_ADDR_MASK :: u32 where "FNAND_MADDR0_DT_LOW_ADDR_MASK = GENMASK 31 0"
definition FNAND_MADDR1_DT_HIGH_8BITADDR_MASK :: u32 where "FNAND_MADDR1_DT_HIGH_8BITADDR_MASK = GENMASK 7 0"
definition FNAND_MADDR1_DMA_EN_MASK :: u32 where "FNAND_MADDR1_DMA_EN_MASK = BIT 8"
definition FNAND_INTERVAL_TIME_MAKE :: "u32 \<Rightarrow> u32" where "FNAND_INTERVAL_TIME_MAKE x = min x 0xFF"
definition FNAND_FIFO_LEVEL0_FULL_THRESHOLD_MASK :: u32 where "FNAND_FIFO_LEVEL0_FULL_THRESHOLD_MASK = GENMASK 3 0"
definition FNAND_FIFO_LEVEL1_EMPTY_THRESHOLD_MASK :: u32 where "FNAND_FIFO_LEVEL1_EMPTY_THRESHOLD_MASK = GENMASK 3 0"
definition FNAND_FIFO_FREE_MASK :: u32 where "FNAND_FIFO_FREE_MASK = BIT 0"
definition FNAND_STATE_BUSY_OFFSET :: u32 where "FNAND_STATE_BUSY_OFFSET = BIT 0"
definition FNAND_STATE_DMA_PGFINISH_OFFSET :: u32 where "FNAND_STATE_DMA_PGFINISH_OFFSET = BIT 2"
definition FNAND_STATE_CMD_PGFINISH_OFFSET :: u32 where "FNAND_STATE_CMD_PGFINISH_OFFSET = BIT 11"
definition FNAND_STATE_PG_PGFINISH_OFFSET :: u32 where "FNAND_STATE_PG_PGFINISH_OFFSET = BIT 12"
definition FNAND_STATE_ECC_BUSY_OFFSET :: u32 where "FNAND_STATE_ECC_BUSY_OFFSET = BIT 16"
definition FNAND_STATE_ECC_FINISH_OFFSET :: u32 where "FNAND_STATE_ECC_FINISH_OFFSET = BIT 17"
definition FNAND_STATE_ECC_ERR_OFFSET :: u32 where "FNAND_STATE_ECC_ERR_OFFSET = BIT 19"
definition FNAND_STATE_ECC_ERROVER_OFFSET :: u32 where "FNAND_STATE_ECC_ERROVER_OFFSET = BIT 20"
definition FNAND_STATE_ALL_BIT :: u32 where "FNAND_STATE_ALL_BIT = GENMASK 29 0"
definition FNAND_INTRMASK_ALL_INT_MASK :: u32 where "FNAND_INTRMASK_ALL_INT_MASK = GENMASK 17 0"
definition FNAND_INTRMASK_DMA_PGFINISH_MASK :: u32 where "FNAND_INTRMASK_DMA_PGFINISH_MASK = BIT 2"
definition FNAND_INTRMASK_CMD_FINISH_MASK :: u32 where "FNAND_INTRMASK_CMD_FINISH_MASK = BIT 7"
definition FNAND_INTRMASK_PGFINISH_MASK :: u32 where "FNAND_INTRMASK_PGFINISH_MASK = BIT 8"
definition FNAND_INTRMASK_ECC_FINISH_MASK :: u32 where "FNAND_INTRMASK_ECC_FINISH_MASK = BIT 12"
definition FNAND_INTR_ECC_ERR_MASK :: u32 where "FNAND_INTR_ECC_ERR_MASK = BIT 13"
definition FNAND_ERROR_CLEAR_DSP_ERR_CLR_MASK :: u32 where "FNAND_ERROR_CLEAR_DSP_ERR_CLR_MASK = BIT 0"
definition FNAND_ERROR_CLEAR_ECC_ERR_CLR_MASK :: u32 where "FNAND_ERROR_CLEAR_ECC_ERR_CLR_MASK = BIT 3"
definition FNAND_ERROR_ALL_CLEAR :: u32 where "FNAND_ERROR_ALL_CLEAR = GENMASK 3 0"

section \<open>Types\<close>

record FNandConfig =
  instance_id :: u32
  irq_num :: u32
  base_address :: uintptr
  ecc_strength :: u32
  cfg_ecc_step_size :: u32

record FNandNandGeometry =
  bytes_per_page :: u32
  spare_bytes_per_page :: u32
  pages_per_block :: u32
  blocks_per_lun :: u32
  num_lun :: u8
  num_pages :: u64
  num_blocks :: u64
  block_size :: u64
  device_size :: u64
  rowaddr_cycles :: u8
  coladdr_cycles :: u8
  hw_ecc_steps :: u32
  hw_ecc_length :: u32
  ecc_offset :: u32
  ecc_step_size :: u32

record FNandBadBlockPattern =
  options :: u32
  pat_offset :: u32
  pat_length :: u32
  pattern :: "u8 list"

record FNandBbtDesc =
  desc_page_offset :: u32
  sig_offset :: u32
  ver_offset :: u32
  sig_length :: u32
  max_blocks :: u32
  signature :: "u8 list"
  version :: u8
  valid :: u32

record FNandBadBlockManager =
  bbt :: "nat \<Rightarrow> u8"
  bbt_desc :: FNandBbtDesc
  bbt_mirror_desc :: FNandBbtDesc
  bb_pattern :: FNandBadBlockPattern

text \<open>One page operation; a buffer is passed by value, \<open>None\<close> for a null pointer.\<close>

record FNandOpData =
  page_addr :: u32
  page_buf :: "(nat \<Rightarrow> u8) option"
  page_offset :: u32
  page_length :: u32
  obb_required :: u32
  oob_buf :: "(nat \<Rightarrow> u8) option"
  oob_offset :: u32
  oob_length :: u32
  op_chip_addr :: u32

text \<open>The descriptor of a command and its bit fields.\<close>

record CmdCtrl =
  csel :: "4 word"
  dbc :: "1 word"
  addr_cyc :: "3 word"
  nc :: "1 word"
  cmd_type :: "4 word"
  dc :: "1 word"
  auto_rs :: "1 word"
  ecc_en :: "1 word"

record FNandDmaDescriptor =
  cmd0 :: u8
  cmd1 :: u8
  cmd_ctrl :: CmdCtrl
  addr :: "u8 list"
  page_cnt :: u16
  mem_addr_first :: "u8 list"

record FNandDmaPackData =
  addr_p :: "u8 list option"
  addr_length :: u32
  phy_address :: uintptr
  phy_bytes_length :: u32
  pack_chip_addr :: u32
  contiune_dma :: u8

record FNandCmdFormat =
  start_cmd :: u32
  end_cmd :: u32
  addr_cycles :: u8
  fmt_cmd_type :: u8
  fmt_ecc_en :: u8
  fmt_auto_rs :: u8

datatype FNandOperationType =
  FNAND_CMD_TYPE | FNAND_WRITE_PAGE_TYPE | FNAND_READ_PAGE_TYPE | FNAND_WAIT_ECC_TYPE

text \<open>What leaves the driver beside register accesses: a transfer, a wait, an interrupt event.\<close>

datatype nand_call =
    DmaStart "nat \<Rightarrow> FNandDmaDescriptor" "nat \<Rightarrow> u8"
  | WaitIrq uintptr uintptr
  | IrqEvent uintptr uintptr nat

type_synonym nand_history = "nand_call bus_event list"

datatype nand_fn =
    WritePageRaw | ReadPageRaw | EraseBlock | WritePageRawHwEcc | ReadPageHwEcc | OObWrite | OObRead

record FNand =
  is_ready :: u32
  config :: FNandConfig
  work_mode :: u32
  inter_mode :: "u32 \<Rightarrow> u32"
  timing_mode :: "u32 \<Rightarrow> u32"
  nand_flash_interface :: "u32 \<Rightarrow> u32"
  dma_data_buffer :: "nat \<Rightarrow> u8"
  descriptor_buffer :: "nat \<Rightarrow> FNandDmaDescriptor"
  bbt_manager :: "u32 \<Rightarrow> FNandBadBlockManager"
  nand_geometry :: "u32 \<Rightarrow> FNandNandGeometry"
  irq_event_fun_p :: uintptr
  irq_args :: uintptr
  wait_irq_fun_p :: uintptr
  wait_args :: uintptr
  write_p :: "nand_fn option"
  read_p :: "nand_fn option"
  write_oob_p :: "nand_fn option"
  read_oob_p :: "nand_fn option"
  write_hw_ecc_p :: "nand_fn option"
  read_hw_ecc_p :: "nand_fn option"
  erase_p :: "nand_fn option"
  desc_addr :: uintptr
  data_addr :: uintptr
  bus :: "nand_call bus"
  dma :: "nand_history \<Rightarrow> (nat \<Rightarrow> u8) \<Rightarrow> (nat \<Rightarrow> u8)"
  wait_irq :: "nand_history \<Rightarrow> FError"
  locals :: "nat \<Rightarrow> u8"
  ret_reg :: FError

text \<open>The instance after \<^verbatim>\<open>memset(instance_p, 0, sizeof(FNand))\<close>; what it is connected to stays.\<close>

definition zero_geometry :: FNandNandGeometry where
  "zero_geometry = \<lparr>bytes_per_page = 0, spare_bytes_per_page = 0, pages_per_block = 0, blocks_per_lun = 0, num_lun = 0,
     num_pages = 0, num_blocks = 0, block_size = 0, device_size = 0, rowaddr_cycles = 0, coladdr_cycles = 0,
     hw_ecc_steps = 0, hw_ecc_length = 0, ecc_offset = 0, ecc_step_size = 0\<rparr>"

definition zero_desc :: FNandBbtDesc where
  "zero_desc = \<lparr>desc_page_offset = 0, sig_offset = 0, ver_offset = 0, sig_length = 0, max_blocks = 0,
     signature = [0, 0, 0, 0], version = 0, valid = 0\<rparr>"

definition zero_manager :: FNandBadBlockManager where
  "zero_manager = \<lparr>bbt = (\<lambda>_. 0), bbt_desc = zero_desc, bbt_mirror_desc = zero_desc,
     bb_pattern = \<lparr>options = 0, pat_offset = 0, pat_length = 0, pattern = [0, 0]\<rparr>\<rparr>"

definition zero_ctrl :: CmdCtrl where
  "zero_ctrl = \<lparr>csel = 0, dbc = 0, addr_cyc = 0, nc = 0, cmd_type = 0, dc = 0, auto_rs = 0, ecc_en = 0\<rparr>"

definition no_descriptor :: FNandDmaDescriptor where
  "no_descriptor = \<lparr>cmd0 = 0, cmd1 = 0, cmd_ctrl = zero_ctrl, addr = replicate 5 0, page_cnt = 0,
     mem_addr_first = replicate 5 0\<rparr>"

definition zero_instance ::
  "uintptr \<Rightarrow> uintptr \<Rightarrow> nand_call bus \<Rightarrow> (nand_history \<Rightarrow> (nat \<Rightarrow> u8) \<Rightarrow> (nat \<Rightarrow> u8)) \<Rightarrow> (nand_history \<Rightarrow> FError)
     \<Rightarrow> (nat \<Rightarrow> u8) \<Rightarrow> FError \<Rightarrow> FNand" where
  "zero_instance desc_at data_at b dma_fn wait_fn stack ret =
     \<lparr>is_ready = 0,
      config = \<lparr>instance_id = 0, irq_num = 0, base_address = 0, ecc_strength = 0, cfg_ecc_step_size = 0\<rparr>,
      work_mode = 0, inter_mode = (\<lambda>_. 0), timing_mode = (\<lambda>_. 0), nand_flash_interface = (\<lambda>_. 0),
      dma_data_buffer = (\<lambda>_. 0), descriptor_buffer = (\<lambda>_. no_descriptor), bbt_manager = (\<lambda>_. zero_manager),
      nand_geometry = (\<lambda>_. zero_geometry), irq_event_fun_p = 0, irq_args = 0, wait_irq_fun_p = 0, wait_args = 0,
      write_p = None, read_p = None, write_oob_p = None, read_oob_p = None, write_hw_ecc_p = None,
      read_hw_ecc_p = None, erase_p = None, desc_addr = desc_at, data_addr = data_at, bus = b, dma = dma_fn,
      wait_irq = wait_fn, locals = stack, ret_reg = ret\<rparr>"

section \<open>Register access\<close>

definition FNAND_READREG :: "u32 \<Rightarrow> FNand \<Rightarrow> u32 \<times> FNand" where
  "FNAND_READREG off s =
     (let (v, b) = FtIn32 (base_address (config s) + ucast off) (bus s) in (v, s\<lparr>bus := b\<rparr>))"

definition FNAND_WRITEREG :: "u32 \<Rightarrow> u32 \<Rightarrow> FNand \<Rightarrow> FNand" where
  "FNAND_WRITEREG off v s = s\<lparr>bus := FtOut32 (base_address (config s) + ucast off) v (bus s)\<rparr>"

definition FNAND_SETBIT :: "u32 \<Rightarrow> u32 \<Rightarrow> FNand \<Rightarrow> FNand" where
  "FNAND_SETBIT off v s = s\<lparr>bus := FtSetBit32 (base_address (config s) + ucast off) v (bus s)\<rparr>"

definition FNAND_CLEARBIT :: "u32 \<Rightarrow> u32 \<Rightarrow> FNand \<Rightarrow> FNand" where
  "FNAND_CLEARBIT off v s = s\<lparr>bus := FtClearBit32 (base_address (config s) + ucast off) v (bus s)\<rparr>"

section \<open>Copies between buffers\<close>

definition memset :: "(nat \<Rightarrow> u8) \<Rightarrow> nat \<Rightarrow> u8 \<Rightarrow> nat \<Rightarrow> (nat \<Rightarrow> u8)" where
  "memset m off v n = (\<lambda>i. if off \<le> i \<and> i < off + n then v else m i)"

definition memcpy :: "(nat \<Rightarrow> u8) \<Rightarrow> nat \<Rightarrow> (nat \<Rightarrow> u8) \<Rightarrow> nat \<Rightarrow> nat \<Rightarrow> (nat \<Rightarrow> u8)" where
  "memcpy dst doff src soff n = (\<lambda>i. if doff \<le> i \<and> i < doff + n then src (soff + (i - doff)) else dst i)"

text \<open>
  Copies into and out of the DMA data buffer. A copy of no byte has no effect; one that leaves the
  data buffer or reads through a null pointer has no defined result.
\<close>

definition copy_in :: "nat \<Rightarrow> (nat \<Rightarrow> u8) option \<Rightarrow> nat \<Rightarrow> FNand \<Rightarrow> FNand option" where
  "copy_in off src n s = (if n = 0 then Some s
     else if off + n \<le> unat FNAND_DMA_MAX_LENGTH
     then (case src of None \<Rightarrow> None | Some m \<Rightarrow> Some (s\<lparr>dma_data_buffer := memcpy (dma_data_buffer s) off m 0 n\<rparr>))
     else None)"

definition copy_out :: "(nat \<Rightarrow> u8) \<Rightarrow> nat \<Rightarrow> nat \<Rightarrow> FNand \<Rightarrow> (nat \<Rightarrow> u8) option" where
  "copy_out dst off n s = (if n = 0 then Some dst
     else if off + n \<le> unat FNAND_DMA_MAX_LENGTH then Some (memcpy dst 0 (dma_data_buffer s) off n) else None)"

definition fill :: "nat \<Rightarrow> u8 \<Rightarrow> nat \<Rightarrow> FNand \<Rightarrow> FNand option" where
  "fill off v n s = (if n = 0 then Some s
     else if off + n \<le> unat FNAND_DMA_MAX_LENGTH
     then Some (s\<lparr>dma_data_buffer := memset (dma_data_buffer s) off v n\<rparr>) else None)"

section \<open>The controller: fnand\_hw.c, fnand\_option.c, fnand\_intr.c\<close>

definition FNandEnable :: "FNand \<Rightarrow> FNand" where
  "FNandEnable s = FNAND_SETBIT FNAND_CTRL0_OFFSET FNAND_CTRL0_EN_MASK s"

definition FNandHwReset :: "FNand \<Rightarrow> FNand" where
  "FNandHwReset s =
     (let s = FNAND_WRITEREG FNAND_INTRMASK_OFFSET FNAND_INTRMASK_ALL_INT_MASK s;
          s = FNAND_WRITEREG FNAND_STATE_OFFSET FNAND_STATE_ALL_BIT s;
          s = FNAND_WRITEREG FNAND_ERROR_CLEAR_OFFSET FNAND_ERROR_ALL_CLEAR s
      in FNAND_WRITEREG FNAND_FIFO_FREE_OFFSET FNAND_FIFO_FREE_MASK s)"

definition FNandHwInit :: "u32 \<Rightarrow> FNand \<Rightarrow> FNand" where
  "FNandHwInit mode s =
     (let s = FNAND_SETBIT FNAND_CTRL1_OFFSET (FNAND_CTRL1_SAMPL_PHASE_MAKE 5) s;
          s = FNAND_CLEARBIT FNAND_CTRL1_OFFSET FNAND_CTRL1_ECC_DATA_FIRST_EN_MASK s;
          s = FNAND_WRITEREG FNAND_INTERVAL_OFFSET (FNAND_INTERVAL_TIME_MAKE 1) s;
          s = FNAND_WRITEREG FNAND_FIFO_LEVEL0_FULL_OFFSET (FNAND_FIFO_LEVEL0_FULL_THRESHOLD_MASK AND 4) s;
          s = FNAND_WRITEREG FNAND_FIFO_LEVEL1_EMPTY_OFFSET (FNAND_FIFO_LEVEL1_EMPTY_THRESHOLD_MASK AND 4) s;
          s = FNAND_WRITEREG FNAND_FIFO_FREE_OFFSET FNAND_FIFO_FREE_MASK s;
          s = FNAND_WRITEREG FNAND_ERROR_CLEAR_OFFSET FNAND_ERROR_CLEAR_DSP_ERR_CLR_MASK s
      in FNAND_WRITEREG FNAND_CTRL0_OFFSET (FNAND_CTRL0_ECC_CORRECT_MAKE 1 OR FNAND_CTRL0_INTER_MODE mode) s)"

definition FNandSetOption :: "u32 \<Rightarrow> u32 \<Rightarrow> FNand \<Rightarrow> (FError \<times> FNand) option" where
  "FNandSetOption opt v s = do {
     FASSERT (is_ready s = FT_COMPONENT_IS_READY);
     if opt = FNAND_OPS_INTER_MODE_SELECT then do {
       FASSERT (v \<le> FNAND_TOG_ASYN_DDR);
       let s = FNAND_CLEARBIT FNAND_CTRL0_OFFSET (FNAND_CTRL0_INTER_MODE 3) s;
       Some (FT_SUCCESS, FNAND_SETBIT FNAND_CTRL0_OFFSET (FNAND_CTRL0_INTER_MODE v) s)
     } else Some (FNAND_ERR_INVAILD_PARAMETER, s)
   }"

definition FNandIsrEnable :: "u32 \<Rightarrow> FNand \<Rightarrow> FNand option" where
  "FNandIsrEnable int_mask s = do {
     FASSERT (is_ready s = FT_COMPONENT_IS_READY);
     Some (FNAND_CLEARBIT FNAND_INTRMASK_OFFSET int_mask s)
   }"

definition FNandIrqDisable :: "u32 \<Rightarrow> FNand \<Rightarrow> FNand option" where
  "FNandIrqDisable int_mask s = do {
     FASSERT (is_ready s = FT_COMPONENT_IS_READY);
     Some (FNAND_SETBIT FNAND_INTRMASK_OFFSET int_mask s)
   }"

definition FNandSetIsrHandler :: "uintptr \<Rightarrow> uintptr \<Rightarrow> FNand \<Rightarrow> FNand option" where
  "FNandSetIsrHandler event_p args s = do {
     FASSERT (is_ready s = FT_COMPONENT_IS_READY);
     Some (s\<lparr>irq_event_fun_p := event_p, irq_args := args\<rparr>)
   }"

definition FNandOperationWaitIrqRegister :: "uintptr \<Rightarrow> uintptr \<Rightarrow> FNand \<Rightarrow> FNand option" where
  "FNandOperationWaitIrqRegister fun_p args s = do {
     FASSERT (is_ready s = FT_COMPONENT_IS_READY);
     Some (s\<lparr>wait_irq_fun_p := fun_p, wait_args := args\<rparr>)
   }"

text \<open>
  The handler calls the registered function once for every pending event, in the order of the
  status bits; bit 13 is the correction error and clears the error and the queue first.
\<close>

definition irq_event :: "u32 \<Rightarrow> nat \<Rightarrow> FNand \<Rightarrow> FNand" where
  "irq_event status n s =
     (if status AND BIT n \<noteq> 0 then
        let s = (if BIT n = FNAND_INTR_ECC_ERR_MASK then
                   FNAND_WRITEREG FNAND_FIFO_FREE_OFFSET FNAND_FIFO_FREE_MASK
                     (FNAND_WRITEREG FNAND_ERROR_CLEAR_OFFSET FNAND_ERROR_CLEAR_ECC_ERR_CLR_MASK s)
                 else s)
        in s\<lparr>bus := emit (Call (IrqEvent (irq_event_fun_p s) (irq_args s) n)) (bus s)\<rparr>
      else s)"

definition FNandIrqHandler :: "FNand \<Rightarrow> FNand option" where
  "FNandIrqHandler s = do {
     FASSERT (is_ready s = FT_COMPONENT_IS_READY);
     let (status, s) = FNAND_READREG FNAND_INTR_OFFSET s;
     let (m, s) = FNAND_READREG FNAND_INTRMASK_OFFSET s;
     let en_irq = NOT m AND FNAND_INTRMASK_ALL_INT_MASK;
     if status AND en_irq = 0 then Some s
     else do {
       s \<leftarrow> FNandIrqDisable (status AND FNAND_INTRMASK_ALL_INT_MASK) s;
       let s = FNAND_WRITEREG 0xfd0 0 s;
       let s = FNAND_WRITEREG FNAND_INTR_OFFSET status s;
       Some (if irq_event_fun_p s \<noteq> 0 then fold (irq_event status) [0..<14] s else s)
     }
   }"

end
