(* ===== verification/NandDma.thy ===== *)
theory NandDma
  imports Nand
begin

text \<open>
  Error correction (\<^verbatim>\<open>fnand_ecc.c\<close>, \<^verbatim>\<open>fnand_ecc.h\<close>), the construction of descriptors
  (\<^verbatim>\<open>fnand_dma.c\<close>) and sending them (\<^verbatim>\<open>FNandSendCmd\<close> of \<^verbatim>\<open>fnand.c\<close>).
\<close>

section \<open>fnand\_ecc\<close>

definition FNandEnableHwEcc :: "FNand \<Rightarrow> FNand" where
  "FNandEnableHwEcc s = FNAND_SETBIT FNAND_CTRL0_OFFSET FNAND_CTRL0_ECC_EN_MASK s"

definition FNandDisableHwEcc :: "FNand \<Rightarrow> FNand" where
  "FNandDisableHwEcc s = FNAND_CLEARBIT FNAND_CTRL0_OFFSET FNAND_CTRL0_ECC_EN_MASK s"

definition FNandGetEccTotalLength :: "u32 \<Rightarrow> u32 \<Rightarrow> u32" where
  "FNandGetEccTotalLength page strength =
     (if page = 0x200 then
        (if strength = 8 then 0x0D else if strength = 4 then 7 else if strength = 2 then 4 else 0)
      else if page = 0x800 then
        (if strength = 8 then 0x34 else if strength = 4 then 0x1a else if strength = 2 then 0xd else 0)
      else if page = 0x1000 then
        (if strength = 8 then 0x68 else if strength = 4 then 0x34 else if strength = 2 then 0x1a else 0)
      else if page = 0x2000 then
        (if strength = 8 then 0xD0 else if strength = 4 then 0x68 else if strength = 2 then 0x34 else 0)
      else if page = 0x4000 then
        (let ecc_total = (if strength = 8 then 0x1A0 else 0 :: u32)
         in if strength = 4 then 0xD0 else if strength = 2 then 0x68 else 0)
      else 0)"

text \<open>
  One half of an error register: the number of the wrong bit in step \<open>i\<close>, counted from 1. The code
  does not compare the place with the length of the buffer.
\<close>

definition ecc_flip :: "u32 \<Rightarrow> u32 \<Rightarrow> u32 \<Rightarrow> (nat \<Rightarrow> u8) \<times> int \<Rightarrow> (nat \<Rightarrow> u8) \<times> int" where
  "ecc_flip step_size i tmp r =
     (if tmp \<noteq> 0 \<and> tmp \<le> 4096 then
        let t = tmp - 1; k = unat (step_size * i + t div 8); (buf, stat) = r
        in (buf(k := buf k XOR push_bit (unat (t mod 8)) 1), stat + 1)
      else r)"

definition ecc_word :: "u32 \<Rightarrow> u32 \<Rightarrow> u32 \<Rightarrow> ((nat \<Rightarrow> u8) \<times> int) \<times> FNand \<Rightarrow> ((nat \<Rightarrow> u8) \<times> int) \<times> FNand" where
  "ecc_word step_size i j = (\<lambda>(r, s).
     let (value, s) = FNAND_READREG (0xB8 + 0x10 * i + 4 * j) s;
         r = ecc_flip step_size i (value AND 0xFFFF) r;
         r = ecc_flip step_size i (drop_bit 16 value AND 0xFFFF) r
     in (r, s))"

definition FNandCorrectEcc :: "u32 \<Rightarrow> u32 \<Rightarrow> (nat \<Rightarrow> u8) option \<Rightarrow> FNand \<Rightarrow> int \<times> (nat \<Rightarrow> u8) option \<times> FNand" where
  "FNandCorrectEcc step_size steps buf s = (case buf of
      None \<Rightarrow> (- 1, None, s)
    | Some m \<Rightarrow>
        let ((m, stat), s) = fold (\<lambda>i. fold (\<lambda>j. ecc_word step_size (of_nat i) (of_nat j)) [0..<4])
                               [0..<unat steps] ((m, 0), s)
        in (stat, Some m, s))"

section \<open>fnand\_dma.c\<close>

definition FNAND_NFC_ADDR_MAX_LEN :: nat where [const_defs]: "FNAND_NFC_ADDR_MAX_LEN = 5"
definition TOGGLE_END_CMD_NONE :: u32 where [const_defs]: "TOGGLE_END_CMD_NONE = 0xfff"

text \<open>
  The address bytes go to the end of the descriptor's address field: byte \<open>i\<close> to place \<open>j\<close>, both
  counting down, and place \<open>i\<close> is cleared.
\<close>

primrec addr_shift :: "u8 list \<Rightarrow> nat \<Rightarrow> nat \<Rightarrow> FNandDmaDescriptor \<Rightarrow> FNandDmaDescriptor" where
  "addr_shift ap 0 j d = d"
| "addr_shift ap (Suc i) j d =
     addr_shift ap i (j - 1)
       (d\<lparr>addr := (addr d)[j := ap ! i, i := 0],
          cmd_ctrl := (cmd_ctrl d)\<lparr>addr_cyc := addr_cyc (cmd_ctrl d) + 1\<rparr>\<rparr>)"

definition FNandAddrCorrect :: "FNandDmaDescriptor \<Rightarrow> u8 list option \<Rightarrow> u32 \<Rightarrow> FNandDmaDescriptor" where
  "FNandAddrCorrect d ap len = (case ap of
      None \<Rightarrow> d
    | Some ap \<Rightarrow>
        if len = 0 then d
        else if unat len \<ge> FNAND_NFC_ADDR_MAX_LEN then
          d\<lparr>addr := take FNAND_NFC_ADDR_MAX_LEN ap,
            cmd_ctrl := (cmd_ctrl d)\<lparr>addr_cyc := of_nat FNAND_NFC_ADDR_MAX_LEN\<rparr>\<rparr>
        else addr_shift ap (unat len) (FNAND_NFC_ADDR_MAX_LEN - 1)
               (d\<lparr>cmd_ctrl := (cmd_ctrl d)\<lparr>addr_cyc := 0\<rparr>\<rparr>))"

definition FNandDmaPack :: "FNandCmdFormat \<Rightarrow> FNandDmaDescriptor \<Rightarrow> FNandDmaPackData \<Rightarrow> FNandDmaDescriptor" where
  "FNandDmaPack fmt d pd =
     (let d = d\<lparr>cmd_ctrl := zero_ctrl\<rparr>;
          d = (if end_cmd fmt = TOGGLE_END_CMD_NONE
               then d\<lparr>cmd1 := ucast (start_cmd fmt), cmd0 := 0\<rparr>
               else d\<lparr>cmd0 := ucast (start_cmd fmt), cmd1 := ucast (end_cmd fmt),
                      cmd_ctrl := (cmd_ctrl d)\<lparr>dbc := 1\<rparr>\<rparr>);
          d = FNandAddrCorrect d (addr_p pd) (addr_length pd);
          d = d\<lparr>cmd_ctrl := (cmd_ctrl d)\<lparr>cmd_type := ucast (fmt_cmd_type fmt)\<rparr>\<rparr>;
          d = (if contiune_dma pd \<noteq> 0 then d\<lparr>cmd_ctrl := (cmd_ctrl d)\<lparr>nc := 1\<rparr>\<rparr> else d);
          d = d\<lparr>cmd_ctrl := (cmd_ctrl d)\<lparr>csel := ucast (0xf XOR push_bit (unat (pack_chip_addr pd)) (1 :: u32))\<rparr>\<rparr>;
          d = (if phy_address pd \<noteq> 0 \<and> 0 < phy_bytes_length pd
               then d\<lparr>cmd_ctrl := (cmd_ctrl d)\<lparr>dc := 1\<rparr>,
                      mem_addr_first := map (\<lambda>i. ucast (drop_bit (8 * i) (phy_address pd) AND 0xff)) [0..<FNAND_NFC_ADDR_MAX_LEN],
                      page_cnt := ucast (phy_bytes_length pd)\<rparr>
               else d);
          d = (if fmt_auto_rs fmt \<noteq> 0 then d\<lparr>cmd_ctrl := (cmd_ctrl d)\<lparr>auto_rs := 1\<rparr>\<rparr> else d)
      in if fmt_ecc_en fmt \<noteq> 0 then d\<lparr>cmd_ctrl := (cmd_ctrl d)\<lparr>ecc_en := 1\<rparr>\<rparr> else d)"

text \<open>The pack operation on a slot of the descriptor buffer, and clearing the buffer of one descriptor.\<close>

definition pack_slot :: "nat \<Rightarrow> FNandCmdFormat \<Rightarrow> FNandDmaPackData \<Rightarrow> FNand \<Rightarrow> FNand" where
  "pack_slot k fmt pd s =
     s\<lparr>descriptor_buffer := (descriptor_buffer s)(k := FNandDmaPack fmt (descriptor_buffer s k) pd)\<rparr>"

text \<open>The structure is 16 bytes and aligned to 128, so its size is 128 bytes, eight slots.\<close>

definition clear_descriptor :: "FNand \<Rightarrow> FNand" where
  "clear_descriptor s = s\<lparr>descriptor_buffer := (\<lambda>k. if k < 8 then no_descriptor else descriptor_buffer s k)\<rparr>"

section \<open>FNandSendCmd\<close>

definition FNandCheckBusy :: "FNand \<Rightarrow> (u32 \<times> FNand) option" where
  "FNandCheckBusy s = do {
     FASSERT (is_ready s = FT_COMPONENT_IS_READY);
     let (v, s) = FNAND_READREG FNAND_STATE_OFFSET s;
     Some (v AND FNAND_STATE_BUSY_OFFSET, s)
   }"

text \<open>The transfer that starts when the enable bit is written.\<close>

definition start_dma :: "FNand \<Rightarrow> FNand" where
  "start_dma s =
     (let s = FNAND_SETBIT FNAND_MADDR1_OFFSET FNAND_MADDR1_DMA_EN_MASK s;
          b = emit (Call (DmaStart (descriptor_buffer s) (dma_data_buffer s))) (bus s)
      in s\<lparr>bus := b, dma_data_buffer := dma s (trace b) (dma_data_buffer s)\<rparr>)"

text \<open>Polling of a finish bit: at most \<open>n + 1\<close> reads; the counter of the code goes up to 0xffffff.\<close>

primrec poll_state :: "u32 \<Rightarrow> nat \<Rightarrow> FNand \<Rightarrow> FError \<times> FNand" where
  "poll_state m 0 s = (let (v, s) = FNAND_READREG FNAND_STATE_OFFSET s
                       in if v AND m = 0 then (FNAND_OP_TIMEOUT, s) else (FT_SUCCESS, s))"
| "poll_state m (Suc n) s = (let (v, s) = FNAND_READREG FNAND_STATE_OFFSET s
                             in if v AND m = 0 then poll_state m n s else (FT_SUCCESS, s))"

definition poll_limit :: nat where "poll_limit = 0xffffff"

fun finish_mask :: "FNandOperationType \<Rightarrow> u32" where
  "finish_mask FNAND_CMD_TYPE = FNAND_STATE_CMD_PGFINISH_OFFSET"
| "finish_mask FNAND_WRITE_PAGE_TYPE = FNAND_STATE_PG_PGFINISH_OFFSET"
| "finish_mask FNAND_READ_PAGE_TYPE = FNAND_STATE_DMA_PGFINISH_OFFSET"
| "finish_mask FNAND_WAIT_ECC_TYPE = FNAND_STATE_ECC_FINISH_OFFSET"

fun finish_intr :: "FNandOperationType \<Rightarrow> u32" where
  "finish_intr FNAND_CMD_TYPE = FNAND_INTRMASK_CMD_FINISH_MASK"
| "finish_intr FNAND_WRITE_PAGE_TYPE = FNAND_INTRMASK_PGFINISH_MASK"
| "finish_intr FNAND_READ_PAGE_TYPE = FNAND_INTRMASK_DMA_PGFINISH_MASK"
| "finish_intr FNAND_WAIT_ECC_TYPE = FNAND_INTRMASK_ECC_FINISH_MASK"

text \<open>
  The descriptor pointer is always that of slot 0. The branch of the code that reports a missing
  callback stands inside a test that the callback is there, and is never taken.
\<close>

definition FNandSendCmd :: "FNandOperationType \<Rightarrow> FNand \<Rightarrow> (FError \<times> FNand) option" where
  "FNandSendCmd isr_type s = do {
     FASSERT (is_ready s = FT_COMPONENT_IS_READY);
     let s = FNandHwReset s;
     (busy, s) \<leftarrow> FNandCheckBusy s;
     if busy \<noteq> 0 then Some (FNAND_IS_BUSY, s)
     else do {
       let s = FNAND_WRITEREG FNAND_MADDR0_OFFSET (ucast (desc_addr s) AND FNAND_MADDR0_DT_LOW_ADDR_MASK) s;
       let s = FNAND_CLEARBIT FNAND_MADDR1_OFFSET FNAND_MADDR1_DT_HIGH_8BITADDR_MASK s;
       let s = FNAND_SETBIT FNAND_MADDR1_OFFSET
                 (ucast (drop_bit 32 (desc_addr s)) AND FNAND_MADDR1_DT_HIGH_8BITADDR_MASK) s;
       s \<leftarrow> (if work_mode s = FNAND_WORK_MODE_ISR then FNandIsrEnable (finish_intr isr_type) s else Some s);
       let s = start_dma s;
       if work_mode s = FNAND_WORK_MODE_ISR \<and> wait_irq_fun_p s \<noteq> 0 then do {
         let s = s\<lparr>bus := emit (Call (WaitIrq (wait_irq_fun_p s) (wait_args s))) (bus s)\<rparr>;
         if wait_irq s (trace (bus s)) \<noteq> FT_SUCCESS then Some (FNAND_ERR_IRQ_OP_FAILED, s)
         else Some (FT_SUCCESS, s)
       } else Some (poll_state (finish_mask isr_type) poll_limit s)
     }
   }"

end
