(* ===== verification/NandEcc.thy ===== *)
theory NandEcc
  imports NandDma
begin

text \<open>
  Error correction. The controller reports the places of wrong bits, in two halves of four registers
  for each step of a page, counted from 1; \<open>FNandCorrectEcc\<close> flips them. The specification is the
  list \<open>reported\<close> of places (byte, bit) of a page and the operation \<open>toggle\<close> on one place.
\<close>

section \<open>Places of a page\<close>

definition toggle :: "nat \<times> nat \<Rightarrow> (nat \<Rightarrow> u8) \<Rightarrow> (nat \<Rightarrow> u8)" where
  "toggle p m = m(fst p := m (fst p) XOR push_bit (snd p) 1)"

definition err_place :: "u32 \<Rightarrow> u32 \<Rightarrow> u32 \<Rightarrow> (nat \<times> nat) list" where
  "err_place sz i tmp = (if tmp \<noteq> 0 \<and> tmp \<le> 4096
     then [(unat (sz * i + (tmp - 1) div 8), unat ((tmp - 1) mod 8))] else [])"

definition err_places :: "u32 \<Rightarrow> u32 \<Rightarrow> u32 \<Rightarrow> (nat \<times> nat) list" where
  "err_places sz i value = err_place sz i (value AND 0xFFFF) @ err_place sz i (drop_bit 16 value AND 0xFFFF)"

definition reported :: "u32 \<Rightarrow> nat \<Rightarrow> (nat \<Rightarrow> nat \<Rightarrow> u32) \<Rightarrow> (nat \<times> nat) list" where
  "reported sz steps E =
     concat (map (\<lambda>i. concat (map (\<lambda>j. err_places sz (of_nat i) (E i j)) [0..<4])) [0..<steps])"

text \<open>The error registers hold the values \<open>E\<close> from now on.\<close>

definition error_regs :: "nat \<Rightarrow> (nat \<Rightarrow> nat \<Rightarrow> u32) \<Rightarrow> FNand \<Rightarrow> bool" where
  "error_regs steps E s \<longleftrightarrow> (\<forall>i < steps. \<forall>j < 4. \<forall>es.
     dev (bus s) (trace (bus s) @ es) (base_address (config s) + ucast (0xB8 + 0x10 * of_nat i + 4 * of_nat j :: u32)) = E i j)"

lemma err_place_bit: "(k, b) \<in> set (err_place sz i tmp) \<Longrightarrow> b < 8"
  by (auto simp: err_place_def unat_mod split: if_splits)

lemma reported_bit: "(k, b) \<in> set (reported sz steps E) \<Longrightarrow> b < 8"
  by (auto simp: reported_def err_places_def dest: err_place_bit)

lemma bit_toggle:
  "b < 8 \<Longrightarrow> snd p < 8 \<Longrightarrow> bit (toggle p m k) b = (bit (m k) b \<noteq> (p = (k, b)))"
  by (cases p) (auto simp: toggle_def bit_simps)

text \<open>Distinct places: afterwards exactly the bits of the list have changed.\<close>

lemma bit_fold_toggle:
  assumes "b < 8"
  shows "distinct ps \<Longrightarrow> \<forall>p\<in>set ps. snd p < 8 \<Longrightarrow>
    bit (fold toggle ps m k) b = (bit (m k) b \<noteq> ((k, b) \<in> set ps))"
  by (induction ps arbitrary: m) (auto simp: bit_toggle assms)

lemma fold_toggle_outside: "k \<notin> fst ` set ps \<Longrightarrow> fold toggle ps m k = m k"
  by (induction ps arbitrary: m) (auto simp: toggle_def)

section \<open>The correction performs the reported flips\<close>

lemma ecc_flip_place:
  "ecc_flip sz i tmp (m, c) = (fold toggle (err_place sz i tmp) m, c + int (length (err_place sz i tmp)))"
  by (simp add: ecc_flip_def err_place_def toggle_def Let_def)

text \<open>Reading registers changes nothing but the history.\<close>

definition after_reads :: "FNand \<Rightarrow> FNand \<Rightarrow> bool" where
  "after_reads s s' \<longleftrightarrow> (\<exists>es. s' = s\<lparr>bus := (bus s)\<lparr>trace := trace (bus s) @ es\<rparr>\<rparr>)"

lemma after_reads_refl [simp]: "after_reads s s"
  unfolding after_reads_def by (rule exI [of _ "[]"]) simp

lemma after_reads_trans [trans]: "after_reads s t \<Longrightarrow> after_reads t u \<Longrightarrow> after_reads s u"
  by (auto simp: after_reads_def)

lemma after_reads_READREG: "after_reads s (snd (FNAND_READREG off s))"
  by (auto simp: after_reads_def FNAND_READREG_def FtIn32_def emit_def Let_def)

lemma error_regs_read:
  assumes "error_regs steps E s" "after_reads s t" "i < steps" "j < 4"
  shows "fst (FNAND_READREG (0xB8 + 0x10 * of_nat i + 4 * of_nat j) t) = E i j"
  using assms by (auto simp: error_regs_def after_reads_def FNAND_READREG_def FtIn32_def Let_def)

lemma ecc_word_places:
  assumes "error_regs steps E s" "after_reads s t" "i < steps" "j < 4"
  shows "\<exists>u. ecc_word sz (of_nat i) (of_nat j) ((m, c), t) =
           ((fold toggle (err_places sz (of_nat i) (E i j)) m, c + int (length (err_places sz (of_nat i) (E i j)))), u)
         \<and> after_reads s u"
proof -
  obtain v u where r: "FNAND_READREG (0xB8 + 0x10 * of_nat i + 4 * of_nat j) t = (v, u)" by fastforce
  then have "v = E i j" using error_regs_read [OF assms] by simp
  moreover have "after_reads t u" using after_reads_READREG [of t "0xB8 + 0x10 * of_nat i + 4 * of_nat j"] unfolding r by simp
  with assms(2) have "after_reads s u" by (rule after_reads_trans)
  moreover have "ecc_word sz (of_nat i) (of_nat j) ((m, c), t) =
      ((fold toggle (err_places sz (of_nat i) v) m, c + int (length (err_places sz (of_nat i) v))), u)"
    unfolding ecc_word_def prod.case r Let_def ecc_flip_place err_places_def by simp
  ultimately show ?thesis by blast
qed

text \<open>Loops whose steps flip a list of places and read registers.\<close>

lemma fold_flips:
  assumes step: "\<And>x m c t. x \<in> set xs \<Longrightarrow> after_reads s t \<Longrightarrow>
      \<exists>u. f x ((m, c), t) = ((fold toggle (P x) m, c + int (length (P x))), u) \<and> after_reads s u"
    and "after_reads s t"
  shows "\<exists>u. fold f xs ((m, c), t) =
      ((fold toggle (concat (map P xs)) m, c + int (length (concat (map P xs)))), u) \<and> after_reads s u"
  using assms
proof (induction xs arbitrary: m c t)
  case (Cons x xs)
  obtain u where u: "f x ((m, c), t) = ((fold toggle (P x) m, c + int (length (P x))), u)" "after_reads s u"
    using Cons.prems by (meson list.set_intros(1))
  have "\<exists>v. fold f xs ((fold toggle (P x) m, c + int (length (P x))), u) =
      ((fold toggle (concat (map P xs)) (fold toggle (P x) m),
        c + int (length (P x)) + int (length (concat (map P xs)))), v) \<and> after_reads s v"
    by (rule Cons.IH [OF Cons.prems(1) u(2)]) simp
  then show ?case using u(1) by (simp add: add.assoc)
qed auto

lemma FNandCorrectEcc_reported:
  assumes "error_regs (unat steps) E s"
  shows "\<exists>u. FNandCorrectEcc sz steps (Some m) s =
      (int (length (reported sz (unat steps) E)), Some (fold toggle (reported sz (unat steps) E) m), u) \<and> after_reads s u"
proof -
  let ?in = "\<lambda>i. concat (map (\<lambda>j. err_places sz (of_nat i) (E i j)) [0..<4])"
  let ?f = "\<lambda>i. fold (\<lambda>j. ecc_word sz (of_nat i) (of_nat j)) [0..<4]"
  have "\<exists>u. fold ?f [0..<unat steps] ((m, 0), s) =
      ((fold toggle (concat (map ?in [0..<unat steps])) m, 0 + int (length (concat (map ?in [0..<unat steps])))), u)
      \<and> after_reads s u"
  proof (rule fold_flips)
    fix i m c t assume "i \<in> set [0..<unat steps]" "after_reads s t"
    then show "\<exists>u. ?f i ((m, c), t) = ((fold toggle (?in i) m, c + int (length (?in i))), u) \<and> after_reads s u"
      by (intro fold_flips ecc_word_places [OF assms]) auto
  qed simp
  then show ?thesis by (auto simp: FNandCorrectEcc_def reported_def)
qed

text \<open>
  C18: Error correction restores the page. When the error registers report, each once, exactly the
  bits in which the buffer differs from the page that was written, \<open>FNandCorrectEcc\<close> returns the
  number of errors and the page as it was written.
\<close>

theorem ecc_restores_page:
  assumes regs: "error_regs (unat steps) E s"
    and once: "distinct (reported sz (unat steps) E)"
    and errors: "\<forall>k b. b < 8 \<longrightarrow> ((k, b) \<in> set (reported sz (unat steps) E)) = (bit (bad k) b \<noteq> bit (good k) b)"
  shows "\<exists>u. FNandCorrectEcc sz steps (Some bad) s =
           (int (length (reported sz (unat steps) E)), Some good, u)"
proof -
  have "fold toggle (reported sz (unat steps) E) bad k = good k" for k
  proof (rule bit_word_eqI)
    fix b assume "b < LENGTH(8)"
    then have b: "b < 8" by simp
    have "\<forall>p\<in>set (reported sz (unat steps) E). snd p < 8" by (metis prod.collapse reported_bit)
    then show "bit (fold toggle (reported sz (unat steps) E) bad k) b = bit (good k) b"
      using bit_fold_toggle [OF b once] errors b by auto
  qed
  then have "fold toggle (reported sz (unat steps) E) bad = good" by auto
  then show ?thesis using FNandCorrectEcc_reported [OF regs, of sz bad] by auto
qed

text \<open>An example: the registers of the first step report bit 2 of byte 3.\<close>

definition ecc_example :: FNand where
  "ecc_example = zero_instance 0 0 \<lparr>dev = (\<lambda>_ a. if a = 0xB8 then 27 else 0), trace = []\<rparr> (\<lambda>_ m. m) (\<lambda>_. 0) (\<lambda>_. 0) 0"

theorem ecc_restores_page_witness:
  "\<exists>u. FNandCorrectEcc 512 1 (Some ((\<lambda>_. 0)(3 := push_bit 2 1))) ecc_example = (1, Some (\<lambda>_. 0), u)"
proof -
  let ?E = "\<lambda>i j. if i = 0 \<and> j = 0 then 27 else 0 :: u32"
  have u: "[0..<4] = [0, 1, 2, 3 :: nat]" by (simp add: upt_rec)
  have r: "reported 512 (unat (1 :: u32)) ?E = [(3, 2)]"
    unfolding reported_def u by (simp add: err_places_def err_place_def)
  have e: "error_regs (unat (1 :: u32)) ?E ecc_example"
  proof -
    have "ucast (0xB8 + 4 * of_nat j :: u32) \<noteq> (0xB8 :: uintptr)" if "0 < j" "j < 4" for j :: nat
    proof -
      have "j = 1 \<or> j = 2 \<or> j = 3" using that by auto
      then show ?thesis by auto
    qed
    then show ?thesis unfolding error_regs_def ecc_example_def zero_instance_def by auto
  qed
  have b: "bit (push_bit 2 1 :: u8) b = (b = 2)" if "b < 8" for b using that by (simp only: bit_simps) auto
  have d: "\<forall>k b. b < 8 \<longrightarrow> ((k, b) \<in> set (reported 512 (unat (1 :: u32)) ?E)) =
      (bit (((\<lambda>_. 0)(3 := push_bit 2 1)) k :: u8) b \<noteq> bit ((\<lambda>_ :: nat. 0 :: u8) k) b)"
    unfolding r by (auto simp: b simp del: push_bit_numeral push_bit_of_1)
  have "distinct (reported 512 (unat (1 :: u32)) ?E)" unfolding r by simp
  from ecc_restores_page [OF e this d] show ?thesis unfolding r by (simp add: fun_upd_def)
qed

text \<open>Only bytes of the page are changed: a step covers 4096 bits, the length of a step is 512 bytes.\<close>

lemma err_place_bound:
  assumes "(k, b) \<in> set (err_place sz (of_nat i) tmp)" "unat sz * (i + 1) < 2 ^ 32" "512 \<le> sz"
  shows "k < unat sz * (i + 1)"
proof -
  have t: "tmp \<noteq> 0" "tmp \<le> 4096" "k = unat (sz * of_nat i + (tmp - 1) div 8)"
    using assms(1) by (auto simp: err_place_def split: if_splits)
  have "unat (tmp - 1) = unat tmp - 1" using t(1) by (simp add: unat_sub_if' word_le_nat_alt unat_eq_zero Suc_le_eq)
  then have "unat ((tmp - 1) div 8) = (unat tmp - 1) div 8" by (simp add: unat_div)
  moreover have "unat tmp \<le> 4096" "unat tmp \<noteq> 0" using t by (simp_all add: word_le_nat_alt unat_eq_zero)
  ultimately have off: "unat ((tmp - 1) div 8) < 512" by linarith
  have s: "512 \<le> unat sz" using assms(3) by (simp add: word_le_nat_alt)
  then have "i < 2 ^ 32" using assms(2) by (metis Suc_eq_plus1 less_imp_le_nat mult_le_mono1 nat_mult_1 le_less_trans lessI order_le_less_trans not_less numeral_le_iff one_le_numeral)
  then have m: "unat (sz * of_nat i) = unat sz * i"
    using assms(2) by (simp add: unat_word_ariths unat_of_nat_32)
  have "unat sz * i + unat ((tmp - 1) div 8) < unat sz * (i + 1)" using off s by simp
  then show ?thesis using assms(2) m t(3) by (simp add: unat_word_ariths)
qed

lemma reported_bound:
  assumes "(k, b) \<in> set (reported sz steps E)" "unat sz * steps < 2 ^ 32" "512 \<le> sz"
  shows "k < unat sz * steps"
proof -
  obtain i j where i: "i < steps" "(k, b) \<in> set (err_places sz (of_nat i) (E i j))"
    using assms(1) by (auto simp: reported_def)
  have le: "unat sz * (i + 1) \<le> unat sz * steps" using i(1) by (intro mult_le_mono) simp_all
  have "k < unat sz * (i + 1)"
    using i(2) err_place_bound [of k b sz i] le assms(2,3) by (auto simp: err_places_def)
  then show ?thesis using le by simp
qed

lemma ecc_keeps_outside:
  assumes "error_regs (unat steps) E s" "FNandCorrectEcc sz steps (Some m) s = (c, Some m', u)"
    and "unat sz * unat steps < 2 ^ 32" "512 \<le> sz" "unat sz * unat steps \<le> k"
  shows "m' k = m k"
proof -
  have "m' = fold toggle (reported sz (unat steps) E) m"
    using FNandCorrectEcc_reported [OF assms(1), of sz m] assms(2) by auto
  moreover have "k \<notin> fst ` set (reported sz (unat steps) E)"
    using reported_bound [OF _ assms(3,4)] assms(5) by fastforce
  ultimately show ?thesis by (simp add: fold_toggle_outside)
qed

end
