(* ===== verification/NandCmd.thy ===== *)
theory NandCmd
  imports NandDma
begin

text \<open>
  The commands of a NAND flash, \<^verbatim>\<open>fnand_common_cmd.c\<close>, and the page operations of the driver's
  interface, \<^verbatim>\<open>fnand.c\<close>. A loop that waits for the device without a limit is a partial
  function, \<open>None\<close> when it does not end.
\<close>

section \<open>Command formats\<close>

datatype CommandsEnumNew =
    CMD_READ_OPTION_NEW | CMD_RANDOM_DATA_OUT | CMD_PAGE_PROGRAM | CMD_PAGE_PROGRAM_WITH_OTHER
  | CMD_COPY_BACK_PROGRAM | CMD_BLOCK_ERASE | CMD_RESET | CMD_READ_ID | CMD_READ_DEVICE_TABLE
  | CMD_READ_PAGE | CMD_READ_STATUS

definition mk_format :: "u32 \<Rightarrow> u32 \<Rightarrow> u8 \<Rightarrow> u8 \<Rightarrow> u8 \<Rightarrow> u8 \<Rightarrow> FNandCmdFormat" where
  "mk_format c0 c1 cycles ty ecc rs =
     \<lparr>start_cmd = c0, end_cmd = c1, addr_cycles = cycles, fmt_cmd_type = ty, fmt_ecc_en = ecc, fmt_auto_rs = rs\<rparr>"

fun cmd_format :: "CommandsEnumNew \<Rightarrow> FNandCmdFormat" where
  "cmd_format CMD_READ_OPTION_NEW = mk_format 0x00 0x30 5 6 0 1"
| "cmd_format CMD_RANDOM_DATA_OUT = mk_format 0x05 0xE0 2 3 1 0"
| "cmd_format CMD_PAGE_PROGRAM = mk_format 0x80 0x10 5 4 0 1"
| "cmd_format CMD_PAGE_PROGRAM_WITH_OTHER = mk_format 0x80 0xfff 5 1 0 0"
| "cmd_format CMD_COPY_BACK_PROGRAM = mk_format 0x85 0x10 2 4 1 1"
| "cmd_format CMD_BLOCK_ERASE = mk_format 0x60 0xD0 3 5 0 1"
| "cmd_format CMD_RESET = mk_format 0xFF 0xfff 5 0 0 1"
| "cmd_format CMD_READ_ID = mk_format 0x90 0xfff 1 3 0 0"
| "cmd_format CMD_READ_DEVICE_TABLE = mk_format 0xEC 0xfff 1 2 0 1"
| "cmd_format CMD_READ_PAGE = mk_format 0x00 0x30 5 3 0 1"
| "cmd_format CMD_READ_STATUS = mk_format 0x70 0xfff 5 3 0 0"

definition pack_data :: "u8 list option \<Rightarrow> u32 \<Rightarrow> uintptr \<Rightarrow> u32 \<Rightarrow> u32 \<Rightarrow> u8 \<Rightarrow> FNandDmaPackData" where
  "pack_data ap len phy n chip cont =
     \<lparr>addr_p = ap, addr_length = len, phy_address = phy, phy_bytes_length = n, pack_chip_addr = chip, contiune_dma = cont\<rparr>"

text \<open>The address bytes of a page: two for the column, three for the row.\<close>

definition row_bytes :: "u32 \<Rightarrow> u8 list" where
  "row_bytes page = [ucast page, ucast (drop_bit 8 page), ucast (drop_bit 16 page)]"

section \<open>fnand\_common\_cmd.c\<close>

definition FNandFlashReadId ::
  "u8 \<Rightarrow> (nat \<Rightarrow> u8) option \<Rightarrow> u32 \<Rightarrow> u32 \<Rightarrow> FNand \<Rightarrow> (FError \<times> (nat \<Rightarrow> u8) option \<times> FNand) option" where
  "FNandFlashReadId address id_buffer buffer_length chip s = do {
     let n = (if buffer_length > FNAND_DMA_MAX_LENGTH then FNAND_DMA_MAX_LENGTH else buffer_length);
     let s = clear_descriptor s;
     let s = pack_slot 0 (cmd_format CMD_READ_ID) (pack_data (Some [address]) 1 (data_addr s) n chip 0) s;
     (ret, s) \<leftarrow> FNandSendCmd FNAND_CMD_TYPE s;
     if ret \<noteq> FT_SUCCESS then Some (FNAND_ERR_OPERATION, id_buffer, s)
     else (case id_buffer of
        None \<Rightarrow> Some (FT_SUCCESS, None, s)
      | Some m \<Rightarrow>
          if buffer_length \<noteq> 0 then do {
            m \<leftarrow> copy_out m 0 (unat (if buffer_length > n then n else buffer_length)) s;
            Some (FT_SUCCESS, Some m, s)
          } else Some (FT_SUCCESS, Some m, s))
   }"

definition FNandFlashReadStatus :: "u32 \<Rightarrow> FNand \<Rightarrow> (FError \<times> FNand) option" where
  "FNandFlashReadStatus chip s = do {
     let s = clear_descriptor s;
     let s = pack_slot 0 (cmd_format CMD_READ_STATUS) (pack_data None 0 (data_addr s) 4 chip 0) s;
     (ret, s) \<leftarrow> FNandSendCmd FNAND_READ_PAGE_TYPE s;
     if ret \<noteq> FT_SUCCESS then Some (ret, s)
     else Some (if dma_data_buffer s 0 = 0xe0 then FT_SUCCESS else FNAND_IS_BUSY, s)
   }"

definition FNandFlashReset :: "u32 \<Rightarrow> FNand \<Rightarrow> (FError \<times> FNand) option" where
  "FNandFlashReset chip s = do {
     let s = clear_descriptor s;
     let s = pack_slot 0 (cmd_format CMD_RESET) (pack_data None 0 0 0 chip 0) s;
     FNandSendCmd FNAND_CMD_TYPE s
   }"

text \<open>The three loops that wait: for the flash, for the controller, for the correction.\<close>

partial_function (option) wait_io_idle :: "u32 \<Rightarrow> FNand \<Rightarrow> FNand option" where
  "wait_io_idle chip s = do {
     (ret, s) \<leftarrow> FNandFlashReadStatus chip s;
     if ret = FNAND_IS_BUSY then wait_io_idle chip s else Some s
   }"

partial_function (option) wait_not_busy :: "FNand \<Rightarrow> FNand option" where
  "wait_not_busy s =
     (let (nand_state, s) = FNAND_READREG FNAND_STATE_OFFSET s
      in if nand_state AND FNAND_STATE_BUSY_OFFSET \<noteq> 0 then wait_not_busy s else Some s)"

partial_function (option) wait_ecc :: "FNand \<Rightarrow> (u32 \<times> FNand) option" where
  "wait_ecc s =
     (let (nand_state, s) = FNAND_READREG FNAND_STATE_OFFSET s
      in if nand_state AND FNAND_STATE_ECC_BUSY_OFFSET \<noteq> 0 \<and> nand_state AND FNAND_STATE_ECC_FINISH_OFFSET = 0
         then wait_ecc s else Some (nand_state, s))"

definition FNandFlashEraseBlock :: "u32 \<Rightarrow> u32 \<Rightarrow> FNand \<Rightarrow> (FError \<times> FNand) option" where
  "FNandFlashEraseBlock page chip s = do {
     s \<leftarrow> wait_io_idle chip s;
     let s = pack_slot 0 (cmd_format CMD_BLOCK_ERASE) (pack_data (Some (row_bytes page)) 3 0 0 chip 0) s;
     (ret, s) \<leftarrow> FNandSendCmd FNAND_CMD_TYPE s;
     if ret \<noteq> FT_SUCCESS then Some (FNAND_ERR_OPERATION, s)
     else do {
       s \<leftarrow> wait_not_busy s;
       Some (FT_SUCCESS, s)
     }
   }"

text \<open>
  The end of a read: copy what was asked for out of the data buffer, at most up to the end of the
  area of \<open>n\<close> bytes that was transferred.
\<close>

definition read_out ::
  "u32 \<Rightarrow> (nat \<Rightarrow> u8) option \<Rightarrow> u32 \<Rightarrow> u32 \<Rightarrow> FNand \<Rightarrow> (FError \<times> (nat \<Rightarrow> u8) option \<times> FNand) option" where
  "read_out n buf off len s = (case buf of
      None \<Rightarrow> Some (FT_SUCCESS, None, s)
    | Some m \<Rightarrow>
        if len \<noteq> 0 then do {
          m \<leftarrow> copy_out m (unat off) (unat (if len > n - off then n - off else len)) s;
          Some (FT_SUCCESS, Some m, s)
        } else Some (FT_SUCCESS, Some m, s))"

definition FNandPageRead ::
  "u32 \<Rightarrow> (nat \<Rightarrow> u8) option \<Rightarrow> u32 \<Rightarrow> u32 \<Rightarrow> u32 \<Rightarrow> FNand \<Rightarrow> (FError \<times> (nat \<Rightarrow> u8) option \<times> FNand) option" where
  "FNandPageRead page buf off len chip s = do {
     let n = bytes_per_page (nand_geometry s chip);
     let s = pack_slot 0 (cmd_format CMD_READ_OPTION_NEW)
               (pack_data (Some ([0, 0] @ row_bytes page)) 5 (data_addr s) n chip 0) s;
     (ret, s) \<leftarrow> FNandSendCmd FNAND_READ_PAGE_TYPE s;
     if ret \<noteq> FT_SUCCESS then Some (FNAND_ERR_OPERATION, buf, s) else read_out n buf off len s
   }"

definition FNandPageWrite ::
  "u32 \<Rightarrow> (nat \<Rightarrow> u8) option \<Rightarrow> u32 \<Rightarrow> u32 \<Rightarrow> u32 \<Rightarrow> FNand \<Rightarrow> (FError \<times> FNand) option" where
  "FNandPageWrite page buf off len chip s = do {
     let n = bytes_per_page (nand_geometry s chip);
     s \<leftarrow> copy_in (unat off) buf (unat (if n - off > len then len else n - off)) s;
     let s = pack_slot 0 (cmd_format CMD_PAGE_PROGRAM)
               (pack_data (Some ([0, 0] @ row_bytes page)) 5 (data_addr s) n chip 0) s;
     (ret, s) \<leftarrow> FNandSendCmd FNAND_WRITE_PAGE_TYPE s;
     if ret \<noteq> FT_SUCCESS then Some (FNAND_ERR_OPERATION, s)
     else do { s \<leftarrow> wait_io_idle chip s; Some (FT_SUCCESS, s) }
   }"

definition FNandPageWriteHwEcc ::
  "u32 \<Rightarrow> (nat \<Rightarrow> u8) option \<Rightarrow> u32 \<Rightarrow> u32 \<Rightarrow> u32 \<Rightarrow> FNand \<Rightarrow> (FError \<times> FNand) option" where
  "FNandPageWriteHwEcc page buf off len chip s = do {
     let g = nand_geometry s chip;
     let n = bytes_per_page g;
     s \<leftarrow> fill 0 0xff (unat FNAND_DMA_MAX_LENGTH) s;
     s \<leftarrow> copy_in (unat off) buf (unat (if n - off < len then n - off else len)) s;
     let s = pack_slot 0 (cmd_format CMD_PAGE_PROGRAM_WITH_OTHER)
               (pack_data (Some ([0, 0] @ row_bytes page)) 5 (data_addr s) n chip 1) s;
     s \<leftarrow> fill (unat n) 0xff (unat (spare_bytes_per_page g)) s;
     let col = n + ecc_offset g;
     let s = pack_slot 1 (cmd_format CMD_COPY_BACK_PROGRAM)
               (pack_data (Some [ucast col, ucast (drop_bit 8 col), 0, 0, 0]) 2
                  (data_addr s + ucast n + ucast (ecc_offset g)) (hw_ecc_length g) chip 0) s;
     (ret, s) \<leftarrow> FNandSendCmd FNAND_WRITE_PAGE_TYPE s;
     if ret \<noteq> FT_SUCCESS then Some (FNAND_ERR_OPERATION, s)
     else do { s \<leftarrow> wait_not_busy s; s \<leftarrow> wait_io_idle chip s; Some (FT_SUCCESS, s) }
   }"

definition FNandPageReadOOb ::
  "u32 \<Rightarrow> (nat \<Rightarrow> u8) option \<Rightarrow> u32 \<Rightarrow> u32 \<Rightarrow> u32 \<Rightarrow> FNand \<Rightarrow> (FError \<times> (nat \<Rightarrow> u8) option \<times> FNand) option" where
  "FNandPageReadOOb page buf off len chip s = do {
     let n = bytes_per_page (nand_geometry s chip);
     let spare = spare_bytes_per_page (nand_geometry s chip);
     let s = pack_slot 0 (cmd_format CMD_READ_OPTION_NEW)
               (pack_data (Some ([ucast (n AND 0xff), ucast (drop_bit 8 n AND 0xff)] @ row_bytes page)) 5
                  (data_addr s) spare chip 0) s;
     (ret, s) \<leftarrow> FNandSendCmd FNAND_READ_PAGE_TYPE s;
     if ret \<noteq> FT_SUCCESS then Some (FNAND_ERR_OPERATION, buf, s) else read_out spare buf off len s
   }"

definition FNandPageWriteOOb ::
  "u32 \<Rightarrow> (nat \<Rightarrow> u8) option \<Rightarrow> u32 \<Rightarrow> u32 \<Rightarrow> u32 \<Rightarrow> FNand \<Rightarrow> (FError \<times> FNand) option" where
  "FNandPageWriteOOb page buf off len chip s = do {
     let n = bytes_per_page (nand_geometry s chip);
     let spare = spare_bytes_per_page (nand_geometry s chip);
     s \<leftarrow> fill 0 0xff (unat spare) s;
     s \<leftarrow> copy_in (unat off) buf (unat (if spare - off > len then len else spare - off)) s;
     let s = pack_slot 0 (cmd_format CMD_PAGE_PROGRAM)
               (pack_data (Some ([ucast (n AND 0xff), ucast (drop_bit 8 n AND 0xff)] @ row_bytes page)) 5
                  (data_addr s) (if spare > len then len else spare) chip 0) s;
     (ret, s) \<leftarrow> FNandSendCmd FNAND_WRITE_PAGE_TYPE s;
     if ret \<noteq> FT_SUCCESS then Some (FNAND_ERR_OPERATION, s)
     else do { s \<leftarrow> wait_io_idle chip s; Some (FT_SUCCESS, s) }
   }"

definition FNandPageReadHwEcc ::
  "u32 \<Rightarrow> (nat \<Rightarrow> u8) option \<Rightarrow> u32 \<Rightarrow> u32 \<Rightarrow> u32 \<Rightarrow> FNand \<Rightarrow> (FError \<times> (nat \<Rightarrow> u8) option \<times> FNand) option" where
  "FNandPageReadHwEcc page buf off len chip s = do {
     let g = nand_geometry s chip;
     let n = bytes_per_page g;
     let s = pack_slot 0 (cmd_format CMD_READ_OPTION_NEW)
               (pack_data (Some ([0, 0] @ row_bytes page)) 5 (data_addr s) n chip 1) s;
     let col = n + ecc_offset g;
     let s = pack_slot 1 (cmd_format CMD_RANDOM_DATA_OUT)
               (pack_data (Some [ucast col, ucast (drop_bit 8 col), 0, 0, 0]) 2
                  (data_addr s + ucast n) (hw_ecc_length g) chip 0) s;
     (ret, s) \<leftarrow> FNandSendCmd FNAND_WAIT_ECC_TYPE s;
     if ret \<noteq> FT_SUCCESS then Some (FNAND_ERR_OPERATION, buf, s)
     else do {
       let s = s\<lparr>bus := FDriverUdelay 100 (bus s)\<rparr>;
       (nand_state, s) \<leftarrow> wait_ecc s;
       if nand_state AND FNAND_STATE_ECC_ERROVER_OFFSET \<noteq> 0 then Some (FNAND_ERR_READ_ECC, buf, s)
       else if nand_state AND FNAND_STATE_ECC_ERR_OFFSET \<noteq> 0 then do {
         let (correct_num, m, s) = FNandCorrectEcc (ecc_step_size g) (hw_ecc_steps g) (Some (dma_data_buffer s)) s;
         let s = (case m of Some m \<Rightarrow> s\<lparr>dma_data_buffer := m\<rparr> | None \<Rightarrow> s);
         if correct_num < 0 then Some (FNAND_ERR_READ_ECC, buf, s) else read_out n buf off len s
       } else read_out n buf off len s
     }
   }"

section \<open>The operations of a page\<close>

type_synonym transfer = "FNandOpData \<Rightarrow> FNand \<Rightarrow> (FError \<times> FNandOpData \<times> FNand) option"

definition FNandFlashReadPageRaw :: transfer where
  "FNandFlashReadPageRaw op s = do {
     (ret, m, s) \<leftarrow> FNandPageRead (page_addr op) (page_buf op) (page_offset op) (page_length op) (op_chip_addr op) s;
     let op = op\<lparr>page_buf := m\<rparr>;
     if ret \<noteq> FT_SUCCESS then Some (ret, op, s)
     else if obb_required op \<noteq> 0 then do {
       (ret, m, s) \<leftarrow> FNandPageReadOOb (page_addr op) (oob_buf op) (oob_offset op) (oob_length op) (op_chip_addr op) s;
       Some (ret, op\<lparr>oob_buf := m\<rparr>, s)
     } else Some (FT_SUCCESS, op, s)
   }"

definition FNandFlashReadPageHwEcc :: transfer where
  "FNandFlashReadPageHwEcc op s = do {
     (_, s) \<leftarrow> FNandFlashReadStatus (op_chip_addr op) s;
     let s = FNandEnableHwEcc s;
     (ret, m, s) \<leftarrow> FNandPageReadHwEcc (page_addr op) (page_buf op) (page_offset op) (page_length op) (op_chip_addr op) s;
     let op = op\<lparr>page_buf := m\<rparr>;
     let s = FNandDisableHwEcc s;
     if ret \<noteq> FT_SUCCESS then Some (ret, op, s)
     else if obb_required op \<noteq> 0 then do {
       (ret, m, s) \<leftarrow> FNandPageReadOOb (page_addr op) (oob_buf op) (oob_offset op) (oob_length op) (op_chip_addr op) s;
       Some (ret, op\<lparr>oob_buf := m\<rparr>, s)
     } else Some (FT_SUCCESS, op, s)
   }"

text \<open>The spare area of a page is written first when the operation has one.\<close>

definition write_oob_part :: "FNandOpData \<Rightarrow> FNand \<Rightarrow> (FError \<times> FNand) option" where
  "write_oob_part op s =
     (if obb_required op \<noteq> 0
      then FNandPageWriteOOb (page_addr op) (oob_buf op) (oob_offset op) (oob_length op) (op_chip_addr op) s
      else Some (FT_SUCCESS, s))"

definition FNandFlashWritePageRaw :: transfer where
  "FNandFlashWritePageRaw op s = do {
     (ret, s) \<leftarrow> write_oob_part op s;
     if ret \<noteq> FT_SUCCESS then Some (ret, op, s)
     else do {
       (ret, s) \<leftarrow> FNandPageWrite (page_addr op) (page_buf op) (page_offset op) (page_length op) (op_chip_addr op) s;
       Some (ret, op, s)
     }
   }"

definition FNandFlashWritePageRawHwEcc :: transfer where
  "FNandFlashWritePageRawHwEcc op s = do {
     (_, s) \<leftarrow> FNandFlashReadStatus (op_chip_addr op) s;
     (ret, s) \<leftarrow> write_oob_part op s;
     if ret \<noteq> FT_SUCCESS then Some (ret, op, s)
     else do {
       let s = FNandEnableHwEcc s;
       (ret, s) \<leftarrow> FNandPageWriteHwEcc (page_addr op) (page_buf op) (page_offset op) (page_length op) (op_chip_addr op) s;
       Some (ret, op, FNandDisableHwEcc s)
     }
   }"

definition FNandFlashOObRead :: transfer where
  "FNandFlashOObRead op s = do {
     (ret, m, s) \<leftarrow> FNandPageReadOOb (page_addr op) (oob_buf op) (oob_offset op) (oob_length op) (op_chip_addr op) s;
     Some (ret, op\<lparr>oob_buf := m\<rparr>, s)
   }"

text \<open>The function has no return statement for the successful case.\<close>

definition FNandFlashOObWrite :: transfer where
  "FNandFlashOObWrite op s = do {
     (ret, s) \<leftarrow> FNandPageWriteOOb (page_addr op) (oob_buf op) (oob_offset op) (oob_length op) (op_chip_addr op) s;
     if ret \<noteq> FT_SUCCESS then Some (ret, op, s) else Some (ret_reg s, op, s)
   }"

definition FNandFlashFuncRegister :: "FNand \<Rightarrow> FNand" where
  "FNandFlashFuncRegister s = s\<lparr>write_p := Some WritePageRaw, read_p := Some ReadPageRaw,
     erase_p := Some EraseBlock, write_hw_ecc_p := Some WritePageRawHwEcc, read_hw_ecc_p := Some ReadPageHwEcc,
     write_oob_p := Some OObWrite, read_oob_p := Some OObRead\<rparr>"

text \<open>A call through a pointer of the instance; a null pointer has no defined result.\<close>

fun call_transfer :: "nand_fn option \<Rightarrow> transfer" where
  "call_transfer (Some WritePageRaw) = FNandFlashWritePageRaw"
| "call_transfer (Some ReadPageRaw) = FNandFlashReadPageRaw"
| "call_transfer (Some WritePageRawHwEcc) = FNandFlashWritePageRawHwEcc"
| "call_transfer (Some ReadPageHwEcc) = FNandFlashReadPageHwEcc"
| "call_transfer (Some OObWrite) = FNandFlashOObWrite"
| "call_transfer (Some OObRead) = FNandFlashOObRead"
| "call_transfer f = (\<lambda>op s. None)"

fun call_erase :: "nand_fn option \<Rightarrow> u32 \<Rightarrow> u32 \<Rightarrow> FNand \<Rightarrow> (FError \<times> FNand) option" where
  "call_erase (Some EraseBlock) = FNandFlashEraseBlock"
| "call_erase f = (\<lambda>page chip s. None)"

section \<open>The interface: fnand.c\<close>

text \<open>The operation record of a call with a page part and a spare part.\<close>

definition op_data ::
  "u32 \<Rightarrow> (nat \<Rightarrow> u8) option \<Rightarrow> u32 \<Rightarrow> u32 \<Rightarrow> (nat \<Rightarrow> u8) option \<Rightarrow> u32 \<Rightarrow> u32 \<Rightarrow> u32 \<Rightarrow> FNandOpData" where
  "op_data page buffer off len oob oob_off oob_len chip =
     (let op = \<lparr>page_addr = page, page_buf = None, page_offset = 0, page_length = 0, obb_required = 0,
                oob_buf = None, oob_offset = 0, oob_length = 0, op_chip_addr = chip\<rparr>;
          op = (if buffer \<noteq> None \<and> len > 0
                then op\<lparr>page_buf := buffer, page_length := len, page_offset := off\<rparr> else op)
      in if oob \<noteq> None \<and> oob_len > 0
         then op\<lparr>obb_required := 1, oob_buf := oob, oob_length := oob_len, oob_offset := oob_off\<rparr> else op)"

definition oob_op_data :: "u32 \<Rightarrow> (nat \<Rightarrow> u8) option \<Rightarrow> u32 \<Rightarrow> u32 \<Rightarrow> u32 \<Rightarrow> FNandOpData" where
  "oob_op_data page oob off len chip =
     \<lparr>page_addr = page, page_buf = None, page_offset = 0, page_length = 0, obb_required = 1,
      oob_buf = oob, oob_offset = off, oob_length = len, op_chip_addr = chip\<rparr>"

definition ready_for :: "u32 \<Rightarrow> FNand \<Rightarrow> bool" where
  "ready_for chip s \<longleftrightarrow> is_ready s = FT_COMPONENT_IS_READY \<and> chip < FNAND_CONNECT_MAX_NUM"

definition FNandWritePage ::
  "u32 \<Rightarrow> (nat \<Rightarrow> u8) option \<Rightarrow> u32 \<Rightarrow> u32 \<Rightarrow> (nat \<Rightarrow> u8) option \<Rightarrow> u32 \<Rightarrow> u32 \<Rightarrow> u32 \<Rightarrow> FNand \<Rightarrow> (FError \<times> FNand) option" where
  "FNandWritePage page buffer off len oob oob_off oob_len chip s = do {
     FASSERT (ready_for chip s \<and> write_hw_ecc_p s \<noteq> None);
     (ret, _, s) \<leftarrow> call_transfer (write_hw_ecc_p s) (op_data page buffer off len oob oob_off oob_len chip) s;
     Some (ret, s)
   }"

definition FNandWritePageRaw ::
  "u32 \<Rightarrow> (nat \<Rightarrow> u8) option \<Rightarrow> u32 \<Rightarrow> u32 \<Rightarrow> (nat \<Rightarrow> u8) option \<Rightarrow> u32 \<Rightarrow> u32 \<Rightarrow> u32 \<Rightarrow> FNand \<Rightarrow> (FError \<times> FNand) option" where
  "FNandWritePageRaw page buffer off len oob oob_off oob_len chip s = do {
     FASSERT (ready_for chip s \<and> write_hw_ecc_p s \<noteq> None);
     (ret, _, s) \<leftarrow> call_transfer (write_p s) (op_data page buffer off len oob oob_off oob_len chip) s;
     Some (ret, s)
   }"

text \<open>A read returns the buffers of the caller; those the operation did not take are unchanged.\<close>

definition given :: "(nat \<Rightarrow> u8) option \<Rightarrow> u32 \<Rightarrow> (nat \<Rightarrow> u8) option \<Rightarrow> (nat \<Rightarrow> u8) option" where
  "given buffer len result = (if buffer \<noteq> None \<and> len > 0 then result else buffer)"

definition FNandReadPage ::
  "u32 \<Rightarrow> (nat \<Rightarrow> u8) option \<Rightarrow> u32 \<Rightarrow> u32 \<Rightarrow> (nat \<Rightarrow> u8) option \<Rightarrow> u32 \<Rightarrow> u32 \<Rightarrow> u32 \<Rightarrow> FNand
     \<Rightarrow> (FError \<times> (nat \<Rightarrow> u8) option \<times> (nat \<Rightarrow> u8) option \<times> FNand) option" where
  "FNandReadPage page buffer off len oob oob_off oob_len chip s = do {
     FASSERT (ready_for chip s \<and> read_hw_ecc_p s \<noteq> None);
     (ret, op, s) \<leftarrow> call_transfer (read_hw_ecc_p s) (op_data page buffer off len oob oob_off oob_len chip) s;
     Some (ret, given buffer len (page_buf op), given oob oob_len (oob_buf op), s)
   }"

definition FNandReadPageRaw ::
  "u32 \<Rightarrow> (nat \<Rightarrow> u8) option \<Rightarrow> u32 \<Rightarrow> u32 \<Rightarrow> (nat \<Rightarrow> u8) option \<Rightarrow> u32 \<Rightarrow> u32 \<Rightarrow> u32 \<Rightarrow> FNand
     \<Rightarrow> (FError \<times> (nat \<Rightarrow> u8) option \<times> (nat \<Rightarrow> u8) option \<times> FNand) option" where
  "FNandReadPageRaw page buffer off len oob oob_off oob_len chip s = do {
     FASSERT (ready_for chip s \<and> read_hw_ecc_p s \<noteq> None);
     (ret, op, s) \<leftarrow> call_transfer (read_p s) (op_data page buffer off len oob oob_off oob_len chip) s;
     Some (ret, given buffer len (page_buf op), given oob oob_len (oob_buf op), s)
   }"

definition FNandEraseBlock :: "u32 \<Rightarrow> u32 \<Rightarrow> FNand \<Rightarrow> (FError \<times> FNand) option" where
  "FNandEraseBlock block chip s = do {
     FASSERT (ready_for chip s);
     call_erase (erase_p s) (block * pages_per_block (nand_geometry s chip)) chip s
   }"

definition FNandReadPageOOb ::
  "u32 \<Rightarrow> (nat \<Rightarrow> u8) option \<Rightarrow> u32 \<Rightarrow> u32 \<Rightarrow> u32 \<Rightarrow> FNand \<Rightarrow> (FError \<times> (nat \<Rightarrow> u8) option \<times> FNand) option" where
  "FNandReadPageOOb page oob off len chip s = do {
     FASSERT (ready_for chip s);
     (ret, op, s) \<leftarrow> call_transfer (read_oob_p s) (oob_op_data page oob off len chip) s;
     Some (ret, oob_buf op, s)
   }"

definition FNandWritePageOOb ::
  "u32 \<Rightarrow> (nat \<Rightarrow> u8) option \<Rightarrow> u32 \<Rightarrow> u32 \<Rightarrow> u32 \<Rightarrow> FNand \<Rightarrow> (FError \<times> FNand) option" where
  "FNandWritePageOOb page oob off len chip s = do {
     FASSERT (ready_for chip s);
     (ret, _, s) \<leftarrow> call_transfer (write_oob_p s) (oob_op_data page oob off len chip) s;
     Some (ret, s)
   }"

end
