(* ===== verification/NandBbm.thy ===== *)
theory NandBbm
  imports NandCmd
begin

text \<open>
  Bad block management, \<^verbatim>\<open>fnand_bbm.c\<close>: a table with two bits for every block, kept in memory
  and in two copies on the flash, each with a signature and a version in the spare area of its
  page. A descriptor is selected by \<open>Primary\<close> or \<open>Mirror\<close>; \<open>FNandWriteBbt\<close> gets the selected one
  and the other one, as in all its calls. The log output is not modelled.
\<close>

section \<open>Constants\<close>

definition FNAND_BLOCK_GOOD :: u32 where [const_defs]: "FNAND_BLOCK_GOOD = 0"
definition FNAND_BLOCK_BAD :: u32 where [const_defs]: "FNAND_BLOCK_BAD = 1"
definition FNAND_BLOCK_RESERVED :: u32 where [const_defs]: "FNAND_BLOCK_RESERVED = 2"
definition FNAND_BLOCK_FACTORY_BAD :: u32 where [const_defs]: "FNAND_BLOCK_FACTORY_BAD = 3"
definition FNAND_FLASH_BLOCK_BAD :: u32 where [const_defs]: "FNAND_FLASH_BLOCK_BAD = 2"
definition FNAND_FLASH_BLOCK_RESERVED :: u32 where [const_defs]: "FNAND_FLASH_BLOCK_RESERVED = 1"
definition FNAND_FLASH_BLOCK_FACTORY_BAD :: u32 where [const_defs]: "FNAND_FLASH_BLOCK_FACTORY_BAD = 0"
definition FNAND_BBT_SCAN_2ND_PAGE :: u32 where [const_defs]: "FNAND_BBT_SCAN_2ND_PAGE = 1"
definition FNAND_BBT_DESC_PAGE_OFFSET :: u32 where [const_defs]: "FNAND_BBT_DESC_PAGE_OFFSET = 0"
definition FNAND_BBT_DESC_SIG_OFFSET :: u32 where [const_defs]: "FNAND_BBT_DESC_SIG_OFFSET = 8"
definition FNAND_BBT_DESC_VER_OFFSET :: u32 where [const_defs]: "FNAND_BBT_DESC_VER_OFFSET = 12"
definition FNAND_BBT_DESC_SIG_LEN :: u32 where [const_defs]: "FNAND_BBT_DESC_SIG_LEN = 4"
definition FNAND_BBT_DESC_MAX_BLOCKS :: u32 where [const_defs]: "FNAND_BBT_DESC_MAX_BLOCKS = 4"
definition FNAND_BBT_BLOCK_SHIFT :: nat where [const_defs]: "FNAND_BBT_BLOCK_SHIFT = 2"
definition FNAND_BBT_ENTRY_NUM_BLOCKS :: nat where [const_defs]: "FNAND_BBT_ENTRY_NUM_BLOCKS = 4"
definition FNAND_BB_PATTERN_OFFSET_SMALL_PAGE :: u32 where [const_defs]: "FNAND_BB_PATTERN_OFFSET_SMALL_PAGE = 5"
definition FNAND_BB_PATTERN_LENGTH_SMALL_PAGE :: u32 where [const_defs]: "FNAND_BB_PATTERN_LENGTH_SMALL_PAGE = 1"
definition FNAND_BB_PATTERN_OFFSET_LARGE_PAGE :: u32 where [const_defs]: "FNAND_BB_PATTERN_OFFSET_LARGE_PAGE = 0"
definition FNAND_BB_PATTERN_LENGTH_LARGE_PAGE :: u32 where [const_defs]: "FNAND_BB_PATTERN_LENGTH_LARGE_PAGE = 2"
definition FNAND_BB_PATTERN :: u8 where [const_defs]: "FNAND_BB_PATTERN = 0xFF"
definition FNAND_BLOCK_TYPE_MASK :: u32 where [const_defs]: "FNAND_BLOCK_TYPE_MASK = 3"
definition FNAND_BLOCK_SHIFT_MASK :: u32 where [const_defs]: "FNAND_BLOCK_SHIFT_MASK = 6"

definition FNAND_BBTBLOCKSHIFT :: "u32 \<Rightarrow> u32" where
  "FNAND_BBTBLOCKSHIFT block = (block * 2) AND FNAND_BLOCK_SHIFT_MASK"

section \<open>Descriptors\<close>

datatype bbt_sel = Primary | Mirror

fun other :: "bbt_sel \<Rightarrow> bbt_sel" where
  "other Primary = Mirror" | "other Mirror = Primary"

definition desc :: "bbt_sel \<Rightarrow> u32 \<Rightarrow> FNand \<Rightarrow> FNandBbtDesc" where
  "desc w chip s = (case w of Primary \<Rightarrow> bbt_desc (bbt_manager s chip) | Mirror \<Rightarrow> bbt_mirror_desc (bbt_manager s chip))"

definition upd_desc :: "bbt_sel \<Rightarrow> u32 \<Rightarrow> (FNandBbtDesc \<Rightarrow> FNandBbtDesc) \<Rightarrow> FNand \<Rightarrow> FNand" where
  "upd_desc w chip f s =
     (let m = bbt_manager s chip
      in s\<lparr>bbt_manager := (bbt_manager s)(chip := (case w of
             Primary \<Rightarrow> m\<lparr>bbt_desc := f (bbt_desc m)\<rparr> | Mirror \<Rightarrow> m\<lparr>bbt_mirror_desc := f (bbt_mirror_desc m)\<rparr>))\<rparr>)"

abbreviation table :: "u32 \<Rightarrow> FNand \<Rightarrow> nat \<Rightarrow> u8" where
  "table chip s \<equiv> bbt (bbt_manager s chip)"

definition upd_table :: "u32 \<Rightarrow> ((nat \<Rightarrow> u8) \<Rightarrow> (nat \<Rightarrow> u8)) \<Rightarrow> FNand \<Rightarrow> FNand" where
  "upd_table chip f s =
     s\<lparr>bbt_manager := (bbt_manager s)(chip := (bbt_manager s chip)\<lparr>bbt := f (table chip s)\<rparr>)\<rparr>"

definition bbtlen :: "u32 \<Rightarrow> FNand \<Rightarrow> u32" where
  "bbtlen chip s = ucast (drop_bit FNAND_BBT_BLOCK_SHIFT (num_blocks (nand_geometry s chip)))"

definition init_desc :: "u8 list \<Rightarrow> FNandBbtDesc" where
  "init_desc sig = \<lparr>desc_page_offset = FNAND_BBT_DESC_PAGE_OFFSET, sig_offset = FNAND_BBT_DESC_SIG_OFFSET,
     ver_offset = FNAND_BBT_DESC_VER_OFFSET, sig_length = FNAND_BBT_DESC_SIG_LEN,
     max_blocks = FNAND_BBT_DESC_MAX_BLOCKS, signature = sig, version = 0, valid = 0\<rparr>"

text \<open>The signatures ``Bbt0'' and ``1tbB''.\<close>

definition sig_primary :: "u8 list" where "sig_primary = [0x42, 0x62, 0x74, 0x30]"
definition sig_mirror :: "u8 list" where "sig_mirror = [0x31, 0x74, 0x62, 0x42]"

definition init_pattern :: "FNandNandGeometry \<Rightarrow> FNandBadBlockPattern" where
  "init_pattern g = (if bytes_per_page g > 512
     then \<lparr>options = FNAND_BBT_SCAN_2ND_PAGE, pat_offset = FNAND_BB_PATTERN_OFFSET_LARGE_PAGE,
           pat_length = FNAND_BB_PATTERN_LENGTH_LARGE_PAGE, pattern = [FNAND_BB_PATTERN, FNAND_BB_PATTERN]\<rparr>
     else \<lparr>options = FNAND_BBT_SCAN_2ND_PAGE, pat_offset = FNAND_BB_PATTERN_OFFSET_SMALL_PAGE,
           pat_length = FNAND_BB_PATTERN_LENGTH_SMALL_PAGE, pattern = [FNAND_BB_PATTERN, FNAND_BB_PATTERN]\<rparr>)"

definition FNandInitBbtDesc :: "FNand \<Rightarrow> FNand option" where
  "FNandInitBbtDesc s = do {
     FASSERT (is_ready s = FT_COMPONENT_IS_READY);
     Some (s\<lparr>bbt_manager := (\<lambda>i. if i < FNAND_CONNECT_MAX_NUM
               then (bbt_manager s i)\<lparr>bbt_desc := init_desc sig_primary, bbt_mirror_desc := init_desc sig_mirror,
                      bb_pattern := init_pattern (nand_geometry s i)\<rparr>
               else bbt_manager s i)\<rparr>)
   }"

section \<open>The two forms of the table\<close>

text \<open>A byte of the flash table, converted to a byte of the table in memory: four blocks.\<close>

definition convert_block :: "u32 \<Rightarrow> nat \<Rightarrow> u8 \<Rightarrow> u8" where
  "convert_block data block_index acc =
     (let block_shift = unat (FNAND_BBTBLOCKSHIFT (of_nat block_index));
          block_type = drop_bit block_shift data AND FNAND_BLOCK_TYPE_MASK
      in if block_type = FNAND_FLASH_BLOCK_FACTORY_BAD then acc OR ucast (push_bit block_shift FNAND_BLOCK_FACTORY_BAD)
         else if block_type = FNAND_FLASH_BLOCK_RESERVED then acc OR ucast (push_bit block_shift FNAND_BLOCK_RESERVED)
         else if block_type = FNAND_FLASH_BLOCK_BAD then acc OR ucast (push_bit block_shift FNAND_BLOCK_BAD)
         else acc)"

definition FNandConvertBbt :: "(nat \<Rightarrow> u8) \<Rightarrow> u32 \<Rightarrow> FNand \<Rightarrow> FNand" where
  "FNandConvertBbt buf chip s =
     fold (\<lambda>block_offset.
         upd_table chip (\<lambda>t. t(block_offset :=
           fold (convert_block (ucast (buf block_offset))) [0..<FNAND_BBT_ENTRY_NUM_BLOCKS] 0)))
       [0..<unat (bbtlen chip s)] s"

text \<open>A byte of the table in memory, converted to a byte of the flash table.\<close>

definition encode_block :: "nat \<Rightarrow> u8 \<times> u8 \<Rightarrow> u8 \<times> u8" where
  "encode_block block_index = (\<lambda>(b, Data).
     let block_shift = unat (FNAND_BBTBLOCKSHIFT (of_nat block_index));
         mask4 = [0x00, 0x01, 0x02, 0x03 :: u32]
     in (b AND ucast (NOT (push_bit block_shift (mask4 ! unat (ucast Data AND FNAND_BLOCK_TYPE_MASK)))),
         drop_bit FNAND_BBT_BLOCK_SHIFT Data))"

definition encode_bbt :: "(nat \<Rightarrow> u8) \<Rightarrow> nat \<Rightarrow> (nat \<Rightarrow> u8) \<Rightarrow> (nat \<Rightarrow> u8)" where
  "encode_bbt t n buf =
     fold (\<lambda>block_offset buf.
         buf(block_offset := fst (fold encode_block [0..<FNAND_BBT_ENTRY_NUM_BLOCKS] (buf block_offset, t block_offset))))
       [0..<n] (memset buf 0 0xff n)"

section \<open>Writing a table\<close>

definition block_type :: "u32 \<Rightarrow> u32 \<Rightarrow> FNand \<Rightarrow> u32" where
  "block_type block chip s =
     drop_bit (unat (FNAND_BBTBLOCKSHIFT block)) (ucast (table chip s (unat (drop_bit FNAND_BBT_BLOCK_SHIFT block))))
       AND FNAND_BLOCK_TYPE_MASK"

text \<open>
  The search for a block to write to: \<open>index\<close> runs from 0 to the number of blocks, \<open>n\<close> are the
  rounds that are left. The block is reduced by the index in every round.
\<close>

primrec find_block :: "bbt_sel \<Rightarrow> u32 \<Rightarrow> nat \<Rightarrow> u32 \<Rightarrow> u32 \<Rightarrow> FNand \<Rightarrow> u32 option \<times> FNand" where
  "find_block w chip 0 index block s = (None, s)"
| "find_block w chip (Suc n) index block s =
     (let block = block - index;
          ty = block_type block chip s
      in if ty = FNAND_BLOCK_BAD \<or> ty = FNAND_BLOCK_FACTORY_BAD then find_block w chip n (index + 1) block s
         else let s = upd_desc w chip (\<lambda>d. d\<lparr>desc_page_offset := block * pages_per_block (nand_geometry s chip)\<rparr>) s
              in if desc_page_offset (desc w chip s) \<noteq> desc_page_offset (desc (other w) chip s)
                 then (Some block, upd_desc w chip (\<lambda>d. d\<lparr>valid := 1\<rparr>) s)
                 else find_block w chip n (index + 1) block s)"

definition choose_block :: "bbt_sel \<Rightarrow> u32 \<Rightarrow> FNand \<Rightarrow> u32 option \<times> FNand" where
  "choose_block w chip s =
     (if valid (desc w chip s) = 0
      then find_block w chip (unat (max_blocks (desc w chip s))) 0 (ucast (num_blocks (nand_geometry s chip) - 1)) s
      else (Some (desc_page_offset (desc w chip s) div pages_per_block (nand_geometry s chip)), s))"

definition spare_of :: "FNandBbtDesc \<Rightarrow> nat \<Rightarrow> (nat \<Rightarrow> u8) \<Rightarrow> (nat \<Rightarrow> u8)" where
  "spare_of d n buf =
     (let buf = memset buf 0 0xff n;
          buf = memcpy buf (unat (sig_offset d)) (\<lambda>i. signature d ! i) 0 (unat (sig_length d))
      in buf(unat (ver_offset d) := version d))"

text \<open>The result of the page write is not stored, so the test after it is that of the erase.\<close>

definition FNandWriteBbt :: "bbt_sel \<Rightarrow> u32 \<Rightarrow> FNand \<Rightarrow> (FError \<times> FNand) option" where
  "FNandWriteBbt w chip s = (case choose_block w chip s of
      (None, s) \<Rightarrow> Some (FNAND_VALUE_FAILURE, s)
    | (Some block, s) \<Rightarrow> do {
        let n = bbtlen chip s;
        let buf = encode_bbt (table chip s) (unat n) (locals s);
        (ret, s) \<leftarrow> FNandEraseBlock block chip s;
        if ret \<noteq> FT_SUCCESS then Some (ret, s)
        else do {
          let sparebuf = spare_of (desc w chip s) (unat (spare_bytes_per_page (nand_geometry s chip))) (locals s);
          (_, s) \<leftarrow> FNandWritePage (desc_page_offset (desc w chip s)) (Some buf) 0 n (Some sparebuf) 0
                       FNAND_MAX_SPARE_SIZE chip s;
          Some (FT_SUCCESS, s)
        }
      })"

definition FNandUpdateBbt :: "u32 \<Rightarrow> FNand \<Rightarrow> (FError \<times> FNand) option" where
  "FNandUpdateBbt chip s = do {
     let s = upd_desc Primary chip (\<lambda>d. d\<lparr>version := version d + 1\<rparr>) s;
     let s = upd_desc Mirror chip (\<lambda>d. d\<lparr>version := version d + 1\<rparr>) s;
     (ret, s) \<leftarrow> FNandWriteBbt Primary chip s;
     if ret \<noteq> FT_SUCCESS then Some (ret, s) else FNandWriteBbt Mirror chip s
   }"

text \<open>Marking the blocks of the tables: the last \<open>max_blocks\<close> ones.\<close>

definition reserve_block :: "u32 \<Rightarrow> u32 \<Rightarrow> FNand \<Rightarrow> FNand" where
  "reserve_block block chip s =
     upd_table chip (\<lambda>t. let k = unat (drop_bit FNAND_BBT_BLOCK_SHIFT block)
       in t(k := t k OR ucast (push_bit (unat (FNAND_BBTBLOCKSHIFT block)) FNAND_BLOCK_RESERVED))) s"

primrec mark_loop :: "u32 \<Rightarrow> nat \<Rightarrow> u32 \<Rightarrow> bool \<times> FNand \<Rightarrow> bool \<times> FNand" where
  "mark_loop chip 0 block r = r"
| "mark_loop chip (Suc n) block r =
     (let (upd, s) = r;
          s' = reserve_block block chip s;
          k = unat (drop_bit FNAND_BBT_BLOCK_SHIFT block)
      in mark_loop chip n (block + 1) (upd \<or> table chip s k \<noteq> table chip s' k, s'))"

definition FNandMarkBbt :: "bbt_sel \<Rightarrow> u32 \<Rightarrow> FNand \<Rightarrow> (FError \<times> FNand) option" where
  "FNandMarkBbt w chip s = do {
     let block_index = ucast (num_blocks (nand_geometry s chip)) - max_blocks (desc w chip s);
     let (updatebbt, s) = mark_loop chip (unat (max_blocks (desc w chip s))) block_index (False, s);
     if updatebbt then FNandUpdateBbt chip s else Some (FT_SUCCESS, s)
   }"

section \<open>Finding and reading a table\<close>

text \<open>The spare areas of a block's first pages, compared with the pattern of a good block.\<close>

primrec pattern_differs :: "FNandBadBlockPattern \<Rightarrow> (nat \<Rightarrow> u8) \<Rightarrow> nat list \<Rightarrow> bool" where
  "pattern_differs p buf [] \<longleftrightarrow> False"
| "pattern_differs p buf (k # ks) \<longleftrightarrow> buf (unat (pat_offset p) + k) \<noteq> pattern p ! k \<or> pattern_differs p buf ks"

definition mark_factory_bad :: "u32 \<Rightarrow> u32 \<Rightarrow> FNand \<Rightarrow> FNand" where
  "mark_factory_bad block chip s =
     upd_table chip (\<lambda>t. let k = unat (drop_bit FNAND_BBT_BLOCK_SHIFT block)
       in t(k := t k OR ucast (push_bit (unat (FNAND_BBTBLOCKSHIFT block)) FNAND_BLOCK_FACTORY_BAD))) s"

primrec scan_pages :: "u32 \<Rightarrow> u32 \<Rightarrow> nat \<Rightarrow> u32 \<Rightarrow> (nat \<Rightarrow> u8) \<Rightarrow> FNand \<Rightarrow> ((nat \<Rightarrow> u8) \<times> FNand) option" where
  "scan_pages block chip 0 page buf s = Some (buf, s)"
| "scan_pages block chip (Suc n) page buf s = do {
     (ret, m, s) \<leftarrow> FNandReadPageOOb page (Some buf) 0 FNAND_MAX_SPARE_SIZE chip s;
     let buf = (case m of Some m \<Rightarrow> m | None \<Rightarrow> buf);
     if ret \<noteq> FT_SUCCESS then Some (buf, mark_factory_bad block chip s)
     else let p = bb_pattern (bbt_manager s chip);
              s = (if pattern_differs p buf [0..<unat (pat_length p)] then mark_factory_bad block chip s else s)
          in scan_pages block chip n (page + 1) buf s
   }"

primrec scan_blocks :: "u32 \<Rightarrow> nat \<Rightarrow> nat \<Rightarrow> u32 \<Rightarrow> (nat \<Rightarrow> u8) \<Rightarrow> FNand \<Rightarrow> FNand option" where
  "scan_blocks chip pages 0 block buf s = Some s"
| "scan_blocks chip pages (Suc n) block buf s = do {
     (buf, s) \<leftarrow> scan_pages block chip pages (block * pages_per_block (nand_geometry s chip)) buf s;
     scan_blocks chip pages n (block + 1) buf s
   }"

definition FNandCreateBbt :: "u32 \<Rightarrow> FNand \<Rightarrow> FNand option" where
  "FNandCreateBbt chip s = do {
     let pages = (if options (bb_pattern (bbt_manager s chip)) AND FNAND_BBT_SCAN_2ND_PAGE \<noteq> 0 then 2 else 1);
     let s = upd_table chip (\<lambda>t. memset t 0 0 (unat (bbtlen chip s))) s;
     scan_blocks chip pages (unat (num_blocks (nand_geometry s chip))) 0 (locals s) s
   }"

primrec search_bbt :: "bbt_sel \<Rightarrow> u32 \<Rightarrow> nat \<Rightarrow> u32 \<Rightarrow> (nat \<Rightarrow> u8) \<Rightarrow> FNand \<Rightarrow> (FError \<times> FNand) option" where
  "search_bbt w chip 0 block buf s = Some (FNAND_VALUE_ERROR, s)"
| "search_bbt w chip (Suc n) block buf s = do {
     let pageoff = block * pages_per_block (nand_geometry s chip);
     (ret, m, s) \<leftarrow> FNandReadPageOOb pageoff (Some buf) 0 FNAND_MAX_SPARE_SIZE chip s;
     let buf = (case m of Some m \<Rightarrow> m | None \<Rightarrow> buf);
     let d = desc w chip s;
     if ret = FT_SUCCESS \<and>
        list_all (\<lambda>k. buf (k + unat (sig_offset d)) = signature d ! k) [0..<unat (sig_length d)]
     then Some (FT_SUCCESS, upd_desc w chip
            (\<lambda>d. d\<lparr>desc_page_offset := pageoff, version := buf (unat (ver_offset d)), valid := 1\<rparr>) s)
     else search_bbt w chip n (block - 1) buf s
   }"

definition FNandSearchBbt :: "bbt_sel \<Rightarrow> u32 \<Rightarrow> FNand \<Rightarrow> (FError \<times> FNand) option" where
  "FNandSearchBbt w chip s =
     search_bbt w chip (unat (max_blocks (desc w chip s))) (ucast (num_blocks (nand_geometry s chip) - 1)) (locals s) s"

text \<open>
  Reading the table through descriptor \<open>w\<close> into memory; the caller then makes the versions agree
  and writes the table through the other descriptor, where the code does so.
\<close>

definition load_table :: "bbt_sel \<Rightarrow> u32 \<Rightarrow> FNand \<Rightarrow> (FError \<times> FNand) option" where
  "load_table w chip s = do {
     (ret, m, _, s) \<leftarrow> FNandReadPage (desc_page_offset (desc w chip s)) (Some (locals s)) 0 (bbtlen chip s) None 0 0 chip s;
     let buf = (case m of Some m \<Rightarrow> m | None \<Rightarrow> locals s);
     if ret \<noteq> FT_SUCCESS then Some (ret, s) else Some (FT_SUCCESS, FNandConvertBbt buf chip s)
   }"

definition FNandReadBbt :: "u32 \<Rightarrow> FNand \<Rightarrow> (FError \<times> FNand) option" where
  "FNandReadBbt chip s = do {
     (status1, s) \<leftarrow> FNandSearchBbt Primary chip s;
     (status2, s) \<leftarrow> FNandSearchBbt Mirror chip s;
     let d = desc Primary chip s;
     let m = desc Mirror chip s;
     if status1 \<noteq> FT_SUCCESS \<and> status2 \<noteq> FT_SUCCESS then Some (FNAND_VALUE_FAILURE, s)
     else if valid d \<noteq> 0 \<and> valid m \<noteq> 0 then
       (if version d > version m then do {
          (ret, s) \<leftarrow> load_table Primary chip s;
          if ret \<noteq> FT_SUCCESS then Some (ret, s)
          else let s = upd_desc Mirror chip (\<lambda>x. x\<lparr>version := version (desc Primary chip s)\<rparr>) s
               in FNandWriteBbt Mirror chip s
        } else if version d < version m then do {
          (ret, s) \<leftarrow> load_table Mirror chip s;
          if ret \<noteq> FT_SUCCESS then Some (ret, s)
          else let s = upd_desc Primary chip (\<lambda>x. x\<lparr>version := version (desc Mirror chip s)\<rparr>) s
               in FNandWriteBbt Primary chip s
        } else load_table Primary chip s)
     else if valid d \<noteq> 0 then do {
       (ret, s) \<leftarrow> load_table Primary chip s;
       if ret \<noteq> FT_SUCCESS then Some (ret, s)
       else let s = upd_desc Primary chip (\<lambda>x. x\<lparr>version := version (desc Mirror chip s)\<rparr>) s
            in FNandWriteBbt Mirror chip s
     } else do {
       (ret, s) \<leftarrow> load_table Mirror chip s;
       if ret \<noteq> FT_SUCCESS then Some (ret, s)
       else let s = upd_desc Primary chip (\<lambda>x. x\<lparr>version := version (desc Mirror chip s)\<rparr>) s
            in FNandWriteBbt Primary chip s
     }
   }"

definition FNandScanBbt :: "u32 \<Rightarrow> FNand \<Rightarrow> (FError \<times> FNand) option" where
  "FNandScanBbt chip s = do {
     FASSERT (is_ready s = FT_COMPONENT_IS_READY);
     (ret, s) \<leftarrow> FNandReadBbt chip s;
     if ret \<noteq> FT_SUCCESS then do {
       s \<leftarrow> FNandCreateBbt chip s;
       (ret, s) \<leftarrow> FNandWriteBbt Primary chip s;
       if ret \<noteq> FT_SUCCESS then Some (ret, s)
       else do {
         (ret, s) \<leftarrow> FNandWriteBbt Mirror chip s;
         if ret \<noteq> FT_SUCCESS then Some (ret, s)
         else do {
           (_, s) \<leftarrow> FNandMarkBbt Primary chip s;
           (_, s) \<leftarrow> FNandMarkBbt Mirror chip s;
           Some (FT_SUCCESS, s)
         }
       }
     } else Some (FT_SUCCESS, s)
   }"

section \<open>The table in memory\<close>

definition FNandIsBlockBad :: "u32 \<Rightarrow> u32 \<Rightarrow> FNand \<Rightarrow> FError option" where
  "FNandIsBlockBad block chip s = do {
     FASSERT (is_ready s = FT_COMPONENT_IS_READY);
     FASSERT (ucast block < num_blocks (nand_geometry s chip));
     let data = table chip s (unat (drop_bit FNAND_BBT_BLOCK_SHIFT block));
     let ty = drop_bit (unat (FNAND_BBTBLOCKSHIFT block)) (ucast data :: u32) AND FNAND_BLOCK_TYPE_MASK;
     Some (if ty \<noteq> FNAND_BLOCK_GOOD then FT_SUCCESS else FNAND_VALUE_FAILURE)
   }"

definition set_bad :: "u32 \<Rightarrow> u8 \<Rightarrow> u8" where
  "set_bad block data =
     (let block_shift = unat (FNAND_BBTBLOCKSHIFT block);
          data = data AND ucast (NOT (push_bit block_shift FNAND_BLOCK_TYPE_MASK))
      in data OR ucast (push_bit block_shift FNAND_BLOCK_BAD))"

definition FNandMarkBlockBad :: "u32 \<Rightarrow> u32 \<Rightarrow> FNand \<Rightarrow> (FError \<times> FNand) option" where
  "FNandMarkBlockBad block chip s = do {
     FASSERT (is_ready s = FT_COMPONENT_IS_READY);
     FASSERT (ucast block < num_blocks (nand_geometry s chip));
     let k = unat (drop_bit FNAND_BBT_BLOCK_SHIFT block);
     let oldval = table chip s k;
     let newval = set_bad block oldval;
     let s = upd_table chip (\<lambda>t. t(k := newval)) s;
     if oldval \<noteq> newval then FNandUpdateBbt chip s else Some (FT_SUCCESS, s)
   }"

end
