(* ===== verification/NandChip.thy ===== *)
theory NandChip
  imports NandBbm
begin

text \<open>
  The device behind the driver: what a NAND flash does with the commands the driver sends. The
  contents of the flash are a function of the history, a page is a function of the column, the
  spare area follows the data area. \<open>nand_exec\<close> is the effect of one descriptor, as the command set
  of the flash defines it: programming can only clear bits, erasing sets the bytes of a block, and
  a descriptor with the correction bit transfers the check bytes instead of data. The driver relies
  on it through the predicate \<open>flash_device\<close>; the controller it describes finishes a command before
  its status is read and reports no wrong bits.
\<close>

section \<open>Commands\<close>

type_synonym flash = "nat \<Rightarrow> nat \<Rightarrow> u8"

definition bytes_nat :: "u8 list \<Rightarrow> nat" where
  "bytes_nat bs = foldr (\<lambda>b n. unat b + 256 * n) bs 0"

definition row_of :: "FNandDmaDescriptor \<Rightarrow> nat" where
  "row_of d = bytes_nat (drop 2 (addr d))"

text \<open>The column: the first two of five address bytes, or the last two when there are only two.\<close>

definition col_of :: "FNandDmaDescriptor \<Rightarrow> nat" where
  "col_of d = bytes_nat (if addr_cyc (cmd_ctrl d) = 2 then drop 3 (addr d) else take 2 (addr d))"

definition mem_of :: "uintptr \<Rightarrow> FNandDmaDescriptor \<Rightarrow> nat" where
  "mem_of base d = bytes_nat (mem_addr_first d) - unat base"

definition cnt_of :: "FNandDmaDescriptor \<Rightarrow> nat" where
  "cnt_of d = (if dc (cmd_ctrl d) = 1 then unat (page_cnt d) else 0)"

definition program :: "(nat \<Rightarrow> u8) \<Rightarrow> nat \<Rightarrow> (nat \<Rightarrow> u8) \<Rightarrow> nat \<Rightarrow> (nat \<Rightarrow> u8)" where
  "program page col src n = (\<lambda>c. if col \<le> c \<and> c < col + n then page c AND src (c - col) else page c)"

definition erase_block :: "nat \<Rightarrow> nat \<Rightarrow> flash \<Rightarrow> flash" where
  "erase_block ppb row f = (\<lambda>p. if p div ppb = row div ppb then (\<lambda>c. 0xff) else f p)"

definition nand_exec ::
  "nat \<Rightarrow> uintptr \<Rightarrow> ((nat \<Rightarrow> u8) \<Rightarrow> nat \<Rightarrow> u8) \<Rightarrow> FNandDmaDescriptor \<Rightarrow> nat \<times> flash \<times> (nat \<Rightarrow> u8) \<Rightarrow> nat \<times> flash \<times> (nat \<Rightarrow> u8)" where
  "nand_exec ppb base ecc d = (\<lambda>(row, f, m).
     let off = mem_of base d; cnt = cnt_of d; col = col_of d in
     if dbc (cmd_ctrl d) = 1 then
       if cmd0 d = 0x00 \<and> cmd1 d = 0x30 then (row_of d, f, memcpy m off (f (row_of d)) col cnt)
       else if cmd0 d = 0x05 \<and> cmd1 d = 0xE0 then (row, f, memcpy m off (f row) col cnt)
       else if cmd0 d = 0x80 \<and> cmd1 d = 0x10 then
         (row_of d, f(row_of d := program (f (row_of d)) col (\<lambda>i. m (off + i)) cnt), m)
       else if cmd0 d = 0x85 \<and> cmd1 d = 0x10 then (row, f(row := program (f row) col (ecc m) cnt), m)
       else if cmd0 d = 0x60 \<and> cmd1 d = 0xD0 then (row_of d, erase_block ppb (row_of d) f, m)
       else (row, f, m)
     else if cmd1 d = 0x80 then
       (row_of d, f(row_of d := program (f (row_of d)) col (\<lambda>i. m (off + i)) cnt), m)
     else if cmd1 d = 0x70 then (row, f, memset m off 0xe0 cnt)
     else (row, f, m))"

text \<open>A list of descriptors: the second one follows when the first says so.\<close>

definition nand_run ::
  "nat \<Rightarrow> uintptr \<Rightarrow> ((nat \<Rightarrow> u8) \<Rightarrow> nat \<Rightarrow> u8) \<Rightarrow> (nat \<Rightarrow> FNandDmaDescriptor) \<Rightarrow> flash \<times> (nat \<Rightarrow> u8) \<Rightarrow> flash \<times> (nat \<Rightarrow> u8)" where
  "nand_run ppb base ecc ds r =
     (let x = nand_exec ppb base ecc (ds 0) (0, r);
          x = (if nc (cmd_ctrl (ds 0)) = 1 then nand_exec ppb base ecc (ds 1) x else x)
      in snd x)"

section \<open>The device\<close>

definition state_reg :: "FNand \<Rightarrow> uintptr" where
  "state_reg s = base_address (config s) + ucast FNAND_STATE_OFFSET"

definition prompt :: "FNand \<Rightarrow> bool" where
  "prompt s \<longleftrightarrow> (\<forall>h. let v = dev (bus s) h (state_reg s) in
     \<not> bit v 0 \<and> bit v 2 \<and> bit v 11 \<and> bit v 12 \<and> bit v 17 \<and> \<not> bit v 19 \<and> \<not> bit v 20)"

definition chip_runs :: "((nat \<Rightarrow> u8) \<Rightarrow> nat \<Rightarrow> u8) \<Rightarrow> (nand_history \<Rightarrow> flash) \<Rightarrow> FNand \<Rightarrow> bool" where
  "chip_runs ecc cells s \<longleftrightarrow>
     (\<forall>h e. (\<forall>ds m. e \<noteq> Call (DmaStart ds m)) \<longrightarrow> cells (h @ [e]) = cells h) \<and>
     (\<forall>h ds m. (cells (h @ [Call (DmaStart ds m)]), dma s (h @ [Call (DmaStart ds m)]) m) =
        nand_run (unat (pages_per_block (nand_geometry s 0))) (data_addr s) ecc ds (cells h, m))"

text \<open>The wait for an interrupt, when one is used, succeeds; the data buffer has a 40-bit address.\<close>

definition waits :: "FNand \<Rightarrow> bool" where
  "waits s \<longleftrightarrow> work_mode s \<noteq> FNAND_WORK_MODE_ISR \<or> wait_irq_fun_p s = 0 \<or> (\<forall>h. wait_irq s h = FT_SUCCESS)"

text \<open>The address field of a descriptor has five bytes.\<close>

definition descs_ok :: "(nat \<Rightarrow> FNandDmaDescriptor) \<Rightarrow> bool" where
  "descs_ok ds \<longleftrightarrow> (\<forall>k. length (addr (ds k)) = 5)"

definition flash_device :: "((nat \<Rightarrow> u8) \<Rightarrow> nat \<Rightarrow> u8) \<Rightarrow> (nand_history \<Rightarrow> flash) \<Rightarrow> FNand \<Rightarrow> bool" where
  "flash_device ecc cells s \<longleftrightarrow> prompt s \<and> chip_runs ecc cells s \<and> waits s \<and>
     data_addr s \<noteq> 0 \<and> unat (data_addr s) + 2 ^ 15 < 2 ^ 40 \<and> is_ready s = FT_COMPONENT_IS_READY \<and>
     descs_ok (descriptor_buffer s)"

definition contents :: "(nand_history \<Rightarrow> flash) \<Rightarrow> FNand \<Rightarrow> flash" where
  "contents cells s = cells (trace (bus s))"

section \<open>What a command leaves alone\<close>

text \<open>Only the history, the data buffer and the descriptors differ.\<close>

definition frame :: "FNand \<Rightarrow> FNand \<Rightarrow> bool" where
  "frame s s' \<longleftrightarrow> (descs_ok (descriptor_buffer s) \<longrightarrow> descs_ok (descriptor_buffer s')) \<and>
     (\<exists>h m ds. s' = s\<lparr>bus := (bus s)\<lparr>trace := h\<rparr>, dma_data_buffer := m, descriptor_buffer := ds\<rparr>)"

lemma frame_refl [simp]: "frame s s"
  unfolding frame_def
  by (intro conjI exI [of _ "trace (bus s)"] exI [of _ "dma_data_buffer s"] exI [of _ "descriptor_buffer s"]) simp_all

lemma frame_trans [trans]: "frame s t \<Longrightarrow> frame t u \<Longrightarrow> frame s u"
  unfolding frame_def by (elim conjE exE, simp, blast)

lemma frameI: "descs_ok (descriptor_buffer s) \<longrightarrow> descs_ok ds \<Longrightarrow> s' = s\<lparr>bus := (bus s)\<lparr>trace := h\<rparr>, dma_data_buffer := m, descriptor_buffer := ds\<rparr> \<Longrightarrow> frame s s'"
  unfolding frame_def by (rule conjI, simp) blast

lemma frame_fields:
  assumes "frame s s'"
  shows "is_ready s' = is_ready s" "config s' = config s" "work_mode s' = work_mode s"
    "bbt_manager s' = bbt_manager s" "nand_geometry s' = nand_geometry s"
    "wait_irq_fun_p s' = wait_irq_fun_p s" "wait_irq s' = wait_irq s" "data_addr s' = data_addr s"
    "dev (bus s') = dev (bus s)" "dma s' = dma s" "locals s' = locals s"
    "write_hw_ecc_p s' = write_hw_ecc_p s" "read_hw_ecc_p s' = read_hw_ecc_p s"
    "read_oob_p s' = read_oob_p s" "erase_p s' = erase_p s"
  using assms unfolding frame_def by auto

lemma frame_device: "frame s s' \<Longrightarrow> flash_device ecc cells s \<Longrightarrow> flash_device ecc cells s'"
proof -
  assume f: "frame s s'" and d: "flash_device ecc cells s"
  have "descs_ok (descriptor_buffer s')" using f d by (simp add: frame_def flash_device_def)
  then show ?thesis using d f
    unfolding flash_device_def prompt_def chip_runs_def waits_def state_reg_def by (simp add: frame_fields)
qed

text \<open>Register accesses: the history grows by events that are not transfers.\<close>

definition quiet :: "FNand \<Rightarrow> FNand \<Rightarrow> bool" where
  "quiet s s' \<longleftrightarrow> (\<exists>es. (\<forall>ds m. Call (DmaStart ds m) \<notin> set es) \<and> s' = s\<lparr>bus := (bus s)\<lparr>trace := trace (bus s) @ es\<rparr>\<rparr>)"

lemma quiet_refl [simp]: "quiet s s"
  unfolding quiet_def by (rule exI [of _ "[]"]) simp

lemma quiet_trans [trans]: "quiet s t \<Longrightarrow> quiet t u \<Longrightarrow> quiet s u"
proof -
  assume "quiet s t" "quiet t u"
  then obtain es fs where e: "\<forall>ds m. Call (DmaStart ds m) \<notin> set es" "t = s\<lparr>bus := (bus s)\<lparr>trace := trace (bus s) @ es\<rparr>\<rparr>"
    "\<forall>ds m. Call (DmaStart ds m) \<notin> set fs" "u = t\<lparr>bus := (bus t)\<lparr>trace := trace (bus t) @ fs\<rparr>\<rparr>"
    unfolding quiet_def by blast
  show ?thesis unfolding quiet_def by (rule exI [of _ "es @ fs"]) (simp_all add: e)
qed

lemma quiet_frame: "quiet s s' \<Longrightarrow> frame s s'"
proof -
  assume "quiet s s'"
  then obtain es where e: "s' = s\<lparr>bus := (bus s)\<lparr>trace := trace (bus s) @ es\<rparr>\<rparr>" unfolding quiet_def by blast
  show ?thesis by (rule frameI [where h = "trace (bus s) @ es" and m = "dma_data_buffer s" and ds = "descriptor_buffer s"]) (simp_all add: e)
qed

lemma quiet_buffers:
  assumes "quiet s s'"
  shows "dma_data_buffer s' = dma_data_buffer s" "descriptor_buffer s' = descriptor_buffer s"
  using assms unfolding quiet_def by auto

lemma quiet_emit: "\<forall>ds m. e \<noteq> Call (DmaStart ds m) \<Longrightarrow> quiet s (s\<lparr>bus := emit e (bus s)\<rparr>)"
  unfolding quiet_def emit_def by (rule exI [of _ "[e]"]) auto

lemma quiet_READREG [simp]: "quiet s (snd (FNAND_READREG off s))"
  by (simp add: FNAND_READREG_def FtIn32_def Let_def quiet_emit)

lemma quiet_WRITEREG [simp]: "quiet s (FNAND_WRITEREG off v s)"
  by (simp add: FNAND_WRITEREG_def FtOut32_def quiet_emit)

text \<open>A change of single bits is a read followed by a write.\<close>

lemma SETBIT_eq: "FNAND_SETBIT off v s = FNAND_WRITEREG off (fst (FNAND_READREG off s) OR v) (snd (FNAND_READREG off s))"
  by (simp add: FNAND_SETBIT_def FNAND_WRITEREG_def FNAND_READREG_def FtSetBit32_def FtIn32_def Let_def)

lemma CLEARBIT_eq: "FNAND_CLEARBIT off v s = FNAND_WRITEREG off (fst (FNAND_READREG off s) AND NOT v) (snd (FNAND_READREG off s))"
  by (simp add: FNAND_CLEARBIT_def FNAND_WRITEREG_def FNAND_READREG_def FtClearBit32_def FtIn32_def Let_def)

lemma quiet_SETBIT [simp]: "quiet s (FNAND_SETBIT off v s)"
  unfolding SETBIT_eq by (rule quiet_trans [OF quiet_READREG quiet_WRITEREG])

lemma quiet_CLEARBIT [simp]: "quiet s (FNAND_CLEARBIT off v s)"
  unfolding CLEARBIT_eq by (rule quiet_trans [OF quiet_READREG quiet_WRITEREG])

lemma cells_quiet:
  assumes "chip_runs ecc cells s" "\<forall>ds m. Call (DmaStart ds m) \<notin> set es"
  shows "cells (h @ es) = cells h"
  using assms(2)
proof (induction es arbitrary: h)
  case (Cons e es)
  have "cells (h @ e # es) = cells ((h @ [e]) @ es)" by simp
  also have "\<dots> = cells (h @ [e])" using Cons.prems by (intro Cons.IH) simp
  also have "\<dots> = cells h"
  proof -
    have "\<forall>ds m. e \<noteq> Call (DmaStart ds m)" using Cons.prems by auto
    then show ?thesis using assms(1) by (simp add: chip_runs_def)
  qed
  finally show ?case .
qed simp

lemma quiet_contents: "flash_device ecc cells s \<Longrightarrow> quiet s s' \<Longrightarrow> contents cells s' = contents cells s"
  unfolding quiet_def contents_def by (auto simp: flash_device_def intro!: cells_quiet)

section \<open>Sending a command\<close>

lemma device_prompt: "flash_device ecc cells s \<Longrightarrow> prompt s"
  by (simp add: flash_device_def)

lemma quiet_prompt: "quiet s t \<Longrightarrow> prompt t = prompt s"
  unfolding prompt_def state_reg_def by (simp add: frame_fields [OF quiet_frame])

lemma READREG_state: "fst (FNAND_READREG FNAND_STATE_OFFSET s) = dev (bus s) (trace (bus s)) (state_reg s)"
  by (simp add: FNAND_READREG_def FtIn32_def Let_def state_reg_def)

lemma prompt_bits:
  assumes "prompt s"
  shows "fst (FNAND_READREG FNAND_STATE_OFFSET s) AND FNAND_STATE_BUSY_OFFSET = 0"
    "fst (FNAND_READREG FNAND_STATE_OFFSET s) AND finish_mask ty \<noteq> 0"
    "fst (FNAND_READREG FNAND_STATE_OFFSET s) AND FNAND_STATE_ECC_FINISH_OFFSET \<noteq> 0"
    "fst (FNAND_READREG FNAND_STATE_OFFSET s) AND FNAND_STATE_ECC_ERR_OFFSET = 0"
    "fst (FNAND_READREG FNAND_STATE_OFFSET s) AND FNAND_STATE_ECC_ERROVER_OFFSET = 0"
  using assms unfolding prompt_def READREG_state
  by (cases ty; simp add: Let_def AND_BIT_eq_0_iff FNAND_STATE_BUSY_OFFSET_def FNAND_STATE_CMD_PGFINISH_OFFSET_def
      FNAND_STATE_PG_PGFINISH_OFFSET_def FNAND_STATE_DMA_PGFINISH_OFFSET_def FNAND_STATE_ECC_FINISH_OFFSET_def
      FNAND_STATE_ECC_ERR_OFFSET_def FNAND_STATE_ECC_ERROVER_OFFSET_def)+

lemma poll_prompt: "prompt s \<Longrightarrow> poll_state (finish_mask ty) n s = (FT_SUCCESS, snd (FNAND_READREG FNAND_STATE_OFFSET s))"
  using prompt_bits(2) [of s ty] by (cases n) (simp_all add: case_prod_beta Let_def)

lemma quiet_HwReset [simp]: "quiet s (FNandHwReset s)"
  unfolding FNandHwReset_def Let_def by (intro quiet_trans [OF _ quiet_WRITEREG] quiet_refl)

lemma start_dma_runs:
  assumes "flash_device ecc cells s"
  shows "frame s (start_dma s)" "descriptor_buffer (start_dma s) = descriptor_buffer s"
    "(contents cells (start_dma s), dma_data_buffer (start_dma s)) =
       nand_run (unat (pages_per_block (nand_geometry s 0))) (data_addr s) ecc (descriptor_buffer s)
         (contents cells s, dma_data_buffer s)"
proof -
  define t where "t = FNAND_SETBIT FNAND_MADDR1_OFFSET FNAND_MADDR1_DMA_EN_MASK s"
  let ?c = "Call (DmaStart (descriptor_buffer t) (dma_data_buffer t))"
  have q: "quiet s t" by (simp add: t_def)
  have d: "start_dma s = t\<lparr>bus := (bus t)\<lparr>trace := trace (bus t) @ [?c]\<rparr>,
      dma_data_buffer := dma t (trace (bus t) @ [?c]) (dma_data_buffer t)\<rparr>"
    by (simp add: start_dma_def t_def Let_def emit_def)
  have "frame t (start_dma s)"
    by (rule frameI [where h = "trace (bus t) @ [?c]" and ds = "descriptor_buffer t"
          and m = "dma t (trace (bus t) @ [?c]) (dma_data_buffer t)"]) (simp_all add: d)
  then show "frame s (start_dma s)" using quiet_frame [OF q] frame_trans by blast
  show "descriptor_buffer (start_dma s) = descriptor_buffer s" using quiet_buffers [OF q] by (simp add: d)
  have "chip_runs ecc cells s" using assms by (simp add: flash_device_def)
  then have "(cells (trace (bus t) @ [?c]), dma s (trace (bus t) @ [?c]) (dma_data_buffer t)) =
      nand_run (unat (pages_per_block (nand_geometry s 0))) (data_addr s) ecc (descriptor_buffer t)
         (cells (trace (bus t)), dma_data_buffer t)" by (simp add: chip_runs_def)
  then show "(contents cells (start_dma s), dma_data_buffer (start_dma s)) =
       nand_run (unat (pages_per_block (nand_geometry s 0))) (data_addr s) ecc (descriptor_buffer s)
         (contents cells s, dma_data_buffer s)"
    using quiet_contents [OF assms q] quiet_buffers [OF q] frame_fields(10) [OF quiet_frame [OF q]]
    by (simp add: contents_def d)
qed

text \<open>What a sent command does: it succeeds, and the flash and the data buffer are those after the run.\<close>

definition ran :: "((nat \<Rightarrow> u8) \<Rightarrow> nat \<Rightarrow> u8) \<Rightarrow> (nand_history \<Rightarrow> flash) \<Rightarrow> FNand \<Rightarrow> FNand \<Rightarrow> bool" where
  "ran ecc cells s s' \<longleftrightarrow> frame s s' \<and> descriptor_buffer s' = descriptor_buffer s \<and>
     (contents cells s', dma_data_buffer s') =
       nand_run (unat (pages_per_block (nand_geometry s 0))) (data_addr s) ecc (descriptor_buffer s)
         (contents cells s, dma_data_buffer s)"

lemma ran_quiet:
  assumes "flash_device ecc cells s" "quiet s t" "ran ecc cells t u" "quiet u v"
  shows "ran ecc cells s v"
proof -
  have f: "frame s t" "frame t u" "frame u v" using assms by (auto simp: ran_def intro: quiet_frame)
  have "frame s u" using f frame_trans by blast
  then have dv: "flash_device ecc cells u" using assms(1) frame_device by blast
  show ?thesis
    using assms(3) f frame_trans quiet_buffers [OF assms(2)] quiet_buffers [OF assms(4)]
      quiet_contents [OF assms(1,2)] quiet_contents [OF dv assms(4)] frame_fields(5,8) [OF f(1)]
    unfolding ran_def by (metis (no_types, lifting))
qed

lemma send:
  assumes dv: "flash_device ecc cells s"
  shows "\<exists>s'. FNandSendCmd ty s = Some (FT_SUCCESS, s') \<and> ran ecc cells s s'"
proof -
  define s1 where "s1 = snd (FNAND_READREG FNAND_STATE_OFFSET (FNandHwReset s))"
  define s2 where "s2 = FNAND_SETBIT FNAND_MADDR1_OFFSET
      (ucast (drop_bit 32 (desc_addr s)) AND FNAND_MADDR1_DT_HIGH_8BITADDR_MASK)
      (FNAND_CLEARBIT FNAND_MADDR1_OFFSET FNAND_MADDR1_DT_HIGH_8BITADDR_MASK
        (FNAND_WRITEREG FNAND_MADDR0_OFFSET (ucast (desc_addr s) AND FNAND_MADDR0_DT_LOW_ADDR_MASK) s1))"
  define s3 where "s3 = (if work_mode s = FNAND_WORK_MODE_ISR
      then FNAND_CLEARBIT FNAND_INTRMASK_OFFSET (finish_intr ty) s2 else s2)"
  have q1: "quiet s s1" unfolding s1_def by (rule quiet_trans [OF quiet_HwReset quiet_READREG])
  have q2: "quiet s1 s2" unfolding s2_def
    by (rule quiet_trans [OF quiet_trans [OF quiet_WRITEREG quiet_CLEARBIT] quiet_SETBIT])
  have "quiet s2 s3" by (simp add: s3_def)
  then have q3: "quiet s s3" using q1 q2 quiet_trans by blast
  have d3: "flash_device ecc cells s3" using dv frame_device quiet_frame [OF q3] by blast
  note fld = frame_fields [OF quiet_frame [OF quiet_HwReset [of s]]] frame_fields [OF quiet_frame [OF q1]]
    frame_fields [OF quiet_frame [OF q2]] frame_fields [OF quiet_frame [OF q3]]
  have rdy: "is_ready s = FT_COMPONENT_IS_READY" using dv by (simp add: flash_device_def)
  have "prompt (FNandHwReset s)" using device_prompt [OF dv] quiet_prompt [OF quiet_HwReset] by blast
  from prompt_bits(1) [OF this]
  have busy: "FNandCheckBusy (FNandHwReset s) = Some (0, s1)"
    using rdy by (simp add: FNandCheckBusy_def fld s1_def case_prod_beta Let_def)
  have da: "desc_addr s1 = desc_addr s" "\<And>v. desc_addr (FNAND_WRITEREG FNAND_MADDR0_OFFSET v s1) = desc_addr s"
    "\<And>v w. desc_addr (FNAND_CLEARBIT FNAND_MADDR1_OFFSET w (FNAND_WRITEREG FNAND_MADDR0_OFFSET v s1)) = desc_addr s"
    using q1 by (auto simp: quiet_def FNAND_WRITEREG_def FNAND_CLEARBIT_def)
  have isr: "(if work_mode s2 = FNAND_WORK_MODE_ISR then FNandIsrEnable (finish_intr ty) s2 else Some s2) = Some s3"
    using rdy by (simp add: s3_def FNandIsrEnable_def fld)
  define s4 where "s4 = start_dma s3"
  note sd = start_dma_runs [OF d3, folded s4_def]
  have r4: "ran ecc cells s3 s4" using sd unfolding ran_def by blast
  have w4: "work_mode s4 = work_mode s" "wait_irq_fun_p s4 = wait_irq_fun_p s" "wait_irq s4 = wait_irq s"
    using frame_fields [OF sd(1)] fld by simp_all
  let ?w = "s4\<lparr>bus := emit (Call (WaitIrq (wait_irq_fun_p s4) (wait_args s4))) (bus s4)\<rparr>"
  have eq: "FNandSendCmd ty s = (if work_mode s = FNAND_WORK_MODE_ISR \<and> wait_irq_fun_p s \<noteq> 0
      then if wait_irq s (trace (bus ?w)) \<noteq> FT_SUCCESS then Some (FNAND_ERR_IRQ_OP_FAILED, ?w) else Some (FT_SUCCESS, ?w)
      else Some (poll_state (finish_mask ty) poll_limit s4))"
    using rdy unfolding FNandSendCmd_def Let_def busy
    by (simp add: busy da s2_def [symmetric] isr s4_def [symmetric] w4 cong: if_cong split del: if_split)
  show ?thesis
  proof (cases "work_mode s = FNAND_WORK_MODE_ISR \<and> wait_irq_fun_p s \<noteq> 0")
    case True
    then have "FNandSendCmd ty s = Some (FT_SUCCESS, ?w)" using dv by (simp add: eq flash_device_def waits_def)
    moreover have "quiet s4 ?w" by (rule quiet_emit) simp
    ultimately show ?thesis using ran_quiet [OF dv q3 r4] by blast
  next
    case False
    have "prompt s4" using device_prompt [OF d3] frame_device [OF sd(1)] d3 device_prompt by blast
    then have "FNandSendCmd ty s = Some (FT_SUCCESS, snd (FNAND_READREG FNAND_STATE_OFFSET s4))"
      using False poll_prompt unfolding eq by (auto split del: if_split)
    then show ?thesis using ran_quiet [OF dv q3 r4 quiet_READREG] by blast
  qed
qed

section \<open>Descriptors as the device reads them\<close>

lemma bytes_nat_simps [simp]:
  "bytes_nat [] = 0" "bytes_nat (b # bs) = unat b + 256 * bytes_nat bs"
  by (simp_all add: bytes_nat_def)

text \<open>The bytes of a word, lowest first, put together again.\<close>

lemma unat_byte: "unat (ucast (drop_bit (8 * k) (w :: 'a::len word)) :: u8) = unat w div 2 ^ (8 * k) mod 256"
proof -
  have "unat (drop_bit (8 * k) w) = unat w div 2 ^ (8 * k)"
    by (subst unat_drop_bit_eq) (rule drop_bit_eq_div)
  then show ?thesis by (simp add: unsigned_ucast_eq take_bit_eq_mod del: drop_bit_eq_div)
qed

lemma bytes_nat_word:
  "bytes_nat (map (\<lambda>i. ucast (drop_bit (8 * i) (w :: 'a::len word))) [0..<n]) = unat w mod 256 ^ n"
proof (induction n)
  case (Suc n)
  have app: "bytes_nat (xs @ [y]) = bytes_nat xs + 256 ^ length xs * unat y" for xs :: "u8 list" and y
    by (induction xs) (simp_all add: algebra_simps)
  have "unat w mod 256 ^ n + 256 ^ n * (unat w div 256 ^ n mod 256) = unat w mod (256 ^ n * 256)"
    by (metis add.commute mod_mult2_eq)
  moreover have "(2 :: nat) ^ (8 * n) = 256 ^ n" by (simp add: power_mult)
  ultimately show ?case using Suc by (simp add: app unat_byte) (simp add: mult.commute)
qed simp

text \<open>The row that is addressed for a page: three bytes of its number are sent.\<close>

definition row :: "u32 \<Rightarrow> nat" where
  "row page = unat page mod 2 ^ 24"

lemma row_bytes_nat: "bytes_nat (row_bytes page) = row page"
  using bytes_nat_word [where n = 3 and w = page] by (simp add: row_bytes_def row_def upt_rec)

lemma col_bytes_nat: "bytes_nat [ucast w, ucast (drop_bit 8 w)] = unat (w :: u32) mod 2 ^ 16"
  using bytes_nat_word [where n = 2 and w = w] by (simp add: upt_rec)

lemma ucast_AND_ff: "ucast (w AND 0xff :: u32) = (ucast w :: u8)" "ucast (v AND 0xff :: u64) = (ucast v :: u8)"
proof -
  have m: "(0xff :: u32) = mask 8" "(0xff :: u64) = mask 8" by (simp_all add: mask_eq_exp_minus_1)
  show "ucast (w AND 0xff :: u32) = (ucast w :: u8)" unfolding m by (rule bit_word_eqI) (simp add: bit_simps)
  show "ucast (v AND 0xff :: u64) = (ucast v :: u8)" unfolding m by (rule bit_word_eqI) (simp add: bit_simps)
qed

lemma addr_shift_keeps:
  "cmd0 (addr_shift ap i j d) = cmd0 d \<and> cmd1 (addr_shift ap i j d) = cmd1 d \<and>
   page_cnt (addr_shift ap i j d) = page_cnt d \<and> mem_addr_first (addr_shift ap i j d) = mem_addr_first d \<and>
   (\<exists>n. cmd_ctrl (addr_shift ap i j d) = (cmd_ctrl d)\<lparr>addr_cyc := n\<rparr>) \<and> length (addr (addr_shift ap i j d)) = length (addr d)"
proof (induction i arbitrary: j d)
  case 0
  show ?case by (auto intro!: exI [of _ "addr_cyc (cmd_ctrl d)"])
next
  case (Suc i)
  show ?case using Suc [of "j - 1" "d\<lparr>addr := (addr d)[j := ap ! i, i := 0],
          cmd_ctrl := (cmd_ctrl d)\<lparr>addr_cyc := addr_cyc (cmd_ctrl d) + 1\<rparr>\<rparr>"] by auto
qed

lemma addr_keeps:
  assumes "length (addr d) = 5" "\<forall>ap. a = Some ap \<longrightarrow> unat n \<ge> 5 \<longrightarrow> length ap = 5"
  shows "cmd0 (FNandAddrCorrect d a n) = cmd0 d" "cmd1 (FNandAddrCorrect d a n) = cmd1 d"
    "page_cnt (FNandAddrCorrect d a n) = page_cnt d" "mem_addr_first (FNandAddrCorrect d a n) = mem_addr_first d"
    "dbc (cmd_ctrl (FNandAddrCorrect d a n)) = dbc (cmd_ctrl d)"
    "length (addr (FNandAddrCorrect d a n)) = 5"
    "\<exists>k. cmd_ctrl (FNandAddrCorrect d a n) = (cmd_ctrl d)\<lparr>addr_cyc := k\<rparr>"
proof -
  let ?d = "d\<lparr>cmd_ctrl := (cmd_ctrl d)\<lparr>addr_cyc := 0\<rparr>\<rparr>"
  have k: "\<exists>k. cmd_ctrl d = (cmd_ctrl d)\<lparr>addr_cyc := k\<rparr>" by (rule exI [of _ "addr_cyc (cmd_ctrl d)"]) simp
  have *: "cmd0 (FNandAddrCorrect d a n) = cmd0 d \<and> cmd1 (FNandAddrCorrect d a n) = cmd1 d \<and>
    page_cnt (FNandAddrCorrect d a n) = page_cnt d \<and> mem_addr_first (FNandAddrCorrect d a n) = mem_addr_first d \<and>
    length (addr (FNandAddrCorrect d a n)) = 5 \<and> (\<exists>k. cmd_ctrl (FNandAddrCorrect d a n) = (cmd_ctrl d)\<lparr>addr_cyc := k\<rparr>)"
    using assms k addr_shift_keeps [of _ "unat n" 4 ?d]
    by (auto simp: FNandAddrCorrect_def FNAND_NFC_ADDR_MAX_LEN_def split: option.splits)
  then show "cmd0 (FNandAddrCorrect d a n) = cmd0 d" "cmd1 (FNandAddrCorrect d a n) = cmd1 d"
    "page_cnt (FNandAddrCorrect d a n) = page_cnt d" "mem_addr_first (FNandAddrCorrect d a n) = mem_addr_first d"
    "length (addr (FNandAddrCorrect d a n)) = 5"
    "\<exists>k. cmd_ctrl (FNandAddrCorrect d a n) = (cmd_ctrl d)\<lparr>addr_cyc := k\<rparr>" by blast+
  then obtain k where "cmd_ctrl (FNandAddrCorrect d a n) = (cmd_ctrl d)\<lparr>addr_cyc := k\<rparr>" by blast
  then show "dbc (cmd_ctrl (FNandAddrCorrect d a n)) = dbc (cmd_ctrl d)" by simp
qed

text \<open>The bytes given stand at the end of the address field in their order.\<close>

lemma addr_aligned:
  assumes "length (addr d) = 5" "unat len = n" "n \<le> length ap" "0 < n" "n \<le> 5"
  shows "drop (5 - n) (addr (FNandAddrCorrect d (Some ap) len)) = take n ap \<and>
    addr_cyc (cmd_ctrl (FNandAddrCorrect d (Some ap) len)) = of_nat n"
proof -
  obtain a0 a1 a2 a3 a4 where a: "addr d = [a0, a1, a2, a3, a4]"
    using assms(1) by (auto simp: numeral_eq_Suc length_Suc_conv)
  have n: "n = Suc 0 \<or> n = Suc (Suc 0) \<or> n = Suc (Suc (Suc 0)) \<or> n = Suc (Suc (Suc (Suc 0))) \<or> n = 5"
    using assms(4,5) by auto
  have len: "len \<noteq> 0" using assms(2,4) by auto
  let ?d = "d\<lparr>cmd_ctrl := (cmd_ctrl d)\<lparr>addr_cyc := 0\<rparr>\<rparr>"
  have e: "FNandAddrCorrect d (Some ap) len = (if 5 \<le> n then d\<lparr>addr := take 5 ap, cmd_ctrl := (cmd_ctrl d)\<lparr>addr_cyc := 5\<rparr>\<rparr>
      else addr_shift ap n (Suc (Suc (Suc (Suc 0)))) ?d)"
    using len by (simp add: FNandAddrCorrect_def FNAND_NFC_ADDR_MAX_LEN_def assms(2) eval_nat_numeral)
  have t: "take (Suc k) ap = take k ap @ [ap ! k]" if "Suc k \<le> n" for k
    using that assms(3) by (simp add: take_Suc_conv_app_nth)
  from n show ?thesis by (elim disjE; simp add: e a t eval_nat_numeral)
qed

text \<open>
  Addresses are right aligned in a descriptor: the bytes given stand at the end of the address
  field in their order, and the number of address cycles is their number.
\<close>

theorem address_right_aligned:
  assumes "length (addr d) = 5" "length ap = n" "0 < n" "n \<le> 5"
  shows "drop (5 - n) (addr (FNandAddrCorrect d (Some ap) (of_nat n))) = ap \<and>
    addr_cyc (cmd_ctrl (FNandAddrCorrect d (Some ap) (of_nat n))) = of_nat n"
  using addr_aligned [of d "of_nat n" n ap] assms unat_of_nat_32 [of n] by simp

theorem address_right_aligned_witness:
  "drop 3 (addr (FNandAddrCorrect no_descriptor (Some [0x12, 0x34]) (of_nat 2))) = [0x12, 0x34]"
  using address_right_aligned [of no_descriptor "[0x12, 0x34]" 2] by (simp add: no_descriptor_def)

text \<open>The case of an address of five bytes, of the three bytes of a row, of the two of a column.\<close>

lemma addr_five: "length (addr d) = 5 \<Longrightarrow> length ap = 5 \<Longrightarrow>
    addr (FNandAddrCorrect d (Some ap) 5) = ap \<and> addr_cyc (cmd_ctrl (FNandAddrCorrect d (Some ap) 5)) = 5"
  using addr_aligned [of d 5 5 ap] by simp

lemma addr_three: "length (addr d) = 5 \<Longrightarrow> drop 2 (addr (FNandAddrCorrect d (Some [a, b, c]) 3)) = [a, b, c]"
  using addr_aligned [of d 3 3 "[a, b, c]"] by simp

lemma addr_two: "length (addr d) = 5 \<Longrightarrow> drop 3 (addr (FNandAddrCorrect d (Some (a # b # xs)) 2)) = [a, b]
    \<and> addr_cyc (cmd_ctrl (FNandAddrCorrect d (Some (a # b # xs)) 2)) = 2"
  using addr_aligned [of d 2 2 "a # b # xs"] by simp

lemma pack_view:
  fixes fmt :: FNandCmdFormat
  assumes "length (addr d) = 5" "\<forall>ap. addr_p pd = Some ap \<longrightarrow> unat (addr_length pd) \<ge> 5 \<longrightarrow> length ap = 5"
  defines "p \<equiv> FNandDmaPack fmt d pd"
  shows "cmd0 p = (if end_cmd fmt = 0xfff then 0 else ucast (start_cmd fmt))"
    "cmd1 p = (if end_cmd fmt = 0xfff then ucast (start_cmd fmt) else ucast (end_cmd fmt))"
    "dbc (cmd_ctrl p) = (if end_cmd fmt = 0xfff then 0 else 1)"
    "nc (cmd_ctrl p) = (if contiune_dma pd \<noteq> 0 then 1 else 0)"
    "dc (cmd_ctrl p) = (if phy_address pd \<noteq> 0 \<and> 0 < phy_bytes_length pd then 1 else 0)"
    "phy_address pd \<noteq> 0 \<Longrightarrow> 0 < phy_bytes_length pd \<Longrightarrow> page_cnt p = ucast (phy_bytes_length pd)"
    "phy_address pd \<noteq> 0 \<Longrightarrow> 0 < phy_bytes_length pd \<Longrightarrow>
       mem_addr_first p = map (\<lambda>i. ucast (drop_bit (8 * i) (phy_address pd))) [0..<5]"
    "length (addr p) = 5"
    "\<exists>d'. length (addr d') = 5 \<and> addr p = addr (FNandAddrCorrect d' (addr_p pd) (addr_length pd)) \<and>
       addr_cyc (cmd_ctrl p) = addr_cyc (cmd_ctrl (FNandAddrCorrect d' (addr_p pd) (addr_length pd)))"
proof -
  define d1 where "d1 = (let d = d\<lparr>cmd_ctrl := zero_ctrl\<rparr> in
      if end_cmd fmt = TOGGLE_END_CMD_NONE then d\<lparr>cmd1 := ucast (start_cmd fmt), cmd0 := 0\<rparr>
      else d\<lparr>cmd0 := ucast (start_cmd fmt), cmd1 := ucast (end_cmd fmt), cmd_ctrl := (cmd_ctrl d)\<lparr>dbc := 1\<rparr>\<rparr>)"
  define d2 where "d2 = FNandAddrCorrect d1 (addr_p pd) (addr_length pd)"
  have a1: "length (addr d1) = 5" using assms(1) by (simp add: d1_def Let_def)
  note k = addr_keeps [OF a1 assms(2), folded d2_def]
  obtain n where n: "cmd_ctrl d2 = (cmd_ctrl d1)\<lparr>addr_cyc := n\<rparr>" using k(7) by blast
  have c1: "cmd0 d1 = (if end_cmd fmt = 0xfff then 0 else ucast (start_cmd fmt))"
    "cmd1 d1 = (if end_cmd fmt = 0xfff then ucast (start_cmd fmt) else ucast (end_cmd fmt))"
    "dbc (cmd_ctrl d1) = (if end_cmd fmt = 0xfff then 0 else 1)" "nc (cmd_ctrl d1) = 0" "dc (cmd_ctrl d1) = 0"
    by (simp_all add: d1_def Let_def TOGGLE_END_CMD_NONE_def zero_ctrl_def)
  have p: "p = (let d = d2\<lparr>cmd_ctrl := (cmd_ctrl d2)\<lparr>cmd_type := ucast (fmt_cmd_type fmt)\<rparr>\<rparr>;
          d = (if contiune_dma pd \<noteq> 0 then d\<lparr>cmd_ctrl := (cmd_ctrl d)\<lparr>nc := 1\<rparr>\<rparr> else d);
          d = d\<lparr>cmd_ctrl := (cmd_ctrl d)\<lparr>csel := ucast (0xf XOR push_bit (unat (pack_chip_addr pd)) (1 :: u32))\<rparr>\<rparr>;
          d = (if phy_address pd \<noteq> 0 \<and> 0 < phy_bytes_length pd
               then d\<lparr>cmd_ctrl := (cmd_ctrl d)\<lparr>dc := 1\<rparr>,
                      mem_addr_first := map (\<lambda>i. ucast (drop_bit (8 * i) (phy_address pd) AND 0xff)) [0..<FNAND_NFC_ADDR_MAX_LEN],
                      page_cnt := ucast (phy_bytes_length pd)\<rparr>
               else d);
          d = (if fmt_auto_rs fmt \<noteq> 0 then d\<lparr>cmd_ctrl := (cmd_ctrl d)\<lparr>auto_rs := 1\<rparr>\<rparr> else d)
      in if fmt_ecc_en fmt \<noteq> 0 then d\<lparr>cmd_ctrl := (cmd_ctrl d)\<lparr>ecc_en := 1\<rparr>\<rparr> else d)"
    unfolding p_def FNandDmaPack_def d2_def d1_def by (simp only: Let_def)
  show "cmd0 p = (if end_cmd fmt = 0xfff then 0 else ucast (start_cmd fmt))"
    "cmd1 p = (if end_cmd fmt = 0xfff then ucast (start_cmd fmt) else ucast (end_cmd fmt))"
    "dbc (cmd_ctrl p) = (if end_cmd fmt = 0xfff then 0 else 1)"
    "nc (cmd_ctrl p) = (if contiune_dma pd \<noteq> 0 then 1 else 0)"
    "dc (cmd_ctrl p) = (if phy_address pd \<noteq> 0 \<and> 0 < phy_bytes_length pd then 1 else 0)"
    "length (addr p) = 5"
    by (simp_all add: p Let_def k c1 n)
  show "page_cnt p = ucast (phy_bytes_length pd)"
    "mem_addr_first p = map (\<lambda>i. ucast (drop_bit (8 * i) (phy_address pd))) [0..<5]"
    if "phy_address pd \<noteq> 0" "0 < phy_bytes_length pd"
    using that by (simp_all add: p Let_def ucast_AND_ff FNAND_NFC_ADDR_MAX_LEN_def)
  show "\<exists>d'. length (addr d') = 5 \<and> addr p = addr (FNandAddrCorrect d' (addr_p pd) (addr_length pd)) \<and>
       addr_cyc (cmd_ctrl p) = addr_cyc (cmd_ctrl (FNandAddrCorrect d' (addr_p pd) (addr_length pd)))"
    by (rule exI [of _ d1]) (simp add: a1 p Let_def d2_def)
qed

end
