(* ===== verification/NandPage.thy ===== *)
theory NandPage
  imports NandChip
begin

text \<open>
  The page operations on a flash: what each does to the contents and which bytes it returns. All of
  them satisfy the contract \<open>page_op\<close>: they succeed, change the contents by a function of the
  contents alone, return a function of the contents, and leave everything else of the driver as it
  was apart from the buffers shared with the controller.
\<close>

section \<open>Fields of the packed descriptors\<close>

declare cmd_format.simps [simp del]

lemma mem_of_packed:
  assumes "mem_addr_first d = map (\<lambda>i. ucast (drop_bit (8 * i) phy)) [0..<5]"
    and "unat phy = unat base + off" "unat base + off < 2 ^ 40"
  shows "mem_of base d = off"
  using assms bytes_nat_word [where n = 5 and w = phy] by (simp add: mem_of_def)

lemma view5:
  fixes fmt :: FNandCmdFormat and c0 c1 cont :: u8 and page chip :: u32
  assumes "length (addr d) = 5" "phy \<noteq> 0" "0 < n" "unat n < 2 ^ 16"
    and "unat phy = unat base + off" "unat base + off < 2 ^ 40"
  defines "p \<equiv> FNandDmaPack fmt d (pack_data (Some ([c0, c1] @ row_bytes page)) 5 phy n chip cont)"
  shows "row_of p = row page" "col_of p = bytes_nat [c0, c1]" "mem_of base p = off" "cnt_of p = unat n"
    "length (addr p) = 5"
proof -
  let ?pd = "pack_data (Some ([c0, c1] @ row_bytes page)) 5 phy n chip cont"
  have ok: "\<forall>ap. addr_p ?pd = Some ap \<longrightarrow> unat (addr_length ?pd) \<ge> 5 \<longrightarrow> length ap = 5"
    by (simp add: pack_data_def row_bytes_def)
  note v = pack_view [OF assms(1) ok, of fmt, folded p_def]
  obtain d' where d': "length (addr d') = 5" "addr p = addr (FNandAddrCorrect d' (Some ([c0, c1] @ row_bytes page)) 5)"
    "addr_cyc (cmd_ctrl p) = addr_cyc (cmd_ctrl (FNandAddrCorrect d' (Some ([c0, c1] @ row_bytes page)) 5))"
    using v(9) by (auto simp: pack_data_def)
  have a: "addr p = [c0, c1] @ row_bytes page" "addr_cyc (cmd_ctrl p) = 5"
    using addr_five [OF d'(1), of "[c0, c1] @ row_bytes page"] d'(2,3) by (simp_all add: row_bytes_def)
  show "row_of p = row page" by (simp add: row_of_def a row_bytes_nat)
  show "col_of p = bytes_nat [c0, c1]" by (simp add: col_of_def a)
  show "cnt_of p = unat n" using v(5,6) assms(2-4) unat_ucast_small [of n, where 'b = 16] by (simp add: cnt_of_def pack_data_def)
  show "mem_of base p = off" using v(7) assms(2,3) by (intro mem_of_packed [OF _ assms(5,6)]) (simp add: pack_data_def)
  show "length (addr p) = 5" by (rule v(8))
qed

lemma view3:
  fixes fmt :: FNandCmdFormat and cont :: u8 and page chip :: u32
  assumes "length (addr d) = 5"
  defines "p \<equiv> FNandDmaPack fmt d (pack_data (Some (row_bytes page)) 3 0 0 chip cont)"
  shows "row_of p = row page" "length (addr p) = 5"
proof -
  let ?pd = "pack_data (Some (row_bytes page)) 3 0 0 chip cont"
  have ok: "\<forall>ap. addr_p ?pd = Some ap \<longrightarrow> unat (addr_length ?pd) \<ge> 5 \<longrightarrow> length ap = 5" by (simp add: pack_data_def)
  note v = pack_view [OF assms(1) ok, of fmt, folded p_def]
  obtain d' where d': "length (addr d') = 5" "addr p = addr (FNandAddrCorrect d' (Some (row_bytes page)) 3)"
    using v(9) by (auto simp: pack_data_def)
  have "drop 2 (addr p) = row_bytes page" using addr_three [OF d'(1)] d'(2) by (simp add: row_bytes_def)
  then show "row_of p = row page" by (simp add: row_of_def row_bytes_nat)
  show "length (addr p) = 5" by (rule v(8))
qed

lemma view2:
  fixes fmt :: FNandCmdFormat and x y z cont :: u8 and col chip :: u32
  assumes "length (addr d) = 5" "phy \<noteq> 0" "unat n < 2 ^ 16"
    and "unat phy = unat base + off" "unat base + off < 2 ^ 40"
  defines "p \<equiv> FNandDmaPack fmt d (pack_data (Some [ucast col, ucast (drop_bit 8 col), x, y, z]) 2 phy n chip cont)"
  shows "col_of p = unat (col :: u32) mod 2 ^ 16" "cnt_of p = unat n" "0 < n \<Longrightarrow> mem_of base p = off"
    "length (addr p) = 5"
proof -
  let ?a = "[ucast col, ucast (drop_bit 8 col), x, y, z]"
  let ?pd = "pack_data (Some ?a) 2 phy n chip cont"
  have ok: "\<forall>ap. addr_p ?pd = Some ap \<longrightarrow> unat (addr_length ?pd) \<ge> 5 \<longrightarrow> length ap = 5" by (simp add: pack_data_def)
  note v = pack_view [OF assms(1) ok, of fmt, folded p_def]
  obtain d' where d': "length (addr d') = 5" "addr p = addr (FNandAddrCorrect d' (Some ?a) 2)"
    "addr_cyc (cmd_ctrl p) = addr_cyc (cmd_ctrl (FNandAddrCorrect d' (Some ?a) 2))"
    using v(9) by (auto simp: pack_data_def)
  have "drop 3 (addr p) = [ucast col, ucast (drop_bit 8 col)]" "addr_cyc (cmd_ctrl p) = 2"
    using addr_two [OF d'(1), of "ucast col"] d'(2,3) by simp_all
  then show "col_of p = unat col mod 2 ^ 16" using col_bytes_nat [of col] by (simp add: col_of_def)
  show "cnt_of p = unat n"
    using v(5,6) assms(2,3) unat_ucast_small [of n, where 'b = 16]
    by (cases "n = 0") (simp_all add: cnt_of_def pack_data_def word_gt_0)
  show "mem_of base p = off" if "0 < n"
    using v(7) assms(2) that by (intro mem_of_packed [OF _ assms(4,5)]) (simp add: pack_data_def)
  show "length (addr p) = 5" by (rule v(8))
qed

lemma pack_commands:
  fixes phy :: uintptr and n chip :: u32 and cont :: u8
  assumes "length (addr d) = 5" "\<forall>ap. a = Some ap \<longrightarrow> unat len \<ge> 5 \<longrightarrow> length ap = 5"
  defines "p \<equiv> \<lambda>c. FNandDmaPack (cmd_format c) d (pack_data a len phy n chip cont)"
  shows "cmd0 (p CMD_READ_OPTION_NEW) = 0x00" "cmd1 (p CMD_READ_OPTION_NEW) = 0x30" "dbc (cmd_ctrl (p CMD_READ_OPTION_NEW)) = 1"
    "cmd0 (p CMD_RANDOM_DATA_OUT) = 0x05" "cmd1 (p CMD_RANDOM_DATA_OUT) = 0xE0" "dbc (cmd_ctrl (p CMD_RANDOM_DATA_OUT)) = 1"
    "cmd0 (p CMD_PAGE_PROGRAM) = 0x80" "cmd1 (p CMD_PAGE_PROGRAM) = 0x10" "dbc (cmd_ctrl (p CMD_PAGE_PROGRAM)) = 1"
    "cmd1 (p CMD_PAGE_PROGRAM_WITH_OTHER) = 0x80" "dbc (cmd_ctrl (p CMD_PAGE_PROGRAM_WITH_OTHER)) = 0"
    "cmd0 (p CMD_COPY_BACK_PROGRAM) = 0x85" "cmd1 (p CMD_COPY_BACK_PROGRAM) = 0x10" "dbc (cmd_ctrl (p CMD_COPY_BACK_PROGRAM)) = 1"
    "cmd0 (p CMD_BLOCK_ERASE) = 0x60" "cmd1 (p CMD_BLOCK_ERASE) = 0xD0" "dbc (cmd_ctrl (p CMD_BLOCK_ERASE)) = 1"
    "cmd1 (p CMD_READ_STATUS) = 0x70" "dbc (cmd_ctrl (p CMD_READ_STATUS)) = 0"
    "nc (cmd_ctrl (p c)) = (if cont \<noteq> 0 then 1 else 0)"
proof -
  have ok: "\<forall>ap. addr_p (pack_data a len phy n chip cont) = Some ap \<longrightarrow>
      unat (addr_length (pack_data a len phy n chip cont)) \<ge> 5 \<longrightarrow> length ap = 5"
    using assms(2) by (simp add: pack_data_def)
  note v = pack_view(1-4) [OF assms(1) ok]
  show "cmd0 (p CMD_READ_OPTION_NEW) = 0x00" "cmd1 (p CMD_READ_OPTION_NEW) = 0x30" "dbc (cmd_ctrl (p CMD_READ_OPTION_NEW)) = 1"
    "cmd0 (p CMD_RANDOM_DATA_OUT) = 0x05" "cmd1 (p CMD_RANDOM_DATA_OUT) = 0xE0" "dbc (cmd_ctrl (p CMD_RANDOM_DATA_OUT)) = 1"
    "cmd0 (p CMD_PAGE_PROGRAM) = 0x80" "cmd1 (p CMD_PAGE_PROGRAM) = 0x10" "dbc (cmd_ctrl (p CMD_PAGE_PROGRAM)) = 1"
    "cmd1 (p CMD_PAGE_PROGRAM_WITH_OTHER) = 0x80" "dbc (cmd_ctrl (p CMD_PAGE_PROGRAM_WITH_OTHER)) = 0"
    "cmd0 (p CMD_COPY_BACK_PROGRAM) = 0x85" "cmd1 (p CMD_COPY_BACK_PROGRAM) = 0x10" "dbc (cmd_ctrl (p CMD_COPY_BACK_PROGRAM)) = 1"
    "cmd0 (p CMD_BLOCK_ERASE) = 0x60" "cmd1 (p CMD_BLOCK_ERASE) = 0xD0" "dbc (cmd_ctrl (p CMD_BLOCK_ERASE)) = 1"
    "cmd1 (p CMD_READ_STATUS) = 0x70" "dbc (cmd_ctrl (p CMD_READ_STATUS)) = 0"
    "nc (cmd_ctrl (p c)) = (if cont \<noteq> 0 then 1 else 0)"
    by (simp_all add: p_def v mk_format_def cmd_format.simps) (simp add: pack_data_def)
qed

section \<open>Status, waiting, erasing\<close>

definition pd_ok :: "FNandDmaPackData \<Rightarrow> bool" where
  "pd_ok pd \<longleftrightarrow> (\<forall>ap. addr_p pd = Some ap \<longrightarrow> unat (addr_length pd) \<ge> 5 \<longrightarrow> length ap = 5)"

lemma pack_slot_frame:
  assumes "flash_device ecc cells s" "pd_ok pd"
  shows "frame s (pack_slot k fmt pd s)" "contents cells (pack_slot k fmt pd s) = contents cells s"
    "dma_data_buffer (pack_slot k fmt pd s) = dma_data_buffer s"
proof -
  let ?ds = "(descriptor_buffer s)(k := FNandDmaPack fmt (descriptor_buffer s k) pd)"
  have "length (addr (descriptor_buffer s k)) = 5" using assms(1) by (simp add: flash_device_def descs_ok_def)
  then have "length (addr (FNandDmaPack fmt (descriptor_buffer s k) pd)) = 5"
    using pack_view(8) assms(2) by (simp add: pd_ok_def)
  then have "descs_ok ?ds" using assms(1) by (simp add: flash_device_def descs_ok_def)
  then show "frame s (pack_slot k fmt pd s)"
    by (intro frameI [where h = "trace (bus s)" and m = "dma_data_buffer s" and ds = ?ds]) (simp_all add: pack_slot_def)
qed (simp_all add: pack_slot_def contents_def)

lemma clear_frame:
  "frame s (clear_descriptor s)" "contents cells (clear_descriptor s) = contents cells s"
  by (rule frameI [where h = "trace (bus s)" and m = "dma_data_buffer s"
        and ds = "\<lambda>k. if k < 8 then no_descriptor else descriptor_buffer s k"])
    (simp_all add: clear_descriptor_def descs_ok_def no_descriptor_def contents_def)

lemma data_frame:
  "frame s (s\<lparr>dma_data_buffer := m\<rparr>)" "contents cells (s\<lparr>dma_data_buffer := m\<rparr>) = contents cells s"
  by (rule frameI [where h = "trace (bus s)" and m = m and ds = "descriptor_buffer s"]) (simp_all add: contents_def)

text \<open>A command sent after its descriptor has been packed.\<close>

lemma pack_send:
  assumes dv: "flash_device ecc cells s" and pd: "pd_ok pd"
  shows "\<exists>s'. FNandSendCmd ty (pack_slot 0 fmt pd s) = Some (FT_SUCCESS, s') \<and> frame s s' \<and>
    (contents cells s', dma_data_buffer s') =
      nand_run (unat (pages_per_block (nand_geometry s 0))) (data_addr s) ecc
        ((descriptor_buffer s)(0 := FNandDmaPack fmt (descriptor_buffer s 0) pd)) (contents cells s, dma_data_buffer s)"
proof -
  note p = pack_slot_frame [OF dv pd, of 0 fmt]
  obtain s' where s': "FNandSendCmd ty (pack_slot 0 fmt pd s) = Some (FT_SUCCESS, s')" "ran ecc cells (pack_slot 0 fmt pd s) s'"
    using send [OF frame_device [OF p(1) dv]] by blast
  show ?thesis using s' p frame_trans frame_fields(5,8) [OF p(1)]
    unfolding ran_def by (auto simp: pack_slot_def contents_def)
qed

lemma device_desc: "flash_device ecc cells s \<Longrightarrow> length (addr (descriptor_buffer s k)) = 5"
  by (simp add: flash_device_def descs_ok_def)

lemma SUCCESS_not_BUSY [simp]: "FT_SUCCESS \<noteq> FNAND_IS_BUSY" "FNAND_IS_BUSY \<noteq> FT_SUCCESS"
  by (simp_all add: nand_error_defs)

lemma mem_of_base:
  assumes "flash_device ecc cells s" "mem_addr_first d = map (\<lambda>i. ucast (drop_bit (8 * i) (data_addr s))) [0..<5]"
  shows "mem_of (data_addr s) d = 0"
  using assms by (intro mem_of_packed [of d "data_addr s"]) (simp_all add: flash_device_def)

lemma read_status:
  assumes dv: "flash_device ecc cells s"
  shows "\<exists>s'. FNandFlashReadStatus chip s = Some (FT_SUCCESS, s') \<and> frame s s' \<and> contents cells s' = contents cells s"
proof -
  let ?s = "clear_descriptor s" and ?pd = "pack_data None 0 (data_addr s) 4 chip 0"
  let ?d = "FNandDmaPack (cmd_format CMD_READ_STATUS) (descriptor_buffer ?s 0) ?pd"
  have dv1: "flash_device ecc cells ?s" using frame_device [OF clear_frame(1) dv] .
  have da: "data_addr ?s = data_addr s" by (simp add: clear_descriptor_def)
  note l = device_desc [OF dv1, of 0]
  have pd: "pd_ok ?pd" by (simp add: pd_ok_def pack_data_def)
  note v = pack_view [OF l pd [unfolded pd_ok_def], of "cmd_format CMD_READ_STATUS"]
  have na: "data_addr s \<noteq> 0" using dv by (simp add: flash_device_def)
  have d: "dbc (cmd_ctrl ?d) = 0" "cmd1 ?d = 0x70" "nc (cmd_ctrl ?d) = 0" "cnt_of ?d = 4" "mem_of (data_addr s) ?d = 0"
    using v na mem_of_base [OF dv1, of ?d] da by (simp_all add: mk_format_def cmd_format.simps pack_data_def cnt_of_def)
  obtain s' where s': "FNandSendCmd FNAND_READ_PAGE_TYPE (pack_slot 0 (cmd_format CMD_READ_STATUS) ?pd ?s) = Some (FT_SUCCESS, s')"
    "frame ?s s'" "(contents cells s', dma_data_buffer s') =
      nand_run (unat (pages_per_block (nand_geometry ?s 0))) (data_addr ?s) ecc
        ((descriptor_buffer ?s)(0 := ?d)) (contents cells ?s, dma_data_buffer ?s)"
    using pack_send [OF dv1 pd] by blast
  have r: "contents cells s' = contents cells s" "dma_data_buffer s' 0 = 0xe0"
    using s'(3) d clear_frame(2) [of cells s] by (simp_all add: nand_run_def nand_exec_def da memset_def Let_def)
  have "FNandFlashReadStatus chip s = Some (FT_SUCCESS, s')"
    using s'(1) r(2) by (simp add: FNandFlashReadStatus_def Let_def da)
  then show ?thesis using r(1) frame_trans [OF clear_frame(1) s'(2)] by blast
qed

lemma wait_io_idle_ends:
  assumes "flash_device ecc cells s"
  shows "\<exists>s'. wait_io_idle chip s = Some s' \<and> frame s s' \<and> contents cells s' = contents cells s"
  using read_status [OF assms, of chip] by (subst wait_io_idle.simps) auto

lemma wait_not_busy_ends:
  assumes "flash_device ecc cells s"
  shows "\<exists>s'. wait_not_busy s = Some s' \<and> frame s s' \<and> contents cells s' = contents cells s"
proof -
  have "wait_not_busy s = Some (snd (FNAND_READREG FNAND_STATE_OFFSET s))"
    using prompt_bits(1) [OF device_prompt [OF assms]] by (subst wait_not_busy.simps) (simp add: case_prod_beta Let_def)
  then show ?thesis using quiet_frame [OF quiet_READREG] quiet_contents [OF assms quiet_READREG] by blast
qed

lemma erase_page:
  assumes dv: "flash_device ecc cells s"
  shows "\<exists>s'. FNandFlashEraseBlock page chip s = Some (FT_SUCCESS, s') \<and> frame s s' \<and>
    contents cells s' = erase_block (unat (pages_per_block (nand_geometry s 0))) (row page) (contents cells s)"
proof -
  obtain s1 where s1: "wait_io_idle chip s = Some s1" "frame s s1" "contents cells s1 = contents cells s"
    using wait_io_idle_ends [OF dv] by blast
  have dv1: "flash_device ecc cells s1" using frame_device [OF s1(2) dv] .
  let ?pd = "pack_data (Some (row_bytes page)) 3 0 0 chip 0"
  let ?d = "FNandDmaPack (cmd_format CMD_BLOCK_ERASE) (descriptor_buffer s1 0) ?pd"
  note l = device_desc [OF dv1, of 0]
  have pd: "pd_ok ?pd" by (simp add: pd_ok_def pack_data_def)
  have ok: "\<forall>ap. Some (row_bytes page) = Some ap \<longrightarrow> unat (3 :: u32) \<ge> 5 \<longrightarrow> length ap = 5" by simp
  obtain s2 where s2: "FNandSendCmd FNAND_CMD_TYPE (pack_slot 0 (cmd_format CMD_BLOCK_ERASE) ?pd s1) = Some (FT_SUCCESS, s2)"
    "frame s1 s2" "(contents cells s2, dma_data_buffer s2) =
      nand_run (unat (pages_per_block (nand_geometry s1 0))) (data_addr s1) ecc
        ((descriptor_buffer s1)(0 := ?d)) (contents cells s1, dma_data_buffer s1)"
    using pack_send [OF dv1 pd] by blast
  have c2: "contents cells s2 = erase_block (unat (pages_per_block (nand_geometry s 0))) (row page) (contents cells s)"
    using s2(3) s1(3) pack_commands [OF l ok] view3(1) [OF l] frame_fields(5) [OF s1(2)]
    by (simp add: nand_run_def nand_exec_def Let_def)
  have dv2: "flash_device ecc cells s2" using frame_device [OF s2(2) dv1] .
  obtain s3 where s3: "wait_not_busy s2 = Some s3" "frame s2 s3" "contents cells s3 = contents cells s2"
    using wait_not_busy_ends [OF dv2] by blast
  have "FNandFlashEraseBlock page chip s = Some (FT_SUCCESS, s3)"
    by (simp add: FNandFlashEraseBlock_def s1 s2 s3)
  then show ?thesis using s3 c2 frame_trans s1(2) s2(2) by metis
qed

section \<open>Reading and writing a page\<close>

definition geom_ok :: "FNandNandGeometry \<Rightarrow> bool" where
  "geom_ok g \<longleftrightarrow> 0 < bytes_per_page g \<and> unat (bytes_per_page g) + unat (spare_bytes_per_page g) \<le> 2 ^ 15 \<and>
     0 < spare_bytes_per_page g \<and> unat (spare_bytes_per_page g) \<le> 1024 \<and>
     unat (ecc_offset g) + unat (hw_ecc_length g) \<le> unat (spare_bytes_per_page g)"

text \<open>The number of bytes copied: what is asked for, up to the end of the area.\<close>

lemma clipped:
  assumes "off \<le> (n :: u32)"
  shows "unat (if len > n - off then n - off else len) = min (unat len) (unat n - unat off)"
    "unat (if n - off > len then len else n - off) = min (unat len) (unat n - unat off)"
    "unat (if n - off < len then n - off else len) = min (unat len) (unat n - unat off)"
  using assms by (auto simp: word_less_nat_alt word_le_nat_alt unat_sub min_def)

lemma dma_max: "unat FNAND_DMA_MAX_LENGTH = 2 ^ 15"
  by (simp add: FNAND_DMA_MAX_LENGTH_def)

lemma memcpy_zero [simp]: "memcpy d k a x 0 = d"
  by (auto simp: memcpy_def fun_eq_iff)

lemma memset_zero [simp]: "memset d k v 0 = d"
  by (auto simp: memset_def fun_eq_iff)

lemma copy_out_eq: "off + n \<le> 2 ^ 15 \<Longrightarrow> copy_out dst off n s = Some (memcpy dst 0 (dma_data_buffer s) off n)"
  by (simp add: copy_out_def dma_max)

lemma copy_in_eq: "off + n \<le> 2 ^ 15 \<Longrightarrow>
    copy_in off (Some m) n s = Some (s\<lparr>dma_data_buffer := memcpy (dma_data_buffer s) off m 0 n\<rparr>)"
  by (simp add: copy_in_def dma_max)

lemma fill_eq: "off + n \<le> 2 ^ 15 \<Longrightarrow> fill off v n s = Some (s\<lparr>dma_data_buffer := memset (dma_data_buffer s) off v n\<rparr>)"
  by (simp add: fill_def dma_max)

lemma read_out_eq:
  assumes "off \<le> n" "unat n \<le> 2 ^ 15"
  shows "read_out n (Some buf) off len s =
    Some (FT_SUCCESS, Some (memcpy buf 0 (dma_data_buffer s) (unat off) (min (unat len) (unat n - unat off))), s)"
proof -
  have "unat off \<le> unat n" using assms(1) by (simp add: word_le_nat_alt)
  then have "unat off + min (unat len) (unat n - unat off) \<le> 2 ^ 15" using assms(2) by simp
  from copy_out_eq [OF this, of buf s] show ?thesis
    by (cases "len = 0") (simp_all add: read_out_def clipped(1) [OF assms(1)] split del: if_split)
qed

lemma memcpy_cong:
  assumes "\<And>i. i < n \<Longrightarrow> a (x + i) = b (y + i)"
  shows "memcpy d k a x n = memcpy d k b y n"
proof (rule ext)
  fix i
  show "memcpy d k a x n i = memcpy d k b y n i"
    using assms [of "i - k"] unfolding memcpy_def by (cases "k \<le> i \<and> i < k + n") auto
qed

text \<open>The column of the spare area.\<close>

lemma oob_col: "unat (n :: u32) < 2 ^ 16 \<Longrightarrow> bytes_nat [ucast (n AND 0xff), ucast (drop_bit 8 n AND 0xff)] = unat n"
  using col_bytes_nat [of n] by (simp only: ucast_AND_ff) simp

lemma spare_limit: "geom_ok g \<Longrightarrow> unat (bytes_per_page g) < 2 ^ 16 \<and> unat (spare_bytes_per_page g) < 2 ^ 16"
  by (auto simp: geom_ok_def)

lemma base_addr: "flash_device ecc cells s \<Longrightarrow> off < 2 ^ 15 \<Longrightarrow> unat (data_addr s) + off < 2 ^ 40"
  by (simp add: flash_device_def)

lemma base_nonzero: "flash_device ecc cells s \<Longrightarrow> data_addr s \<noteq> 0"
  by (simp add: flash_device_def)

lemma read_oob:
  assumes dv: "flash_device ecc cells s" and g: "geom_ok (nand_geometry s chip)"
    and off: "off \<le> spare_bytes_per_page (nand_geometry s chip)"
  shows "\<exists>s'. FNandPageReadOOb page (Some buf) off len chip s =
      Some (FT_SUCCESS, Some (memcpy buf 0 (contents cells s (row page))
        (unat (bytes_per_page (nand_geometry s chip)) + unat off)
        (min (unat len) (unat (spare_bytes_per_page (nand_geometry s chip)) - unat off))), s')
    \<and> frame s s' \<and> contents cells s' = contents cells s"
proof -
  let ?n = "bytes_per_page (nand_geometry s chip)" and ?sp = "spare_bytes_per_page (nand_geometry s chip)"
  let ?a = "[ucast (?n AND 0xff), ucast (drop_bit 8 ?n AND 0xff)] :: u8 list"
  let ?pd = "pack_data (Some (?a @ row_bytes page)) 5 (data_addr s) ?sp chip 0"
  let ?d = "FNandDmaPack (cmd_format CMD_READ_OPTION_NEW) (descriptor_buffer s 0) ?pd"
  note l = device_desc [OF dv, of 0]
  have lim: "unat ?n < 2 ^ 16" "unat ?sp < 2 ^ 16" using spare_limit [OF g] by auto
  have pd: "pd_ok ?pd" by (simp add: pd_ok_def pack_data_def row_bytes_def)
  have ok: "\<forall>ap. Some (?a @ row_bytes page) = Some ap \<longrightarrow> unat (5 :: u32) \<ge> 5 \<longrightarrow> length ap = 5" by (simp add: row_bytes_def)
  have b: "unat (data_addr s) = unat (data_addr s) + 0" "unat (data_addr s) + 0 < 2 ^ 40" using base_addr [OF dv, of 0] by simp_all
  have sp: "0 < ?sp" using g by (simp add: geom_ok_def)
  have v: "row_of ?d = row page" "col_of ?d = unat ?n" "mem_of (data_addr s) ?d = 0" "cnt_of ?d = unat ?sp"
    using view5 [OF l base_nonzero [OF dv] sp lim(2) b] oob_col [OF lim(1)] by simp_all
  obtain s' where s': "FNandSendCmd FNAND_READ_PAGE_TYPE (pack_slot 0 (cmd_format CMD_READ_OPTION_NEW) ?pd s) = Some (FT_SUCCESS, s')"
    "frame s s'" "(contents cells s', dma_data_buffer s') =
      nand_run (unat (pages_per_block (nand_geometry s 0))) (data_addr s) ecc
        ((descriptor_buffer s)(0 := ?d)) (contents cells s, dma_data_buffer s)"
    using pack_send [OF dv pd] by blast
  have c: "contents cells s' = contents cells s"
    "dma_data_buffer s' = memcpy (dma_data_buffer s) 0 (contents cells s (row page)) (unat ?n) (unat ?sp)"
    using s'(3) pack_commands [OF l ok] v by (simp_all add: nand_run_def nand_exec_def Let_def)
  have "unat ?sp \<le> 2 ^ 15" using g by (simp add: geom_ok_def)
  note ro = read_out_eq [OF off this, of buf len s']
  have m: "memcpy buf 0 (dma_data_buffer s') (unat off) (min (unat len) (unat ?sp - unat off)) =
      memcpy buf 0 (contents cells s (row page)) (unat ?n + unat off) (min (unat len) (unat ?sp - unat off))"
    by (rule memcpy_cong) (auto simp: c(2) memcpy_def add.assoc)
  show ?thesis using s' c ro m by (auto simp: FNandPageReadOOb_def Let_def)
qed

text \<open>The spare area is programmed from the first \<open>min len spare\<close> bytes of the prepared buffer.\<close>

lemma write_oob:
  assumes dv: "flash_device ecc cells s" and g: "geom_ok (nand_geometry s chip)"
    and off: "off \<le> spare_bytes_per_page (nand_geometry s chip)" and len: "0 < len"
  defines "n \<equiv> unat (bytes_per_page (nand_geometry s chip))" and "sp \<equiv> unat (spare_bytes_per_page (nand_geometry s chip))"
  shows "\<exists>s'. FNandPageWriteOOb page (Some buf) off len chip s = Some (FT_SUCCESS, s') \<and> frame s s' \<and>
    contents cells s' = (contents cells s)(row page :=
      program (contents cells s (row page)) n (memcpy (\<lambda>i. 0xff) (unat off) buf 0 (min (unat len) (sp - unat off)))
        (min (unat len) sp))"
proof -
  let ?n = "bytes_per_page (nand_geometry s chip)" and ?sp = "spare_bytes_per_page (nand_geometry s chip)"
  let ?a = "[ucast (?n AND 0xff), ucast (drop_bit 8 ?n AND 0xff)] :: u8 list"
  let ?k = "min (unat len) (sp - unat off)" and ?c = "if ?sp > len then len else ?sp"
  define m where "m = memcpy (memset (dma_data_buffer s) 0 0xff sp) (unat off) buf 0 ?k"
  define s1 where "s1 = s\<lparr>dma_data_buffer := m\<rparr>"
  let ?pd = "pack_data (Some (?a @ row_bytes page)) 5 (data_addr s) ?c chip 0"
  let ?d = "FNandDmaPack (cmd_format CMD_PAGE_PROGRAM) (descriptor_buffer s1 0) ?pd"
  have f1: "frame s s1" "contents cells s1 = contents cells s" by (simp_all add: s1_def data_frame)
  have dv1: "flash_device ecc cells s1" using frame_device [OF f1(1) dv] .
  note l = device_desc [OF dv1, of 0]
  have lim: "unat ?n < 2 ^ 16" "unat ?sp < 2 ^ 16" using spare_limit [OF g] by auto
  have c: "unat ?c = min (unat len) sp" "0 < ?c" "unat ?c < 2 ^ 16"
    using len lim g by (auto simp: geom_ok_def sp_def word_less_nat_alt min_def)
  have sp: "sp \<le> 2 ^ 15" "unat off + ?k \<le> 2 ^ 15"
    using g off by (auto simp: geom_ok_def sp_def word_le_nat_alt)
  have pd: "pd_ok ?pd" by (simp add: pd_ok_def pack_data_def row_bytes_def)
  have ok: "\<forall>ap. Some (?a @ row_bytes page) = Some ap \<longrightarrow> unat (5 :: u32) \<ge> 5 \<longrightarrow> length ap = 5" by (simp add: row_bytes_def)
  have b: "unat (data_addr s) = unat (data_addr s) + 0" "unat (data_addr s) + 0 < 2 ^ 40" using base_addr [OF dv, of 0] by simp_all
  have v: "row_of ?d = row page" "col_of ?d = n" "mem_of (data_addr s) ?d = 0" "cnt_of ?d = min (unat len) sp"
    using view5 [OF l base_nonzero [OF dv] c(2,3) b] oob_col [OF lim(1)] c(1) by (simp_all add: n_def)
  obtain s2 where s2: "FNandSendCmd FNAND_WRITE_PAGE_TYPE (pack_slot 0 (cmd_format CMD_PAGE_PROGRAM) ?pd s1) = Some (FT_SUCCESS, s2)"
    "frame s1 s2" "(contents cells s2, dma_data_buffer s2) =
      nand_run (unat (pages_per_block (nand_geometry s1 0))) (data_addr s1) ecc
        ((descriptor_buffer s1)(0 := ?d)) (contents cells s1, dma_data_buffer s1)"
    using pack_send [OF dv1 pd] by blast
  have da: "data_addr s1 = data_addr s" "dma_data_buffer s1 = m" by (simp_all add: s1_def)
  have "contents cells s2 = (contents cells s)(row page := program (contents cells s (row page)) n m (min (unat len) sp))"
    using s2(3) f1(2) pack_commands [OF l ok] v by (simp add: nand_run_def nand_exec_def Let_def da)
  moreover have "program (contents cells s (row page)) n m (min (unat len) sp) =
      program (contents cells s (row page)) n (memcpy (\<lambda>i. 0xff) (unat off) buf 0 ?k) (min (unat len) sp)"
    by (auto simp: program_def m_def memcpy_def memset_def fun_eq_iff)
  ultimately have c2: "contents cells s2 = (contents cells s)(row page :=
      program (contents cells s (row page)) n (memcpy (\<lambda>i. 0xff) (unat off) buf 0 ?k) (min (unat len) sp))" by simp
  have dv2: "flash_device ecc cells s2" using frame_device [OF s2(2) dv1] .
  obtain s3 where s3: "wait_io_idle chip s2 = Some s3" "frame s2 s3" "contents cells s3 = contents cells s2"
    using wait_io_idle_ends [OF dv2] by blast
  have "FNandPageWriteOOb page (Some buf) off len chip s = Some (FT_SUCCESS, s3)"
    using s2(1) sp unfolding s1_def m_def
    by (simp add: FNandPageWriteOOb_def Let_def fill_eq copy_in_eq clipped(2) [OF off] s3 sp_def split del: if_split)
  then show ?thesis using s3 c2 frame_trans f1(1) s2(2) by metis
qed

text \<open>
  The commands of two descriptors: the data of a page, then its check bytes at the column \<open>col\<close>.
  \<open>m\<close> is the data buffer when the command is sent, \<open>off\<close> the place of the check bytes in it.
\<close>

definition pd_data :: "u32 \<Rightarrow> u32 \<Rightarrow> FNand \<Rightarrow> FNandDmaPackData" where
  "pd_data page chip s = pack_data (Some ([0, 0] @ row_bytes page)) 5 (data_addr s) (bytes_per_page (nand_geometry s chip)) chip 1"

definition pd_ecc :: "uintptr \<Rightarrow> u32 \<Rightarrow> FNand \<Rightarrow> FNandDmaPackData" where
  "pd_ecc phy chip s = (let g = nand_geometry s chip; col = bytes_per_page g + ecc_offset g in
     pack_data (Some [ucast col, ucast (drop_bit 8 col), 0, 0, 0]) 2 phy (hw_ecc_length g) chip 0)"

lemma two_slots:
  assumes dv: "flash_device ecc cells s"
  shows "\<exists>t x0 x1. FNandSendCmd ty (pack_slot 1 (cmd_format c1) (pd_ecc phy chip s)
        ((pack_slot 0 (cmd_format c0) (pd_data page chip s) s)\<lparr>dma_data_buffer := m\<rparr>)) = Some (FT_SUCCESS, t) \<and> frame s t \<and>
      length (addr x0) = 5 \<and> length (addr x1) = 5 \<and>
      (contents cells t, dma_data_buffer t) =
        (let ex = nand_exec (unat (pages_per_block (nand_geometry s 0))) (data_addr s) ecc in
         snd (ex (FNandDmaPack (cmd_format c1) x1 (pd_ecc phy chip s))
           (ex (FNandDmaPack (cmd_format c0) x0 (pd_data page chip s)) (0, contents cells s, m))))"
proof -
  define s1 where "s1 = (pack_slot 0 (cmd_format c0) (pd_data page chip s) s)\<lparr>dma_data_buffer := m\<rparr>"
  define s2 where "s2 = pack_slot 1 (cmd_format c1) (pd_ecc phy chip s) s1"
  have pd: "pd_ok (pd_data page chip s)" "pd_ok (pd_ecc phy chip s)"
    by (simp_all add: pd_ok_def pack_data_def row_bytes_def pd_data_def pd_ecc_def Let_def)
  have f1: "frame s s1" unfolding s1_def using frame_trans [OF pack_slot_frame(1) [OF dv pd(1)] data_frame(1)] .
  have dv1: "flash_device ecc cells s1" using frame_device [OF f1 dv] .
  have f2: "frame s1 s2" unfolding s2_def by (rule pack_slot_frame(1) [OF dv1 pd(2)])
  have dv2: "flash_device ecc cells s2" using frame_device [OF f2 dv1] .
  have fs: "frame s s2" using f1 f2 frame_trans by blast
  have c2: "contents cells s2 = contents cells s" "dma_data_buffer s2 = m"
    by (simp_all add: s2_def s1_def pack_slot_def contents_def)
  have ds: "descriptor_buffer s2 0 = FNandDmaPack (cmd_format c0) (descriptor_buffer s 0) (pd_data page chip s)"
    "descriptor_buffer s2 1 = FNandDmaPack (cmd_format c1) (descriptor_buffer s1 1) (pd_ecc phy chip s)"
    by (simp_all add: s2_def s1_def pack_slot_def)
  note l = device_desc [OF dv, of 0] device_desc [OF dv1, of 1]
  have nc: "nc (cmd_ctrl (descriptor_buffer s2 0)) = 1"
    using pack_view(4) [OF l(1) pd(1) [unfolded pd_ok_def]] by (simp add: ds pd_data_def pack_data_def)
  obtain t where t: "FNandSendCmd ty s2 = Some (FT_SUCCESS, t)" "ran ecc cells s2 t" using send [OF dv2] by blast
  have "frame s t" using t(2) fs frame_trans by (auto simp: ran_def)
  moreover have "(contents cells t, dma_data_buffer t) =
      (let ex = nand_exec (unat (pages_per_block (nand_geometry s 0))) (data_addr s) ecc in
         snd (ex (descriptor_buffer s2 1) (ex (descriptor_buffer s2 0) (0, contents cells s, m))))"
    using t(2) nc c2 frame_fields(5,8) [OF fs] by (simp add: ran_def nand_run_def Let_def)
  ultimately show ?thesis using t(1) l unfolding s2_def [symmetric] s1_def [symmetric] ds by blast
qed

lemma view_data:
  fixes fmt :: FNandCmdFormat and page :: u32
  assumes "flash_device ecc cells s" "geom_ok (nand_geometry s chip)" "length (addr x) = 5"
  defines "d \<equiv> FNandDmaPack fmt x (pd_data page chip s)"
  shows "row_of d = row page" "col_of d = 0" "mem_of (data_addr s) d = 0"
    "cnt_of d = unat (bytes_per_page (nand_geometry s chip))"
proof -
  have b: "unat (data_addr s) = unat (data_addr s) + 0" "unat (data_addr s) + 0 < 2 ^ 40" using base_addr [OF assms(1), of 0] by simp_all
  have n: "0 < bytes_per_page (nand_geometry s chip)" using assms(2) by (simp add: geom_ok_def)
  note v = view5 [OF assms(3) base_nonzero [OF assms(1)] n _ b, folded pd_data_def]
  show "row_of d = row page" "col_of d = 0" "mem_of (data_addr s) d = 0"
    "cnt_of d = unat (bytes_per_page (nand_geometry s chip))"
    using spare_limit [OF assms(2)] v [where fmt = fmt and ?c0.0 = 0 and ?c1.0 = 0 and page = page and chip = chip and cont = 1]
    by (simp_all add: d_def pd_data_def)
qed

lemma view_ecc:
  fixes fmt :: FNandCmdFormat
  assumes dv: "flash_device ecc cells s" and g: "geom_ok (nand_geometry s chip)" and x: "length (addr x) = 5"
    and phy: "phy = data_addr s + ucast (bytes_per_page (nand_geometry s chip)) + ucast e" "e \<le> ecc_offset (nand_geometry s chip)"
  defines "d \<equiv> FNandDmaPack fmt x (pd_ecc phy chip s)" and "gm \<equiv> nand_geometry s chip"
  shows "col_of d = unat (bytes_per_page gm) + unat (ecc_offset gm)" "cnt_of d = unat (hw_ecc_length gm)"
    "0 < hw_ecc_length gm \<Longrightarrow> mem_of (data_addr s) d = unat (bytes_per_page gm) + unat e"
proof -
  have gg: "unat (bytes_per_page gm) + unat (spare_bytes_per_page gm) \<le> 2 ^ 15"
    "unat (ecc_offset gm) + unat (hw_ecc_length gm) \<le> unat (spare_bytes_per_page gm)" "0 < bytes_per_page gm" "unat e \<le> unat (ecc_offset gm)"
    using g phy(2) by (auto simp: geom_ok_def gm_def word_le_nat_alt)
  have bn: "unat (data_addr s) + 2 ^ 15 < 2 ^ 40" using dv by (simp add: flash_device_def)
  have u: "unat phy = unat (data_addr s) + (unat (bytes_per_page gm) + unat e)"
    using bn gg by (simp add: phy(1) gm_def unat_word_ariths unat_ucast_up)
  have u': "phy \<noteq> 0" using base_nonzero [OF dv] u by (auto simp: unat_eq_zero [symmetric])
  have col: "unat (bytes_per_page gm + ecc_offset gm) mod 2 ^ 16 = unat (bytes_per_page gm) + unat (ecc_offset gm)"
    using gg by (simp add: unat_word_ariths)
  have e: "unat (hw_ecc_length gm) < 2 ^ 16" using gg by simp
  have lt: "unat (data_addr s) + (unat (bytes_per_page gm) + unat e) < 2 ^ 40"
    using bn gg by linarith
  note v = view2 [OF x u' e u lt, where fmt = fmt and chip = chip and cont = 0 and x = 0 and y = 0 and z = 0]
  show "col_of d = unat (bytes_per_page gm) + unat (ecc_offset gm)" "cnt_of d = unat (hw_ecc_length gm)"
    "0 < hw_ecc_length gm \<Longrightarrow> mem_of (data_addr s) d = unat (bytes_per_page gm) + unat e"
    using v [where col = "bytes_per_page gm + ecc_offset gm"] col by (simp_all add: d_def pd_ecc_def Let_def gm_def)
qed

text \<open>Writing a page with check bytes: the data first, then the check bytes of the prepared buffer \<open>m\<close>.\<close>

lemma write_ecc:
  assumes dv: "flash_device ecc cells s" and g: "geom_ok (nand_geometry s chip)"
    and off: "off \<le> bytes_per_page (nand_geometry s chip)"
  defines "gm \<equiv> nand_geometry s chip"
  defines "n \<equiv> unat (bytes_per_page gm)"
  shows "\<exists>s' m. FNandPageWriteHwEcc page (Some buf) off len chip s = Some (FT_SUCCESS, s') \<and> frame s s' \<and>
    (\<forall>i < 2 ^ 15. m i = memcpy (\<lambda>i. 0xff) (unat off) buf 0 (min (unat len) (n - unat off)) i) \<and>
    contents cells s' = (contents cells s)(row page :=
      program (program (contents cells s (row page)) 0 m n) (n + unat (ecc_offset gm)) (ecc m) (unat (hw_ecc_length gm)))"
proof -
  let ?n = "bytes_per_page gm" and ?sp = "spare_bytes_per_page gm" and ?k = "min (unat len) (n - unat off)"
  have gg: "n + unat ?sp \<le> 2 ^ 15" using g by (simp add: geom_ok_def n_def gm_def)
  have koff: "unat off + ?k \<le> n" using off by (simp add: n_def gm_def word_le_nat_alt)
  define m0 where "m0 = memcpy (memset (dma_data_buffer s) 0 0xff (2 ^ 15)) (unat off) buf 0 ?k"
  define m where "m = memset m0 n 0xff (unat ?sp)"
  define s0 where "s0 = s\<lparr>dma_data_buffer := m0\<rparr>"
  let ?phy = "data_addr s + ucast ?n + ucast (ecc_offset gm)"
  have f0: "frame s s0" "contents cells s0 = contents cells s" by (simp_all add: s0_def data_frame)
  have dv0: "flash_device ecc cells s0" using frame_device [OF f0(1) dv] .
  have gs: "nand_geometry s0 = nand_geometry s" "data_addr s0 = data_addr s" by (simp_all add: s0_def)
  obtain s1 x0 x1 where s1: "FNandSendCmd FNAND_WRITE_PAGE_TYPE (pack_slot 1 (cmd_format CMD_COPY_BACK_PROGRAM) (pd_ecc ?phy chip s0)
        ((pack_slot 0 (cmd_format CMD_PAGE_PROGRAM_WITH_OTHER) (pd_data page chip s0) s0)\<lparr>dma_data_buffer := m\<rparr>)) = Some (FT_SUCCESS, s1)"
      "frame s0 s1" and x: "length (addr x0) = 5" "length (addr x1) = 5" and
      r: "(contents cells s1, dma_data_buffer s1) =
        (let ex = nand_exec (unat (pages_per_block (nand_geometry s0 0))) (data_addr s0) ecc in
         snd (ex (FNandDmaPack (cmd_format CMD_COPY_BACK_PROGRAM) x1 (pd_ecc ?phy chip s0))
           (ex (FNandDmaPack (cmd_format CMD_PAGE_PROGRAM_WITH_OTHER) x0 (pd_data page chip s0)) (0, contents cells s0, m))))"
    using two_slots [OF dv0, where ty = FNAND_WRITE_PAGE_TYPE and ?c1.0 = CMD_COPY_BACK_PROGRAM and phy = ?phy
        and chip = chip and ?c0.0 = CMD_PAGE_PROGRAM_WITH_OTHER and page = page and m = m] by blast
  have g0: "geom_ok (nand_geometry s0 chip)" using g by (simp add: gs)
  note v0 = view_data [OF dv0 g0 x(1)]
  have phy: "?phy = data_addr s0 + ucast (bytes_per_page (nand_geometry s0 chip)) + ucast (ecc_offset gm)"
    "ecc_offset gm \<le> ecc_offset (nand_geometry s0 chip)" by (simp_all add: gs gm_def)
  note v1 = view_ecc(1,2) [OF dv0 g0 x(2) phy]
  have ok0: "\<forall>ap. Some ([0, 0] @ row_bytes page) = Some ap \<longrightarrow> unat (5 :: u32) \<ge> 5 \<longrightarrow> length ap = 5" by (simp add: row_bytes_def)
  have ok1: "\<forall>ap. Some [a, b, 0, 0, 0 :: u8] = Some ap \<longrightarrow> unat (2 :: u32) \<ge> 5 \<longrightarrow> length ap = 5" for a b by simp
  have c1: "contents cells s1 = (contents cells s)(row page :=
      program (program (contents cells s (row page)) 0 m n) (n + unat (ecc_offset gm)) (ecc m) (unat (hw_ecc_length gm)))"
    using r v0 v1 f0(2) pack_commands(10,11) [OF x(1) ok0] pack_commands(12-14) [OF x(2) ok1]
    by (simp add: nand_exec_def Let_def gs gm_def n_def pd_data_def pd_ecc_def)
  have dv1: "flash_device ecc cells s1" using frame_device [OF s1(2) dv0] .
  obtain s2 where s2: "wait_not_busy s1 = Some s2" "frame s1 s2" "contents cells s2 = contents cells s1"
    using wait_not_busy_ends [OF dv1] by blast
  have dv2: "flash_device ecc cells s2" using frame_device [OF s2(2) dv1] .
  obtain s3 where s3: "wait_io_idle chip s2 = Some s3" "frame s2 s3" "contents cells s3 = contents cells s2"
    using wait_io_idle_ends [OF dv2] by blast
  have sl: "dma_data_buffer (pack_slot k f p t) = dma_data_buffer t" "data_addr (pack_slot k f p t) = data_addr t" for k f p t
    by (simp_all add: pack_slot_def)
  have "FNandPageWriteHwEcc page (Some buf) off len chip s = Some (FT_SUCCESS, s3)"
    using s1(1) koff gg unfolding m_def pd_data_def pd_ecc_def Let_def gs s0_def m0_def n_def gm_def
    by (simp add: FNandPageWriteHwEcc_def Let_def fill_eq copy_in_eq clipped(3) [OF off] dma_max s2 s3 sl split del: if_split)
  moreover have "frame s s3" using f0(1) s1(2) s2(2) s3(2) frame_trans by blast
  moreover have "\<forall>i < 2 ^ 15. m i = memcpy (\<lambda>i. 0xff) (unat off) buf 0 ?k i"
    using koff by (auto simp: m_def m0_def memcpy_def memset_def)
  ultimately show ?thesis using s3(3) s2(3) c1 by auto
qed

text \<open>Reading a page with its check bytes, when the controller finds no error.\<close>

lemma read_ecc:
  assumes dv: "flash_device ecc cells s" and g: "geom_ok (nand_geometry s chip)"
    and off: "off \<le> bytes_per_page (nand_geometry s chip)"
  defines "n \<equiv> unat (bytes_per_page (nand_geometry s chip))"
  shows "\<exists>s'. FNandPageReadHwEcc page (Some buf) off len chip s =
      Some (FT_SUCCESS, Some (memcpy buf 0 (contents cells s (row page)) (unat off) (min (unat len) (n - unat off))), s')
    \<and> frame s s' \<and> contents cells s' = contents cells s"
proof -
  let ?g = "nand_geometry s chip" and ?k = "min (unat len) (n - unat off)"
  let ?phy = "data_addr s + ucast (bytes_per_page ?g)"
  obtain s1 x0 x1 where s1: "FNandSendCmd FNAND_WAIT_ECC_TYPE (pack_slot 1 (cmd_format CMD_RANDOM_DATA_OUT) (pd_ecc ?phy chip s)
        ((pack_slot 0 (cmd_format CMD_READ_OPTION_NEW) (pd_data page chip s) s)\<lparr>dma_data_buffer := dma_data_buffer s\<rparr>)) = Some (FT_SUCCESS, s1)"
      "frame s s1" and x: "length (addr x0) = 5" "length (addr x1) = 5" and
      r: "(contents cells s1, dma_data_buffer s1) =
        (let ex = nand_exec (unat (pages_per_block (nand_geometry s 0))) (data_addr s) ecc in
         snd (ex (FNandDmaPack (cmd_format CMD_RANDOM_DATA_OUT) x1 (pd_ecc ?phy chip s))
           (ex (FNandDmaPack (cmd_format CMD_READ_OPTION_NEW) x0 (pd_data page chip s)) (0, contents cells s, dma_data_buffer s))))"
    using two_slots [OF dv, where ty = FNAND_WAIT_ECC_TYPE and ?c1.0 = CMD_RANDOM_DATA_OUT and phy = ?phy
        and chip = chip and ?c0.0 = CMD_READ_OPTION_NEW and page = page and m = "dma_data_buffer s"] by blast
  note v0 = view_data [OF dv g x(1)]
  have phy: "?phy = data_addr s + ucast (bytes_per_page ?g) + ucast (0 :: u32)" "0 \<le> ecc_offset ?g" by simp_all
  note v1 = view_ecc [OF dv g x(2) phy]
  have ok0: "\<forall>ap. Some ([0, 0] @ row_bytes page) = Some ap \<longrightarrow> unat (5 :: u32) \<ge> 5 \<longrightarrow> length ap = 5" by (simp add: row_bytes_def)
  have ok1: "\<forall>ap. Some [a, b, 0, 0, 0 :: u8] = Some ap \<longrightarrow> unat (2 :: u32) \<ge> 5 \<longrightarrow> length ap = 5" for a b by simp
  let ?d1 = "FNandDmaPack (cmd_format CMD_RANDOM_DATA_OUT) x1 (pd_ecc ?phy chip s)"
  have c1: "contents cells s1 = contents cells s" "dma_data_buffer s1 =
      memcpy (memcpy (dma_data_buffer s) 0 (contents cells s (row page)) 0 n) (mem_of (data_addr s) ?d1)
        (contents cells s (row page)) (col_of ?d1) (cnt_of ?d1)"
    using r v0 pack_commands(1-3) [OF x(1) ok0] pack_commands(4-6) [OF x(2) ok1]
    by (simp_all add: nand_exec_def Let_def n_def pd_data_def pd_ecc_def)
  have low: "dma_data_buffer s1 i = contents cells s (row page) i" if "i < n" for i
    using that v1 c1(2) by (cases "hw_ecc_length ?g = 0") (auto simp: memcpy_def n_def word_gt_0)
  have dv1: "flash_device ecc cells s1" using frame_device [OF s1(2) dv] .
  define s2 where "s2 = s1\<lparr>bus := FDriverUdelay 100 (bus s1)\<rparr>"
  have q2: "quiet s1 s2" unfolding s2_def FDriverUdelay_def by (rule quiet_emit) simp
  define s3 where "s3 = snd (FNAND_READREG FNAND_STATE_OFFSET s2)"
  have q3: "quiet s1 s3" unfolding s3_def using quiet_trans [OF q2 quiet_READREG] .
  have "prompt s2" using device_prompt [OF dv1] quiet_prompt [OF q2] by blast
  note b = prompt_bits [OF this]
  have w: "wait_ecc s2 = Some (fst (FNAND_READREG FNAND_STATE_OFFSET s2), s3)"
    using b(3) by (subst wait_ecc.simps) (simp add: s3_def case_prod_beta Let_def)
  have lim: "unat (bytes_per_page ?g) \<le> 2 ^ 15" using g by (simp add: geom_ok_def)
  have m: "memcpy buf 0 (dma_data_buffer s3) (unat off) ?k = memcpy buf 0 (contents cells s (row page)) (unat off) ?k"
    by (rule memcpy_cong) (auto simp: quiet_buffers [OF q3] intro!: low)
  have sl: "(pack_slot k f p t)\<lparr>dma_data_buffer := dma_data_buffer t\<rparr> = pack_slot k f p t" "data_addr (pack_slot k f p t) = data_addr t" for k f p t
    by (simp_all add: pack_slot_def)
  have "FNandPageReadHwEcc page (Some buf) off len chip s = Some (FT_SUCCESS, Some (memcpy buf 0 (contents cells s (row page)) (unat off) ?k), s3)"
    using s1(1) w b read_out_eq [OF off lim, of buf len s3] m unfolding pd_data_def pd_ecc_def Let_def sl n_def s2_def
    by (simp add: FNandPageReadHwEcc_def Let_def sl split del: if_split)
  moreover have "frame s s3" using frame_trans [OF s1(2) quiet_frame [OF q3]] .
  ultimately show ?thesis using quiet_contents [OF dv1 q3] c1(1) by auto
qed

end
