(* ===== verification/NandApi.thy ===== *)
theory NandApi
  imports NandPage
begin

text \<open>
  The interface of the driver that bad block management uses, \<^verbatim>\<open>FNandReadPageOOb\<close>,
  \<^verbatim>\<open>FNandReadPage\<close>, \<^verbatim>\<open>FNandWritePage\<close> and \<^verbatim>\<open>FNandEraseBlock\<close>, and their contract.
\<close>

section \<open>The contract of a page operation\<close>

definition registered :: "FNand \<Rightarrow> bool" where
  "registered s \<longleftrightarrow> write_hw_ecc_p s = Some WritePageRawHwEcc \<and> read_hw_ecc_p s = Some ReadPageHwEcc \<and>
     read_oob_p s = Some OObRead \<and> erase_p s = Some EraseBlock"

definition dev_ok :: "((nat \<Rightarrow> u8) \<Rightarrow> nat \<Rightarrow> u8) \<Rightarrow> (nand_history \<Rightarrow> flash) \<Rightarrow> FNand \<Rightarrow> bool" where
  "dev_ok ecc cells s \<longleftrightarrow> flash_device ecc cells s \<and> registered s \<and> geom_ok (nand_geometry s 0)"

lemma frame_dev_ok: "frame s s' \<Longrightarrow> dev_ok ecc cells s \<Longrightarrow> dev_ok ecc cells s'"
  using frame_device [of s s' ecc cells] by (simp add: dev_ok_def registered_def frame_fields)

lemma quiet_dev_ok: "quiet s s' \<Longrightarrow> dev_ok ecc cells s \<Longrightarrow> dev_ok ecc cells s'"
  by (rule frame_dev_ok [OF quiet_frame])

lemma ready_0: "dev_ok ecc cells s \<Longrightarrow> ready_for 0 s"
  by (simp add: ready_for_def dev_ok_def flash_device_def FNAND_CONNECT_MAX_NUM_def)

text \<open>
  An operation on a device in order succeeds; its result and the contents afterwards are related to
  the contents before by \<open>post\<close>; and it leaves the bad block manager and the geometry alone.
\<close>

locale page_op =
  fixes ecc :: "(nat \<Rightarrow> u8) \<Rightarrow> nat \<Rightarrow> u8" and cells :: "nand_history \<Rightarrow> flash"
    and run :: "FNand \<Rightarrow> (FError \<times> 'r \<times> FNand) option"
    and post :: "FNandNandGeometry \<Rightarrow> flash \<Rightarrow> 'r \<Rightarrow> flash \<Rightarrow> bool"
  assumes runs: "dev_ok ecc cells s \<Longrightarrow> \<exists>r s'. run s = Some (FT_SUCCESS, r, s') \<and> frame s s' \<and>
      post (nand_geometry s 0) (contents cells s) r (contents cells s')"
begin

lemma finished:
  assumes "dev_ok ecc cells s"
  obtains r s' where "run s = Some (FT_SUCCESS, r, s')" "dev_ok ecc cells s'" "bbt_manager s' = bbt_manager s"
    "nand_geometry s' = nand_geometry s" "locals s' = locals s" "frame s s'"
    "post (nand_geometry s 0) (contents cells s) r (contents cells s')"
proof -
  obtain r s' where *: "run s = Some (FT_SUCCESS, r, s')" "frame s s'"
    "post (nand_geometry s 0) (contents cells s) r (contents cells s')" using runs [OF assms] by blast
  show thesis using that [OF *(1) frame_dev_ok [OF *(2) assms] _ _ _ *(2,3)] frame_fields [OF *(2)] by simp
qed

lemma ends: "dev_ok ecc cells s \<Longrightarrow> run s \<noteq> None"
  using runs by fastforce

lemma success: "dev_ok ecc cells s \<Longrightarrow> run s = Some (e, r, s') \<Longrightarrow> e = FT_SUCCESS"
  using runs by fastforce

end

section \<open>The four operations\<close>

definition no_result :: "(FError \<times> FNand) option \<Rightarrow> (FError \<times> unit \<times> FNand) option" where
  "no_result r = map_option (\<lambda>(e, s). (e, (), s)) r"

definition reads_oob :: "u32 \<Rightarrow> (nat \<Rightarrow> u8) \<Rightarrow> u32 \<Rightarrow> FNandNandGeometry \<Rightarrow> flash \<Rightarrow> (nat \<Rightarrow> u8) option \<Rightarrow> flash \<Rightarrow> bool" where
  "reads_oob page buf len g f r f' \<longleftrightarrow> f' = f \<and>
     r = Some (memcpy buf 0 (f (row page)) (unat (bytes_per_page g)) (min (unat len) (unat (spare_bytes_per_page g))))"

interpretation ro: page_op ecc cells "FNandReadPageOOb page (Some buf) 0 len 0" "reads_oob page buf len"
proof
  fix s assume d: "dev_ok ecc cells s"
  then obtain s' where "FNandPageReadOOb page (Some buf) 0 len 0 s = Some (FT_SUCCESS,
      Some (memcpy buf 0 (contents cells s (row page)) (unat (bytes_per_page (nand_geometry s 0)))
        (min (unat len) (unat (spare_bytes_per_page (nand_geometry s 0))))), s')"
    "frame s s'" "contents cells s' = contents cells s"
    using read_oob [of ecc cells s 0 0 page buf len] by (auto simp: dev_ok_def)
  then show "\<exists>r s'. FNandReadPageOOb page (Some buf) 0 len 0 s = Some (FT_SUCCESS, r, s') \<and> frame s s' \<and>
      reads_oob page buf len (nand_geometry s 0) (contents cells s) r (contents cells s')"
    using d ready_0 [OF d]
    by (auto simp: FNandReadPageOOb_def dev_ok_def registered_def FNandFlashOObRead_def oob_op_data_def reads_oob_def)
qed

definition erases :: "u32 \<Rightarrow> FNandNandGeometry \<Rightarrow> flash \<Rightarrow> unit \<Rightarrow> flash \<Rightarrow> bool" where
  "erases block g f r f' \<longleftrightarrow> f' = erase_block (unat (pages_per_block g)) (row (block * pages_per_block g)) f"

interpretation er: page_op ecc cells "\<lambda>s. no_result (FNandEraseBlock block 0 s)" "erases block"
proof
  fix s assume d: "dev_ok ecc cells s"
  then show "\<exists>r s'. no_result (FNandEraseBlock block 0 s) = Some (FT_SUCCESS, r, s') \<and> frame s s' \<and>
      erases block (nand_geometry s 0) (contents cells s) r (contents cells s')"
    using erase_page [of ecc cells s "block * pages_per_block (nand_geometry s 0)" 0] ready_0 [OF d]
    by (auto simp: no_result_def FNandEraseBlock_def dev_ok_def registered_def erases_def)
qed

definition reads_page :: "u32 \<Rightarrow> (nat \<Rightarrow> u8) \<Rightarrow> u32 \<Rightarrow> FNandNandGeometry \<Rightarrow> flash \<Rightarrow> (nat \<Rightarrow> u8) option \<times> (nat \<Rightarrow> u8) option \<Rightarrow> flash \<Rightarrow> bool" where
  "reads_page page buf len g f r f' \<longleftrightarrow> f' = f \<and>
     r = (Some (memcpy buf 0 (f (row page)) 0 (min (unat len) (unat (bytes_per_page g)))), None)"

definition pair_result :: "(FError \<times> 'a \<times> 'b \<times> FNand) option \<Rightarrow> (FError \<times> ('a \<times> 'b) \<times> FNand) option" where
  "pair_result r = map_option (\<lambda>(e, a, b, s). (e, (a, b), s)) r"

lemma quiet_EnableHwEcc [simp]: "quiet s (FNandEnableHwEcc s)"
  by (simp add: FNandEnableHwEcc_def)

lemma quiet_DisableHwEcc [simp]: "quiet s (FNandDisableHwEcc s)"
  by (simp add: FNandDisableHwEcc_def)

interpretation rp: page_op ecc cells "\<lambda>s. pair_result (FNandReadPage page (Some buf) 0 len None 0 0 0 s)" "reads_page page buf len"
proof
  fix s assume d: "dev_ok ecc cells s"
  then have dv: "flash_device ecc cells s" by (simp add: dev_ok_def)
  obtain s1 where s1: "FNandFlashReadStatus 0 s = Some (FT_SUCCESS, s1)" "frame s s1" "contents cells s1 = contents cells s"
    using read_status [OF dv] by blast
  let ?s2 = "FNandEnableHwEcc s1"
  have f2: "frame s ?s2" using frame_trans [OF s1(2) quiet_frame [OF quiet_EnableHwEcc]] .
  have c2: "contents cells ?s2 = contents cells s"
    using quiet_contents [OF frame_device [OF s1(2) dv] quiet_EnableHwEcc] s1(3) by simp
  note fld = frame_fields [OF f2]
  let ?len = "if 0 < len then len else 0"
  have "\<exists>s3. FNandPageReadHwEcc page (if 0 < len then Some buf else None) 0 ?len 0 ?s2 = Some (FT_SUCCESS,
      (if 0 < len then Some (memcpy buf 0 (contents cells s (row page)) 0 (min (unat len) (unat (bytes_per_page (nand_geometry s 0))))) else None), s3)
      \<and> frame ?s2 s3 \<and> contents cells s3 = contents cells s"
  proof (cases "0 < len")
    case True
    then show ?thesis using read_ecc [OF frame_device [OF f2 dv], of 0 0 page buf len] d c2 fld by (simp add: dev_ok_def)
  next
    case False
    obtain s3 where "FNandPageReadHwEcc page (Some buf) 0 0 0 ?s2 = Some (FT_SUCCESS, Some buf, s3)" "frame ?s2 s3"
      "contents cells s3 = contents cells s"
      using read_ecc [OF frame_device [OF f2 dv], of 0 0 page buf 0] d c2 fld by (auto simp: dev_ok_def)
    moreover have "FNandPageReadHwEcc page None 0 0 0 t = map_option (\<lambda>(e, m, s). (e, None, s)) (FNandPageReadHwEcc page (Some buf) 0 0 0 t)" for t
      by (auto simp: FNandPageReadHwEcc_def read_out_def Let_def case_prod_beta split: bind_splits option.splits)
    ultimately show ?thesis using False by simp
  qed
  then obtain s3 where s3: "FNandPageReadHwEcc page (if 0 < len then Some buf else None) 0 ?len 0 ?s2 = Some (FT_SUCCESS,
      (if 0 < len then Some (memcpy buf 0 (contents cells s (row page)) 0 (min (unat len) (unat (bytes_per_page (nand_geometry s 0))))) else None), s3)"
      "frame ?s2 s3" "contents cells s3 = contents cells s" by blast
  let ?s4 = "FNandDisableHwEcc s3"
  have f3: "frame s s3" using frame_trans [OF f2 s3(2)] .
  have c4: "contents cells ?s4 = contents cells s"
    using quiet_contents [OF frame_device [OF f3 dv] quiet_DisableHwEcc] s3(3) by simp
  have "FNandReadPage page (Some buf) 0 len None 0 0 0 s =
      Some (FT_SUCCESS, Some (memcpy buf 0 (contents cells s (row page)) 0 (min (unat len) (unat (bytes_per_page (nand_geometry s 0))))), None, ?s4)"
    using s1(1) s3(1) d ready_0 [OF d]
    by (cases "0 < len") (simp_all add: FNandReadPage_def dev_ok_def registered_def FNandFlashReadPageHwEcc_def op_data_def given_def Let_def word_gt_0)
  then show "\<exists>r s'. pair_result (FNandReadPage page (Some buf) 0 len None 0 0 0 s) = Some (FT_SUCCESS, r, s') \<and> frame s s' \<and>
      reads_page page buf len (nand_geometry s 0) (contents cells s) r (contents cells s')"
    using c4 frame_trans [OF f3 quiet_frame [OF quiet_DisableHwEcc]] by (simp add: pair_result_def reads_page_def)
qed

text \<open>
  Writing a page with its spare area: the spare area is programmed, then the data, then the check
  bytes of the buffer \<open>m\<close> that is sent: the data, padded with \<open>0xff\<close>.
\<close>

definition padded :: "(nat \<Rightarrow> u8) \<Rightarrow> nat \<Rightarrow> (nat \<Rightarrow> u8)" where
  "padded buf k = memcpy (\<lambda>i. 0xff) 0 buf 0 k"

definition page_written ::
  "((nat \<Rightarrow> u8) \<Rightarrow> nat \<Rightarrow> u8) \<Rightarrow> FNandNandGeometry \<Rightarrow> (nat \<Rightarrow> u8) \<Rightarrow> (nat \<Rightarrow> u8) \<Rightarrow> (nat \<Rightarrow> u8) \<Rightarrow> (nat \<Rightarrow> u8)" where
  "page_written ecc g m spare p =
     (let n = unat (bytes_per_page g); p = program p n spare (unat (spare_bytes_per_page g)); p = program p 0 m n
      in program p (n + unat (ecc_offset g)) (ecc m) (unat (hw_ecc_length g)))"

definition writes_page ::
  "((nat \<Rightarrow> u8) \<Rightarrow> nat \<Rightarrow> u8) \<Rightarrow> u32 \<Rightarrow> (nat \<Rightarrow> u8) \<Rightarrow> u32 \<Rightarrow> (nat \<Rightarrow> u8) \<Rightarrow> FNandNandGeometry \<Rightarrow> flash \<Rightarrow> unit \<Rightarrow> flash \<Rightarrow> bool" where
  "writes_page ecc page buf len spare g f r f' \<longleftrightarrow>
     (\<exists>m. (\<forall>i < 2 ^ 15. m i = padded buf (min (unat len) (unat (bytes_per_page g))) i) \<and>
        f' = f(row page := page_written ecc g m spare (f (row page))))"

lemma program_cong:
  assumes "\<And>i. i < n \<Longrightarrow> a i = b i"
  shows "program p col a n = program p col b n"
proof (rule ext)
  fix c
  show "program p col a n c = program p col b n c"
    using assms [of "c - col"] unfolding program_def by (cases "col \<le> c \<and> c < col + n") auto
qed

lemma write_page:
  assumes d: "dev_ok ecc cells s"
  shows "\<exists>s'. FNandWritePage page (Some buf) 0 len (Some spare) 0 FNAND_MAX_SPARE_SIZE 0 s = Some (FT_SUCCESS, s') \<and> frame s s' \<and>
      writes_page ecc page buf len spare (nand_geometry s 0) (contents cells s) () (contents cells s')"
proof -
  let ?g = "nand_geometry s 0"
  have dv: "flash_device ecc cells s" and g: "geom_ok ?g" using d by (simp_all add: dev_ok_def)
  obtain s1 where s1: "FNandFlashReadStatus 0 s = Some (FT_SUCCESS, s1)" "frame s s1" "contents cells s1 = contents cells s"
    using read_status [OF dv] by blast
  have dv1: "flash_device ecc cells s1" using frame_device [OF s1(2) dv] .
  have g1: "nand_geometry s1 = nand_geometry s" using frame_fields [OF s1(2)] by simp
  have sp: "0 < FNAND_MAX_SPARE_SIZE" "min (unat FNAND_MAX_SPARE_SIZE) (unat (spare_bytes_per_page ?g)) = unat (spare_bytes_per_page ?g)"
    using g by (simp_all add: FNAND_MAX_SPARE_SIZE_def geom_ok_def)
  obtain s2 where s2: "FNandPageWriteOOb page (Some spare) 0 FNAND_MAX_SPARE_SIZE 0 s1 = Some (FT_SUCCESS, s2)" "frame s1 s2"
    and c2: "contents cells s2 = (contents cells s)(row page := program (contents cells s (row page)) (unat (bytes_per_page ?g))
        (memcpy (\<lambda>i. 0xff) 0 spare 0 (unat (spare_bytes_per_page ?g))) (unat (spare_bytes_per_page ?g)))"
    using write_oob [OF dv1, of 0 0 FNAND_MAX_SPARE_SIZE page spare] g sp s1(3) g1 by auto
  have c2': "contents cells s2 = (contents cells s)(row page := program (contents cells s (row page)) (unat (bytes_per_page ?g))
        spare (unat (spare_bytes_per_page ?g)))"
    unfolding c2 by (subst program_cong [where b = spare]) (simp_all add: memcpy_def)
  let ?s3 = "FNandEnableHwEcc s2"
  have f2: "frame s s2" using frame_trans [OF s1(2) s2(2)] .
  have f3: "frame s ?s3" using frame_trans [OF f2 quiet_frame [OF quiet_EnableHwEcc]] .
  have dv3: "flash_device ecc cells ?s3" using frame_device [OF f3 dv] .
  have c3: "contents cells ?s3 = contents cells s2" using quiet_contents [OF frame_device [OF f2 dv] quiet_EnableHwEcc] by simp
  have g3: "nand_geometry ?s3 = nand_geometry s" using frame_fields [OF f3] by simp
  have "\<exists>s4 m. FNandPageWriteHwEcc page (if 0 < len then Some buf else None) 0 (if 0 < len then len else 0) 0 ?s3 = Some (FT_SUCCESS, s4) \<and> frame ?s3 s4 \<and>
      (\<forall>i < 2 ^ 15. m i = padded buf (min (unat len) (unat (bytes_per_page ?g))) i) \<and>
      contents cells s4 = (contents cells s)(row page := page_written ecc ?g m spare (contents cells s (row page)))"
  proof -
    let ?l = "if 0 < len then len else 0"
    have "unat ?l = unat len" by (simp add: word_gt_0)
    then obtain s4 m where s4: "FNandPageWriteHwEcc page (Some buf) 0 ?l 0 ?s3 = Some (FT_SUCCESS, s4)" "frame ?s3 s4"
      "\<forall>i < 2 ^ 15. m i = padded buf (min (unat len) (unat (bytes_per_page ?g))) i"
      "contents cells s4 = (contents cells s)(row page := page_written ecc ?g m spare (contents cells s (row page)))"
      using write_ecc [OF dv3, of 0 0 page buf ?l] g c3 c2' g3 by (auto simp: padded_def page_written_def Let_def)
    moreover have "FNandPageWriteHwEcc page (if 0 < len then Some buf else None) 0 ?l 0 ?s3 = FNandPageWriteHwEcc page (Some buf) 0 ?l 0 ?s3"
      by (cases "0 < len") (simp_all add: FNandPageWriteHwEcc_def copy_in_def)
    ultimately show ?thesis by auto
  qed
  then obtain s4 m where s4: "FNandPageWriteHwEcc page (if 0 < len then Some buf else None) 0 (if 0 < len then len else 0) 0 ?s3 = Some (FT_SUCCESS, s4)"
      "frame ?s3 s4" "\<forall>i < 2 ^ 15. m i = padded buf (min (unat len) (unat (bytes_per_page ?g))) i"
      "contents cells s4 = (contents cells s)(row page := page_written ecc ?g m spare (contents cells s (row page)))" by blast
  let ?s5 = "FNandDisableHwEcc s4"
  have f4: "frame s s4" using frame_trans [OF f3 s4(2)] .
  have c5: "contents cells ?s5 = contents cells s4" using quiet_contents [OF frame_device [OF f4 dv] quiet_DisableHwEcc] by simp
  have "FNandWritePage page (Some buf) 0 len (Some spare) 0 FNAND_MAX_SPARE_SIZE 0 s = Some (FT_SUCCESS, ?s5)"
    using s1(1) s2(1) s4(1) d ready_0 [OF d] sp(1)
    by (cases "0 < len") (simp_all add: FNandWritePage_def dev_ok_def registered_def FNandFlashWritePageRawHwEcc_def write_oob_part_def op_data_def Let_def)
  moreover have "frame s ?s5" using frame_trans [OF f4 quiet_frame [OF quiet_DisableHwEcc]] .
  ultimately show ?thesis using s4(3,4) c5 by (auto simp: writes_page_def)
qed

interpretation wp: page_op ecc cells
  "\<lambda>s. no_result (FNandWritePage page (Some buf) 0 len (Some spare) 0 FNAND_MAX_SPARE_SIZE 0 s)" "writes_page ecc page buf len spare"
proof
  fix s assume "dev_ok ecc cells s"
  from write_page [OF this, of page buf len spare]
  show "\<exists>r s'. no_result (FNandWritePage page (Some buf) 0 len (Some spare) 0 FNAND_MAX_SPARE_SIZE 0 s) = Some (FT_SUCCESS, r, s') \<and>
      frame s s' \<and> writes_page ecc page buf len spare (nand_geometry s 0) (contents cells s) r (contents cells s')"
    by (auto simp: no_result_def)
qed

end
