(* ===== verification/NandTable.thy ===== *)
theory NandTable
  imports NandBbm
begin

text \<open>
  The bad block table as data: a kind for every block, four blocks in a byte. The form on the flash
  is the complement of the form in memory, so that a good block is the erased state; writing and
  reading a table are inverse. Marking a block changes the kind of that block only.
\<close>

section \<open>Kinds of blocks\<close>

definition kind :: "(nat \<Rightarrow> u8) \<Rightarrow> nat \<Rightarrow> nat" where
  "kind t b = unat (t (b div 4)) div 4 ^ (b mod 4) mod 4"

lemma mask_2: "(3 :: 'a::len word) = mask 2" if "2 < LENGTH('a)"
  using that by (simp add: mask_eq_exp_minus_1)

lemma and3_cases: "(y :: u32) AND 3 = 0 \<or> y AND 3 = 1 \<or> y AND 3 = 2 \<or> y AND 3 = 3"
proof -
  have "y AND 3 = take_bit 2 y" by (simp only: take_bit_eq_mask mask_eq_exp_minus_1) simp
  moreover have "unat (take_bit 2 y) < 4" by (simp only: unsigned_take_bit_eq) (simp add: take_bit_eq_mod)
  ultimately have "unat (y AND 3) < 4" by simp
  then have "unat (y AND 3) = unat (0 :: u32) \<or> unat (y AND 3) = unat (1 :: u32) \<or> unat (y AND 3) = unat (2 :: u32) \<or> unat (y AND 3) = unat (3 :: u32)"
    by auto
  then show ?thesis by (simp only: word_unat_eq_iff)
qed

lemma mask4_nth: "[0x00, 0x01, 0x02, 0x03 :: u32] ! unat (y AND 3) = y AND 3"
  using and3_cases [of y] by auto

lemma shift_values:
  "unat (FNAND_BBTBLOCKSHIFT 0) = 0" "unat (FNAND_BBTBLOCKSHIFT 1) = 2"
  "unat (FNAND_BBTBLOCKSHIFT 2) = 4" "unat (FNAND_BBTBLOCKSHIFT 3) = 6"
  by (simp_all add: FNAND_BBTBLOCKSHIFT_def FNAND_BLOCK_SHIFT_MASK_def)

lemma upt_4: "[0..<FNAND_BBT_ENTRY_NUM_BLOCKS] = [0, 1, 2, 3]"
  by (simp add: FNAND_BBT_ENTRY_NUM_BLOCKS_def upt_rec)

lemma encode_byte: "fst (fold encode_block [0..<FNAND_BBT_ENTRY_NUM_BLOCKS] (0xff, x)) = NOT x"
proof -
  have "fst (fold encode_block [0..<FNAND_BBT_ENTRY_NUM_BLOCKS] (0xff, x)) =
    (((0xff AND ucast (NOT (push_bit 0 (ucast x AND 3 :: u32)))) AND ucast (NOT (push_bit 2 (ucast (drop_bit 2 x) AND 3 :: u32))))
       AND ucast (NOT (push_bit 4 (ucast (drop_bit 4 x) AND 3 :: u32)))) AND ucast (NOT (push_bit 6 (ucast (drop_bit 6 x) AND 3 :: u32)))"
    unfolding upt_4 by (simp add: encode_block_def Let_def shift_values mask4_nth FNAND_BLOCK_TYPE_MASK_def FNAND_BBT_BLOCK_SHIFT_def)
  also have "\<dots> = NOT x"
  proof (rule bit_word_eqI)
    fix k assume "k < LENGTH(8)"
    then have "k \<in> {0, 1, 2, 3, 4, 5, 6, 7}" by auto
    then show "bit ((((0xff AND ucast (NOT (push_bit 0 (ucast x AND 3 :: u32)))) AND ucast (NOT (push_bit 2 (ucast (drop_bit 2 x) AND 3 :: u32))))
       AND ucast (NOT (push_bit 4 (ucast (drop_bit 4 x) AND 3 :: u32)))) AND ucast (NOT (push_bit 6 (ucast (drop_bit 6 x) AND 3 :: u32))) :: u8) k = bit (NOT x) k"
      by (elim insertE emptyE; simp add: bit_simps)
  qed
  finally show ?thesis .
qed

lemma convert_block_eq:
  "convert_block d i acc = (let sh = unat (FNAND_BBTBLOCKSHIFT (of_nat i)) in
     acc OR ucast (push_bit sh (NOT (drop_bit sh d) AND 3)))"
proof -
  define sh where "sh = unat (FNAND_BBTBLOCKSHIFT (of_nat i))"
  have n: "NOT y AND 3 = NOT (y AND 3) AND (3 :: u32)" for y by (rule bit_word_eqI) (auto simp: bit_simps)
  have c: "NOT y AND 3 = (if y AND 3 = 0 then 3 else if y AND 3 = 1 then 2 else if y AND 3 = 2 then 1 else (0 :: u32))" for y
  proof -
    have "NOT z AND 3 = (if z = 0 then 3 else if z = 1 then 2 else if z = 2 then 1 else (0 :: u32))"
      if "z = 0 \<or> z = 1 \<or> z = 2 \<or> z = 3" for z using that by auto
    from this [OF and3_cases] show ?thesis unfolding n [of y] .
  qed
  show ?thesis
    unfolding convert_block_def Let_def sh_def [symmetric] c
    by (simp add: FNAND_BLOCK_TYPE_MASK_def FNAND_FLASH_BLOCK_FACTORY_BAD_def FNAND_FLASH_BLOCK_RESERVED_def FNAND_FLASH_BLOCK_BAD_def
        FNAND_BLOCK_FACTORY_BAD_def FNAND_BLOCK_RESERVED_def FNAND_BLOCK_BAD_def)
qed

lemma convert_byte: "fold (convert_block (ucast b)) [0..<FNAND_BBT_ENTRY_NUM_BLOCKS] 0 = NOT (b :: u8)"
proof -
  have e: "fold (convert_block (ucast b)) [0..<FNAND_BBT_ENTRY_NUM_BLOCKS] 0 =
      ucast (push_bit 0 (NOT (drop_bit 0 (ucast b)) AND 3 :: u32)) OR ucast (push_bit 2 (NOT (drop_bit 2 (ucast b)) AND 3 :: u32))
        OR ucast (push_bit 4 (NOT (drop_bit 4 (ucast b)) AND 3 :: u32)) OR ucast (push_bit 6 (NOT (drop_bit 6 (ucast b)) AND 3 :: u32))"
    unfolding upt_4 by (simp add: convert_block_eq Let_def shift_values or.assoc)
  show ?thesis unfolding e
  proof (rule bit_word_eqI)
    fix k assume "k < LENGTH(8)"
    then have "k \<in> {0, 1, 2, 3, 4, 5, 6, 7}" by auto
    then show "bit (ucast (push_bit 0 (NOT (drop_bit 0 (ucast b)) AND 3 :: u32)) OR ucast (push_bit 2 (NOT (drop_bit 2 (ucast b)) AND 3 :: u32))
        OR ucast (push_bit 4 (NOT (drop_bit 4 (ucast b)) AND 3 :: u32)) OR ucast (push_bit 6 (NOT (drop_bit 6 (ucast b)) AND 3 :: u32)) :: u8) k = bit (NOT b) k"
      by (elim insertE emptyE; simp add: bit_simps)
  qed
qed

section \<open>Writing and reading a table are inverse\<close>

lemma encode_bbt_eq: "encode_bbt t n buf = (\<lambda>i. if i < n then NOT (t i) else buf i)"
proof -
  let ?f = "\<lambda>k buf. buf(k := fst (fold encode_block [0..<FNAND_BBT_ENTRY_NUM_BLOCKS] (buf k, t k)))"
  have "fold ?f [0..<j] m i = (if i < j then fst (fold encode_block [0..<FNAND_BBT_ENTRY_NUM_BLOCKS] (m i, t i)) else m i)" for j m i
    by (induction j arbitrary: i) auto
  then show ?thesis unfolding encode_bbt_def by (auto simp: memset_def encode_byte fun_eq_iff)
qed

lemma upd_table_fields [simp]:
  "table chip (upd_table chip f s) = f (table chip s)" "nand_geometry (upd_table c f s) = nand_geometry s"
  "upd_table c g (upd_table c f s) = upd_table c (\<lambda>t. g (f t)) s" "upd_table c (\<lambda>t. t) s = s"
  "desc w c' (upd_table c f s) = desc w c' s" "is_ready (upd_table c f s) = is_ready s"
  by (auto simp: upd_table_def desc_def split: bbt_sel.split)

lemma bbtlen_upd_table [simp]: "bbtlen c' (upd_table c f s) = bbtlen c' s"
  by (simp add: bbtlen_def)

lemma ConvertBbt_eq:
  "FNandConvertBbt buf chip s = upd_table chip (\<lambda>t i. if i < unat (bbtlen chip s) then NOT (buf i) else t i) s"
proof -
  have "fold (\<lambda>k. upd_table chip (\<lambda>t. t(k := NOT (buf k)))) [0..<j] s = upd_table chip (\<lambda>t i. if i < j then NOT (buf i) else t i) s" for j
  proof (induction j)
    case (Suc j)
    have e: "(\<lambda>t. (\<lambda>i. if i < j then NOT (buf i) else t i)(j := NOT (buf j))) = (\<lambda>t i. if i < Suc j then NOT (buf i) else t i)"
      by (auto simp: fun_eq_iff)
    have "fold (\<lambda>k. upd_table chip (\<lambda>t. t(k := NOT (buf k)))) [0..<Suc j] s =
        upd_table chip (\<lambda>t. t(j := NOT (buf j))) (upd_table chip (\<lambda>t i. if i < j then NOT (buf i) else t i) s)"
      using Suc by (simp only: upt_Suc_append le0 fold_append comp_apply fold.simps id_apply)
    also have "\<dots> = upd_table chip (\<lambda>t i. if i < Suc j then NOT (buf i) else t i) s"
      unfolding upd_table_fields(3) e ..
    finally show ?case .
  qed simp
  then show ?thesis unfolding FNandConvertBbt_def convert_byte by simp
qed

text \<open>An instance with a device of eight blocks, for examples.\<close>

definition s8 :: FNand where
  "s8 = (zero_instance 0 0 \<lparr>dev = (\<lambda>_ _. 0), trace = []\<rparr> (\<lambda>_ m. m) (\<lambda>_. 0) (\<lambda>_. 0) 0)
     \<lparr>is_ready := FT_COMPONENT_IS_READY, nand_geometry := (\<lambda>_. zero_geometry\<lparr>num_blocks := 8\<rparr>)\<rparr>"

text \<open>
  Converting a table to its form on the flash and back gives the table: whatever the memory held
  before, after reading the image of a table every entry of the device's blocks is that of the table.
\<close>

theorem table_roundtrip:
  assumes "i < unat (bbtlen chip s)"
  shows "table chip (FNandConvertBbt (encode_bbt t (unat (bbtlen chip s)) buf) chip s) i = t i"
  using assms by (simp add: ConvertBbt_eq encode_bbt_eq)

theorem table_roundtrip_witness:
  "table 0 (FNandConvertBbt (encode_bbt (\<lambda>i. if i = 1 then 0x90 else 0) (unat (bbtlen 0 s8)) (\<lambda>_. 7)) 0 s8) 1 = 0x90"
  by (rule trans, rule table_roundtrip) (simp_all add: s8_def bbtlen_def FNAND_BBT_BLOCK_SHIFT_def)

section \<open>Marking and asking\<close>

lemma block_shift: "unat (FNAND_BBTBLOCKSHIFT block) = 2 * (unat block mod 4)"
proof -
  have "FNAND_BBTBLOCKSHIFT block = push_bit 1 (take_bit 2 block)"
    unfolding FNAND_BBTBLOCKSHIFT_def FNAND_BLOCK_SHIFT_MASK_def
    by (rule bit_word_eqI) (auto simp: bit_simps bit_double_iff numeral_eq_Suc mult.commute [of _ 2] less_Suc_eq elim!: less_SucE)
  moreover have "unat (take_bit 2 block) = unat block mod 4" by (simp only: unsigned_take_bit_eq) (simp add: take_bit_eq_mod)
  moreover have "unat block mod 4 < 4" by simp
  ultimately show ?thesis by (simp add: unat_word_ariths)
qed

lemma block_byte: "unat (drop_bit FNAND_BBT_BLOCK_SHIFT (block :: u32)) = unat block div 4"
  unfolding FNAND_BBT_BLOCK_SHIFT_def by (subst unat_drop_bit_eq) (simp add: drop_bit_eq_div)

lemma kind_less: "kind t b < 4"
  by (simp add: kind_def)

text \<open>The kind as the two bits of the block.\<close>

lemma kind_bits:
  "kind t b = of_bool (bit (t (b div 4)) (2 * (b mod 4))) + 2 * of_bool (bit (t (b div 4)) (2 * (b mod 4) + 1))"
proof -
  let ?n = "unat (t (b div 4))" and ?k = "2 * (b mod 4)"
  have b: "bit (t (b div 4)) j = bit ?n j" for j by (simp add: bit_unsigned_iff)
  have "(4 :: nat) ^ (b mod 4) = 2 ^ ?k" by (simp add: power_mult)
  then have "kind t b = drop_bit ?k ?n mod 4" by (simp add: kind_def drop_bit_eq_div)
  also have "\<dots> = of_bool (bit (drop_bit ?k ?n) 0) + 2 * of_bool (bit (drop_bit ?k ?n) 1)"
    by (simp add: bit_iff_odd) presburger
  finally show ?thesis by (simp add: b bit_drop_bit_eq)
qed

lemma type_kind:
  "drop_bit (unat (FNAND_BBTBLOCKSHIFT block)) (ucast (t (unat (drop_bit FNAND_BBT_BLOCK_SHIFT block))) :: u32) AND 3 = of_nat (kind t (unat block))"
proof -
  let ?x = "t (unat block div 4)" and ?k = "2 * (unat block mod 4)"
  have "unat (drop_bit ?k (ucast ?x :: u32) AND 3) = unat (take_bit 2 (drop_bit ?k (ucast ?x :: u32)))"
    by (simp only: take_bit_eq_mask mask_eq_exp_minus_1) simp
  also have "\<dots> = take_bit 2 (drop_bit ?k (unat ?x))"
    by (simp only: unsigned_take_bit_eq unat_drop_bit_eq) (simp add: unat_ucast_up)
  also have "\<dots> = kind t (unat block)"
    by (simp add: kind_def take_bit_eq_mod drop_bit_eq_div power_mult)
  finally have "unat (drop_bit ?k (ucast ?x :: u32) AND 3) = kind t (unat block)" .
  then show ?thesis unfolding block_byte block_shift 
    using kind_less [of t "unat block"] by (simp add: word_unat_eq_iff unat_of_nat_32)
qed

lemma IsBlockBad_kind:
  assumes "is_ready s = FT_COMPONENT_IS_READY" "ucast block < num_blocks (nand_geometry s chip)"
  shows "FNandIsBlockBad block chip s = Some (if kind (table chip s) (unat block) \<noteq> 0 then FT_SUCCESS else FNAND_VALUE_FAILURE)"
proof -
  have "(of_nat (kind (table chip s) (unat block)) :: u32) = 0 \<longleftrightarrow> kind (table chip s) (unat block) = 0"
    using kind_less [of "table chip s" "unat block"] by (simp add: word_unat_eq_iff unat_of_nat_32)
  then show ?thesis
    using assms type_kind [of block "table chip s"]
    by (simp add: FNandIsBlockBad_def Let_def FNAND_BLOCK_TYPE_MASK_def FNAND_BLOCK_GOOD_def)
qed

lemma block_type_kind: "block_type block chip s = of_nat (kind (table chip s) (unat block))"
  using type_kind [of block "table chip s"] by (simp add: block_type_def FNAND_BLOCK_TYPE_MASK_def)

lemma set_bad_bits:
  assumes "j < 8"
  shows "bit (set_bad block x) j = (let k = 2 * (unat block mod 4) in
    if j = k then True else if j = k + 1 then False else bit x j)"
proof -
  have "unat block mod 4 \<in> {0, 1, 2, 3}" by auto
  moreover have "j \<in> {0, 1, 2, 3, 4, 5, 6, 7}" using assms by auto
  ultimately show ?thesis unfolding set_bad_def Let_def block_shift FNAND_BLOCK_TYPE_MASK_def FNAND_BLOCK_BAD_def
    by (elim insertE emptyE; simp add: bit_simps)
qed

lemma kind_set_bad:
  "kind (t(unat block div 4 := set_bad block (t (unat block div 4)))) b = (if b = unat block then 1 else kind t b)"
proof -
  have r: "b mod 4 < 4" "unat block mod 4 < 4" by simp_all
  show ?thesis
  proof (cases "b div 4 = unat block div 4")
    case True
    moreover have "b = unat block \<longleftrightarrow> b mod 4 = unat block mod 4" using True by (metis div_mult_mod_eq)
    ultimately show ?thesis using r by (auto simp: kind_bits set_bad_bits Let_def)
  qed (auto simp: kind_bits)
qed

end
