(* ===== verification/NandPersist.thy ===== *)
theory NandPersist
  imports NandApi NandTable
begin

text \<open>
  The bad block table over time. A table is held by a block when the first page of the block has the
  table's image, the signature and the version; the two copies are \<open>synced\<close> when each descriptor
  points to a block that holds the table in memory, with one version and no other block that could
  be taken for it. Updating keeps the copies synced, and a scan after a restart finds them.
\<close>

section \<open>Geometry\<close>

abbreviation blocks :: "FNandNandGeometry \<Rightarrow> nat" where
  "blocks g \<equiv> unat (num_blocks g)"

abbreviation ppb :: "FNandNandGeometry \<Rightarrow> nat" where
  "ppb g \<equiv> unat (pages_per_block g)"

abbreviation bpp :: "FNandNandGeometry \<Rightarrow> nat" where
  "bpp g \<equiv> unat (bytes_per_page g)"

text \<open>
  The signature and the version lie before the check bytes, the table covers all blocks and fits a
  page and the table in memory, and the pages can be addressed with three bytes.
\<close>

definition bbm_geom :: "FNandNandGeometry \<Rightarrow> bool" where
  "bbm_geom g \<longleftrightarrow> geom_ok g \<and> 12 < unat (ecc_offset g) \<and> 0 < ppb g \<and> 4 dvd blocks g \<and> 8 \<le> blocks g \<and>
     blocks g \<le> 32768 \<and> blocks g * ppb g \<le> 2 ^ 24 \<and> blocks g div 4 \<le> bpp g"

definition first_page :: "FNandNandGeometry \<Rightarrow> nat \<Rightarrow> u32" where
  "first_page g b = of_nat b * pages_per_block g"

lemma first_page_row:
  assumes "bbm_geom g" "b < blocks g"
  shows "unat (first_page g b) = b * ppb g" "row (first_page g b) = b * ppb g" "b * ppb g div ppb g = b"
    "first_page g b div pages_per_block g = of_nat b"
proof -
  have p: "0 < ppb g" "blocks g * ppb g \<le> 2 ^ 24" "blocks g \<le> 32768" using assms(1) by (auto simp: bbm_geom_def)
  have lt: "b * ppb g < blocks g * ppb g" using assms(2) p(1) by simp
  then have bl: "b * ppb g < 2 ^ 24" using p(2) by linarith
  have b: "unat (of_nat b :: u32) = b" using assms(2) p(3) by (simp add: unat_of_nat_32)
  show u: "unat (first_page g b) = b * ppb g" using bl b by (simp add: first_page_def unat_word_ariths)
  then show "row (first_page g b) = b * ppb g" using bl by (simp add: row_def)
  show d: "b * ppb g div ppb g = b" using p(1) by simp
  show "first_page g b div pages_per_block g = of_nat b"
    using u d b by (simp add: word_unat_eq_iff unat_div)
qed

lemma first_page_inj: "bbm_geom g \<Longrightarrow> b < blocks g \<Longrightarrow> c < blocks g \<Longrightarrow> first_page g b = first_page g c \<longleftrightarrow> b = c"
  by (metis first_page_row(1,3))

lemma bbtlen_eq:
  assumes "bbm_geom (nand_geometry s 0)"
  shows "unat (bbtlen 0 s) = blocks (nand_geometry s 0) div 4"
proof -
  have n: "unat (drop_bit 2 (num_blocks (nand_geometry s 0))) = blocks (nand_geometry s 0) div 4"
    by (subst unat_drop_bit_eq) (simp add: drop_bit_eq_div)
  have "blocks (nand_geometry s 0) \<le> 32768" using assms by (simp add: bbm_geom_def)
  then have "blocks (nand_geometry s 0) div 4 < 2 ^ 32" by simp
  then show ?thesis
    using n unat_ucast_small [of "drop_bit 2 (num_blocks (nand_geometry s 0))", where 'b = 32]
    by (simp add: bbtlen_def FNAND_BBT_BLOCK_SHIFT_def)
qed

section \<open>A block that holds a table\<close>

fun sig_of :: "bbt_sel \<Rightarrow> u8 list" where
  "sig_of Primary = sig_primary" | "sig_of Mirror = sig_mirror"

definition has_sig :: "FNandNandGeometry \<Rightarrow> flash \<Rightarrow> bbt_sel \<Rightarrow> nat \<Rightarrow> bool" where
  "has_sig g f w b \<longleftrightarrow> (\<forall>k < 4. f (b * ppb g) (bpp g + 8 + k) = sig_of w ! k)"

definition holds :: "FNandNandGeometry \<Rightarrow> flash \<Rightarrow> bbt_sel \<Rightarrow> nat \<Rightarrow> (nat \<Rightarrow> u8) \<Rightarrow> u8 \<Rightarrow> bool" where
  "holds g f w b t v \<longleftrightarrow> has_sig g f w b \<and> f (b * ppb g) (bpp g + 12) = v \<and>
     (\<forall>i < blocks g div 4. f (b * ppb g) i = NOT (t i))"

text \<open>Block \<open>b\<close> is the only one of the last four that carries the signature.\<close>

definition only :: "FNandNandGeometry \<Rightarrow> flash \<Rightarrow> bbt_sel \<Rightarrow> nat \<Rightarrow> bool" where
  "only g f w b \<longleftrightarrow> blocks g - 4 \<le> b \<and> b < blocks g \<and> (\<forall>c. blocks g - 4 \<le> c \<longrightarrow> c < blocks g \<longrightarrow> has_sig g f w c \<longrightarrow> c = b)"

definition std :: "bbt_sel \<Rightarrow> FNandBbtDesc \<Rightarrow> bool" where
  "std w d \<longleftrightarrow> sig_offset d = 8 \<and> ver_offset d = 12 \<and> sig_length d = 4 \<and> max_blocks d = 4 \<and> signature d = sig_of w"

lemma sig_differ: "has_sig g f Primary b \<Longrightarrow> has_sig g f Mirror b \<Longrightarrow> False"
  unfolding has_sig_def by (drule spec [of _ 0], drule spec [of _ 0]) (simp add: sig_primary_def sig_mirror_def)

lemma has_sig_cong: "f (b * ppb g) = f' (b * ppb g) \<Longrightarrow> has_sig g f w b = has_sig g f' w b"
  by (simp add: has_sig_def)

lemma holds_cong: "f (b * ppb g) = f' (b * ppb g) \<Longrightarrow> holds g f w b t v = holds g f' w b t v"
  by (simp add: holds_def has_sig_def)

section \<open>Writing a table\<close>

text \<open>The page after an erase and a write: the image of the table, then signature and version.\<close>

lemma written_page:
  fixes ecc :: "(nat \<Rightarrow> u8) \<Rightarrow> nat \<Rightarrow> u8" and loc m t buf :: "nat \<Rightarrow> u8" and g :: FNandNandGeometry and d :: FNandBbtDesc
  assumes g: "bbm_geom g" and d: "std w d" and v: "version d = v"
    and m: "\<forall>i < 2 ^ 15. m i = padded (encode_bbt t (blocks g div 4) buf) (min (blocks g div 4) (bpp g)) i"
  defines "p \<equiv> page_written ecc g m (spare_of d (unat (spare_bytes_per_page g)) loc) (\<lambda>c. 0xff)"
  shows "i < blocks g div 4 \<Longrightarrow> p i = NOT (t i)" "k < 4 \<Longrightarrow> p (bpp g + 8 + k) = sig_of w ! k" "p (bpp g + 12) = v"
proof -
  have gg: "blocks g div 4 \<le> bpp g" "bpp g + unat (spare_bytes_per_page g) \<le> 2 ^ 15" "12 < unat (ecc_offset g)"
    "unat (ecc_offset g) + unat (hw_ecc_length g) \<le> unat (spare_bytes_per_page g)"
    using g by (auto simp: bbm_geom_def geom_ok_def)
  have ff: "(0xff :: u8) = -1" by simp
  have ones: "(0xff :: u8) AND x = x" for x unfolding ff by simp
  have data: "p i = m i" if "i < bpp g" for i
    using that by (simp add: p_def page_written_def program_def Let_def ones)
  have sp: "p (bpp g + j) = spare_of d (unat (spare_bytes_per_page g)) loc j" if "j < unat (ecc_offset g)" for j
    using that gg(4) by (simp add: p_def page_written_def program_def Let_def ones)
  show "p i = NOT (t i)" if "i < blocks g div 4"
  proof -
    have "i < bpp g" "i < 2 ^ 15" using that gg(1,2) by linarith+
    then show ?thesis using data m that gg(1) by (simp add: padded_def memcpy_def encode_bbt_eq)
  qed
  have s: "sig_offset d = 8" "ver_offset d = 12" "sig_length d = 4" "signature d = sig_of w" using d by (simp_all add: std_def)
  show "p (bpp g + 8 + k) = sig_of w ! k" if "k < 4"
    using that gg(3) sp [of "8 + k"] by (simp add: spare_of_def memcpy_def memset_def s add.assoc)
  show "p (bpp g + 12) = v"
    using gg(3) sp [of 12] v by (simp add: spare_of_def s)
qed

text \<open>A descriptor that has its place: block \<open>b\<close>.\<close>

definition placed :: "bbt_sel \<Rightarrow> nat \<Rightarrow> FNand \<Rightarrow> bool" where
  "placed w b s \<longleftrightarrow> std w (desc w 0 s) \<and> valid (desc w 0 s) \<noteq> 0 \<and> b < blocks (nand_geometry s 0) \<and>
     desc_page_offset (desc w 0 s) = first_page (nand_geometry s 0) b"

lemma no_result_Some: "no_result r = Some (e, u, s) \<longleftrightarrow> r = Some (e, s)"
  by (cases r) (auto simp: no_result_def)

lemma desc_manager: "bbt_manager s' = bbt_manager s \<Longrightarrow> desc w c s' = desc w c s"
  by (simp add: desc_def cong: bbt_sel.case_cong)

lemma placed_frame: "bbt_manager s' = bbt_manager s \<Longrightarrow> nand_geometry s' = nand_geometry s \<Longrightarrow> placed w b s' = placed w b s"
  by (simp add: placed_def desc_manager [of s' s])

lemma write_bbt:
  assumes dv: "dev_ok ecc cells s" and g: "bbm_geom (nand_geometry s 0)" and pl: "placed w b s"
  obtains s' where "FNandWriteBbt w 0 s = Some (FT_SUCCESS, s')" "frame s s'"
    "holds (nand_geometry s 0) (contents cells s') w b (table 0 s) (version (desc w 0 s))"
    "\<forall>p. p div ppb (nand_geometry s 0) \<noteq> b \<longrightarrow> contents cells s' p = contents cells s p"
proof -
  let ?g = "nand_geometry s 0" and ?n = "bbtlen 0 s"
  let ?buf = "encode_bbt (table 0 s) (unat ?n) (locals s)"
  have b: "b < blocks ?g" and d: "std w (desc w 0 s)" "valid (desc w 0 s) \<noteq> 0" "desc_page_offset (desc w 0 s) = first_page ?g b"
    using pl by (simp_all add: placed_def)
  note row = first_page_row [OF g b]
  have ch: "choose_block w 0 s = (Some (of_nat b), s)" using d row(4) by (simp add: choose_block_def)
  obtain u s1 where s1: "no_result (FNandEraseBlock (of_nat b) 0 s) = Some (FT_SUCCESS, u, s1)" "dev_ok ecc cells s1"
    "bbt_manager s1 = bbt_manager s" "nand_geometry s1 = nand_geometry s" "locals s1 = locals s" "frame s s1"
    "erases (of_nat b) ?g (contents cells s) u (contents cells s1)" by (rule er.finished [OF dv])
  let ?sp = "spare_of (desc w 0 s) (unat (spare_bytes_per_page ?g)) (locals s)"
  obtain v s2 where s2: "no_result (FNandWritePage (first_page ?g b) (Some ?buf) 0 ?n (Some ?sp) 0 FNAND_MAX_SPARE_SIZE 0 s1) = Some (FT_SUCCESS, v, s2)"
    "frame s1 s2" "writes_page ecc (first_page ?g b) ?buf ?n ?sp ?g (contents cells s1) v (contents cells s2)"
    using wp.finished [OF s1(2), of "first_page ?g b" ?buf ?n ?sp] s1(4) by metis
  have e: "contents cells s1 = erase_block (ppb ?g) (b * ppb ?g) (contents cells s)"
    using s1(7) row(2) by (simp add: erases_def first_page_def)
  have fr: "FNandWriteBbt w 0 s = Some (FT_SUCCESS, s2)"
    using s1(1) s2(1) d(3) unfolding no_result_Some
    by (simp add: FNandWriteBbt_def ch Let_def desc_manager [OF s1(3)] s1(4,5))
  obtain m where m: "\<forall>i < 2 ^ 15. m i = padded ?buf (min (unat ?n) (bpp ?g)) i"
    and c2: "contents cells s2 = (contents cells s1)(b * ppb ?g := page_written ecc ?g m ?sp (contents cells s1 (b * ppb ?g)))"
    using s2(3) row(2) by (auto simp: writes_page_def)
  have blank: "contents cells s1 (b * ppb ?g) = (\<lambda>c. 0xff)" by (simp add: e erase_block_def)
  note bl = bbtlen_eq [OF g]
  have pg: "contents cells s2 (b * ppb ?g) = page_written ecc ?g m ?sp (\<lambda>c. 0xff)" using c2 blank by simp
  note w = written_page [OF g d(1) refl m [unfolded bl], where loc = "locals s" and ecc = ecc, folded pg]
  have h: "holds ?g (contents cells s2) w b (table 0 s) (version (desc w 0 s))"
    unfolding holds_def has_sig_def using w by blast
  have o: "contents cells s2 p = contents cells s p" if "p div ppb ?g \<noteq> b" for p
  proof -
    have "p \<noteq> b * ppb ?g" using that row(3) by metis
    then show ?thesis using that row(3) by (simp add: c2 e erase_block_def)
  qed
  show thesis using that [OF fr frame_trans [OF s1(6) s2(2)] h] o by blast
qed

section \<open>Searching a table\<close>

definition found :: "FNandNandGeometry \<Rightarrow> flash \<Rightarrow> nat \<Rightarrow> FNandBbtDesc \<Rightarrow> FNandBbtDesc" where
  "found g f b d = d\<lparr>desc_page_offset := first_page g b, version := f (b * ppb g) (bpp g + 12), valid := 1\<rparr>"

text \<open>One round: the spare area of the first page of block \<open>c\<close> is read and compared.\<close>

lemma search_round:
  assumes dv: "dev_ok ecc cells s" and g: "bbm_geom (nand_geometry s 0)" and st: "std w (desc w 0 s)"
    and c: "c < blocks (nand_geometry s 0)"
  obtains buf' s' where "frame s s'" "contents cells s' = contents cells s"
    "search_bbt w 0 (Suc n) (of_nat c) buf s =
      (if has_sig (nand_geometry s 0) (contents cells s) w c
       then Some (FT_SUCCESS, upd_desc w 0 (found (nand_geometry s 0) (contents cells s) c) s')
       else search_bbt w 0 n (of_nat c - 1) buf' s')"
proof -
  let ?g = "nand_geometry s 0" and ?f = "contents cells s"
  obtain r s1 where s1: "FNandReadPageOOb (first_page ?g c) (Some buf) 0 FNAND_MAX_SPARE_SIZE 0 s = Some (FT_SUCCESS, r, s1)"
    "bbt_manager s1 = bbt_manager s" "frame s s1" "reads_oob (first_page ?g c) buf FNAND_MAX_SPARE_SIZE ?g ?f r (contents cells s1)"
    using ro.finished [OF dv] by metis
  have gg: "12 < unat (spare_bytes_per_page ?g)" "unat (spare_bytes_per_page ?g) \<le> unat FNAND_MAX_SPARE_SIZE"
    using g by (auto simp: bbm_geom_def geom_ok_def FNAND_MAX_SPARE_SIZE_def)
  define buf' where "buf' = memcpy buf 0 (?f (c * ppb ?g)) (bpp ?g) (unat (spare_bytes_per_page ?g))"
  have r: "r = Some buf'" "contents cells s1 = ?f"
    using s1(4) gg(2) first_page_row(2) [OF g c] by (simp_all add: reads_oob_def buf'_def min_absorb2)
  have d: "sig_offset (desc w 0 s) = 8" "ver_offset (desc w 0 s) = 12" "sig_length (desc w 0 s) = 4" "signature (desc w 0 s) = sig_of w"
    using st by (simp_all add: std_def)
  have k: "buf' (j + 8) = ?f (c * ppb ?g) (bpp ?g + 8 + j)" if "j < 4" for j
    using that gg(1) by (simp add: buf'_def memcpy_def ac_simps)
  have v: "buf' 12 = ?f (c * ppb ?g) (bpp ?g + 12)" using gg(1) by (simp add: buf'_def memcpy_def)
  have sg: "list_all (\<lambda>k. buf' (k + 8) = sig_of w ! k) [0..<4] = has_sig ?g ?f w c"
    using k by (auto simp: list_all_iff has_sig_def)
  have fd: "upd_desc w 0 (\<lambda>d. d\<lparr>desc_page_offset := first_page ?g c, version := buf' (unat (ver_offset d)), valid := 1\<rparr>) s1 =
      upd_desc w 0 (found ?g ?f c) s1"
    using d(2) by (cases w) (simp_all add: upd_desc_def desc_manager [OF s1(2)] s1(2) found_def v desc_def Let_def)
  show thesis
  proof (rule that [OF s1(3) r(2)])
    show "search_bbt w 0 (Suc n) (of_nat c) buf s =
      (if has_sig ?g ?f w c then Some (FT_SUCCESS, upd_desc w 0 (found ?g ?f c) s1) else search_bbt w 0 n (of_nat c - 1) buf' s1)"
      using s1(1) by (simp add: first_page_def [symmetric] r(1) Let_def desc_manager [OF s1(2)] d sg fd)
  qed
qed

lemma search_finds:
  assumes "dev_ok ecc cells s" "bbm_geom (nand_geometry s 0)" "std w (desc w 0 s)"
    and "c < blocks (nand_geometry s 0)" "b \<le> c" "c < b + n" "has_sig (nand_geometry s 0) (contents cells s) w b"
    and "\<And>k. b < k \<Longrightarrow> k \<le> c \<Longrightarrow> \<not> has_sig (nand_geometry s 0) (contents cells s) w k"
  shows "\<exists>s'. search_bbt w 0 n (of_nat c) buf s =
      Some (FT_SUCCESS, upd_desc w 0 (found (nand_geometry s 0) (contents cells s) b) s') \<and> frame s s' \<and> contents cells s' = contents cells s"
  using assms
proof (induction n arbitrary: c buf s)
  case (Suc n)
  let ?g = "nand_geometry s 0" and ?f = "contents cells s"
  obtain buf' s1 where s1: "frame s s1" "contents cells s1 = contents cells s"
    "search_bbt w 0 (Suc n) (of_nat c) buf s = (if has_sig ?g ?f w c then Some (FT_SUCCESS, upd_desc w 0 (found ?g ?f c) s1)
       else search_bbt w 0 n (of_nat c - 1) buf' s1)"
    by (rule search_round [OF Suc.prems(1-4)])
  show ?case
  proof (cases "has_sig ?g ?f w c")
    case True
    then have "b = c" using Suc.prems(5,8) by (cases "b < c") auto
    then show ?thesis using True s1 by auto
  next
    case False
    then have lt: "b < c" using Suc.prems(5,7) by (cases "b = c") auto
    have e: "(of_nat c :: u32) - 1 = of_nat (c - 1)" using lt by (simp add: of_nat_diff)
    have fld: "bbt_manager s1 = bbt_manager s" "nand_geometry s1 = nand_geometry s" using frame_fields [OF s1(1)] by auto
    have "\<exists>s'. search_bbt w 0 n (of_nat (c - 1)) buf' s1 =
      Some (FT_SUCCESS, upd_desc w 0 (found (nand_geometry s1 0) (contents cells s1) b) s') \<and> frame s1 s' \<and> contents cells s' = contents cells s1"
      using Suc.prems lt fld s1(2) by (intro Suc.IH frame_dev_ok [OF s1(1)]) (auto simp: desc_manager [OF fld(1)])
    then show ?thesis using s1 False e fld frame_trans [OF s1(1)] by auto
  qed
qed simp

lemma search_misses:
  assumes "dev_ok ecc cells s" "bbm_geom (nand_geometry s 0)" "std w (desc w 0 s)"
    and "c < blocks (nand_geometry s 0)" "n \<le> c"
    and "\<And>k. c < k + n \<Longrightarrow> k \<le> c \<Longrightarrow> \<not> has_sig (nand_geometry s 0) (contents cells s) w k"
  shows "\<exists>s'. search_bbt w 0 n (of_nat c) buf s = Some (FNAND_VALUE_ERROR, s') \<and> frame s s' \<and> contents cells s' = contents cells s"
  using assms
proof (induction n arbitrary: c buf s)
  case (Suc n)
  let ?g = "nand_geometry s 0" and ?f = "contents cells s"
  obtain buf' s1 where s1: "frame s s1" "contents cells s1 = contents cells s"
    "search_bbt w 0 (Suc n) (of_nat c) buf s = (if has_sig ?g ?f w c then Some (FT_SUCCESS, upd_desc w 0 (found ?g ?f c) s1)
       else search_bbt w 0 n (of_nat c - 1) buf' s1)"
    by (rule search_round [OF Suc.prems(1-4)])
  have ns: "\<not> has_sig ?g ?f w c" using Suc.prems(6) by simp
  have e: "(of_nat c :: u32) - 1 = of_nat (c - 1)" using Suc.prems(5) by (simp add: of_nat_diff)
  have fld: "bbt_manager s1 = bbt_manager s" "nand_geometry s1 = nand_geometry s" using frame_fields [OF s1(1)] by auto
  have "\<exists>s'. search_bbt w 0 n (of_nat (c - 1)) buf' s1 = Some (FNAND_VALUE_ERROR, s') \<and> frame s1 s' \<and> contents cells s' = contents cells s1"
    using Suc.prems fld s1(2) by (intro Suc.IH frame_dev_ok [OF s1(1)]) (auto simp: desc_manager [OF fld(1)])
  then show ?case using s1 ns e frame_trans [OF s1(1)] by auto
qed auto

end
