(* ===== verification/NandSync.thy ===== *)
theory NandSync
  imports NandPersist
begin

text \<open>
  The two copies of the table together: \<open>synced\<close> is the invariant of a device in operation. Marking
  a block keeps it, and a scan establishes it from the copies on the flash, also when an update was
  interrupted between the two.
\<close>

section \<open>Changes of the manager\<close>

lemma upd_desc_fields [simp]:
  "desc w c (upd_desc w c f s) = f (desc w c s)" "desc (other w) c (upd_desc w c f s) = desc (other w) c s"
  "desc w c (upd_desc (other w) c f s) = desc w c s"
  "nand_geometry (upd_desc w c f s) = nand_geometry s" "table c' (upd_desc w c f s) = table c' s"
  "is_ready (upd_desc w c f s) = is_ready s" "bbtlen c' (upd_desc w c f s) = bbtlen c' s"
  "contents cells (upd_desc w c f s) = contents cells s" "locals (upd_desc w c f s) = locals s"
  by (cases w; simp add: upd_desc_def desc_def Let_def bbtlen_def contents_def)+

lemmas upd_desc_other [simp] =
  upd_desc_fields(2) [of Primary, simplified] upd_desc_fields(2) [of Mirror, simplified]

lemma contents_upd_table [simp]: "contents cells (upd_table c f s) = contents cells s"
  by (simp add: upd_table_def contents_def)

lemma dev_ok_manager [simp]: "dev_ok ecc cells (s\<lparr>bbt_manager := m\<rparr>) = dev_ok ecc cells s"
  by (simp add: dev_ok_def registered_def flash_device_def prompt_def chip_runs_def waits_def state_reg_def)

lemma dev_ok_upd [simp]: "dev_ok ecc cells (upd_desc w c f s) = dev_ok ecc cells s" "dev_ok ecc cells (upd_table c t s) = dev_ok ecc cells s"
  by (simp_all add: upd_desc_def upd_table_def Let_def)

lemma placed_upd [simp]:
  "placed w b (upd_table c t s) = placed w b s" "placed w b (upd_desc (other w) 0 f s) = placed w b s"
  by (simp_all add: placed_def)

lemmas placed_upd_other [simp] = placed_upd(2) [of Primary, simplified] placed_upd(2) [of Mirror, simplified]

section \<open>A copy on the flash\<close>

definition copy :: "FNandNandGeometry \<Rightarrow> flash \<Rightarrow> bbt_sel \<Rightarrow> nat \<Rightarrow> (nat \<Rightarrow> u8) \<Rightarrow> u8 \<Rightarrow> bool" where
  "copy g f w b t v \<longleftrightarrow> holds g f w b t v \<and> only g f w b"

lemma copy_cong: "copy g f w b t v \<Longrightarrow> (\<And>i. i < blocks g div 4 \<Longrightarrow> t i = u i) \<Longrightarrow> copy g f w b u v"
  by (simp add: copy_def holds_def)

lemma only_written:
  assumes g: "bbm_geom g" and h: "holds g f' w b t v" and b: "blocks g - 4 \<le> b" "b < blocks g"
    and same: "\<forall>p. p div ppb g \<noteq> b \<longrightarrow> f' p = f p"
    and free: "\<And>c. blocks g - 4 \<le> c \<Longrightarrow> c < blocks g \<Longrightarrow> has_sig g f w c \<Longrightarrow> c = b"
  shows "copy g f' w b t v"
proof -
  have "c = b" if c: "blocks g - 4 \<le> c" "c < blocks g" "has_sig g f' w c" for c
  proof (rule ccontr)
    assume "c \<noteq> b"
    then have "f' (c * ppb g) = f (c * ppb g)" using same first_page_row(3) [OF g c(2)] by simp
    then have "has_sig g f w c" using c(3) has_sig_cong [of f' c g f w] by (simp only:)
    then show False using free [OF c(1,2)] \<open>c \<noteq> b\<close> by blast
  qed
  then show ?thesis unfolding copy_def only_def using h b by blast
qed

lemma other_kept:
  assumes g: "bbm_geom g" and h: "holds g f' w b t v" and c: "copy g f (other w) c u x" and ne: "b \<noteq> c"
    and same: "\<forall>p. p div ppb g \<noteq> b \<longrightarrow> f' p = f p"
  shows "copy g f' (other w) c u x"
proof -
  have cb: "c < blocks g" using c by (simp add: copy_def only_def)
  have fc: "f' (c * ppb g) = f (c * ppb g)" using same ne first_page_row(3) [OF g cb] by simp
  have "k = c" if k: "blocks g - 4 \<le> k" "k < blocks g" "has_sig g f' (other w) k" for k
  proof (cases "k = b")
    case True
    then show ?thesis using k(3) h sig_differ by (cases w) (auto simp: holds_def)
  next
    case False
    then have "f' (k * ppb g) = f (k * ppb g)" using same first_page_row(3) [OF g k(2)] by simp
    then have "has_sig g f (other w) k" using k(3) has_sig_cong [of f' k g f "other w"] by (simp only:)
    then show ?thesis using c k(1,2) by (auto simp: copy_def only_def)
  qed
  then show ?thesis using c holds_cong [of f' c g f, OF fc] by (auto simp: copy_def only_def)
qed

text \<open>Writing one copy next to the other.\<close>

lemma write_copy:
  assumes dv: "dev_ok ecc cells s" and g: "bbm_geom (nand_geometry s 0)" and pl: "placed w b s"
    and o: "only (nand_geometry s 0) (contents cells s) w b"
    and c: "copy (nand_geometry s 0) (contents cells s) (other w) c u x" and ne: "b \<noteq> c"
  obtains s' where "FNandWriteBbt w 0 s = Some (FT_SUCCESS, s')" "frame s s'"
    "copy (nand_geometry s 0) (contents cells s') w b (table 0 s) (version (desc w 0 s))"
    "copy (nand_geometry s 0) (contents cells s') (other w) c u x"
proof -
  obtain s' where s': "FNandWriteBbt w 0 s = Some (FT_SUCCESS, s')" "frame s s'"
    "holds (nand_geometry s 0) (contents cells s') w b (table 0 s) (version (desc w 0 s))"
    "\<forall>p. p div ppb (nand_geometry s 0) \<noteq> b \<longrightarrow> contents cells s' p = contents cells s p"
    by (rule write_bbt [OF dv g pl])
  show thesis
    by (rule that [OF s'(1,2) only_written [OF g s'(3) _ _ s'(4)] other_kept [OF g s'(3) c ne s'(4)]]) (use o in \<open>auto simp: only_def\<close>)
qed

section \<open>Reading\<close>

lemma last_block:
  assumes "bbm_geom g"
  shows "(ucast (num_blocks g - 1) :: u32) = of_nat (blocks g - 1)"
proof -
  have b: "8 \<le> blocks g" "blocks g \<le> 32768" using assms by (auto simp: bbm_geom_def)
  have "num_blocks g \<noteq> 0" using b(1) by auto
  then have "unat (num_blocks g - 1) = blocks g - 1" by (simp add: unat_minus_one)
  then have "unat (ucast (num_blocks g - 1) :: u32) = blocks g - 1"
    using b by (subst unat_ucast_small) simp_all
  moreover have "unat (of_nat (blocks g - 1) :: u32) = blocks g - 1" using b by (intro unat_of_nat_32) simp
  ultimately show ?thesis by (simp only: word_unat_eq_iff)
qed

lemma SearchBbt_finds:
  assumes dv: "dev_ok ecc cells s" and g: "bbm_geom (nand_geometry s 0)" and st: "std w (desc w 0 s)"
    and c: "copy (nand_geometry s 0) (contents cells s) w b t v"
  obtains s' where "FNandSearchBbt w 0 s = Some (FT_SUCCESS, upd_desc w 0 (found (nand_geometry s 0) (contents cells s) b) s')"
    "frame s s'" "contents cells s' = contents cells s"
proof -
  let ?N = "blocks (nand_geometry s 0)"
  have N: "8 \<le> ?N" using g by (simp add: bbm_geom_def)
  have o: "?N - 4 \<le> b" "b < ?N" "has_sig (nand_geometry s 0) (contents cells s) w b"
    "\<And>k. ?N - 4 \<le> k \<Longrightarrow> k < ?N \<Longrightarrow> has_sig (nand_geometry s 0) (contents cells s) w k \<Longrightarrow> k = b"
    using c by (auto simp: copy_def only_def holds_def)
  have 4: "max_blocks (desc w 0 s) = 4" using st by (simp add: std_def)
  have "\<exists>s'. search_bbt w 0 4 (of_nat (?N - 1)) (locals s) s =
      Some (FT_SUCCESS, upd_desc w 0 (found (nand_geometry s 0) (contents cells s) b) s') \<and> frame s s' \<and> contents cells s' = contents cells s"
  proof (rule search_finds [OF dv g st _ _ _ o(3)])
    show "?N - 1 < ?N" "b \<le> ?N - 1" "?N - 1 < b + 4" using N o(1,2) by linarith+
    show "\<not> has_sig (nand_geometry s 0) (contents cells s) w k" if "b < k" "k \<le> ?N - 1" for k
    proof
      assume "has_sig (nand_geometry s 0) (contents cells s) w k"
      moreover have "?N - 4 \<le> k" "k < ?N" using that o(1) N by linarith+
      ultimately show False using o(4) that(1) by blast
    qed
  qed
  then show thesis using that last_block [OF g] by (auto simp: FNandSearchBbt_def 4)
qed

lemma load:
  assumes dv: "dev_ok ecc cells s" and g: "bbm_geom (nand_geometry s 0)" and b: "b < blocks (nand_geometry s 0)"
    and p: "desc_page_offset (desc w 0 s) = first_page (nand_geometry s 0) b"
    and h: "holds (nand_geometry s 0) (contents cells s) w' b t v"
  obtains s' where "load_table w 0 s = Some (FT_SUCCESS, upd_table 0 (\<lambda>u i. if i < blocks (nand_geometry s 0) div 4 then t i else u i) s')"
    "frame s s'" "contents cells s' = contents cells s"
proof -
  let ?g = "nand_geometry s 0" and ?n = "blocks (nand_geometry s 0) div 4"
  note bl = bbtlen_eq [OF g]
  obtain r s1 where s1: "pair_result (FNandReadPage (first_page ?g b) (Some (locals s)) 0 (bbtlen 0 s) None 0 0 0 s) = Some (FT_SUCCESS, r, s1)"
    "bbt_manager s1 = bbt_manager s" "nand_geometry s1 = nand_geometry s" "locals s1 = locals s" "frame s s1"
    "reads_page (first_page ?g b) (locals s) (bbtlen 0 s) ?g (contents cells s) r (contents cells s1)"
    by (rule rp.finished [OF dv])
  have n: "min (unat (bbtlen 0 s)) (bpp ?g) = ?n" using g bl by (simp add: bbm_geom_def)
  let ?buf = "memcpy (locals s) 0 (contents cells s (b * ppb ?g)) 0 ?n"
  have r: "r = (Some ?buf, None)" "contents cells s1 = contents cells s"
    using s1(6) first_page_row(2) [OF g b] by (simp_all add: reads_page_def n)
  have rd: "FNandReadPage (first_page ?g b) (Some (locals s)) 0 (bbtlen 0 s) None 0 0 0 s = Some (FT_SUCCESS, Some ?buf, None, s1)"
    using s1(1) r(1) by (auto simp: pair_result_def)
  have bl1: "unat (bbtlen 0 s1) = ?n" using bbtlen_eq [of s1] g s1(3) by simp
  have "NOT (?buf i) = t i" if "i < ?n" for i using that h by (simp add: memcpy_def holds_def)
  then have e: "(\<lambda>u i. if i < ?n then NOT (?buf i) else u i) = (\<lambda>u i. if i < ?n then t i else u i)" by (auto simp: fun_eq_iff)
  have "load_table w 0 s = Some (FT_SUCCESS, upd_table 0 (\<lambda>u i. if i < ?n then t i else u i) s1)"
    by (simp only: load_table_def p rd) (simp add: ConvertBbt_eq bl1 e cong: if_cong)
  then show thesis by (rule that [OF _ s1(5) r(2)])
qed

section \<open>The invariant\<close>

definition synced :: "(nand_history \<Rightarrow> flash) \<Rightarrow> nat \<Rightarrow> nat \<Rightarrow> FNand \<Rightarrow> bool" where
  "synced cells bp bm s \<longleftrightarrow> bp \<noteq> bm \<and> placed Primary bp s \<and> placed Mirror bm s \<and>
     version (desc Primary 0 s) = version (desc Mirror 0 s) \<and>
     copy (nand_geometry s 0) (contents cells s) Primary bp (table 0 s) (version (desc Primary 0 s)) \<and>
     copy (nand_geometry s 0) (contents cells s) Mirror bm (table 0 s) (version (desc Mirror 0 s))"

text \<open>Any state with its descriptors in place is synced again by an update.\<close>

lemma update_syncs:
  assumes dv: "dev_ok ecc cells s" and g: "bbm_geom (nand_geometry s 0)" and ne: "bp \<noteq> bm"
    and pl: "placed Primary bp s" "placed Mirror bm s" and v: "version (desc Primary 0 s) = version (desc Mirror 0 s)"
    and c: "copy (nand_geometry s 0) (contents cells s) Primary bp t x" "copy (nand_geometry s 0) (contents cells s) Mirror bm u y"
  obtains s1 s2 where "FNandUpdateBbt 0 s = Some (FT_SUCCESS, s2)" "synced cells bp bm s2"
    "table 0 s2 = table 0 s" "nand_geometry s2 = nand_geometry s" "dev_ok ecc cells s2"
    "version (desc Primary 0 s2) = version (desc Primary 0 s) + 1"
    "FNandWriteBbt Primary 0 (upd_desc Mirror 0 (\<lambda>d. d\<lparr>version := version d + 1\<rparr>) (upd_desc Primary 0 (\<lambda>d. d\<lparr>version := version d + 1\<rparr>) s)) = Some (FT_SUCCESS, s1)"
    "copy (nand_geometry s 0) (contents cells s1) Primary bp (table 0 s) (version (desc Primary 0 s) + 1)"
    "copy (nand_geometry s 0) (contents cells s1) Mirror bm u y"
proof -
  let ?g = "nand_geometry s 0" and ?up = "\<lambda>d :: FNandBbtDesc. d\<lparr>version := version d + 1\<rparr>"
  define s0 where "s0 = upd_desc Mirror 0 ?up (upd_desc Primary 0 ?up s)"
  have f0: "nand_geometry s0 = nand_geometry s" "table 0 s0 = table 0 s" "contents cells s0 = contents cells s" "dev_ok ecc cells s0"
    "desc Primary 0 s0 = ?up (desc Primary 0 s)" "desc Mirror 0 s0 = ?up (desc Mirror 0 s)"
    using dv by (simp_all add: s0_def)
  have p0: "placed Primary bp s0" "placed Mirror bm s0" using pl by (simp_all add: placed_def f0 std_def)
  obtain s1 where s1: "FNandWriteBbt Primary 0 s0 = Some (FT_SUCCESS, s1)" "frame s0 s1"
    "copy ?g (contents cells s1) Primary bp (table 0 s) (version (desc Primary 0 s) + 1)" "copy ?g (contents cells s1) Mirror bm u y"
    using write_copy [OF f0(4) _ p0(1), of bm u y] g c ne by (auto simp: f0 copy_def)
  have f1: "bbt_manager s1 = bbt_manager s0" "nand_geometry s1 = nand_geometry s" using frame_fields [OF s1(2)] f0(1) by auto
  have p1: "placed Primary bp s1" "placed Mirror bm s1" using p0 f1 f0(1) by (simp_all add: placed_frame [of s1 s0])
  obtain s2 where s2: "FNandWriteBbt Mirror 0 s1 = Some (FT_SUCCESS, s2)" "frame s1 s2"
    "copy ?g (contents cells s2) Mirror bm (table 0 s1) (version (desc Mirror 0 s1))"
    "copy ?g (contents cells s2) Primary bp (table 0 s) (version (desc Primary 0 s) + 1)"
    using write_copy [OF frame_dev_ok [OF s1(2) f0(4)] _ p1(2), of bp "table 0 s" "version (desc Primary 0 s) + 1"] g s1(3,4) ne
    by (auto simp: f1 copy_def)
  have f2: "bbt_manager s2 = bbt_manager s0" "nand_geometry s2 = nand_geometry s" using frame_fields [OF s2(2)] f1 by auto
  have d2: "desc w 0 s2 = desc w 0 s0" "desc w 0 s1 = desc w 0 s0" for w by (simp_all add: desc_manager [OF f2(1)] desc_manager [OF f1(1)])
  have t2: "table 0 s2 = table 0 s" "table 0 s1 = table 0 s" using f2(1) f1(1) f0(2) by simp_all
  have "FNandUpdateBbt 0 s = Some (FT_SUCCESS, s2)"
    using s1(1) s2(1) by (simp add: FNandUpdateBbt_def Let_def s0_def)
  moreover have "synced cells bp bm s2"
    unfolding synced_def f2(2) d2 t2 f0(5,6)
    using s2(3,4) ne v p0 placed_frame [of s2 s0] f0(1,6) f2 d2(2) [of Mirror] t2(2) by simp
  ultimately show thesis
    using that t2 f2(2) d2 f0(5) frame_dev_ok [OF frame_trans [OF s1(2) s2(2)] f0(4)] s1 unfolding s0_def by simp
qed

lemma synced_update:
  assumes dv: "dev_ok ecc cells s" and g: "bbm_geom (nand_geometry s 0)" and sy: "synced cells bp bm s"
  obtains s1 s2 where "FNandUpdateBbt 0 (upd_table 0 f s) = Some (FT_SUCCESS, s2)" "synced cells bp bm s2"
    "table 0 s2 = f (table 0 s)" "nand_geometry s2 = nand_geometry s" "dev_ok ecc cells s2"
    "version (desc Primary 0 s2) = version (desc Primary 0 s) + 1"
    "copy (nand_geometry s 0) (contents cells s1) Primary bp (f (table 0 s)) (version (desc Primary 0 s) + 1)"
    "copy (nand_geometry s 0) (contents cells s1) Mirror bm (table 0 s) (version (desc Primary 0 s))"
proof (rule update_syncs [where s = "upd_table 0 f s"])
  show "dev_ok ecc cells (upd_table 0 f s)" "bbm_geom (nand_geometry (upd_table 0 f s) 0)" using dv g by simp_all
  show "bp \<noteq> bm" "placed Primary bp (upd_table 0 f s)" "placed Mirror bm (upd_table 0 f s)"
    "version (desc Primary 0 (upd_table 0 f s)) = version (desc Mirror 0 (upd_table 0 f s))"
    "copy (nand_geometry (upd_table 0 f s) 0) (contents cells (upd_table 0 f s)) Primary bp (table 0 s) (version (desc Primary 0 s))"
    "copy (nand_geometry (upd_table 0 f s) 0) (contents cells (upd_table 0 f s)) Mirror bm (table 0 s) (version (desc Primary 0 s))"
    using sy by (auto simp: synced_def)
qed (use that in simp)

text \<open>Asking for and marking a block of the device.\<close>

lemma block_in_range:
  assumes "bbm_geom g" shows "(ucast (block :: u32) :: u64) < num_blocks g \<longleftrightarrow> unat block < blocks g"
  by (simp add: word_less_nat_alt unat_ucast_up)

lemma mark_block:
  assumes dv: "dev_ok ecc cells s" and g: "bbm_geom (nand_geometry s 0)" and sy: "synced cells bp bm s"
    and b: "unat block < blocks (nand_geometry s 0)"
  obtains s' where "FNandMarkBlockBad block 0 s = Some (FT_SUCCESS, s')" "synced cells bp bm s'"
    "nand_geometry s' = nand_geometry s" "dev_ok ecc cells s'"
    "\<forall>c. kind (table 0 s') c = (if c = unat block then 1 else kind (table 0 s) c)"
proof -
  let ?k = "unat block div 4"
  let ?f = "\<lambda>t :: nat \<Rightarrow> u8. t(?k := set_bad block (table 0 s ?k))"
  have rdy: "is_ready s = FT_COMPONENT_IS_READY" using dv by (simp add: dev_ok_def flash_device_def)
  have kd: "kind (?f (table 0 s)) c = (if c = unat block then 1 else kind (table 0 s) c)" for c by (rule kind_set_bad)
  have eq: "FNandMarkBlockBad block 0 s = (if table 0 s ?k \<noteq> set_bad block (table 0 s ?k)
      then FNandUpdateBbt 0 (upd_table 0 ?f s) else Some (FT_SUCCESS, upd_table 0 ?f s))"
    using rdy b g by (simp add: FNandMarkBlockBad_def Let_def block_byte block_in_range)
  show thesis
  proof (cases "table 0 s ?k = set_bad block (table 0 s ?k)")
    case True
    then have same: "?f (table 0 s) = table 0 s" by (metis fun_upd_idem)
    then have "upd_table 0 ?f s = s" by (simp add: upd_table_def)
    then show ?thesis using that [of s] True kd same sy dv eq by simp
  next
    case False
    obtain s1 s2 where "FNandUpdateBbt 0 (upd_table 0 ?f s) = Some (FT_SUCCESS, s2)" "synced cells bp bm s2"
      "table 0 s2 = ?f (table 0 s)" "nand_geometry s2 = nand_geometry s" "dev_ok ecc cells s2"
      by (rule synced_update [OF dv g sy])
    then show ?thesis using that [of s2] False kd eq by simp
  qed
qed

section \<open>Reading both copies\<close>

text \<open>Both searches: the descriptors are in place and have the versions of the flash.\<close>

lemma search_both:
  assumes dv: "dev_ok ecc cells s" and g: "bbm_geom (nand_geometry s 0)"
    and st: "std Primary (desc Primary 0 s)" "std Mirror (desc Mirror 0 s)"
    and c: "copy (nand_geometry s 0) (contents cells s) Primary bp tp vp" "copy (nand_geometry s 0) (contents cells s) Mirror bm tm vm"
  obtains s1 s2 where "FNandSearchBbt Primary 0 s = Some (FT_SUCCESS, s1)" "FNandSearchBbt Mirror 0 s1 = Some (FT_SUCCESS, s2)"
    "dev_ok ecc cells s2" "nand_geometry s2 = nand_geometry s" "contents cells s2 = contents cells s"
    "placed Primary bp s2" "placed Mirror bm s2" "version (desc Primary 0 s2) = vp" "version (desc Mirror 0 s2) = vm"
proof -
  let ?g = "nand_geometry s 0" and ?f = "contents cells s"
  obtain t1 where t1: "FNandSearchBbt Primary 0 s = Some (FT_SUCCESS, upd_desc Primary 0 (found ?g ?f bp) t1)" "frame s t1" "contents cells t1 = ?f"
    by (rule SearchBbt_finds [OF dv g st(1) c(1)])
  define s1 where "s1 = upd_desc Primary 0 (found ?g ?f bp) t1"
  have f1: "bbt_manager t1 = bbt_manager s" "nand_geometry t1 = nand_geometry s" using frame_fields [OF t1(2)] by auto
  have g1: "nand_geometry s1 = nand_geometry s" "contents cells s1 = ?f" "dev_ok ecc cells s1"
    "desc Primary 0 s1 = found ?g ?f bp (desc Primary 0 s)" "desc Mirror 0 s1 = desc Mirror 0 s"
    using f1(2) t1(3) frame_dev_ok [OF t1(2) dv] by (simp_all add: s1_def desc_manager [OF f1(1)])
  obtain t2 where t2: "FNandSearchBbt Mirror 0 s1 = Some (FT_SUCCESS, upd_desc Mirror 0 (found ?g ?f bm) t2)" "frame s1 t2" "contents cells t2 = ?f"
    using SearchBbt_finds [OF g1(3), of Mirror bm tm vm] g st(2) c(2) g1 by auto
  define s2 where "s2 = upd_desc Mirror 0 (found ?g ?f bm) t2"
  have f2: "bbt_manager t2 = bbt_manager s1" "nand_geometry t2 = nand_geometry s" using frame_fields [OF t2(2)] g1(1) by auto
  have g2: "nand_geometry s2 = nand_geometry s" "contents cells s2 = ?f" "dev_ok ecc cells s2"
    "desc Primary 0 s2 = found ?g ?f bp (desc Primary 0 s)" "desc Mirror 0 s2 = found ?g ?f bm (desc Mirror 0 s)"
    using f2(2) t2(3) frame_dev_ok [OF t2(2) g1(3)] g1(4,5) by (simp_all add: s2_def desc_manager [OF f2(1)])
  have lt: "bp < blocks ?g" "bm < blocks ?g" using c by (auto simp: copy_def only_def)
  show thesis
  proof (rule that)
    show "placed Primary bp s2" "placed Mirror bm s2" using lt st by (simp_all add: placed_def g2 found_def std_def)
    show "version (desc Primary 0 s2) = vp" "version (desc Mirror 0 s2) = vm"
      using c by (simp_all add: g2 found_def copy_def holds_def)
  qed (use t1(1) t2(1) g2 in \<open>simp_all add: s1_def s2_def\<close>)
qed

text \<open>Taking the table of one copy and writing it over the other.\<close>

definition take_over :: "bbt_sel \<Rightarrow> FNand \<Rightarrow> (FError \<times> FNand) option" where
  "take_over w s = do {
     (ret, s) \<leftarrow> load_table w 0 s;
     if ret \<noteq> FT_SUCCESS then Some (ret, s)
     else let s = upd_desc (other w) 0 (\<lambda>x. x\<lparr>version := version (desc w 0 s)\<rparr>) s
          in FNandWriteBbt (other w) 0 s }"

lemma take_over:
  assumes dv: "dev_ok ecc cells s" and g: "bbm_geom (nand_geometry s 0)" and ne: "b \<noteq> b'"
    and pl: "placed w b s" "placed (other w) b' s"
    and c: "copy (nand_geometry s 0) (contents cells s) w b t (version (desc w 0 s))" "only (nand_geometry s 0) (contents cells s) (other w) b'"
  obtains s' where "take_over w s = Some (FT_SUCCESS, s')" "nand_geometry s' = nand_geometry s" "dev_ok ecc cells s'"
    "placed w b s'" "placed (other w) b' s'" "version (desc w 0 s') = version (desc w 0 s)"
    "version (desc (other w) 0 s') = version (desc w 0 s)"
    "copy (nand_geometry s 0) (contents cells s') w b (table 0 s') (version (desc w 0 s))"
    "copy (nand_geometry s 0) (contents cells s') (other w) b' (table 0 s') (version (desc w 0 s))"
    "\<forall>i < blocks (nand_geometry s 0) div 4. table 0 s' i = t i"
proof -
  let ?g = "nand_geometry s 0" and ?n = "blocks (nand_geometry s 0) div 4"
  have b: "b < blocks ?g" "desc_page_offset (desc w 0 s) = first_page ?g b" using pl(1) by (simp_all add: placed_def)
  have oo: "other (other w) = w" by (cases w) simp_all
  have h: "holds ?g (contents cells s) w b t (version (desc w 0 s))" using c(1) by (simp add: copy_def)
  obtain s1 where s1: "load_table w 0 s = Some (FT_SUCCESS, upd_table 0 (\<lambda>u i. if i < ?n then t i else u i) s1)"
    "frame s s1" "contents cells s1 = contents cells s" by (rule load [OF dv g b h])
  note f1 = frame_fields(4,5) [OF s1(2)]
  let ?t1 = "upd_table 0 (\<lambda>u i. if i < ?n then t i else u i) s1"
  define s2 where "s2 = upd_desc (other w) 0 (\<lambda>x. x\<lparr>version := version (desc w 0 ?t1)\<rparr>) ?t1"
  have f2: "nand_geometry s2 = nand_geometry s" "contents cells s2 = contents cells s" "dev_ok ecc cells s2"
    "desc w 0 s2 = desc w 0 s" "desc (other w) 0 s2 = (desc (other w) 0 s)\<lparr>version := version (desc w 0 s)\<rparr>"
    "table 0 s2 = (\<lambda>i. if i < ?n then t i else table 0 s1 i)"
    using f1 s1(3) frame_dev_ok [OF s1(2) dv] by (simp_all add: s2_def desc_manager [OF f1(1)])
  have p2: "placed w b s2" "placed (other w) b' s2" using pl by (simp_all add: placed_def f2 std_def)
  have c2: "copy ?g (contents cells s) w b (table 0 s2) (version (desc w 0 s))" by (rule copy_cong [OF c(1)]) (simp add: f2)
  obtain s3 where s3: "FNandWriteBbt (other w) 0 s2 = Some (FT_SUCCESS, s3)" "frame s2 s3"
    "copy ?g (contents cells s3) (other w) b' (table 0 s2) (version (desc w 0 s))"
    "copy ?g (contents cells s3) w b (table 0 s2) (version (desc w 0 s))"
    using write_copy [OF f2(3) _ p2(2), of b "table 0 s2" "version (desc w 0 s)"] g c(2) c2 ne by (auto simp: f2 oo)
  note f3 = frame_fields(4,5) [OF s3(2)]
  have "take_over w s = Some (FT_SUCCESS, s3)" using s3(1) by (simp add: take_over_def s1(1) s2_def)
  then show thesis
    by (rule that) (use s3 p2 f2 f3 frame_dev_ok [OF s3(2) f2(3)] in \<open>simp_all add: desc_manager [OF f3(1)] placed_frame [OF f3]\<close>)
qed

lemma read_bbt:
  assumes dv: "dev_ok ecc cells s" and g: "bbm_geom (nand_geometry s 0)" and ne: "bp \<noteq> bm"
    and st: "std Primary (desc Primary 0 s)" "std Mirror (desc Mirror 0 s)"
    and c: "copy (nand_geometry s 0) (contents cells s) Primary bp tp vp" "copy (nand_geometry s 0) (contents cells s) Mirror bm tm vm"
    and eq: "vp = vm \<Longrightarrow> \<forall>i < blocks (nand_geometry s 0) div 4. tm i = tp i"
  obtains s' where "FNandReadBbt 0 s = Some (FT_SUCCESS, s')" "synced cells bp bm s'" "nand_geometry s' = nand_geometry s"
    "dev_ok ecc cells s'" "\<forall>i < blocks (nand_geometry s 0) div 4. table 0 s' i = (if vp < vm then tm i else tp i)"
proof -
  let ?g = "nand_geometry s 0" and ?n = "blocks (nand_geometry s 0) div 4"
  obtain s1 s2 where s2: "FNandSearchBbt Primary 0 s = Some (FT_SUCCESS, s1)" "FNandSearchBbt Mirror 0 s1 = Some (FT_SUCCESS, s2)"
    "dev_ok ecc cells s2" "nand_geometry s2 = nand_geometry s" "contents cells s2 = contents cells s"
    "placed Primary bp s2" "placed Mirror bm s2" "version (desc Primary 0 s2) = vp" "version (desc Mirror 0 s2) = vm"
    by (rule search_both [OF dv g st c])
  have val: "valid (desc Primary 0 s2) \<noteq> 0" "valid (desc Mirror 0 s2) \<noteq> 0" using s2(6,7) by (simp_all add: placed_def)
  have rd: "FNandReadBbt 0 s = (if vp > vm then take_over Primary s2 else if vp < vm then take_over Mirror s2 else load_table Primary 0 s2)"
    using s2(1,2,8,9) val unfolding FNandReadBbt_def take_over_def other.simps Let_def
    by (cases "vp < vm"; cases "vm < vp"; simp)
  consider "vm < vp" | "vp < vm" | "vp = vm" by fastforce
  then show thesis
  proof cases
    case 1
    obtain s' where "take_over Primary s2 = Some (FT_SUCCESS, s')" "nand_geometry s' = nand_geometry s" "dev_ok ecc cells s'"
      "placed Primary bp s'" "placed Mirror bm s'" "version (desc Primary 0 s') = vp" "version (desc Mirror 0 s') = vp"
      "copy ?g (contents cells s') Primary bp (table 0 s') vp" "copy ?g (contents cells s') Mirror bm (table 0 s') vp"
      "\<forall>i < ?n. table 0 s' i = tp i"
      using take_over [OF s2(3) _ ne s2(6), of tp] g c s2 by (auto simp: copy_def)
    then show ?thesis using 1 rd ne by (intro that [of s']) (simp_all add: synced_def)
  next
    case 2
    obtain s' where "take_over Mirror s2 = Some (FT_SUCCESS, s')" "nand_geometry s' = nand_geometry s" "dev_ok ecc cells s'"
      "placed Mirror bm s'" "placed Primary bp s'" "version (desc Mirror 0 s') = vm" "version (desc Primary 0 s') = vm"
      "copy ?g (contents cells s') Mirror bm (table 0 s') vm" "copy ?g (contents cells s') Primary bp (table 0 s') vm"
      "\<forall>i < ?n. table 0 s' i = tm i"
      using take_over [OF s2(3) _ ne [symmetric] s2(7), of tm] g c s2 by (auto simp: copy_def)
    then show ?thesis using 2 rd ne by (intro that [of s']) (simp_all add: synced_def less_not_sym)
  next
    case 3
    obtain s3 where s3: "load_table Primary 0 s2 = Some (FT_SUCCESS, upd_table 0 (\<lambda>u i. if i < ?n then tp i else u i) s3)"
      "frame s2 s3" "contents cells s3 = contents cells s"
      using load [OF s2(3), of bp Primary Primary tp vp] g c(1) s2(4-6) by (auto simp: copy_def placed_def)
    note f3 = frame_fields(4,5) [OF s3(2)]
    let ?s = "upd_table 0 (\<lambda>u i. if i < ?n then tp i else u i) s3"
    have "copy ?g (contents cells s) Primary bp (table 0 ?s) vp" "copy ?g (contents cells s) Mirror bm (table 0 ?s) vm"
      by (rule copy_cong [OF c(1)], simp, rule copy_cong [OF c(2)], simp add: eq 3)
    then have "synced cells bp bm ?s"
      using ne s2 s3(3) 3 by (simp add: synced_def f3 placed_frame [OF f3] desc_manager [OF f3(1)])
    then show ?thesis using s3(1) 3 rd s2(4) f3(2) frame_dev_ok [OF s3(2) s2(3)] by (intro that [of ?s]) simp_all
  qed
qed

end
