(* ===== verification/NandSim.thy ===== *)
theory NandSim
  imports NandApi
begin

text \<open>
  A flash that exists: the contents after a history are computed by running its transfers from some
  first contents. It shows that the hypotheses on the device can be met, and the examples use it.
\<close>

fun sim_event :: "nat \<Rightarrow> uintptr \<Rightarrow> ((nat \<Rightarrow> u8) \<Rightarrow> nat \<Rightarrow> u8) \<Rightarrow> nand_call bus_event \<Rightarrow> flash \<Rightarrow> flash" where
  "sim_event n base ecc (Call (DmaStart ds m)) f = fst (nand_run n base ecc ds (f, m))"
| "sim_event n base ecc _ f = f"

definition sim_cells :: "nat \<Rightarrow> uintptr \<Rightarrow> ((nat \<Rightarrow> u8) \<Rightarrow> nat \<Rightarrow> u8) \<Rightarrow> flash \<Rightarrow> nand_history \<Rightarrow> flash" where
  "sim_cells n base ecc f0 h = fold (sim_event n base ecc) h f0"

definition sim_dma :: "nat \<Rightarrow> uintptr \<Rightarrow> ((nat \<Rightarrow> u8) \<Rightarrow> nat \<Rightarrow> u8) \<Rightarrow> flash \<Rightarrow> nand_history \<Rightarrow> (nat \<Rightarrow> u8) \<Rightarrow> (nat \<Rightarrow> u8)" where
  "sim_dma n base ecc f0 h m = (if h = [] then m else case last h of
     Call (DmaStart ds _) \<Rightarrow> snd (nand_run n base ecc ds (sim_cells n base ecc f0 (butlast h), m)) | _ \<Rightarrow> m)"

text \<open>An instance in polling mode on such a flash. The status register shows that every command has finished.\<close>

definition sim_instance :: "FNandNandGeometry \<Rightarrow> ((nat \<Rightarrow> u8) \<Rightarrow> nat \<Rightarrow> u8) \<Rightarrow> flash \<Rightarrow> FNand" where
  "sim_instance g ecc f0 = (FNandFlashFuncRegister (zero_instance 0x80000000 0x80001000 \<lparr>dev = (\<lambda>_ _. 0x21804), trace = []\<rparr>
       (sim_dma (unat (pages_per_block g)) 0x80001000 ecc f0) (\<lambda>_. 0) (\<lambda>_. 0) 0))
     \<lparr>is_ready := FT_COMPONENT_IS_READY, nand_geometry := (\<lambda>_. g)\<rparr>"

lemma sim_event_quiet: "\<forall>ds m. e \<noteq> Call (DmaStart ds m) \<Longrightarrow> sim_event n base ecc e f = f"
  by (cases "(n, base, ecc, e, f)" rule: sim_event.cases) auto

lemma sim_dev_ok:
  assumes "geom_ok g"
  shows "dev_ok ecc (sim_cells (unat (pages_per_block g)) 0x80001000 ecc f0) (sim_instance g ecc f0)"
    "contents (sim_cells (unat (pages_per_block g)) 0x80001000 ecc f0) (sim_instance g ecc f0) = f0"
    "nand_geometry (sim_instance g ecc f0) = (\<lambda>_. g)"
proof -
  let ?s = "sim_instance g ecc f0" and ?n = "unat (pages_per_block g)"
  let ?c = "sim_cells ?n 0x80001000 ecc f0"
  have "prompt ?s" by (simp add: prompt_def sim_instance_def FNandFlashFuncRegister_def zero_instance_def Let_def)
  moreover have "chip_runs ecc ?c ?s"
    unfolding chip_runs_def
    by (auto simp: sim_instance_def FNandFlashFuncRegister_def zero_instance_def sim_cells_def sim_dma_def sim_event_quiet)
  moreover have "waits ?s" "data_addr ?s \<noteq> 0" "unat (data_addr ?s) + 2 ^ 15 < 2 ^ 40"
    "is_ready ?s = FT_COMPONENT_IS_READY" "descs_ok (descriptor_buffer ?s)" "registered ?s"
    by (simp_all add: sim_instance_def FNandFlashFuncRegister_def zero_instance_def waits_def descs_ok_def no_descriptor_def registered_def)
  ultimately show "dev_ok ecc ?c ?s" using assms
    by (simp add: dev_ok_def flash_device_def sim_instance_def)
  show "contents ?c ?s = f0" "nand_geometry ?s = (\<lambda>_. g)"
    by (simp_all add: contents_def sim_cells_def sim_instance_def FNandFlashFuncRegister_def zero_instance_def)
qed

text \<open>A device of eight blocks, blank.\<close>

definition g8 :: FNandNandGeometry where
  "g8 = zero_geometry\<lparr>bytes_per_page := 2048, spare_bytes_per_page := 64, pages_per_block := 64, num_blocks := 8,
     hw_ecc_length := 28, ecc_offset := 32\<rparr>"

definition ecc0 :: "(nat \<Rightarrow> u8) \<Rightarrow> nat \<Rightarrow> u8" where
  "ecc0 m = (\<lambda>_. 0xff)"

definition blank :: flash where
  "blank = (\<lambda>_ _. 0xff)"

definition dev8 :: FNand where
  "dev8 = sim_instance g8 ecc0 blank"

definition cells8 :: "nand_history \<Rightarrow> flash" where
  "cells8 = sim_cells 64 0x80001000 ecc0 blank"

lemma geom_8: "geom_ok g8"
  by (simp add: geom_ok_def g8_def zero_geometry_def)

lemma dev8_ok: "dev_ok ecc0 cells8 dev8" "contents cells8 dev8 = blank" "nand_geometry dev8 = (\<lambda>_. g8)"
proof -
  have "unat (pages_per_block g8) = 64" by (simp add: g8_def)
  then show "dev_ok ecc0 cells8 dev8" "contents cells8 dev8 = blank" "nand_geometry dev8 = (\<lambda>_. g8)"
    using sim_dev_ok [OF geom_8, of ecc0 blank] by (simp_all add: dev8_def cells8_def)
qed

end
