(* ===== verification/NandFormat.thy ===== *)
theory NandFormat
  imports NandSync NandSim
begin

text \<open>
  The first scan of a device that carries no table: the blocks that the factory marked become bad,
  two copies of the table are written to the last blocks, and the last four blocks are reserved.
\<close>

section \<open>Marks in the table\<close>

lemma or_bits:
  assumes "j < 8"
  shows "bit (x OR ucast (push_bit (unat (FNAND_BBTBLOCKSHIFT block)) FNAND_BLOCK_FACTORY_BAD) :: u8) j =
      (bit x j \<or> j = 2 * (unat block mod 4) \<or> j = 2 * (unat block mod 4) + 1)"
    "bit (x OR ucast (push_bit (unat (FNAND_BBTBLOCKSHIFT block)) FNAND_BLOCK_RESERVED) :: u8) j =
      (bit x j \<or> j = 2 * (unat block mod 4) + 1)"
proof -
  have r: "unat block mod 4 \<in> {0, 1, 2, 3}" "j \<in> {0, 1, 2, 3, 4, 5, 6, 7}" using assms by auto
  show "bit (x OR ucast (push_bit (unat (FNAND_BBTBLOCKSHIFT block)) FNAND_BLOCK_FACTORY_BAD) :: u8) j =
      (bit x j \<or> j = 2 * (unat block mod 4) \<or> j = 2 * (unat block mod 4) + 1)"
    using r unfolding block_shift FNAND_BLOCK_FACTORY_BAD_def by (elim insertE emptyE; simp add: bit_simps)
  show "bit (x OR ucast (push_bit (unat (FNAND_BBTBLOCKSHIFT block)) FNAND_BLOCK_RESERVED) :: u8) j =
      (bit x j \<or> j = 2 * (unat block mod 4) + 1)"
    using r unfolding block_shift FNAND_BLOCK_RESERVED_def by (elim insertE emptyE; simp add: bit_simps)
qed

text \<open>A mark of one block, as a change of its two bits, changes the kind of that block only.\<close>

lemma kind_mark:
  fixes t :: "nat \<Rightarrow> u8" and block :: u32
  defines "k \<equiv> unat block div 4"
  assumes "\<And>j. j < 8 \<Longrightarrow> j \<noteq> 2 * (unat block mod 4) \<Longrightarrow> j \<noteq> 2 * (unat block mod 4) + 1 \<Longrightarrow> bit y j = bit (t k) j"
  shows "kind (t(k := y)) c = (if c = unat block then of_bool (bit y (2 * (unat block mod 4))) + 2 * of_bool (bit y (2 * (unat block mod 4) + 1)) else kind t c)"
proof (cases "c div 4 = k")
  case True
  have i: "c = unat block \<longleftrightarrow> c mod 4 = unat block mod 4" using True unfolding k_def by (metis div_mult_mod_eq)
  have r: "c mod 4 < 4" by simp
  show ?thesis
  proof (cases "c = unat block")
    case False
    have "bit y (2 * (c mod 4)) = bit (t k) (2 * (c mod 4))" "bit y (2 * (c mod 4) + 1) = bit (t k) (2 * (c mod 4) + 1)"
      using False i r by (intro assms(2); auto; presburger)+
    then show ?thesis using False True by (simp add: kind_bits)
  qed (simp add: kind_bits k_def)
qed (auto simp: kind_bits k_def)

lemma kind_factory_bad: "kind (table 0 (mark_factory_bad block 0 s)) c = (if c = unat block then 3 else kind (table 0 s) c)"
proof -
  have "unat block mod 4 < 4" by simp
  then show ?thesis
    unfolding mark_factory_bad_def upd_table_fields Let_def block_byte
    by (subst kind_mark) (auto simp: or_bits)
qed

lemma kind_reserve: "kind (table 0 (reserve_block block 0 s)) c =
    (if c = unat block then (if kind (table 0 s) c \<in> {1, 3} then 3 else 2) else kind (table 0 s) c)"
proof -
  have "unat block mod 4 < 4" by simp
  then show ?thesis
    unfolding reserve_block_def upd_table_fields Let_def block_byte
    by (subst kind_mark) (auto simp: or_bits kind_bits)
qed

section \<open>The factory marks\<close>

definition marked :: "FNandNandGeometry \<Rightarrow> FNandBadBlockPattern \<Rightarrow> flash \<Rightarrow> nat \<Rightarrow> bool" where
  "marked g p f page \<longleftrightarrow> (\<exists>k < unat (pat_length p). f page (bpp g + unat (pat_offset p) + k) \<noteq> pattern p ! k)"

definition factory_bad :: "FNandNandGeometry \<Rightarrow> FNandBadBlockPattern \<Rightarrow> flash \<Rightarrow> nat \<Rightarrow> bool" where
  "factory_bad g p f b \<longleftrightarrow> marked g p f (b * ppb g) \<or> marked g p f (b * ppb g + 1)"

text \<open>What a scan leaves alone: everything but the table and the buffers.\<close>

definition keeps :: "((nat \<Rightarrow> u8) \<Rightarrow> nat \<Rightarrow> u8) \<Rightarrow> (nand_history \<Rightarrow> flash) \<Rightarrow> FNand \<Rightarrow> FNand \<Rightarrow> bool" where
  "keeps ecc cells s s' \<longleftrightarrow> nand_geometry s' = nand_geometry s \<and> contents cells s' = contents cells s \<and>
     (\<forall>w. desc w 0 s' = desc w 0 s) \<and> bb_pattern (bbt_manager s' 0) = bb_pattern (bbt_manager s 0) \<and>
     (dev_ok ecc cells s \<longrightarrow> dev_ok ecc cells s')"

lemma keeps_refl [simp]: "keeps ecc cells s s"
  by (simp add: keeps_def)

lemma keeps_trans [trans]: "keeps ecc cells s t \<Longrightarrow> keeps ecc cells t u \<Longrightarrow> keeps ecc cells s u"
  by (simp add: keeps_def)

lemma keeps_frame: "frame s s' \<Longrightarrow> contents cells s' = contents cells s \<Longrightarrow> keeps ecc cells s s'"
  using frame_dev_ok [of s s' ecc cells] frame_fields(4,5) [of s s'] desc_manager [of s' s] by (simp add: keeps_def)

lemma pattern_upd_table [simp]: "bb_pattern (bbt_manager (upd_table c f s) c') = bb_pattern (bbt_manager s c')"
  by (simp add: upd_table_def)

lemma keeps_table [simp]: "keeps ecc cells s (upd_table 0 f s)"
  by (simp add: keeps_def)

lemma keeps_mark [simp]: "keeps ecc cells s (mark_factory_bad block 0 s)" "keeps ecc cells s (reserve_block block 0 s)"
  by (simp_all add: mark_factory_bad_def reserve_block_def)

lemma pattern_differs_iff: "pattern_differs p buf ks \<longleftrightarrow> (\<exists>k \<in> set ks. buf (unat (pat_offset p) + k) \<noteq> pattern p ! k)"
  by (induction ks) auto

text \<open>The pattern lies in the spare area.\<close>

definition pattern_ok :: "FNandNandGeometry \<Rightarrow> FNandBadBlockPattern \<Rightarrow> bool" where
  "pattern_ok g p \<longleftrightarrow> options p = FNAND_BBT_SCAN_2ND_PAGE \<and> unat (pat_offset p) + unat (pat_length p) \<le> unat (spare_bytes_per_page g)"

lemma scan_page:
  assumes dv: "dev_ok ecc cells s" and p: "pattern_ok (nand_geometry s 0) (bb_pattern (bbt_manager s 0))"
  obtains buf' s' where "scan_pages block 0 (Suc n) page buf s = scan_pages block 0 n (page + 1) buf' s'" "keeps ecc cells s s'"
    "\<forall>c. kind (table 0 s') c = (if c = unat block \<and> marked (nand_geometry s 0) (bb_pattern (bbt_manager s 0)) (contents cells s) (row page)
       then 3 else kind (table 0 s) c)"
proof -
  let ?g = "nand_geometry s 0" and ?f = "contents cells s" and ?p = "bb_pattern (bbt_manager s 0)"
  obtain r s1 where s1: "FNandReadPageOOb page (Some buf) 0 FNAND_MAX_SPARE_SIZE 0 s = Some (FT_SUCCESS, r, s1)"
    "bbt_manager s1 = bbt_manager s" "frame s s1" "reads_oob page buf FNAND_MAX_SPARE_SIZE ?g ?f r (contents cells s1)"
    using ro.finished [OF dv] by metis
  have sp: "unat (spare_bytes_per_page ?g) \<le> unat FNAND_MAX_SPARE_SIZE"
    using dv by (simp add: dev_ok_def geom_ok_def FNAND_MAX_SPARE_SIZE_def)
  define buf' where "buf' = memcpy buf 0 (?f (row page)) (bpp ?g) (unat (spare_bytes_per_page ?g))"
  have r: "r = Some buf'" "contents cells s1 = ?f" using s1(4) sp by (simp_all add: reads_oob_def buf'_def min_absorb2)
  have k: "buf' (unat (pat_offset ?p) + k) = ?f (row page) (bpp ?g + unat (pat_offset ?p) + k)" if "k < unat (pat_length ?p)" for k
    using that p by (simp add: buf'_def memcpy_def pattern_ok_def add.assoc)
  have m: "pattern_differs ?p buf' [0..<unat (pat_length ?p)] = marked ?g ?p ?f (row page)"
    using k by (auto simp: pattern_differs_iff marked_def)
  let ?s = "if marked ?g ?p ?f (row page) then mark_factory_bad block 0 s1 else s1"
  have "scan_pages block 0 (Suc n) page buf s = scan_pages block 0 n (page + 1) buf' ?s"
    using s1(1) by (simp add: r(1) s1(2) m Let_def)
  moreover have "keeps ecc cells s ?s"
    using keeps_frame [OF s1(3) r(2)] keeps_trans [OF _ keeps_mark(1)] by simp
  moreover have "\<forall>c. kind (table 0 ?s) c = (if c = unat block \<and> marked ?g ?p ?f (row page) then 3 else kind (table 0 s) c)"
    by (simp add: kind_factory_bad s1(2))
  ultimately show thesis by (rule that)
qed

lemma scan_block:
  assumes dv: "dev_ok ecc cells s" and g: "bbm_geom (nand_geometry s 0)" and two: "2 \<le> ppb (nand_geometry s 0)"
    and p: "pattern_ok (nand_geometry s 0) (bb_pattern (bbt_manager s 0))" and b: "b < blocks (nand_geometry s 0)"
  obtains buf' s' where "scan_pages (of_nat b) 0 2 (of_nat b * pages_per_block (nand_geometry s 0)) buf s = Some (buf', s')" "keeps ecc cells s s'"
    "\<forall>c. kind (table 0 s') c = (if c = b \<and> factory_bad (nand_geometry s 0) (bb_pattern (bbt_manager s 0)) (contents cells s) b
       then 3 else kind (table 0 s) c)"
proof -
  let ?g = "nand_geometry s 0" and ?f = "contents cells s" and ?p = "bb_pattern (bbt_manager s 0)"
  note row = first_page_row [OF g b]
  have lim: "blocks ?g * ppb ?g \<le> 2 ^ 24" "blocks ?g \<le> 32768" using g by (auto simp: bbm_geom_def)
  have "(b + 1) * ppb ?g \<le> blocks ?g * ppb ?g" using b by (intro mult_le_mono1) simp
  then have lt: "b * ppb ?g + 1 < 2 ^ 24" using two lim by simp
  have "unat (first_page ?g b + 1) = b * ppb ?g + 1" using row(1) lt by (simp add: unat_word_ariths)
  then have row1: "row (first_page ?g b + 1) = b * ppb ?g + 1" using lt by (simp add: row_def)
  have ub: "unat (of_nat b :: u32) = b" using b lim by (simp add: unat_of_nat_32)
  obtain buf1 s1 where s1: "scan_pages (of_nat b) 0 (Suc 1) (first_page ?g b) buf s = scan_pages (of_nat b) 0 1 (first_page ?g b + 1) buf1 s1"
    "keeps ecc cells s s1" "\<forall>c. kind (table 0 s1) c = (if c = unat (of_nat b :: u32) \<and> marked ?g ?p ?f (row (first_page ?g b)) then 3 else kind (table 0 s) c)"
    by (rule scan_page [OF dv p])
  have k1: "nand_geometry s1 = nand_geometry s" "contents cells s1 = ?f" "bb_pattern (bbt_manager s1 0) = ?p" "dev_ok ecc cells s1"
    using s1(2) dv by (simp_all add: keeps_def)
  have p1: "pattern_ok (nand_geometry s1 0) (bb_pattern (bbt_manager s1 0))" using p k1 by simp
  obtain buf2 s2 where s2: "scan_pages (of_nat b) 0 (Suc 0) (first_page ?g b + 1) buf1 s1 = scan_pages (of_nat b) 0 0 (first_page ?g b + 1 + 1) buf2 s2"
    "keeps ecc cells s1 s2" "\<forall>c. kind (table 0 s2) c = (if c = unat (of_nat b :: u32) \<and>
       marked (nand_geometry s1 0) (bb_pattern (bbt_manager s1 0)) (contents cells s1) (row (first_page ?g b + 1)) then 3 else kind (table 0 s1) c)"
    by (rule scan_page [OF k1(4) p1])
  have "scan_pages (of_nat b) 0 2 (first_page ?g b) buf s = Some (buf2, s2)"
    using s1(1) s2(1) by (simp add: numeral_2_eq_2)
  moreover have "\<forall>c. kind (table 0 s2) c = (if c = b \<and> factory_bad ?g ?p ?f b then 3 else kind (table 0 s) c)"
    using s1(3) s2(3) by (auto simp: ub row(2) row1 k1 factory_bad_def)
  ultimately show thesis using that [OF _ keeps_trans [OF s1(2) s2(2)]] by (simp add: first_page_def)
qed

lemma scan_all:
  assumes "dev_ok ecc cells s" "bbm_geom (nand_geometry s 0)" "2 \<le> ppb (nand_geometry s 0)"
    "pattern_ok (nand_geometry s 0) (bb_pattern (bbt_manager s 0))" "b + n \<le> blocks (nand_geometry s 0)"
  shows "\<exists>s'. scan_blocks 0 2 n (of_nat b) buf s = Some s' \<and> keeps ecc cells s s' \<and>
    (\<forall>c. kind (table 0 s') c = (if b \<le> c \<and> c < b + n \<and> factory_bad (nand_geometry s 0) (bb_pattern (bbt_manager s 0)) (contents cells s) c
       then 3 else kind (table 0 s) c))"
  using assms
proof (induction n arbitrary: b buf s)
  case (Suc n)
  let ?g = "nand_geometry s 0" and ?f = "contents cells s" and ?p = "bb_pattern (bbt_manager s 0)"
  have b: "b < blocks ?g" using Suc.prems(5) by simp
  obtain buf1 s1 where s1: "scan_pages (of_nat b) 0 2 (of_nat b * pages_per_block ?g) buf s = Some (buf1, s1)" "keeps ecc cells s s1"
    "\<forall>c. kind (table 0 s1) c = (if c = b \<and> factory_bad ?g ?p ?f b then 3 else kind (table 0 s) c)"
    by (rule scan_block [OF Suc.prems(1-4) b])
  have k1: "nand_geometry s1 = nand_geometry s" "contents cells s1 = ?f" "bb_pattern (bbt_manager s1 0) = ?p" "dev_ok ecc cells s1"
    using s1(2) Suc.prems(1) by (simp_all add: keeps_def)
  have "\<exists>s'. scan_blocks 0 2 n (of_nat (b + 1)) buf1 s1 = Some s' \<and> keeps ecc cells s1 s' \<and>
    (\<forall>c. kind (table 0 s') c = (if b + 1 \<le> c \<and> c < b + 1 + n \<and> factory_bad (nand_geometry s1 0) (bb_pattern (bbt_manager s1 0)) (contents cells s1) c
       then 3 else kind (table 0 s1) c))"
    using Suc.prems k1 by (intro Suc.IH) simp_all
  then obtain s' where s': "scan_blocks 0 2 n (of_nat b + 1) buf1 s1 = Some s'" "keeps ecc cells s1 s'"
    "\<forall>c. kind (table 0 s') c = (if b + 1 \<le> c \<and> c < b + 1 + n \<and> factory_bad ?g ?p ?f c then 3 else kind (table 0 s1) c)"
    unfolding k1 by (auto simp: add.commute)
  have "scan_blocks 0 2 (Suc n) (of_nat b) buf s = Some s'" using s1(1) s'(1) by simp
  moreover have "kind (table 0 s') c = (if b \<le> c \<and> c < b + Suc n \<and> factory_bad ?g ?p ?f c then 3 else kind (table 0 s) c)" for c
    using s1(3) s'(3) by (cases "c = b") auto
  ultimately show ?case using keeps_trans [OF s1(2) s'(2)] by blast
qed simp

lemma create_bbt:
  assumes dv: "dev_ok ecc cells s" and g: "bbm_geom (nand_geometry s 0)" and two: "2 \<le> ppb (nand_geometry s 0)"
    and p: "pattern_ok (nand_geometry s 0) (bb_pattern (bbt_manager s 0))"
  obtains s' where "FNandCreateBbt 0 s = Some s'" "keeps ecc cells s s'"
    "\<forall>c < blocks (nand_geometry s 0). kind (table 0 s') c =
       (if factory_bad (nand_geometry s 0) (bb_pattern (bbt_manager s 0)) (contents cells s) c then 3 else 0)"
proof -
  let ?g = "nand_geometry s 0" and ?f = "contents cells s" and ?p = "bb_pattern (bbt_manager s 0)"
  let ?s0 = "upd_table 0 (\<lambda>t. memset t 0 0 (unat (bbtlen 0 s))) s"
  have 4: "4 dvd blocks ?g" using g by (simp add: bbm_geom_def)
  have z: "kind (table 0 ?s0) c = 0" if "c < blocks ?g" for c
  proof -
    have "c div 4 < unat (bbtlen 0 s)" using that 4 bbtlen_eq [OF g] by (auto elim!: dvdE)
    then show ?thesis by (simp add: kind_def memset_def)
  qed
  obtain s' where s': "scan_blocks 0 2 (blocks ?g) (of_nat 0) (locals ?s0) ?s0 = Some s'" "keeps ecc cells ?s0 s'"
    "\<forall>c. kind (table 0 s') c = (if 0 \<le> c \<and> c < 0 + blocks ?g \<and> factory_bad ?g ?p ?f c then 3 else kind (table 0 ?s0) c)"
    using scan_all [of ecc cells ?s0 0 "blocks ?g" "locals ?s0"] dv g two p by auto
  have "FNandCreateBbt 0 s = Some s'"
    using s'(1) p by (simp add: FNandCreateBbt_def Let_def pattern_ok_def FNAND_BBT_SCAN_2ND_PAGE_def)
  moreover have "keeps ecc cells s s'" using keeps_trans [OF keeps_table s'(2)] .
  moreover have "\<forall>c < blocks ?g. kind (table 0 s') c = (if factory_bad ?g ?p ?f c then 3 else 0)" using s'(3) z by simp
  ultimately show thesis by (rule that)
qed

section \<open>The places of the two copies\<close>

lemma upd_desc_twice [simp]: "upd_desc w c f (upd_desc w c h s) = upd_desc w c (\<lambda>d. f (h d)) s"
  by (cases w) (simp_all add: upd_desc_def Let_def)

text \<open>The first two rounds of the search for a block.\<close>

definition place :: "u32 \<Rightarrow> FNandBbtDesc \<Rightarrow> FNandBbtDesc" where
  "place page d = d\<lparr>desc_page_offset := page, valid := 1\<rparr>"

lemma place_twice [simp]: "(\<lambda>d. place x (d\<lparr>desc_page_offset := y\<rparr>)) = place x"
  by (simp add: place_def fun_eq_iff)

lemma usable: "(block_type block 0 s = FNAND_BLOCK_BAD \<or> block_type block 0 s = FNAND_BLOCK_FACTORY_BAD) \<longleftrightarrow> kind (table 0 s) (unat block) \<in> {1, 3}"
  using kind_less [of "table 0 s" "unat block"]
  by (auto simp: block_type_kind FNAND_BLOCK_BAD_def FNAND_BLOCK_FACTORY_BAD_def word_unat_eq_iff unat_of_nat_32)

lemma find_block_round:
  assumes "bbm_geom (nand_geometry s 0)" "b < blocks (nand_geometry s 0)" "kind (table 0 s) b \<notin> {1, 3}" "block - index = of_nat b"
  shows "find_block w 0 (Suc n) index block s =
    (if first_page (nand_geometry s 0) b \<noteq> desc_page_offset (desc (other w) 0 s)
     then (Some (of_nat b), upd_desc w 0 (place (first_page (nand_geometry s 0) b)) s)
     else find_block w 0 n (index + 1) (of_nat b) (upd_desc w 0 (\<lambda>d. d\<lparr>desc_page_offset := first_page (nand_geometry s 0) b\<rparr>) s))"
proof -
  have "b < 2 ^ 32" using assms(1,2) by (simp add: bbm_geom_def)
  then have "\<not> (block_type (of_nat b) 0 s = FNAND_BLOCK_BAD \<or> block_type (of_nat b) 0 s = FNAND_BLOCK_FACTORY_BAD)"
    using assms(3) unfolding usable by (simp add: unat_of_nat_32)
  moreover have "(\<lambda>d. d\<lparr>desc_page_offset := first_page (nand_geometry s 0) b, valid := 1\<rparr>) = place (first_page (nand_geometry s 0) b)"
    by (simp add: place_def fun_eq_iff)
  ultimately show ?thesis by (simp add: assms(4) Let_def first_page_def [symmetric])
qed

lemma choose_primary:
  assumes g: "bbm_geom (nand_geometry s 0)" and v: "valid (desc Primary 0 s) = 0" and m: "max_blocks (desc Primary 0 s) = 4"
    and k: "kind (table 0 s) (blocks (nand_geometry s 0) - 1) \<notin> {1, 3}" and z: "desc_page_offset (desc Mirror 0 s) = 0"
  shows "choose_block Primary 0 s = (Some (of_nat (blocks (nand_geometry s 0) - 1)),
    upd_desc Primary 0 (place (first_page (nand_geometry s 0) (blocks (nand_geometry s 0) - 1))) s)"
proof -
  let ?g = "nand_geometry s 0" and ?b = "blocks (nand_geometry s 0) - 1"
  have N: "8 \<le> blocks ?g" "0 < ppb ?g" using g by (auto simp: bbm_geom_def)
  then have b: "?b < blocks ?g" by simp
  have "unat (first_page ?g ?b) \<noteq> 0" using first_page_row(1) [OF g b] N by simp
  then have "first_page ?g ?b \<noteq> 0" by auto
  then show ?thesis
    using find_block_round [OF g b k, of "of_nat ?b" 0 Primary 3] v m z
    by (simp add: choose_block_def last_block [OF g] del: find_block.simps of_nat_diff)
qed

lemma choose_mirror:
  assumes g: "bbm_geom (nand_geometry s 0)" and v: "valid (desc Mirror 0 s) = 0" and m: "max_blocks (desc Mirror 0 s) = 4"
    and k: "kind (table 0 s) (blocks (nand_geometry s 0) - 1) \<notin> {1, 3}" "kind (table 0 s) (blocks (nand_geometry s 0) - 2) \<notin> {1, 3}"
    and z: "desc_page_offset (desc Primary 0 s) = first_page (nand_geometry s 0) (blocks (nand_geometry s 0) - 1)"
  shows "choose_block Mirror 0 s = (Some (of_nat (blocks (nand_geometry s 0) - 2)),
    upd_desc Mirror 0 (place (first_page (nand_geometry s 0) (blocks (nand_geometry s 0) - 2))) s)"
proof -
  let ?g = "nand_geometry s 0" and ?b = "blocks (nand_geometry s 0) - 1" and ?c = "blocks (nand_geometry s 0) - 2"
  have N: "8 \<le> blocks ?g" using g by (auto simp: bbm_geom_def)
  then have b: "?b < blocks ?g" "?c < blocks ?g" by simp_all
  let ?s = "upd_desc Mirror 0 (\<lambda>d. d\<lparr>desc_page_offset := first_page ?g ?b\<rparr>) s"
  have g': "bbm_geom (nand_geometry ?s 0)" "?c < blocks (nand_geometry ?s 0)" "kind (table 0 ?s) ?c \<notin> {1, 3}" using g b k by simp_all
  have e: "of_nat ?b - 1 = (of_nat ?c :: u32)" using N by (simp add: of_nat_diff)
  have ne: "first_page ?g ?c \<noteq> first_page ?g ?b" using first_page_inj [OF g b(2) b(1)] N by simp
  have "find_block Mirror 0 4 0 (of_nat ?b) s = find_block Mirror 0 (Suc 2) 1 (of_nat ?b) ?s"
    using find_block_round [OF g b(1) k(1), of "of_nat ?b" 0 Mirror 3] z by (simp del: find_block.simps of_nat_diff)
  also have "\<dots> = (Some (of_nat ?c), upd_desc Mirror 0 (place (first_page ?g ?c)) s)"
    using find_block_round [OF g' e, of Mirror 2] ne z by (simp del: find_block.simps of_nat_diff)
  finally show ?thesis using v m last_block [OF g] by (simp add: choose_block_def del: find_block.simps of_nat_diff)
qed

text \<open>A choice that is made once is made again, so the write after it is that of a descriptor in place.\<close>

lemma WriteBbt_chosen:
  assumes "choose_block w 0 s = (Some b, s0)" "choose_block w 0 s0 = (Some b, s0)"
  shows "FNandWriteBbt w 0 s = FNandWriteBbt w 0 s0"
  unfolding FNandWriteBbt_def assms by simp

lemma chosen_again:
  fixes w :: bbt_sel and s :: FNand and b :: nat
  assumes "bbm_geom (nand_geometry s 0)" "b < blocks (nand_geometry s 0)"
  defines "s0 \<equiv> upd_desc w 0 (place (first_page (nand_geometry s 0) b)) s"
  shows "choose_block w 0 s0 = (Some (of_nat b), s0)" "std w (desc w 0 s) \<Longrightarrow> placed w b s0"
  using assms first_page_row(4) [OF assms(1,2)] by (simp_all add: choose_block_def s0_def place_def placed_def std_def)

lemma write_first:
  assumes dv: "dev_ok ecc cells s" and g: "bbm_geom (nand_geometry s 0)" and b: "b < blocks (nand_geometry s 0)"
    and st: "std w (desc w 0 s)" and ch: "choose_block w 0 s = (Some (of_nat b), upd_desc w 0 (place (first_page (nand_geometry s 0) b)) s)"
  obtains s' where "FNandWriteBbt w 0 s = Some (FT_SUCCESS, s')" "nand_geometry s' = nand_geometry s" "table 0 s' = table 0 s"
    "dev_ok ecc cells s'" "placed w b s'" "desc w 0 s' = place (first_page (nand_geometry s 0) b) (desc w 0 s)"
    "desc (other w) 0 s' = desc (other w) 0 s"
    "holds (nand_geometry s 0) (contents cells s') w b (table 0 s) (version (desc w 0 s))"
    "\<forall>p. p div ppb (nand_geometry s 0) \<noteq> b \<longrightarrow> contents cells s' p = contents cells s p"
proof -
  let ?s0 = "upd_desc w 0 (place (first_page (nand_geometry s 0) b)) s"
  note c = chosen_again [OF g b, of w]
  obtain s' where s': "FNandWriteBbt w 0 ?s0 = Some (FT_SUCCESS, s')" "frame ?s0 s'"
    "holds (nand_geometry ?s0 0) (contents cells s') w b (table 0 ?s0) (version (desc w 0 ?s0))"
    "\<forall>p. p div ppb (nand_geometry ?s0 0) \<noteq> b \<longrightarrow> contents cells s' p = contents cells ?s0 p"
    by (rule write_bbt [of ecc cells ?s0 w b]) (use dv g c(2) [OF st] in simp_all)
  note f = frame_fields(4,5) [OF s'(2)]
  have "dev_ok ecc cells s'" using frame_dev_ok [OF s'(2)] dv by simp
  then show thesis
    by (intro that [of s'])
      (use s' f c(2) [OF st] in \<open>simp_all add: WriteBbt_chosen [OF ch c(1)] desc_manager [OF f(1)] placed_frame [OF f] place_def\<close>)
qed

section \<open>Reserving the blocks of the tables\<close>

lemma reserve_same:
  "table 0 (reserve_block block 0 s) (unat block div 4) = table 0 s (unat block div 4) \<longleftrightarrow> kind (table 0 s) (unat block) \<in> {2, 3}"
  "kind (table 0 s) (unat block) \<in> {2, 3} \<Longrightarrow> reserve_block block 0 s = s"
proof -
  let ?k = "unat block div 4" and ?t = "table 0 s"
  let ?y = "?t ?k OR ucast (push_bit (unat (FNAND_BBTBLOCKSHIFT block)) FNAND_BLOCK_RESERVED)"
  have r: "reserve_block block 0 s = upd_table 0 (\<lambda>t. t(?k := t ?k OR ucast (push_bit (unat (FNAND_BBTBLOCKSHIFT block)) FNAND_BLOCK_RESERVED))) s"
    by (simp add: reserve_block_def Let_def block_byte)
  have same: "?y = ?t ?k" if "kind ?t (unat block) \<in> {2, 3}"
    using that by (intro bit_word_eqI) (auto simp: or_bits kind_bits of_bool_def split: if_splits)
  show "reserve_block block 0 s = s" if "kind ?t (unat block) \<in> {2, 3}"
    unfolding r upd_table_def using same [OF that] by simp
  moreover have "kind (table 0 (reserve_block block 0 s)) (unat block) = kind ?t (unat block)"
    if "table 0 (reserve_block block 0 s) ?k = ?t ?k" using that by (simp add: kind_def)
  ultimately show "table 0 (reserve_block block 0 s) ?k = ?t ?k \<longleftrightarrow> kind ?t (unat block) \<in> {2, 3}"
    using kind_reserve [of block s "unat block"] by (metis insertCI)
qed

lemma mark_all:
  assumes "b + n \<le> 2 ^ 31"
  shows "\<exists>u' s'. mark_loop 0 n (of_nat b) (u, s) = (u', s') \<and> keeps ecc cells s s' \<and>
    (\<forall>c. kind (table 0 s') c = (if b \<le> c \<and> c < b + n then (if kind (table 0 s) c \<in> {1, 3} then 3 else 2) else kind (table 0 s) c)) \<and>
    (u' \<longleftrightarrow> u \<or> (\<exists>c. b \<le> c \<and> c < b + n \<and> kind (table 0 s) c \<notin> {2, 3}))"
  using assms
proof (induction n arbitrary: b u s)
  case (Suc n)
  let ?s1 = "reserve_block (of_nat b) 0 s"
  let ?u1 = "u \<or> kind (table 0 s) b \<notin> {2, 3}"
  have ub: "unat (of_nat b :: u32) = b" using Suc.prems by (simp add: unat_of_nat_32)
  have k1: "kind (table 0 ?s1) c = (if c = b then (if kind (table 0 s) c \<in> {1, 3} then 3 else 2) else kind (table 0 s) c)" for c
    using kind_reserve [of "of_nat b" s c] by (simp add: ub)
  have step: "mark_loop 0 (Suc n) (of_nat b) (u, s) = mark_loop 0 n (of_nat (b + 1)) (?u1, ?s1)"
  proof -
    have "(u \<or> table 0 s (b div 4) \<noteq> table 0 ?s1 (b div 4)) = ?u1" using reserve_same(1) [of "of_nat b" s] unfolding ub by metis
    then show ?thesis unfolding mark_loop.simps Let_def prod.case block_byte ub by (simp only: of_nat_add of_nat_1)
  qed
  obtain u' s' where s': "mark_loop 0 n (of_nat (b + 1)) (?u1, ?s1) = (u', s')" "keeps ecc cells ?s1 s'"
    "\<forall>c. kind (table 0 s') c = (if b + 1 \<le> c \<and> c < b + 1 + n then (if kind (table 0 ?s1) c \<in> {1, 3} then 3 else 2) else kind (table 0 ?s1) c)"
    "u' \<longleftrightarrow> ?u1 \<or> (\<exists>c. b + 1 \<le> c \<and> c < b + 1 + n \<and> kind (table 0 ?s1) c \<notin> {2, 3})"
    using Suc.IH [of "b + 1" ?u1 ?s1] Suc.prems by auto
  have *: "(\<exists>c. b + 1 \<le> c \<and> c < b + 1 + n \<and> kind (table 0 ?s1) c \<notin> {2, 3}) \<longleftrightarrow> (\<exists>c. b + 1 \<le> c \<and> c < b + 1 + n \<and> kind (table 0 s) c \<notin> {2, 3})"
    by (simp add: k1) (metis Suc_n_not_le_n)
  have "u' \<longleftrightarrow> u \<or> (\<exists>c. b \<le> c \<and> c < b + Suc n \<and> kind (table 0 s) c \<notin> {2, 3})"
  proof -
    have "b \<le> c \<and> c < b + Suc n \<longleftrightarrow> c = b \<or> (b + 1 \<le> c \<and> c < b + 1 + n)" for c by auto
    then have "(\<exists>c. b \<le> c \<and> c < b + Suc n \<and> kind (table 0 s) c \<notin> {2, 3}) \<longleftrightarrow>
        kind (table 0 s) b \<notin> {2, 3} \<or> (\<exists>c. b + 1 \<le> c \<and> c < b + 1 + n \<and> kind (table 0 s) c \<notin> {2, 3})" by metis
    then show ?thesis using s'(4) * by argo
  qed
  moreover have "kind (table 0 s') c = (if b \<le> c \<and> c < b + Suc n then (if kind (table 0 s) c \<in> {1, 3} then 3 else 2) else kind (table 0 s) c)" for c
    using s'(3) k1 [of c] by (cases "c = b") auto
  ultimately show ?case using step s'(1) keeps_trans [OF keeps_mark(2) s'(2)] by auto
qed auto

lemma mark_none:
  assumes "b + n \<le> 2 ^ 31" "\<And>c. b \<le> c \<Longrightarrow> c < b + n \<Longrightarrow> kind (table 0 s) c \<in> {2, 3}"
  shows "mark_loop 0 n (of_nat b) (u, s) = (u, s)"
  using assms
proof (induction n arbitrary: b)
  case (Suc n)
  have ub: "unat (of_nat b :: u32) = b" using Suc.prems(1) by (simp add: unat_of_nat_32)
  have "reserve_block (of_nat b) 0 s = s" using reserve_same(2) [of s "of_nat b"] Suc.prems(2) [of b] ub by simp
  moreover have "mark_loop 0 n (of_nat (b + 1)) (u, s) = (u, s)" using Suc.prems by (intro Suc.IH) auto
  ultimately show ?case by (simp add: Let_def add.commute)
qed simp

lemma reserved_from:
  assumes "bbm_geom g" shows "ucast (num_blocks g) - (4 :: u32) = of_nat (blocks g - 4)"
proof -
  have b: "8 \<le> blocks g" "blocks g \<le> 32768" using assms by (auto simp: bbm_geom_def)
  have "unat (ucast (num_blocks g) :: u32) = blocks g" using b by (subst unat_ucast_small) simp_all
  then have "ucast (num_blocks g) = (of_nat (blocks g) :: u32)" using b by (simp add: word_unat_eq_iff unat_of_nat_32)
  then show ?thesis using b by (simp add: of_nat_diff)
qed

section \<open>The first scan\<close>

definition no_sig :: "FNandNandGeometry \<Rightarrow> flash \<Rightarrow> bbt_sel \<Rightarrow> bool" where
  "no_sig g f w \<longleftrightarrow> (\<forall>c. blocks g - 4 \<le> c \<longrightarrow> c < blocks g \<longrightarrow> \<not> has_sig g f w c)"

lemma SearchBbt_misses:
  assumes dv: "dev_ok ecc cells s" and g: "bbm_geom (nand_geometry s 0)" and st: "std w (desc w 0 s)"
    and c: "no_sig (nand_geometry s 0) (contents cells s) w"
  obtains s' where "FNandSearchBbt w 0 s = Some (FNAND_VALUE_ERROR, s')" "frame s s'" "contents cells s' = contents cells s"
proof -
  let ?N = "blocks (nand_geometry s 0)"
  have N: "8 \<le> ?N" using g by (simp add: bbm_geom_def)
  have 4: "max_blocks (desc w 0 s) = 4" using st by (simp add: std_def)
  have "\<exists>s'. search_bbt w 0 4 (of_nat (?N - 1)) (locals s) s = Some (FNAND_VALUE_ERROR, s') \<and> frame s s' \<and> contents cells s' = contents cells s"
    using N c by (intro search_misses [OF dv g st]) (auto simp: no_sig_def)
  then show thesis using that last_block [OF g] by (auto simp: FNandSearchBbt_def 4)
qed

lemma read_misses:
  assumes dv: "dev_ok ecc cells s" and g: "bbm_geom (nand_geometry s 0)"
    and st: "std Primary (desc Primary 0 s)" "std Mirror (desc Mirror 0 s)"
    and c: "no_sig (nand_geometry s 0) (contents cells s) Primary" "no_sig (nand_geometry s 0) (contents cells s) Mirror"
  obtains s' where "FNandReadBbt 0 s = Some (FNAND_VALUE_FAILURE, s')" "keeps ecc cells s s'" "frame s s'"
proof -
  obtain s1 where s1: "FNandSearchBbt Primary 0 s = Some (FNAND_VALUE_ERROR, s1)" "frame s s1" "contents cells s1 = contents cells s"
    by (rule SearchBbt_misses [OF dv g st(1) c(1)])
  note f1 = frame_fields(4,5) [OF s1(2)]
  obtain s2 where s2: "FNandSearchBbt Mirror 0 s1 = Some (FNAND_VALUE_ERROR, s2)" "frame s1 s2" "contents cells s2 = contents cells s1"
    by (rule SearchBbt_misses [OF frame_dev_ok [OF s1(2) dv], of Mirror]) (use g st(2) c(2) f1 s1(3) in \<open>simp_all add: desc_manager [OF f1(1)]\<close>)
  have "FNAND_VALUE_ERROR \<noteq> FT_SUCCESS" by (simp add: nand_error_defs)
  then have "FNandReadBbt 0 s = Some (FNAND_VALUE_FAILURE, s2)" using s1(1) s2(1) by (simp add: FNandReadBbt_def)
  then show thesis using that keeps_frame [OF frame_trans [OF s1(2) s2(2)]] s1(3) s2(3) frame_trans [OF s1(2) s2(2)] by simp
qed

text \<open>Both copies written for the first time, to the last block and the one before it.\<close>

lemma write_both:
  assumes dv: "dev_ok ecc cells s" and g: "bbm_geom (nand_geometry s 0)"
    and d: "desc Primary 0 s = init_desc sig_primary" "desc Mirror 0 s = init_desc sig_mirror"
    and c: "no_sig (nand_geometry s 0) (contents cells s) Primary" "no_sig (nand_geometry s 0) (contents cells s) Mirror"
    and k: "kind (table 0 s) (blocks (nand_geometry s 0) - 1) \<notin> {1, 3}" "kind (table 0 s) (blocks (nand_geometry s 0) - 2) \<notin> {1, 3}"
  obtains s1 s2 where "FNandWriteBbt Primary 0 s = Some (FT_SUCCESS, s1)" "FNandWriteBbt Mirror 0 s1 = Some (FT_SUCCESS, s2)"
    "nand_geometry s2 = nand_geometry s" "table 0 s2 = table 0 s" "dev_ok ecc cells s2"
    "synced cells (blocks (nand_geometry s 0) - 1) (blocks (nand_geometry s 0) - 2) s2"
proof -
  let ?g = "nand_geometry s 0" and ?N = "blocks (nand_geometry s 0)"
  have N: "8 \<le> ?N" using g by (simp add: bbm_geom_def)
  have ini: "std Primary (init_desc sig_primary)" "std Mirror (init_desc sig_mirror)" "valid (init_desc x) = 0" "max_blocks (init_desc x) = 4"
    "desc_page_offset (init_desc x) = 0" "version (init_desc x) = 0" for x
    by (simp_all add: std_def init_desc_def const_defs)
  obtain s1 where s1: "FNandWriteBbt Primary 0 s = Some (FT_SUCCESS, s1)" "nand_geometry s1 = nand_geometry s" "table 0 s1 = table 0 s"
    "dev_ok ecc cells s1" "placed Primary (?N - 1) s1" "desc Primary 0 s1 = place (first_page ?g (?N - 1)) (init_desc sig_primary)"
    "desc Mirror 0 s1 = init_desc sig_mirror" "holds ?g (contents cells s1) Primary (?N - 1) (table 0 s) 0"
    "\<forall>p. p div ppb ?g \<noteq> ?N - 1 \<longrightarrow> contents cells s1 p = contents cells s p"
    using write_first [OF dv g, of "?N - 1" Primary] choose_primary [OF g] N d ini k(1) by auto
  have un1: "\<not> has_sig ?g (contents cells s1) Mirror b" if b: "?N - 4 \<le> b" "b < ?N" for b
  proof (cases "b = ?N - 1")
    case True
    then show ?thesis using s1(8) sig_differ by (auto simp: holds_def)
  next
    case False
    then have "contents cells s1 (b * ppb ?g) = contents cells s (b * ppb ?g)" using s1(9) first_page_row(3) [OF g b(2)] by simp
    then show ?thesis using has_sig_cong [of "contents cells s1" b ?g "contents cells s" Mirror] c(2) b by (auto simp: no_sig_def)
  qed
  have cp1: "copy ?g (contents cells s1) Primary (?N - 1) (table 0 s) 0"
    by (rule only_written [OF g s1(8) _ _ s1(9)]) (use N c(1) in \<open>auto simp: no_sig_def\<close>)
  have g1: "bbm_geom (nand_geometry s1 0)" "?N - 2 < blocks (nand_geometry s1 0)" using g N s1(2) by simp_all
  have ch: "choose_block Mirror 0 s1 = (Some (of_nat (?N - 2)), upd_desc Mirror 0 (place (first_page ?g (?N - 2))) s1)"
    using choose_mirror [OF g1(1)] s1(2,3,6,7) ini k by (simp add: place_def)
  obtain s2 where s2: "FNandWriteBbt Mirror 0 s1 = Some (FT_SUCCESS, s2)" "nand_geometry s2 = nand_geometry s" "table 0 s2 = table 0 s"
    "dev_ok ecc cells s2" "placed Mirror (?N - 2) s2" "desc Mirror 0 s2 = place (first_page ?g (?N - 2)) (init_desc sig_mirror)"
    "desc Primary 0 s2 = desc Primary 0 s1" "holds ?g (contents cells s2) Mirror (?N - 2) (table 0 s) 0"
    "\<forall>p. p div ppb ?g \<noteq> ?N - 2 \<longrightarrow> contents cells s2 p = contents cells s1 p"
    using write_first [OF s1(4) g1, of Mirror] ch s1(2,3,7) ini by auto
  have cm2: "copy ?g (contents cells s2) Mirror (?N - 2) (table 0 s) 0"
    by (rule only_written [OF g s2(8) _ _ s2(9)]) (use N un1 in auto)
  have cp2: "copy ?g (contents cells s2) Primary (?N - 1) (table 0 s) 0"
    using other_kept [OF g s2(8) _ _ s2(9), of "?N - 1" "table 0 s" 0] cp1 N by simp
  have "placed Primary (?N - 1) s2" using s1(5) s2(2,7) s1(2) by (simp add: placed_def)
  then have "synced cells (?N - 1) (?N - 2) s2"
    using cm2 cp2 s2 s1(6) N ini(6) by (simp add: synced_def place_def)
  then show thesis by (intro that [OF s1(1) s2(1)]) (use s2 in simp_all)
qed

lemma keeps_synced: "keeps ecc cells s s' \<Longrightarrow> placed w b s' = placed w b s"
  by (simp add: keeps_def placed_def)

text \<open>Reserving the last four blocks on a synced device.\<close>

lemma mark_bbt:
  assumes dv: "dev_ok ecc cells s" and g: "bbm_geom (nand_geometry s 0)" and sy: "synced cells bp bm s"
    and fr: "kind (table 0 s) (blocks (nand_geometry s 0) - 1) = 0"
  obtains s' where "FNandMarkBbt Primary 0 s = Some (FT_SUCCESS, s')" "FNandMarkBbt Mirror 0 s' = Some (FT_SUCCESS, s')" "synced cells bp bm s'"
    "nand_geometry s' = nand_geometry s" "dev_ok ecc cells s'"
    "\<forall>c < blocks (nand_geometry s 0). kind (table 0 s') c =
       (if blocks (nand_geometry s 0) - 4 \<le> c then if kind (table 0 s) c \<in> {1, 3} then 3 else 2 else kind (table 0 s) c)"
proof -
  let ?g = "nand_geometry s 0" and ?N = "blocks (nand_geometry s 0)"
  have N: "8 \<le> ?N" "?N \<le> 32768" using g by (auto simp: bbm_geom_def)
  have mx: "max_blocks (desc Primary 0 s) = 4" using sy by (simp add: synced_def placed_def std_def)
  obtain u s1 where s1: "mark_loop 0 4 (of_nat (?N - 4)) (False, s) = (u, s1)" "keeps ecc cells s s1"
    "\<forall>c. kind (table 0 s1) c = (if ?N - 4 \<le> c \<and> c < ?N - 4 + 4 then (if kind (table 0 s) c \<in> {1, 3} then 3 else 2) else kind (table 0 s) c)"
    "u \<longleftrightarrow> False \<or> (\<exists>c. ?N - 4 \<le> c \<and> c < ?N - 4 + 4 \<and> kind (table 0 s) c \<notin> {2, 3})"
    using mark_all [of "?N - 4" 4 False s ecc cells] N by auto
  have u using s1(4) fr N by (auto intro!: exI [of _ "?N - 1"])
  have k1: "nand_geometry s1 = nand_geometry s" "contents cells s1 = contents cells s" "\<And>w. desc w 0 s1 = desc w 0 s" "dev_ok ecc cells s1"
    using s1(2) dv by (simp_all add: keeps_def)
  obtain s2 s' where s': "FNandUpdateBbt 0 s1 = Some (FT_SUCCESS, s')" "synced cells bp bm s'" "table 0 s' = table 0 s1"
    "nand_geometry s' = nand_geometry s1" "dev_ok ecc cells s'"
    by (rule update_syncs [of ecc cells s1 bp bm "table 0 s" "version (desc Primary 0 s)" "table 0 s" "version (desc Mirror 0 s)"])
      (use g sy k1 keeps_synced [OF s1(2)] in \<open>auto simp: synced_def\<close>)
  have mx': "max_blocks (desc Mirror 0 s') = 4" using s'(2) by (simp add: synced_def placed_def std_def)
  have kd: "kind (table 0 s') c = (if ?N - 4 \<le> c then if kind (table 0 s) c \<in> {1, 3} then 3 else 2 else kind (table 0 s) c)" if "c < ?N" for c
    using that s1(3) s'(3) N by simp
  have no: "mark_loop 0 4 (of_nat (?N - 4)) (False, s') = (False, s')"
    by (rule mark_none) (use N kd in auto)
  have e: "(4 :: u32) = 4" "unat (4 :: u32) = 4" by simp_all
  show thesis
  proof (rule that)
    show "FNandMarkBbt Primary 0 s = Some (FT_SUCCESS, s')"
      using s1(1) s'(1) \<open>u\<close> reserved_from [OF g] by (simp add: FNandMarkBbt_def mx Let_def del: mark_loop.simps of_nat_diff)
    show "FNandMarkBbt Mirror 0 s' = Some (FT_SUCCESS, s')"
      using no reserved_from [OF g] s'(4) k1(1) by (simp add: FNandMarkBbt_def mx' Let_def del: mark_loop.simps of_nat_diff)
  qed (use s' k1 kd in simp_all)
qed

lemma first_scan:
  assumes dv: "dev_ok ecc cells s" and g: "bbm_geom (nand_geometry s 0)" and two: "2 \<le> ppb (nand_geometry s 0)"
    and p: "pattern_ok (nand_geometry s 0) (bb_pattern (bbt_manager s 0))"
    and d: "desc Primary 0 s = init_desc sig_primary" "desc Mirror 0 s = init_desc sig_mirror"
    and c: "no_sig (nand_geometry s 0) (contents cells s) Primary" "no_sig (nand_geometry s 0) (contents cells s) Mirror"
  defines "bad \<equiv> factory_bad (nand_geometry s 0) (bb_pattern (bbt_manager s 0)) (contents cells s)"
  assumes fb: "\<not> bad (blocks (nand_geometry s 0) - 1)" "\<not> bad (blocks (nand_geometry s 0) - 2)"
  obtains s' where "FNandScanBbt 0 s = Some (FT_SUCCESS, s')"
    "synced cells (blocks (nand_geometry s 0) - 1) (blocks (nand_geometry s 0) - 2) s'"
    "nand_geometry s' = nand_geometry s" "dev_ok ecc cells s'"
    "\<forall>c < blocks (nand_geometry s 0). kind (table 0 s') c = (if bad c then 3 else if blocks (nand_geometry s 0) - 4 \<le> c then 2 else 0)"
proof -
  let ?g = "nand_geometry s 0" and ?N = "blocks (nand_geometry s 0)"
  have N: "8 \<le> ?N" using g by (simp add: bbm_geom_def)
  have rdy: "is_ready s = FT_COMPONENT_IS_READY" using dv by (simp add: dev_ok_def flash_device_def)
  have st: "std Primary (desc Primary 0 s)" "std Mirror (desc Mirror 0 s)" by (simp_all add: d std_def init_desc_def const_defs)
  obtain s1 where s1: "FNandReadBbt 0 s = Some (FNAND_VALUE_FAILURE, s1)" "keeps ecc cells s s1" "frame s s1"
    by (rule read_misses [OF dv g st c])
  have k1: "nand_geometry s1 = nand_geometry s" "contents cells s1 = contents cells s" "bb_pattern (bbt_manager s1 0) = bb_pattern (bbt_manager s 0)"
    "dev_ok ecc cells s1" using s1(2) dv by (simp_all add: keeps_def)
  obtain s2 where s2: "FNandCreateBbt 0 s1 = Some s2" "keeps ecc cells s1 s2" "\<forall>c < ?N. kind (table 0 s2) c = (if bad c then 3 else 0)"
    by (rule create_bbt [OF k1(4)]) (use g two p k1 in \<open>simp_all add: bad_def\<close>)
  have k2: "nand_geometry s2 = nand_geometry s" "contents cells s2 = contents cells s" "\<And>w. desc w 0 s2 = desc w 0 s" "dev_ok ecc cells s2"
    using keeps_trans [OF s1(2) s2(2)] dv by (simp_all add: keeps_def)
  have z: "kind (table 0 s2) (?N - 1) = 0" "kind (table 0 s2) (?N - 2) = 0" using s2(3) fb N by auto
  obtain s3 s4 where s4: "FNandWriteBbt Primary 0 s2 = Some (FT_SUCCESS, s3)" "FNandWriteBbt Mirror 0 s3 = Some (FT_SUCCESS, s4)"
    "nand_geometry s4 = nand_geometry s" "table 0 s4 = table 0 s2" "dev_ok ecc cells s4" "synced cells (?N - 1) (?N - 2) s4"
    using write_both [OF k2(4)] k2 g d c z by auto
  obtain s5 where s5: "FNandMarkBbt Primary 0 s4 = Some (FT_SUCCESS, s5)" "FNandMarkBbt Mirror 0 s5 = Some (FT_SUCCESS, s5)"
    "synced cells (?N - 1) (?N - 2) s5" "nand_geometry s5 = nand_geometry s" "dev_ok ecc cells s5"
    "\<forall>c < ?N. kind (table 0 s5) c = (if ?N - 4 \<le> c then if kind (table 0 s2) c \<in> {1, 3} then 3 else 2 else kind (table 0 s2) c)"
    by (rule mark_bbt [OF s4(5) _ s4(6)]) (use g s4(3,4) z in \<open>simp_all cong: if_cong\<close>)
  have "FNAND_VALUE_FAILURE \<noteq> FT_SUCCESS" by (simp add: nand_error_defs)
  then have "FNandScanBbt 0 s = Some (FT_SUCCESS, s5)"
    using rdy s1(1) s2(1) s4(1,2) s5(1,2) by (simp add: FNandScanBbt_def)
  then show thesis by (rule that) (use s5 s2(3) in auto)
qed

end
