(* ===== verification/NandInit.thy ===== *)
theory NandInit
  imports NandBbm
begin

text \<open>
  Initialisation of the NAND driver: the timing registers (\<^verbatim>\<open>fnand_timing.c\<close>), the instance
  (\<^verbatim>\<open>FNandCfgInitialize\<close> of \<^verbatim>\<open>fnand.c\<close>) and the detection of the flash (\<^verbatim>\<open>fnand_id.c\<close> and
  \<^verbatim>\<open>manufacturer/\<close>), which sets the geometry. An access beyond the end of an array and a
  division by zero have no defined result. The log output, and with it the check sum of the
  parameter page, whose only use is a message, is not modelled.
\<close>

section \<open>fnand\_timing.c\<close>

definition FNAND_TIMING_ASY_NUM :: nat where [const_defs]: "FNAND_TIMING_ASY_NUM = 12"
definition FNAND_TIMING_SYN_NUM :: nat where [const_defs]: "FNAND_TIMING_SYN_NUM = 14"

definition fnand_timing_asy_mode0 :: "u16 list" where
  "fnand_timing_asy_mode0 = [0x03, 0x03, 0x28, 0x28, 0x03, 0x03, 0x06, 0x06, 0x28, 0x70, 0x30, 0x50]"
definition fnand_timing_asy_mode1 :: "u16 list" where
  "fnand_timing_asy_mode1 = [0x03, 0x03, 0x14, 0x14, 0x03, 0x03, 0x06, 0x06, 0x14, 0x70, 0x20, 0x28]"
definition fnand_timing_asy_mode2 :: "u16 list" where
  "fnand_timing_asy_mode2 = [0x03, 0x03, 0x0D, 0x0D, 0x03, 0x03, 0x06, 0x06, 0x0D, 0x70, 0x20, 0x1A]"
definition fnand_timing_asy_mode3 :: "u16 list" where
  "fnand_timing_asy_mode3 = [0x03, 0x03, 0x0A, 0x0A, 0x03, 0x03, 0x06, 0x06, 0x0A, 0x70, 0x20, 0x14]"
definition fnand_timing_asy_mode4 :: "u16 list" where
  "fnand_timing_asy_mode4 = [0x03, 0x03, 0x08, 0x08, 0x03, 0x03, 0x06, 0x06, 0x08, 0x70, 0x15, 0x10]"
definition fnand_timing_syn_mode0 :: "u16 list" where
  "fnand_timing_syn_mode0 = [0x20, 0x41, 0x05, 0x20, 0x10, 0x19, 0x62, 0x40, 0x38, 0x20, 0x00, 0x09, 0x50, 0x20]"
definition fnand_timing_syn_mode1 :: "u16 list" where
  "fnand_timing_syn_mode1 = [0x18, 0x32, 0x06, 0x18, 0x0C, 0x10, 0x76, 0x40, 0x2A, 0x18, 0x00, 0x12, 0x24, 0x18]"
definition fnand_timing_syn_mode2 :: "u16 list" where
  "fnand_timing_syn_mode2 = [0x10, 0x0A, 0x04, 0x10, 0x08, 0x0A, 0x6E, 0x50, 0x1D, 0x10, 0x00, 0x0C, 0x18, 0x10]"
definition fnand_timing_syn_mode3 :: "u16 list" where
  "fnand_timing_syn_mode3 = [0x0C, 0x1A, 0x02, 0x0C, 0x06, 0x08, 0x78, 0x7C, 0x15, 0x0C, 0x00, 0x08, 0x12, 0x0C]"
definition fnand_timing_syn_mode4 :: "u16 list" where
  "fnand_timing_syn_mode4 = [0x08, 0x17, 0x05, 0x08, 0x04, 0x01, 0x73, 0x40, 0x0C, 0x08, 0x00, 0x06, 0x0C, 0x10]"
definition fnand_timing_tog_ddr_mode0 :: "u16 list" where
  "fnand_timing_tog_ddr_mode0 = [0x14, 0x0a, 0x08, 0x08, 0xc8, 0xc8, 0x08, 0x08, 0x14, 0x0a, 0x14, 0x08]"

text \<open>Two entries are put into one register: \<open>k\<close> is the number of rounds left, \<open>i\<close> the index.\<close>

primrec to_reg16 :: "u32 \<Rightarrow> u16 list \<Rightarrow> nat \<Rightarrow> nat \<Rightarrow> u32 \<Rightarrow> u32 \<Rightarrow> FNand \<Rightarrow> FNand option" where
  "to_reg16 step buf 0 i reg v s = Some s"
| "to_reg16 step buf (Suc k) i reg v s =
     (if i < length buf then
        let v = push_bit 16 v + ucast (buf ! i)
        in if odd i then to_reg16 step buf k (i + 1) (reg + step) 0 (FNAND_WRITEREG reg v s)
           else to_reg16 step buf k (i + 1) reg v s
      else None)"

definition FNandMemcpyToReg16 :: "u32 \<Rightarrow> u32 \<Rightarrow> u16 list \<Rightarrow> nat \<Rightarrow> FNand \<Rightarrow> (FError \<times> FNand) option" where
  "FNandMemcpyToReg16 reg reg_step buf len s = map_option (Pair FT_SUCCESS) (to_reg16 reg_step buf len 0 reg 0 s)"

definition asy_timing :: "u32 \<Rightarrow> u16 list \<times> u32" where
  "asy_timing mode =
     (if mode = 4 then (fnand_timing_asy_mode4, 4) else if mode = 3 then (fnand_timing_asy_mode3, 5)
      else if mode = 2 then (fnand_timing_asy_mode2, 6) else if mode = 1 then (fnand_timing_asy_mode1, 5)
      else (fnand_timing_asy_mode0, 1))"

definition syn_timing :: "u32 \<Rightarrow> u32 \<times> u16 list \<times> u32" where
  "syn_timing mode =
     (if mode = 4 then (0x30, fnand_timing_syn_mode4, 0xd) else if mode = 3 then (0x18, fnand_timing_syn_mode3, 5)
      else if mode = 2 then (0x20, fnand_timing_syn_mode2, 8) else if mode = 1 then (0x40, fnand_timing_syn_mode1, 0x12)
      else (0x40, fnand_timing_syn_mode0, 0x12))"

definition FNandTimingInterfaceUpdate :: "u32 \<Rightarrow> FNand \<Rightarrow> (FError \<times> FNand) option" where
  "FNandTimingInterfaceUpdate chip s = do {
     FASSERT (is_ready s = FT_COMPONENT_IS_READY);
     FASSERT (chip < FNAND_CONNECT_MAX_NUM);
     let mode = inter_mode s chip;
     let timing = timing_mode s chip AND 0xf;
     (_, s) \<leftarrow> FNandSetOption FNAND_OPS_INTER_MODE_SELECT mode s;
     let s = FNAND_CLEARBIT FNAND_CTRL1_OFFSET (FNAND_CTRL1_SAMPL_PHASE_MAKE 0xffff) s;
     if mode = FNAND_ASYN_SDR then do {
       let (data, phase) = asy_timing timing;
       (ret, s) \<leftarrow> FNandMemcpyToReg16 FNAND_ASY_TIMING0_OFFSET 4 data FNAND_TIMING_ASY_NUM s;
       if ret \<noteq> FT_SUCCESS then Some (ret, s)
       else let s = FNAND_SETBIT FNAND_CTRL1_OFFSET (FNAND_CTRL1_SAMPL_PHASE_MAKE phase) s
            in Some (FT_SUCCESS, FNAND_WRITEREG FNAND_INTERVAL_OFFSET 1 s)
     } else if mode = FNAND_ONFI_DDR then do {
       let (interval, data, phase) = syn_timing timing;
       let s = FNAND_WRITEREG FNAND_INTERVAL_OFFSET interval s;
       (ret, s) \<leftarrow> FNandMemcpyToReg16 FNAND_SYN_TIMING6_OFFSET 4 data FNAND_TIMING_SYN_NUM s;
       if ret \<noteq> FT_SUCCESS then Some (ret, s)
       else Some (FT_SUCCESS, FNAND_SETBIT FNAND_CTRL1_OFFSET (FNAND_CTRL1_SAMPL_PHASE_MAKE phase) s)
     } else if mode = FNAND_TOG_ASYN_DDR then do {
       (ret, s) \<leftarrow> FNandMemcpyToReg16 FNAND_TOG_TIMING13_OFFSET 4 fnand_timing_tog_ddr_mode0 FNAND_TIMING_SYN_NUM s;
       if ret \<noteq> FT_SUCCESS then Some (ret, s)
       else let s = FNAND_WRITEREG FNAND_INTERVAL_OFFSET 0xc8 s
            in Some (FT_SUCCESS, FNAND_SETBIT FNAND_CTRL1_OFFSET (FNAND_CTRL1_SAMPL_PHASE_MAKE 8) s)
     } else Some (FNAND_ERR_INVAILD_PARAMETER, s)
   }"

section \<open>FNandCfgInitialize\<close>

definition FLSD_CONFIG_BASE :: uintptr where [const_defs]: "FLSD_CONFIG_BASE = 0x2807E000"
definition FLSD_NAND_MMCSD_HADDR :: uintptr where [const_defs]: "FLSD_NAND_MMCSD_HADDR = 0xC0"

definition correct_bits :: "u32 \<Rightarrow> u32" where
  "correct_bits strength = (if strength = 8 then 7 else if strength = 4 then 3 else if strength = 2 then 1 else 0)"

primrec init_chips :: "nat \<Rightarrow> u32 \<Rightarrow> FNand \<Rightarrow> (FError \<times> FNand) option" where
  "init_chips 0 i s = Some (FT_SUCCESS, s)"
| "init_chips (Suc n) i s = do {
     let s = s\<lparr>inter_mode := (inter_mode s)(i := FNAND_ASYN_SDR), timing_mode := (timing_mode s)(i := 0)\<rparr>;
     (ret, s) \<leftarrow> FNandTimingInterfaceUpdate i s;
     if ret \<noteq> FT_SUCCESS then Some (ret, s) else init_chips n (i + 1) s
   }"

definition FNandCfgInitialize :: "FNandConfig \<Rightarrow> FNand \<Rightarrow> (FError \<times> FNand) option" where
  "FNandCfgInitialize config_p s = do {
     let s = (zero_instance (desc_addr s) (data_addr s) (bus s) (dma s) (wait_irq s) (locals s) (ret_reg s))
               \<lparr>config := config_p, is_ready := FT_COMPONENT_IS_READY\<rparr>;
     let s = s\<lparr>bus := FtClearBit32 (FLSD_CONFIG_BASE + FLSD_NAND_MMCSD_HADDR) (BIT 0) (bus s),
               work_mode := FNAND_WORK_MODE_ISR\<rparr>;
     (ret, s) \<leftarrow> init_chips (unat FNAND_CONNECT_MAX_NUM) 0 s;
     if ret \<noteq> FT_SUCCESS then Some (ret, s)
     else do {
       let s = FNandHwInit (inter_mode s 0) s;
       let s = FNandHwReset s;
       let s = FNAND_CLEARBIT FNAND_CTRL0_OFFSET (FNAND_CTRL0_ECC_CORRECT_MAKE 7) s;
       let s = FNAND_SETBIT FNAND_CTRL0_OFFSET (FNAND_CTRL0_ECC_CORRECT_MAKE (correct_bits (ecc_strength (config s)))) s;
       let s = FNandEnable s;
       s \<leftarrow> FNandInitBbtDesc s;
       Some (FT_SUCCESS, s)
     }
   }"

section \<open>fnand\_id.c: the length of an identification\<close>

function same_from :: "(nat \<Rightarrow> u8) \<Rightarrow> nat \<Rightarrow> nat \<Rightarrow> nat \<Rightarrow> nat \<Rightarrow> bool" where
  "same_from m i j arrlen period =
     (if period = 0 \<or> arrlen \<le> j then True else m i = m j \<and> same_from m i (j + period) arrlen period)"
  by pat_completeness auto
termination
  by (relation "measure (\<lambda>(m, i, j, arrlen, period). arrlen - j)") auto

declare same_from.simps [simp del]

definition FnandIdHasPeriod :: "(nat \<Rightarrow> u8) \<Rightarrow> nat \<Rightarrow> nat \<Rightarrow> bool" where
  "FnandIdHasPeriod m arrlen period = list_all (\<lambda>i. same_from m i (i + period) arrlen period) [0..<period]"

text \<open>The last non-zero byte, below \<open>n\<close>.\<close>

primrec last_nonzero :: "(nat \<Rightarrow> u8) \<Rightarrow> nat \<Rightarrow> nat option" where
  "last_nonzero m 0 = None"
| "last_nonzero m (Suc n) = (if m n \<noteq> 0 then Some n else last_nonzero m n)"

primrec find_period :: "(nat \<Rightarrow> u8) \<Rightarrow> nat \<Rightarrow> nat \<Rightarrow> nat \<Rightarrow> nat" where
  "find_period m len 0 period = period"
| "find_period m len (Suc k) period = (if FnandIdHasPeriod m len period then period else find_period m len k (period + 1))"

definition FNandIdLen :: "(nat \<Rightarrow> u8) \<Rightarrow> nat \<Rightarrow> nat" where
  "FNandIdLen m data_length = (case last_nonzero m data_length of
      None \<Rightarrow> 0
    | Some k \<Rightarrow>
        let period = find_period m data_length (data_length - 1) 1
        in if period < data_length then period
           else if k < data_length - 1 then k + 1 else data_length)"

section \<open>The geometry\<close>

text \<open>
  What the parts of a device give: products of 32-bit values wrap before they are stored in 64 bits.
\<close>

definition derive_geometry :: "u32 \<Rightarrow> u32 \<Rightarrow> u32 \<Rightarrow> u32 \<Rightarrow> u8 \<Rightarrow> u8 \<Rightarrow> u8 \<Rightarrow> FNandConfig \<Rightarrow> FNandNandGeometry option" where
  "derive_geometry page spare ppb bpl lun rows cols cfg =
     (if cfg_ecc_step_size cfg = 0 then None
      else Some (
        let nblocks = ucast lun * bpl :: u32; bsize = ppb * page;
            ecc = FNandGetEccTotalLength page (ecc_strength cfg)
        in \<lparr>bytes_per_page = page, spare_bytes_per_page = spare, pages_per_block = ppb, blocks_per_lun = bpl,
            num_lun = lun, num_pages = ucast (nblocks * ppb), num_blocks = ucast nblocks, block_size = ucast bsize,
            device_size = ucast nblocks * ucast bsize * ucast page, rowaddr_cycles = rows, coladdr_cycles = cols,
            hw_ecc_steps = page div cfg_ecc_step_size cfg, hw_ecc_length = ecc, ecc_offset = spare - ecc,
            ecc_step_size = cfg_ecc_step_size cfg\<rparr>))"

definition set_geometry :: "u32 \<Rightarrow> FNandNandGeometry \<Rightarrow> FNand \<Rightarrow> FNand" where
  "set_geometry chip g s = s\<lparr>nand_geometry := (nand_geometry s)(chip := g)\<rparr>"

subsection \<open>fnand\_toshiba.c\<close>

definition TC58NVM9S3ETAI0_CHECK :: "(nat \<Rightarrow> u8) \<Rightarrow> u32 \<Rightarrow> FNand \<Rightarrow> (FError \<times> FNand) option" where
  "TC58NVM9S3ETAI0_CHECK id_p chip s =
     (if id_p 3 AND 3 = 1 then do {
        g \<leftarrow> derive_geometry 2048 64 64 512 1 3 2 (config s);
        Some (FT_SUCCESS, set_geometry chip g s)
      } else Some (FNAND_ERR_NOT_MATCH, s))"

definition toshiba_nand_decode_id :: "(nat \<Rightarrow> u8) \<Rightarrow> u32 \<Rightarrow> FNand \<Rightarrow> (FError \<times> FNand) option" where
  "toshiba_nand_decode_id id_p chip s =
     (if id_p 1 = 0xf0 then TC58NVM9S3ETAI0_CHECK id_p chip s else Some (FNAND_ERR_NOT_MATCH, s))"

subsection \<open>fnand\_toggle.c and fnand\_onfi.c\<close>

text \<open>The parameter page lies in the data buffer; its numbers are little endian.\<close>

definition le16 :: "(nat \<Rightarrow> u8) \<Rightarrow> nat \<Rightarrow> u32" where
  "le16 m k = ucast (m k) OR push_bit 8 (ucast (m (k + 1)))"

definition le32 :: "(nat \<Rightarrow> u8) \<Rightarrow> nat \<Rightarrow> u32" where
  "le32 m k = le16 m k OR push_bit 16 (le16 m (k + 2))"

definition FNandSanitizeString :: "nat \<Rightarrow> nat \<Rightarrow> (nat \<Rightarrow> u8) \<Rightarrow> (nat \<Rightarrow> u8)" where
  "FNandSanitizeString off len m =
     (let m = m(off + len - 1 := 0)
      in (\<lambda>i. if off \<le> i \<and> i < off + len - 1 \<and> (m i < 32 \<or> m i > 127) then 63 else m i))"

text \<open>The fields that are used are at the same places in both kinds of parameter page.\<close>

definition detect_jedec :: "u32 \<Rightarrow> FNand \<Rightarrow> (FError \<times> FNand) option" where
  "detect_jedec chip s = do {
     let m = FNandSanitizeString 44 20 (FNandSanitizeString 32 12 (dma_data_buffer s));
     let s = s\<lparr>dma_data_buffer := m\<rparr>;
     g \<leftarrow> derive_geometry (le32 m 80) (le16 m 84) (le32 m 92) (le32 m 96) (m 100) (m 101 AND 0xf)
            (drop_bit 4 (m 101) AND 0xf) (config s);
     Some (FT_SUCCESS, set_geometry chip g s)
   }"

definition FNandToggleDetectJedec :: "u32 \<Rightarrow> FNand \<Rightarrow> (FError \<times> FNand) option" where
  "FNandToggleDetectJedec chip s = detect_jedec chip s"

definition FNandOnfiDetectJedec :: "u32 \<Rightarrow> FNand \<Rightarrow> (FError \<times> FNand) option" where
  "FNandOnfiDetectJedec chip s = detect_jedec chip s"

text \<open>Both callers pass no buffer, so nothing is copied out. The sizes of the pages are 512 and 256.\<close>

definition read_param_page :: "u8 \<Rightarrow> u32 \<Rightarrow> u32 \<Rightarrow> FNand \<Rightarrow> (FError \<times> FNand) option" where
  "read_param_page address page_size chip s = do {
     let n = (if 3 * page_size > FNAND_DMA_MAX_LENGTH then FNAND_DMA_MAX_LENGTH else 3 * page_size);
     let s = pack_slot 0 (mk_format 0xEC 0xfff 1 2 0 1) (pack_data (Some [address]) 1 (data_addr s) n chip 0) s;
     (ret, s) \<leftarrow> FNandSendCmd FNAND_READ_PAGE_TYPE s;
     Some (if ret \<noteq> FT_SUCCESS then FNAND_ERR_OPERATION else FT_SUCCESS, s)
   }"

definition FNandToggleReadParamPage :: "u32 \<Rightarrow> FNand \<Rightarrow> (FError \<times> FNand) option" where
  "FNandToggleReadParamPage chip s = read_param_page 0x40 512 chip s"

definition FNandOnfiReadParamPage :: "u32 \<Rightarrow> FNand \<Rightarrow> (FError \<times> FNand) option" where
  "FNandOnfiReadParamPage chip s = read_param_page 0 256 chip s"

definition bytes_at :: "(nat \<Rightarrow> u8) option \<Rightarrow> u8 list \<Rightarrow> bool" where
  "bytes_at m bs \<longleftrightarrow> (case m of None \<Rightarrow> False | Some m \<Rightarrow> map m [0..<length bs] = bs)"

text \<open>``JEDEC'' and ``ONFI''.\<close>

definition jedec_name :: "u8 list" where "jedec_name = [0x4A, 0x45, 0x44, 0x45, 0x43]"
definition onfi_name :: "u8 list" where "onfi_name = [0x4F, 0x4E, 0x46, 0x49]"

definition FNandToggleInit :: "u32 \<Rightarrow> FNand \<Rightarrow> (FError \<times> FNand) option" where
  "FNandToggleInit chip s = do {
     (ret, s) \<leftarrow> FNandFlashReset chip s;
     if ret \<noteq> FT_SUCCESS then Some (ret, s)
     else do {
       (ret, id_p, s) \<leftarrow> FNandFlashReadId 0x40 (Some (locals s)) 6 chip s;
       if ret \<noteq> FT_SUCCESS \<or> \<not> bytes_at id_p jedec_name then Some (FNAND_NOT_FET_TOGGLE_MODE, s)
       else do {
         let v = the id_p 5;
         let s = (if v = 1 then s\<lparr>inter_mode := (inter_mode s)(chip := FNAND_ASYN_SDR)\<rparr>
                  else if v = 2 then s\<lparr>inter_mode := (inter_mode s)(chip := FNAND_TOG_ASYN_DDR)\<rparr>
                  else if v = 4 then s\<lparr>inter_mode := (inter_mode s)(chip := FNAND_ASYN_SDR)\<rparr> else s);
         (_, s) \<leftarrow> FNandTimingInterfaceUpdate chip s;
         (ret, s) \<leftarrow> FNandToggleReadParamPage chip s;
         if ret \<noteq> FT_SUCCESS then Some (FNAND_NOT_FET_TOGGLE_MODE, s) else FNandToggleDetectJedec chip s
       }
     }
   }"

definition FNandOnfiInit :: "u32 \<Rightarrow> FNand \<Rightarrow> (FError \<times> FNand) option" where
  "FNandOnfiInit chip s = do {
     (ret, s) \<leftarrow> FNandFlashReset chip s;
     if ret \<noteq> FT_SUCCESS then Some (ret, s)
     else do {
       (ret, id_p, s) \<leftarrow> FNandFlashReadId 0x20 (Some (locals s)) 5 chip s;
       if ret \<noteq> FT_SUCCESS \<or> \<not> bytes_at id_p onfi_name then Some (FNAND_NOT_FET_TOGGLE_MODE, s)
       else do {
         let s = s\<lparr>inter_mode := (inter_mode s)(chip := FNAND_ASYN_SDR)\<rparr>;
         (_, s) \<leftarrow> FNandTimingInterfaceUpdate chip s;
         (ret, s) \<leftarrow> FNandOnfiReadParamPage chip s;
         if ret \<noteq> FT_SUCCESS then Some (FNAND_NOT_FET_TOGGLE_MODE, s) else FNandOnfiDetectJedec chip s
       }
     }
   }"

section \<open>fnand\_id.c: detection\<close>

definition NAND_MFR_TOSHIBA :: u8 where [const_defs]: "NAND_MFR_TOSHIBA = 0x98"

text \<open>The list of manufacturers has one entry; its \<open>detect\<close> function is there.\<close>

type_synonym detect_fn = "(nat \<Rightarrow> u8) \<Rightarrow> u32 \<Rightarrow> FNand \<Rightarrow> (FError \<times> FNand) option"

definition FNandGetManuFacturer :: "u8 \<Rightarrow> detect_fn option" where
  "FNandGetManuFacturer id_p = (if id_p = NAND_MFR_TOSHIBA then Some toshiba_nand_decode_id else None)"

text \<open>The length of the identification is stored as well; the one \<open>detect\<close> function does not read it.\<close>

definition FNandIdDetect :: "u32 \<Rightarrow> FNand \<Rightarrow> (FError \<times> FNand) option" where
  "FNandIdDetect chip s = do {
     (ret, s) \<leftarrow> FNandFlashReset chip s;
     if ret \<noteq> FT_SUCCESS then Some (ret, s)
     else do {
       (ret, id_p, s) \<leftarrow> FNandFlashReadId 0 (Some (locals s)) 2 chip s;
       if ret \<noteq> FT_SUCCESS then Some (ret, s)
       else do {
         let maf_id = the id_p 0;
         let dev_id = the id_p 1;
         (ret, id_p, s) \<leftarrow> FNandFlashReadId 0 id_p 8 chip s;
         if ret \<noteq> FT_SUCCESS then Some (ret, s)
         else if the id_p 0 \<noteq> maf_id \<or> the id_p 1 \<noteq> dev_id then Some (FNAND_ERR_NOT_MATCH, s)
         else (case FNandGetManuFacturer maf_id of
            None \<Rightarrow> Some (FNAND_ERR_NOT_MATCH, s)
          | Some detect \<Rightarrow> detect (the id_p) chip s)
       }
     }
   }"

text \<open>One chip: \<open>Some ret\<close> when the loop is left with \<open>ret\<close>.\<close>

definition with_interface :: "u32 \<Rightarrow> u32 \<Rightarrow> FNand \<Rightarrow> (FError option \<times> FNand) option" where
  "with_interface mode i s = do {
     let s = s\<lparr>nand_flash_interface := (nand_flash_interface s)(i := mode)\<rparr>;
     (ret, s) \<leftarrow> FNandTimingInterfaceUpdate i s;
     if ret \<noteq> FT_SUCCESS then Some (Some ret, s) else Some (None, FNandFlashFuncRegister s)
   }"

definition detect_chip :: "u32 \<Rightarrow> FNand \<Rightarrow> (FError option \<times> FNand) option" where
  "detect_chip i s = do {
     (ret, s) \<leftarrow> FNandIdDetect i s;
     if ret = FT_SUCCESS then Some (None, FNandFlashFuncRegister s)
     else do {
       (ret, s) \<leftarrow> FNandToggleInit i s;
       if ret = FT_SUCCESS then with_interface FNAND_TOGGLE_MODE i s
       else do {
         (ret, s) \<leftarrow> FNandOnfiInit i s;
         if ret = FT_SUCCESS then with_interface FNAND_ONFI_MODE i s else Some (None, s)
       }
     }
   }"

primrec detect_chips :: "nat \<Rightarrow> u32 \<Rightarrow> FNand \<Rightarrow> (FError \<times> FNand) option" where
  "detect_chips 0 i s = Some (FT_SUCCESS, s)"
| "detect_chips (Suc n) i s = do {
     (r, s) \<leftarrow> detect_chip i s;
     (case r of Some ret \<Rightarrow> Some (ret, s) | None \<Rightarrow> detect_chips n (i + 1) s)
   }"

definition FNandDetect :: "FNand \<Rightarrow> (FError \<times> FNand) option" where
  "FNandDetect s = detect_chips (unat FNAND_CONNECT_MAX_NUM) 0 s"

definition FNandScan :: "FNand \<Rightarrow> (FError \<times> FNand) option" where
  "FNandScan s = do {
     FASSERT (is_ready s = FT_COMPONENT_IS_READY);
     FNandDetect s
   }"

section \<open>fnand\_g.c and fnand\_sinit.c\<close>

definition FNandConfigTable :: "FNandConfig list" where
  "FNandConfigTable = [\<lparr>instance_id = 0, irq_num = 106, base_address = 0x28002000, ecc_strength = 8, cfg_ecc_step_size = 512\<rparr>]"

definition FNandLookupConfig :: "u32 \<Rightarrow> FNandConfig option" where
  "FNandLookupConfig id_p = List.find (\<lambda>c. instance_id c = id_p) FNandConfigTable"

end
