(* ===== verification/NandInitProps.thy ===== *)
theory NandInitProps
  imports NandInit NandApi
begin

text \<open>
  Initialisation and detection. Register accesses, commands and detection leave the bad block
  manager alone, so the descriptors and the pattern are those of \<^verbatim>\<open>FNandCfgInitialize\<close>, which
  runs before the geometry is known.
\<close>

section \<open>The manager during detection\<close>

lemma manager_regs [simp]:
  "bbt_manager (FNAND_WRITEREG off v s) = bbt_manager s" "bbt_manager (FNAND_SETBIT off v s) = bbt_manager s"
  "bbt_manager (FNAND_CLEARBIT off v s) = bbt_manager s" "bbt_manager (snd (FNAND_READREG off s)) = bbt_manager s"
  by (simp_all add: FNAND_WRITEREG_def FNAND_SETBIT_def FNAND_CLEARBIT_def FNAND_READREG_def case_prod_beta)

lemma manager_HwReset [simp]: "bbt_manager (FNandHwReset s) = bbt_manager s"
  by (simp add: FNandHwReset_def Let_def)

lemma manager_HwInit [simp]: "bbt_manager (FNandHwInit m s) = bbt_manager s"
  by (simp add: FNandHwInit_def Let_def)

lemma manager_slots [simp]: "bbt_manager (clear_descriptor s) = bbt_manager s" "bbt_manager (pack_slot k fmt pd s) = bbt_manager s"
  "bbt_manager (FNandFlashFuncRegister s) = bbt_manager s" "bbt_manager (set_geometry c g s) = bbt_manager s"
  by (simp_all add: clear_descriptor_def pack_slot_def FNandFlashFuncRegister_def set_geometry_def)

lemma manager_start_dma [simp]: "bbt_manager (start_dma s) = bbt_manager s"
  by (simp add: start_dma_def Let_def)

lemma manager_poll: "bbt_manager (snd (poll_state m n s)) = bbt_manager s"
proof (induction n arbitrary: s)
  case 0
  show ?case using manager_regs(4) [of FNAND_STATE_OFFSET s] by (simp add: case_prod_beta Let_def)
next
  case (Suc n)
  show ?case using Suc [of "snd (FNAND_READREG FNAND_STATE_OFFSET s)"] by (simp add: case_prod_beta Let_def)
qed

text \<open>\<open>keeps_manager r s\<close>: when \<open>r\<close> has a result, its state has the manager of \<open>s\<close>.\<close>

definition keeps_manager :: "('a \<times> FNand) option \<Rightarrow> FNand \<Rightarrow> bool" where
  "keeps_manager r s \<longleftrightarrow> (\<forall>a s'. r = Some (a, s') \<longrightarrow> bbt_manager s' = bbt_manager s)"

lemma keeps_manager_Some [simp]: "keeps_manager (Some (a, s')) s \<longleftrightarrow> bbt_manager s' = bbt_manager s" "keeps_manager None s"
  by (auto simp: keeps_manager_def)

lemma keeps_managerI: "bbt_manager s' = bbt_manager s \<Longrightarrow> keeps_manager r s' \<Longrightarrow> keeps_manager r s"
  by (simp add: keeps_manager_def)

lemma keeps_manager_bind:
  assumes "keeps_manager r s" "\<And>a t. bbt_manager t = bbt_manager s \<Longrightarrow> keeps_manager (f (a, t)) s"
  shows "keeps_manager (Option.bind r f) s"
proof (cases r)
  case (Some x)
  obtain a t where x: "x = (a, t)" by (cases x)
  then have "bbt_manager t = bbt_manager s" using assms(1) Some by (simp add: keeps_manager_def)
  then show ?thesis using assms(2) Some x by simp
qed simp

lemma keeps_manager_poll: "keeps_manager (Some (poll_state m n t)) s \<longleftrightarrow> bbt_manager t = bbt_manager s"
  using manager_poll [of m n t] by (cases "poll_state m n t") simp

lemma keeps_manager_assert: "(b \<Longrightarrow> keeps_manager (f ()) s) \<Longrightarrow> keeps_manager (Option.bind (FASSERT b) f) s"
  by (cases b) (simp_all add: FASSERT_def)

lemma keeps_manager_state: "(\<And>v. r = Some v \<Longrightarrow> keeps_manager (f v) s) \<Longrightarrow> keeps_manager (Option.bind r f) s"
  by (cases r) simp_all

lemma manager_CheckBusy: "bbt_manager u = bbt_manager s \<Longrightarrow> keeps_manager (FNandCheckBusy u) s"
  unfolding FNandCheckBusy_def by (rule keeps_manager_assert) (simp add: case_prod_beta Let_def)

lemma manager_IsrEnable:
  "(if b then FNandIsrEnable k u else Some u) = Some v \<Longrightarrow> bbt_manager v = bbt_manager u"
  by (auto simp: FNandIsrEnable_def FASSERT_def split: if_splits)

lemma manager_SendCmd:
  assumes t: "bbt_manager t = bbt_manager s" shows "keeps_manager (FNandSendCmd ty t) s"
  unfolding FNandSendCmd_def Let_def
  apply (rule keeps_manager_assert)
  apply (rule keeps_manager_bind)
   apply (rule manager_CheckBusy, simp add: t)
  apply (simp only: prod.case)
  apply (split if_split, intro conjI impI)
   apply simp
  apply (rule keeps_manager_state)
  apply (drule manager_IsrEnable)
  apply (simp add: keeps_manager_poll)
  done

lemma manager_ReadId:
  fixes s :: FNand
  assumes t: "bbt_manager t = bbt_manager s" and r: "FNandFlashReadId a m n chip t = Some (e, m', s')"
  shows "bbt_manager s' = bbt_manager s"
proof -
  let ?t = "pack_slot 0 (cmd_format CMD_READ_ID) (pack_data (Some [a]) 1 (data_addr t)
      (if FNAND_DMA_MAX_LENGTH < n then FNAND_DMA_MAX_LENGTH else n) chip 0) (clear_descriptor t)"
  have d: "data_addr (clear_descriptor t) = data_addr t" by (simp add: clear_descriptor_def)
  obtain e1 s1 where s1: "FNandSendCmd FNAND_CMD_TYPE ?t = Some (e1, s1)"
    using r unfolding FNandFlashReadId_def Let_def d by (cases "FNandSendCmd FNAND_CMD_TYPE ?t") auto
  have "s' = s1" using r s1 unfolding FNandFlashReadId_def Let_def d
    by (auto split: if_splits option.splits bind_splits)
  then show ?thesis using manager_SendCmd [of ?t s] s1 t by (simp add: keeps_manager_def)
qed

lemma manager_Reset: "bbt_manager t = bbt_manager s \<Longrightarrow> keeps_manager (FNandFlashReset chip t) s"
  unfolding FNandFlashReset_def Let_def by (rule manager_SendCmd) simp

text \<open>A read of the identification, followed by a continuation.\<close>

lemma keeps_manager_ReadId:
  assumes "bbt_manager t = bbt_manager s" "\<And>e m' u. bbt_manager u = bbt_manager s \<Longrightarrow> keeps_manager (f (e, m', u)) s"
  shows "keeps_manager (Option.bind (FNandFlashReadId a m n chip t) f) s"
proof (rule keeps_manager_state)
  fix v assume "FNandFlashReadId a m n chip t = Some v"
  moreover obtain e m' u where "v = (e, m', u)" by (cases v)
  ultimately show "keeps_manager (f v) s" using assms manager_ReadId by blast
qed

lemma manager_to_reg16: "to_reg16 step buf k i reg v s = Some s' \<Longrightarrow> bbt_manager s' = bbt_manager s"
  by (induction k arbitrary: i reg v s) (auto simp: Let_def split: if_splits)

lemma manager_MemcpyToReg16: "bbt_manager t = bbt_manager s \<Longrightarrow> keeps_manager (FNandMemcpyToReg16 reg step buf len t) s"
  using manager_to_reg16 by (fastforce simp: keeps_manager_def FNandMemcpyToReg16_def)

lemma manager_SetOption: "bbt_manager t = bbt_manager s \<Longrightarrow> keeps_manager (FNandSetOption opt v t) s"
  unfolding FNandSetOption_def
  by (rule keeps_manager_assert) (auto intro!: keeps_manager_assert simp: Let_def)

lemma manager_Timing:
  assumes "bbt_manager t = bbt_manager s" shows "keeps_manager (FNandTimingInterfaceUpdate chip t) s"
  unfolding FNandTimingInterfaceUpdate_def Let_def
  apply (rule keeps_manager_assert)
  apply (rule keeps_manager_assert)
  apply (rule keeps_manager_bind [OF manager_SetOption [OF assms]])
  apply (simp only: prod.case case_prod_beta)
  apply (auto intro!: keeps_manager_bind manager_MemcpyToReg16)
  done

lemma manager_param_page: "bbt_manager t = bbt_manager s \<Longrightarrow> keeps_manager (read_param_page a n chip t) s"
  unfolding read_param_page_def Let_def by (rule keeps_manager_bind [OF manager_SendCmd]) auto

lemma manager_detect_jedec: "bbt_manager t = bbt_manager s \<Longrightarrow> keeps_manager (detect_jedec chip t) s"
  unfolding detect_jedec_def Let_def by (rule keeps_manager_state) simp

lemma manager_ToggleInit: "bbt_manager t = bbt_manager s \<Longrightarrow> keeps_manager (FNandToggleInit chip t) s"
  unfolding FNandToggleInit_def Let_def FNandToggleReadParamPage_def FNandToggleDetectJedec_def
  by (rule keeps_manager_bind [OF manager_Reset])
    (auto intro!: keeps_manager_ReadId keeps_manager_bind [OF manager_Timing] keeps_manager_bind [OF manager_param_page] manager_detect_jedec)

lemma manager_OnfiInit: "bbt_manager t = bbt_manager s \<Longrightarrow> keeps_manager (FNandOnfiInit chip t) s"
  unfolding FNandOnfiInit_def Let_def FNandOnfiReadParamPage_def FNandOnfiDetectJedec_def
  by (rule keeps_manager_bind [OF manager_Reset])
    (auto intro!: keeps_manager_ReadId keeps_manager_bind [OF manager_Timing] keeps_manager_bind [OF manager_param_page] manager_detect_jedec)

lemma manager_toshiba: "bbt_manager t = bbt_manager s \<Longrightarrow> keeps_manager (toshiba_nand_decode_id id_p chip t) s"
  unfolding toshiba_nand_decode_id_def TC58NVM9S3ETAI0_CHECK_def by (auto intro!: keeps_manager_state)

lemma manager_IdDetect: "bbt_manager t = bbt_manager s \<Longrightarrow> keeps_manager (FNandIdDetect chip t) s"
  unfolding FNandIdDetect_def Let_def
  by (rule keeps_manager_bind [OF manager_Reset])
    (auto intro!: keeps_manager_ReadId manager_toshiba simp: FNandGetManuFacturer_def split: option.splits)

lemma manager_with_interface: "bbt_manager t = bbt_manager s \<Longrightarrow> keeps_manager (with_interface mode i t) s"
  unfolding with_interface_def Let_def by (rule keeps_manager_bind [OF manager_Timing]) auto

lemma manager_detect_chip: "bbt_manager t = bbt_manager s \<Longrightarrow> keeps_manager (detect_chip i t) s"
  unfolding detect_chip_def
  by (rule keeps_manager_bind [OF manager_IdDetect])
    (auto intro!: keeps_manager_bind [OF manager_ToggleInit] keeps_manager_bind [OF manager_OnfiInit] manager_with_interface)

lemma manager_detect_chips: "bbt_manager t = bbt_manager s \<Longrightarrow> keeps_manager (detect_chips n i t) s"
proof (induction n arbitrary: i t)
  case (Suc n)
  show ?case unfolding detect_chips.simps
    by (rule keeps_manager_bind [OF manager_detect_chip [OF Suc.prems]]) (auto intro: Suc.IH split: option.split)
qed simp

lemma manager_Scan: "keeps_manager (FNandScan s) s"
  unfolding FNandScan_def FNandDetect_def by (rule keeps_manager_assert) (simp add: manager_detect_chips)

section \<open>Timing\<close>

lemma to_reg16_defined: "i + k \<le> length buf \<Longrightarrow> \<exists>s'. to_reg16 step buf k i reg v s = Some s'"
  by (induction k arbitrary: i reg v s) (auto simp: Let_def)

lemma to_reg16_beyond: "i \<le> length buf \<Longrightarrow> length buf < i + k \<Longrightarrow> to_reg16 step buf k i reg v s = None"
  by (induction k arbitrary: i reg v s) (auto simp: Let_def)

lemma timing_lengths:
  "length (fst (asy_timing m)) = FNAND_TIMING_ASY_NUM" "length (fst (snd (syn_timing m))) = FNAND_TIMING_SYN_NUM"
  "length fnand_timing_tog_ddr_mode0 < FNAND_TIMING_SYN_NUM"
  by (simp_all add: asy_timing_def syn_timing_def const_defs fnand_timing_asy_mode0_def fnand_timing_asy_mode1_def
      fnand_timing_asy_mode2_def fnand_timing_asy_mode3_def fnand_timing_asy_mode4_def fnand_timing_syn_mode0_def
      fnand_timing_syn_mode1_def fnand_timing_syn_mode2_def fnand_timing_syn_mode3_def fnand_timing_syn_mode4_def
      fnand_timing_tog_ddr_mode0_def)

lemma MemcpyToReg16_beyond: "length buf < len \<Longrightarrow> FNandMemcpyToReg16 reg step buf len s = None"
  by (simp add: FNandMemcpyToReg16_def to_reg16_beyond)

lemma SetOption_mode:
  assumes "is_ready s = FT_COMPONENT_IS_READY"
  shows "FNandSetOption FNAND_OPS_INTER_MODE_SELECT v s = (if v \<le> FNAND_TOG_ASYN_DDR
    then Some (FT_SUCCESS, FNAND_SETBIT FNAND_CTRL0_OFFSET (FNAND_CTRL0_INTER_MODE v) (FNAND_CLEARBIT FNAND_CTRL0_OFFSET (FNAND_CTRL0_INTER_MODE 3) s))
    else None)"
  using assms by (simp add: FNandSetOption_def FASSERT_def Let_def)

lemma quiet_to_reg16: "to_reg16 step buf k i reg v s = Some s' \<Longrightarrow> quiet s s'"
proof (induction k arbitrary: i reg v s)
  case (Suc k)
  then show ?case using quiet_trans [OF quiet_WRITEREG] by (fastforce simp: Let_def split: if_splits)
qed simp

lemma MemcpyToReg16_defined:
  assumes "len \<le> length buf"
  obtains s' where "FNandMemcpyToReg16 reg step buf len s = Some (FT_SUCCESS, s')" "quiet s s'"
  using to_reg16_defined [of 0 len buf step reg 0 s] quiet_to_reg16 assms by (auto simp: FNandMemcpyToReg16_def)

text \<open>The state in which the timing of a mode is written, and the three modes.\<close>

definition mode_set :: "u32 \<Rightarrow> FNand \<Rightarrow> FNand" where
  "mode_set v s = FNAND_CLEARBIT FNAND_CTRL1_OFFSET (FNAND_CTRL1_SAMPL_PHASE_MAKE 0xffff)
      (FNAND_SETBIT FNAND_CTRL0_OFFSET (FNAND_CTRL0_INTER_MODE v) (FNAND_CLEARBIT FNAND_CTRL0_OFFSET (FNAND_CTRL0_INTER_MODE 3) s))"

lemma quiet_mode_set: "quiet s (mode_set v s)"
  unfolding mode_set_def by (rule quiet_trans [OF quiet_trans [OF quiet_CLEARBIT quiet_SETBIT] quiet_CLEARBIT])

lemmas inter_modes = FNAND_ASYN_SDR_def FNAND_ONFI_DDR_def FNAND_TOG_ASYN_DDR_def FNAND_CONNECT_MAX_NUM_def

lemma timing_asy:
  assumes r: "is_ready s = FT_COMPONENT_IS_READY" and m: "inter_mode s 0 = FNAND_ASYN_SDR"
  obtains s' where "FNandTimingInterfaceUpdate 0 s = Some (FT_SUCCESS, s')" "quiet s s'"
proof -
  let ?d = "asy_timing (timing_mode s 0 AND 0xf)"
  obtain s1 where s1: "FNandMemcpyToReg16 FNAND_ASY_TIMING0_OFFSET 4 (fst ?d) FNAND_TIMING_ASY_NUM (mode_set FNAND_ASYN_SDR s) = Some (FT_SUCCESS, s1)"
    "quiet (mode_set FNAND_ASYN_SDR s) s1"
    by (rule MemcpyToReg16_defined [OF eq_refl [OF timing_lengths(1) [symmetric]]])
  let ?s = "FNAND_WRITEREG FNAND_INTERVAL_OFFSET 1 (FNAND_SETBIT FNAND_CTRL1_OFFSET (FNAND_CTRL1_SAMPL_PHASE_MAKE (snd ?d)) s1)"
  have "FNandTimingInterfaceUpdate 0 s = Some (FT_SUCCESS, ?s)"
    using r m s1(1) by (simp add: FNandTimingInterfaceUpdate_def Let_def SetOption_mode case_prod_beta mode_set_def inter_modes)
  moreover have "quiet s ?s"
    by (rule quiet_trans [OF quiet_trans [OF quiet_trans [OF quiet_mode_set s1(2)] quiet_SETBIT] quiet_WRITEREG])
  ultimately show thesis by (rule that)
qed

lemma timing_onfi:
  assumes r: "is_ready s = FT_COMPONENT_IS_READY" and m: "inter_mode s 0 = FNAND_ONFI_DDR"
  shows "\<exists>s'. FNandTimingInterfaceUpdate 0 s = Some (FT_SUCCESS, s')"
proof -
  let ?d = "syn_timing (timing_mode s 0 AND 0xf)"
  obtain s1 where s1: "FNandMemcpyToReg16 FNAND_SYN_TIMING6_OFFSET 4 (fst (snd ?d)) FNAND_TIMING_SYN_NUM
      (FNAND_WRITEREG FNAND_INTERVAL_OFFSET (fst ?d) (mode_set FNAND_ONFI_DDR s)) = Some (FT_SUCCESS, s1)"
    by (rule MemcpyToReg16_defined [OF eq_refl [OF timing_lengths(2) [symmetric]]])
  then show ?thesis
    using r m by (simp add: FNandTimingInterfaceUpdate_def Let_def SetOption_mode case_prod_beta mode_set_def inter_modes)
qed

lemma timing_tog:
  assumes "is_ready s = FT_COMPONENT_IS_READY" "inter_mode s 0 = FNAND_TOG_ASYN_DDR"
  shows "FNandTimingInterfaceUpdate 0 s = None"
  using assms timing_lengths(3)
  by (simp add: FNandTimingInterfaceUpdate_def Let_def SetOption_mode MemcpyToReg16_beyond inter_modes)

text \<open>
  Updating the timing registers succeeds in the asynchronous and in the ONFI DDR mode, with every
  timing mode. In the toggle mode it has no defined result: it copies fourteen entries of an array
  of twelve.
\<close>

theorem timing_update_defined:
  assumes "is_ready s = FT_COMPONENT_IS_READY"
  shows "(inter_mode s 0 \<in> {FNAND_ASYN_SDR, FNAND_ONFI_DDR} \<longrightarrow> (\<exists>s'. FNandTimingInterfaceUpdate 0 s = Some (FT_SUCCESS, s'))) \<and>
    (inter_mode s 0 = FNAND_TOG_ASYN_DDR \<longrightarrow> FNandTimingInterfaceUpdate 0 s = None)"
  using timing_asy [OF assms] timing_onfi [OF assms] timing_tog [OF assms] by blast

text \<open>An instance that is ready and nothing else.\<close>

definition ready_instance :: FNand where
  "ready_instance = (zero_instance 0 0 \<lparr>dev = (\<lambda>_ _. 0), trace = []\<rparr> (\<lambda>_ m. m) (\<lambda>_. 0) (\<lambda>_. 0) 0)\<lparr>is_ready := FT_COMPONENT_IS_READY\<rparr>"

theorem timing_update_defined_witness:
  "(\<exists>s'. FNandTimingInterfaceUpdate 0 ready_instance = Some (FT_SUCCESS, s')) \<and>
   FNandTimingInterfaceUpdate 0 (ready_instance\<lparr>inter_mode := (\<lambda>_. FNAND_TOG_ASYN_DDR)\<rparr>) = None"
  using timing_update_defined [of ready_instance] timing_update_defined [of "ready_instance\<lparr>inter_mode := (\<lambda>_. FNAND_TOG_ASYN_DDR)\<rparr>"]
  by (simp add: ready_instance_def zero_instance_def FNAND_ASYN_SDR_def)

section \<open>The instance after initialisation\<close>

definition initialised :: "FNand \<Rightarrow> bool" where
  "initialised s \<longleftrightarrow> desc Primary 0 s = init_desc sig_primary \<and> desc Mirror 0 s = init_desc sig_mirror \<and>
     bb_pattern (bbt_manager s 0) = init_pattern zero_geometry"

lemma initialised_manager: "bbt_manager s' = bbt_manager s \<Longrightarrow> initialised s' = initialised s"
  by (simp add: initialised_def desc_def)

lemma InitBbtDesc_initialised:
  assumes "is_ready s = FT_COMPONENT_IS_READY" "nand_geometry s 0 = zero_geometry"
  obtains s' where "FNandInitBbtDesc s = Some s'" "initialised s'" "work_mode s' = work_mode s" "config s' = config s" "is_ready s' = is_ready s"
proof -
  have "FNandInitBbtDesc s = Some (s\<lparr>bbt_manager := (\<lambda>i. if i < FNAND_CONNECT_MAX_NUM
      then (bbt_manager s i)\<lparr>bbt_desc := init_desc sig_primary, bbt_mirror_desc := init_desc sig_mirror,
        bb_pattern := init_pattern (nand_geometry s i)\<rparr> else bbt_manager s i)\<rparr>)"
    using assms(1) by (simp add: FNandInitBbtDesc_def)
  then show thesis by (rule that) (simp_all add: initialised_def desc_def FNAND_CONNECT_MAX_NUM_def assms(2))
qed

lemma quiet_HwInit [simp]: "quiet s (FNandHwInit m s)"
  unfolding FNandHwInit_def Let_def
  by (intro quiet_trans [OF _ quiet_WRITEREG] quiet_trans [OF quiet_SETBIT quiet_CLEARBIT])



section \<open>The length of an identification\<close>

lemma same_from_iff:
  assumes "0 < period"
  shows "same_from m i j len period \<longleftrightarrow> (\<forall>k. j + k * period < len \<longrightarrow> m (j + k * period) = m i)"
  using assms
proof (induction m i j len period rule: same_from.induct)
  case (1 m i j len period)
  note per = "1.prems"
  show ?case
  proof (cases "len \<le> j")
    case False
    have "(\<forall>k. j + k * period < len \<longrightarrow> m (j + k * period) = m i) \<longleftrightarrow>
        m j = m i \<and> (\<forall>k. j + period + k * period < len \<longrightarrow> m (j + period + k * period) = m i)" (is "?l \<longleftrightarrow> ?r")
    proof
      assume l: ?l
      show ?r using spec [OF l, of 0] False l by (auto simp: add.assoc dest: spec [of _ "Suc _"])
    next
      assume r: ?r
      show ?l
      proof (intro allI impI)
        fix k assume k: "j + k * period < len"
        show "m (j + k * period) = m i" using r k by (cases k) (auto simp: add.assoc)
      qed
    qed
    then show ?thesis using "1.IH" False per by (subst same_from.simps) auto
  qed (subst same_from.simps, auto)
qed

lemma has_period_iff:
  assumes "0 < period"
  shows "FnandIdHasPeriod m len period \<longleftrightarrow> (\<forall>j < len. m j = m (j mod period))"
proof -
  have "FnandIdHasPeriod m len period \<longleftrightarrow> (\<forall>i < period. \<forall>k. i + period + k * period < len \<longrightarrow> m (i + period + k * period) = m i)"
    by (auto simp: FnandIdHasPeriod_def list_all_iff same_from_iff [OF assms])
  also have "\<dots> \<longleftrightarrow> (\<forall>j < len. m j = m (j mod period))"
  proof (intro iffI allI impI)
    fix j assume a: "\<forall>i < period. \<forall>k. i + period + k * period < len \<longrightarrow> m (i + period + k * period) = m i" and j: "j < len"
    show "m j = m (j mod period)"
    proof (cases "j div period")
      case (Suc k)
      have "j mod period + period + k * period = j mod period + j div period * period" using Suc by simp
      also have "\<dots> = j" by simp
      finally show ?thesis using a assms j by (metis mod_less_divisor)
    qed (use assms in \<open>auto simp: div_eq_0_iff\<close>)
  next
    fix i k assume a: "\<forall>j < len. m j = m (j mod period)" and "i < period" "i + period + k * period < len"
    moreover have "(i + period + k * period) mod period = i"
    proof -
      have "i + period + k * period = i + (k + 1) * period" by simp
      then show ?thesis using \<open>i < period\<close> by (simp only: mod_mult_self1) simp
    qed
    ultimately show "m (i + period + k * period) = m i" by metis
  qed
  finally show ?thesis .
qed

lemma find_period_spec:
  assumes "0 < p"
  shows "let q = find_period m len k p in p \<le> q \<and> q \<le> p + k \<and> (q < p + k \<longrightarrow> FnandIdHasPeriod m len q) \<and>
    (\<forall>r. p \<le> r \<longrightarrow> r < q \<longrightarrow> \<not> FnandIdHasPeriod m len r)"
  using assms
proof (induction k arbitrary: p)
  case (Suc k)
  have "p \<le> r \<longleftrightarrow> r = p \<or> p + 1 \<le> r" for r by auto
  then show ?case using Suc.IH [of "p + 1"] Suc.prems by (auto simp: Let_def)
qed (auto simp: Let_def)

lemma last_nonzero_spec:
  "(last_nonzero m n = None \<longleftrightarrow> (\<forall>j < n. m j = 0)) \<and> (\<forall>k. last_nonzero m n = Some k \<longrightarrow> k < n \<and> m k \<noteq> 0 \<and> (\<forall>j < n. k < j \<longrightarrow> m j = 0))"
proof (induction n)
  case (Suc n)
  show ?case
  proof (cases "m n = 0")
    case True
    then have "last_nonzero m (Suc n) = last_nonzero m n" by simp
    then show ?thesis using Suc True by (metis less_Suc_eq)
  next
    case False
    then show ?thesis by (auto simp: less_Suc_eq)
  qed
qed simp

text \<open>
  C34: The length of an identification of \<open>len\<close> bytes. It is 0 exactly when all bytes are zero. A
  length below the number of bytes is the smallest period of the bytes, when they repeat, and
  otherwise the number of bytes up to the last one that is not zero.
\<close>

theorem id_length:
  assumes "0 < len"
  defines "periodic \<equiv> \<lambda>m p. 0 < p \<and> p < len \<and> (\<forall>j < len. m j = m (j mod p))"
  shows "(FNandIdLen m len = 0 \<longleftrightarrow> (\<forall>j < len. m j = 0)) \<and>
    ((\<exists>j < len. m j \<noteq> 0) \<longrightarrow>
      (if \<exists>p. periodic m p then periodic m (FNandIdLen m len) \<and> (\<forall>p. periodic m p \<longrightarrow> FNandIdLen m len \<le> p)
       else FNandIdLen m len \<le> len \<and> m (FNandIdLen m len - 1) \<noteq> 0 \<and> (\<forall>j < len. FNandIdLen m len \<le> j \<longrightarrow> m j = 0)))"
proof (cases "last_nonzero m len")
  case None
  then show ?thesis using last_nonzero_spec [of m len] by (auto simp: FNandIdLen_def)
next
  case (Some k)
  let ?q = "find_period m len (len - 1) 1"
  have k: "k < len" "m k \<noteq> 0" "\<forall>j < len. k < j \<longrightarrow> m j = 0" using last_nonzero_spec [of m len] Some by auto
  have q: "1 \<le> ?q" "?q \<le> len" "?q < len \<Longrightarrow> FnandIdHasPeriod m len ?q" "\<And>r. 1 \<le> r \<Longrightarrow> r < ?q \<Longrightarrow> \<not> FnandIdHasPeriod m len r"
    using find_period_spec [of 1 m len "len - 1"] assms(1) by (auto simp: Let_def)
  have p: "periodic m r \<longleftrightarrow> 1 \<le> r \<and> r < len \<and> FnandIdHasPeriod m len r" for r
    using has_period_iff [of r m len] by (auto simp: periodic_def)
  have e: "FNandIdLen m len = (if ?q < len then ?q else if k < len - 1 then k + 1 else len)" using Some by (simp add: FNandIdLen_def)
  show ?thesis
  proof (cases "?q < len")
    case True
    have "periodic m ?q" using True q(1,3) by (simp add: p)
    moreover have "?q \<le> r" if "periodic m r" for r using that q(4) [of r] by (meson not_le p)
    ultimately show ?thesis using True q(1) k(1,2) e by auto
  next
    case False
    have "\<not> (\<exists>r. periodic m r)" using False q(4) by (metis not_less p order_less_le_trans le_less_linear)
    moreover have "k = len - 1" if "\<not> k < len - 1" using that k(1) by linarith
    ultimately show ?thesis using False k e assms(1) by (cases "k < len - 1") (auto simp: Suc_le_eq)
  qed
qed

theorem id_length_witness:
  "FNandIdLen (\<lambda>i. if i < 3 then [0x98, 0xF0, 0x80] ! i else 0) 8 = 3"
proof -
  let ?m = "\<lambda>i. if i < 3 then [0x98, 0xF0, 0x80 :: u8] ! i else 0"
  have s: "\<not> (0 < p \<and> p < 8 \<and> (\<forall>j < 8. ?m j = ?m (j mod p)))" for p :: nat
  proof
    assume a: "0 < p \<and> p < 8 \<and> (\<forall>j < 8. ?m j = ?m (j mod p))"
    then have "?m p = ?m 0" by (metis mod_self)
    then have "p = 1 \<or> p = 2" using a by (cases "p < 3") auto
    then show False using a by (auto simp: nth_Cons' dest!: spec [of _ 1] spec [of _ 2])
  qed
  have e: "\<exists>j < 8. ?m j \<noteq> 0" by (rule exI [of _ 0]) simp
  have l: "FNandIdLen ?m 8 \<le> 8" "?m (FNandIdLen ?m 8 - 1) \<noteq> 0" "\<forall>j < 8. FNandIdLen ?m 8 \<le> j \<longrightarrow> ?m j = 0"
    using id_length [of 8 ?m] s e by auto
  have "FNandIdLen ?m 8 - 1 < 3" using l(2) by (auto split: if_splits)
  moreover have "\<not> FNandIdLen ?m 8 \<le> 2" using l(3) by (auto dest!: spec [of _ 2])
  ultimately show ?thesis by linarith
qed

end
