(* ===== verification/NandProps.thy ===== *)
theory NandProps
  imports NandFormat NandInitProps
begin

text \<open>
  The bad block table across the life of a device: the first scan, marking a block, a restart, and a
  restart after an update that was cut off between its two writes. A restart is a new instance on
  the same flash, as initialisation and detection leave it, whose table is scanned.
\<close>

section \<open>Restart\<close>

lemma init_std: "std Primary (init_desc sig_primary)" "std Mirror (init_desc sig_mirror)"
  by (simp_all add: std_def init_desc_def const_defs)

lemma init_pattern_ok: "bbm_geom g \<Longrightarrow> pattern_ok g (init_pattern zero_geometry)"
  by (auto simp: bbm_geom_def geom_ok_def pattern_ok_def init_pattern_def const_defs zero_geometry_def)

text \<open>
  \<open>restarts r P\<close>: the scan on the instance \<open>r\<close> succeeds with a state in \<open>P\<close>. A new instance on a
  flash is initialised, and the device is in order.
\<close>

definition restarts :: "FNand \<Rightarrow> (FNand \<Rightarrow> bool) \<Rightarrow> bool" where
  "restarts r P \<longleftrightarrow> (\<exists>r'. FNandScanBbt 0 r = Some (FT_SUCCESS, r') \<and> P r')"

definition new_instance :: "((nat \<Rightarrow> u8) \<Rightarrow> nat \<Rightarrow> u8) \<Rightarrow> (nand_history \<Rightarrow> flash) \<Rightarrow> FNandNandGeometry \<Rightarrow> flash \<Rightarrow> FNand \<Rightarrow> bool" where
  "new_instance ecc cells g f r \<longleftrightarrow> dev_ok ecc cells r \<and> initialised r \<and> nand_geometry r 0 = g \<and> contents cells r = f"

lemma kind_agree:
  assumes "bbm_geom g" "\<forall>i < blocks g div 4. t i = u i" "c < blocks g" shows "kind t c = kind u c"
proof -
  have "c div 4 < blocks g div 4" using assms(1,3) by (auto simp: bbm_geom_def elim!: dvdE)
  then show ?thesis using assms(2) by (simp add: kind_def)
qed

lemma restart_copies:
  assumes r: "new_instance ecc cells g f r" and g: "bbm_geom g" and ne: "bp \<noteq> bm"
    and c: "copy g f Primary bp tp vp" "copy g f Mirror bm tm vm"
    and eq: "vp = vm \<Longrightarrow> \<forall>i < blocks g div 4. tm i = tp i"
  shows "restarts r (\<lambda>r'. synced cells bp bm r' \<and> (\<forall>b < blocks g. kind (table 0 r') b = kind (if vp < vm then tm else tp) b))"
proof -
  have dv: "dev_ok ecc cells r" and gr: "nand_geometry r 0 = g" "contents cells r = f" and ini: "initialised r"
    using r by (simp_all add: new_instance_def)
  obtain r' where r': "FNandReadBbt 0 r = Some (FT_SUCCESS, r')" "synced cells bp bm r'"
    "\<forall>i < blocks (nand_geometry r 0) div 4. table 0 r' i = (if vp < vm then tm i else tp i)"
    by (rule read_bbt [OF dv _ ne, of tp vp tm vm]) (use g c eq gr ini init_std in \<open>simp_all add: initialised_def\<close>)
  have "is_ready r = FT_COMPONENT_IS_READY" using dv by (simp add: dev_ok_def flash_device_def)
  then have "FNandScanBbt 0 r = Some (FT_SUCCESS, r')" using r'(1) by (simp add: FNandScanBbt_def)
  moreover have "kind (table 0 r') b = kind (if vp < vm then tm else tp) b" if "b < blocks g" for b
    by (rule kind_agree [OF g _ that]) (use r'(3) gr in simp)
  ultimately show ?thesis using r'(2) unfolding restarts_def by blast
qed

section \<open>An example: the blank device of eight blocks\<close>

lemma geom_g8: "bbm_geom g8" "ppb g8 = 64" "blocks g8 = 8" "bpp g8 = 2048"
  using geom_8 by (simp_all add: bbm_geom_def g8_def zero_geometry_def)

lemma blank_no_sig: "no_sig g8 blank w"
proof -
  have "sig_of w ! 0 \<noteq> 0xff" by (cases w) (simp_all add: sig_primary_def sig_mirror_def)
  then show ?thesis unfolding no_sig_def has_sig_def blank_def by (metis zero_less_numeral)
qed

lemma blank_good: "\<not> factory_bad g8 (init_pattern zero_geometry) blank c"
  by (auto simp: factory_bad_def marked_def init_pattern_def blank_def const_defs nth_Cons' zero_geometry_def)

definition new8 :: FNand where
  "new8 = dev8\<lparr>bbt_manager := (\<lambda>_. zero_manager\<lparr>bbt_desc := init_desc sig_primary, bbt_mirror_desc := init_desc sig_mirror,
     bb_pattern := init_pattern zero_geometry\<rparr>)\<rparr>"

lemma new8_instance: "new_instance ecc0 cells8 g8 blank new8"
  using dev8_ok by (simp add: new_instance_def new8_def initialised_def desc_def contents_def)

lemma synced_example:
  "\<exists>s. dev_ok ecc0 cells8 s \<and> nand_geometry s 0 = g8 \<and> synced cells8 7 6 s \<and> (\<forall>c < 8. kind (table 0 s) c = (if 4 \<le> c then 2 else 0))"
proof -
  have s1: "dev_ok ecc0 cells8 new8" "nand_geometry new8 0 = g8" "contents cells8 new8 = blank" "initialised new8"
    using new8_instance by (simp_all add: new_instance_def)
  have d: "desc Primary 0 new8 = init_desc sig_primary" "desc Mirror 0 new8 = init_desc sig_mirror"
    "bb_pattern (bbt_manager new8 0) = init_pattern zero_geometry" using s1(4) by (simp_all add: initialised_def)
  obtain s' where "synced cells8 (blocks (nand_geometry new8 0) - 1) (blocks (nand_geometry new8 0) - 2) s'"
    "nand_geometry s' = nand_geometry new8" "dev_ok ecc0 cells8 s'"
    "\<forall>c < blocks (nand_geometry new8 0). kind (table 0 s') c =
      (if factory_bad (nand_geometry new8 0) (bb_pattern (bbt_manager new8 0)) (contents cells8 new8) c then 3 else if blocks (nand_geometry new8 0) - 4 \<le> c then 2 else 0)"
    by (rule first_scan [OF s1(1) _ _ _ d(1,2)])
      (use geom_g8 init_pattern_ok [of g8] blank_no_sig blank_good in \<open>simp_all add: s1(2,3) d(3)\<close>)
  then show ?thesis using geom_g8 blank_good s1 d by (intro exI [of _ s']) (simp cong: if_cong)
qed

section \<open>Life of the table\<close>



text \<open>
  C6: Marking a block on a device whose copies agree succeeds; in the table the block is bad and
  every other block is as before; both copies on the flash are the new table; and a later start of
  the driver on this flash, with a new instance, finds this table.
\<close>

theorem mark_block_persists:
  assumes dv: "dev_ok ecc cells s" and g: "bbm_geom (nand_geometry s 0)" and sy: "synced cells bp bm s"
    and b: "unat block < blocks (nand_geometry s 0)"
  shows "\<exists>s'. FNandMarkBlockBad block 0 s = Some (FT_SUCCESS, s') \<and> synced cells bp bm s' \<and>
    (\<forall>c. kind (table 0 s') c = (if c = unat block then 1 else kind (table 0 s) c)) \<and>
    (\<forall>r. new_instance ecc cells (nand_geometry s 0) (contents cells s') r \<longrightarrow> restarts r (\<lambda>r'. synced cells bp bm r' \<and>
      (\<forall>c < blocks (nand_geometry s 0). kind (table 0 r') c = (if c = unat block then 1 else kind (table 0 s) c))))"
proof -
  obtain s' where s': "FNandMarkBlockBad block 0 s = Some (FT_SUCCESS, s')" "synced cells bp bm s'" "nand_geometry s' = nand_geometry s"
    "dev_ok ecc cells s'" "\<forall>c. kind (table 0 s') c = (if c = unat block then 1 else kind (table 0 s) c)"
    by (rule mark_block [OF dv g sy b])
  let ?v = "version (desc Primary 0 s')"
  have "restarts r (\<lambda>r'. synced cells bp bm r' \<and> (\<forall>c < blocks (nand_geometry s 0). kind (table 0 r') c = kind (table 0 s') c))"
    if "new_instance ecc cells (nand_geometry s 0) (contents cells s') r" for r
    using restart_copies [OF that g, of bp bm "table 0 s'" ?v "table 0 s'" ?v] s'(2,3) by (auto simp: synced_def)
  then show ?thesis using s'(1,2,5) by auto
qed

theorem mark_block_persists_witness:
  "\<exists>s s'. synced cells8 7 6 s \<and> FNandMarkBlockBad 3 0 s = Some (FT_SUCCESS, s') \<and> synced cells8 7 6 s' \<and> kind (table 0 s') 3 = 1"
proof -
  obtain s where s: "dev_ok ecc0 cells8 s" "nand_geometry s 0 = g8" "synced cells8 7 6 s" using synced_example by blast
  have "bbm_geom (nand_geometry s 0)" "unat (3 :: u32) < blocks (nand_geometry s 0)" using s(2) geom_g8 by simp_all
  from mark_block_persists [OF s(1) this(1) s(3) this(2)] show ?thesis using s(3) by auto
qed

text \<open>The state in which an update starts writing: the new table, and the versions counted up.\<close>

definition updating :: "u32 \<Rightarrow> FNand \<Rightarrow> FNand" where
  "updating block s =
     (let up = \<lambda>d :: FNandBbtDesc. d\<lparr>version := version d + 1\<rparr>
      in upd_desc Mirror 0 up (upd_desc Primary 0 up
           (upd_table 0 (\<lambda>t. t(unat block div 4 := set_bad block (t (unat block div 4)))) s)))"

text \<open>Marking a block that was not bad is the write of the first copy in this state, then of the second.\<close>

lemma MarkBlockBad_writes:
  assumes dv: "dev_ok ecc cells s" and g: "bbm_geom (nand_geometry s 0)"
    and b: "unat block < blocks (nand_geometry s 0)" "kind (table 0 s) (unat block) \<noteq> 1"
  shows "FNandMarkBlockBad block 0 s = do {
    (ret, s) \<leftarrow> FNandWriteBbt Primary 0 (updating block s);
    if ret \<noteq> FT_SUCCESS then Some (ret, s) else FNandWriteBbt Mirror 0 s }"
proof -
  let ?k = "unat block div 4"
  have rdy: "is_ready s = FT_COMPONENT_IS_READY" using dv by (simp add: dev_ok_def flash_device_def)
  have ne: "table 0 s ?k \<noteq> set_bad block (table 0 s ?k)"
  proof
    assume "table 0 s ?k = set_bad block (table 0 s ?k)"
    then have "(table 0 s)(?k := set_bad block (table 0 s ?k)) = table 0 s" by (metis fun_upd_idem)
    then show False using kind_set_bad [of "table 0 s" block "unat block"] b(2) by simp
  qed
  have "upd_table 0 (\<lambda>t. t(?k := set_bad block (table 0 s ?k))) s = upd_table 0 (\<lambda>t. t(?k := set_bad block (t ?k))) s"
    by (simp add: upd_table_def)
  then show ?thesis
    using rdy b(1) ne by (simp add: FNandMarkBlockBad_def Let_def block_byte block_in_range [OF g] FNandUpdateBbt_def updating_def)
qed



section \<open>Where a copy can be placed\<close>

lemma find_block_skip:
  assumes "b < 2 ^ 32" "kind (table 0 s) b \<in> {1, 3}" "block - index = of_nat b"
  shows "find_block w 0 (Suc n) index block s = find_block w 0 n (index + 1) (of_nat b) s"
proof -
  have "block_type (of_nat b) 0 s = FNAND_BLOCK_BAD \<or> block_type (of_nat b) 0 s = FNAND_BLOCK_FACTORY_BAD"
    using assms(1,2) unfolding usable by (simp add: unat_of_nat_32)
  then show ?thesis by (simp add: assms(3) Let_def)
qed

text \<open>The rounds of the search: each subtracts its index from the block of the round before.\<close>

lemma seventh_chosen:
  fixes s w
  defines "g \<equiv> nand_geometry s 0" and "N \<equiv> blocks (nand_geometry s 0)"
  assumes g: "bbm_geom g" and v: "valid (desc w 0 s) = 0" "max_blocks (desc w 0 s) = 4"
    and bad: "kind (table 0 s) (N - 1) \<in> {1, 3}" "kind (table 0 s) (N - 2) \<in> {1, 3}"
    and good: "kind (table 0 s) (N - 4) \<notin> {1, 3}" "kind (table 0 s) (N - 7) \<notin> {1, 3}"
    and o: "desc_page_offset (desc (other w) 0 s) = first_page g (N - 4)"
  shows "choose_block w 0 s = (Some (of_nat (N - 7)), upd_desc w 0 (place (first_page g (N - 7))) s)"
proof -
  have N: "8 \<le> N" "N \<le> 32768" using g by (auto simp: bbm_geom_def g_def N_def)
  have g': "bbm_geom (nand_geometry s 0)" using g by (simp add: g_def)
  have e: "of_nat (N - 1) - 0 = (of_nat (N - 1) :: u32)" "of_nat (N - 1) - 1 = (of_nat (N - 2) :: u32)"
    "of_nat (N - 2) - (1 + 1) = (of_nat (N - 4) :: u32)" "of_nat (N - 4) - (1 + 1 + 1) = (of_nat (N - 7) :: u32)"
    using N by (simp_all add: of_nat_diff)
  let ?s = "upd_desc w 0 (\<lambda>d. d\<lparr>desc_page_offset := first_page (nand_geometry s 0) (N - 4)\<rparr>) s"
  have ne: "first_page g (N - 7) \<noteq> first_page g (N - 4)" using first_page_inj [OF g, of "N - 7" "N - 4"] N by (simp add: g_def N_def)
  have "find_block w 0 (Suc (Suc (Suc (Suc 0)))) 0 (of_nat (N - 1)) s = find_block w 0 (Suc (Suc (Suc 0))) 1 (of_nat (N - 1)) s"
    using find_block_skip [OF _ bad(1) e(1)] N by (simp del: find_block.simps of_nat_diff)
  also have "\<dots> = find_block w 0 (Suc (Suc 0)) (1 + 1) (of_nat (N - 2)) s"
    using find_block_skip [OF _ bad(2) e(2)] N by (simp del: find_block.simps of_nat_diff)
  also have "\<dots> = find_block w 0 (Suc 0) (1 + 1 + 1) (of_nat (N - 4)) ?s"
    using find_block_round [OF g' _ good(1) e(3), of w "Suc 0"] N o by (simp add: g_def N_def del: find_block.simps of_nat_diff)
  also have "\<dots> = (Some (of_nat (N - 7)), upd_desc w 0 (place (first_page (nand_geometry ?s 0) (N - 7))) ?s)"
    using find_block_round [of ?s "N - 7", OF _ _ _ e(4), of w 0] g' good(2) N o ne by (simp add: g_def N_def del: find_block.simps of_nat_diff)
  finally have f: "find_block w 0 (Suc (Suc (Suc (Suc 0)))) 0 (of_nat (N - 1)) s =
      (Some (of_nat (N - 7)), upd_desc w 0 (place (first_page (nand_geometry ?s 0) (N - 7))) ?s)" .
  have four: "Suc (Suc (Suc (Suc 0))) = 4" by simp
  have "choose_block w 0 s = (Some (of_nat (N - 7)), upd_desc w 0 (place (first_page (nand_geometry ?s 0) (N - 7))) ?s)"
    using v last_block [OF g'] f [unfolded four] by (simp add: choose_block_def N_def del: find_block.simps of_nat_diff)
  then show ?thesis by (simp add: g_def)
qed

text \<open>
  C36: The search for a block of a new copy tries the last block, then the second, fourth and seventh
  from the end. When the last two blocks are bad and the other copy has the fourth, the copy is
  written to the seventh, with success; but the search of a later start looks at the last four
  blocks only and does not find it.
\<close>

theorem copy_out_of_reach:
  fixes s w
  defines "g \<equiv> nand_geometry s 0" and "N \<equiv> blocks (nand_geometry s 0)"
  assumes dv: "dev_ok ecc cells s" and g: "bbm_geom g" and st: "std w (desc w 0 s)" "valid (desc w 0 s) = 0"
    and f: "no_sig g (contents cells s) w"
    and bad: "kind (table 0 s) (N - 1) \<in> {1, 3}" "kind (table 0 s) (N - 2) \<in> {1, 3}"
    and good: "kind (table 0 s) (N - 4) \<notin> {1, 3}" "kind (table 0 s) (N - 7) \<notin> {1, 3}"
    and o: "desc_page_offset (desc (other w) 0 s) = first_page g (N - 4)"
  shows "\<exists>s'. FNandWriteBbt w 0 s = Some (FT_SUCCESS, s') \<and>
    holds g (contents cells s') w (N - 7) (table 0 s) (version (desc w 0 s)) \<and>
    (\<forall>r. new_instance ecc cells g (contents cells s') r \<longrightarrow> (\<exists>r'. FNandSearchBbt w 0 r = Some (FNAND_VALUE_ERROR, r')))"
proof -
  have N: "8 \<le> N" "N - 7 < N" "0 < ppb g" using g by (auto simp: bbm_geom_def g_def N_def)
  have ch: "choose_block w 0 s = (Some (of_nat (N - 7)), upd_desc w 0 (place (first_page g (N - 7))) s)"
    using seventh_chosen [of s w] g st bad good o by (simp add: g_def N_def std_def)
  obtain s' where s': "FNandWriteBbt w 0 s = Some (FT_SUCCESS, s')"
    "holds g (contents cells s') w (N - 7) (table 0 s) (version (desc w 0 s))"
    "\<forall>p. p div ppb g \<noteq> N - 7 \<longrightarrow> contents cells s' p = contents cells s p"
    using write_first [OF dv _ _ st(1), of "N - 7"] ch g N(2) unfolding g_def N_def by metis
  have "no_sig g (contents cells s') w"
    unfolding no_sig_def
  proof (intro allI impI)
    fix c assume c: "blocks g - 4 \<le> c" "c < blocks g"
    then have "contents cells s' (c * ppb g) = contents cells s (c * ppb g)" using s'(3) N by (simp add: g_def N_def)
    then show "\<not> has_sig g (contents cells s') w c" using f c has_sig_cong [of "contents cells s'" c g "contents cells s" w] by (simp add: no_sig_def)
  qed
  then have "\<exists>r'. FNandSearchBbt w 0 r = Some (FNAND_VALUE_ERROR, r')" if "new_instance ecc cells g (contents cells s') r" for r
    using SearchBbt_misses [of ecc cells r w] that g by (cases w) (auto simp: new_instance_def initialised_def init_desc_def std_def const_defs)
  then show ?thesis using s'(1,2) by blast
qed

theorem copy_out_of_reach_witness:
  "\<exists>s s'. FNandWriteBbt Mirror 0 s = Some (FT_SUCCESS, s') \<and> has_sig g8 (contents cells8 s') Mirror 1"
proof -
  let ?s = "upd_desc Primary 0 (place (first_page g8 4)) (upd_desc Mirror 0 (\<lambda>_. init_desc sig_mirror)
    (upd_table 0 (\<lambda>_ i. if i = 1 then 0x50 else 0) dev8))"
  have n: "nand_geometry ?s 0 = g8" "dev_ok ecc0 cells8 ?s" "contents cells8 ?s = blank" using dev8_ok by simp_all
  have t: "table 0 ?s = (\<lambda>i. if i = 1 then 0x50 else 0)" by simp
  have d: "std Mirror (desc Mirror 0 ?s)" "valid (desc Mirror 0 ?s) = 0" "desc_page_offset (desc (other Mirror) 0 ?s) = first_page g8 4"
    by (simp_all add: init_desc_def std_def const_defs place_def)
  have k: "kind (table 0 ?s) 7 \<in> {1, 3}" "kind (table 0 ?s) 6 \<in> {1, 3}" "kind (table 0 ?s) 4 \<notin> {1, 3}" "kind (table 0 ?s) 1 \<notin> {1, 3}"
    by (simp_all add: kind_def)
  have "\<exists>s'. FNandWriteBbt Mirror 0 ?s = Some (FT_SUCCESS, s') \<and> holds g8 (contents cells8 s') Mirror 1 (table 0 ?s) (version (desc Mirror 0 ?s))"
    using copy_out_of_reach [OF n(2), of Mirror] n d k blank_no_sig geom_g8 by auto
  then show ?thesis unfolding holds_def by blast
qed

section \<open>Pages\<close>



section \<open>The default configuration\<close>

lemma default_geometry:
  assumes "FNandLookupConfig 0 = Some cfg" "id_p 1 = 0xf0" "id_p 3 AND 3 = 1" "config s = cfg"
  obtains g where "toshiba_nand_decode_id id_p 0 s = Some (FT_SUCCESS, set_geometry 0 g s)" "bytes_per_page g = 2048"
    "spare_bytes_per_page g = 64" "ecc_offset g = FNAND_BBT_DESC_VER_OFFSET" "hw_ecc_length g = 52"
proof -
  have c: "ecc_strength cfg = 8" "cfg_ecc_step_size cfg = 512" using assms(1) by (auto simp: FNandLookupConfig_def FNandConfigTable_def)
  obtain g where g: "derive_geometry 2048 64 64 512 1 3 2 cfg = Some g" by (simp add: derive_geometry_def c)
  then have "bytes_per_page g = 2048" "spare_bytes_per_page g = 64" "ecc_offset g = FNAND_BBT_DESC_VER_OFFSET" "hw_ecc_length g = 52"
    by (auto simp: derive_geometry_def c Let_def FNandGetEccTotalLength_def FNAND_BBT_DESC_VER_OFFSET_def)
  then show thesis using that g assms(2-4) by (simp add: toshiba_nand_decode_id_def TC58NVM9S3ETAI0_CHECK_def)
qed

text \<open>
  C37: With the default configuration and the flash of Toshiba that the driver knows, the check bytes
  of a page start in the byte of the spare area that holds the version of a table: writing a table's
  page to an erased page leaves there the version masked by the first check byte.
\<close>

theorem default_version_masked:
  assumes cfg: "FNandLookupConfig 0 = Some cfg" "config s0 = cfg" "id_p 1 = 0xf0" "id_p 3 AND 3 = 1"
    and det: "toshiba_nand_decode_id id_p 0 s0 = Some (FT_SUCCESS, s)" and dv: "dev_ok ecc cells s"
    and blank: "contents cells s (row page) = (\<lambda>c. 0xff)"
  shows "\<exists>s1 m. FNandWritePage page (Some data) 0 len (Some (spare_of d 64 loc)) 0 FNAND_MAX_SPARE_SIZE 0 s = Some (FT_SUCCESS, s1) \<and>
    (\<forall>i < 2 ^ 15. m i = padded data (min (unat len) 2048) i) \<and>
    (ver_offset d = 12 \<longrightarrow> contents cells s1 (row page) (2048 + 12) = version d AND ecc m 0)"
proof -
  obtain g where g: "s = set_geometry 0 g s0" "bytes_per_page g = 2048" "spare_bytes_per_page g = 64" "ecc_offset g = 12" "hw_ecc_length g = 52"
    using default_geometry [OF cfg(1,3,4,2)] det by (metis FNAND_BBT_DESC_VER_OFFSET_def option.inject prod.inject)
  have gs: "nand_geometry s 0 = g" by (simp add: g(1) set_geometry_def)
  obtain s1 where s1: "FNandWritePage page (Some data) 0 len (Some (spare_of d 64 loc)) 0 FNAND_MAX_SPARE_SIZE 0 s = Some (FT_SUCCESS, s1)"
    "writes_page ecc page data len (spare_of d 64 loc) g (contents cells s) () (contents cells s1)"
    using write_page [OF dv] unfolding gs by blast
  obtain m where m: "contents cells s1 = (contents cells s)(row page := page_written ecc g m (spare_of d 64 loc) (contents cells s (row page)))"
    and pad: "\<forall>i < 2 ^ 15. m i = padded data (min (unat len) 2048) i"
    using s1(2) g(2) by (auto simp: writes_page_def)
  have ff: "(0xff :: u8) = -1" by simp
  have "contents cells s1 (row page) (2048 + 12) = version d AND ecc m 0" if "ver_offset d = 12"
    unfolding m blank ff using that g by (simp add: page_written_def program_def Let_def spare_of_def)
  then show ?thesis using s1(1) pad by blast
qed

text \<open>The device of the default configuration, blank.\<close>

definition toshiba_id :: "nat \<Rightarrow> u8" where
  "toshiba_id i = (if i = 1 then 0xf0 else if i = 3 then 0x15 else 0x98)"

definition tc58 :: FNandNandGeometry where
  "tc58 = the (derive_geometry 2048 64 64 512 1 3 2 (hd FNandConfigTable))"

theorem default_version_masked_witness:
  "\<exists>s s1 m. toshiba_nand_decode_id toshiba_id 0 s = Some (FT_SUCCESS, s) \<and>
    FNandWritePage 5 (Some (\<lambda>_. 1)) 0 128 (Some (spare_of (init_desc sig_primary) 64 (\<lambda>_. 0))) 0 FNAND_MAX_SPARE_SIZE 0 s = Some (FT_SUCCESS, s1) \<and>
    contents (sim_cells 64 0x80001000 ecc0 blank) s1 5 2060 = 0 AND ecc0 m 0"
proof -
  let ?cfg = "hd FNandConfigTable"
  let ?c = "sim_cells 64 0x80001000 ecc0 blank"
  define s where "s = (sim_instance tc58 ecc0 blank)\<lparr>config := ?cfg\<rparr>"
  have t: "derive_geometry 2048 64 64 512 1 3 2 ?cfg = Some tc58" by (simp add: tc58_def derive_geometry_def FNandConfigTable_def)
  have tf: "unat (pages_per_block tc58) = 64" "geom_ok tc58"
    by (simp_all add: tc58_def derive_geometry_def FNandConfigTable_def Let_def FNandGetEccTotalLength_def geom_ok_def)
  have sd: "dev_ok ecc0 ?c (sim_instance tc58 ecc0 blank)" "contents ?c (sim_instance tc58 ecc0 blank) = blank"
    "nand_geometry (sim_instance tc58 ecc0 blank) = (\<lambda>_. tc58)" using sim_dev_ok [OF tf(2), of ecc0 blank] tf(1) by simp_all
  have "prompt s" by (simp add: s_def prompt_def sim_instance_def FNandFlashFuncRegister_def zero_instance_def Let_def)
  then have dv: "dev_ok ecc0 ?c s" using sd(1)
    by (simp add: s_def dev_ok_def flash_device_def registered_def chip_runs_def waits_def)
  have n: "nand_geometry s = (\<lambda>_. tc58)" "contents ?c s = blank" "config s = ?cfg" using sd by (simp_all add: s_def contents_def)
  have l: "FNandLookupConfig 0 = Some ?cfg" by (simp add: FNandLookupConfig_def FNandConfigTable_def)
  have ids: "toshiba_id 1 = 0xf0" "toshiba_id 3 AND 3 = 1" by (simp_all add: toshiba_id_def)
  have "(nand_geometry s)(0 := tc58) = nand_geometry s" using n(1) by (simp add: fun_upd_idem)
  then have "set_geometry 0 tc58 s = s" unfolding set_geometry_def by simp
  then have det: "toshiba_nand_decode_id toshiba_id 0 s = Some (FT_SUCCESS, s)"
    using ids t n(3) by (simp add: toshiba_nand_decode_id_def TC58NVM9S3ETAI0_CHECK_def)
  have r: "row 5 = 5" by (simp add: row_def)
  have "contents ?c s (row 5) = (\<lambda>c. 0xff)" using n(2) by (simp add: blank_def)
  from default_version_masked [OF l n(3) ids det dv this, of "\<lambda>_. 1" 128 "init_desc sig_primary" "\<lambda>_. 0"]
  show ?thesis using det unfolding r by (auto simp: init_desc_def const_defs)
qed

section \<open>Sending a command returns\<close>

lemma poll_returns: "fst (poll_state m n s) \<in> {FT_SUCCESS, FNAND_OP_TIMEOUT}"
  by (induction n arbitrary: s) (auto simp: case_prod_beta Let_def)

lemma poll_timeout:
  assumes "\<And>h. dev (bus s) h (state_reg s) AND m = 0"
  shows "fst (poll_state m n s) = FNAND_OP_TIMEOUT"
  using assms
proof (induction n arbitrary: s)
  case (Suc n)
  let ?t = "snd (FNAND_READREG FNAND_STATE_OFFSET s)"
  have "fst (poll_state m n ?t) = FNAND_OP_TIMEOUT"
    using Suc.prems by (intro Suc.IH) (simp add: state_reg_def frame_fields [OF quiet_frame [OF quiet_READREG]])
  then show ?case using Suc.prems by (simp add: case_prod_beta Let_def READREG_state)
qed (simp add: case_prod_beta Let_def READREG_state)



end
